(* ===== verification/Prelude.thy ===== *)
theory Prelude
  imports Main "HOL-Library.Signed_Division" "HOL-Library.Word"
begin

unbundle bit_operations_syntax

text \<open>
  Shared vocabulary of the development: the C integer model, results of functions that
  may throw a libparted exception, and the collections of rewrite rules the component
  theories extend.

  \<^item> \<open>PedSector\<close> (a C \<open>long long\<close>) is \<open>int\<close>. Overflow of a signed C integer is undefined
    behaviour, so a definition agrees with the code on every run whose intermediate values
    satisfy \<open>in_int64\<close>; the bounds lemmas say when they do.
  \<^item> C's \<open>/\<close> and \<open>%\<close> truncate towards zero: they are \<open>sdiv\<close> and \<open>smod\<close> of
    \<open>HOL-Library.Signed_Division\<close>.
  \<^item> A conversion to the 32-bit type \<open>int\<close> is \<open>c_int\<close> (two's complement truncation).
\<close>

named_theorems geom_simps \<open>unfoldings of the geometry predicates\<close>
named_theorems align_simps \<open>solution sets of alignments\<close>
named_theorems disk_defs \<open>unfoldings of the partition-table operations\<close>

type_synonym PedSector = int

section \<open>C integers\<close>

definition c_int :: "int \<Rightarrow> int" where
  "c_int x = signed_take_bit 31 x"

definition in_int64 :: "int \<Rightarrow> bool" where
  "in_int64 x \<longleftrightarrow> - (2 ^ 63) \<le> x \<and> x < 2 ^ 63"

lemma c_int_id: "- (2 ^ 31) \<le> x \<Longrightarrow> x < 2 ^ 31 \<Longrightarrow> c_int x = x"
  unfolding c_int_def by (rule signed_take_bit_int_eq_self) simp_all

lemma smod_eq_0_iff [simp]: "(a::int) smod b = 0 \<longleftrightarrow> b dvd a"
proof
  assume "a smod b = 0"
  with sdiv_mult_smod_eq[of a b] have "a = a sdiv b * b" by simp
  then show "b dvd a" by (metis dvd_triv_right)
next
  assume "b dvd a"
  then show "a smod b = 0"
    by (simp add: smod_int_alt_def dvd_eq_mod_eq_0[symmetric])
qed

lemma smod_pos_range:
  fixes a b :: int
  assumes "0 < b"
  shows "- b < a smod b" and "a smod b < b"
  using assms smod_int_range[of b a] by auto

lemma smod_nonneg_eq: "0 \<le> a \<Longrightarrow> 0 \<le> b \<Longrightarrow> (a::int) smod b = a mod b"
  by (cases "a = 0") (simp_all add: smod_int_alt_def)

lemma sdiv_nonneg_eq: "0 \<le> a \<Longrightarrow> 0 \<le> b \<Longrightarrow> (a::int) sdiv b = a div b"
  by (cases "a = 0"; cases "b = 0") (simp_all add: signed_divide_int_def)

lemma sdiv_mult_exact: "(b::int) dvd a \<Longrightarrow> a sdiv b * b = a"
  by (metis add.right_neutral sdiv_mult_smod_eq smod_eq_0_iff)

lemma dvd_smod_diff: "(b::int) dvd a - a smod b"
  by (simp add: minus_smod_eq_sdiv_mult)

lemma dvd_between_0:
  assumes "(g::int) dvd d" and "- g < d" and "d < g"
  shows "d = 0"
  using assms dvd_imp_le_int[of d g] by fastforce

lemma gcd_smod_int: "gcd (b::int) (a smod b) = gcd a b"
proof -
  have "gcd b (a smod b) = gcd b (a smod b + a sdiv b * b)"
    by (metis add.commute gcd_add_mult mult.commute)
  also have "\<dots> = gcd a b"
    by (simp add: smod_sdiv_mult_eq gcd.commute)
  finally show ?thesis .
qed

section \<open>C enumeration flags\<close>

text \<open>A C expression \<open>x & mask\<close> used as a condition.\<close>

definition has_bit :: "nat \<Rightarrow> nat \<Rightarrow> bool" where
  "has_bit x m \<longleftrightarrow> x AND m \<noteq> 0"

lemma has_bit_0 [simp]: "\<not> has_bit 0 m"
  by (simp add: has_bit_def)

section \<open>Loops with an early exit\<close>

text \<open>
  \<open>for (x in xs) if (!f (x)) return 0; return 1;\<close> where \<open>f\<close> also changes the state.
\<close>

fun while_ok :: "('a \<Rightarrow> 's \<Rightarrow> bool \<times> 's) \<Rightarrow> 'a list \<Rightarrow> 's \<Rightarrow> bool \<times> 's" where
  "while_ok f [] s = (True, s)"
| "while_ok f (x # xs) s =
     (case f x s of (ok, s') \<Rightarrow> if ok then while_ok f xs s' else (False, s'))"

text \<open>What every step keeps, the loop keeps.\<close>

lemma while_ok_keeps:
  assumes "\<And>x s. x \<in> set xs \<Longrightarrow> P s \<Longrightarrow> P (snd (f x s))" and "P s"
  shows "P (snd (while_ok f xs s))"
  using assms
proof (induction xs arbitrary: s)
  case (Cons x xs)
  then have "P (snd (f x s))" by simp
  with Cons show ?case by (cases "f x s") auto
qed simp

lemma fold_keeps:
  assumes "\<And>x s. x \<in> set xs \<Longrightarrow> P s \<Longrightarrow> P (f x s)" and "P s"
  shows "P (fold f xs s)"
  using assms by (induction xs arbitrary: s) auto

end
