(* ===== verification/Bytes.thy ===== *)
theory Bytes
  imports Prelude
begin

text \<open>
  Memory images: the little-endian bytes of machine words, and the byte-order macros of
  \<open>include/parted/endian.h\<close>. The target (x86 firmware) is little-endian, so that
  \<open>PED_CPU_TO_LE*\<close> and \<open>PED_LE*_TO_CPU\<close> are the identity and the memory image of a
  packed structure is the concatenation of the images of its members.
\<close>

type_synonym byte = "8 word"

definition le_bytes :: "nat \<Rightarrow> 'a::len word \<Rightarrow> byte list" where
  "le_bytes n w = map (\<lambda>i. ucast (drop_bit (8 * i) w)) [0..<n]"

definition of_le :: "byte list \<Rightarrow> 'a::len word" where
  "of_le bs = foldr (\<lambda>b acc. ucast b OR push_bit 8 acc) bs 0"

text \<open>The member of \<open>n\<close> bytes at offset \<open>i\<close> of a structure in memory.\<close>

definition field :: "nat \<Rightarrow> nat \<Rightarrow> byte list \<Rightarrow> byte list" where
  "field i n raw = take n (drop i raw)"

lemma of_le_Nil [simp]: "of_le [] = 0"
  by (simp add: of_le_def)

lemma of_le_Cons: "of_le (b # bs) = (ucast b OR push_bit 8 (of_le bs) :: 'a::len word)"
  by (simp add: of_le_def)

lemma length_le_bytes [simp]: "length (le_bytes n w) = n"
  by (simp add: le_bytes_def)

lemma bit_of_le:
  "bit (of_le bs :: 'a::len word) k \<longleftrightarrow>
     k < LENGTH('a) \<and> k div 8 < length bs \<and> bit (bs ! (k div 8)) (k mod 8)"
proof (induction bs arbitrary: k)
  case (Cons b bs)
  show ?case
  proof (cases "k < 8")
    case True
    then show ?thesis by (auto simp: of_le_Cons bit_or_iff bit_push_bit_iff bit_ucast_iff dest: bit_imp_le_length)
  next
    case False
    then have k: "k = (k - 8) + 8" by simp
    then have d: "k div 8 = Suc ((k - 8) div 8)" "k mod 8 = (k - 8) mod 8"
      by (metis add.commute div_add_self1 plus_1_eq_Suc zero_neq_numeral, metis k mod_add_self2)
    have "\<not> bit b k" using False bit_imp_le_length[of b k] by auto
    then show ?thesis
      using False Cons.IH[of "k - 8"] by (auto simp: of_le_Cons bit_or_iff bit_push_bit_iff bit_ucast_iff d)
  qed
qed simp

lemma nth_le_bytes: "i < n \<Longrightarrow> le_bytes n w ! i = ucast (drop_bit (8 * i) w)"
  by (simp add: le_bytes_def)

lemma of_le_le_bytes:
  assumes "LENGTH('a) = 8 * n"
  shows "of_le (le_bytes n w) = (w :: 'a::len word)"
proof (rule bit_word_eqI)
  fix k assume "k < LENGTH('a)"
  then have "k div 8 < n" using assms by simp
  then show "bit (of_le (le_bytes n w) :: 'a word) k \<longleftrightarrow> bit w k"
    using \<open>k < LENGTH('a)\<close>
    by (simp add: bit_of_le nth_le_bytes bit_ucast_iff bit_drop_bit_eq)
qed

lemma le_bytes_of_le:
  assumes "LENGTH('a) = 8 * n" "length bs = n"
  shows "le_bytes n (of_le bs :: 'a::len word) = bs"
proof (rule nth_equalityI)
  fix i assume "i < length (le_bytes n (of_le bs :: 'a word))"
  then have i: "i < n" by simp
  show "le_bytes n (of_le bs :: 'a word) ! i = bs ! i"
  proof (rule bit_word_eqI)
    fix k assume "k < LENGTH(8)"
    then have k: "k < 8" by simp
    then have "(8 * i + k) div 8 = i" "(8 * i + k) mod 8 = k" "8 * i + k < LENGTH('a)"
      using i assms(1) by (auto simp: div_mult_self4)
    then show "bit (le_bytes n (of_le bs :: 'a word) ! i) k \<longleftrightarrow> bit (bs ! i) k"
      using i k assms(2) by (simp add: nth_le_bytes bit_ucast_iff bit_drop_bit_eq bit_of_le)
  qed
qed (use assms in simp)

lemmas le_roundtrip [simp] =
  of_le_le_bytes[where 'a = 64 and n = 8, simplified] of_le_le_bytes[where 'a = 32 and n = 4, simplified]
  of_le_le_bytes[where 'a = 16 and n = 2, simplified] of_le_le_bytes[where 'a = 8 and n = 1, simplified]

lemma le_bytes_of_nat:
  assumes "8 * n \<le> LENGTH('a)"
  shows "le_bytes n (of_nat m :: 'a::len word) = map (\<lambda>i. of_nat (m div 256 ^ i)) [0..<n]"
proof -
  have "ucast (drop_bit (8 * i) (of_nat m :: 'a word)) = (of_nat (m div 256 ^ i) :: byte)" if "i < n" for i
  proof (rule bit_word_eqI)
    fix k assume "k < LENGTH(8)"
    then have "8 * i + k < LENGTH('a)" using that assms by simp
    moreover have "(256::nat) ^ i = 2 ^ (8 * i)" by (simp add: power_mult)
    ultimately show "bit (ucast (drop_bit (8 * i) (of_nat m :: 'a word)) :: byte) k \<longleftrightarrow>
        bit (of_nat (m div 256 ^ i) :: byte) k"
      using \<open>k < LENGTH(8)\<close> by (simp add: bit_simps flip: drop_bit_eq_div)
  qed
  then show ?thesis by (simp add: le_bytes_def)
qed

section \<open>Byte swapping\<close>

definition GET_BYTE :: "'a::len word \<Rightarrow> nat \<Rightarrow> 'a word" where
  "GET_BYTE x n = drop_bit (8 * n) x AND 0xff"

definition PED_SWAP16 :: "16 word \<Rightarrow> 16 word" where
  "PED_SWAP16 x = push_bit 8 (GET_BYTE x 0) + push_bit 0 (GET_BYTE x 1)"

definition PED_SWAP32 :: "32 word \<Rightarrow> 32 word" where
  "PED_SWAP32 x = push_bit 24 (GET_BYTE x 0) + push_bit 16 (GET_BYTE x 1)
     + push_bit 8 (GET_BYTE x 2) + push_bit 0 (GET_BYTE x 3)"

definition PED_SWAP64 :: "64 word \<Rightarrow> 64 word" where
  "PED_SWAP64 x = push_bit 56 (GET_BYTE x 0) + push_bit 48 (GET_BYTE x 1)
     + push_bit 40 (GET_BYTE x 2) + push_bit 32 (GET_BYTE x 3) + push_bit 24 (GET_BYTE x 4)
     + push_bit 16 (GET_BYTE x 5) + push_bit 8 (GET_BYTE x 6) + push_bit 0 (GET_BYTE x 7)"

text \<open>The macros reverse the bytes of the memory image.\<close>

lemma bit_GET_BYTE: "bit (GET_BYTE x n :: 'a::len word) k \<longleftrightarrow> k < 8 \<and> bit x (8 * n + k)"
proof -
  have "(0xff :: 'a word) = mask 8" by (simp add: mask_eq_exp_minus_1)
  then have "bit (0xff :: 'a word) k \<longleftrightarrow> k < LENGTH('a) \<and> k < 8" by (simp only: bit_mask_iff) auto
  then show ?thesis
    by (auto simp: GET_BYTE_def bit_and_iff bit_drop_bit_eq dest: bit_imp_le_length)
qed

lemma add_eq_or_bytes:
  fixes a x :: "'a::len word"
  assumes "\<And>k. bit a k \<Longrightarrow> m + 8 \<le> k"
  shows "a + push_bit m (GET_BYTE x i) = a OR push_bit m (GET_BYTE x i)"
  by (rule disjunctive_add) (use assms in \<open>force simp: bit_push_bit_iff bit_GET_BYTE\<close>)

lemmas swap_bits = bit_or_iff bit_push_bit_iff bit_GET_BYTE

lemma PED_SWAP16_or: "PED_SWAP16 x = push_bit 8 (GET_BYTE x 0) OR push_bit 0 (GET_BYTE x 1)"
  unfolding PED_SWAP16_def by (rule add_eq_or_bytes) (auto simp: swap_bits)

lemma PED_SWAP32_or:
  "PED_SWAP32 x = push_bit 24 (GET_BYTE x 0) OR push_bit 16 (GET_BYTE x 1)
     OR push_bit 8 (GET_BYTE x 2) OR push_bit 0 (GET_BYTE x 3)"
proof -
  have "push_bit 24 (GET_BYTE x 0) + push_bit 16 (GET_BYTE x 1) =
      push_bit 24 (GET_BYTE x 0) OR push_bit 16 (GET_BYTE x 1)" (is "_ = ?a")
    by (rule add_eq_or_bytes) (auto simp: swap_bits)
  moreover have "?a + push_bit 8 (GET_BYTE x 2) = ?a OR push_bit 8 (GET_BYTE x 2)" (is "_ = ?b")
    by (rule add_eq_or_bytes) (auto simp: swap_bits)
  moreover have "?b + push_bit 0 (GET_BYTE x 3) = ?b OR push_bit 0 (GET_BYTE x 3)"
    by (rule add_eq_or_bytes) (auto simp: swap_bits)
  ultimately show ?thesis unfolding PED_SWAP32_def by (simp add: or.assoc)
qed

lemma swap16_bytes: "le_bytes 2 (PED_SWAP16 x) = rev (le_bytes 2 x)"
proof -
  have "ucast (drop_bit 8 (PED_SWAP16 x)) = (ucast x :: byte)"
    "ucast (PED_SWAP16 x) = (ucast (drop_bit 8 x) :: byte)"
    by (rule bit_word_eqI, auto simp: PED_SWAP16_or bit_ucast_iff bit_drop_bit_eq swap_bits)+
  then show ?thesis by (simp add: le_bytes_def upt_rec)
qed

lemma swap32_bytes: "le_bytes 4 (PED_SWAP32 x) = rev (le_bytes 4 x)"
proof -
  have "ucast (drop_bit 24 (PED_SWAP32 x)) = (ucast x :: byte)"
    "ucast (drop_bit 16 (PED_SWAP32 x)) = (ucast (drop_bit 8 x) :: byte)"
    "ucast (drop_bit 8 (PED_SWAP32 x)) = (ucast (drop_bit 16 x) :: byte)"
    "ucast (PED_SWAP32 x) = (ucast (drop_bit 24 x) :: byte)"
    by (rule bit_word_eqI, auto simp: PED_SWAP32_or bit_ucast_iff bit_drop_bit_eq swap_bits)+
  then show ?thesis by (simp add: le_bytes_def upt_rec numeral_nat)
qed

lemma swap_involution [simp]: "PED_SWAP16 (PED_SWAP16 x) = x" "PED_SWAP32 (PED_SWAP32 y) = y"
proof -
  have "le_bytes 2 (PED_SWAP16 (PED_SWAP16 x)) = le_bytes 2 x" "le_bytes 4 (PED_SWAP32 (PED_SWAP32 y)) = le_bytes 4 y"
    by (simp_all add: swap16_bytes swap32_bytes)
  then have "of_le (le_bytes 2 (PED_SWAP16 (PED_SWAP16 x))) = (of_le (le_bytes 2 x) :: 16 word)"
    "of_le (le_bytes 4 (PED_SWAP32 (PED_SWAP32 y))) = (of_le (le_bytes 4 y) :: 32 word)"
    by simp_all
  then show "PED_SWAP16 (PED_SWAP16 x) = x" "PED_SWAP32 (PED_SWAP32 y) = y" by simp_all
qed

end
