(* ===== verification/Exception.thy ===== *)
theory Exception
  imports Prelude
begin

text \<open>
  Model of \<open>libparted/exception.c\<close> and \<open>include/parted/exception.h\<close>: the pending
  exception, the nesting counter of \<open>ped_exception_fetch_all\<close>, the handler, and the
  operations on them. The formatted text of an exception is kept unformatted (format
  string and arguments); the buffer-growing loop around \<open>vsnprintf\<close> and the out-of-memory
  exits are not modelled. A handler is a pure function of the exception.

  The other components do not thread this state: an operation that throws and then fails
  returns \<open>Inl (Some e)\<close>, one that fails silently returns \<open>Inl None\<close>, and an operation
  that acts on the handler's answer takes that answer as a function \<open>ask\<close>. The lemma
  \<open>throw_answer\<close> says what the answer is in a state of this component.
\<close>

section \<open>Types\<close>

datatype PedExceptionType =
    PED_EXCEPTION_INFORMATION | PED_EXCEPTION_WARNING | PED_EXCEPTION_ERROR
  | PED_EXCEPTION_FATAL | PED_EXCEPTION_BUG | PED_EXCEPTION_NO_FEATURE

text \<open>The options are a bit mask, as in the enumeration of the header.\<close>

type_synonym PedExceptionOption = nat

abbreviation PED_EXCEPTION_UNHANDLED :: PedExceptionOption where "PED_EXCEPTION_UNHANDLED \<equiv> 0"
abbreviation PED_EXCEPTION_FIX :: PedExceptionOption where "PED_EXCEPTION_FIX \<equiv> 1"
abbreviation PED_EXCEPTION_YES :: PedExceptionOption where "PED_EXCEPTION_YES \<equiv> 2"
abbreviation PED_EXCEPTION_NO :: PedExceptionOption where "PED_EXCEPTION_NO \<equiv> 4"
abbreviation PED_EXCEPTION_OK :: PedExceptionOption where "PED_EXCEPTION_OK \<equiv> 8"
abbreviation PED_EXCEPTION_RETRY :: PedExceptionOption where "PED_EXCEPTION_RETRY \<equiv> 16"
abbreviation PED_EXCEPTION_IGNORE :: PedExceptionOption where "PED_EXCEPTION_IGNORE \<equiv> 32"
abbreviation PED_EXCEPTION_CANCEL :: PedExceptionOption where "PED_EXCEPTION_CANCEL \<equiv> 64"
abbreviation PED_EXCEPTION_IGNORE_CANCEL :: PedExceptionOption
  where "PED_EXCEPTION_IGNORE_CANCEL \<equiv> PED_EXCEPTION_IGNORE + PED_EXCEPTION_CANCEL"

datatype ped_arg = AInt int | AStr string

record PedException =
  ex_type :: PedExceptionType
  ex_options :: PedExceptionOption
  ex_format :: string
  ex_args :: "ped_arg list"

type_synonym PedExceptionHandler = "PedException \<Rightarrow> PedExceptionOption"

text \<open>
  The result of an operation that may fail: \<open>Inl (Some e)\<close> after throwing \<open>e\<close>,
  \<open>Inl None\<close> without throwing.
\<close>

type_synonym 'a result = "PedException option + 'a"

definition error_cancel :: "string \<Rightarrow> ped_arg list \<Rightarrow> PedException" where
  "error_cancel fmt args = \<lparr>ex_type = PED_EXCEPTION_ERROR, ex_options = PED_EXCEPTION_CANCEL,
     ex_format = fmt, ex_args = args\<rparr>"

definition error_ignore_cancel :: "string \<Rightarrow> ped_arg list \<Rightarrow> PedException" where
  "error_ignore_cancel fmt args = \<lparr>ex_type = PED_EXCEPTION_ERROR,
     ex_options = PED_EXCEPTION_IGNORE_CANCEL, ex_format = fmt, ex_args = args\<rparr>"

text \<open>The pointer a constructor returns: \<open>NULL\<close> on failure.\<close>

fun ptr_of :: "'a result \<Rightarrow> 'a option" where
  "ptr_of (Inl _) = None"
| "ptr_of (Inr x) = Some x"

lemma ptr_of_eq_Some [simp]: "ptr_of r = Some x \<longleftrightarrow> r = Inr x"
  by (cases r) auto

section \<open>Strings of types and options\<close>

definition type_strings :: "string list" where
  "type_strings = [''Information'', ''Warning'', ''Error'', ''Fatal'', ''Bug'',
     ''No Implementation'']"

definition option_strings :: "string list" where
  "option_strings = [''Fix'', ''Yes'', ''No'', ''OK'', ''Retry'', ''Ignore'', ''Cancel'']"

fun ex_type_val :: "PedExceptionType \<Rightarrow> nat" where
  "ex_type_val PED_EXCEPTION_INFORMATION = 1"
| "ex_type_val PED_EXCEPTION_WARNING = 2"
| "ex_type_val PED_EXCEPTION_ERROR = 3"
| "ex_type_val PED_EXCEPTION_FATAL = 4"
| "ex_type_val PED_EXCEPTION_BUG = 5"
| "ex_type_val PED_EXCEPTION_NO_FEATURE = 6"

definition ped_exception_get_type_string :: "PedExceptionType \<Rightarrow> string" where
  "ped_exception_get_type_string t = type_strings ! (ex_type_val t - 1)"

text \<open>The loop \<open>for (x = 0; 1 << x <= n; x++)\<close> of \<open>ped_log2\<close>.\<close>

function log2_loop :: "nat \<Rightarrow> nat \<Rightarrow> nat" where
  "log2_loop n x = (if 2 ^ x \<le> n then log2_loop n (Suc x) else x)"
  by pat_completeness auto
termination
proof (relation "measure (\<lambda>(n, x). Suc n - x)")
  fix n x :: nat
  assume "2 ^ x \<le> n"
  then have "x < Suc n"
    by (meson less_exp less_SucI order_less_le_trans)
  then show "((n, Suc x), n, x) \<in> measure (\<lambda>(n, x). Suc n - x)"
    by simp
qed simp

declare log2_loop.simps [simp del]

definition ped_log2 :: "nat \<Rightarrow> nat" where
  "ped_log2 n = log2_loop n 0 - 1"

definition ped_exception_get_option_string :: "PedExceptionOption \<Rightarrow> string" where
  "ped_exception_get_option_string opt = option_strings ! ped_log2 opt"

lemma log2_loop_bounds:
  "2 ^ x \<le> n \<Longrightarrow> x < log2_loop n x \<and> 2 ^ (log2_loop n x - 1) \<le> n \<and> n < 2 ^ log2_loop n x"
proof (induction n x rule: log2_loop.induct)
  case (1 n x)
  show ?case
  proof (cases "2 ^ Suc x \<le> n")
    case True
    with "1.IH" "1.prems" show ?thesis
      by (auto simp: log2_loop.simps [of n x])
  next
    case False
    with "1.prems" show ?thesis
      by (simp add: log2_loop.simps [of n x] log2_loop.simps [of n "Suc x"])
  qed
qed

section \<open>State and operations\<close>

record ex_state =
  ped_exception :: bool
  ex_handler :: PedExceptionHandler
  ex_pending :: "PedException option"
  ex_fetch_count :: int

text \<open>\<open>default_handler\<close>, less what it prints on \<open>stderr\<close>.\<close>

definition default_handler :: PedExceptionHandler where
  "default_handler e =
     (if ex_options e = PED_EXCEPTION_OK \<or> ex_options e = PED_EXCEPTION_CANCEL
         \<or> ex_options e = PED_EXCEPTION_IGNORE
      then ex_options e else PED_EXCEPTION_UNHANDLED)"

definition ex_init :: ex_state where
  "ex_init = \<lparr>ped_exception = False, ex_handler = default_handler, ex_pending = None,
     ex_fetch_count = 0\<rparr>"

definition ped_exception_set_handler :: "PedExceptionHandler option \<Rightarrow> ex_state \<Rightarrow> ex_state" where
  "ped_exception_set_handler h st =
     st\<lparr>ex_handler := (case h of Some f \<Rightarrow> f | None \<Rightarrow> default_handler)\<rparr>"

definition ped_exception_get_handler :: "ex_state \<Rightarrow> PedExceptionHandler" where
  "ped_exception_get_handler st = ex_handler st"

definition ped_exception_catch :: "ex_state \<Rightarrow> ex_state" where
  "ped_exception_catch st =
     (if ped_exception st then st\<lparr>ped_exception := False, ex_pending := None\<rparr> else st)"

definition do_throw :: "ex_state \<Rightarrow> PedExceptionOption \<times> ex_state" where
  "do_throw st =
     (let st1 = st\<lparr>ped_exception := True\<rparr> in
      if ex_fetch_count st1 \<noteq> 0 then (PED_EXCEPTION_UNHANDLED, st1)
      else let ex_opt = ex_handler st1 (the (ex_pending st1))
           in (ex_opt, ped_exception_catch st1))"

definition ped_exception_throw ::
    "PedException \<Rightarrow> ex_state \<Rightarrow> PedExceptionOption \<times> ex_state" where
  "ped_exception_throw e st =
     (let st1 = (if ex_pending st \<noteq> None then ped_exception_catch st else st)
      in do_throw (st1\<lparr>ex_pending := Some e\<rparr>))"

definition ped_exception_rethrow :: "ex_state \<Rightarrow> PedExceptionOption \<times> ex_state" where
  "ped_exception_rethrow st = do_throw st"

definition ped_exception_fetch_all :: "ex_state \<Rightarrow> ex_state" where
  "ped_exception_fetch_all st = st\<lparr>ex_fetch_count := ex_fetch_count st + 1\<rparr>"

definition ped_exception_leave_all :: "ex_state \<Rightarrow> ex_state" where
  "ped_exception_leave_all st = st\<lparr>ex_fetch_count := ex_fetch_count st - 1\<rparr>"

lemmas ex_op_defs = ped_exception_set_handler_def ped_exception_catch_def do_throw_def
  ped_exception_throw_def ped_exception_rethrow_def ped_exception_fetch_all_def
  ped_exception_leave_all_def Let_def

text \<open>The flag and the pending exception agree; the fetch counter is never negative.\<close>

definition ex_inv :: "ex_state \<Rightarrow> bool" where
  "ex_inv st \<longleftrightarrow> (ped_exception st \<longleftrightarrow> ex_pending st \<noteq> None) \<and> 0 \<le> ex_fetch_count st"

text \<open>What the caller of \<open>ped_exception_throw\<close> sees.\<close>

definition ask_of :: "ex_state \<Rightarrow> PedExceptionHandler" where
  "ask_of st e = (if ex_fetch_count st \<noteq> 0 then PED_EXCEPTION_UNHANDLED else ex_handler st e)"

lemma throw_answer: "fst (ped_exception_throw e st) = ask_of st e"
  by (auto simp: ex_op_defs ask_of_def)

lemma throw_pending:
  assumes "ex_inv st"
  shows "ex_pending (snd (ped_exception_throw e st)) =
    (if ex_fetch_count st = 0 then None else Some e)"
  using assms by (auto simp: ex_op_defs ex_inv_def)

section \<open>The exception state machine\<close>

text \<open>
  The calls a client may make: \<open>ped_exception_leave_all\<close> must have a preceding
  \<open>ped_exception_fetch_all\<close> (the header's warning) and a rethrow needs an exception.
\<close>

inductive ex_step :: "ex_state \<Rightarrow> ex_state \<Rightarrow> bool" where
  step_throw: "ex_step st (snd (ped_exception_throw e st))"
| step_rethrow: "ex_pending st \<noteq> None \<Longrightarrow> ex_step st (snd (ped_exception_rethrow st))"
| step_catch: "ex_step st (ped_exception_catch st)"
| step_fetch: "ex_step st (ped_exception_fetch_all st)"
| step_leave: "0 < ex_fetch_count st \<Longrightarrow> ex_step st (ped_exception_leave_all st)"
| step_handler: "ex_step st (ped_exception_set_handler h st)"

inductive ex_reachable :: "ex_state \<Rightarrow> bool" where
  ex_start: "ex_reachable ex_init"
| ex_next: "ex_reachable st \<Longrightarrow> ex_step st st' \<Longrightarrow> ex_reachable st'"

lemma ex_step_inv: "ex_step st st' \<Longrightarrow> ex_inv st \<Longrightarrow> ex_inv st'"
  by (induction rule: ex_step.induct) (auto simp: ex_op_defs ex_inv_def)

lemma ex_inv_init: "ex_inv ex_init"
  by (simp add: ex_init_def ex_inv_def)

lemma ex_reachable_inv: "ex_reachable st \<Longrightarrow> ex_inv st"
  by (induction rule: ex_reachable.induct) (auto intro: ex_inv_init ex_step_inv)

section \<open>Properties\<close>

text \<open>
  C28. In every state reached from the initial one, the flag \<open>ped_exception\<close> is set exactly
  when an exception is pending, and the nesting counter of \<open>ped_exception_fetch_all\<close> is not
  negative.
\<close>
theorem exception_state_invariant:
  assumes "ex_reachable st"
  shows "(ped_exception st \<longleftrightarrow> ex_pending st \<noteq> None) \<and> 0 \<le> ex_fetch_count st"
  using ex_reachable_inv[OF assms] by (simp add: ex_inv_def)

lemma reachable_fetched_throw:
  "ex_reachable (snd (ped_exception_throw e (ped_exception_fetch_all ex_init)))"
  by (intro ex_next[OF ex_next[OF ex_start step_fetch] step_throw])

theorem exception_state_invariant_witness:
  "let st = snd (ped_exception_throw (error_cancel ''e'' [AInt 1]) (ped_exception_fetch_all ex_init))
   in ped_exception st \<and> ex_pending st \<noteq> None \<and> 0 \<le> ex_fetch_count st"
  using exception_state_invariant[OF reachable_fetched_throw[of "error_cancel ''e'' [AInt 1]"]]
  by (simp add: ex_op_defs ex_init_def)

text \<open>
  An exception thrown between \<open>ped_exception_fetch_all\<close> and \<open>ped_exception_leave_all\<close>
  is not handled, whatever the handler; it stays pending, and a later
  \<open>ped_exception_rethrow\<close> gives it to the handler, returns the handler's answer and leaves
  the state as if it had been thrown directly.
\<close>
theorem fetched_exception_is_delivered_later:
  assumes "ex_inv st" and "ex_fetch_count st = 0"
  shows "let (opt, st1) = ped_exception_throw e (ped_exception_fetch_all st);
             st2 = ped_exception_leave_all st1
         in opt = PED_EXCEPTION_UNHANDLED \<and> ex_pending st2 = Some e \<and>
            ped_exception_rethrow st2 = ped_exception_throw e st"
  using assms by (cases st) (auto simp: ex_op_defs ex_inv_def split: prod.splits)

theorem fetched_exception_is_delivered_later_witness:
  "let e = error_cancel ''too big'' [];
       (opt, st1) = ped_exception_throw e (ped_exception_fetch_all ex_init);
       st2 = ped_exception_leave_all st1
   in opt = PED_EXCEPTION_UNHANDLED \<and> ex_pending st2 = Some e \<and>
      ped_exception_rethrow st2 = ped_exception_throw e ex_init"
  using fetched_exception_is_delivered_later[OF ex_inv_init, of "error_cancel ''too big'' []"]
  by (simp add: ex_init_def Let_def)

text \<open>
  \<open>ped_log2\<close> is the floor of the binary logarithm of every positive argument, so
  \<open>ped_exception_get_option_string\<close> gives the single option \<open>1 << k\<close> its own string.
\<close>
theorem log2_and_option_string:
  assumes "0 < n" and "k < 7"
  shows "2 ^ ped_log2 n \<le> n \<and> n < 2 ^ Suc (ped_log2 n) \<and>
    ped_exception_get_option_string (2 ^ k) = option_strings ! k"
proof -
  have b: "0 < log2_loop m 0 \<and> 2 ^ (log2_loop m 0 - 1) \<le> m \<and> m < 2 ^ log2_loop m 0"
    if "0 < m" for m using log2_loop_bounds[of 0 m] that by simp
  have "ped_log2 (2 ^ k) = k"
  proof -
    have "(2::nat) ^ ped_log2 (2 ^ k) \<le> 2 ^ k" "(2::nat) ^ k < 2 ^ Suc (ped_log2 (2 ^ k))"
      using b[of "2 ^ k"] by (simp_all add: ped_log2_def)
    then show ?thesis
      by (metis le_antisym less_Suc_eq_le one_less_numeral_iff power_increasing_iff
          power_strict_increasing_iff semiring_norm(76))
  qed
  then show ?thesis using b[OF assms(1)] by (simp add: ped_exception_get_option_string_def ped_log2_def)
qed

theorem log2_and_option_string_witness:
  "2 ^ ped_log2 100 \<le> (100::nat) \<and> 100 < (2::nat) ^ Suc (ped_log2 100) \<and>
   ped_exception_get_option_string (2 ^ 5) = ''Ignore''"
  using log2_and_option_string[of 100 5] by (simp add: option_strings_def)

end
