(* ===== verification/Geom.thy ===== *)
theory Geom
  imports Exception
begin

text \<open>
  Model of the in-memory part of \<open>libparted/cs/geom.c\<close>: regions of a device. The device
  a region lies on is a pointer in the code (\<open>geom->dev\<close>); here it is a reference
  \<open>dev_ref\<close> into a table of devices, so that \<open>a->dev != b->dev\<close> compares references
  and \<open>dev->length\<close> reads the table. Reading and writing a region is in theory \<open>Sector_IO\<close>.
  Assertions (\<open>PED_ASSERT\<close>) expand to nothing in this configuration (\<open>DEBUG\<close> is not
  defined in \<open>lib/config.h\<close>), so they are not branches of the model.
\<close>

section \<open>Devices and regions\<close>

record PedCHSGeometry =
  cylinders :: int
  heads :: int
  sectors :: int

record PedDevice =
  dev_path :: string
  sector_size :: int
  phys_sector_size :: int
  dev_length :: PedSector
  open_count :: int
  read_only :: bool
  external_mode :: bool
  bios_geom :: PedCHSGeometry
  hw_geom :: PedCHSGeometry
  arch_specific :: "nat option"

type_synonym dev_ref = nat
type_synonym dev_table = "dev_ref \<Rightarrow> PedDevice"

record PedGeometry =
  g_dev :: dev_ref
  g_start :: PedSector
  g_length :: PedSector
  g_end :: PedSector

text \<open>The indeterminate contents of an uninitialised local \<open>PedGeometry\<close>.\<close>

definition uninit_geometry :: PedGeometry where
  "uninit_geometry = undefined"

section \<open>Operations\<close>

definition ped_geometry_set :: "PedGeometry \<Rightarrow> PedSector \<Rightarrow> PedSector \<Rightarrow> PedGeometry result" where
  "ped_geometry_set geom start len =
     (if len < 1
      then Inl (Some (error_cancel
        ''Can't have the end before the start! (start sector=%jd length=%jd)''
        [AInt start, AInt len]))
      else Inr (geom\<lparr>g_start := start, g_length := len, g_end := start + len - 1\<rparr>))"

definition ped_geometry_init ::
    "PedGeometry \<Rightarrow> dev_ref \<Rightarrow> PedSector \<Rightarrow> PedSector \<Rightarrow> PedGeometry result" where
  "ped_geometry_init geom dev start len = ped_geometry_set (geom\<lparr>g_dev := dev\<rparr>) start len"

text \<open>
  A local geometry after a call of \<open>ped_geometry_init\<close> whose status is ignored: when the
  call fails only \<open>dev\<close> has been assigned.
\<close>

definition geometry_init_local :: "dev_ref \<Rightarrow> PedSector \<Rightarrow> PedSector \<Rightarrow> PedGeometry" where
  "geometry_init_local dev start len =
     (case ped_geometry_init uninit_geometry dev start len of
        Inl _ \<Rightarrow> uninit_geometry\<lparr>g_dev := dev\<rparr>
      | Inr g \<Rightarrow> g)"

definition ped_geometry_new :: "dev_ref \<Rightarrow> PedSector \<Rightarrow> PedSector \<Rightarrow> PedGeometry result" where
  "ped_geometry_new dev start len = ped_geometry_init uninit_geometry dev start len"

definition ped_geometry_duplicate :: "PedGeometry \<Rightarrow> PedGeometry result" where
  "ped_geometry_duplicate geom = ped_geometry_new (g_dev geom) (g_start geom) (g_length geom)"

definition ped_geometry_intersect ::
    "PedGeometry option \<Rightarrow> PedGeometry option \<Rightarrow> PedGeometry option" where
  "ped_geometry_intersect ao bo =
     (case (ao, bo) of
        (Some a, Some b) \<Rightarrow>
          if g_dev a \<noteq> g_dev b then None
          else let start = max (g_start a) (g_start b);
                   endd = min (g_end a) (g_end b)
               in if start > endd then None
                  else ptr_of (ped_geometry_new (g_dev a) start (endd - start + 1))
      | _ \<Rightarrow> None)"

definition ped_geometry_set_start :: "PedGeometry \<Rightarrow> PedSector \<Rightarrow> PedGeometry result" where
  "ped_geometry_set_start geom start = ped_geometry_set geom start (g_end geom - start + 1)"

definition ped_geometry_set_end :: "PedGeometry \<Rightarrow> PedSector \<Rightarrow> PedGeometry result" where
  "ped_geometry_set_end geom endd =
     ped_geometry_set geom (g_start geom) (endd - g_start geom + 1)"

definition ped_geometry_test_overlap :: "PedGeometry \<Rightarrow> PedGeometry \<Rightarrow> bool" where
  "ped_geometry_test_overlap a b =
     (if g_dev a \<noteq> g_dev b then False
      else if g_start a < g_start b then g_end a \<ge> g_start b
      else g_end b \<ge> g_start a)"

definition ped_geometry_test_inside :: "PedGeometry \<Rightarrow> PedGeometry \<Rightarrow> bool" where
  "ped_geometry_test_inside a b =
     (if g_dev a \<noteq> g_dev b then False
      else g_start b \<ge> g_start a \<and> g_end b \<le> g_end a)"

definition ped_geometry_test_equal :: "PedGeometry \<Rightarrow> PedGeometry \<Rightarrow> bool" where
  "ped_geometry_test_equal a b \<longleftrightarrow>
     g_dev a = g_dev b \<and> g_start a = g_start b \<and> g_end a = g_end b"

definition ped_geometry_test_sector_inside :: "PedGeometry \<Rightarrow> PedSector \<Rightarrow> bool" where
  "ped_geometry_test_sector_inside geom sector \<longleftrightarrow>
     sector \<ge> g_start geom \<and> sector \<le> g_end geom"

definition ped_geometry_map :: "PedGeometry \<Rightarrow> PedGeometry \<Rightarrow> PedSector \<Rightarrow> PedSector" where
  "ped_geometry_map dst src sector =
     (if \<not> ped_geometry_test_sector_inside src sector then - 1
      else if g_dev dst \<noteq> g_dev src then - 1
      else let r = g_start src + sector - g_start dst
           in if r < 0 \<or> r > g_length dst then - 1 else r)"

section \<open>Well-formed regions and the sectors they stand for\<close>

text \<open>The conditions the file header of \<open>geom.c\<close> lists for every geometry.\<close>

definition geom_wf :: "PedGeometry \<Rightarrow> bool" where
  "geom_wf g \<longleftrightarrow> g_start g + g_length g - 1 = g_end g \<and> 0 < g_length g \<and> 0 \<le> g_start g"

definition geom_on_dev :: "dev_table \<Rightarrow> PedGeometry \<Rightarrow> bool" where
  "geom_on_dev devs g \<longleftrightarrow> geom_wf g \<and> g_end g < dev_length (devs (g_dev g))"

text \<open>Specification: a region is a set of sectors of one device.\<close>

definition geom_sectors :: "PedGeometry \<Rightarrow> (dev_ref \<times> PedSector) set" where
  "geom_sectors g = {g_dev g} \<times> {g_start g .. g_end g}"

lemmas [geom_simps] = ped_geometry_set_def ped_geometry_init_def ped_geometry_new_def
  ped_geometry_duplicate_def ped_geometry_test_overlap_def ped_geometry_test_inside_def
  ped_geometry_test_equal_def ped_geometry_test_sector_inside_def geom_wf_def

lemma ped_geometry_new_eq [simp]:
  "0 < len \<Longrightarrow> ped_geometry_new dev start len =
     Inr \<lparr>g_dev = dev, g_start = start, g_length = len, g_end = start + len - 1\<rparr>"
  by (simp add: geom_simps)

lemma ped_geometry_new_span [simp]:
  "s \<le> e \<Longrightarrow> ped_geometry_new dev s (e - s + 1) =
     Inr \<lparr>g_dev = dev, g_start = s, g_length = e - s + 1, g_end = e\<rparr>"
  by simp

lemma geometry_init_local_eq [simp]:
  "0 < len \<Longrightarrow> geometry_init_local dev start len =
     \<lparr>g_dev = dev, g_start = start, g_length = len, g_end = start + len - 1\<rparr>"
  by (simp add: geometry_init_local_def geom_simps)

text \<open>Code equations that do not mention the indeterminate contents.\<close>

lemma ped_geometry_init_code [code]:
  "ped_geometry_init geom dev start len =
     (if len < 1
      then Inl (Some (error_cancel
        ''Can't have the end before the start! (start sector=%jd length=%jd)''
        [AInt start, AInt len]))
      else Inr \<lparr>g_dev = dev, g_start = start, g_length = len, g_end = start + len - 1\<rparr>)"
  by (cases geom) (simp add: geom_simps)

lemma ped_geometry_new_code [code]:
  "ped_geometry_new dev start len =
     (if len < 1
      then Inl (Some (error_cancel
        ''Can't have the end before the start! (start sector=%jd length=%jd)''
        [AInt start, AInt len]))
      else Inr \<lparr>g_dev = dev, g_start = start, g_length = len, g_end = start + len - 1\<rparr>)"
  by (simp add: geom_simps)

lemma geometry_init_local_code [code]:
  "geometry_init_local dev start len =
     (if len < 1 then uninit_geometry\<lparr>g_dev := dev\<rparr>
      else \<lparr>g_dev = dev, g_start = start, g_length = len, g_end = start + len - 1\<rparr>)"
  by (simp add: geometry_init_local_def geom_simps)

lemma ped_geometry_set_wf:
  "ped_geometry_set g start len = Inr g' \<Longrightarrow> 0 \<le> start \<Longrightarrow> geom_wf g' \<and> g_dev g' = g_dev g"
  by (auto simp: geom_simps split: if_splits)

lemma ped_geometry_duplicate_id [simp]: "geom_wf g \<Longrightarrow> ped_geometry_duplicate g = Inr g"
  by (cases g) (auto simp: ped_geometry_duplicate_def geom_wf_def)

lemma geom_wf_nonempty: "geom_wf g \<Longrightarrow> g_start g \<le> g_end g"
  by (simp add: geom_wf_def)

lemma geom_eqI:
  "geom_wf g \<Longrightarrow> geom_wf h \<Longrightarrow> g_dev g = g_dev h \<Longrightarrow> g_start g = g_start h \<Longrightarrow>
     g_end g = g_end h \<Longrightarrow> g = h"
  by (cases g; cases h) (auto simp: geom_wf_def)

lemma geom_sectors_mem [simp]:
  "(d, s) \<in> geom_sectors g \<longleftrightarrow> d = g_dev g \<and> g_start g \<le> s \<and> s \<le> g_end g"
  by (auto simp: geom_sectors_def)

section \<open>The operations compute on sector sets\<close>

lemma intersect_eq:
  "ped_geometry_intersect (Some a) (Some b) =
     (if g_dev a = g_dev b \<and> max (g_start a) (g_start b) \<le> min (g_end a) (g_end b)
      then Some \<lparr>g_dev = g_dev a, g_start = max (g_start a) (g_start b),
        g_length = min (g_end a) (g_end b) - max (g_start a) (g_start b) + 1,
        g_end = min (g_end a) (g_end b)\<rparr>
      else None)"
proof -
  have "(if s > e then None else ptr_of (ped_geometry_new d s (e - s + 1))) =
      (if s \<le> e then Some \<lparr>g_dev = d, g_start = s, g_length = e - s + 1, g_end = e\<rparr> else None)"
    for s e d by (cases "s \<le> e") simp_all
  then show ?thesis
    by (simp only: ped_geometry_intersect_def Let_def prod.case option.case) simp
qed

lemma intersect_None:
  "ped_geometry_intersect (Some a) (Some b) = None \<longleftrightarrow>
     geom_sectors a \<inter> geom_sectors b = {}"
proof -
  have "geom_sectors a \<inter> geom_sectors b =
      ({g_dev a} \<inter> {g_dev b}) \<times>
      {max (g_start a) (g_start b) .. min (g_end a) (g_end b)}"
    unfolding geom_sectors_def Times_Int_Times Int_atLeastAtMost ..
  then show ?thesis
    unfolding intersect_eq by (simp del: max.bounded_iff min.bounded_iff)
qed

lemma intersect_None_sector:
  assumes "ped_geometry_intersect (Some a) (Some b) = None" "g_dev a = g_dev b"
  shows "\<not> (g_start a \<le> s \<and> s \<le> g_end a \<and> g_start b \<le> s \<and> s \<le> g_end b)"
proof -
  have "(g_dev a, s) \<notin> geom_sectors a \<inter> geom_sectors b"
    using assms(1) unfolding intersect_None by blast
  then show ?thesis using assms(2) by simp
qed

lemma intersect_dest:
  assumes "ped_geometry_intersect (Some a) (Some b) = Some c"
  shows "g_dev c = g_dev a" "g_dev b = g_dev a" "g_start c = max (g_start a) (g_start b)"
    "g_end c = min (g_end a) (g_end b)" "g_start c \<le> g_end c"
    "g_length c = g_end c - g_start c + 1"
  using assms by (auto simp: intersect_eq split: if_splits)

lemma intersect_Some:
  assumes "geom_wf a" and "geom_wf b"
    and c: "ped_geometry_intersect (Some a) (Some b) = Some c"
  shows "geom_wf c" and "geom_sectors c = geom_sectors a \<inter> geom_sectors b"
proof -
  note d = intersect_dest[OF c]
  show "geom_wf c"
    using assms(1) d by (simp add: geom_wf_def le_max_iff_disj)
  have "x \<in> geom_sectors c \<longleftrightarrow> x \<in> geom_sectors a \<inter> geom_sectors b" for x
    by (cases x) (auto simp: d)
  then show "geom_sectors c = geom_sectors a \<inter> geom_sectors b" by blast
qed

lemma overlap_iff:
  assumes "geom_wf a" and "geom_wf b"
  shows "ped_geometry_test_overlap a b \<longleftrightarrow> geom_sectors a \<inter> geom_sectors b \<noteq> {}"
proof -
  have "geom_sectors a \<inter> geom_sectors b \<noteq> {} \<longleftrightarrow>
      ped_geometry_intersect (Some a) (Some b) \<noteq> None"
    using intersect_None[of a b] by simp
  also have "\<dots> \<longleftrightarrow> ped_geometry_test_overlap a b"
    using assms[THEN geom_wf_nonempty]
    by (auto simp: intersect_eq ped_geometry_test_overlap_def)
  finally show ?thesis by simp
qed

lemma inside_iff:
  assumes "geom_wf b"
  shows "ped_geometry_test_inside a b \<longleftrightarrow> geom_sectors b \<subseteq> geom_sectors a"
proof
  assume "ped_geometry_test_inside a b"
  then show "geom_sectors b \<subseteq> geom_sectors a"
    by (auto simp: ped_geometry_test_inside_def geom_sectors_def split: if_splits)
next
  assume sub: "geom_sectors b \<subseteq> geom_sectors a"
  have "(g_dev b, g_start b) \<in> geom_sectors b" "(g_dev b, g_end b) \<in> geom_sectors b"
    using geom_wf_nonempty[OF assms] by simp_all
  then have "(g_dev b, g_start b) \<in> geom_sectors a" "(g_dev b, g_end b) \<in> geom_sectors a"
    using sub by blast+
  then show "ped_geometry_test_inside a b"
    by (auto simp: ped_geometry_test_inside_def)
qed

lemma equal_iff:
  assumes "geom_wf a" and "geom_wf b"
  shows "ped_geometry_test_equal a b \<longleftrightarrow> a = b"
  using assms geom_eqI by (auto simp: ped_geometry_test_equal_def)

section \<open>Properties\<close>

text \<open>
  \<open>ped_geometry_intersect\<close> returns the region of exactly the common sectors of its two
  arguments, well formed again, and \<open>NULL\<close> exactly when they have none.
\<close>
theorem geometry_intersect_correct:
  assumes "geom_wf a" and "geom_wf b"
  shows "case ped_geometry_intersect (Some a) (Some b) of
      None \<Rightarrow> geom_sectors a \<inter> geom_sectors b = {}
    | Some c \<Rightarrow> geom_wf c \<and> geom_sectors c = geom_sectors a \<inter> geom_sectors b"
  using intersect_None[of a b] intersect_Some[OF assms] by (auto split: option.splits)

theorem geometry_intersect_correct_witness:
  "ped_geometry_intersect (Some (geometry_init_local 0 10 20)) (Some (geometry_init_local 0 25 50))
     = Some (geometry_init_local 0 25 5) \<and>
   geom_sectors (geometry_init_local 0 25 5) =
     geom_sectors (geometry_init_local 0 10 20) \<inter> geom_sectors (geometry_init_local 0 25 50)"
proof -
  have "ped_geometry_intersect (Some (geometry_init_local 0 10 20))
      (Some (geometry_init_local 0 25 50)) = Some (geometry_init_local 0 25 5)"
    by (simp add: intersect_eq)
  with geometry_intersect_correct[of "geometry_init_local 0 10 20" "geometry_init_local 0 25 50"]
  show ?thesis by (simp add: geom_wf_def)
qed

text \<open>
  The comparisons of regions are the set comparisons: \<open>ped_geometry_test_overlap\<close> says
  whether two regions share a sector, \<open>ped_geometry_test_inside\<close> whether every sector of
  the second lies in the first, and \<open>ped_geometry_test_equal\<close> whether they are the same.
\<close>
theorem geometry_tests_correct:
  assumes "geom_wf a" and "geom_wf b"
  shows "(ped_geometry_test_overlap a b \<longleftrightarrow> geom_sectors a \<inter> geom_sectors b \<noteq> {}) \<and>
    (ped_geometry_test_inside a b \<longleftrightarrow> geom_sectors b \<subseteq> geom_sectors a) \<and>
    (ped_geometry_test_equal a b \<longleftrightarrow> a = b)"
  using overlap_iff[OF assms] inside_iff[OF assms(2)] equal_iff[OF assms] by blast

theorem geometry_tests_correct_witness:
  "geom_sectors (geometry_init_local 3 10 20) \<inter> geom_sectors (geometry_init_local 3 29 1) \<noteq> {} \<and>
   geom_sectors (geometry_init_local 3 29 1) \<subseteq> geom_sectors (geometry_init_local 3 10 20) \<and>
   geometry_init_local 3 10 20 \<noteq> geometry_init_local 3 29 1"
  using geometry_tests_correct[of "geometry_init_local 3 10 20" "geometry_init_local 3 29 1"]
  by (simp add: geom_simps)

end
