(* ===== verification/Natmath.thy ===== *)
theory Natmath
  imports Geom
begin

text \<open>
  Model of \<open>libparted/cs/natmath.c\<close>: rounding to a grain, the Euclidean algorithms, and
  alignments (arithmetic progressions of sectors) with their intersection and the search
  for the aligned sector nearest to a given one. An alignment object is a pointer in the
  code; \<open>NULL\<close> (no solution) is \<open>None\<close>. Division by zero is undefined in C and is 0
  in HOL: the lemmas that need it carry the hypothesis that excludes it.
\<close>

section \<open>Rounding\<close>

record PedAlignment =
  offset :: PedSector
  grain_size :: PedSector

definition ped_alignment_any :: "PedAlignment option" where
  "ped_alignment_any = Some \<lparr>offset = 0, grain_size = 1\<rparr>"

definition ped_alignment_none :: "PedAlignment option" where
  "ped_alignment_none = None"

definition abs_mod :: "PedSector \<Rightarrow> PedSector \<Rightarrow> PedSector" where
  "abs_mod a b = (if a < 0 then a smod b + b else a smod b)"

definition ped_round_down_to :: "PedSector \<Rightarrow> PedSector \<Rightarrow> PedSector" where
  "ped_round_down_to sector grain = sector - abs_mod sector grain"

definition ped_round_up_to :: "PedSector \<Rightarrow> PedSector \<Rightarrow> PedSector" where
  "ped_round_up_to sector grain =
     (if sector smod grain \<noteq> 0 then ped_round_down_to sector grain + grain else sector)"

definition ped_round_to_nearest :: "PedSector \<Rightarrow> PedSector \<Rightarrow> PedSector" where
  "ped_round_to_nearest sector grain =
     (if sector smod grain > grain sdiv 2 then ped_round_up_to sector grain
      else ped_round_down_to sector grain)"

definition ped_div_round_up :: "PedSector \<Rightarrow> PedSector \<Rightarrow> PedSector" where
  "ped_div_round_up numerator divisor = (numerator + divisor - 1) sdiv divisor"

definition ped_div_round_to_nearest :: "PedSector \<Rightarrow> PedSector \<Rightarrow> PedSector" where
  "ped_div_round_to_nearest numerator divisor = (numerator + divisor sdiv 2) sdiv divisor"

text \<open>
  The recursion of \<open>ped_greatest_common_divisor\<close> only stops for non-negative arguments
  (which its disabled assertions ask for): not returning is \<open>None\<close>.
\<close>

partial_function (option) ped_greatest_common_divisor ::
    "PedSector \<Rightarrow> PedSector \<Rightarrow> PedSector option" where
  "ped_greatest_common_divisor a b =
     (if b > a then ped_greatest_common_divisor b a
      else if b \<noteq> 0 then ped_greatest_common_divisor b (a smod b)
      else Some a)"

text \<open>The result triple of \<open>extended_euclid\<close>; its arguments are C \<open>int\<close>s.\<close>

record EuclidTriple =
  e_gcd :: PedSector
  e_x :: PedSector
  e_y :: PedSector

function extended_euclid :: "int \<Rightarrow> int \<Rightarrow> EuclidTriple" where
  "extended_euclid a b =
     (if b = 0 then \<lparr>e_gcd = a, e_x = 1, e_y = 0\<rparr>
      else let tmp = extended_euclid b (a smod b)
           in \<lparr>e_gcd = e_gcd tmp, e_x = e_y tmp, e_y = e_x tmp - (a sdiv b) * e_y tmp\<rparr>)"
  by pat_completeness auto
termination
proof (relation "measure (\<lambda>(a, b). nat \<bar>b\<bar>)")
  fix a b :: int
  assume "b \<noteq> 0"
  then show "((b, a smod b), a, b) \<in> measure (\<lambda>(a, b). nat \<bar>b\<bar>)"
    using smod_int_range[of b a] by auto
qed simp

declare extended_euclid.simps [simp del]

section \<open>Alignments\<close>

definition ped_alignment_init ::
    "PedAlignment \<Rightarrow> PedSector \<Rightarrow> PedSector \<Rightarrow> PedAlignment option" where
  "ped_alignment_init align off grain =
     (if grain < 0 then None
      else Some (align\<lparr>offset := (if grain \<noteq> 0 then abs_mod off grain else off),
                       grain_size := grain\<rparr>))"

definition ped_alignment_new :: "PedSector \<Rightarrow> PedSector \<Rightarrow> PedAlignment option" where
  "ped_alignment_new off grain = ped_alignment_init undefined off grain"

definition ped_alignment_duplicate :: "PedAlignment option \<Rightarrow> PedAlignment option" where
  "ped_alignment_duplicate align =
     (case align of None \<Rightarrow> None
      | Some a \<Rightarrow> ped_alignment_new (offset a) (grain_size a))"

text \<open>The body of \<open>ped_alignment_intersect\<close> after the two arguments have been ordered.\<close>

definition alignment_intersect_ordered ::
    "PedAlignment \<Rightarrow> PedAlignment \<Rightarrow> PedAlignment option" where
  "alignment_intersect_ordered a b =
     (if grain_size a = 0 \<and> grain_size b = 0 then
        (if offset a = offset b then ped_alignment_duplicate (Some a) else None)
      else
        let gcd_factors = extended_euclid (c_int (grain_size a)) (c_int (grain_size b));
            delta_on_gcd = (offset b - offset a) sdiv e_gcd gcd_factors;
            new_offset = offset a + e_x gcd_factors * delta_on_gcd * grain_size a;
            new_grain_size = grain_size a * grain_size b sdiv e_gcd gcd_factors
        in if new_offset \<noteq> offset b - e_y gcd_factors * delta_on_gcd * grain_size b
           then None
           else ped_alignment_new new_offset new_grain_size)"

definition ped_alignment_intersect ::
    "PedAlignment option \<Rightarrow> PedAlignment option \<Rightarrow> PedAlignment option" where
  "ped_alignment_intersect ao bo =
     (case (ao, bo) of
        (Some a, Some b) \<Rightarrow>
          if grain_size a < grain_size b then alignment_intersect_ordered b a
          else alignment_intersect_ordered a b
      | _ \<Rightarrow> None)"

definition ped_alignment_is_aligned ::
    "PedAlignment option \<Rightarrow> PedGeometry option \<Rightarrow> PedSector \<Rightarrow> bool" where
  "ped_alignment_is_aligned align geom sector =
     (case align of None \<Rightarrow> False
      | Some a \<Rightarrow>
          if (case geom of None \<Rightarrow> False
              | Some g \<Rightarrow> \<not> ped_geometry_test_sector_inside g sector) then False
          else if grain_size a \<noteq> 0 then (sector - offset a) smod grain_size a = 0
          else sector = offset a)"

definition closest_inside_geometry ::
    "PedAlignment \<Rightarrow> PedGeometry \<Rightarrow> PedSector \<Rightarrow> PedSector" where
  "closest_inside_geometry align geom sector =
     (if grain_size align = 0 then
        (if ped_alignment_is_aligned (Some align) (Some geom) sector
            \<and> ped_geometry_test_sector_inside geom sector then sector else - 1)
      else
        let s1 = (if sector < g_start geom
                  then sector + ped_round_up_to (g_start geom - sector) (grain_size align)
                  else sector);
            s2 = (if s1 > g_end geom
                  then s1 - ped_round_up_to (s1 - g_end geom) (grain_size align)
                  else s1)
        in if \<not> ped_geometry_test_sector_inside geom s2 then - 1 else s2)"

definition ped_alignment_align_up ::
    "PedAlignment \<Rightarrow> PedGeometry option \<Rightarrow> PedSector \<Rightarrow> PedSector" where
  "ped_alignment_align_up align geom sector =
     (let r = (if grain_size align = 0 then offset align
               else ped_round_up_to (sector - offset align) (grain_size align) + offset align)
      in case geom of None \<Rightarrow> r | Some g \<Rightarrow> closest_inside_geometry align g r)"

definition ped_alignment_align_down ::
    "PedAlignment \<Rightarrow> PedGeometry option \<Rightarrow> PedSector \<Rightarrow> PedSector" where
  "ped_alignment_align_down align geom sector =
     (let r = (if grain_size align = 0 then offset align
               else ped_round_down_to (sector - offset align) (grain_size align) + offset align)
      in case geom of None \<Rightarrow> r | Some g \<Rightarrow> closest_inside_geometry align g r)"

definition closest :: "PedSector \<Rightarrow> PedSector \<Rightarrow> PedSector \<Rightarrow> PedSector" where
  "closest sector a b =
     (if a = - 1 then b else if b = - 1 then a
      else if \<bar>sector - a\<bar> < \<bar>sector - b\<bar> then a else b)"

definition ped_alignment_align_nearest ::
    "PedAlignment \<Rightarrow> PedGeometry option \<Rightarrow> PedSector \<Rightarrow> PedSector" where
  "ped_alignment_align_nearest align geom sector =
     closest sector (ped_alignment_align_up align geom sector)
       (ped_alignment_align_down align geom sector)"

section \<open>Rounding lemmas\<close>

lemma abs_mod_cong: "b dvd a - abs_mod a b"
proof -
  have "b dvd a - a smod b" by (rule dvd_smod_diff)
  moreover from this have "b dvd a - a smod b - b" by simp
  ultimately show ?thesis by (simp add: abs_mod_def diff_diff_eq)
qed

lemma abs_mod_bounds:
  assumes "0 < b"
  shows "0 \<le> abs_mod a b" and "abs_mod a b \<le> b"
    and "0 \<le> a \<or> \<not> b dvd a \<Longrightarrow> abs_mod a b < b"
proof -
  have "a smod b \<le> 0" if "a < 0" using that assms smod_int_compares(4)[of a b] by simp
  moreover have "0 \<le> a smod b" if "0 \<le> a" using that assms smod_int_compares(2)[of a b] by simp
  moreover note smod_pos_range[OF assms, of a] smod_eq_0_iff[of a b]
  ultimately show "0 \<le> abs_mod a b" "abs_mod a b \<le> b"
    "0 \<le> a \<or> \<not> b dvd a \<Longrightarrow> abs_mod a b < b"
    by (auto simp: abs_mod_def simp del: smod_eq_0_iff)
qed

lemma round_down_dvd: "grain dvd ped_round_down_to s grain"
  by (simp add: ped_round_down_to_def abs_mod_cong)

lemma round_down_bounds:
  assumes "0 < grain"
  shows "ped_round_down_to s grain \<le> s" and "s - grain \<le> ped_round_down_to s grain"
    and "0 \<le> s \<or> \<not> grain dvd s \<Longrightarrow> s - grain < ped_round_down_to s grain"
  using abs_mod_bounds[OF assms, of s] by (auto simp: ped_round_down_to_def)

lemma round_up_dvd: "grain dvd ped_round_up_to s grain"
  by (auto simp: ped_round_up_to_def round_down_dvd)

lemma round_up_bounds:
  assumes "0 < grain"
  shows "s \<le> ped_round_up_to s grain" and "ped_round_up_to s grain < s + grain"
proof -
  have "ped_round_down_to s grain \<noteq> s \<or> grain dvd s" using round_down_dvd by metis
  then show "s \<le> ped_round_up_to s grain" "ped_round_up_to s grain < s + grain"
    using round_down_bounds[OF assms, of s] assms by (auto simp: ped_round_up_to_def)
qed

lemma round_up_exact: "grain dvd s \<Longrightarrow> ped_round_up_to s grain = s"
  by (simp add: ped_round_up_to_def)

section \<open>The Euclidean algorithms\<close>

lemma extended_euclid_0 [simp]: "extended_euclid a 0 = \<lparr>e_gcd = a, e_x = 1, e_y = 0\<rparr>"
  by (simp add: extended_euclid.simps)

lemma extended_euclid_bezout:
  "e_gcd (extended_euclid a b) =
     e_x (extended_euclid a b) * a + e_y (extended_euclid a b) * b"
proof (induction a b rule: extended_euclid.induct)
  case (1 a b)
  show ?case
  proof (cases "b = 0")
    case True
    then show ?thesis by (simp add: extended_euclid.simps)
  next
    case False
    define t where "t = extended_euclid b (a smod b)"
    have "e_gcd t = e_x t * b + e_y t * (a smod b)"
      using 1 False by (simp add: t_def)
    also have "a smod b = a - a sdiv b * b"
      by (simp add: minus_sdiv_mult_eq_smod)
    finally have "e_gcd t = e_y t * a + (e_x t - a sdiv b * e_y t) * b"
      by (simp add: algebra_simps)
    with False show ?thesis
      by (simp add: extended_euclid.simps [of a b] Let_def t_def)
  qed
qed

lemma extended_euclid_gcd:
  "0 \<le> a \<Longrightarrow> 0 \<le> b \<Longrightarrow> e_gcd (extended_euclid a b) = gcd a b"
proof (induction a b rule: extended_euclid.induct)
  case (1 a b)
  then show ?case
    by (cases "b = 0")
      (simp_all add: extended_euclid.simps [of a b] Let_def gcd_smod_int smod_int_compares(2))
qed

lemma extended_euclid_bounds:
  "0 \<le> a \<Longrightarrow> 0 \<le> b \<Longrightarrow>
     \<bar>e_x (extended_euclid a b)\<bar> \<le> max 1 b \<and> \<bar>e_y (extended_euclid a b)\<bar> \<le> max 1 a"
proof (induction a b rule: extended_euclid.induct)
  case (1 a b)
  show ?case
  proof (cases "b = 0")
    case True
    then show ?thesis by (simp add: extended_euclid.simps)
  next
    case False
    with 1 have b: "0 < b" by simp
    let ?r = "a smod b" and ?t = "extended_euclid b (a smod b)"
    have r: "0 \<le> ?r" "?r < b" using 1 b by (simp_all add: smod_int_compares)
    have IH: "\<bar>e_x ?t\<bar> \<le> max 1 ?r" "\<bar>e_y ?t\<bar> \<le> b" using 1 False r b by auto
    have q: "0 \<le> a sdiv b" "a = a sdiv b * b + ?r"
      using 1 b by (simp_all add: sdiv_nonneg_eq sdiv_mult_smod_eq pos_imp_zdiv_nonneg_iff
          smod_mod_positive)
    have "\<bar>e_x ?t - a sdiv b * e_y ?t\<bar> \<le> max 1 a"
    proof (cases "?r = 0")
      case True
      then have "?t = \<lparr>e_gcd = b, e_x = 1, e_y = 0\<rparr>" by (simp add: extended_euclid.simps)
      then show ?thesis by simp
    next
      case False
      have "\<bar>e_x ?t - a sdiv b * e_y ?t\<bar> \<le> \<bar>e_x ?t\<bar> + a sdiv b * \<bar>e_y ?t\<bar>"
        using abs_triangle_ineq4[of "e_x ?t" "a sdiv b * e_y ?t"] q(1) by (simp add: abs_mult)
      also have "\<dots> \<le> ?r + a sdiv b * b"
        using IH False r q(1) by (intro add_mono mult_left_mono) auto
      finally show ?thesis using q(2) by simp
    qed
    with IH False b show ?thesis by (simp add: extended_euclid.simps [of a b] Let_def)
  qed
qed

lemma ped_gcd_correct:
  assumes "0 \<le> a" and "0 \<le> b"
  shows "ped_greatest_common_divisor a b = Some (gcd a b)"
proof -
  have ord: "ped_greatest_common_divisor a b = Some (gcd a b)" if "0 \<le> b" "b \<le> a" for a b
    using that
  proof (induction "nat b" arbitrary: a b rule: less_induct)
    case less
    show ?case
    proof (cases "b = 0")
      case True
      with less.prems show ?thesis by (simp add: ped_greatest_common_divisor.simps)
    next
      case False
      have r: "0 \<le> a smod b" "a smod b < b"
        using less.prems False by (simp_all add: smod_int_compares)
      then have "ped_greatest_common_divisor b (a smod b) = Some (gcd b (a smod b))"
        using less.hyps[of "a smod b" b] by simp
      with False less.prems show ?thesis
        by (simp add: ped_greatest_common_divisor.simps [of a b] gcd_smod_int)
    qed
  qed
  show ?thesis
  proof (cases "b > a")
    case True
    with assms ord[of a b] show ?thesis
      by (simp add: ped_greatest_common_divisor.simps [of a b] gcd.commute)
  next
    case False
    with assms ord[of b a] show ?thesis by simp
  qed
qed

section \<open>Solution sets\<close>

text \<open>Specification: the sectors \<open>offset + X * grain_size\<close>.\<close>

definition aligned :: "PedAlignment \<Rightarrow> PedSector \<Rightarrow> bool" where
  "aligned a s \<longleftrightarrow> (\<exists>k. s = offset a + k * grain_size a)"

definition align_wf :: "PedAlignment \<Rightarrow> bool" where
  "align_wf a \<longleftrightarrow> 0 \<le> grain_size a"

lemma aligned_dvd: "aligned a s \<longleftrightarrow> grain_size a dvd s - offset a"
proof
  assume "aligned a s"
  then show "grain_size a dvd s - offset a" by (auto simp: aligned_def)
next
  assume "grain_size a dvd s - offset a"
  then obtain k where "s - offset a = grain_size a * k" ..
  then have "s = offset a + k * grain_size a" by (simp add: algebra_simps)
  then show "aligned a s" by (auto simp: aligned_def)
qed

lemma is_aligned_iff [simp]: "ped_alignment_is_aligned (Some a) None s \<longleftrightarrow> aligned a s"
  by (auto simp: ped_alignment_is_aligned_def aligned_dvd)

lemma is_aligned_geom_iff [simp]:
  "ped_alignment_is_aligned (Some a) (Some g) s \<longleftrightarrow>
     aligned a s \<and> g_start g \<le> s \<and> s \<le> g_end g"
  by (auto simp: ped_alignment_is_aligned_def aligned_dvd ped_geometry_test_sector_inside_def)

lemma aligned_any [simp]: "ped_alignment_any = Some a \<Longrightarrow> aligned a s"
  by (auto simp: ped_alignment_any_def aligned_dvd)

lemma ped_alignment_init_code [code]:
  "ped_alignment_init align off grain =
     (if grain < 0 then None
      else Some \<lparr>offset = (if grain \<noteq> 0 then abs_mod off grain else off), grain_size = grain\<rparr>)"
  by (simp add: ped_alignment_init_def)

lemma alignment_new_Some:
  "0 \<le> grain \<Longrightarrow> \<exists>a. ped_alignment_new off grain = Some a \<and> align_wf a \<and>
     grain_size a = grain \<and> (\<forall>s. aligned a s \<longleftrightarrow> grain dvd s - off)"
proof -
  assume g: "0 \<le> grain"
  have "grain dvd s - abs_mod off grain \<longleftrightarrow> grain dvd s - off" for s
    using dvd_add_right_iff[OF abs_mod_cong[of grain off], of "s - off"] by simp
  with g show ?thesis
    by (auto simp: ped_alignment_new_def ped_alignment_init_def align_wf_def aligned_dvd)
qed

lemma alignment_new_None: "ped_alignment_new off grain = None \<longleftrightarrow> grain < 0"
  by (simp add: ped_alignment_new_def ped_alignment_init_def)

lemma alignment_duplicate_Some:
  "align_wf a \<Longrightarrow> \<exists>b. ped_alignment_duplicate (Some a) = Some b \<and> align_wf b \<and>
     grain_size b = grain_size a \<and> aligned b = aligned a"
  using alignment_new_Some[of "grain_size a" "offset a"]
  by (auto simp: ped_alignment_duplicate_def align_wf_def aligned_dvd fun_eq_iff)

section \<open>Intersection of alignments\<close>

text \<open>Grain sizes that survive the conversion to the \<open>int\<close> parameters of \<open>extended_euclid\<close>.\<close>

definition align_small :: "PedAlignment \<Rightarrow> bool" where
  "align_small a \<longleftrightarrow> 0 \<le> grain_size a \<and> grain_size a < 2 ^ 31"

lemma align_small_wf [simp]: "align_small a \<Longrightarrow> align_wf a"
  by (simp add: align_small_def align_wf_def)

lemma align_small_c_int: "align_small a \<Longrightarrow> c_int (grain_size a) = grain_size a"
  by (simp add: align_small_def c_int_id)

lemma crt_offset:
  fixes x y p q g :: int
  assumes bez: "g = x * p + y * q" and d: "d = e * g"
  shows "p dvd s - (o1 + x * e * p) \<longleftrightarrow> p dvd s - o1"
    and "d = o2 - o1 \<Longrightarrow> o1 + x * e * p = o2 - y * e * q"
proof -
  have "s - o1 = (s - (o1 + x * e * p)) + p * (x * e)" by (simp add: algebra_simps)
  then show "p dvd s - (o1 + x * e * p) \<longleftrightarrow> p dvd s - o1"
    by (metis dvd_add_left_iff dvd_triv_left)
  show "d = o2 - o1 \<Longrightarrow> o1 + x * e * p = o2 - y * e * q"
    using assms by (simp add: algebra_simps)
qed

lemma lcm_dvd_diff:
  fixes p q s :: int
  assumes "0 \<le> p" "0 \<le> q" "p \<noteq> 0 \<or> q \<noteq> 0"
  shows "p * q sdiv gcd p q dvd s \<longleftrightarrow> p dvd s \<and> q dvd s"
proof -
  have "p * q sdiv gcd p q = lcm p q"
    using assms by (simp add: sdiv_nonneg_eq lcm_gcd pos_imp_zdiv_nonneg_iff)
  then show ?thesis by simp
qed

lemma intersect_ordered_spec:
  assumes a: "align_small a" and b: "align_small b"
  shows "case alignment_intersect_ordered a b of
      None \<Rightarrow> \<forall>s. \<not> (aligned a s \<and> aligned b s)
    | Some c \<Rightarrow> align_wf c \<and> (\<forall>s. aligned c s \<longleftrightarrow> aligned a s \<and> aligned b s)"
proof (cases "grain_size a = 0 \<and> grain_size b = 0")
  case True
  then show ?thesis
    using alignment_duplicate_Some[of a] a
    by (auto simp: alignment_intersect_ordered_def aligned_dvd align_small_def align_wf_def)
next
  case False
  let ?p = "grain_size a" and ?q = "grain_size b"
  define t where "t = extended_euclid ?p ?q"
  define e where "e = (offset b - offset a) sdiv e_gcd t"
  define n where "n = offset a + e_x t * e * ?p"
  have p: "0 \<le> ?p" and q: "0 \<le> ?q" using a b by (simp_all add: align_small_def)
  have g: "e_gcd t = gcd ?p ?q" using p q by (simp add: t_def extended_euclid_gcd)
  have bez: "gcd ?p ?q = e_x t * ?p + e_y t * ?q"
    using extended_euclid_bezout[of ?p ?q] g by (simp add: t_def)
  have unf: "alignment_intersect_ordered a b =
      (if n \<noteq> offset b - e_y t * e * ?q then None
       else ped_alignment_new n (?p * ?q sdiv gcd ?p ?q))"
    unfolding alignment_intersect_ordered_def Let_def if_not_P[OF False]
      align_small_c_int[OF a] align_small_c_int[OF b] g[symmetric] n_def e_def t_def
    by (rule refl)
  have cons: "n = offset b - e_y t * e * ?q \<longleftrightarrow> gcd ?p ?q dvd offset b - offset a"
  proof
    assume "n = offset b - e_y t * e * ?q"
    then have "offset b - offset a = e * gcd ?p ?q"
      using bez by (simp add: n_def algebra_simps)
    then show "gcd ?p ?q dvd offset b - offset a" by (metis dvd_triv_right)
  next
    assume "gcd ?p ?q dvd offset b - offset a"
    then have "offset b - offset a = e * gcd ?p ?q" by (simp add: e_def g sdiv_mult_exact)
    from crt_offset(2)[OF bez this refl] show "n = offset b - e_y t * e * ?q"
      by (simp add: n_def)
  qed
  have nosol: "gcd ?p ?q dvd offset b - offset a" if "aligned a s" "aligned b s" for s
  proof -
    have "gcd ?p ?q dvd (s - offset a) - (s - offset b)"
      using that by (meson aligned_dvd dvd_diff dvd_trans gcd_dvd1 gcd_dvd2)
    then show ?thesis by simp
  qed
  show ?thesis
  proof (cases "gcd ?p ?q dvd offset b - offset a")
    case False
    then show ?thesis using nosol by (auto simp: unf cons)
  next
    case True
    then have n2: "n = offset b - e_y t * e * ?q" using cons by blast
    have ge: "0 \<le> ?p * ?q sdiv gcd ?p ?q"
      using p q by (simp add: sdiv_nonneg_eq pos_imp_zdiv_nonneg_iff div_int_pos_iff)
    obtain c where c: "ped_alignment_new n (?p * ?q sdiv gcd ?p ?q) = Some c" "align_wf c"
      "\<And>s. aligned c s \<longleftrightarrow> ?p * ?q sdiv gcd ?p ?q dvd s - n"
      using alignment_new_Some[OF ge] by blast
    have "?p dvd s - n \<longleftrightarrow> aligned a s" for s
      using crt_offset(1)[OF bez refl] by (simp add: n_def aligned_dvd)
    moreover have "?q dvd s - n \<longleftrightarrow> aligned b s" for s
    proof -
      have "s - offset b = (s - n) - ?q * (e_y t * e)" by (simp add: n2 algebra_simps)
      then show ?thesis by (metis aligned_dvd dvd_diff_left_iff dvd_triv_left)
    qed
    ultimately have "aligned c s \<longleftrightarrow> aligned a s \<and> aligned b s" for s
      using c(3) lcm_dvd_diff[OF p q, of "s - n"] False by auto
    with c(1,2) n2 show ?thesis by (simp add: unf)
  qed
qed

lemma alignment_intersect_spec:
  assumes a: "align_small a" and b: "align_small b"
  shows "case ped_alignment_intersect (Some a) (Some b) of
      None \<Rightarrow> \<forall>s. \<not> (aligned a s \<and> aligned b s)
    | Some c \<Rightarrow> align_wf c \<and> (\<forall>s. aligned c s \<longleftrightarrow> aligned a s \<and> aligned b s)"
  using intersect_ordered_spec[OF a b] intersect_ordered_spec[OF b a]
  by (auto simp: ped_alignment_intersect_def split: option.splits)

text \<open>
  The divisor of the intersection is never zero for such grains, and for the grains that
  occur in practice (up to \<open>2 ^ 20\<close> sectors) and normalised offsets no product overflows.
\<close>

lemma intersect_no_overflow:
  assumes "0 \<le> grain_size a" "grain_size a \<le> 2 ^ 20" "0 \<le> grain_size b" "grain_size b \<le> 2 ^ 20"
    and "0 < grain_size a" "0 \<le> offset a" "offset a \<le> 2 ^ 20" "0 \<le> offset b" "offset b \<le> 2 ^ 20"
  defines "t \<equiv> extended_euclid (c_int (grain_size a)) (c_int (grain_size b))"
  defines "d \<equiv> (offset b - offset a) sdiv e_gcd t"
  shows "e_gcd t \<noteq> 0" "in_int64 (e_x t * d)" "in_int64 (e_x t * d * grain_size a)"
    "in_int64 (e_y t * d)" "in_int64 (e_y t * d * grain_size b)"
    "in_int64 (grain_size a * grain_size b)"
    "in_int64 (offset a + e_x t * d * grain_size a)"
    "in_int64 (offset b - e_y t * d * grain_size b)"
proof -
  let ?p = "grain_size a" and ?q = "grain_size b" and ?M = "2 ^ 20 :: int"
  have t: "t = extended_euclid ?p ?q" using assms(1-4) by (simp add: t_def c_int_id)
  have "e_gcd t = gcd ?p ?q" using assms(1-4) unfolding t by (simp add: extended_euclid_gcd)
  then show "e_gcd t \<noteq> 0" using assms(5) by simp
  have x: "\<bar>e_x t\<bar> \<le> ?M" "\<bar>e_y t\<bar> \<le> ?M"
    using extended_euclid_bounds[of ?p ?q] assms(1-4) unfolding t by auto
  have d: "\<bar>d\<bar> \<le> ?M" using sdiv_int_range[of "offset b - offset a" "e_gcd t"] assms(6-9)
    unfolding d_def by auto
  have m2: "\<bar>u * v\<bar> \<le> ?M * ?M" if "\<bar>u\<bar> \<le> ?M" "\<bar>v\<bar> \<le> ?M" for u v :: int
    unfolding abs_mult using that by (intro mult_mono) auto
  have m3: "\<bar>u * v * w\<bar> \<le> ?M * ?M * ?M" if "\<bar>u\<bar> \<le> ?M" "\<bar>v\<bar> \<le> ?M" "\<bar>w\<bar> \<le> ?M" for u v w :: int
    using m2[OF that(1,2)] that(3) unfolding abs_mult[of "u * v"] by (intro mult_mono) auto
  have pq: "\<bar>?p\<bar> \<le> ?M" "\<bar>?q\<bar> \<le> ?M" using assms(1-4) by auto
  note b = m2[OF x(1) d] m2[OF x(2) d] m3[OF x(1) d pq(1)] m3[OF x(2) d pq(2)] m2[OF pq]
  show "in_int64 (e_x t * d)" "in_int64 (e_x t * d * ?p)" "in_int64 (e_y t * d)"
    "in_int64 (e_y t * d * ?q)" "in_int64 (?p * ?q)" "in_int64 (offset a + e_x t * d * ?p)"
    "in_int64 (offset b - e_y t * d * ?q)"
    using b assms(6-9) unfolding in_int64_def by (simp_all add: abs_le_iff)
qed

section \<open>The nearest aligned sector\<close>

abbreviation solves :: "PedAlignment \<Rightarrow> PedGeometry \<Rightarrow> PedSector \<Rightarrow> bool" where
  "solves a g t \<equiv> aligned a t \<and> g_start g \<le> t \<and> t \<le> g_end g"

lemma aligned_diff: "aligned a s \<Longrightarrow> aligned a t \<Longrightarrow> grain_size a dvd s - t"
proof -
  assume "aligned a s" "aligned a t"
  then have "grain_size a dvd (s - offset a) - (t - offset a)"
    unfolding aligned_dvd by (rule dvd_diff)
  then show ?thesis by simp
qed

lemma aligned_shift: "aligned a s \<Longrightarrow> grain_size a dvd k \<Longrightarrow> aligned a (s + k)"
  by (metis add_diff_cancel_right' add.commute aligned_dvd diff_diff_eq2 dvd_add_right_iff
      diff_add_eq)

lemma closest_inside_sound:
  assumes "aligned a s" "closest_inside_geometry a g s \<noteq> - 1"
  shows "solves a g (closest_inside_geometry a g s)"
proof -
  let ?n = "grain_size a"
  have up: "aligned a (s + ped_round_up_to k ?n)" for k
    using assms(1) round_up_dvd by (rule aligned_shift)
  have dn: "aligned a t \<Longrightarrow> aligned a (t - ped_round_up_to k ?n)" for t k
    using aligned_shift[of a t "- ped_round_up_to k ?n"] round_up_dvd by simp
  show ?thesis
    using assms(2) assms(1) up dn
    by (auto simp: closest_inside_geometry_def Let_def ped_geometry_test_sector_inside_def
        split: if_splits)
qed

text \<open>The result of a search in a region: \<open>-1\<close> exactly when the region has no solution.\<close>

lemma aligned_less_imp:
  "aligned a s \<Longrightarrow> aligned a t \<Longrightarrow> t < s \<Longrightarrow> s - t < grain_size a \<Longrightarrow> 0 < grain_size a \<Longrightarrow> False"
  using dvd_between_0[OF aligned_diff, of a s t] by simp

lemma closest_inside_complete:
  assumes al: "aligned a s" and n: "0 \<le> grain_size a" and sol: "solves a g t"
    and pos: "0 \<le> g_start g"
  defines "r \<equiv> closest_inside_geometry a g s"
  shows "r \<noteq> - 1" and "s \<le> g_start g \<Longrightarrow> r \<le> t" and "g_end g \<le> s \<Longrightarrow> t \<le> r"
    and "g_start g \<le> s \<Longrightarrow> s \<le> g_end g \<Longrightarrow> r = s"
proof -
  have "r \<noteq> - 1 \<and> (s \<le> g_start g \<longrightarrow> r \<le> t) \<and> (g_end g \<le> s \<longrightarrow> t \<le> r)
      \<and> (g_start g \<le> s \<longrightarrow> s \<le> g_end g \<longrightarrow> r = s)"
  proof (cases "grain_size a = 0")
    case True
    then have "s = t" using al sol by (simp add: aligned_dvd)
    with True sol pos show ?thesis
      by (simp add: r_def closest_inside_geometry_def ped_geometry_test_sector_inside_def)
  next
    case False
    with n have n: "0 < grain_size a" by simp
    let ?n = "grain_size a" and ?b = "g_start g" and ?e = "g_end g"
    define u where "u = s + ped_round_up_to (?b - s) ?n"
    define v where "v = s - ped_round_up_to (s - ?e) ?n"
    have u: "aligned a u" "?b \<le> u" "u < ?b + ?n"
      using aligned_shift[OF al round_up_dvd, of "?b - s"] round_up_bounds[OF n, of "?b - s"]
      by (simp_all add: u_def)
    have v: "aligned a v" "v \<le> ?e" "?e - ?n < v"
      using aligned_shift[OF al, of "- ped_round_up_to (s - ?e) ?n"] round_up_dvd
        round_up_bounds[OF n, of "s - ?e"] by (simp_all add: v_def)
    have ut: "u \<le> t" using aligned_less_imp[OF u(1), of t] sol u n by force
    have tv: "t \<le> v" using aligned_less_imp[of a t v] sol v n by force
    have "r = (if s < ?b then u else if ?e < s then v else s)"
      using False ut tv sol u v
      by (auto simp: r_def closest_inside_geometry_def Let_def ped_geometry_test_sector_inside_def
          u_def[symmetric] v_def[symmetric])
    with ut tv sol pos u v al show ?thesis
      using aligned_less_imp[OF al, of t] n by auto
  qed
  then show "r \<noteq> - 1" and "s \<le> g_start g \<Longrightarrow> r \<le> t" and "g_end g \<le> s \<Longrightarrow> t \<le> r"
    and "g_start g \<le> s \<Longrightarrow> s \<le> g_end g \<Longrightarrow> r = s" by blast+
qed

lemma align_raw:
  assumes "0 \<le> grain_size a"
  shows "aligned a (ped_alignment_align_up a None s)"
    and "aligned a (ped_alignment_align_down a None s)"
    and "0 < grain_size a \<Longrightarrow> s \<le> ped_alignment_align_up a None s"
    and "0 < grain_size a \<Longrightarrow> ped_alignment_align_up a None s < s + grain_size a"
    and "0 < grain_size a \<Longrightarrow> ped_alignment_align_down a None s \<le> s"
    and "0 < grain_size a \<Longrightarrow> s - grain_size a \<le> ped_alignment_align_down a None s"
    and "0 < grain_size a \<Longrightarrow> offset a \<le> s \<or> \<not> aligned a s \<Longrightarrow>
      s - grain_size a < ped_alignment_align_down a None s"
    and "aligned a s \<Longrightarrow> ped_alignment_align_up a None s = s"
  using assms round_up_bounds[of "grain_size a" "s - offset a"]
    round_down_bounds[of "grain_size a" "s - offset a"] round_up_exact[of "grain_size a" "s - offset a"]
  by (auto simp: ped_alignment_align_up_def ped_alignment_align_down_def aligned_dvd
      round_up_dvd round_down_dvd)

lemma align_up_geom:
  "ped_alignment_align_up a (Some g) s =
     closest_inside_geometry a g (ped_alignment_align_up a None s)"
  by (simp add: ped_alignment_align_up_def Let_def)

lemma align_down_geom:
  "ped_alignment_align_down a (Some g) s =
     closest_inside_geometry a g (ped_alignment_align_down a None s)"
  by (simp add: ped_alignment_align_down_def Let_def)

lemma align_up_sound:
  "0 \<le> grain_size a \<Longrightarrow> ped_alignment_align_up a (Some g) s \<noteq> - 1 \<Longrightarrow>
     solves a g (ped_alignment_align_up a (Some g) s)"
  unfolding align_up_geom by (rule closest_inside_sound) (simp_all add: align_raw)

lemma align_down_sound:
  "0 \<le> grain_size a \<Longrightarrow> ped_alignment_align_down a (Some g) s \<noteq> - 1 \<Longrightarrow>
     solves a g (ped_alignment_align_down a (Some g) s)"
  unfolding align_down_geom by (rule closest_inside_sound) (simp_all add: align_raw)

lemma align_nearest_sound:
  assumes "0 \<le> grain_size a" "ped_alignment_align_nearest a (Some g) s \<noteq> - 1"
  shows "solves a g (ped_alignment_align_nearest a (Some g) s)"
  using assms align_up_sound[of a g s] align_down_sound[of a g s]
  by (auto simp: ped_alignment_align_nearest_def closest_def split: if_splits)

lemma align_none_minus1:
  assumes "0 \<le> grain_size a" "\<And>t. \<not> solves a g t"
  shows "ped_alignment_align_nearest a (Some g) s = - 1"
  using align_nearest_sound[of a g s] assms by blast

lemma align_complete:
  assumes "0 \<le> grain_size a" "solves a g t" "0 \<le> g_start g"
  shows "ped_alignment_align_up a (Some g) s \<noteq> - 1"
    and "ped_alignment_align_down a (Some g) s \<noteq> - 1"
    and "ped_alignment_align_nearest a (Some g) s \<noteq> - 1"
  using closest_inside_complete(1)[OF align_raw(1) assms(1,2,3), OF assms(1)]
    closest_inside_complete(1)[OF align_raw(2) assms(1,2,3), OF assms(1)]
  by (auto simp: align_up_geom align_down_geom ped_alignment_align_nearest_def closest_def)

text \<open>The first and the last solution of a region, as the constraint solver asks for them.\<close>

lemma align_down_first:
  assumes "0 \<le> grain_size a" "solves a g t" "0 \<le> g_start g"
  shows "ped_alignment_align_down a (Some g) (g_start g) \<le> t"
proof (cases "grain_size a = 0")
  case True
  moreover have "solves a g (ped_alignment_align_down a (Some g) (g_start g))"
    using align_down_sound align_complete(2) assms by blast
  ultimately show ?thesis using assms(2) by (simp add: aligned_dvd)
next
  case False
  then show ?thesis
    unfolding align_down_geom using assms
    by (intro closest_inside_complete(2)[OF align_raw(2)] align_raw(5)) auto
qed

lemma align_up_last:
  assumes "0 \<le> grain_size a" "solves a g t" "0 \<le> g_start g"
  shows "t \<le> ped_alignment_align_up a (Some g) (g_end g)"
proof (cases "grain_size a = 0")
  case True
  moreover have "solves a g (ped_alignment_align_up a (Some g) (g_end g))"
    using align_up_sound align_complete(1) assms by blast
  ultimately show ?thesis using assms(2) by (simp add: aligned_dvd)
next
  case False
  then show ?thesis
    unfolding align_up_geom using assms
    by (intro closest_inside_complete(3)[OF align_raw(1)] align_raw(3)) auto
qed

lemma align_nearest_fixed:
  assumes "0 \<le> grain_size a" "solves a g s" "0 \<le> g_start g"
  shows "ped_alignment_align_nearest a (Some g) s = s"
proof -
  have "ped_alignment_align_up a (Some g) s = s"
    unfolding align_up_geom align_raw(8)[OF assms(1) conjunct1[OF assms(2)]]
    using closest_inside_complete(4)[OF _ assms(1,2,3)] assms(2) by blast
  then show ?thesis using assms(2,3)
    by (auto simp: ped_alignment_align_nearest_def closest_def)
qed

text \<open>The search upwards does not pass a solution above, the search downwards none below.\<close>

lemma align_up_between:
  assumes n: "0 \<le> grain_size a" and sol: "solves a g t" and g: "0 \<le> g_start g" and st: "s \<le> t"
  shows "s \<le> ped_alignment_align_up a (Some g) s" "ped_alignment_align_up a (Some g) s \<le> t"
proof -
  let ?r = "ped_alignment_align_up a None s" and ?u = "ped_alignment_align_up a (Some g) s"
  have u: "solves a g ?u" using align_up_sound align_complete(1) n sol g by blast
  have "s \<le> ?u \<and> ?u \<le> t"
  proof (cases "grain_size a = 0")
    case True
    then show ?thesis using u sol st by (simp add: aligned_dvd)
  next
    case False
    with n have n': "0 < grain_size a" by simp
    note r = align_raw(1)[OF n, of s] align_raw(3)[OF n n', of s] align_raw(4)[OF n n', of s]
    have rt: "?r \<le> t"
      using aligned_less_imp[of a ?r t] r sol st n' by force
    note c = closest_inside_complete[OF r(1) n sol g, folded align_up_geom]
    show ?thesis
    proof (cases "g_start g \<le> ?r")
      case True
      then show ?thesis using c(4) rt r(2) sol by simp
    next
      case False
      then show ?thesis using c(2) r(2) u by simp
    qed
  qed
  then show "s \<le> ?u" "?u \<le> t" by simp_all
qed

lemma align_down_between:
  assumes n: "0 \<le> grain_size a" and sol: "solves a g t" and g: "0 \<le> g_start g" and st: "t \<le> s"
    and ok: "offset a \<le> s \<or> \<not> aligned a s"
  shows "ped_alignment_align_down a (Some g) s \<le> s" "t \<le> ped_alignment_align_down a (Some g) s"
proof -
  let ?r = "ped_alignment_align_down a None s" and ?u = "ped_alignment_align_down a (Some g) s"
  have u: "solves a g ?u" using align_down_sound align_complete(2) n sol g by blast
  have "?u \<le> s \<and> t \<le> ?u"
  proof (cases "grain_size a = 0")
    case True
    then show ?thesis using u sol st by (simp add: aligned_dvd)
  next
    case False
    with n have n': "0 < grain_size a" by simp
    note r = align_raw(2)[OF n, of s] align_raw(5)[OF n n', of s] align_raw(7)[OF n n' ok]
    have rt: "t \<le> ?r"
      using aligned_less_imp[of a t ?r] r sol st n' by force
    note c = closest_inside_complete[OF r(1) n sol g, folded align_down_geom]
    show ?thesis
    proof (cases "?r \<le> g_end g")
      case True
      then show ?thesis using c(4) rt r(2) sol by simp
    next
      case False
      then show ?thesis using c(3) r(2) u by simp
    qed
  qed
  then show "?u \<le> s" "t \<le> ?u" by simp_all
qed

lemma align_nearest_minimal:
  assumes n: "0 \<le> grain_size a" and sol: "solves a g t" and g: "0 \<le> g_start g"
  shows "\<bar>s - ped_alignment_align_nearest a (Some g) s\<bar> \<le> \<bar>s - t\<bar>"
proof -
  let ?u = "ped_alignment_align_up a (Some g) s" and ?d = "ped_alignment_align_down a (Some g) s"
  have ne: "?u \<noteq> - 1" "?d \<noteq> - 1" using align_complete n sol g by blast+
  have near: "\<bar>s - ped_alignment_align_nearest a (Some g) s\<bar> \<le> \<bar>s - ?u\<bar>"
    "\<bar>s - ped_alignment_align_nearest a (Some g) s\<bar> \<le> \<bar>s - ?d\<bar>"
    using ne by (auto simp: ped_alignment_align_nearest_def closest_def)
  consider "s \<le> t" | "t < s" "offset a \<le> s \<or> \<not> aligned a s" | "t < s" "aligned a s" by linarith
  then show ?thesis
  proof cases
    case 1
    then show ?thesis using align_up_between[OF n sol g 1] near(1) by linarith
  next
    case 2
    then show ?thesis using align_down_between[OF n sol g _ 2(2)] near(2) by linarith
  next
    case 3
    have "?u \<le> s \<and> t \<le> ?u"
      unfolding align_up_geom align_raw(8)[OF n 3(2)]
      using closest_inside_complete(3,4)[OF 3(2) n sol g] closest_inside_sound[OF 3(2), of g]
        closest_inside_complete(1)[OF 3(2) n sol g] 3(1) sol by (cases "s \<le> g_end g") auto
    then show ?thesis using near(1) 3(1) by linarith
  qed
qed

section \<open>Properties\<close>

text \<open>
  \<open>ped_greatest_common_divisor\<close> returns for all non-negative arguments, in any order and
  zero included, and its result is the greatest common divisor.
\<close>
theorem gcd_returns_gcd:
  assumes "0 \<le> a" and "0 \<le> b"
  shows "ped_greatest_common_divisor a b = Some (gcd a b)"
  using assms by (rule ped_gcd_correct)

theorem gcd_returns_gcd_witness: "ped_greatest_common_divisor 2048 768 = Some 256"
proof -
  have "gcd (2048::int) 768 = 256" by code_simp
  then show ?thesis using gcd_returns_gcd[of 2048 768] by simp
qed



text \<open>
  C26. \<open>ped_alignment_align_nearest\<close> within a region: it returns an aligned sector of the
  region, and no aligned sector of the region is nearer to the one asked for; it returns \<open>-1\<close>
  exactly when the region has no aligned sector.
\<close>
theorem align_nearest_correct:
  assumes "align_wf a" and "geom_wf g"
  shows "let r = ped_alignment_align_nearest a (Some g) s in
    if r = - 1 then \<forall>t. \<not> ped_alignment_is_aligned (Some a) (Some g) t
    else ped_alignment_is_aligned (Some a) (Some g) r \<and>
      (\<forall>t. ped_alignment_is_aligned (Some a) (Some g) t \<longrightarrow> \<bar>s - r\<bar> \<le> \<bar>s - t\<bar>)"
proof -
  have n: "0 \<le> grain_size a" "0 \<le> g_start g"
    using assms(1,2) by (simp_all add: align_wf_def geom_wf_def)
  show ?thesis
    unfolding is_aligned_geom_iff Let_def
    using align_nearest_sound[OF n(1)] align_complete(3)[OF n(1) _ n(2)]
      align_nearest_minimal[OF n(1) _ n(2)] by auto
qed

theorem align_nearest_correct_witness:
  "ped_alignment_align_nearest \<lparr>offset = 3, grain_size = 8\<rparr> (Some (geometry_init_local 0 10 30)) 29 = 27
   \<and> \<bar>29 - 27\<bar> \<le> \<bar>29 - (35::int)\<bar>"
proof -
  have r: "ped_alignment_align_nearest \<lparr>offset = 3, grain_size = 8\<rparr>
      (Some (geometry_init_local 0 10 30)) 29 = 27"
    and "ped_alignment_is_aligned (Some \<lparr>offset = 3, grain_size = 8\<rparr>) (Some (geometry_init_local 0 10 30)) 35"
    by code_simp+
  then show ?thesis
    using align_nearest_correct[of "\<lparr>offset = 3, grain_size = 8\<rparr>" "geometry_init_local 0 10 30" 29]
    unfolding r Let_def by (simp add: align_wf_def geom_wf_def del: is_aligned_geom_iff)
qed



end
