(* ===== verification/Constraint.thy ===== *)
theory Constraint
  imports Natmath
begin

text \<open>
  Model of \<open>libparted/cs/constraint.c\<close>: constraints on the start, the end and the size of
  a region, their intersection, and the solver. A constraint is a pointer in the code
  (\<open>NULL\<close> is a valid constraint without solutions); its four pointer fields are options
  here, and reading through a \<open>NULL\<close> pointer is \<open>the None\<close>, about which nothing is known.
  Functions that read \<open>dev->length\<close> take the device table as first argument. Allocation
  does not fail, and releasing memory (\<open>ped_constraint_done\<close>, \<open>ped_constraint_destroy\<close>)
  has no counterpart.
\<close>

section \<open>Constructors\<close>

record PedConstraint =
  start_align :: "PedAlignment option"
  end_align :: "PedAlignment option"
  start_range :: "PedGeometry option"
  end_range :: "PedGeometry option"
  min_size :: PedSector
  max_size :: PedSector

definition ped_constraint_init ::
    "PedAlignment option \<Rightarrow> PedAlignment option \<Rightarrow> PedGeometry \<Rightarrow> PedGeometry \<Rightarrow>
     PedSector \<Rightarrow> PedSector \<Rightarrow> PedConstraint" where
  "ped_constraint_init sa ea sr er mn mx =
     \<lparr>start_align = ped_alignment_duplicate sa,
      end_align = ped_alignment_duplicate ea,
      start_range = ptr_of (ped_geometry_duplicate sr),
      end_range = ptr_of (ped_geometry_duplicate er),
      min_size = mn,
      max_size = mx\<rparr>"

definition ped_constraint_new ::
    "PedAlignment option \<Rightarrow> PedAlignment option \<Rightarrow> PedGeometry \<Rightarrow> PedGeometry \<Rightarrow>
     PedSector \<Rightarrow> PedSector \<Rightarrow> PedConstraint option" where
  "ped_constraint_new sa ea sr er mn mx = Some (ped_constraint_init sa ea sr er mn mx)"

definition ped_constraint_new_from_min_max ::
    "PedGeometry \<Rightarrow> PedGeometry \<Rightarrow> PedConstraint option" where
  "ped_constraint_new_from_min_max mn mx =
     (let sr = geometry_init_local (g_dev mn) (g_start mx) (g_start mn - g_start mx + 1);
          er = geometry_init_local (g_dev mn) (g_end mn) (g_end mx - g_end mn + 1)
      in ped_constraint_new ped_alignment_any ped_alignment_any sr er
           (g_length mn) (g_length mx))"

definition ped_constraint_new_from_min ::
    "dev_table \<Rightarrow> PedGeometry \<Rightarrow> PedConstraint option" where
  "ped_constraint_new_from_min devs mn =
     (let full_dev = geometry_init_local (g_dev mn) 0 (dev_length (devs (g_dev mn)))
      in ped_constraint_new_from_min_max mn full_dev)"

definition ped_constraint_new_from_max :: "PedGeometry \<Rightarrow> PedConstraint option" where
  "ped_constraint_new_from_max mx =
     ped_constraint_new ped_alignment_any ped_alignment_any mx mx 1 (g_length mx)"

definition ped_constraint_duplicate :: "PedConstraint \<Rightarrow> PedConstraint option" where
  "ped_constraint_duplicate c =
     ped_constraint_new (start_align c) (end_align c) (the (start_range c)) (the (end_range c))
       (min_size c) (max_size c)"

definition ped_constraint_intersect ::
    "PedConstraint option \<Rightarrow> PedConstraint option \<Rightarrow> PedConstraint option" where
  "ped_constraint_intersect ao bo =
     (case (ao, bo) of
        (Some a, Some b) \<Rightarrow>
          (case ped_alignment_intersect (start_align a) (start_align b) of
             None \<Rightarrow> None
           | Some sa \<Rightarrow>
          (case ped_alignment_intersect (end_align a) (end_align b) of
             None \<Rightarrow> None
           | Some ea \<Rightarrow>
          (case ped_geometry_intersect (start_range a) (start_range b) of
             None \<Rightarrow> None
           | Some sr \<Rightarrow>
          (case ped_geometry_intersect (end_range a) (end_range b) of
             None \<Rightarrow> None
           | Some er \<Rightarrow>
               let mn = max (min_size a) (min_size b);
                   mx = min (max_size a) (max_size b)
               in ped_constraint_new (Some sa) (Some ea) sr er mn mx))))
      | _ \<Rightarrow> None)"

definition ped_constraint_any :: "dev_table \<Rightarrow> dev_ref \<Rightarrow> PedConstraint option" where
  "ped_constraint_any devs dev =
     (case ped_geometry_init uninit_geometry dev 0 (dev_length (devs dev)) of
        Inl _ \<Rightarrow> None
      | Inr full_dev \<Rightarrow>
          ped_constraint_new ped_alignment_any ped_alignment_any full_dev full_dev
            1 (dev_length (devs dev)))"

definition ped_constraint_exact :: "dev_table \<Rightarrow> PedGeometry \<Rightarrow> PedConstraint option" where
  "ped_constraint_exact devs geom =
     (let sa = ped_alignment_init undefined (g_start geom) 0;
          ea = ped_alignment_init undefined (g_end geom) 0
      in case ped_geometry_init uninit_geometry (g_dev geom) (g_start geom) 1 of
           Inl _ \<Rightarrow> None
         | Inr start_sector \<Rightarrow>
      (case ped_geometry_init uninit_geometry (g_dev geom) (g_end geom) 1 of
           Inl _ \<Rightarrow> None
         | Inr end_sector \<Rightarrow>
             ped_constraint_new sa ea start_sector end_sector 1
               (dev_length (devs (g_dev geom)))))"

section \<open>The solver\<close>

definition constraint_get_canonical_start_range :: "PedConstraint \<Rightarrow> PedGeometry option" where
  "constraint_get_canonical_start_range c =
     (if min_size c > max_size c then None
      else
        let er = the (end_range c);
            first_end_soln = ped_alignment_align_down (the (end_align c)) (Some er) (g_start er);
            last_end_soln = ped_alignment_align_up (the (end_align c)) (Some er) (g_end er)
        in if first_end_soln = - 1 \<or> last_end_soln = - 1
              \<or> first_end_soln > last_end_soln \<or> last_end_soln < min_size c then None
           else
             let min_start0 = first_end_soln - max_size c + 1;
                 min_start = (if min_start0 < 0 then 0 else min_start0);
                 max_start = last_end_soln - min_size c + 1
             in if max_start < 0 then None
                else ped_geometry_intersect
                       (Some (geometry_init_local (g_dev (the (start_range c)))
                          min_start (max_start - min_start + 1)))
                       (start_range c))"

definition constraint_get_nearest_start_soln :: "PedConstraint \<Rightarrow> PedSector \<Rightarrow> PedSector" where
  "constraint_get_nearest_start_soln c start =
     (case constraint_get_canonical_start_range c of
        None \<Rightarrow> - 1
      | Some rng \<Rightarrow> ped_alignment_align_nearest (the (start_align c)) (Some rng) start)"

definition constraint_get_end_range ::
    "dev_table \<Rightarrow> PedConstraint \<Rightarrow> PedSector \<Rightarrow> PedGeometry option" where
  "constraint_get_end_range devs c start =
     (let dev = g_dev (the (end_range c)) in
      if start + min_size c - 1 > dev_length (devs dev) - 1 then None
      else
        let first_min_max_end = start + min_size c - 1;
            last0 = start + max_size c - 1;
            last_min_max_end = (if last0 > dev_length (devs dev) - 1
                                then dev_length (devs dev) - 1 else last0)
        in ped_geometry_intersect
             (Some (geometry_init_local dev first_min_max_end
                (last_min_max_end - first_min_max_end + 1)))
             (end_range c))"

definition constraint_get_nearest_end_soln ::
    "dev_table \<Rightarrow> PedConstraint \<Rightarrow> PedSector \<Rightarrow> PedSector \<Rightarrow> PedSector" where
  "constraint_get_nearest_end_soln devs c start endd =
     (case constraint_get_end_range devs c start of
        None \<Rightarrow> - 1
      | Some rng \<Rightarrow> ped_alignment_align_nearest (the (end_align c)) (Some rng) endd)"

definition ped_constraint_solve_nearest ::
    "dev_table \<Rightarrow> PedConstraint option \<Rightarrow> PedGeometry \<Rightarrow> PedGeometry option" where
  "ped_constraint_solve_nearest devs co geom =
     (case co of None \<Rightarrow> None
      | Some c \<Rightarrow>
          let start = constraint_get_nearest_start_soln c (g_start geom) in
          if start = - 1 then None
          else
            let endd = constraint_get_nearest_end_soln devs c start (g_end geom) in
            if endd = - 1 then None
            else ptr_of (ped_geometry_new (g_dev geom) start (endd - start + 1)))"

definition ped_constraint_solve_max ::
    "dev_table \<Rightarrow> PedConstraint option \<Rightarrow> PedGeometry option" where
  "ped_constraint_solve_max devs co =
     (case co of None \<Rightarrow> None
      | Some c \<Rightarrow>
          let dev = g_dev (the (start_range c))
          in ped_constraint_solve_nearest devs (Some c)
               (geometry_init_local dev 0 (dev_length (devs dev))))"

definition ped_constraint_is_solution :: "PedConstraint \<Rightarrow> PedGeometry \<Rightarrow> bool" where
  "ped_constraint_is_solution c geom =
     (if \<not> ped_alignment_is_aligned (start_align c) None (g_start geom) then False
      else if \<not> ped_alignment_is_aligned (end_align c) None (g_end geom) then False
      else if \<not> ped_geometry_test_sector_inside (the (start_range c)) (g_start geom) then False
      else if \<not> ped_geometry_test_sector_inside (the (end_range c)) (g_end geom) then False
      else if g_length geom < min_size c then False
      else if g_length geom > max_size c then False
      else True)"

section \<open>Well-formed constraints\<close>

definition constraint_wf :: "PedConstraint \<Rightarrow> bool" where
  "constraint_wf c \<longleftrightarrow>
     (\<exists>sa ea sr er. start_align c = Some sa \<and> end_align c = Some ea \<and>
        start_range c = Some sr \<and> end_range c = Some er \<and> align_wf sa \<and> align_wf ea \<and>
        geom_wf sr \<and> geom_wf er \<and> g_dev sr = g_dev er) \<and> 0 < min_size c"

definition constraint_dev :: "PedConstraint \<Rightarrow> dev_ref" where
  "constraint_dev c = g_dev (the (start_range c))"

definition constraint_small :: "PedConstraint \<Rightarrow> bool" where
  "constraint_small c \<longleftrightarrow> align_small (the (start_align c)) \<and> align_small (the (end_align c))"

text \<open>Specification of a constraint: what \<open>ped_constraint_is_solution\<close> tests, as a predicate.\<close>

lemma constraint_wfE:
  assumes "constraint_wf c"
  obtains sa ea sr er where "start_align c = Some sa" "end_align c = Some ea"
    "start_range c = Some sr" "end_range c = Some er" "0 \<le> grain_size sa" "0 \<le> grain_size ea"
    "geom_wf sr" "geom_wf er" "g_dev sr = g_dev er" "0 < min_size c"
  using assms unfolding constraint_wf_def align_wf_def by blast

lemma is_solution_iff:
  assumes "start_align c = Some sa" "end_align c = Some ea"
    "start_range c = Some sr" "end_range c = Some er"
  shows "ped_constraint_is_solution c g \<longleftrightarrow>
    solves sa sr (g_start g) \<and> solves ea er (g_end g) \<and>
    min_size c \<le> g_length g \<and> g_length g \<le> max_size c"
  using assms
  by (auto simp: ped_constraint_is_solution_def ped_geometry_test_sector_inside_def)

lemma constraint_init_wf:
  assumes "align_wf sa" "align_wf ea" "geom_wf sr" "geom_wf er" "g_dev sr = g_dev er" "0 < mn"
  shows "\<exists>c. ped_constraint_new (Some sa) (Some ea) sr er mn mx = Some c \<and> constraint_wf c
    \<and> constraint_dev c = g_dev sr \<and> min_size c = mn \<and> max_size c = mx \<and>
    (\<forall>g. ped_constraint_is_solution c g \<longleftrightarrow> solves sa sr (g_start g) \<and> solves ea er (g_end g)
       \<and> mn \<le> g_length g \<and> g_length g \<le> mx)"
proof -
  obtain sa' ea' where d: "ped_alignment_duplicate (Some sa) = Some sa'" "align_wf sa'"
      "aligned sa' = aligned sa" "ped_alignment_duplicate (Some ea) = Some ea'" "align_wf ea'"
      "aligned ea' = aligned ea"
    using alignment_duplicate_Some assms(1,2) by metis
  let ?c = "ped_constraint_init (Some sa) (Some ea) sr er mn mx"
  have f: "start_align ?c = Some sa'" "end_align ?c = Some ea'" "start_range ?c = Some sr"
    "end_range ?c = Some er" "min_size ?c = mn" "max_size ?c = mx"
    using d assms(3,4) by (simp_all add: ped_constraint_init_def)
  have "constraint_wf ?c"
    unfolding constraint_wf_def using f d assms by auto
  moreover have "constraint_dev ?c = g_dev sr" using f by (simp add: constraint_dev_def)
  ultimately show ?thesis
    using is_solution_iff[OF f(1-4)] f d by (simp add: ped_constraint_new_def)
qed

section \<open>Soundness of the solver\<close>

lemma canonical_start_range_inside:
  assumes wf: "constraint_wf c" and r: "constraint_get_canonical_start_range c = Some r"
  shows "g_start (the (start_range c)) \<le> g_start r" "g_end r \<le> g_end (the (start_range c))"
    "0 \<le> g_start r" "min_size c \<le> max_size c"
proof -
  from wf obtain sa ea sr er where c: "start_align c = Some sa" "end_align c = Some ea"
    "start_range c = Some sr" "end_range c = Some er" "geom_wf sr"
    by (rule constraint_wfE)
  obtain h where h: "ped_geometry_intersect (Some h) (Some sr) = Some r" "min_size c \<le> max_size c"
    using r c by (auto simp: constraint_get_canonical_start_range_def Let_def split: if_splits)
  then show "g_start (the (start_range c)) \<le> g_start r" "g_end r \<le> g_end (the (start_range c))"
    "0 \<le> g_start r" "min_size c \<le> max_size c"
    using intersect_dest[OF h(1)] c by (auto simp: geom_wf_def le_max_iff_disj)
qed

lemma end_range_inside:
  assumes wf: "constraint_wf c" and sz: "min_size c \<le> max_size c"
    and r: "constraint_get_end_range devs c s = Some r"
  shows "g_start (the (end_range c)) \<le> g_start r" "g_end r \<le> g_end (the (end_range c))"
    "0 \<le> g_start r" "s + min_size c - 1 \<le> g_start r" "g_end r \<le> s + max_size c - 1"
    "g_end r < dev_length (devs (constraint_dev c))"
proof -
  from wf obtain sa ea sr er where c: "start_align c = Some sa" "end_align c = Some ea"
    "start_range c = Some sr" "end_range c = Some er" "geom_wf er" "g_dev sr = g_dev er"
    by (rule constraint_wfE)
  let ?N = "dev_length (devs (g_dev er))"
  let ?l = "if s + max_size c - 1 > ?N - 1 then ?N - 1 else s + max_size c - 1"
  have fits: "s + min_size c - 1 \<le> ?N - 1" and
    i: "ped_geometry_intersect (Some (geometry_init_local (g_dev er) (s + min_size c - 1)
          (?l - (s + min_size c - 1) + 1))) (Some er) = Some r"
    using r c by (auto simp: constraint_get_end_range_def Let_def split: if_splits)
  have "0 < ?l - (s + min_size c - 1) + 1" using fits sz by auto
  then show "g_start (the (end_range c)) \<le> g_start r" "g_end r \<le> g_end (the (end_range c))"
    "0 \<le> g_start r" "s + min_size c - 1 \<le> g_start r" "g_end r \<le> s + max_size c - 1"
    "g_end r < dev_length (devs (constraint_dev c))"
    using intersect_dest[OF i] c
    by (auto simp: geom_wf_def constraint_dev_def le_max_iff_disj split: if_splits)
qed

lemma solve_nearest_solution:
  assumes wf: "constraint_wf c"
    and r: "ped_constraint_solve_nearest devs (Some c) g = Some r"
  shows "ped_constraint_is_solution c r" and "geom_wf r" and "g_dev r = g_dev g"
    and "g_end r < dev_length (devs (constraint_dev c))"
proof -
  from wf obtain sa ea sr er where c: "start_align c = Some sa" "end_align c = Some ea"
    "start_range c = Some sr" "end_range c = Some er" "0 \<le> grain_size sa" "0 \<le> grain_size ea"
    "geom_wf sr" "geom_wf er" "0 < min_size c"
    by (rule constraint_wfE)
  define s where "s = constraint_get_nearest_start_soln c (g_start g)"
  define e where "e = constraint_get_nearest_end_soln devs c s (g_end g)"
  have ne: "s \<noteq> - 1" "e \<noteq> - 1" and new: "ped_geometry_new (g_dev g) s (e - s + 1) = Inr r"
    using r by (auto simp: ped_constraint_solve_nearest_def Let_def s_def e_def split: if_splits)
  obtain cs where cs: "constraint_get_canonical_start_range c = Some cs"
    "s = ped_alignment_align_nearest sa (Some cs) (g_start g)"
    using ne(1) c by (auto simp: s_def constraint_get_nearest_start_soln_def split: option.splits)
  have s: "solves sa cs s" using align_nearest_sound[of sa cs] c ne cs by simp
  note ci = canonical_start_range_inside[OF wf cs(1)]
  obtain ce where ce: "constraint_get_end_range devs c s = Some ce"
    "e = ped_alignment_align_nearest ea (Some ce) (g_end g)"
    using ne(2) c by (auto simp: e_def constraint_get_nearest_end_soln_def split: option.splits)
  have e: "solves ea ce e" using align_nearest_sound[of ea ce] c ne ce by simp
  note ei = end_range_inside[OF wf ci(4) ce(1)]
  have len: "min_size c \<le> e - s + 1" "e - s + 1 \<le> max_size c" using e ei by auto
  then have req: "r = \<lparr>g_dev = g_dev g, g_start = s, g_length = e - s + 1, g_end = e\<rparr>"
    using new c(9) by auto
  show "ped_constraint_is_solution c r"
    unfolding is_solution_iff[OF c(1-4)] using s e ci ei len c by (auto simp: req)
  show "geom_wf r" using s ci len c(9) by (auto simp: req geom_wf_def)
  show "g_dev r = g_dev g" by (simp add: req)
  show "g_end r < dev_length (devs (constraint_dev c))" using e ei by (simp add: req)
qed

section \<open>When the solver finds a solution\<close>

text \<open>
  The canonical start range holds the start of every solution that ends at or beyond sector
  \<open>min_size\<close>. (A solution \<open>[0, min_size - 1]\<close> is missed, see \<open>whole_device_unsolvable\<close>.)
\<close>

lemma canonical_start_range_covers:
  assumes wf: "constraint_wf c" and sol: "ped_constraint_is_solution c h" and h: "geom_wf h"
    and big: "min_size c \<le> g_end h"
  obtains r where "constraint_get_canonical_start_range c = Some r" "0 \<le> g_start r"
    "g_start r \<le> g_start h" "g_start h \<le> g_end r"
    "g_end r \<le> ped_alignment_align_up (the (end_align c)) (end_range c)
                (g_end (the (end_range c))) - min_size c + 1"
    "ped_alignment_align_down (the (end_align c)) (end_range c) (g_start (the (end_range c)))
       - max_size c + 1 \<le> g_start r"
proof -
  from wf obtain sa ea sr er where c: "start_align c = Some sa" "end_align c = Some ea"
    "start_range c = Some sr" "end_range c = Some er" "0 \<le> grain_size sa" "0 \<le> grain_size ea"
    "geom_wf sr" "geom_wf er" "g_dev sr = g_dev er" "0 < min_size c"
    by (rule constraint_wfE)
  from sol have s: "solves sa sr (g_start h)" "solves ea er (g_end h)"
    "min_size c \<le> g_length h" "g_length h \<le> max_size c"
    by (simp_all add: is_solution_iff[OF c(1-4)])
  have er0: "0 \<le> g_start er" and sr0: "0 \<le> g_start sr" using c by (simp_all add: geom_wf_def)
  define f where "f = ped_alignment_align_down ea (Some er) (g_start er)"
  define l where "l = ped_alignment_align_up ea (Some er) (g_end er)"
  have fl: "f \<noteq> - 1" "l \<noteq> - 1" "f \<le> g_end h" "g_end h \<le> l"
    using align_complete[OF c(6) s(2) er0] align_down_first[OF c(6) s(2) er0]
      align_up_last[OF c(6) s(2) er0] by (simp_all add: f_def l_def)
  define a where "a = max 0 (f - max_size c + 1)"
  define b where "b = l - min_size c + 1"
  have hs: "g_start h + g_length h - 1 = g_end h" "0 \<le> g_start h" using h by (simp_all add: geom_wf_def)
  have ab: "a \<le> g_start h" "g_start h \<le> b" "0 \<le> b"
    using fl s(3,4) hs by (auto simp: a_def b_def)
  then have "constraint_get_canonical_start_range c =
      ped_geometry_intersect (Some (geometry_init_local (g_dev sr) a (b - a + 1))) (Some sr)"
    using fl s big c
    by (auto simp: constraint_get_canonical_start_range_def Let_def f_def[symmetric] l_def[symmetric]
        a_def b_def)
  also have "\<dots> = Some \<lparr>g_dev = g_dev sr, g_start = max a (g_start sr),
      g_length = min b (g_end sr) - max a (g_start sr) + 1, g_end = min b (g_end sr)\<rparr>"
    (is "_ = Some ?r")
    using ab s(1) by (simp add: intersect_eq)
  finally have r: "constraint_get_canonical_start_range c = Some ?r" .
  moreover have "0 \<le> g_start ?r" using sr0 by simp
  moreover have "g_start ?r \<le> g_start h" "g_start h \<le> g_end ?r" using ab s(1) by simp_all
  moreover have "g_end ?r \<le> l - min_size c + 1" "f - max_size c + 1 \<le> g_start ?r"
    by (simp_all add: a_def b_def)
  ultimately show thesis using c that[OF r] by (simp add: f_def l_def)
qed

lemma end_range_eq:
  assumes c: "end_range c = Some er" and sz: "min_size c \<le> max_size c"
    and fits: "s + min_size c - 1 < dev_length (devs (g_dev er))"
  shows "constraint_get_end_range devs c s =
    ped_geometry_intersect (Some \<lparr>g_dev = g_dev er, g_start = s + min_size c - 1,
      g_length = min (s + max_size c - 1) (dev_length (devs (g_dev er)) - 1)
                 - (s + min_size c - 1) + 1,
      g_end = min (s + max_size c - 1) (dev_length (devs (g_dev er)) - 1)\<rparr>) (Some er)"
proof -
  let ?N = "dev_length (devs (g_dev er))"
  have "(if s + max_size c - 1 > ?N - 1 then ?N - 1 else s + max_size c - 1)
      = min (s + max_size c - 1) (?N - 1)" by simp
  then show ?thesis
    using c sz fits by (simp add: constraint_get_end_range_def Let_def)
qed

lemma solve_nearest_fixed:
  assumes wf: "constraint_wf c" and sol: "ped_constraint_is_solution c g" and g: "geom_wf g"
    and dev: "g_end g < dev_length (devs (constraint_dev c))" and big: "min_size c \<le> g_end g"
  shows "ped_constraint_solve_nearest devs (Some c) g = Some g"
proof -
  from wf obtain sa ea sr er where c: "start_align c = Some sa" "end_align c = Some ea"
    "start_range c = Some sr" "end_range c = Some er" "0 \<le> grain_size sa" "0 \<le> grain_size ea"
    "geom_wf sr" "geom_wf er" "g_dev sr = g_dev er" "0 < min_size c"
    by (rule constraint_wfE)
  from sol have s: "solves sa sr (g_start g)" "solves ea er (g_end g)"
    "min_size c \<le> g_length g" "g_length g \<le> max_size c"
    by (simp_all add: is_solution_iff[OF c(1-4)])
  have gl: "g_start g + g_length g - 1 = g_end g" "0 \<le> g_start g" using g by (simp_all add: geom_wf_def)
  obtain r where r: "constraint_get_canonical_start_range c = Some r" "0 \<le> g_start r"
    "g_start r \<le> g_start g" "g_start g \<le> g_end r"
    using canonical_start_range_covers[OF wf sol g big] by blast
  have start: "constraint_get_nearest_start_soln c (g_start g) = g_start g"
    using r s c align_nearest_fixed[where a = sa and g = r] by (simp add: constraint_get_nearest_start_soln_def)
  let ?N = "dev_length (devs (g_dev er))"
  have N: "g_end g < ?N" using dev c by (simp add: constraint_dev_def)
  let ?r = "\<lparr>g_dev = g_dev er, g_start = max (g_start g + min_size c - 1) (g_start er),
     g_length = min (min (g_start g + max_size c - 1) (?N - 1)) (g_end er)
        - max (g_start g + min_size c - 1) (g_start er) + 1,
     g_end = min (min (g_start g + max_size c - 1) (?N - 1)) (g_end er)\<rparr>"
  have "constraint_get_end_range devs c (g_start g) = Some ?r"
    unfolding end_range_eq[OF c(4) order_trans[OF s(3,4)], of "g_start g" devs] intersect_eq
    using N s gl c by (subst end_range_eq[OF c(4)]) (auto simp: intersect_eq)
  moreover have "solves ea ?r (g_end g)" using s gl N by auto
  moreover have "0 \<le> g_start ?r" using gl c by simp
  ultimately have "constraint_get_nearest_end_soln devs c (g_start g) (g_end g) = g_end g"
    using c align_nearest_fixed[where a = ea and g = "?r"] by (simp add: constraint_get_nearest_end_soln_def)
  with start gl g show ?thesis
    by (cases g) (auto simp: ped_constraint_solve_nearest_def geom_wf_def)
qed

lemma solve_nearest_complete:
  assumes wf: "constraint_wf c" and end_any: "grain_size (the (end_align c)) = 1"
    and sol: "ped_constraint_is_solution c h" and h: "geom_wf h" and big: "min_size c \<le> g_end h"
    and on: "g_end (the (end_range c)) < dev_length (devs (constraint_dev c))"
  shows "ped_constraint_solve_nearest devs (Some c) g \<noteq> None"
proof -
  from wf obtain sa ea sr er where c: "start_align c = Some sa" "end_align c = Some ea"
    "start_range c = Some sr" "end_range c = Some er" "0 \<le> grain_size sa" "0 \<le> grain_size ea"
    "geom_wf sr" "geom_wf er" "g_dev sr = g_dev er" "0 < min_size c"
    by (rule constraint_wfE)
  have any: "aligned ea t" for t using end_any c by (simp add: aligned_dvd)
  have er: "0 \<le> g_start er" "g_start er \<le> g_end er"
    using c(8) by (simp_all add: geom_wf_def)
  from sol have s: "solves sa sr (g_start h)" "min_size c \<le> max_size c"
    by (auto simp: is_solution_iff[OF c(1-4)])
  obtain r where r: "constraint_get_canonical_start_range c = Some r" "0 \<le> g_start r"
    "g_start r \<le> g_start h" "g_start h \<le> g_end r"
    "g_end r \<le> ped_alignment_align_up ea (Some er) (g_end er) - min_size c + 1"
    "ped_alignment_align_down ea (Some er) (g_start er) - max_size c + 1 \<le> g_start r"
    using canonical_start_range_covers[OF wf sol h big] c by auto
  have l: "ped_alignment_align_up ea (Some er) (g_end er) \<le> g_end er"
    using align_up_sound[OF c(6)] align_complete(1)[OF c(6) _ er(1), of "g_end er"] any er by auto
  have f: "g_start er \<le> ped_alignment_align_down ea (Some er) (g_start er)"
    using align_down_sound[OF c(6)] align_complete(2)[OF c(6) _ er(1), of "g_end er"] any er by auto
  define t where "t = constraint_get_nearest_start_soln c (g_start g)"
  have t: "t = ped_alignment_align_nearest sa (Some r) (g_start g)"
    using r c by (simp add: t_def constraint_get_nearest_start_soln_def)
  have tr: "solves sa r t"
    unfolding t using align_complete(3)[OF c(5) _ r(2)] align_nearest_sound[OF c(5)] s r by blast
  let ?N = "dev_length (devs (g_dev er))"
  have N: "g_end er < ?N" using on c by (simp add: constraint_dev_def)
  have fits: "t + min_size c - 1 < ?N" using tr r l N by simp
  obtain q where q: "constraint_get_end_range devs c t = Some q" "0 \<le> g_start q"
      "g_start q \<le> g_end q"
    unfolding end_range_eq[where devs = devs, OF c(4) s(2) fits] intersect_eq
    using tr r l f er N s(2) fits by auto
  have "constraint_get_nearest_end_soln devs c t (g_end g) \<noteq> - 1"
    using q c align_complete(3)[OF c(6) _ q(2), of "g_start q"] any
    by (simp add: constraint_get_nearest_end_soln_def)
  moreover note end_range_inside(4)[OF wf s(2) q(1)]
  moreover have "g_start q \<le> constraint_get_nearest_end_soln devs c t (g_end g)"
    using q c align_nearest_sound[OF c(6)] calculation(1)
    by (auto simp: constraint_get_nearest_end_soln_def)
  moreover have "t \<noteq> - 1" using tr r(2) by auto
  ultimately show ?thesis
    using c(10) by (auto simp: ped_constraint_solve_nearest_def t_def[symmetric] Let_def)
qed

section \<open>Intersection and the special constraints\<close>

lemma constraint_intersect_spec:
  assumes a: "constraint_wf a" "constraint_small a" and b: "constraint_wf b" "constraint_small b"
    and dev: "constraint_dev a = constraint_dev b"
  shows "case ped_constraint_intersect (Some a) (Some b) of
      None \<Rightarrow> \<forall>g. \<not> (ped_constraint_is_solution a g \<and> ped_constraint_is_solution b g)
    | Some c \<Rightarrow> constraint_wf c \<and> constraint_dev c = constraint_dev a \<and>
        (\<forall>g. ped_constraint_is_solution c g \<longleftrightarrow>
           ped_constraint_is_solution a g \<and> ped_constraint_is_solution b g)"
proof -
  from a(1) obtain sa ea sr er where A: "start_align a = Some sa" "end_align a = Some ea"
    "start_range a = Some sr" "end_range a = Some er" "geom_wf sr" "geom_wf er"
    "g_dev sr = g_dev er" "0 < min_size a" by (rule constraint_wfE)
  from b(1) obtain sa' ea' sr' er' where B: "start_align b = Some sa'" "end_align b = Some ea'"
    "start_range b = Some sr'" "end_range b = Some er'" "geom_wf sr'" "geom_wf er'"
    "g_dev sr' = g_dev er'" "0 < min_size b" by (rule constraint_wfE)
  note IA = is_solution_iff[OF A(1-4)] and IB = is_solution_iff[OF B(1-4)]
  have d: "g_dev sr = g_dev sr'" "g_dev er = g_dev er'"
    using dev A B by (simp_all add: constraint_dev_def)
  have sm: "align_small sa" "align_small ea" "align_small sa'" "align_small ea'"
    using a(2) b(2) A B by (simp_all add: constraint_small_def)
  note SA = alignment_intersect_spec[OF sm(1,3)] and EA = alignment_intersect_spec[OF sm(2,4)]
  let ?sa = "ped_alignment_intersect (Some sa) (Some sa')"
  let ?ea = "ped_alignment_intersect (Some ea) (Some ea')"
  let ?sr = "ped_geometry_intersect (Some sr) (Some sr')"
  let ?er = "ped_geometry_intersect (Some er) (Some er')"
  show ?thesis
  proof (cases "?sa = None \<or> ?ea = None \<or> ?sr = None \<or> ?er = None")
    case True
    have "\<not> (ped_constraint_is_solution a g \<and> ped_constraint_is_solution b g)" for g
    proof -
      from True consider "?sa = None" | "?ea = None" | "?sr = None" | "?er = None"
        by (elim disjE) simp_all
      then show ?thesis
      proof cases
        case 1
        with SA show ?thesis unfolding IA IB by auto
      next
        case 2
        with EA show ?thesis unfolding IA IB by auto
      next
        case 3
        from intersect_None_sector[OF this d(1), of "g_start g"] show ?thesis
          unfolding IA IB by blast
      next
        case 4
        from intersect_None_sector[OF this d(2), of "g_end g"] show ?thesis
          unfolding IA IB by blast
      qed
    qed
    moreover have "ped_constraint_intersect (Some a) (Some b) = None"
      using True A B by (auto simp: ped_constraint_intersect_def split: option.splits)
    ultimately show ?thesis by simp
  next
    case False
    then obtain s e u v where i: "?sa = Some s" "?ea = Some e" "?sr = Some u" "?er = Some v" by auto
    note u = intersect_Some[OF A(5) B(5) i(3)] intersect_dest[OF i(3)]
    note v = intersect_Some[OF A(6) B(6) i(4)] intersect_dest[OF i(4)]
    have wf: "align_wf s" "align_wf e" using SA EA i by auto
    have ab: "aligned s t \<longleftrightarrow> aligned sa t \<and> aligned sa' t"
      "aligned e t \<longleftrightarrow> aligned ea t \<and> aligned ea' t" for t using SA EA i by auto
    have dd: "g_dev u = g_dev v" "0 < max (min_size a) (min_size b)"
      using u(3) v(3) A(7,8) by (simp_all add: less_max_iff_disj)
    obtain c where c: "ped_constraint_new (Some s) (Some e) u v (max (min_size a) (min_size b))
        (min (max_size a) (max_size b)) = Some c" "constraint_wf c" "constraint_dev c = g_dev u"
      "\<And>g. ped_constraint_is_solution c g \<longleftrightarrow> solves s u (g_start g) \<and> solves e v (g_end g)
         \<and> max (min_size a) (min_size b) \<le> g_length g \<and> g_length g \<le> min (max_size a) (max_size b)"
      using constraint_init_wf[OF wf u(1) v(1) dd] by blast
    have "ped_constraint_intersect (Some a) (Some b) = Some c"
      using i A B c(1) by (simp add: ped_constraint_intersect_def Let_def)
    moreover have "constraint_dev c = constraint_dev a"
      using c(3) u(3) A(3) by (simp add: constraint_dev_def)
    moreover have "ped_constraint_is_solution c g \<longleftrightarrow>
        ped_constraint_is_solution a g \<and> ped_constraint_is_solution b g" for g
      unfolding c(4) IA IB ab u(5,6) v(5,6) max.bounded_iff min.bounded_iff by blast
    ultimately show ?thesis using c(2) by simp
  qed
qed

lemma constraint_new_from_max_spec:
  assumes "geom_wf m"
  shows "\<exists>c. ped_constraint_new_from_max m = Some c \<and> constraint_wf c \<and> constraint_dev c = g_dev m
    \<and> (\<forall>g. geom_wf g \<longrightarrow> g_dev g = g_dev m \<longrightarrow>
          (ped_constraint_is_solution c g \<longleftrightarrow> ped_geometry_test_inside m g))"
proof -
  let ?a = "\<lparr>offset = 0, grain_size = 1\<rparr> :: PedAlignment"
  have any: "ped_alignment_any = Some ?a" by (simp add: ped_alignment_any_def)
  have "align_wf ?a" by (simp add: align_wf_def)
  from constraint_init_wf[OF this this assms assms refl zero_less_one, of "g_length m"]
  obtain c where c: "ped_constraint_new_from_max m = Some c" "constraint_wf c"
    "constraint_dev c = g_dev m" "\<And>g. ped_constraint_is_solution c g \<longleftrightarrow>
      solves ?a m (g_start g) \<and> solves ?a m (g_end g) \<and> 1 \<le> g_length g \<and> g_length g \<le> g_length m"
    by (auto simp: ped_constraint_new_from_max_def any)
  have "ped_constraint_is_solution c g \<longleftrightarrow> ped_geometry_test_inside m g"
    if "geom_wf g" "g_dev g = g_dev m" for g
    unfolding c(4) using that assms
    by (auto simp: aligned_any[OF any] ped_geometry_test_inside_def geom_wf_def)
  with c show ?thesis by blast
qed

lemma constraint_min_max_spec:
  assumes mn: "geom_wf mn" and mx: "geom_wf mx" and ins: "ped_geometry_test_inside mx mn"
  shows "\<exists>c. ped_constraint_new_from_min_max mn mx = Some c \<and> constraint_wf c
    \<and> constraint_dev c = g_dev mn \<and> (\<forall>g. geom_wf g \<longrightarrow> g_dev g = g_dev mn \<longrightarrow>
          (ped_constraint_is_solution c g \<longleftrightarrow>
             ped_geometry_test_inside mx g \<and> ped_geometry_test_inside g mn))"
proof -
  let ?a = "\<lparr>offset = 0, grain_size = 1\<rparr> :: PedAlignment"
  have any: "ped_alignment_any = Some ?a" by (simp add: ped_alignment_any_def)
  have a: "align_wf ?a" by (simp add: align_wf_def)
  have i: "g_dev mx = g_dev mn" "g_start mx \<le> g_start mn" "g_end mn \<le> g_end mx"
    using ins by (auto simp: ped_geometry_test_inside_def split: if_splits)
  let ?s = "geometry_init_local (g_dev mn) (g_start mx) (g_start mn - g_start mx + 1)"
  let ?e = "geometry_init_local (g_dev mn) (g_end mn) (g_end mx - g_end mn + 1)"
  have wf: "geom_wf ?s" "geom_wf ?e" "g_dev ?s = g_dev ?e" "0 < g_length mn" "g_dev ?s = g_dev mn"
    and f: "g_start ?s = g_start mx" "g_end ?s = g_start mn" "g_start ?e = g_end mn"
      "g_end ?e = g_end mx"
    using mn mx i by (auto simp: geom_wf_def)
  from constraint_init_wf[OF a a wf(1-4), of "g_length mx"]
  obtain c where c: "ped_constraint_new_from_min_max mn mx = Some c" "constraint_wf c"
    "constraint_dev c = g_dev mn" "\<And>g. ped_constraint_is_solution c g \<longleftrightarrow>
      solves ?a ?s (g_start g) \<and> solves ?a ?e (g_end g) \<and> g_length mn \<le> g_length g
        \<and> g_length g \<le> g_length mx"
    unfolding ped_constraint_new_from_min_max_def any Let_def wf(5) by blast
  have "ped_constraint_is_solution c g \<longleftrightarrow>
        ped_geometry_test_inside mx g \<and> ped_geometry_test_inside g mn"
    if "geom_wf g" "g_dev g = g_dev mn" for g
    unfolding c(4) f using that mn mx i
    by (auto simp: aligned_any[OF any] ped_geometry_test_inside_def geom_wf_def)
  with c show ?thesis by blast
qed

lemma constraint_any_spec:
  assumes "0 < dev_length (devs dev)"
  shows "\<exists>c. ped_constraint_any devs dev = Some c \<and> constraint_wf c \<and> constraint_dev c = dev
    \<and> (\<forall>g. geom_wf g \<longrightarrow> (ped_constraint_is_solution c g \<longleftrightarrow> g_end g < dev_length (devs dev)))"
proof -
  let ?a = "\<lparr>offset = 0, grain_size = 1\<rparr> :: PedAlignment"
  let ?N = "dev_length (devs dev)"
  let ?m = "\<lparr>g_dev = dev, g_start = 0, g_length = ?N, g_end = ?N - 1\<rparr>"
  have any: "ped_alignment_any = Some ?a" by (simp add: ped_alignment_any_def)
  have a: "align_wf ?a" "geom_wf ?m" using assms by (simp_all add: align_wf_def geom_wf_def)
  have "ped_geometry_init uninit_geometry dev 0 ?N = Inr ?m" using assms by (simp add: geom_simps)
  then have d: "ped_constraint_any devs dev = ped_constraint_new (Some ?a) (Some ?a) ?m ?m 1 ?N"
    by (simp add: ped_constraint_any_def any)
  from constraint_init_wf[OF a(1,1) a(2,2) refl zero_less_one, of ?N]
  obtain c where c: "ped_constraint_any devs dev = Some c" "constraint_wf c"
    "constraint_dev c = dev" "\<And>g. ped_constraint_is_solution c g \<longleftrightarrow>
      solves ?a ?m (g_start g) \<and> solves ?a ?m (g_end g) \<and> 1 \<le> g_length g \<and> g_length g \<le> ?N"
    unfolding d by auto
  have "ped_constraint_is_solution c g \<longleftrightarrow> g_end g < ?N" if "geom_wf g" for g
    unfolding c(4) using that by (auto simp: aligned_any[OF any] geom_wf_def)
  with c(1-3) show ?thesis by blast
qed

lemma constraint_exact_spec:
  assumes g: "geom_on_dev devs g"
  shows "\<exists>c. ped_constraint_exact devs g = Some c \<and> constraint_wf c \<and> constraint_dev c = g_dev g
    \<and> (\<forall>h. geom_wf h \<longrightarrow> g_dev h = g_dev g \<longrightarrow> (ped_constraint_is_solution c h \<longleftrightarrow> h = g))"
proof -
  let ?N = "dev_length (devs (g_dev g))"
  let ?sa = "\<lparr>offset = g_start g, grain_size = 0\<rparr> :: PedAlignment"
  let ?ea = "\<lparr>offset = g_end g, grain_size = 0\<rparr> :: PedAlignment"
  let ?s = "\<lparr>g_dev = g_dev g, g_start = g_start g, g_length = 1, g_end = g_start g\<rparr>"
  let ?e = "\<lparr>g_dev = g_dev g, g_start = g_end g, g_length = 1, g_end = g_end g\<rparr>"
  have wf: "geom_wf g" "g_end g < ?N" using g by (simp_all add: geom_on_dev_def)
  have i: "ped_alignment_init undefined (g_start g) 0 = Some ?sa"
    "ped_alignment_init undefined (g_end g) 0 = Some ?ea"
    "ped_geometry_init uninit_geometry (g_dev g) (g_start g) 1 = Inr ?s"
    "ped_geometry_init uninit_geometry (g_dev g) (g_end g) 1 = Inr ?e"
    by (simp_all add: ped_alignment_init_def geom_simps)
  have d: "ped_constraint_exact devs g = ped_constraint_new (Some ?sa) (Some ?ea) ?s ?e 1 ?N"
    unfolding ped_constraint_exact_def Let_def i by simp
  have w: "align_wf ?sa" "align_wf ?ea" "geom_wf ?s" "geom_wf ?e" "g_dev ?s = g_dev ?e"
    using wf by (simp_all add: align_wf_def geom_wf_def)
  from constraint_init_wf[OF w zero_less_one, of ?N]
  obtain c where c: "ped_constraint_exact devs g = Some c" "constraint_wf c"
    "constraint_dev c = g_dev g" "\<And>h. ped_constraint_is_solution c h \<longleftrightarrow>
      solves ?sa ?s (g_start h) \<and> solves ?ea ?e (g_end h) \<and> 1 \<le> g_length h \<and> g_length h \<le> ?N"
    unfolding d by auto
  have "ped_constraint_is_solution c h \<longleftrightarrow> h = g" if "geom_wf h" "g_dev h = g_dev g" for h
    unfolding c(4) using that wf geom_eqI[of h g] by (auto simp: aligned_dvd geom_wf_def)
  with c(1-3) show ?thesis by blast
qed

section \<open>Constraints the library builds are well formed\<close>

text \<open>
  The constraints a program can hold: the results of the constructors on well-formed arguments,
  copies and intersections of such constraints.
\<close>

inductive constraint_built :: "dev_table \<Rightarrow> PedConstraint \<Rightarrow> bool" for devs :: dev_table where
  built_any: "ped_constraint_any devs dev = Some c \<Longrightarrow> constraint_built devs c"
| built_exact: "geom_on_dev devs g \<Longrightarrow> ped_constraint_exact devs g = Some c \<Longrightarrow> constraint_built devs c"
| built_from_max: "geom_wf g \<Longrightarrow> ped_constraint_new_from_max g = Some c \<Longrightarrow> constraint_built devs c"
| built_from_min_max: "geom_wf mn \<Longrightarrow> geom_wf mx \<Longrightarrow> ped_geometry_test_inside mx mn \<Longrightarrow>
    ped_constraint_new_from_min_max mn mx = Some c \<Longrightarrow> constraint_built devs c"
| built_from_min: "geom_on_dev devs mn \<Longrightarrow> ped_constraint_new_from_min devs mn = Some c \<Longrightarrow> constraint_built devs c"
| built_new: "align_wf sa \<Longrightarrow> align_wf ea \<Longrightarrow> geom_wf sr \<Longrightarrow> geom_wf er \<Longrightarrow> g_dev sr = g_dev er \<Longrightarrow> 0 < mn \<Longrightarrow>
    ped_constraint_new (Some sa) (Some ea) sr er mn mx = Some c \<Longrightarrow> constraint_built devs c"
| built_duplicate: "constraint_built devs a \<Longrightarrow> ped_constraint_duplicate a = Some c \<Longrightarrow> constraint_built devs c"
| built_intersect: "constraint_built devs a \<Longrightarrow> constraint_built devs b \<Longrightarrow>
    ped_constraint_intersect (Some a) (Some b) = Some c \<Longrightarrow> constraint_built devs c"

lemma alignment_init_wf: "ped_alignment_init a off grain = Some b \<Longrightarrow> align_wf b"
  by (auto simp: ped_alignment_init_def align_wf_def split: if_splits)

lemma alignment_intersect_wf:
  assumes "align_wf a" "align_wf b" "ped_alignment_intersect (Some a) (Some b) = Some c"
  shows "align_wf c"
  using assms alignment_init_wf
  by (auto simp: ped_alignment_intersect_def alignment_intersect_ordered_def ped_alignment_new_def
      ped_alignment_duplicate_def Let_def split: if_splits)

lemma constraint_init_built_wf:
  assumes "align_wf sa" "align_wf ea" "geom_wf sr" "geom_wf er" "g_dev sr = g_dev er" "0 < mn"
    and "ped_constraint_new (Some sa) (Some ea) sr er mn mx = Some c"
  shows "constraint_wf c"
  using constraint_init_wf[OF assms(1-6), of mx] assms(7) by auto

lemma constraint_duplicate_wf:
  assumes "constraint_wf a" "ped_constraint_duplicate a = Some c"
  shows "constraint_wf c"
  using assms(1)
proof (rule constraint_wfE)
  fix sa ea sr er
  assume "start_align a = Some sa" "end_align a = Some ea" "start_range a = Some sr" "end_range a = Some er"
    "0 \<le> grain_size sa" "0 \<le> grain_size ea" "geom_wf sr" "geom_wf er" "g_dev sr = g_dev er" "0 < min_size a"
  then show "constraint_wf c"
    using assms(2) constraint_init_built_wf[of sa ea sr er "min_size a" "max_size a" c]
    by (simp add: ped_constraint_duplicate_def align_wf_def)
qed

lemma constraint_intersect_wf:
  assumes a: "constraint_wf a" and b: "constraint_wf b"
    and c: "ped_constraint_intersect (Some a) (Some b) = Some c"
  shows "constraint_wf c"
proof -
  obtain sa ea sr er where A: "start_align a = Some sa" "end_align a = Some ea"
    "start_range a = Some sr" "end_range a = Some er" "align_wf sa" "align_wf ea" "geom_wf sr" "geom_wf er"
    "g_dev sr = g_dev er" "0 < min_size a" using a by (auto elim!: constraint_wfE simp: align_wf_def)
  obtain sa' ea' sr' er' where B: "start_align b = Some sa'" "end_align b = Some ea'"
    "start_range b = Some sr'" "end_range b = Some er'" "align_wf sa'" "align_wf ea'" "geom_wf sr'" "geom_wf er'"
    "g_dev sr' = g_dev er'" "0 < min_size b" using b by (auto elim!: constraint_wfE simp: align_wf_def)
  obtain s e u v where i: "ped_alignment_intersect (Some sa) (Some sa') = Some s"
    "ped_alignment_intersect (Some ea) (Some ea') = Some e"
    "ped_geometry_intersect (Some sr) (Some sr') = Some u" "ped_geometry_intersect (Some er) (Some er') = Some v"
    and n: "ped_constraint_new (Some s) (Some e) u v (max (min_size a) (min_size b))
      (min (max_size a) (max_size b)) = Some c"
    using c A B by (auto simp: ped_constraint_intersect_def Let_def split: option.splits)
  note u = intersect_Some[OF A(7) B(7) i(3)] intersect_dest[OF i(3)]
    and v = intersect_Some[OF A(8) B(8) i(4)] intersect_dest[OF i(4)]
  show ?thesis
    using constraint_init_built_wf[OF _ _ u(1) v(1) _ _ n] alignment_intersect_wf[OF A(5) B(5) i(1)]
      alignment_intersect_wf[OF A(6) B(6) i(2)] u(3) v(3) A(9,10) by (simp add: less_max_iff_disj)
qed

section \<open>Properties\<close>

text \<open>
  C22. Soundness of the constraint solver: whatever \<open>ped_constraint_solve_nearest\<close> returns
  satisfies the constraint (\<open>ped_constraint_is_solution\<close>), is a well-formed region of the
  device asked for and ends on the device.
\<close>
theorem solve_nearest_sound:
  assumes "constraint_wf c" and "ped_constraint_solve_nearest devs (Some c) g = Some r"
  shows "ped_constraint_is_solution c r \<and> geom_wf r \<and> g_dev r = g_dev g \<and>
    g_end r < dev_length (devs (constraint_dev c))"
  using solve_nearest_solution[OF assms] by blast

definition demo_dev :: PedDevice where
  "demo_dev = \<lparr>dev_path = ''disk0'', sector_size = 512, phys_sector_size = 512,
     dev_length = 10000, open_count = 0, read_only = False, external_mode = False,
     bios_geom = \<lparr>cylinders = 1, heads = 255, sectors = 63\<rparr>,
     hw_geom = \<lparr>cylinders = 1, heads = 255, sectors = 63\<rparr>, arch_specific = None\<rparr>"

definition demo_constraint :: PedConstraint where
  "demo_constraint = \<lparr>start_align = Some \<lparr>offset = 0, grain_size = 2048\<rparr>,
     end_align = Some \<lparr>offset = 0, grain_size = 1\<rparr>,
     start_range = Some \<lparr>g_dev = 0, g_start = 34, g_length = 9933, g_end = 9966\<rparr>,
     end_range = Some \<lparr>g_dev = 0, g_start = 34, g_length = 9933, g_end = 9966\<rparr>,
     min_size = 1, max_size = 9933\<rparr>"

lemma demo_constraint_wf: "constraint_wf demo_constraint"
  by (simp add: constraint_wf_def demo_constraint_def align_wf_def geom_wf_def)

lemma demo_constraint_solved:
  "ped_constraint_solve_nearest (\<lambda>_. demo_dev) (Some demo_constraint)
     \<lparr>g_dev = 0, g_start = 3000, g_length = 2000, g_end = 4999\<rparr> =
   Some \<lparr>g_dev = 0, g_start = 2048, g_length = 2952, g_end = 4999\<rparr>"
  by code_simp

theorem solve_nearest_sound_witness:
  "ped_constraint_is_solution demo_constraint
     \<lparr>g_dev = 0, g_start = 2048, g_length = 2952, g_end = 4999\<rparr>"
  using solve_nearest_sound[OF demo_constraint_wf demo_constraint_solved] by blast

text \<open>
  C23. Completeness of the constraint solver for the constraints with an end grain of one
  sector: if such a constraint has a solution that ends at or after sector \<open>min_size\<close>, the
  solver finds one, whatever region it is asked to be near to.
\<close>
theorem solve_nearest_finds:
  assumes "constraint_wf c" and "grain_size (the (end_align c)) = 1"
    and "g_end (the (end_range c)) < dev_length (devs (constraint_dev c))"
    and "ped_constraint_is_solution c h" and "geom_wf h" and "min_size c \<le> g_end h"
  shows "ped_constraint_solve_nearest devs (Some c) g \<noteq> None"
  using assms(1,2,4,5,6,3) by (rule solve_nearest_complete)

theorem solve_nearest_finds_witness:
  "ped_constraint_solve_nearest (\<lambda>_. demo_dev) (Some demo_constraint)
     \<lparr>g_dev = 0, g_start = 0, g_length = 10, g_end = 9\<rparr> \<noteq> None"
proof (rule solve_nearest_finds[OF demo_constraint_wf])
  show "ped_constraint_is_solution demo_constraint
      \<lparr>g_dev = 0, g_start = 4096, g_length = 1, g_end = 4096\<rparr>" by code_simp
qed (simp_all add: demo_constraint_def demo_dev_def constraint_dev_def geom_wf_def)

text \<open>
  Asking the solver for a region that already is a solution returns this region
  unchanged, when it ends at or after sector \<open>min_size\<close> and on the device.
\<close>
theorem solve_nearest_keeps_solutions:
  assumes "constraint_wf c" and "ped_constraint_is_solution c g" and "geom_wf g"
    and "g_end g < dev_length (devs (constraint_dev c))" and "min_size c \<le> g_end g"
  shows "ped_constraint_solve_nearest devs (Some c) g = Some g"
  using assms by (rule solve_nearest_fixed)

theorem solve_nearest_keeps_solutions_witness:
  "ped_constraint_solve_nearest (\<lambda>_. demo_dev) (Some demo_constraint)
     \<lparr>g_dev = 0, g_start = 4096, g_length = 100, g_end = 4195\<rparr> =
   Some \<lparr>g_dev = 0, g_start = 4096, g_length = 100, g_end = 4195\<rparr>"
proof (rule solve_nearest_keeps_solutions[OF demo_constraint_wf])
  show "ped_constraint_is_solution demo_constraint
      \<lparr>g_dev = 0, g_start = 4096, g_length = 100, g_end = 4195\<rparr>" by code_simp
qed (simp_all add: demo_constraint_def demo_dev_def constraint_dev_def geom_wf_def)

text \<open>
  The condition on the end cannot be dropped: a constraint that only the whole device
  satisfies has a solution which \<open>ped_constraint_solve_nearest\<close> does not find, because
  \<open>constraint_get_canonical_start_range\<close> rejects \<open>last_end_soln < min_size\<close> although a
  region of \<open>min_size\<close> sectors may end at \<open>min_size - 1\<close>.
\<close>
theorem whole_device_unsolvable:
  "let full = \<lparr>g_dev = 0, g_start = 0, g_length = 10000, g_end = 9999\<rparr>;
       c = ped_constraint_new_from_min (\<lambda>_. demo_dev) full
   in ped_constraint_is_solution (the c) full \<and>
      ped_constraint_solve_nearest (\<lambda>_. demo_dev) c full = None"
  by code_simp



text \<open>
  The special constraints mean what their names say: \<open>ped_constraint_exact\<close> is satisfied
  by its region only, \<open>ped_constraint_any\<close> by every region of the device,
  \<open>ped_constraint_new_from_max\<close> by the regions inside a given one, and
  \<open>ped_constraint_new_from_min_max\<close> by those between two given ones.
\<close>
theorem special_constraints_correct:
  assumes "geom_on_dev devs mn" "geom_on_dev devs mx" "ped_geometry_test_inside mx mn"
    and h: "geom_wf h" "g_dev h = g_dev mn"
  shows "(\<exists>c. ped_constraint_exact devs mn = Some c \<and> (ped_constraint_is_solution c h \<longleftrightarrow> h = mn)) \<and>
    (\<exists>c. ped_constraint_any devs (g_dev mn) = Some c \<and>
       (ped_constraint_is_solution c h \<longleftrightarrow> g_end h < dev_length (devs (g_dev mn)))) \<and>
    (\<exists>c. ped_constraint_new_from_max mx = Some c \<and>
       (ped_constraint_is_solution c h \<longleftrightarrow> ped_geometry_test_inside mx h)) \<and>
    (\<exists>c. ped_constraint_new_from_min_max mn mx = Some c \<and>
       (ped_constraint_is_solution c h \<longleftrightarrow>
          ped_geometry_test_inside mx h \<and> ped_geometry_test_inside h mn))"
proof -
  have w: "geom_wf mn" "geom_wf mx" "g_dev mx = g_dev mn" "0 < dev_length (devs (g_dev mn))"
    using assms by (auto simp: geom_on_dev_def geom_wf_def ped_geometry_test_inside_def split: if_splits)
  show ?thesis
    using constraint_exact_spec[OF assms(1)] constraint_any_spec[of devs "g_dev mn", OF w(4)]
      constraint_new_from_max_spec[OF w(2)] constraint_min_max_spec[OF w(1,2) assms(3)] h w(3)
    by metis
qed

theorem special_constraints_correct_witness:
  "\<exists>c. ped_constraint_new_from_min_max \<lparr>g_dev = 0, g_start = 20, g_length = 5, g_end = 24\<rparr>
         \<lparr>g_dev = 0, g_start = 10, g_length = 90, g_end = 99\<rparr> = Some c \<and>
       ped_constraint_is_solution c \<lparr>g_dev = 0, g_start = 20, g_length = 10, g_end = 29\<rparr>"
  using special_constraints_correct[of "\<lambda>_. demo_dev"
      "\<lparr>g_dev = 0, g_start = 20, g_length = 5, g_end = 24\<rparr>"
      "\<lparr>g_dev = 0, g_start = 10, g_length = 90, g_end = 99\<rparr>"
      "\<lparr>g_dev = 0, g_start = 20, g_length = 10, g_end = 29\<rparr>"]
  by (simp add: geom_on_dev_def geom_wf_def demo_dev_def ped_geometry_test_inside_def)

text \<open>
  C35. Type safety of constraints: every constraint obtained from the constructors, by copying and by
  intersecting has its two alignments and two ranges (no null pointer is left for the solver to
  follow), grains that are not negative, well-formed ranges on one device and a positive least
  size - also when the 32-bit arithmetic of the intersection of alignments wraps around.
\<close>
theorem built_constraints_well_formed:
  assumes "constraint_built devs c"
  shows "constraint_wf c"
  using assms
proof induction
  case (built_any dev c)
  then have "0 < dev_length (devs dev)"
    by (auto simp: ped_constraint_any_def geom_simps split: if_splits)
  then show ?case using constraint_any_spec built_any by fastforce
next
  case (built_exact g c)
  then show ?case using constraint_exact_spec by fastforce
next
  case (built_from_max g c)
  then show ?case using constraint_new_from_max_spec by fastforce
next
  case (built_from_min_max mn mx c)
  then show ?case using constraint_min_max_spec by fastforce
next
  case (built_from_min mn c)
  let ?d = "geometry_init_local (g_dev mn) 0 (dev_length (devs (g_dev mn)))"
  have "geom_wf mn" "geom_wf ?d" "ped_geometry_test_inside ?d mn"
    using built_from_min(1) by (auto simp: geom_on_dev_def geom_wf_def ped_geometry_test_inside_def)
  then show ?case using constraint_min_max_spec[of mn ?d] built_from_min(2)
    by (auto simp: ped_constraint_new_from_min_def)
qed (blast intro: constraint_init_built_wf constraint_duplicate_wf constraint_intersect_wf)+

theorem built_constraints_well_formed_witness:
  "\<exists>c. ped_constraint_intersect (ped_constraint_any (\<lambda>_. demo_dev) 0) (Some demo_constraint) = Some c \<and> constraint_wf c"
proof -
  have "ped_constraint_intersect (ped_constraint_any (\<lambda>_. demo_dev) 0) (Some demo_constraint) \<noteq> None" by code_simp
  then obtain a c where c: "ped_constraint_any (\<lambda>_. demo_dev) 0 = Some a"
    "ped_constraint_intersect (Some a) (Some demo_constraint) = Some c"
    by (cases "ped_constraint_any (\<lambda>_. demo_dev) 0") (auto simp: ped_constraint_intersect_def)
  have "ped_constraint_duplicate demo_constraint = Some demo_constraint" by code_simp
  moreover obtain sa ea sr er where "start_align demo_constraint = Some sa" "end_align demo_constraint = Some ea"
    "start_range demo_constraint = Some sr" "end_range demo_constraint = Some er"
    "align_wf sa" "align_wf ea" "geom_wf sr" "geom_wf er" "g_dev sr = g_dev er" "0 < min_size demo_constraint"
    using demo_constraint_wf by (auto elim!: constraint_wfE simp: align_wf_def)
  ultimately have "constraint_built (\<lambda>_. demo_dev) demo_constraint"
    using built_new[where sa = sa and ea = ea and sr = sr and er = er and mn = "min_size demo_constraint"
        and mx = "max_size demo_constraint"] by (simp add: ped_constraint_duplicate_def)
  then have "constraint_built (\<lambda>_. demo_dev) c" using c by (blast intro: built_intersect built_any)
  then show ?thesis using built_constraints_well_formed[of "\<lambda>_. demo_dev" c] c by simp
qed

end
