(* ===== verification/Disk.thy ===== *)
theory Disk
  imports Constraint
begin

text \<open>
  Model of the partition table object of \<open>libparted/disk.c\<close>: the partition nodes, the lists
  they are linked into, update mode, and the operations that add, move and remove
  partitions.

  A \<open>PedPartition *\<close> is an address of the heap of its disk, so that a partition that is not
  (or no longer) in a list is still an object callers hold and change. The chain of a doubly
  linked list (\<open>prev\<close>, \<open>next\<close>) is the list of its addresses: \<open>part_list\<close> for the disk, and
  the field \<open>p_list\<close> for the logical partitions of an extended one. Which of the two lists a
  partition is linked into is decided by its type, as \<open>_disk_check_sanity\<close> asserts and
  \<open>disk_wf\<close> states. \<open>ped_malloc\<close> does not fail; \<open>free\<close> removes the address.

  The operations of a label type (\<open>PedDiskOps\<close>) are a record of functions, an argument
  here. \<open>devs\<close> is the table of devices, \<open>ask\<close> the answer of the exception handler.
\<close>

section \<open>Types\<close>

type_synonym addr = nat

abbreviation PED_PARTITION_NORMAL :: nat where "PED_PARTITION_NORMAL \<equiv> 0"
abbreviation PED_PARTITION_LOGICAL :: nat where "PED_PARTITION_LOGICAL \<equiv> 1"
abbreviation PED_PARTITION_EXTENDED :: nat where "PED_PARTITION_EXTENDED \<equiv> 2"
abbreviation PED_PARTITION_FREESPACE :: nat where "PED_PARTITION_FREESPACE \<equiv> 4"
abbreviation PED_PARTITION_METADATA :: nat where "PED_PARTITION_METADATA \<equiv> 8"
abbreviation PED_PARTITION_PROTECTED :: nat where "PED_PARTITION_PROTECTED \<equiv> 16"

abbreviation PED_DISK_TYPE_EXTENDED :: nat where "PED_DISK_TYPE_EXTENDED \<equiv> 1"
abbreviation PED_DISK_TYPE_PARTITION_NAME :: nat where "PED_DISK_TYPE_PARTITION_NAME \<equiv> 2"
abbreviation PED_DISK_TYPE_PARTITION_TYPE_ID :: nat where "PED_DISK_TYPE_PARTITION_TYPE_ID \<equiv> 4"
abbreviation PED_DISK_TYPE_PARTITION_TYPE_UUID :: nat
  where "PED_DISK_TYPE_PARTITION_TYPE_UUID \<equiv> 8"
abbreviation PED_DISK_TYPE_DISK_UUID :: nat where "PED_DISK_TYPE_DISK_UUID \<equiv> 16"
abbreviation PED_DISK_TYPE_PARTITION_UUID :: nat where "PED_DISK_TYPE_PARTITION_UUID \<equiv> 32"

record 'x PedPartition =
  p_geom :: PedGeometry
  p_num :: int
  p_type :: nat
  p_fs :: "string option"
  p_list :: "addr list"
  p_specific :: 'x

record ('x, 'y) PedDisk =
  d_dev :: dev_ref
  part_list :: "addr list"
  d_heap :: "addr \<Rightarrow> 'x PedPartition option"
  next_addr :: addr
  needs_clobber :: bool
  update_mode :: int
  d_specific :: 'y

text \<open>
  The operations of a label type that work on partitions, and (as an extension) the one
  that adds metadata partitions: it calls back into \<open>ped_disk_add_partition\<close>.
\<close>

record ('x, 'y) PedPartOps =
  t_name :: string
  t_features :: nat
  op_partition_new ::
    "('x, 'y) PedDisk \<Rightarrow> nat \<Rightarrow> string option \<Rightarrow> PedSector \<Rightarrow> PedSector \<Rightarrow> 'x PedPartition result"
  op_partition_duplicate :: "('x, 'y) PedDisk \<Rightarrow> 'x PedPartition \<Rightarrow> 'x PedPartition result"
  op_partition_set_system :: "'x PedPartition \<Rightarrow> string option \<Rightarrow> 'x PedPartition result"
  op_partition_align ::
    "dev_table \<Rightarrow> ('x, 'y) PedDisk \<Rightarrow> addr \<Rightarrow> PedConstraint option \<Rightarrow> PedGeometry result"
  op_partition_enumerate :: "('x, 'y) PedDisk \<Rightarrow> addr \<Rightarrow> bool \<times> int"
  op_partition_check :: "'x PedPartition \<Rightarrow> unit result"
  op_get_max_primary_partition_count :: "('x, 'y) PedDisk \<Rightarrow> int"
  op_partition_is_flag_available :: "'x PedPartition \<Rightarrow> int \<Rightarrow> bool"
  op_partition_set_flag :: "('x, 'y) PedDisk \<Rightarrow> addr \<Rightarrow> int \<Rightarrow> bool \<Rightarrow> bool \<times> ('x, 'y) PedDisk"
  op_partition_get_flag :: "'x PedPartition \<Rightarrow> int \<Rightarrow> bool"

record ('x, 'y) PedDiskOps = "('x, 'y) PedPartOps" +
  op_alloc_metadata ::
    "dev_table \<Rightarrow> PedExceptionHandler \<Rightarrow> ('x, 'y) PedDisk \<Rightarrow> bool \<times> ('x, 'y) PedDisk"

section \<open>Nodes and lists\<close>

definition node :: "('x, 'y) PedDisk \<Rightarrow> addr \<Rightarrow> 'x PedPartition" where
  "node d a = the (d_heap d a)"

definition upd_node ::
    "addr \<Rightarrow> ('x PedPartition \<Rightarrow> 'x PedPartition) \<Rightarrow> ('x, 'y) PedDisk \<Rightarrow> ('x, 'y) PedDisk" where
  "upd_node a f d = d\<lparr>d_heap := (d_heap d)(a \<mapsto> f (node d a))\<rparr>"

definition alloc_node :: "('x, 'y) PedDisk \<Rightarrow> 'x PedPartition \<Rightarrow> ('x, 'y) PedDisk \<times> addr" where
  "alloc_node d p =
     (d\<lparr>d_heap := (d_heap d)(next_addr d \<mapsto> p), next_addr := next_addr d + 1\<rparr>, next_addr d)"

abbreviation geom_of :: "('x, 'y) PedDisk \<Rightarrow> addr \<Rightarrow> PedGeometry" where
  "geom_of d a \<equiv> p_geom (node d a)"

abbreviation type_of :: "('x, 'y) PedDisk \<Rightarrow> addr \<Rightarrow> nat" where
  "type_of d a \<equiv> p_type (node d a)"

definition ped_partition_is_active :: "'x PedPartition \<Rightarrow> bool" where
  "ped_partition_is_active part \<longleftrightarrow>
     \<not> (has_bit (p_type part) PED_PARTITION_FREESPACE
        \<or> has_bit (p_type part) PED_PARTITION_METADATA)"

definition ped_disk_type_check_feature :: "('x, 'y, 'z) PedPartOps_scheme \<Rightarrow> nat \<Rightarrow> bool" where
  "ped_disk_type_check_feature T feature \<longleftrightarrow> has_bit (t_features T) feature"

definition ped_disk_extended_partition :: "('x, 'y) PedDisk \<Rightarrow> addr option" where
  "ped_disk_extended_partition d = find (\<lambda>a. type_of d a = PED_PARTITION_EXTENDED) (part_list d)"

text \<open>The list a partition of the given type is linked into.\<close>

definition list_for :: "('x, 'y) PedDisk \<Rightarrow> nat \<Rightarrow> addr list" where
  "list_for d ty =
     (if has_bit ty PED_PARTITION_LOGICAL
      then p_list (node d (the (ped_disk_extended_partition d))) else part_list d)"

definition set_list_for :: "nat \<Rightarrow> addr list \<Rightarrow> ('x, 'y) PedDisk \<Rightarrow> ('x, 'y) PedDisk" where
  "set_list_for ty xs d =
     (if has_bit ty PED_PARTITION_LOGICAL
      then upd_node (the (ped_disk_extended_partition d)) (\<lambda>p. p\<lparr>p_list := xs\<rparr>) d
      else d\<lparr>part_list := xs\<rparr>)"

text \<open>\<open>part->next\<close> and \<open>part->prev\<close>.\<close>

fun succ_in :: "addr list \<Rightarrow> addr \<Rightarrow> addr option" where
  "succ_in (x # y # xs) a = (if x = a then Some y else succ_in (y # xs) a)"
| "succ_in _ a = None"

definition part_next :: "('x, 'y) PedDisk \<Rightarrow> addr \<Rightarrow> addr option" where
  "part_next d a = succ_in (list_for d (type_of d a)) a"

definition part_prev :: "('x, 'y) PedDisk \<Rightarrow> addr \<Rightarrow> addr option" where
  "part_prev d a = succ_in (rev (list_for d (type_of d a))) a"

definition list_head :: "'a list \<Rightarrow> 'a option" where
  "list_head xs = (case xs of [] \<Rightarrow> None | x # _ \<Rightarrow> Some x)"

definition ped_disk_next_partition ::
    "('x, 'y) PedDisk \<Rightarrow> addr option \<Rightarrow> addr option" where
  "ped_disk_next_partition d part =
     (case part of
        None \<Rightarrow> list_head (part_list d)
      | Some a \<Rightarrow>
          if type_of d a = PED_PARTITION_EXTENDED then
            (if p_list (node d a) \<noteq> [] then list_head (p_list (node d a)) else part_next d a)
          else if part_next d a \<noteq> None then part_next d a
          else if has_bit (type_of d a) PED_PARTITION_LOGICAL then
            (case ped_disk_extended_partition d of
               None \<Rightarrow> None
             | Some e \<Rightarrow> part_next d e)
          else None)"

text \<open>
  The partitions in the order \<open>ped_disk_next_partition\<close> visits them
  (lemma \<open>next_partition_walk\<close>): the loops of the code over all partitions are recursions
  over this list.
\<close>

definition disk_walk :: "('x, 'y) PedDisk \<Rightarrow> addr list" where
  "disk_walk d =
     concat (map (\<lambda>a. if type_of d a = PED_PARTITION_EXTENDED then a # p_list (node d a) else [a])
       (part_list d))"

section \<open>Counting and searching\<close>

definition ped_disk_get_primary_partition_count :: "('x, 'y) PedDisk \<Rightarrow> int" where
  "ped_disk_get_primary_partition_count d =
     fold (\<lambda>walk count.
         if ped_partition_is_active (node d walk)
            \<and> \<not> has_bit (type_of d walk) PED_PARTITION_LOGICAL then count + 1 else count)
       (disk_walk d) 0"

definition ped_disk_get_last_partition_num :: "('x, 'y) PedDisk \<Rightarrow> int" where
  "ped_disk_get_last_partition_num d =
     fold (\<lambda>walk highest. if p_num (node d walk) > highest then p_num (node d walk) else highest)
       (disk_walk d) (- 1)"

definition ped_disk_get_partition :: "('x, 'y) PedDisk \<Rightarrow> int \<Rightarrow> addr option" where
  "ped_disk_get_partition d num =
     find (\<lambda>walk. p_num (node d walk) = num
             \<and> \<not> has_bit (type_of d walk) PED_PARTITION_FREESPACE)
       (disk_walk d)"

definition ped_disk_get_partition_by_sector :: "('x, 'y) PedDisk \<Rightarrow> PedSector \<Rightarrow> addr option" where
  "ped_disk_get_partition_by_sector d sect =
     find (\<lambda>walk. ped_geometry_test_sector_inside (geom_of d walk) sect
             \<and> type_of d walk \<noteq> PED_PARTITION_EXTENDED)
       (disk_walk d)"

section \<open>Raw list operations\<close>

fun insert_before :: "addr \<Rightarrow> addr \<Rightarrow> addr list \<Rightarrow> addr list" where
  "insert_before loc part [] = []"
| "insert_before loc part (x # xs) =
     (if x = loc then part # x # xs else x # insert_before loc part xs)"

fun insert_after :: "addr \<Rightarrow> addr \<Rightarrow> addr list \<Rightarrow> addr list" where
  "insert_after loc part [] = []"
| "insert_after loc part (x # xs) =
     (if x = loc then x # part # xs else x # insert_after loc part xs)"

definition disk_raw_insert_before ::
    "('x, 'y) PedDisk \<Rightarrow> addr \<Rightarrow> addr \<Rightarrow> ('x, 'y) PedDisk" where
  "disk_raw_insert_before d loc part =
     set_list_for (type_of d loc) (insert_before loc part (list_for d (type_of d loc))) d"

definition disk_raw_insert_after ::
    "('x, 'y) PedDisk \<Rightarrow> addr \<Rightarrow> addr \<Rightarrow> ('x, 'y) PedDisk" where
  "disk_raw_insert_after d loc part =
     set_list_for (type_of d loc) (insert_after loc part (list_for d (type_of d loc))) d"

definition disk_raw_remove :: "('x, 'y) PedDisk \<Rightarrow> addr \<Rightarrow> ('x, 'y) PedDisk" where
  "disk_raw_remove d part =
     set_list_for (type_of d part) (remove1 part (list_for d (type_of d part))) d"

text \<open>The loop of \<open>_disk_raw_add\<close>: the pair \<open>(last, walk)\<close> it stops with.\<close>

fun raw_add_scan ::
    "('x, 'y) PedDisk \<Rightarrow> PedSector \<Rightarrow> addr option \<Rightarrow> addr list \<Rightarrow> addr option \<times> addr option" where
  "raw_add_scan d endd lst [] = (lst, None)"
| "raw_add_scan d endd lst (walk # rest) =
     (if g_start (geom_of d walk) > endd then (lst, Some walk)
      else raw_add_scan d endd (Some walk) rest)"

definition disk_raw_add :: "('x, 'y) PedDisk \<Rightarrow> addr \<Rightarrow> ('x, 'y) PedDisk" where
  "disk_raw_add d part =
     (let (lst, walk) = raw_add_scan d (g_end (geom_of d part)) None
                           (list_for d (type_of d part))
      in case walk of
           Some w \<Rightarrow> disk_raw_insert_before d w part
         | None \<Rightarrow>
             (case lst of
                Some l \<Rightarrow> disk_raw_insert_after d l part
              | None \<Rightarrow> set_list_for (type_of d part) [part] d))"

section \<open>Creating and destroying partitions\<close>

definition ped_partition_alloc ::
    "('x, 'y) PedDisk \<Rightarrow> nat \<Rightarrow> string option \<Rightarrow> PedSector \<Rightarrow> PedSector \<Rightarrow> 'x \<Rightarrow>
     'x PedPartition result" where
  "ped_partition_alloc d ty fs start endd specific =
     (case ped_geometry_init uninit_geometry (d_dev d) start (endd - start + 1) of
        Inl e \<Rightarrow> Inl e
      | Inr g \<Rightarrow> Inr \<lparr>p_geom = g, p_num = - 1, p_type = ty, p_fs = fs, p_list = [],
                     p_specific = specific\<rparr>)"

definition ped_partition_new ::
    "('x, 'y, 'z) PedPartOps_scheme \<Rightarrow> ('x, 'y) PedDisk \<Rightarrow> nat \<Rightarrow> string option \<Rightarrow>
     PedSector \<Rightarrow> PedSector \<Rightarrow> 'x PedPartition result" where
  "ped_partition_new T d ty fs start endd =
     (if \<not> ped_disk_type_check_feature T PED_DISK_TYPE_EXTENDED
         \<and> (ty = PED_PARTITION_EXTENDED \<or> ty = PED_PARTITION_LOGICAL)
      then Inl (Some (error_cancel ''%s disk labels do not support extended partitions.''
             [AStr (t_name T)]))
      else case op_partition_new T d ty fs start endd of
        Inl e \<Rightarrow> Inl e
      | Inr part \<Rightarrow>
          if fs \<noteq> None \<or> p_type part = PED_PARTITION_EXTENDED
          then op_partition_set_system T part fs
          else Inr part)"

definition ped_partition_destroy :: "addr \<Rightarrow> ('x, 'y) PedDisk \<Rightarrow> ('x, 'y) PedDisk" where
  "ped_partition_destroy a d = d\<lparr>d_heap := (d_heap d)(a := None)\<rparr>"

text \<open>
  \<open>ped_partition_new\<close> for a placeholder: the code uses the result without testing it for
  \<open>NULL\<close>.
\<close>

definition new_placeholder ::
    "('x, 'y, 'z) PedPartOps_scheme \<Rightarrow> ('x, 'y) PedDisk \<Rightarrow> nat \<Rightarrow> PedSector \<Rightarrow> PedSector \<Rightarrow>
     ('x, 'y) PedDisk \<times> addr" where
  "new_placeholder T d ty start endd =
     alloc_node d (the (ptr_of (ped_partition_new T d ty None start endd)))"

section \<open>Free space\<close>

definition disk_remove_freespace :: "('x, 'y) PedDisk \<Rightarrow> ('x, 'y) PedDisk" where
  "disk_remove_freespace d =
     fold (\<lambda>walk d.
         if has_bit (type_of d walk) PED_PARTITION_FREESPACE
         then ped_partition_destroy walk (disk_raw_remove d walk) else d)
       (disk_walk d) d"

text \<open>
  One pass of the loops over a list of partitions: a placeholder of type \<open>ty\<close> is inserted
  before every partition that does not start right after \<open>last_end\<close>.
\<close>

definition fill_gap ::
    "('x, 'y, 'z) PedPartOps_scheme \<Rightarrow> nat \<Rightarrow> addr \<Rightarrow> ('x, 'y) PedDisk \<times> PedSector \<Rightarrow>
     ('x, 'y) PedDisk \<times> PedSector" where
  "fill_gap T ty walk s =
     (case s of (d, last_end) \<Rightarrow>
        let d' = (if g_start (geom_of d walk) > last_end + 1 then
                    let (d1, free_space) =
                      new_placeholder T d ty (last_end + 1) (g_start (geom_of d walk) - 1)
                    in disk_raw_insert_before d1 walk free_space
                  else d)
        in (d', g_end (geom_of d' walk)))"

definition fill_gaps ::
    "('x, 'y, 'z) PedPartOps_scheme \<Rightarrow> nat \<Rightarrow> addr list \<Rightarrow> ('x, 'y) PedDisk \<times> PedSector \<Rightarrow>
     ('x, 'y) PedDisk \<times> PedSector" where
  "fill_gaps T ty walk = fold (fill_gap T ty) walk"

definition alloc_extended_freespace ::
    "('x, 'y, 'z) PedPartOps_scheme \<Rightarrow> ('x, 'y) PedDisk \<Rightarrow> ('x, 'y) PedDisk" where
  "alloc_extended_freespace T d =
     (case ped_disk_extended_partition d of
        None \<Rightarrow> d
      | Some e \<Rightarrow>
          let ty = PED_PARTITION_FREESPACE + PED_PARTITION_LOGICAL;
              walk = p_list (node d e);
              (d1, last_end) = fill_gaps T ty walk (d, g_start (geom_of d e))
          in if last_end < g_end (geom_of d1 e) then
               let (d2, free_space) =
                 new_placeholder T d1 ty (last_end + 1) (g_end (geom_of d1 e))
               in if walk \<noteq> [] then disk_raw_insert_after d2 (last walk) free_space
                  else upd_node e (\<lambda>p. p\<lparr>p_list := [free_space]\<rparr>) d2
             else d1)"

definition disk_alloc_freespace ::
    "('x, 'y, 'z) PedPartOps_scheme \<Rightarrow> dev_table \<Rightarrow> ('x, 'y) PedDisk \<Rightarrow> ('x, 'y) PedDisk" where
  "disk_alloc_freespace T devs d0 =
     (let d = alloc_extended_freespace T (disk_remove_freespace d0);
          ty = PED_PARTITION_FREESPACE;
          walk = part_list d;
          (d1, last_end) = fill_gaps T ty walk (d, - 1);
          N = dev_length (devs (d_dev d1))
      in if last_end < N - 1 then
           let (d2, free_space) = new_placeholder T d1 ty (last_end + 1) (N - 1)
           in if walk \<noteq> [] then disk_raw_insert_after d2 (last walk) free_space
              else d2\<lparr>part_list := [free_space]\<rparr>
         else d1)"

section \<open>Numbering\<close>

text \<open>The operation of the label returns its status and the number that the partition then has.\<close>

definition partition_enumerate ::
    "('x, 'y, 'z) PedPartOps_scheme \<Rightarrow> addr \<Rightarrow> ('x, 'y) PedDisk \<Rightarrow> bool \<times> ('x, 'y) PedDisk" where
  "partition_enumerate T part d =
     (let (ok, n) = op_partition_enumerate T d part in (ok, upd_node part (\<lambda>p. p\<lparr>p_num := n\<rparr>) d))"

definition ped_disk_enumerate_partitions ::
    "('x, 'y, 'z) PedPartOps_scheme \<Rightarrow> ('x, 'y) PedDisk \<Rightarrow> bool \<times> ('x, 'y) PedDisk" where
  "ped_disk_enumerate_partitions T d =
     (case while_ok
             (\<lambda>i d. case ped_disk_get_partition d i of
                      None \<Rightarrow> (True, d)
                    | Some walk \<Rightarrow> partition_enumerate T walk d)
             [1 .. ped_disk_get_last_partition_num d] d of
        (False, d1) \<Rightarrow> (False, d1)
      | (True, d1) \<Rightarrow>
          while_ok
            (\<lambda>walk d. if ped_partition_is_active (node d walk) \<and> p_num (node d walk) = - 1
                      then partition_enumerate T walk d else (True, d))
            (disk_walk d1) d1)"

section \<open>Update mode\<close>

text \<open>
  Inside update mode (\<open>update_mode > 0\<close>) entering and leaving it again only counts. The
  calls that are always nested in update mode (from \<open>_disk_remove_metadata\<close>, from the
  deletion of logical partitions and from \<open>alloc_metadata\<close>) are therefore defined first, with
  \<open>mode_up\<close> and \<open>mode_down\<close> for \<open>_disk_push_update_mode\<close> and \<open>_disk_pop_update_mode\<close>; the
  lemmas \<open>nested_remove\<close>, \<open>nested_delete\<close> and \<open>nested_add\<close> show that they are what the
  general functions do there.
\<close>

definition mode_up :: "('x, 'y) PedDisk \<Rightarrow> ('x, 'y) PedDisk" where
  "mode_up d = d\<lparr>update_mode := update_mode d + 1\<rparr>"

definition mode_down :: "('x, 'y) PedDisk \<Rightarrow> ('x, 'y) PedDisk" where
  "mode_down d = d\<lparr>update_mode := update_mode d - 1\<rparr>"

definition remove_nested ::
    "('x, 'y, 'z) PedPartOps_scheme \<Rightarrow> addr \<Rightarrow> ('x, 'y) PedDisk \<Rightarrow> ('x, 'y) PedDisk" where
  "remove_nested T part d =
     snd (ped_disk_enumerate_partitions T (mode_down (disk_raw_remove (mode_up d) part)))"

text \<open>Deleting a partition that is not the extended one, and the general case.\<close>

definition delete_leaf ::
    "('x, 'y, 'z) PedPartOps_scheme \<Rightarrow> addr \<Rightarrow> ('x, 'y) PedDisk \<Rightarrow> ('x, 'y) PedDisk" where
  "delete_leaf T part d =
     mode_down (ped_partition_destroy part (remove_nested T part (mode_up d)))"

definition ped_disk_delete_all_logical ::
    "('x, 'y, 'z) PedPartOps_scheme \<Rightarrow> ('x, 'y) PedDisk \<Rightarrow> ('x, 'y) PedDisk" where
  "ped_disk_delete_all_logical T d =
     fold (delete_leaf T) (p_list (node d (the (ped_disk_extended_partition d)))) d"

definition delete_nested ::
    "('x, 'y, 'z) PedPartOps_scheme \<Rightarrow> addr \<Rightarrow> ('x, 'y) PedDisk \<Rightarrow> ('x, 'y) PedDisk" where
  "delete_nested T part d =
     (let d1 = mode_up d;
          d2 = (if type_of d1 part = PED_PARTITION_EXTENDED
                then ped_disk_delete_all_logical T d1 else d1)
      in mode_down (ped_partition_destroy part (remove_nested T part d2)))"

text \<open>
  The loop of \<open>_disk_remove_metadata\<close> visits the first partition and then every metadata
  partition, looking up the next one before it deletes the current one.
\<close>

definition disk_remove_metadata ::
    "('x, 'y, 'z) PedPartOps_scheme \<Rightarrow> ('x, 'y) PedDisk \<Rightarrow> ('x, 'y) PedDisk" where
  "disk_remove_metadata T d =
     fold (\<lambda>walk d. if has_bit (type_of d walk) PED_PARTITION_METADATA
                    then delete_nested T walk d else d)
       (disk_walk d) d"

definition disk_push_update_mode ::
    "('x, 'y, 'z) PedPartOps_scheme \<Rightarrow> ('x, 'y) PedDisk \<Rightarrow> ('x, 'y) PedDisk" where
  "disk_push_update_mode T d =
     (if update_mode d = 0 then disk_remove_metadata T (mode_up (disk_remove_freespace d))
      else mode_up d)"

text \<open>
  \<open>_disk_alloc_metadata\<close> is only called in update mode (by \<open>_disk_pop_update_mode\<close>), where
  it does not remove metadata first.
\<close>

definition disk_alloc_metadata ::
    "('x, 'y) PedDiskOps \<Rightarrow> dev_table \<Rightarrow> PedExceptionHandler \<Rightarrow> ('x, 'y) PedDisk \<Rightarrow>
     bool \<times> ('x, 'y) PedDisk" where
  "disk_alloc_metadata T devs ask d = op_alloc_metadata T devs ask d"

definition disk_pop_update_mode ::
    "('x, 'y) PedDiskOps \<Rightarrow> dev_table \<Rightarrow> PedExceptionHandler \<Rightarrow> ('x, 'y) PedDisk \<Rightarrow>
     ('x, 'y) PedDisk" where
  "disk_pop_update_mode T devs ask d =
     (if update_mode d = 1
      then disk_alloc_freespace T devs (mode_down (snd (disk_alloc_metadata T devs ask d)))
      else mode_down d)"

section \<open>Checks\<close>

text \<open>The loop of \<open>_partition_get_overlap_constraint\<close>: \<open>min_start\<close> and the rest of the list.\<close>

fun overlap_scan ::
    "('x, 'y) PedDisk \<Rightarrow> addr \<Rightarrow> PedSector \<Rightarrow> PedSector \<Rightarrow> addr list \<Rightarrow> PedSector \<times> addr list" where
  "overlap_scan d part start min_start [] = (min_start, [])"
| "overlap_scan d part start min_start (walk # rest) =
     (if g_start (geom_of d walk) < start \<or> min_start \<ge> g_start (geom_of d walk)
      then overlap_scan d part start
             (if walk \<noteq> part then g_end (geom_of d walk) + 1 else min_start) rest
      else (min_start, walk # rest))"

definition LLONG_MAX :: int where
  "LLONG_MAX = 2 ^ 63 - 1"

definition partition_get_overlap_constraint ::
    "('x, 'y) PedDisk \<Rightarrow> addr \<Rightarrow> PedGeometry \<Rightarrow> PedConstraint option" where
  "partition_get_overlap_constraint d part geom =
     (let e = the (ped_disk_extended_partition d);
          (lo, hi, walk) =
            (if has_bit (type_of d part) PED_PARTITION_LOGICAL
             then (g_start (geom_of d e), g_end (geom_of d e), p_list (node d e))
             else (0, LLONG_MAX - 1, part_list d));
          (min_start, rest) = overlap_scan d part (g_start geom) lo walk;
          rest' = (if list_head rest = Some part then tl rest else rest);
          max_end = (case rest' of [] \<Rightarrow> hi | w # _ \<Rightarrow> g_start (geom_of d w) - 1)
      in if min_start > max_end then None
         else ped_constraint_new_from_max
                (geometry_init_local (d_dev d) min_start (max_end - min_start + 1)))"

definition partition_check_basic_sanity ::
    "('x, 'y, 'z) PedPartOps_scheme \<Rightarrow> dev_table \<Rightarrow> ('x, 'y) PedDisk \<Rightarrow> addr \<Rightarrow> unit result" where
  "partition_check_basic_sanity T devs d part =
     (if \<not> ped_disk_type_check_feature T PED_DISK_TYPE_EXTENDED
         \<and> (type_of d part = PED_PARTITION_EXTENDED \<or> type_of d part = PED_PARTITION_LOGICAL)
      then Inl (Some (error_cancel
             ''%s disk labels don't support logical or extended partitions.'' [AStr (t_name T)]))
      else if ped_partition_is_active (node d part)
              \<and> \<not> has_bit (type_of d part) PED_PARTITION_LOGICAL
              \<and> ped_disk_get_primary_partition_count d + 1
                > op_get_max_primary_partition_count T d
      then Inl (Some (error_cancel ''Too many primary partitions.'' []))
      else if has_bit (type_of d part) PED_PARTITION_LOGICAL
              \<and> ped_disk_extended_partition d = None
      then Inl (Some (error_cancel
             ''Can't add a logical partition to %s, because there is no extended partition.''
             [AStr (dev_path (devs (d_dev d)))]))
      else Inr ())"

definition check_extended_partition ::
    "dev_table \<Rightarrow> ('x, 'y) PedDisk \<Rightarrow> addr \<Rightarrow> unit result" where
  "check_extended_partition devs d part =
     (let ext_part = (case ped_disk_extended_partition d of None \<Rightarrow> part | Some e \<Rightarrow> e)
      in if part \<noteq> ext_part
         then Inl (Some (error_cancel ''Can't have more than one extended partition on %s.''
                [AStr (dev_path (devs (d_dev d)))]))
         else if \<exists>walk \<in> set (p_list (node d ext_part)).
                   \<not> ped_geometry_test_inside (geom_of d ext_part) (geom_of d walk)
         then Inl (Some (error_cancel
                ''Can't have logical partitions outside of the extended partition.'' []))
         else Inr ())"

text \<open>An error that the user may choose to ignore.\<close>

definition unless_ignored ::
    "PedExceptionHandler \<Rightarrow> bool \<Rightarrow> PedException \<Rightarrow> unit result" where
  "unless_ignored ask bad e =
     (if bad \<and> ask e \<noteq> PED_EXCEPTION_IGNORE then Inl (Some e) else Inr ())"

fun and_then :: "unit result \<Rightarrow> 'a result \<Rightarrow> 'a result" where
  "and_then (Inl e) r = Inl e"
| "and_then (Inr _) r = r"

definition check_partition ::
    "('x, 'y, 'z) PedPartOps_scheme \<Rightarrow> dev_table \<Rightarrow> PedExceptionHandler \<Rightarrow> ('x, 'y) PedDisk \<Rightarrow>
     addr \<Rightarrow> unit result" where
  "check_partition T devs ask d part =
     (let ext_part = ped_disk_extended_partition d;
          ty = type_of d part;
          geom = geom_of d part;
          path = AStr (dev_path (devs (d_dev d)))
      in and_then
           (if ty = PED_PARTITION_EXTENDED then check_extended_partition devs d part else Inr ())
        (and_then
           (unless_ignored ask
              (has_bit ty PED_PARTITION_LOGICAL
               \<and> \<not> ped_geometry_test_inside (geom_of d (the ext_part)) geom)
              (error_ignore_cancel
                 ''Can't have a logical partition outside of the extended partition on %s.'' [path]))
        (and_then
           (unless_ignored ask
              (\<not> has_bit ty PED_PARTITION_LOGICAL \<and> ext_part \<noteq> None \<and> ext_part \<noteq> Some part
               \<and> ped_geometry_test_inside (geom_of d (the ext_part)) geom)
              (error_ignore_cancel
                 ''Can't have a primary partition inside an extended partition.'' []))
        (and_then
           (unless_ignored ask (g_end geom \<ge> dev_length (devs (d_dev d)))
              (error_ignore_cancel ''Can't have a partition outside the disk!'' []))
           (if \<not> has_bit ty PED_PARTITION_METADATA then op_partition_check T (node d part)
            else Inr ())))))"

section \<open>Adding and removing partitions\<close>

text \<open>The part of \<open>partition_align\<close> that label types share: the new geometry of the partition.\<close>

definition ped_partition_attempt_align ::
    "dev_table \<Rightarrow> 'x PedPartition \<Rightarrow> PedConstraint option \<Rightarrow> PedConstraint option \<Rightarrow>
     PedGeometry option" where
  "ped_partition_attempt_align devs part external internal =
     (case ped_constraint_intersect external internal of
        None \<Rightarrow> None
      | Some intersection \<Rightarrow>
          (case ped_constraint_solve_nearest devs (Some intersection) (p_geom part) of
             None \<Rightarrow> None
           | Some solution \<Rightarrow>
               (case ped_geometry_set (p_geom part) (g_start solution) (g_length solution) of
                  Inl _ \<Rightarrow> Some (p_geom part)
                | Inr g \<Rightarrow> Some g)))"

definition partition_align ::
    "('x, 'y, 'z) PedPartOps_scheme \<Rightarrow> dev_table \<Rightarrow> addr \<Rightarrow> PedConstraint option \<Rightarrow>
     ('x, 'y) PedDisk \<Rightarrow> unit result \<times> ('x, 'y) PedDisk" where
  "partition_align T devs part con d =
     (if needs_clobber d then (Inr (), d)
      else case op_partition_align T devs d part con of
        Inl e \<Rightarrow> (Inl e, d)
      | Inr g \<Rightarrow> (Inr (), upd_node part (\<lambda>p. p\<lparr>p_geom := g\<rparr>) d))"

text \<open>
  The body of \<open>ped_disk_add_partition\<close> between entering and leaving update mode: the
  constraint of an active partition, its number and its alignment.
\<close>

definition place_active ::
    "('x, 'y, 'z) PedPartOps_scheme \<Rightarrow> dev_table \<Rightarrow> PedExceptionHandler \<Rightarrow> addr \<Rightarrow>
     PedConstraint option \<Rightarrow> ('x, 'y) PedDisk \<Rightarrow> unit result \<times> ('x, 'y) PedDisk" where
  "place_active T devs ask part con d =
     (let overlap = partition_get_overlap_constraint d part (geom_of d part);
          cons = ped_constraint_intersect overlap con;
          clash = error_ignore_cancel ''Can't have overlapping partitions.'' []
      in if cons = None \<and> con \<noteq> None \<and> ask clash \<noteq> PED_EXCEPTION_IGNORE
         then (Inl (Some clash), d)
         else
           let con' = (if cons = None \<and> con \<noteq> None then con else cons)
           in case partition_enumerate T part d of
                (False, d1) \<Rightarrow> (Inl None, d1)
              | (True, d1) \<Rightarrow> partition_align T devs part con' d1)"

definition add_body ::
    "('x, 'y, 'z) PedPartOps_scheme \<Rightarrow> dev_table \<Rightarrow> PedExceptionHandler \<Rightarrow> addr \<Rightarrow>
     PedConstraint option \<Rightarrow> ('x, 'y) PedDisk \<Rightarrow> unit result \<times> ('x, 'y) PedDisk" where
  "add_body T devs ask part con d =
     (case (if ped_partition_is_active (node d part) then place_active T devs ask part con d
            else (Inr (), d)) of
        (Inl e, d1) \<Rightarrow> (Inl e, d1)
      | (Inr _, d1) \<Rightarrow>
          (case check_partition T devs ask d1 part of
             Inl e \<Rightarrow> (Inl e, d1)
           | Inr _ \<Rightarrow> (Inr (), disk_raw_add d1 part)))"

definition add_nested ::
    "('x, 'y, 'z) PedPartOps_scheme \<Rightarrow> dev_table \<Rightarrow> PedExceptionHandler \<Rightarrow> addr \<Rightarrow>
     PedConstraint option \<Rightarrow> ('x, 'y) PedDisk \<Rightarrow> unit result \<times> ('x, 'y) PedDisk" where
  "add_nested T devs ask part con d =
     (case partition_check_basic_sanity T devs d part of
        Inl e \<Rightarrow> (Inl e, d)
      | Inr _ \<Rightarrow>
          (case add_body T devs ask part con (mode_up d) of (r, d1) \<Rightarrow> (r, mode_down d1)))"

definition ped_disk_add_partition ::
    "('x, 'y) PedDiskOps \<Rightarrow> dev_table \<Rightarrow> PedExceptionHandler \<Rightarrow> addr \<Rightarrow>
     PedConstraint option \<Rightarrow> ('x, 'y) PedDisk \<Rightarrow> unit result \<times> ('x, 'y) PedDisk" where
  "ped_disk_add_partition T devs ask part con d =
     (case partition_check_basic_sanity T devs d part of
        Inl e \<Rightarrow> (Inl e, d)
      | Inr _ \<Rightarrow>
          (case add_body T devs ask part con (disk_push_update_mode T d) of
             (r, d1) \<Rightarrow> (r, disk_pop_update_mode T devs ask d1)))"

definition ped_disk_remove_partition ::
    "('x, 'y) PedDiskOps \<Rightarrow> dev_table \<Rightarrow> PedExceptionHandler \<Rightarrow> addr \<Rightarrow> ('x, 'y) PedDisk \<Rightarrow>
     ('x, 'y) PedDisk" where
  "ped_disk_remove_partition T devs ask part d =
     snd (ped_disk_enumerate_partitions T
       (disk_pop_update_mode T devs ask
         (disk_raw_remove (disk_push_update_mode T d) part)))"

definition ped_disk_delete_partition ::
    "('x, 'y) PedDiskOps \<Rightarrow> dev_table \<Rightarrow> PedExceptionHandler \<Rightarrow> addr \<Rightarrow> ('x, 'y) PedDisk \<Rightarrow>
     ('x, 'y) PedDisk" where
  "ped_disk_delete_partition T devs ask part d =
     (let d1 = disk_push_update_mode T d;
          d2 = (if type_of d1 part = PED_PARTITION_EXTENDED
                then ped_disk_delete_all_logical T d1 else d1);
          d3 = ped_partition_destroy part (remove_nested T part d2)
      in disk_pop_update_mode T devs ask d3)"

definition ped_disk_delete_all ::
    "('x, 'y) PedDiskOps \<Rightarrow> dev_table \<Rightarrow> PedExceptionHandler \<Rightarrow> ('x, 'y) PedDisk \<Rightarrow>
     ('x, 'y) PedDisk" where
  "ped_disk_delete_all T devs ask d =
     (let d1 = disk_push_update_mode T d
      in disk_pop_update_mode T devs ask (fold (delete_nested T) (part_list d1) d1))"

section \<open>Moving and resizing partitions\<close>

definition set_geom :: "addr \<Rightarrow> PedGeometry \<Rightarrow> ('x, 'y) PedDisk \<Rightarrow> ('x, 'y) PedDisk" where
  "set_geom part g d = upd_node part (\<lambda>p. p\<lparr>p_geom := g\<rparr>) d"

text \<open>
  The body of \<open>ped_disk_set_partition_geom\<close> between entering and leaving update mode.
\<close>

definition set_geom_body ::
    "('x, 'y, 'z) PedPartOps_scheme \<Rightarrow> dev_table \<Rightarrow> PedExceptionHandler \<Rightarrow> addr \<Rightarrow>
     PedConstraint option \<Rightarrow> PedGeometry \<Rightarrow> ('x, 'y) PedDisk \<Rightarrow> unit result \<times> ('x, 'y) PedDisk" where
  "set_geom_body T devs ask part con new_geom d =
     (let overlap = partition_get_overlap_constraint d part new_geom;
          cons = ped_constraint_intersect overlap con
      in if cons = None \<and> con \<noteq> None
         then (Inl (Some (error_cancel ''Can't have overlapping partitions.'' [])), d)
         else case partition_align T devs part cons (set_geom part new_geom d) of
           (Inl e, d1) \<Rightarrow> (Inl e, d1)
         | (Inr _, d1) \<Rightarrow>
             (case check_partition T devs ask d1 part of
                Inl e \<Rightarrow> (Inl e, d1)
              | Inr _ \<Rightarrow> (Inr (), disk_raw_add (disk_raw_remove d1 part) part)))"

definition ped_disk_set_partition_geom ::
    "('x, 'y) PedDiskOps \<Rightarrow> dev_table \<Rightarrow> PedExceptionHandler \<Rightarrow> addr \<Rightarrow>
     PedConstraint option \<Rightarrow> PedSector \<Rightarrow> PedSector \<Rightarrow> ('x, 'y) PedDisk \<Rightarrow>
     unit result \<times> ('x, 'y) PedDisk" where
  "ped_disk_set_partition_geom T devs ask part con start endd d =
     (let old_geom = geom_of d part
      in case ped_geometry_init uninit_geometry (g_dev old_geom) start (endd - start + 1) of
           Inl e \<Rightarrow> (Inl e, d)
         | Inr new_geom \<Rightarrow>
             (case set_geom_body T devs ask part con new_geom (disk_push_update_mode T d) of
                (Inr _, d1) \<Rightarrow> (Inr (), disk_pop_update_mode T devs ask d1)
              | (Inl e, d1) \<Rightarrow>
                  (Inl e, set_geom part old_geom (disk_pop_update_mode T devs ask d1))))"

definition ped_disk_maximize_partition ::
    "('x, 'y) PedDiskOps \<Rightarrow> dev_table \<Rightarrow> PedExceptionHandler \<Rightarrow> addr \<Rightarrow>
     PedConstraint option \<Rightarrow> ('x, 'y) PedDisk \<Rightarrow> unit result \<times> ('x, 'y) PedDisk" where
  "ped_disk_maximize_partition T devs ask part con d =
     (let e = the (ped_disk_extended_partition d);
          (global_min_start, global_max_end) =
            (if has_bit (type_of d part) PED_PARTITION_LOGICAL
             then (g_start (geom_of d e), g_end (geom_of d e))
             else (0, dev_length (devs (d_dev d)) - 1));
          old_geom = geom_of d part;
          d1 = disk_push_update_mode T d;
          new_start = (case part_prev d1 part of
                         Some p \<Rightarrow> g_end (geom_of d1 p) + 1 | None \<Rightarrow> global_min_start);
          new_end = (case part_next d1 part of
                       Some p \<Rightarrow> g_start (geom_of d1 p) - 1 | None \<Rightarrow> global_max_end)
      in case ped_disk_set_partition_geom T devs ask part con new_start new_end d1 of
           (Inr _, d2) \<Rightarrow> (Inr (), disk_pop_update_mode T devs ask d2)
         | (Inl ex, d2) \<Rightarrow>
             (Inl ex, disk_pop_update_mode T devs ask
                (snd (ped_disk_set_partition_geom T devs ask part
                  (ped_constraint_any devs (d_dev d2)) (g_start old_geom) (g_end old_geom) d2))))"

definition ped_disk_get_max_partition_geometry ::
    "('x, 'y) PedDiskOps \<Rightarrow> dev_table \<Rightarrow> PedExceptionHandler \<Rightarrow> addr \<Rightarrow>
     PedConstraint option \<Rightarrow> ('x, 'y) PedDisk \<Rightarrow> PedGeometry result \<times> ('x, 'y) PedDisk" where
  "ped_disk_get_max_partition_geometry T devs ask part con d =
     (let old_geom = geom_of d part
      in case ped_disk_maximize_partition T devs ask part con d of
           (Inl e, d1) \<Rightarrow> (Inl e, d1)
         | (Inr _, d1) \<Rightarrow>
             (ped_geometry_duplicate (geom_of d1 part),
              snd (ped_disk_set_partition_geom T devs ask part
                (ped_constraint_exact devs old_geom) (g_start old_geom) (g_end old_geom) d1)))"

definition ped_disk_minimize_extended_partition ::
    "('x, 'y) PedDiskOps \<Rightarrow> dev_table \<Rightarrow> PedExceptionHandler \<Rightarrow> ('x, 'y) PedDisk \<Rightarrow>
     unit result \<times> ('x, 'y) PedDisk" where
  "ped_disk_minimize_extended_partition T devs ask d =
     (case ped_disk_extended_partition d of
        None \<Rightarrow> (Inr (), d)
      | Some e \<Rightarrow>
          let d1 = disk_push_update_mode T d;
              logicals = p_list (node d1 e)
          in if logicals = [] then
               (Inr (), ped_disk_delete_partition T devs ask e
                  (disk_pop_update_mode T devs ask d1))
             else
               (case ped_disk_set_partition_geom T devs ask e
                       (ped_constraint_any devs (d_dev d1))
                       (g_start (geom_of d1 (hd logicals)))
                       (g_end (geom_of d1 (last logicals))) d1 of
                  (r, d2) \<Rightarrow> (r, disk_pop_update_mode T devs ask d2)))"

section \<open>New and duplicate tables\<close>

definition ped_disk_alloc :: "dev_ref \<Rightarrow> 'y \<Rightarrow> ('x, 'y) PedDisk" where
  "ped_disk_alloc dev specific =
     \<lparr>d_dev = dev, part_list = [], d_heap = Map.empty, next_addr = 0, needs_clobber = False,
      update_mode = 1, d_specific = specific\<rparr>"

text \<open>\<open>type->ops->alloc\<close> is the argument \<open>alloc\<close>.\<close>

definition ped_disk_new_fresh ::
    "('x, 'y) PedDiskOps \<Rightarrow> dev_table \<Rightarrow> PedExceptionHandler \<Rightarrow>
     (dev_ref \<Rightarrow> ('x, 'y) PedDisk option) \<Rightarrow> dev_ref \<Rightarrow> ('x, 'y) PedDisk option" where
  "ped_disk_new_fresh T devs ask alloc dev =
     (case alloc dev of
        None \<Rightarrow> None
      | Some d \<Rightarrow> Some ((disk_pop_update_mode T devs ask d)\<lparr>needs_clobber := True\<rparr>))"

definition add_duplicate_part ::
    "('x, 'y) PedDiskOps \<Rightarrow> dev_table \<Rightarrow> PedExceptionHandler \<Rightarrow> ('x, 'y) PedDisk \<Rightarrow>
     addr \<Rightarrow> ('x, 'y) PedDisk \<Rightarrow> bool \<times> ('x, 'y) PedDisk" where
  "add_duplicate_part T devs ask old_disk old_part d =
     (case op_partition_duplicate T old_disk (node old_disk old_part) of
        Inl _ \<Rightarrow> (False, d)
      | Inr p \<Rightarrow>
          let (d1, new_part) = alloc_node d p
          in (True, disk_pop_update_mode T devs ask
                (disk_raw_add (disk_push_update_mode T d1) new_part)))"

text \<open>\<open>type->ops->duplicate\<close> is the argument \<open>dup\<close>.\<close>

definition ped_disk_duplicate ::
    "('x, 'y) PedDiskOps \<Rightarrow> dev_table \<Rightarrow> PedExceptionHandler \<Rightarrow>
     (('x, 'y) PedDisk \<Rightarrow> ('x, 'y) PedDisk option) \<Rightarrow> ('x, 'y) PedDisk \<Rightarrow>
     ('x, 'y) PedDisk option" where
  "ped_disk_duplicate T devs ask dup old_disk =
     (case dup old_disk of
        None \<Rightarrow> None
      | Some new_disk \<Rightarrow>
          (case while_ok
                  (\<lambda>old_part d.
                      if ped_partition_is_active (node old_disk old_part)
                      then add_duplicate_part T devs ask old_disk old_part d else (True, d))
                  (disk_walk old_disk) (disk_push_update_mode T new_disk) of
             (False, _) \<Rightarrow> None
           | (True, d) \<Rightarrow>
               Some ((disk_pop_update_mode T devs ask d)\<lparr>needs_clobber := needs_clobber old_disk\<rparr>)))"

end
