(* ===== verification/Dos_Chs.thy ===== *)
theory Dos_Chs
  imports Bytes Disk
begin

text \<open>
  Cylinder, head and sector addresses of the msdos label (\<open>libparted/labels/dos.c\<close>): the packed
  form \<open>RawCHS\<close>, its conversion from and to sector numbers, and the inference of the geometry
  (number of heads, sectors per track) that a partition table was written with.

  The members of a raw partition entry are bytes and 32-bit words. \<open>DosDiskData\<close> and
  \<open>DosPartitionData\<close> are what the label hangs on a table and on a partition; placeholders have
  no data (\<open>NULL\<close>). The first sector of a region, which \<open>probe_filesystem_for_geom\<close> reads from
  the device, is the argument \<open>first_sector\<close> (\<open>None\<close> when it cannot be read).
\<close>

section \<open>Types\<close>

record RawCHS =
  chs_head :: byte
  chs_sector :: byte
  chs_cylinder :: byte

record DosRawPartition =
  boot_ind :: byte
  chs_start :: RawCHS
  raw_type :: byte
  chs_end :: RawCHS
  raw_start :: "32 word"
  raw_length :: "32 word"

record OrigState =
  orig_geom :: PedGeometry
  orig_raw_part :: DosRawPartition
  orig_lba_offset :: PedSector

record DosDiskData =
  cylinder_alignment :: bool

record DosPartitionData =
  dos_system :: byte
  dos_boot :: bool
  dos_orig :: "OrigState option"

type_synonym DosDisk = "(DosPartitionData option, DosDiskData) PedDisk"
type_synonym DosPart = "DosPartitionData option PedPartition"
type_synonym first_sector = "PedGeometry \<Rightarrow> byte list option"

definition dos_data :: "DosPart \<Rightarrow> DosPartitionData" where
  "dos_data part = the (p_specific part)"

section \<open>Conversions\<close>

definition MAX_CHS_CYLINDER :: int where
  "MAX_CHS_CYLINDER = 1021"

definition chs_get_cylinder :: "RawCHS \<Rightarrow> int" where
  "chs_get_cylinder chs = uint (chs_cylinder chs) + push_bit 8 (drop_bit 6 (uint (chs_sector chs)))"

definition chs_get_head :: "RawCHS \<Rightarrow> int" where
  "chs_get_head chs = uint (chs_head chs)"

definition chs_get_sector :: "RawCHS \<Rightarrow> int" where
  "chs_get_sector chs = (uint (chs_sector chs) AND 0x3f) - 1"

definition chs_to_sector :: "PedCHSGeometry \<Rightarrow> RawCHS \<Rightarrow> PedSector" where
  "chs_to_sector bios chs =
     (let c = chs_get_cylinder chs; h = chs_get_head chs; s = chs_get_sector chs
      in if c > MAX_CHS_CYLINDER then 0
         else if s < 0 then 0
         else (c * heads bios + h) * sectors bios + s)"

text \<open>The default for a null \<open>bios_geom\<close> is the geometry of the device.\<close>

definition sector_to_chs :: "PedDevice \<Rightarrow> PedCHSGeometry option \<Rightarrow> PedSector \<Rightarrow> RawCHS" where
  "sector_to_chs dev bg sect =
     (let bios = (case bg of None \<Rightarrow> bios_geom dev | Some b \<Rightarrow> b);
          real_c = sect sdiv (heads bios * sectors bios);
          real_h = (sect sdiv sectors bios) smod heads bios;
          real_s = sect smod sectors bios;
          (c, h, s) = (if real_c > MAX_CHS_CYLINDER then (1023, heads bios - 1, sectors bios - 1)
                       else (real_c, real_h, real_s))
      in \<lparr>chs_head = word_of_int h, chs_sector = word_of_int (s + 1 + push_bit 6 (drop_bit 8 c)),
          chs_cylinder = word_of_int (c smod 0x100)\<rparr>)"

definition legacy_start :: "PedCHSGeometry \<Rightarrow> DosRawPartition \<Rightarrow> PedSector" where
  "legacy_start bios raw_part = chs_to_sector bios (chs_start raw_part)"

definition legacy_end :: "PedCHSGeometry \<Rightarrow> DosRawPartition \<Rightarrow> PedSector" where
  "legacy_end bios raw_part = chs_to_sector bios (chs_end raw_part)"

text \<open>\<open>length - 1\<close> is computed in 32 bits.\<close>

definition linear_start :: "DosRawPartition \<Rightarrow> PedSector \<Rightarrow> PedSector" where
  "linear_start raw_part off = off + uint (raw_start raw_part)"

definition linear_end :: "DosRawPartition \<Rightarrow> PedSector \<Rightarrow> PedSector" where
  "linear_end raw_part off = linear_start raw_part off + uint (raw_length raw_part - 1)"

section \<open>Checking a geometry against the table\<close>

definition partition_check_bios_geometry :: "DosPart \<Rightarrow> PedCHSGeometry \<Rightarrow> bool" where
  "partition_check_bios_geometry part bios =
     (case dos_orig (dos_data part) of
        None \<Rightarrow> True
      | Some orig \<Rightarrow>
          let leg_start = legacy_start bios (orig_raw_part orig);
              leg_end = legacy_end bios (orig_raw_part orig)
          in \<not> (leg_start \<noteq> 0 \<and> leg_start \<noteq> g_start (orig_geom orig))
             \<and> \<not> (leg_end \<noteq> 0 \<and> leg_end \<noteq> g_end (orig_geom orig)))"

definition disk_check_bios_geometry :: "DosDisk \<Rightarrow> PedCHSGeometry \<Rightarrow> bool" where
  "disk_check_bios_geometry d bios \<longleftrightarrow>
     list_all (\<lambda>part. ped_partition_is_active (node d part) \<longrightarrow>
         partition_check_bios_geometry (node d part) bios) (disk_walk d)"

section \<open>Inferring the geometry\<close>

text \<open>The numbers of heads and sectors that every Microsoft file system stores in its first sector.\<close>

definition probe_filesystem_for_geom ::
    "dev_table \<Rightarrow> first_sector \<Rightarrow> DosDisk \<Rightarrow> DosPart \<Rightarrow> PedCHSGeometry option" where
  "probe_filesystem_for_geom devs first_sector d part =
     (case p_fs part of
        None \<Rightarrow> None
      | Some fs \<Rightarrow>
          if fs \<notin> {''ntfs'', ''fat16'', ''fat32''} then None
          else case first_sector (p_geom part) of
            None \<Rightarrow> None
          | Some buf \<Rightarrow>
              let secs = uint (buf ! 0x18) + push_bit 8 (uint (buf ! 0x19));
                  hds = uint (buf ! 0x1a) + push_bit 8 (uint (buf ! 0x1b))
              in if secs < 1 \<or> secs > 63 then None
                 else if hds > 255 \<or> hds < 1 then None
                 else Some \<lparr>cylinders = dev_length (devs (d_dev d)) sdiv (secs * hds),
                            heads = hds, sectors = secs\<rparr>)"

text \<open>
  The start \<open>(c, h, s)\<close> and the end \<open>(C, H, S)\<close> of a partition with their sector numbers \<open>a\<close> and
  \<open>A\<close> give two linear equations for the sizes of a cylinder and of a head.
\<close>

definition solve_chs ::
    "int \<times> int \<times> int \<Rightarrow> int \<Rightarrow> int \<times> int \<times> int \<Rightarrow> int \<Rightarrow> (int \<times> int) option" where
  "solve_chs start_chs a end_chs A =
     (case (start_chs, end_chs) of ((c, h, s), (C, H, S)) \<Rightarrow>
        let a' = a - s; A' = A - S;
            dont_overflow = push_bit (8 * 8 - 9) 1 - 1;
            denum = c * H - C * h;
            cyl_size = (a' * H - A' * h) sdiv denum;
            head_size = (if h > 0 then (a' - c * cyl_size) sdiv h else (A' - C * cyl_size) sdiv H)
        in if h < 0 \<or> H < 0 \<or> h > 254 \<or> H > 254 then None
           else if c > C then None
           else if A > (C + 1) * 255 * 63 then None
           else if C > MAX_CHS_CYLINDER then None
           else if C = 0 then None
           else if a' > dont_overflow \<or> A' > dont_overflow then None
           else if denum = 0 then None
           else if cyl_size * denum \<noteq> a' * H - A' * h then None
           else if \<not> cyl_size > 0 then None
           else if \<not> cyl_size \<le> 255 * 63 then None
           else if \<not> head_size > 0 then None
           else if \<not> head_size \<le> 63 then None
           else Some (cyl_size, head_size))"

definition probe_partition_for_geom ::
    "dev_table \<Rightarrow> DosDisk \<Rightarrow> DosPart \<Rightarrow> PedCHSGeometry option" where
  "probe_partition_for_geom devs d part =
     (case dos_orig (dos_data part) of
        None \<Rightarrow> None
      | Some orig \<Rightarrow>
          let start_chs = chs_start (orig_raw_part orig); end_chs = chs_end (orig_raw_part orig);
              c = chs_get_cylinder start_chs; h = chs_get_head start_chs; s = chs_get_sector start_chs;
              a = g_start (orig_geom orig);
              C = chs_get_cylinder end_chs; H = chs_get_head end_chs; S = chs_get_sector end_chs;
              A = g_end (orig_geom orig)
          in case solve_chs (c, h, s) a (C, H, S) A of
               None \<Rightarrow> None
             | Some (cyl_size, head_size) \<Rightarrow>
                 let cyls = dev_length (devs (d_dev d)) sdiv cyl_size;
                     hds = cyl_size sdiv head_size;
                     secs = head_size;
                     C = (if ((C + 1) * hds + H) * secs + S = A then C + 1 else C)
                 in if \<not> hds > 0 then None
                    else if \<not> hds < 256 then None
                    else if \<not> secs > 0 then None
                    else if \<not> secs \<le> 63 then None
                    else if \<not> (c * hds + h) * secs + s = a then None
                    else if \<not> (C * hds + H) * secs + S = A then None
                    else Some \<lparr>cylinders = cyls, heads = hds, sectors = secs\<rparr>)"

text \<open>
  \<open>partition_probe_bios_geometry\<close> for a logical partition continues with the extended one, whose
  type does not have the bit \<open>PED_PARTITION_LOGICAL\<close>: the recursion is one level deep.
\<close>

definition own_bios_geometry ::
    "dev_table \<Rightarrow> first_sector \<Rightarrow> DosDisk \<Rightarrow> DosPart \<Rightarrow> PedCHSGeometry option" where
  "own_bios_geometry devs first_sector d part =
     (if ped_partition_is_active part then
        case probe_partition_for_geom devs d part of
          Some bios \<Rightarrow> Some bios
        | None \<Rightarrow> if has_bit (p_type part) PED_PARTITION_EXTENDED
                  then probe_filesystem_for_geom devs first_sector d part else None
      else None)"

definition partition_probe_bios_geometry ::
    "dev_table \<Rightarrow> first_sector \<Rightarrow> DosDisk \<Rightarrow> addr \<Rightarrow> PedCHSGeometry" where
  "partition_probe_bios_geometry devs first_sector d part =
     (case own_bios_geometry devs first_sector d (node d part) of
        Some bios \<Rightarrow> bios
      | None \<Rightarrow>
          if has_bit (type_of d part) PED_PARTITION_LOGICAL then
            (case own_bios_geometry devs first_sector d (node d (the (ped_disk_extended_partition d))) of
               Some bios \<Rightarrow> bios
             | None \<Rightarrow> bios_geom (devs (d_dev d)))
          else bios_geom (devs (d_dev d)))"

text \<open>
  The three passes of \<open>disk_probe_bios_geometry\<close> over the partitions; without an answer the
  argument is left as it is.
\<close>

fun first_found :: "('a \<Rightarrow> 'b option) \<Rightarrow> 'a list \<Rightarrow> 'b option" where
  "first_found f [] = None"
| "first_found f (x # xs) = (case f x of None \<Rightarrow> first_found f xs | Some y \<Rightarrow> Some y)"

definition disk_probe_bios_geometry ::
    "dev_table \<Rightarrow> first_sector \<Rightarrow> (DosPart \<Rightarrow> int \<Rightarrow> bool) \<Rightarrow> DosDisk \<Rightarrow> PedCHSGeometry \<Rightarrow> PedCHSGeometry" where
  "disk_probe_bios_geometry devs first_sector get_flag d bios =
     (let parts = filter ped_partition_is_active (map (node d) (disk_walk d));
          fs = probe_filesystem_for_geom devs first_sector d;
          tab = probe_partition_for_geom devs d
      in case first_found (\<lambda>part. if get_flag part 1 then
                  (case fs part of Some b \<Rightarrow> Some b | None \<Rightarrow> tab part) else None) parts of
           Some b \<Rightarrow> b
         | None \<Rightarrow> (case first_found tab parts of
             Some b \<Rightarrow> b
           | None \<Rightarrow> (case first_found fs parts of Some b \<Rightarrow> b | None \<Rightarrow> bios)))"

section \<open>The packed form\<close>

definition pack_chs :: "int \<Rightarrow> int \<Rightarrow> int \<Rightarrow> RawCHS" where
  "pack_chs c h s = \<lparr>chs_head = word_of_int h, chs_sector = word_of_int (s + 1 + push_bit 6 (drop_bit 8 c)),
     chs_cylinder = word_of_int (c smod 0x100)\<rparr>"

lemma smod_nonneg_mod: "0 \<le> (a::int) \<Longrightarrow> 0 \<le> b \<Longrightarrow> a smod b = a mod b"
  by (cases "a = 0"; cases "b = 0") (simp_all add: signed_modulo_int_def)

lemma uint_byte_of_int: "0 \<le> x \<Longrightarrow> x < 256 \<Longrightarrow> uint (word_of_int x :: byte) = x"
  by (simp add: uint_word_of_int)

lemma pack_chs_get:
  assumes "0 \<le> c" "c \<le> 1023" "0 \<le> h" "h \<le> 255" "0 \<le> s" "s \<le> 62"
  shows "chs_get_cylinder (pack_chs c h s) = c" "chs_get_head (pack_chs c h s) = h"
    "chs_get_sector (pack_chs c h s) = s"
proof -
  define q where "q = c div 256"
  have q: "0 \<le> q" "q \<le> 3" "c = 256 * q + c mod 256" using assms by (auto simp: q_def)
  have "s + 1 + push_bit 6 (drop_bit 8 c) = s + 1 + 64 * q" by (simp add: push_bit_eq_mult drop_bit_eq_div q_def)
  then have sb: "uint (chs_sector (pack_chs c h s)) = s + 1 + 64 * q"
    using assms q by (simp only: pack_chs_def RawCHS.simps) (subst uint_byte_of_int, auto)
  have cb: "uint (chs_cylinder (pack_chs c h s)) = c mod 256"
    using assms by (simp add: pack_chs_def smod_nonneg_mod uint_byte_of_int)
  have "drop_bit 6 (s + 1 + 64 * q) = q" using assms by (simp add: drop_bit_eq_div)
  then show "chs_get_cylinder (pack_chs c h s) = c"
    using q(3) by (simp add: chs_get_cylinder_def sb cb push_bit_eq_mult)
  show "chs_get_head (pack_chs c h s) = h" using assms by (simp add: chs_get_head_def pack_chs_def uint_byte_of_int)
  have "(s + 1 + 64 * q) AND 0x3f = take_bit 6 (s + 1 + 64 * q)" by (simp add: take_bit_eq_mask mask_eq_exp_minus_1)
  also have "\<dots> = s + 1" using assms by (simp add: take_bit_eq_mod)
  finally show "chs_get_sector (pack_chs c h s) = s" by (simp add: chs_get_sector_def sb)
qed

text \<open>A geometry that fits the packed form.\<close>

definition chs_geometry :: "PedCHSGeometry \<Rightarrow> bool" where
  "chs_geometry bios \<longleftrightarrow> 1 \<le> heads bios \<and> heads bios \<le> 255 \<and> 1 \<le> sectors bios \<and> sectors bios \<le> 63"

lemma sector_to_chs_pack:
  assumes g: "chs_geometry bios" and s: "0 \<le> x"
  defines "c \<equiv> x div (heads bios * sectors bios)"
  shows "sector_to_chs dev (Some bios) x =
    (if c > MAX_CHS_CYLINDER then pack_chs 1023 (heads bios - 1) (sectors bios - 1)
     else pack_chs c (x div sectors bios mod heads bios) (x mod sectors bios))"
proof -
  have "0 \<le> heads bios" "0 \<le> sectors bios" "0 \<le> heads bios * sectors bios" "0 \<le> x div sectors bios"
    using g s by (auto simp: chs_geometry_def pos_imp_zdiv_nonneg_iff)
  then show ?thesis using s
    by (simp add: sector_to_chs_def pack_chs_def sdiv_nonneg_eq smod_nonneg_mod c_def Let_def)
qed

lemma chs_split:
  assumes "chs_geometry bios" "0 \<le> x"
  defines "c \<equiv> x div (heads bios * sectors bios)" and "h \<equiv> x div sectors bios mod heads bios" and "s \<equiv> x mod sectors bios"
  shows "(c * heads bios + h) * sectors bios + s = x" "0 \<le> c" "0 \<le> h" "h < heads bios" "0 \<le> s" "s < sectors bios"
proof -
  have p: "0 < heads bios" "0 < sectors bios" using assms(1) by (auto simp: chs_geometry_def)
  have "x div (heads bios * sectors bios) = x div sectors bios div heads bios"
    using p by (metis mult.commute zdiv_zmult2_eq order.strict_implies_order)
  then have "c * heads bios + h = x div sectors bios" by (simp add: c_def h_def)
  then show "(c * heads bios + h) * sectors bios + s = x" by (simp add: s_def)
  show "0 \<le> c" using p assms(2) by (simp add: c_def pos_imp_zdiv_nonneg_iff)
  show "0 \<le> h" "h < heads bios" "0 \<le> s" "s < sectors bios" using p by (simp_all add: h_def s_def)
qed

lemma le_div_iff: "0 < k \<Longrightarrow> (n::int) \<le> x div k \<longleftrightarrow> n * k \<le> x"
  using pos_imp_zdiv_nonneg_iff[of k "x - n * k"] div_mult_self1[of k x "- n"] by (auto simp: algebra_simps)

lemma cylinder_in_range:
  assumes "chs_geometry bios" "0 \<le> x"
  shows "x div (heads bios * sectors bios) > MAX_CHS_CYLINDER \<longleftrightarrow> 1022 * (heads bios * sectors bios) \<le> x"
  using le_div_iff[of "heads bios * sectors bios" 1022 x] assms(1)
  by (auto simp: chs_geometry_def MAX_CHS_CYLINDER_def)

lemma sector_to_chs_get:
  fixes dev :: PedDevice
  assumes g: "chs_geometry bios" and x: "0 \<le> x" "x < 1022 * (heads bios * sectors bios)"
  defines "r \<equiv> sector_to_chs dev (Some bios) x"
  shows "chs_get_cylinder r = x div (heads bios * sectors bios)"
    "chs_get_head r = x div sectors bios mod heads bios" "chs_get_sector r = x mod sectors bios"
proof -
  have c: "x div (heads bios * sectors bios) \<le> 1021"
    using cylinder_in_range[OF g x(1)] x(2) by (simp add: MAX_CHS_CYLINDER_def)
  note s = chs_split[OF g x(1)]
  have b: "x div sectors bios mod heads bios \<le> 255" "x mod sectors bios \<le> 62"
    using s g by (auto simp: chs_geometry_def)
  have "r = pack_chs (x div (heads bios * sectors bios)) (x div sectors bios mod heads bios) (x mod sectors bios)"
    unfolding r_def sector_to_chs_pack[OF g x(1)] using c by (simp add: MAX_CHS_CYLINDER_def)
  then show "chs_get_cylinder r = x div (heads bios * sectors bios)"
    "chs_get_head r = x div sectors bios mod heads bios" "chs_get_sector r = x mod sectors bios"
    using pack_chs_get[OF s(2) _ s(3) b(1) s(5) b(2)] c by simp_all
qed

section \<open>Properties\<close>

definition demo_bios :: PedCHSGeometry where
  "demo_bios = \<lparr>cylinders = 100, heads = 16, sectors = 63\<rparr>"

lemma demo_bios_ok: "chs_geometry demo_bios" "heads demo_bios = 16" "sectors demo_bios = 63"
  by (simp_all add: demo_bios_def chs_geometry_def)

text \<open>
  C13. A sector converted to cylinder, head and sector and back is the same sector, as long as its
  cylinder is at most 1021. Beyond that the address is the mark that only the linear address
  counts, which converts to 0.
\<close>
theorem chs_sector_roundtrip:
  assumes g: "chs_geometry bios" and x: "0 \<le> x"
  shows "chs_to_sector bios (sector_to_chs dev (Some bios) x) =
    (if x < 1022 * (heads bios * sectors bios) then x else 0)"
proof (cases "x < 1022 * (heads bios * sectors bios)")
  case True
  then have "\<not> MAX_CHS_CYLINDER < x div (heads bios * sectors bios)" using cylinder_in_range[OF g x] by simp
  then show ?thesis
    using True chs_split[OF g x] by (simp add: chs_to_sector_def sector_to_chs_get[OF g x True])
next
  case False
  then have "sector_to_chs dev (Some bios) x = pack_chs 1023 (heads bios - 1) (sectors bios - 1)"
    using cylinder_in_range[OF g x] by (simp add: sector_to_chs_pack[OF g x])
  then show ?thesis
    using False g pack_chs_get(1)[of 1023 "heads bios - 1" "sectors bios - 1"]
    by (simp add: chs_to_sector_def chs_geometry_def MAX_CHS_CYLINDER_def)
qed

theorem chs_sector_roundtrip_witness:
  "chs_to_sector demo_bios (sector_to_chs undefined (Some demo_bios) 100000) = 100000 \<and>
   chs_to_sector demo_bios (sector_to_chs undefined (Some demo_bios) 2000000) = 0"
  using chs_sector_roundtrip[OF demo_bios_ok(1), of 100000 undefined]
    chs_sector_roundtrip[OF demo_bios_ok(1), of 2000000 undefined] by (simp add: demo_bios_ok)

lemma solve_chs_unique:
  assumes eq: "(c * hds + h) * secs + s = a" "(C * hds + H) * secs + S = A"
    and b: "1 \<le> hds" "hds \<le> 255" "1 \<le> secs" "secs \<le> 63" "0 \<le> c" "c \<le> C" "C \<le> 1021" "0 \<le> h" "h < hds" "0 \<le> H" "H < hds"
      "0 \<le> s" "0 \<le> S" "S < secs"
    and det: "c * H \<noteq> C * h"
  shows "solve_chs (c, h, s) a (C, H, S) A = Some (hds * secs, secs)"
proof -
  let ?cyl = "hds * secs"
  have e: "a - s = c * ?cyl + h * secs" "A - S = C * ?cyl + H * secs"
    using eq by (simp_all add: algebra_simps)
  have C: "C \<noteq> 0" using det b(5,6) by auto
  have hs: "0 < h \<or> 0 < H" using det b(8,10) by (cases "h = 0"; cases "H = 0") auto
  have num: "(a - s) * H - (A - S) * h = ?cyl * (c * H - C * h)"
    unfolding e by (simp add: algebra_simps)
  have cyl: "((a - s) * H - (A - S) * h) sdiv (c * H - C * h) = ?cyl"
    unfolding num using det sdiv_mult_exact[of "c * H - C * h" "?cyl * (c * H - C * h)"] by simp
  have cs: "1 \<le> ?cyl" "?cyl \<le> 255 * 63"
    using b mult_mono[of 1 hds 1 secs] mult_mono[of hds 255 secs 63] by simp_all
  have div: "k * secs sdiv k = secs" if "0 < k" for k
    using that sdiv_mult_exact[of k "k * secs"] by simp
  have head: "(if h > 0 then (a - s - c * ?cyl) sdiv h else (A - S - C * ?cyl) sdiv H) = secs"
    using hs div[of h] div[of H] by (auto simp: e)
  have "H + 1 \<le> hds" using b by simp
  then have "(H + 1) * secs \<le> ?cyl" using b by (intro mult_right_mono) auto
  then have "A \<le> C * ?cyl + ?cyl" using eq(2) b by (simp add: algebra_simps)
  also have "\<dots> = (C + 1) * ?cyl" by (simp add: algebra_simps)
  also have "\<dots> \<le> (C + 1) * (255 * 63)" using cs b by (intro mult_left_mono) auto
  finally have A: "A \<le> (C + 1) * 255 * 63" by simp
  have "(h + 1) * secs \<le> ?cyl" using b by (intro mult_right_mono) auto
  then have "a - s \<le> (c + 1) * ?cyl" "A - S \<le> (C + 1) * ?cyl"
    using e \<open>(H + 1) * secs \<le> ?cyl\<close> b by (simp_all add: algebra_simps)
  moreover have "(c + 1) * ?cyl \<le> 1022 * (255 * 63)" "(C + 1) * ?cyl \<le> 1022 * (255 * 63)"
    using cs b mult_mono[of "c + 1" 1022 ?cyl "255 * 63"] mult_mono[of "C + 1" 1022 ?cyl "255 * 63"] by simp_all
  ultimately have small: "a - s \<le> push_bit (8 * 8 - 9) 1 - 1" "A - S \<le> push_bit (8 * 8 - 9) 1 - 1"
    by (simp_all add: push_bit_eq_mult)
  show ?thesis
    unfolding solve_chs_def prod.case Let_def cyl head
    using num C A small cs b det by (simp add: MAX_CHS_CYLINDER_def)
qed

text \<open>
  The geometry a partition table was written with is found again: for a partition whose
  entry holds its first and last sector packed under a geometry, below cylinder 1022,
  \<open>probe_partition_for_geom\<close> returns the heads and sectors of that geometry, and as many
  cylinders as the device has, unless the two addresses are proportional.
\<close>
theorem geometry_is_inferred:
  assumes orig: "dos_orig (dos_data part) = Some orig" and g: "chs_geometry bios"
    and start: "chs_start (orig_raw_part orig) = sector_to_chs dev (Some bios) (g_start (orig_geom orig))"
    and endd: "chs_end (orig_raw_part orig) = sector_to_chs dev (Some bios) (g_end (orig_geom orig))"
    and b: "0 \<le> g_start (orig_geom orig)" "g_start (orig_geom orig) \<le> g_end (orig_geom orig)"
      "g_end (orig_geom orig) < 1022 * (heads bios * sectors bios)"
    and det: "chs_get_cylinder (chs_start (orig_raw_part orig)) * chs_get_head (chs_end (orig_raw_part orig)) \<noteq>
      chs_get_cylinder (chs_end (orig_raw_part orig)) * chs_get_head (chs_start (orig_raw_part orig))"
  shows "probe_partition_for_geom devs d part =
    Some (bios\<lparr>cylinders := dev_length (devs (d_dev d)) sdiv (heads bios * sectors bios)\<rparr>)"
proof -
  let ?a = "g_start (orig_geom orig)" and ?A = "g_end (orig_geom orig)" and ?H = "heads bios" and ?S = "sectors bios"
  have x: "?a < 1022 * (?H * ?S)" "0 \<le> ?A" using b by simp_all
  note sa = chs_split[OF g b(1)] and sA = chs_split[OF g x(2)]
  note ga = sector_to_chs_get[OF g b(1) x(1), of dev, folded start]
    and gA = sector_to_chs_get[OF g x(2) b(3), of dev, folded endd]
  have k: "0 < ?H * ?S" using g by (simp add: chs_geometry_def)
  have C: "?a div (?H * ?S) \<le> ?A div (?H * ?S)" "?A div (?H * ?S) \<le> 1021"
    using zdiv_mono1[OF b(2) k] cylinder_in_range[OF g x(2)] b(3) by (auto simp: MAX_CHS_CYLINDER_def)
  note s = solve_chs_unique[OF sa(1) sA(1) _ _ _ _ sa(2) C sa(3,4) sA(3,4) sa(5) sA(5,6) det[unfolded ga gA]]
  have gg: "1 \<le> ?H" "?H \<le> 255" "1 \<le> ?S" "?S \<le> 63" using g by (simp_all add: chs_geometry_def)
  have div: "?H * ?S sdiv ?S = ?H" using gg sdiv_mult_exact[of ?S "?H * ?S"] by simp
  have next_cyl: "((?A div (?H * ?S) + 1) * ?H + ?A div ?S mod ?H) * ?S + ?A mod ?S = ?A + ?H * ?S"
    using sA(1) by (simp add: algebra_simps)
  show ?thesis
    unfolding probe_partition_for_geom_def orig Let_def option.case ga gA s[OF gg] prod.case div next_cyl
    using k gg sa(1) sA(1) by (simp add: algebra_simps)
qed

text \<open>A partition whose entry was written under \<open>demo_bios\<close>, its end address being that of sector \<open>e\<close>.\<close>

definition demo_part :: "PedSector \<Rightarrow> PedSector \<Rightarrow> PedSector \<Rightarrow> DosPart" where
  "demo_part start endd e = (let geom = \<lparr>g_dev = 0, g_start = start, g_length = endd - start + 1, g_end = endd\<rparr>;
       raw = \<lparr>boot_ind = 0, chs_start = sector_to_chs undefined (Some demo_bios) start, raw_type = 0x83,
         chs_end = sector_to_chs undefined (Some demo_bios) e, raw_start = word_of_int start,
         raw_length = word_of_int (endd - start + 1)\<rparr>
     in \<lparr>p_geom = geom, p_num = 1, p_type = 0, p_fs = None, p_list = [],
         p_specific = Some \<lparr>dos_system = 0x83, dos_boot = False,
           dos_orig = Some \<lparr>orig_geom = geom, orig_raw_part = raw, orig_lba_offset = 0\<rparr>\<rparr>\<rparr>)"

lemma demo_get:
  fixes dev :: PedDevice
  assumes "0 \<le> x" "x < 1030176"
  shows "chs_get_cylinder (sector_to_chs dev (Some demo_bios) x) = x div 1008"
    "chs_get_head (sector_to_chs dev (Some demo_bios) x) = x div 63 mod 16"
    "chs_get_sector (sector_to_chs dev (Some demo_bios) x) = x mod 63"
  using sector_to_chs_get[OF demo_bios_ok(1), of x dev] assms by (simp_all add: demo_bios_ok)

theorem geometry_is_inferred_witness:
  "probe_partition_for_geom (\<lambda>_. undefined\<lparr>dev_length := 100800\<rparr>) undefined (demo_part 2048 50000 50000) = Some demo_bios"
  using geometry_is_inferred[OF _ demo_bios_ok(1), of "demo_part 2048 50000 50000" _ undefined "\<lambda>_. undefined\<lparr>dev_length := 100800\<rparr>" undefined]
  by (simp add: Let_def demo_part_def dos_data_def demo_get demo_bios_ok sdiv_nonneg_eq) (simp add: demo_bios_def)

text \<open>
  C14. A geometry that \<open>probe_partition_for_geom\<close> returns fits the packed form and explains the
  entry: its start address stands for the first sector of the partition (or for no sector), its
  end address for the last sector, or for the sector one cylinder before it, the error of some
  partitioning programs that the code tolerates.
\<close>
theorem inferred_geometry_explains_table:
  assumes orig: "dos_orig (dos_data part) = Some orig"
    and found: "probe_partition_for_geom devs d part = Some bios"
  shows "chs_geometry bios \<and>
    legacy_start bios (orig_raw_part orig) \<in> {0, g_start (orig_geom orig)} \<and>
    legacy_end bios (orig_raw_part orig) \<in>
      {0, g_end (orig_geom orig), g_end (orig_geom orig) - heads bios * sectors bios}"
  using found orig
  by (auto simp: probe_partition_for_geom_def Let_def legacy_start_def legacy_end_def chs_to_sector_def
      chs_geometry_def algebra_simps split: if_splits option.splits)

theorem inferred_geometry_explains_table_witness:
  "chs_geometry demo_bios \<and> chs_to_sector demo_bios (sector_to_chs undefined (Some demo_bios) 63) \<in> {0, 63} \<and>
   chs_to_sector demo_bios (sector_to_chs undefined (Some demo_bios) 48425) \<in> {0, 49433, 49433 - 16 * 63}"
proof -
  have "probe_partition_for_geom (\<lambda>_. undefined\<lparr>dev_length := 102900\<rparr>) undefined (demo_part 63 49433 48425) = Some demo_bios"
    by (simp add: Let_def probe_partition_for_geom_def demo_part_def dos_data_def demo_get solve_chs_def signed_divide_int_def
        push_bit_eq_mult MAX_CHS_CYLINDER_def) (simp add: demo_bios_def)
  from inferred_geometry_explains_table[OF _ this] show ?thesis
    by (simp add: Let_def demo_part_def dos_data_def legacy_start_def legacy_end_def demo_bios_ok)
qed

end
