(* ===== verification/Gpt_Guid.thy ===== *)
theory Gpt_Guid
  imports Disk Bytes
begin

text \<open>
  GUIDs, partition flags and per-partition data of the label type \<open>gpt\<close>
  (\<open>libparted/labels/gpt.c\<close>): the GUID constants and the flag table, the flags of a partition,
  its type and name, and their byte order.

  \<open>part->disk_specific\<close> is the option \<open>p_specific\<close>: \<open>gpt_partition_new\<close> allocates it for
  partitions of type 0 only. The functions that use it are called for those; for the others,
  where the code reads an uninitialised pointer, the definitions leave the data alone.
\<close>

section \<open>GUIDs\<close>

record efi_guid_t =
  time_low :: "32 word"
  time_mid :: "16 word"
  time_hi_and_version :: "16 word"
  clock_seq_hi_and_reserved :: "8 word"
  clock_seq_low :: "8 word"
  guid_node :: "8 word list"

definition guid :: "32 word \<Rightarrow> 16 word \<Rightarrow> 16 word \<Rightarrow> 8 word \<Rightarrow> 8 word \<Rightarrow> 8 word list \<Rightarrow> efi_guid_t" where
  "guid a b c d e n = \<lparr>time_low = a, time_mid = b, time_hi_and_version = c,
     clock_seq_hi_and_reserved = d, clock_seq_low = e, guid_node = n\<rparr>"

text \<open>The 16 bytes of a GUID in memory, and a GUID of 16 bytes.\<close>

definition guid_bytes :: "efi_guid_t \<Rightarrow> byte list" where
  "guid_bytes g = le_bytes 4 (time_low g) @ le_bytes 2 (time_mid g) @ le_bytes 2 (time_hi_and_version g)
     @ [clock_seq_hi_and_reserved g, clock_seq_low g] @ guid_node g"

definition guid_of_bytes :: "byte list \<Rightarrow> efi_guid_t" where
  "guid_of_bytes bs = guid (of_le (take 4 bs)) (of_le (take 2 (drop 4 bs))) (of_le (take 2 (drop 6 bs)))
     (bs ! 8) (bs ! 9) (drop 10 bs)"

definition guid_wf :: "efi_guid_t \<Rightarrow> bool" where
  "guid_wf g \<longleftrightarrow> length (guid_node g) = 6"

text \<open>\<open>guid_cmp (left, right) == 0\<close>: the structure has no padding.\<close>

definition guid_eq :: "efi_guid_t \<Rightarrow> efi_guid_t \<Rightarrow> bool" where
  "guid_eq left right \<longleftrightarrow> left = right"

definition swap_uuid_and_efi_guid :: "efi_guid_t \<Rightarrow> efi_guid_t" where
  "swap_uuid_and_efi_guid g = g\<lparr>time_low := PED_SWAP32 (time_low g), time_mid := PED_SWAP16 (time_mid g),
     time_hi_and_version := PED_SWAP16 (time_hi_and_version g)\<rparr>"

section \<open>GUID constants\<close>

definition UNUSED_ENTRY_GUID :: efi_guid_t where
  "UNUSED_ENTRY_GUID = guid 0x00000000 0x0000 0x0000 0x00 0x00 [0x00, 0x00, 0x00, 0x00, 0x00, 0x00]"

definition PARTITION_SYSTEM_GUID :: efi_guid_t where
  "PARTITION_SYSTEM_GUID = guid 0xC12A7328 0xF81F 0x11d2 0xBA 0x4B [0x00, 0xA0, 0xC9, 0x3E, 0xC9, 0x3B]"

definition PARTITION_BIOS_GRUB_GUID :: efi_guid_t where
  "PARTITION_BIOS_GRUB_GUID = guid 0x21686148 0x6449 0x6E6f 0x74 0x4E [0x65, 0x65, 0x64, 0x45, 0x46, 0x49]"

definition PARTITION_MSFT_RESERVED_GUID :: efi_guid_t where
  "PARTITION_MSFT_RESERVED_GUID = guid 0xE3C9E316 0x0B5C 0x4DB8 0x81 0x7D [0xF9, 0x2D, 0xF0, 0x02, 0x15, 0xAE]"

definition PARTITION_MSFT_RECOVERY :: efi_guid_t where
  "PARTITION_MSFT_RECOVERY = guid 0xDE94BBA4 0x06D1 0x4D40 0xA1 0x6A [0xBF, 0xD5, 0x01, 0x79, 0xD6, 0xAC]"

definition PARTITION_BASIC_DATA_GUID :: efi_guid_t where
  "PARTITION_BASIC_DATA_GUID = guid 0xEBD0A0A2 0xB9E5 0x4433 0x87 0xC0 [0x68, 0xB6, 0xB7, 0x26, 0x99, 0xC7]"

definition PARTITION_RAID_GUID :: efi_guid_t where
  "PARTITION_RAID_GUID = guid 0xa19d880f 0x05fc 0x4d3b 0xa0 0x06 [0x74, 0x3f, 0x0f, 0x84, 0x91, 0x1e]"

definition PARTITION_SWAP_GUID :: efi_guid_t where
  "PARTITION_SWAP_GUID = guid 0x0657fd6d 0xa4ab 0x43c4 0x84 0xe5 [0x09, 0x33, 0xc8, 0x4b, 0x4f, 0x4f]"

definition PARTITION_LINUX_DATA_GUID :: efi_guid_t where
  "PARTITION_LINUX_DATA_GUID = guid 0x0FC63DAF 0x8483 0x4772 0x8E 0x79 [0x3D, 0x69, 0xD8, 0x47, 0x7D, 0xE4]"

definition PARTITION_LVM_GUID :: efi_guid_t where
  "PARTITION_LVM_GUID = guid 0xe6d6d379 0xf507 0x44c2 0xa2 0x3c [0x23, 0x8f, 0x2a, 0x3d, 0xf9, 0x28]"

definition PARTITION_RESERVED_GUID :: efi_guid_t where
  "PARTITION_RESERVED_GUID = guid 0x8da63339 0x0007 0x60c0 0xc4 0x36 [0x08, 0x3a, 0xc8, 0x23, 0x09, 0x08]"

definition PARTITION_HPSERVICE_GUID :: efi_guid_t where
  "PARTITION_HPSERVICE_GUID = guid 0xe2a1e728 0x32e3 0x11d6 0xa6 0x82 [0x7b, 0x03, 0xa0, 0x00, 0x00, 0x00]"

definition PARTITION_APPLE_HFS_GUID :: efi_guid_t where
  "PARTITION_APPLE_HFS_GUID = guid 0x48465300 0x0000 0x11AA 0xaa 0x11 [0x00, 0x30, 0x65, 0x43, 0xEC, 0xAC]"

definition PARTITION_APPLE_TV_RECOVERY_GUID :: efi_guid_t where
  "PARTITION_APPLE_TV_RECOVERY_GUID = guid 0x5265636F 0x7665 0x11AA 0xaa 0x11 [0x00, 0x30, 0x65, 0x43, 0xEC, 0xAC]"

definition PARTITION_PREP_GUID :: efi_guid_t where
  "PARTITION_PREP_GUID = guid 0x9e1a2d38 0xc612 0x4316 0xaa 0x26 [0x8b, 0x49, 0x52, 0x1e, 0x5a, 0x8b]"

definition PARTITION_IRST_GUID :: efi_guid_t where
  "PARTITION_IRST_GUID = guid 0xD3BFE2DE 0x3DAF 0x11DF 0xba 0x40 [0xE3, 0xA5, 0x56, 0xD8, 0x95, 0x93]"

definition PARTITION_CHROMEOS_KERNEL_GUID :: efi_guid_t where
  "PARTITION_CHROMEOS_KERNEL_GUID = guid 0xfe3a2a5d 0x4f32 0x41a7 0xb7 0x25 [0xac, 0xcc, 0x32, 0x85, 0xa3, 0x09]"

definition PARTITION_BLS_BOOT_GUID :: efi_guid_t where
  "PARTITION_BLS_BOOT_GUID = guid 0xbc13c2ff 0x59e6 0x4262 0xa3 0x52 [0xb2, 0x75, 0xfd, 0x6f, 0x71, 0x72]"

definition PARTITION_LINUX_HOME_GUID :: efi_guid_t where
  "PARTITION_LINUX_HOME_GUID = guid 0x933ac7e1 0x2eb4 0x4f13 0xb8 0x44 [0x0e, 0x14, 0xe2, 0xae, 0xf9, 0x15]"

section \<open>Flags\<close>

abbreviation PED_PARTITION_BOOT :: int where "PED_PARTITION_BOOT \<equiv> 1"
abbreviation PED_PARTITION_ROOT :: int where "PED_PARTITION_ROOT \<equiv> 2"
abbreviation PED_PARTITION_SWAP :: int where "PED_PARTITION_SWAP \<equiv> 3"
abbreviation PED_PARTITION_HIDDEN :: int where "PED_PARTITION_HIDDEN \<equiv> 4"
abbreviation PED_PARTITION_RAID :: int where "PED_PARTITION_RAID \<equiv> 5"
abbreviation PED_PARTITION_LVM :: int where "PED_PARTITION_LVM \<equiv> 6"
abbreviation PED_PARTITION_LBA :: int where "PED_PARTITION_LBA \<equiv> 7"
abbreviation PED_PARTITION_HPSERVICE :: int where "PED_PARTITION_HPSERVICE \<equiv> 8"
abbreviation PED_PARTITION_PREP :: int where "PED_PARTITION_PREP \<equiv> 10"
abbreviation PED_PARTITION_MSFT_RESERVED :: int where "PED_PARTITION_MSFT_RESERVED \<equiv> 11"
abbreviation PED_PARTITION_BIOS_GRUB :: int where "PED_PARTITION_BIOS_GRUB \<equiv> 12"
abbreviation PED_PARTITION_APPLE_TV_RECOVERY :: int where "PED_PARTITION_APPLE_TV_RECOVERY \<equiv> 13"
abbreviation PED_PARTITION_DIAG :: int where "PED_PARTITION_DIAG \<equiv> 14"
abbreviation PED_PARTITION_LEGACY_BOOT :: int where "PED_PARTITION_LEGACY_BOOT \<equiv> 15"
abbreviation PED_PARTITION_MSFT_DATA :: int where "PED_PARTITION_MSFT_DATA \<equiv> 16"
abbreviation PED_PARTITION_IRST :: int where "PED_PARTITION_IRST \<equiv> 17"
abbreviation PED_PARTITION_ESP :: int where "PED_PARTITION_ESP \<equiv> 18"
abbreviation PED_PARTITION_CHROMEOS_KERNEL :: int where "PED_PARTITION_CHROMEOS_KERNEL \<equiv> 19"
abbreviation PED_PARTITION_BLS_BOOT :: int where "PED_PARTITION_BLS_BOOT \<equiv> 20"
abbreviation PED_PARTITION_LINUX_HOME :: int where "PED_PARTITION_LINUX_HOME \<equiv> 21"
abbreviation PED_PARTITION_NO_AUTOMOUNT :: int where "PED_PARTITION_NO_AUTOMOUNT \<equiv> 22"

definition flag_uuid_mapping :: "(int \<times> efi_guid_t) list" where
  "flag_uuid_mapping =
    [(PED_PARTITION_APPLE_TV_RECOVERY, PARTITION_APPLE_TV_RECOVERY_GUID),
     (PED_PARTITION_BIOS_GRUB, PARTITION_BIOS_GRUB_GUID),
     (PED_PARTITION_BLS_BOOT, PARTITION_BLS_BOOT_GUID),
     (PED_PARTITION_BOOT, PARTITION_SYSTEM_GUID),
     (PED_PARTITION_CHROMEOS_KERNEL, PARTITION_CHROMEOS_KERNEL_GUID),
     (PED_PARTITION_DIAG, PARTITION_MSFT_RECOVERY),
     (PED_PARTITION_ESP, PARTITION_SYSTEM_GUID),
     (PED_PARTITION_HPSERVICE, PARTITION_HPSERVICE_GUID),
     (PED_PARTITION_IRST, PARTITION_IRST_GUID),
     (PED_PARTITION_LINUX_HOME, PARTITION_LINUX_HOME_GUID),
     (PED_PARTITION_LVM, PARTITION_LVM_GUID),
     (PED_PARTITION_MSFT_DATA, PARTITION_BASIC_DATA_GUID),
     (PED_PARTITION_MSFT_RESERVED, PARTITION_MSFT_RESERVED_GUID),
     (PED_PARTITION_PREP, PARTITION_PREP_GUID),
     (PED_PARTITION_RAID, PARTITION_RAID_GUID),
     (PED_PARTITION_SWAP, PARTITION_SWAP_GUID)]"

definition skip_set_system_guids :: "efi_guid_t list" where
  "skip_set_system_guids =
    [PARTITION_LVM_GUID, PARTITION_SWAP_GUID, PARTITION_RAID_GUID, PARTITION_PREP_GUID,
     PARTITION_SYSTEM_GUID, PARTITION_BIOS_GRUB_GUID, PARTITION_HPSERVICE_GUID,
     PARTITION_MSFT_RESERVED_GUID, PARTITION_BASIC_DATA_GUID, PARTITION_MSFT_RECOVERY,
     PARTITION_APPLE_TV_RECOVERY_GUID, PARTITION_IRST_GUID, PARTITION_CHROMEOS_KERNEL_GUID,
     PARTITION_BLS_BOOT_GUID]"

definition gpt_find_flag_uuid_mapping :: "int \<Rightarrow> (int \<times> efi_guid_t) option" where
  "gpt_find_flag_uuid_mapping flag = find (\<lambda>m. fst m = flag) flag_uuid_mapping"

section \<open>The data of a partition\<close>

record GuidPartitionEntryAttributes_t =
  RequiredToFunction :: bool
  NoBlockIOProtocol :: bool
  LegacyBIOSBootable :: bool
  AttrReserved :: "45 word"
  GuidSpecific :: "15 word"
  NoAutomount :: bool

record GPTPartitionData =
  gp_type :: efi_guid_t
  gp_uuid :: efi_guid_t
  gp_name :: "16 word list"
  translated_name :: "string option"
  attributes :: GuidPartitionEntryAttributes_t

type_synonym GptPart = "GPTPartitionData option PedPartition"

definition upd_data :: "(GPTPartitionData \<Rightarrow> GPTPartitionData) \<Rightarrow> GptPart \<Rightarrow> GptPart" where
  "upd_data f part = part\<lparr>p_specific := map_option f (p_specific part)\<rparr>"

definition is_skip_guid :: "efi_guid_t \<Rightarrow> bool" where
  "is_skip_guid g \<longleftrightarrow> (\<exists>s \<in> set skip_set_system_guids. guid_eq g s)"

text \<open>\<open>strstr (hay, needle) != NULL\<close>\<close>

fun strstr :: "string \<Rightarrow> string \<Rightarrow> bool" where
  "strstr [] needle = (needle = [])"
| "strstr (c # cs) needle = (take (length needle) (c # cs) = needle \<or> strstr cs needle)"

text \<open>The type a partition gets from its file system.\<close>

definition system_guid :: "string option \<Rightarrow> efi_guid_t" where
  "system_guid fs_type =
     (case fs_type of
        None \<Rightarrow> PARTITION_LINUX_DATA_GUID
      | Some name \<Rightarrow>
          if take 3 name = ''fat'' \<or> name = ''udf'' \<or> name = ''ntfs'' then PARTITION_BASIC_DATA_GUID
          else if take 3 name = ''hfs'' then PARTITION_APPLE_HFS_GUID
          else if strstr name ''swap'' then PARTITION_SWAP_GUID
          else PARTITION_LINUX_DATA_GUID)"

definition gpt_partition_set_system :: "GptPart \<Rightarrow> string option \<Rightarrow> GptPart result" where
  "gpt_partition_set_system part fs_type =
     Inr (upd_data (\<lambda>g. if is_skip_guid (gp_type g) then g else g\<lparr>gp_type := system_guid fs_type\<rparr>)
            (part\<lparr>p_fs := fs_type\<rparr>))"

definition gpt_partition_set_flag :: "GptPart \<Rightarrow> int \<Rightarrow> bool \<Rightarrow> GptPart result" where
  "gpt_partition_set_flag part flag state =
     (case gpt_find_flag_uuid_mapping flag of
        Some (_, type_uuid) \<Rightarrow>
          if state then Inr (upd_data (\<lambda>g. g\<lparr>gp_type := type_uuid\<rparr>) part)
          else (case p_specific part of
                  None \<Rightarrow> Inr part
                | Some g \<Rightarrow>
                    if guid_eq (gp_type g) type_uuid
                    then gpt_partition_set_system
                           (upd_data (\<lambda>g. g\<lparr>gp_type := PARTITION_LINUX_DATA_GUID\<rparr>) part) (p_fs part)
                    else Inr part)
      | None \<Rightarrow>
          if flag = PED_PARTITION_HIDDEN then
            Inr (upd_data (\<lambda>g. g\<lparr>attributes := (attributes g)\<lparr>RequiredToFunction := state\<rparr>\<rparr>) part)
          else if flag = PED_PARTITION_LEGACY_BOOT then
            Inr (upd_data (\<lambda>g. g\<lparr>attributes := (attributes g)\<lparr>LegacyBIOSBootable := state\<rparr>\<rparr>) part)
          else if flag = PED_PARTITION_NO_AUTOMOUNT then
            Inr (upd_data (\<lambda>g. g\<lparr>attributes := (attributes g)\<lparr>NoAutomount := state\<rparr>\<rparr>) part)
          else Inl None)"

definition gpt_partition_get_flag :: "GptPart \<Rightarrow> int \<Rightarrow> bool" where
  "gpt_partition_get_flag part flag =
     (case p_specific part of
        None \<Rightarrow> False
      | Some g \<Rightarrow>
          (case gpt_find_flag_uuid_mapping flag of
             Some (_, type_uuid) \<Rightarrow> guid_eq (gp_type g) type_uuid
           | None \<Rightarrow>
               if flag = PED_PARTITION_HIDDEN then RequiredToFunction (attributes g)
               else if flag = PED_PARTITION_LEGACY_BOOT then LegacyBIOSBootable (attributes g)
               else if flag = PED_PARTITION_NO_AUTOMOUNT then NoAutomount (attributes g)
               else False))"

definition gpt_partition_is_flag_available :: "GptPart \<Rightarrow> int \<Rightarrow> bool" where
  "gpt_partition_is_flag_available part flag \<longleftrightarrow>
     gpt_find_flag_uuid_mapping flag \<noteq> None \<or> flag = PED_PARTITION_HIDDEN
     \<or> flag = PED_PARTITION_LEGACY_BOOT \<or> flag = PED_PARTITION_NO_AUTOMOUNT"

section \<open>Names and unique identifiers\<close>

text \<open>
  \<open>strncpy (dst, src, n)\<close> on bytes without their terminating \<open>NUL\<close>: the first \<open>n\<close> bytes of
  the source, the rest filled with zeros.
\<close>

definition strncpy :: "byte list \<Rightarrow> nat \<Rightarrow> byte list" where
  "strncpy src n = take n (src @ replicate n 0)"

definition byte_of_char :: "char \<Rightarrow> byte" where
  "byte_of_char c = of_nat (of_char c)"

definition char_of_byte :: "byte \<Rightarrow> char" where
  "char_of_byte b = char_of (unat b)"

text \<open>The bytes of an array of \<open>efi_char16_t\<close>, and back.\<close>

definition chars16_bytes :: "16 word list \<Rightarrow> byte list" where
  "chars16_bytes ws = concat (map (le_bytes 2) ws)"

fun chars16_of_bytes :: "byte list \<Rightarrow> 16 word list" where
  "chars16_of_bytes (a # b # bs) = of_le [a, b] # chars16_of_bytes bs"
| "chars16_of_bytes _ = []"

text \<open>
  \<open>gpt_partition_set_name\<close>: the conversion to UCS-2 is commented out in the source, the bytes
  of the name are copied over the first 72 bytes of the array of 37 characters.
\<close>

definition gpt_partition_set_name :: "GptPart \<Rightarrow> string \<Rightarrow> GptPart" where
  "gpt_partition_set_name part name =
     upd_data (\<lambda>g. g\<lparr>translated_name := Some name,
        gp_name := chars16_of_bytes (strncpy (map byte_of_char name) 72) @ drop 36 (gp_name g)\<rparr>) part"

text \<open>\<open>gpt_partition_get_name\<close>: the name and the partition with the name cached.\<close>

definition until_nul :: "byte list \<Rightarrow> byte list" where
  "until_nul bs = takeWhile (\<lambda>b. b \<noteq> 0) bs"

definition gpt_partition_get_name :: "GptPart \<Rightarrow> string \<times> GptPart" where
  "gpt_partition_get_name part =
     (case p_specific part of
        None \<Rightarrow> ([], part)
      | Some g \<Rightarrow>
          (case translated_name g of
             Some name \<Rightarrow> (name, part)
           | None \<Rightarrow>
               let buffer = (strncpy (until_nul (chars16_bytes (gp_name g))) 200)[0 := 0];
                   name = map char_of_byte (until_nul buffer)
               in (name, upd_data (\<lambda>g. g\<lparr>translated_name := Some name\<rparr>) part)))"

definition gpt_partition_set_type_uuid :: "GptPart \<Rightarrow> byte list \<Rightarrow> GptPart" where
  "gpt_partition_set_type_uuid part uuid =
     upd_data (\<lambda>g. g\<lparr>gp_type := swap_uuid_and_efi_guid (guid_of_bytes uuid)\<rparr>) part"

definition gpt_partition_get_type_uuid :: "GptPart \<Rightarrow> byte list" where
  "gpt_partition_get_type_uuid part =
     (case p_specific part of None \<Rightarrow> []
      | Some g \<Rightarrow> guid_bytes (swap_uuid_and_efi_guid (gp_type g)))"

definition gpt_partition_get_uuid :: "GptPart \<Rightarrow> byte list" where
  "gpt_partition_get_uuid part =
     (case p_specific part of None \<Rightarrow> []
      | Some g \<Rightarrow> guid_bytes (swap_uuid_and_efi_guid (gp_uuid g)))"

section \<open>Lemmas\<close>

lemma length_guid_bytes [simp]: "guid_wf g \<Longrightarrow> length (guid_bytes g) = 16"
  by (simp add: guid_bytes_def guid_wf_def)

lemma guid_of_bytes_of_guid: "guid_of_bytes (guid_bytes g) = g"
  by (simp add: guid_of_bytes_def guid_bytes_def guid_def nth_append)

lemma guid_bytes_of_bytes:
  assumes "length bs = 16"
  shows "guid_bytes (guid_of_bytes bs) = bs" "guid_wf (guid_of_bytes bs)"
proof -
  have b: "le_bytes 4 (of_le (take 4 bs) :: 32 word) = take 4 bs"
    "le_bytes 2 (of_le (take 2 (drop 4 bs)) :: 16 word) = take 2 (drop 4 bs)"
    "le_bytes 2 (of_le (take 2 (drop 6 bs)) :: 16 word) = take 2 (drop 6 bs)"
    using assms by (simp_all add: le_bytes_of_le)
  have "[bs ! 8, bs ! 9] = take 2 (drop 8 bs)"
    using assms by (intro nth_equalityI) (auto simp: less_Suc_eq numeral_2_eq_2 nth_Cons')
  then have "guid_bytes (guid_of_bytes bs) =
      take 4 bs @ take 2 (drop 4 bs) @ take 2 (drop 6 bs) @ take 2 (drop 8 bs) @ drop 10 bs"
    unfolding guid_bytes_def guid_of_bytes_def by (simp add: guid_def b)
  also have "\<dots> = bs"
    using append_take_drop_id[of 4 bs] append_take_drop_id[of 2 "drop 4 bs"]
      append_take_drop_id[of 2 "drop 6 bs"] append_take_drop_id[of 2 "drop 8 bs"]
    by (simp add: drop_drop)
  finally show "guid_bytes (guid_of_bytes bs) = bs" .
  show "guid_wf (guid_of_bytes bs)"
    using assms by (simp add: guid_wf_def guid_of_bytes_def guid_def)
qed

lemma swap_uuid_involution [simp]: "swap_uuid_and_efi_guid (swap_uuid_and_efi_guid g) = g"
  by (simp add: swap_uuid_and_efi_guid_def)

lemma upd_data_simps [simp]:
  "p_specific (upd_data f part) = map_option f (p_specific part)" "p_fs (upd_data f part) = p_fs part"
  by (simp_all add: upd_data_def)

lemma flag_mapping_cases:
  "gpt_find_flag_uuid_mapping flag = Some (fl, u) \<Longrightarrow>
     fl = flag \<and> flag \<noteq> PED_PARTITION_HIDDEN \<and> flag \<noteq> PED_PARTITION_LEGACY_BOOT
     \<and> flag \<noteq> PED_PARTITION_NO_AUTOMOUNT \<and> (u = PARTITION_LINUX_HOME_GUID \<or> is_skip_guid u)
     \<and> u \<noteq> PARTITION_LINUX_DATA_GUID"
  unfolding gpt_find_flag_uuid_mapping_def flag_uuid_mapping_def
  by (auto split: if_splits simp: is_skip_guid_def skip_set_system_guids_def guid_eq_def) (code_simp)+

lemma linux_data_not_skip: "\<not> is_skip_guid PARTITION_LINUX_DATA_GUID"
  by code_simp

lemma until_nul_cleared [simp]: "until_nul (bs[0 := 0]) = []"
  by (cases bs) (simp_all add: until_nul_def)

section \<open>Properties\<close>

definition demo_attributes :: GuidPartitionEntryAttributes_t where
  "demo_attributes = \<lparr>RequiredToFunction = False, NoBlockIOProtocol = False, LegacyBIOSBootable = True,
     AttrReserved = 0, GuidSpecific = 0, NoAutomount = False\<rparr>"

definition demo_data :: GPTPartitionData where
  "demo_data = \<lparr>gp_type = PARTITION_BASIC_DATA_GUID, gp_uuid = PARTITION_LVM_GUID,
     gp_name = [0x61, 0x62] @ replicate 35 0, translated_name = None, attributes = demo_attributes\<rparr>"

definition demo_gpt_part :: GptPart where
  "demo_gpt_part = \<lparr>p_geom = \<lparr>g_dev = 0, g_start = 2048, g_length = 100, g_end = 2147\<rparr>, p_num = 1,
     p_type = PED_PARTITION_NORMAL, p_fs = Some ''ntfs'', p_list = [], p_specific = Some demo_data\<rparr>"

text \<open>
  C29. Flags of a GPT partition. A flag can be set exactly if it is available; setting it
  makes \<open>get_flag\<close> report it; clearing one of the three attribute flags makes it unset, and
  clearing a flag that is kept as the partition type returns the type to the default of the
  file system (so that the flag remains set exactly if that default is the flag's own type).
\<close>
theorem gpt_flags_correct:
  assumes "p_specific part = Some g"
  shows "(isl (gpt_partition_set_flag part flag state) \<longleftrightarrow> \<not> gpt_partition_is_flag_available part flag)
    \<and> (gpt_partition_set_flag part flag True = Inr q \<longrightarrow> gpt_partition_get_flag q flag)
    \<and> (gpt_partition_set_flag part flag False = Inr q \<longrightarrow>
         (gpt_partition_get_flag q flag \<longleftrightarrow>
            gpt_partition_get_flag part flag \<and>
            map_option snd (gpt_find_flag_uuid_mapping flag) = Some (system_guid (p_fs part))))"
proof (cases "gpt_find_flag_uuid_mapping flag")
  case None
  then show ?thesis
    using assms by (auto simp: gpt_partition_set_flag_def gpt_partition_get_flag_def
        gpt_partition_is_flag_available_def upd_data_def)
next
  case (Some m)
  obtain fl u where m: "m = (fl, u)" by (cases m)
  show ?thesis
    using assms Some m flag_mapping_cases[of flag fl u] linux_data_not_skip
    by (auto simp: gpt_partition_set_flag_def gpt_partition_get_flag_def gpt_partition_set_system_def
        gpt_partition_is_flag_available_def upd_data_def guid_eq_def)
qed

theorem gpt_flags_correct_witness:
  "gpt_partition_set_flag demo_gpt_part PED_PARTITION_MSFT_DATA False = Inr demo_gpt_part \<and>
   gpt_partition_get_flag demo_gpt_part PED_PARTITION_MSFT_DATA"
proof -
  have q: "gpt_partition_set_flag demo_gpt_part PED_PARTITION_MSFT_DATA False = Inr demo_gpt_part"
    and g: "gpt_partition_get_flag demo_gpt_part PED_PARTITION_MSFT_DATA"
    and m: "map_option snd (gpt_find_flag_uuid_mapping PED_PARTITION_MSFT_DATA) =
      Some (system_guid (p_fs demo_gpt_part))"
    by code_simp+
  have d: "p_specific demo_gpt_part = Some demo_data" by (simp add: demo_gpt_part_def)
  from gpt_flags_correct[OF d, where q = demo_gpt_part and flag = PED_PARTITION_MSFT_DATA] q g m
  show ?thesis by blast
qed

text \<open>
  Type UUIDs: \<open>gpt_partition_get_type_uuid\<close> returns the 16 bytes that
  \<open>gpt_partition_set_type_uuid\<close> was given, whatever they are, and the GUID kept in between has
  its first three fields in the opposite byte order.
\<close>
theorem type_uuid_roundtrip:
  assumes "p_specific part = Some g" and "length u = 16"
  shows "gpt_partition_get_type_uuid (gpt_partition_set_type_uuid part u) = u
    \<and> guid_bytes (gp_type (the (p_specific (gpt_partition_set_type_uuid part u)))) =
       rev (take 4 u) @ rev (take 2 (drop 4 u)) @ rev (take 2 (drop 6 u)) @ drop 8 u"
proof
  show "gpt_partition_get_type_uuid (gpt_partition_set_type_uuid part u) = u"
    using assms guid_bytes_of_bytes[OF assms(2)]
    by (simp add: gpt_partition_get_type_uuid_def gpt_partition_set_type_uuid_def)
  have "[u ! 8, u ! 9] @ drop 10 u = drop 8 u"
    using Cons_nth_drop_Suc[of 8 u] Cons_nth_drop_Suc[of 9 u] assms(2) by simp
  then show "guid_bytes (gp_type (the (p_specific (gpt_partition_set_type_uuid part u)))) =
       rev (take 4 u) @ rev (take 2 (drop 4 u)) @ rev (take 2 (drop 6 u)) @ drop 8 u"
    using assms
    by (simp add: gpt_partition_set_type_uuid_def swap_uuid_and_efi_guid_def guid_bytes_def
        guid_of_bytes_def guid_def swap32_bytes swap16_bytes le_bytes_of_le)
qed

theorem type_uuid_roundtrip_witness:
  "gpt_partition_get_type_uuid (gpt_partition_set_type_uuid demo_gpt_part (replicate 16 7)) = replicate 16 7"
  using type_uuid_roundtrip[of demo_gpt_part demo_data "replicate 16 7"] by (simp add: demo_gpt_part_def)

text \<open>
  Names read from the disk are lost: for every partition whose name has not been set in
  this run, \<open>gpt_partition_get_name\<close> returns the empty string, because it clears the first
  byte of the buffer after the copy instead of terminating it.
\<close>
theorem name_from_disk_is_empty:
  assumes "p_specific part = Some g" and "translated_name g = None"
  shows "fst (gpt_partition_get_name part) = []"
  using assms by (simp add: gpt_partition_get_name_def Let_def)

theorem name_from_disk_is_empty_witness:
  "take 2 (gp_name demo_data) = [0x61, 0x62] \<and> fst (gpt_partition_get_name demo_gpt_part) = []"
  using name_from_disk_is_empty[of demo_gpt_part demo_data] by (simp add: demo_gpt_part_def demo_data_def)

end
