(* ===== verification/Disk_Lists.thy ===== *)
theory Disk_Lists
  imports Disk
begin

text \<open>
  The structure of a partition table: the two address lists, what the raw list operations do
  to them, the sortedness that makes partitions disjoint, and the walk over all partitions.
\<close>

section \<open>Types of partitions\<close>

lemma has_bit_consts [simp]:
  "\<not> has_bit PED_PARTITION_EXTENDED PED_PARTITION_LOGICAL"
  "\<not> has_bit PED_PARTITION_FREESPACE PED_PARTITION_LOGICAL"
  "has_bit (PED_PARTITION_FREESPACE + PED_PARTITION_LOGICAL) PED_PARTITION_LOGICAL"
  "has_bit PED_PARTITION_FREESPACE PED_PARTITION_FREESPACE"
  "\<not> has_bit PED_PARTITION_METADATA PED_PARTITION_LOGICAL"
  "\<not> has_bit PED_PARTITION_METADATA PED_PARTITION_FREESPACE"
  "has_bit PED_PARTITION_METADATA PED_PARTITION_METADATA"
  "\<not> has_bit PED_PARTITION_EXTENDED PED_PARTITION_FREESPACE"
  "\<not> has_bit PED_PARTITION_EXTENDED PED_PARTITION_METADATA"
  "\<not> has_bit PED_PARTITION_FREESPACE PED_PARTITION_METADATA"
  by (simp_all add: has_bit_def)

lemma has_bit_Suc_0 [simp]:
  "\<not> has_bit 2 (Suc 0)" "\<not> has_bit 4 (Suc 0)" "\<not> has_bit 8 (Suc 0)" "has_bit 5 (Suc 0)"
  by (simp_all add: has_bit_def)

lemma has_bit_5 [simp]: "has_bit 5 1" "has_bit 5 4" "\<not> has_bit 5 8"
  by (simp_all add: has_bit_def)

section \<open>What a change of links keeps\<close>

text \<open>
  The contents of a node without its number and its list: what the list operations and the
  numbering never change.
\<close>

definition core :: "('x, 'y) PedDisk \<Rightarrow> addr \<Rightarrow> 'x PedPartition option" where
  "core d a = map_option (\<lambda>p. p\<lparr>p_list := [], p_num := 0\<rparr>) (d_heap d a)"

lemma core_eqD:
  assumes "core d' a = core d a"
  shows "geom_of d' a = geom_of d a" "type_of d' a = type_of d a"
    "p_fs (node d' a) = p_fs (node d a)" "p_specific (node d' a) = p_specific (node d a)"
    "d_heap d' a = None \<longleftrightarrow> d_heap d a = None"
    "ped_partition_is_active (node d' a) \<longleftrightarrow> ped_partition_is_active (node d a)"
proof -
  have "geom_of d' a = geom_of d a \<and> type_of d' a = type_of d a \<and>
    p_fs (node d' a) = p_fs (node d a) \<and> p_specific (node d' a) = p_specific (node d a) \<and>
    (d_heap d' a = None \<longleftrightarrow> d_heap d a = None)"
  proof (cases "d_heap d a")
    case None
    then have "d_heap d' a = None" using assms by (simp add: core_def)
    with None show ?thesis by (simp add: node_def)
  next
    case (Some p)
    then obtain q where q: "d_heap d' a = Some q" "q\<lparr>p_list := [], p_num := 0\<rparr> = p\<lparr>p_list := [], p_num := 0\<rparr>"
      using assms by (auto simp: core_def)
    then show ?thesis using Some by (cases p; cases q) (simp add: node_def)
  qed
  then show "geom_of d' a = geom_of d a" "type_of d' a = type_of d a"
    "p_fs (node d' a) = p_fs (node d a)" "p_specific (node d' a) = p_specific (node d a)"
    "d_heap d' a = None \<longleftrightarrow> d_heap d a = None"
    "ped_partition_is_active (node d' a) \<longleftrightarrow> ped_partition_is_active (node d a)"
    by (auto simp: ped_partition_is_active_def)
qed

text \<open>The fields of a disk that the list operations leave alone.\<close>

definition same_disk :: "('x, 'y) PedDisk \<Rightarrow> ('x, 'y) PedDisk \<Rightarrow> bool" where
  "same_disk d d' \<longleftrightarrow> d_dev d' = d_dev d \<and> needs_clobber d' = needs_clobber d
     \<and> d_specific d' = d_specific d"

lemma same_disk_refl [simp]: "same_disk d d"
  by (simp add: same_disk_def)

lemma same_disk_trans: "same_disk a b \<Longrightarrow> same_disk b c \<Longrightarrow> same_disk a c"
  by (simp add: same_disk_def)

section \<open>The two lists\<close>

text \<open>\<open>lists d False\<close> is the list of the disk, \<open>lists d True\<close> that of the extended partition.\<close>

definition lists :: "('x, 'y) PedDisk \<Rightarrow> bool \<Rightarrow> addr list" where
  "lists d k = (if k then (case ped_disk_extended_partition d of
                             None \<Rightarrow> [] | Some e \<Rightarrow> p_list (node d e))
                else part_list d)"

abbreviation is_logical :: "nat \<Rightarrow> bool" where
  "is_logical ty \<equiv> has_bit ty PED_PARTITION_LOGICAL"

definition has_list :: "('x, 'y) PedDisk \<Rightarrow> bool \<Rightarrow> bool" where
  "has_list d k \<longleftrightarrow> (k \<longrightarrow> ped_disk_extended_partition d \<noteq> None)"

lemma lists_False [simp]: "lists d False = part_list d"
  by (simp add: lists_def)

lemma has_list_False [simp]: "has_list d False"
  by (simp add: has_list_def)

lemma list_for_eq: "has_list d (is_logical ty) \<Longrightarrow> list_for d ty = lists d (is_logical ty)"
  by (auto simp: list_for_def lists_def has_list_def)

definition linked :: "('x, 'y) PedDisk \<Rightarrow> bool" where
  "linked d \<longleftrightarrow>
     (\<forall>k. distinct (lists d k)) \<and>
     (\<forall>k. \<forall>a \<in> set (lists d k). d_heap d a \<noteq> None \<and> is_logical (type_of d a) = k) \<and>
     (\<forall>a \<in> set (part_list d). \<forall>b \<in> set (part_list d).
        type_of d a = PED_PARTITION_EXTENDED \<longrightarrow> type_of d b = PED_PARTITION_EXTENDED \<longrightarrow> a = b) \<and>
     (\<forall>a. d_heap d a \<noteq> None \<longrightarrow> a < next_addr d)"

lemma linkedD:
  assumes "linked d"
  shows "distinct (lists d k)"
    and "a \<in> set (lists d k) \<Longrightarrow> d_heap d a \<noteq> None"
    and "a \<in> set (lists d k) \<Longrightarrow> is_logical (type_of d a) = k"
    and "a \<in> set (part_list d) \<Longrightarrow> b \<in> set (part_list d) \<Longrightarrow> type_of d a = PED_PARTITION_EXTENDED
       \<Longrightarrow> type_of d b = PED_PARTITION_EXTENDED \<Longrightarrow> a = b"
    and "d_heap d a \<noteq> None \<Longrightarrow> a < next_addr d"
proof -
  note l = assms[unfolded linked_def]
  show "distinct (lists d k)" using l by (simp only:)
  show "d_heap d a \<noteq> None" if "a \<in> set (lists d k)" using l that by metis
  show "is_logical (type_of d a) = k" if "a \<in> set (lists d k)" using l that by metis
  show "a = b" if "a \<in> set (part_list d)" "b \<in> set (part_list d)"
    "type_of d a = PED_PARTITION_EXTENDED" "type_of d b = PED_PARTITION_EXTENDED"
    using l that by metis
  show "a < next_addr d" if "d_heap d a \<noteq> None" using l that by metis
qed

lemma linked_fresh: "linked d \<Longrightarrow> a \<in> set (lists d k) \<Longrightarrow> a < next_addr d"
  using linkedD(2,5) by blast

lemma ext_Some_mem:
  "ped_disk_extended_partition d = Some e \<Longrightarrow>
     e \<in> set (part_list d) \<and> type_of d e = PED_PARTITION_EXTENDED"
  unfolding ped_disk_extended_partition_def by (auto simp: find_Some_iff)

lemma ext_None_iff:
  "ped_disk_extended_partition d = None \<longleftrightarrow>
     (\<forall>a \<in> set (part_list d). type_of d a \<noteq> PED_PARTITION_EXTENDED)"
  unfolding ped_disk_extended_partition_def by (auto simp: find_None_iff)

lemma ext_Some_iff:
  assumes "linked d"
  shows "ped_disk_extended_partition d = Some e \<longleftrightarrow>
    e \<in> set (part_list d) \<and> type_of d e = PED_PARTITION_EXTENDED"
proof
  assume e: "e \<in> set (part_list d) \<and> type_of d e = PED_PARTITION_EXTENDED"
  then obtain f where f: "ped_disk_extended_partition d = Some f"
    using ext_None_iff[of d] by auto
  from ext_Some_mem[OF f] e linkedD(4)[OF assms, of f e] f
  show "ped_disk_extended_partition d = Some e" by simp
qed (rule ext_Some_mem)

lemma ext_cong:
  assumes "part_list d' = part_list d" "\<And>a. a \<in> set (part_list d) \<Longrightarrow> type_of d' a = type_of d a"
  shows "ped_disk_extended_partition d' = ped_disk_extended_partition d"
  unfolding ped_disk_extended_partition_def assms(1)
  using assms(2) by (intro find_cong) auto

section \<open>Sorted lists are disjoint partitions\<close>

definition before :: "('x, 'y) PedDisk \<Rightarrow> addr \<Rightarrow> addr \<Rightarrow> bool" where
  "before d a b \<longleftrightarrow> g_end (geom_of d a) < g_start (geom_of d b)"

abbreviation in_order :: "('x, 'y) PedDisk \<Rightarrow> addr list \<Rightarrow> bool" where
  "in_order d xs \<equiv> sorted_wrt (before d) xs"

definition geoms_ok :: "('x, 'y) PedDisk \<Rightarrow> addr list \<Rightarrow> bool" where
  "geoms_ok d xs \<longleftrightarrow> (\<forall>a \<in> set xs. geom_wf (geom_of d a) \<and> g_dev (geom_of d a) = d_dev d)"

lemma in_order_cong:
  assumes "\<And>a. a \<in> set xs \<Longrightarrow> geom_of d' a = geom_of d a"
  shows "in_order d' xs \<longleftrightarrow> in_order d xs"
  using assms by (induction xs) (simp_all add: before_def)

lemma in_order_disjoint:
  assumes "in_order d xs" "a \<in> set xs" "b \<in> set xs" "a \<noteq> b"
  shows "geom_sectors (geom_of d a) \<inter> geom_sectors (geom_of d b) = {}"
proof -
  have "before d a b \<or> before d b a"
    using assms
  proof (induction xs)
    case (Cons x xs)
    then show ?case by auto
  qed simp
  then show ?thesis by (auto simp: before_def)
qed

lemma find_before:
  assumes "in_order d xs" "geoms_ok d xs"
  shows "\<And>a. a \<in> set xs \<Longrightarrow> g_start (geom_of d a) \<le> g_end (geom_of d a)"
  using assms by (auto simp: geoms_ok_def intro: geom_wf_nonempty)

section \<open>Replacing a list\<close>

text \<open>
  A new list of the disk may gain or lose an extended partition only while it has no logical
  partitions.
\<close>

definition ext_stable :: "('x, 'y) PedDisk \<Rightarrow> addr list \<Rightarrow> bool" where
  "ext_stable d xs \<longleftrightarrow>
     lists (d\<lparr>part_list := xs\<rparr>) True = lists d True \<and>
     (\<forall>a \<in> set xs. \<forall>b \<in> set xs.
        type_of d a = PED_PARTITION_EXTENDED \<longrightarrow> type_of d b = PED_PARTITION_EXTENDED \<longrightarrow> a = b)"

lemma node_part_list [simp]: "node (d\<lparr>part_list := xs\<rparr>) = node d"
  by (simp add: node_def fun_eq_iff)

lemma ext_stable_insert:
  assumes l: "linked d" and xs: "set xs = insert a (set (part_list d))"
    and a: "type_of d a = PED_PARTITION_EXTENDED \<Longrightarrow> a \<notin> set (part_list d) \<Longrightarrow>
      ped_disk_extended_partition d = None \<and> p_list (node d a) = []"
  shows "ext_stable d xs"
proof -
  have uniq: "\<forall>u \<in> set xs. \<forall>v \<in> set xs.
      type_of d u = PED_PARTITION_EXTENDED \<longrightarrow> type_of d v = PED_PARTITION_EXTENDED \<longrightarrow> u = v"
    using linkedD(4)[OF l] a xs ext_None_iff[of d] by (metis insert_iff)
  let ?d = "d\<lparr>part_list := xs\<rparr>"
  have "lists ?d True = lists d True"
  proof (cases "ped_disk_extended_partition ?d")
    case None
    then have "ped_disk_extended_partition d = None"
      using xs by (auto simp: ext_None_iff)
    with None show ?thesis by (simp add: lists_def)
  next
    case (Some e)
    note e = ext_Some_mem[OF Some]
    show ?thesis
    proof (cases "e \<in> set (part_list d)")
      case True
      then have "ped_disk_extended_partition d = Some e"
        using ext_Some_iff[OF l] e by simp
      with Some show ?thesis by (simp add: lists_def)
    next
      case False
      then have "e = a" using e xs by simp
      with a e False have "ped_disk_extended_partition d = None" "p_list (node d e) = []" by simp_all
      with Some show ?thesis by (simp add: lists_def)
    qed
  qed
  with uniq show ?thesis by (simp add: ext_stable_def)
qed

lemma ext_stable_remove:
  assumes l: "linked d" and xs: "set xs = set (part_list d) - {a}"
    and a: "type_of d a = PED_PARTITION_EXTENDED \<Longrightarrow> p_list (node d a) = []"
  shows "ext_stable d xs"
proof -
  have uniq: "\<forall>u \<in> set xs. \<forall>v \<in> set xs.
      type_of d u = PED_PARTITION_EXTENDED \<longrightarrow> type_of d v = PED_PARTITION_EXTENDED \<longrightarrow> u = v"
    using linkedD(4)[OF l] xs by (metis DiffD1)
  let ?d = "d\<lparr>part_list := xs\<rparr>"
  have "lists ?d True = lists d True"
  proof (cases "ped_disk_extended_partition ?d")
    case None
    show ?thesis
    proof (cases "ped_disk_extended_partition d")
      case (Some e)
      then have "e = a" using ext_Some_mem[OF Some] None xs by (auto simp: ext_None_iff)
      with Some None a ext_Some_mem[OF Some] show ?thesis by (simp add: lists_def)
    qed (use None in \<open>simp add: lists_def\<close>)
  next
    case (Some e)
    then have "ped_disk_extended_partition d = Some e"
      using ext_Some_mem[OF Some] xs ext_Some_iff[OF l] by simp
    with Some show ?thesis by (simp add: lists_def)
  qed
  with uniq show ?thesis by (simp add: ext_stable_def)
qed

text \<open>What the raw list operations change: one of the two lists, nothing else.\<close>

definition relinked :: "('x, 'y) PedDisk \<Rightarrow> bool \<Rightarrow> addr list \<Rightarrow> ('x, 'y) PedDisk \<Rightarrow> bool" where
  "relinked d k xs d' \<longleftrightarrow> linked d' \<and> lists d' k = xs \<and> lists d' (\<not> k) = lists d (\<not> k)
     \<and> core d' = core d \<and> same_disk d d' \<and> update_mode d' = update_mode d
     \<and> next_addr d' = next_addr d \<and> (\<forall>a. p_num (node d' a) = p_num (node d a))"

lemma set_list_relinked:
  assumes l: "linked d" and k: "k = is_logical ty" and hl: "has_list d k"
    and xs: "distinct xs" "\<And>a. a \<in> set xs \<Longrightarrow> d_heap d a \<noteq> None \<and> is_logical (type_of d a) = k"
    and st: "\<not> k \<Longrightarrow> ext_stable d xs"
  shows "relinked d k xs (set_list_for ty xs d)"
proof (cases k)
  case False
  let ?d = "d\<lparr>part_list := xs\<rparr>"
  have d': "set_list_for ty xs d = ?d" using False k by (simp add: set_list_for_def)
  have log: "lists ?d True = lists d True" and uniq: "\<And>a b. a \<in> set xs \<Longrightarrow> b \<in> set xs \<Longrightarrow>
      type_of d a = PED_PARTITION_EXTENDED \<Longrightarrow> type_of d b = PED_PARTITION_EXTENDED \<Longrightarrow> a = b"
    using st[OF False] by (auto simp: ext_stable_def)
  have "linked ?d"
    unfolding linked_def all_bool_eq log
    using xs uniq linkedD(1,2,3,5)[OF l] False by simp
  then show ?thesis
    using log False by (simp add: d' relinked_def core_def same_disk_def fun_eq_iff)
next
  case True
  then obtain e where e: "ped_disk_extended_partition d = Some e"
    using hl by (auto simp: has_list_def)
  let ?d = "upd_node e (\<lambda>p. p\<lparr>p_list := xs\<rparr>) d"
  have d': "set_list_for ty xs d = ?d" using True k e by (simp add: set_list_for_def)
  have ea: "d_heap d e \<noteq> None" "e \<in> set (part_list d)"
    using ext_Some_mem[OF e] linkedD(2)[OF l, where a = e and k = False] by simp_all
  have core: "core ?d = core d"
    using ea(1) by (auto simp: core_def upd_node_def fun_eq_iff node_def)
  have part: "part_list ?d = part_list d" by (simp add: upd_node_def)
  note c = core_eqD[OF fun_cong[OF core]]
  have ext: "ped_disk_extended_partition ?d = Some e"
    using ext_cong[of ?d d] part c e by simp
  have log: "lists ?d True = xs" using ext by (simp add: lists_def node_def upd_node_def)
  have "linked ?d"
    unfolding linked_def all_bool_eq log
    using xs linkedD(1-3)[OF l, where k = False, simplified] linkedD(4,5)[OF l] True part
    by (simp add: c) (simp add: upd_node_def)
  then show ?thesis
    using log True part core
    by (simp add: d' relinked_def same_disk_def) (simp add: upd_node_def node_def)
qed

section \<open>The raw list operations\<close>

lemma insert_before_append:
  "loc \<notin> set xs \<Longrightarrow> insert_before loc part (xs @ loc # ys) = xs @ part # loc # ys"
  by (induction xs) auto

lemma insert_after_append:
  "loc \<notin> set xs \<Longrightarrow> insert_after loc part (xs @ loc # ys) = xs @ loc # part # ys"
  by (induction xs) auto

text \<open>A partition that may be linked into its list.\<close>

definition linkable :: "('x, 'y) PedDisk \<Rightarrow> addr \<Rightarrow> bool" where
  "linkable d part \<longleftrightarrow>
     d_heap d part \<noteq> None \<and> part \<notin> set (lists d (is_logical (type_of d part)))
     \<and> has_list d (is_logical (type_of d part))
     \<and> (type_of d part = PED_PARTITION_EXTENDED \<longrightarrow>
          ped_disk_extended_partition d = None \<and> p_list (node d part) = [])"

lemma linkable_relinked:
  assumes l: "linked d" and part: "linkable d part" and k: "k = is_logical (type_of d part)"
    and ty: "k = is_logical ty" and xs: "lists d k = us @ vs"
  shows "relinked d k (us @ part # vs) (set_list_for ty (us @ part # vs) d)"
proof (rule set_list_relinked[OF l ty])
  show "has_list d k" using part k by (simp add: linkable_def)
  show "distinct (us @ part # vs)"
    using linkedD(1)[OF l, of k] part k xs by (auto simp: linkable_def)
  fix a assume "a \<in> set (us @ part # vs)"
  then have "a = part \<or> a \<in> set (lists d k)" using xs by auto
  then show "d_heap d a \<noteq> None \<and> is_logical (type_of d a) = k"
    using linkedD(2,3)[OF l] part k by (auto simp: linkable_def)
next
  assume "\<not> k"
  then show "ext_stable d (us @ part # vs)"
    using part xs by (intro ext_stable_insert[OF l, where a = part]) (auto simp: linkable_def)
qed

lemma raw_insert_before_relinked:
  assumes l: "linked d" and part: "linkable d part" and k: "k = is_logical (type_of d part)"
    and xs: "lists d k = us @ loc # vs"
  shows "relinked d k (us @ part # loc # vs) (disk_raw_insert_before d loc part)"
proof -
  have loc: "is_logical (type_of d loc) = k" using linkedD(3)[OF l, of loc k] xs by simp
  have "list_for d (type_of d loc) = us @ loc # vs"
    using list_for_eq[of d "type_of d loc"] part k loc xs by (simp add: linkable_def)
  moreover have "loc \<notin> set us" using linkedD(1)[OF l, of k] xs by simp
  ultimately have "disk_raw_insert_before d loc part =
      set_list_for (type_of d loc) (us @ part # loc # vs) d"
    by (simp add: disk_raw_insert_before_def insert_before_append)
  with linkable_relinked[OF l part k loc[symmetric] xs] show ?thesis by simp
qed

lemma raw_insert_after_relinked:
  assumes l: "linked d" and part: "linkable d part" and k: "k = is_logical (type_of d part)"
    and xs: "lists d k = us @ loc # vs"
  shows "relinked d k (us @ loc # part # vs) (disk_raw_insert_after d loc part)"
proof -
  have loc: "is_logical (type_of d loc) = k" using linkedD(3)[OF l, of loc k] xs by simp
  have "list_for d (type_of d loc) = us @ loc # vs"
    using list_for_eq[of d "type_of d loc"] part k loc xs by (simp add: linkable_def)
  moreover have "loc \<notin> set us" using linkedD(1)[OF l, of k] xs by simp
  ultimately have "disk_raw_insert_after d loc part =
      set_list_for (type_of d loc) ((us @ [loc]) @ part # vs) d"
    by (simp add: disk_raw_insert_after_def insert_after_append)
  with linkable_relinked[OF l part k loc[symmetric], of "us @ [loc]" vs] xs show ?thesis by simp
qed

lemma raw_remove_relinked:
  assumes l: "linked d" and k: "k = is_logical (type_of d part)"
    and mem: "part \<in> set (lists d k)"
    and ext: "type_of d part = PED_PARTITION_EXTENDED \<Longrightarrow> p_list (node d part) = []"
  shows "relinked d k (remove1 part (lists d k)) (disk_raw_remove d part)"
proof -
  have hl: "has_list d k"
    using mem by (cases "ped_disk_extended_partition d") (auto simp: has_list_def lists_def)
  have eq: "disk_raw_remove d part = set_list_for (type_of d part) (remove1 part (lists d k)) d"
    using list_for_eq[of d "type_of d part"] hl k by (simp add: disk_raw_remove_def)
  have dist: "distinct (lists d k)" by (rule linkedD(1)[OF l])
  show ?thesis
    unfolding eq
  proof (rule set_list_relinked[OF l k hl])
    show "distinct (remove1 part (lists d k))" using dist by simp
    show "d_heap d a \<noteq> None \<and> is_logical (type_of d a) = k"
      if "a \<in> set (remove1 part (lists d k))" for a
      using that set_remove1_subset[of part "lists d k"] linkedD(2,3)[OF l, of a k] by blast
    show "ext_stable d (remove1 part (lists d k))" if "\<not> k"
      using that dist ext by (intro ext_stable_remove[OF l, where a = part]) simp_all
  qed
qed

lemma raw_add_scan_eq:
  "raw_add_scan d e lst xs =
     (let P = (\<lambda>x. \<not> g_start (geom_of d x) > e) in
      (if takeWhile P xs = [] then lst else Some (last (takeWhile P xs)),
       list_head (dropWhile P xs)))"
  by (induction xs arbitrary: lst) (auto simp: Let_def list_head_def)

lemma raw_add_relinked:
  assumes l: "linked d" and part: "linkable d part" and k: "k = is_logical (type_of d part)"
  defines "P \<equiv> \<lambda>x. \<not> g_start (geom_of d x) > g_end (geom_of d part)"
  shows "relinked d k (takeWhile P (lists d k) @ part # dropWhile P (lists d k))
    (disk_raw_add d part)"
proof -
  let ?L = "lists d k"
  have hl: "has_list d k" using part k by (simp add: linkable_def)
  have lf: "list_for d (type_of d part) = ?L" using list_for_eq[of d "type_of d part"] hl k by simp
  have sc: "raw_add_scan d (g_end (geom_of d part)) None ?L =
      (if takeWhile P ?L = [] then None else Some (last (takeWhile P ?L)), list_head (dropWhile P ?L))"
    unfolding raw_add_scan_eq Let_def P_def by (rule refl)
  show ?thesis
  proof (cases "dropWhile P ?L")
    case (Cons w r)
    then have "?L = takeWhile P ?L @ w # r" by (metis takeWhile_dropWhile_id)
    from raw_insert_before_relinked[OF l part k this] show ?thesis
      using sc Cons by (simp add: disk_raw_add_def lf list_head_def)
  next
    case Nil
    then have all: "takeWhile P ?L = ?L" by (metis append_Nil2 takeWhile_dropWhile_id)
    show ?thesis
    proof (cases "?L = []")
      case True
      with sc Nil all have "disk_raw_add d part = set_list_for (type_of d part) ([] @ part # []) d"
        by (simp add: disk_raw_add_def lf list_head_def)
      with linkable_relinked[OF l part k k, of "[]" "[]"] True show ?thesis by simp
    next
      case False
      then have "?L = butlast ?L @ last ?L # []" by simp
      note r = raw_insert_after_relinked[OF l part k this]
      have "takeWhile P ?L @ part # dropWhile P ?L = butlast ?L @ last ?L # part # []"
        using all Nil False by (metis append.assoc append_Cons append_Nil append_butlast_last_id)
      moreover have "disk_raw_add d part = disk_raw_insert_after d (last ?L) part"
        using sc Nil all False by (simp add: disk_raw_add_def lf list_head_def)
      ultimately show ?thesis using r by simp
    qed
  qed
qed

text \<open>
  Between the partitions that end before it and those that start after it, a new partition
  keeps the list in order.
\<close>

lemma raw_add_position:
  assumes ord: "in_order d (us @ vs)" and g: "geoms_ok d (us @ vs)"
    and p: "g_start (geom_of d part) \<le> g_end (geom_of d part)"
    and us: "\<And>u. u \<in> set us \<Longrightarrow> before d u part" and vs: "\<And>v. v \<in> set vs \<Longrightarrow> before d part v"
  defines "P \<equiv> \<lambda>x. \<not> g_start (geom_of d x) > g_end (geom_of d part)"
  shows "takeWhile P (us @ vs) = us" "dropWhile P (us @ vs) = vs"
proof -
  have "P u" if "u \<in> set us" for u
  proof -
    have "g_start (geom_of d u) \<le> g_end (geom_of d u)"
      using g that geom_wf_nonempty by (auto simp: geoms_ok_def)
    then show ?thesis using us[OF that] p by (simp add: P_def before_def)
  qed
  moreover have "\<not> P v" if "v \<in> set vs" for v using vs[OF that] by (simp add: P_def before_def)
  ultimately show "takeWhile P (us @ vs) = us" "dropWhile P (us @ vs) = vs"
    by (simp_all add: takeWhile_append2 dropWhile_append2 takeWhile_eq_Nil_iff dropWhile_eq_self_iff)
       (cases vs; simp)+
qed

section \<open>The walk over all partitions\<close>

lemma walk_plain:
  "(\<And>a. a \<in> set xs \<Longrightarrow> type_of d a \<noteq> PED_PARTITION_EXTENDED) \<Longrightarrow>
     concat (map (\<lambda>a. if type_of d a = PED_PARTITION_EXTENDED then a # p_list (node d a) else [a]) xs)
     = xs"
  by (induction xs) auto

lemma disk_walk_no_ext:
  "ped_disk_extended_partition d = None \<Longrightarrow> disk_walk d = part_list d"
  unfolding disk_walk_def ext_None_iff by (rule walk_plain) simp

lemma disk_walk_ext:
  assumes l: "linked d" and pl: "part_list d = us @ e # vs"
    and e: "type_of d e = PED_PARTITION_EXTENDED"
  shows "disk_walk d = us @ e # lists d True @ vs"
proof -
  have ext: "ped_disk_extended_partition d = Some e" using ext_Some_iff[OF l] pl e by simp
  have "distinct (part_list d)" using linkedD(1)[OF l, of False] by simp
  then have ne: "type_of d a \<noteq> PED_PARTITION_EXTENDED" if "a \<in> set us \<or> a \<in> set vs" for a
    using linkedD(4)[OF l, of a e] that e pl by auto
  have "disk_walk d = us @ (e # p_list (node d e)) @ vs"
    unfolding disk_walk_def pl using walk_plain[of us d] walk_plain[of vs d] ne e by simp
  with ext show ?thesis by (simp add: lists_def)
qed

lemma disk_walk_cases:
  assumes l: "linked d"
  obtains (no_ext) "ped_disk_extended_partition d = None" "disk_walk d = part_list d"
      "lists d True = []"
  | (ext) e us vs where "ped_disk_extended_partition d = Some e" "part_list d = us @ e # vs"
      "type_of d e = PED_PARTITION_EXTENDED" "disk_walk d = us @ e # lists d True @ vs"
      "lists d True = p_list (node d e)"
proof (cases "ped_disk_extended_partition d")
  case None
  then show thesis using no_ext disk_walk_no_ext[of d] by (simp add: lists_def)
next
  case (Some e)
  then obtain us vs where "part_list d = us @ e # vs" "type_of d e = PED_PARTITION_EXTENDED"
    using ext_Some_mem[OF Some] by (auto simp: in_set_conv_decomp)
  with Some show thesis using ext disk_walk_ext[OF l] by (simp add: lists_def)
qed

lemma set_disk_walk: "linked d \<Longrightarrow> set (disk_walk d) = set (part_list d) \<union> set (lists d True)"
  by (erule disk_walk_cases) auto

lemma lists_disjoint: "linked d \<Longrightarrow> set (part_list d) \<inter> set (lists d True) = {}"
  using linkedD(3)[where k = False] linkedD(3)[where k = True] by fastforce

lemma distinct_disk_walk: "linked d \<Longrightarrow> distinct (disk_walk d)"
proof -
  assume l: "linked d"
  show ?thesis
    using l linkedD(1)[OF l, of False] linkedD(1)[OF l, of True] lists_disjoint[OF l]
    by (cases rule: disk_walk_cases) auto
qed

lemma walk_mem_lists:
  "linked d \<Longrightarrow> a \<in> set (disk_walk d) \<longleftrightarrow> a \<in> set (lists d (is_logical (type_of d a)))"
  using linkedD(3)[of d a False] linkedD(3)[of d a True]
  by (cases "is_logical (type_of d a)") (auto simp: set_disk_walk)

lemma succ_in_append: "a \<notin> set us \<Longrightarrow> succ_in (us @ a # vs) a = list_head vs"
proof (induction us)
  case Nil
  then show ?case by (cases vs) (auto simp: list_head_def)
next
  case (Cons u us)
  then show ?case by (cases us) auto
qed

text \<open>Calling \<open>ped_disk_next_partition\<close> repeatedly enumerates the walk.\<close>

lemma next_partition_walk:
  assumes l: "linked d" and w: "disk_walk d = xs @ a # ys"
  shows "ped_disk_next_partition d (Some a) = list_head ys"
proof -
  have dist: "distinct (disk_walk d)" by (rule distinct_disk_walk[OF l])
  have dw: "distinct (part_list d)" "distinct (lists d True)"
    using linkedD(1)[OF l, of False] linkedD(1)[OF l, of True] by simp_all
  have top: "part_next d a = list_head vs" if "part_list d = us @ a # vs" for us vs a
  proof -
    have "list_for d (type_of d a) = part_list d"
      using linkedD(3)[OF l, of a False] that by (simp add: list_for_def)
    with that dw(1) succ_in_append[of a us vs] show ?thesis by (simp add: part_next_def)
  qed
  show ?thesis
    using l
  proof (cases rule: disk_walk_cases)
    case no_ext
    then have "part_list d = xs @ a # ys" using w by simp
    moreover from this no_ext(1) have "type_of d a \<noteq> PED_PARTITION_EXTENDED"
      by (simp add: ext_None_iff)
    moreover have "\<not> is_logical (type_of d a)"
      using linkedD(3)[OF l, of a False] calculation(1) by simp
    ultimately show ?thesis using top[of xs a ys] by (auto simp: ped_disk_next_partition_def)
  next
    case (ext e us vs)
    have ne: "type_of d b \<noteq> PED_PARTITION_EXTENDED" if "b \<in> set us \<union> set vs" for b
      using linkedD(4)[OF l, of b e] that ext(2,3) dw(1) by auto
    have a: "a \<in> set us \<or> a = e \<or> a \<in> set (lists d True) \<or> a \<in> set vs"
      using arg_cong[OF w, of set] unfolding ext(4) by auto
    have uniq: "ys = q" if "disk_walk d = p @ a # q" for p q
    proof -
      have "xs @ a # ys = p @ a # q" using that w by simp
      moreover have "a \<notin> set xs" "a \<notin> set ys" using dist w by auto
      ultimately show ?thesis by (simp add: append_Cons_eq_iff)
    qed
    consider (us) u1 u2 where "us = u1 @ a # u2" | (e) "a = e"
      | (lg) l1 l2 where "lists d True = l1 @ a # l2" | (vs) v1 v2 where "vs = v1 @ a # v2"
      using a by (metis split_list)
    then show ?thesis
    proof cases
      case us
      then have n: "part_next d a = Some (hd (u2 @ e # vs))"
        using top[of u1 a "u2 @ e # vs"] ext(2) by (cases u2) (simp_all add: list_head_def)
      have "ys = u2 @ e # lists d True @ vs" using uniq[of u1] us ext(4) by simp
      then show ?thesis using n ne[of a] us
        by (cases u2) (simp_all add: ped_disk_next_partition_def list_head_def)
    next
      case e
      have ys: "ys = lists d True @ vs" using uniq[of us] e ext(4) by simp
      show ?thesis using ys e ext(3,5) top[of us e vs] ext(2)
        by (cases "p_list (node d e)") (simp_all add: ped_disk_next_partition_def list_head_def)
    next
      case lg
      have log: "is_logical (type_of d a)" using linkedD(3)[OF l, of a True] lg by simp
      then have ty: "type_of d a \<noteq> PED_PARTITION_EXTENDED" by auto
      have "list_for d (type_of d a) = lists d True"
        using list_for_eq[of d "type_of d a"] log ext(1) by (simp add: has_list_def)
      then have n: "part_next d a = list_head l2"
        using lg dw(2) succ_in_append[of a l1 l2] by (simp add: part_next_def)
      have ys: "ys = l2 @ vs" using uniq[of "us @ e # l1"] lg ext(4) by simp
      show ?thesis using ys n ty log ext(1) top[of us e vs] ext(2)
        by (cases l2) (simp_all add: ped_disk_next_partition_def list_head_def)
    next
      case vs
      have ys: "ys = v2" using uniq[of "us @ e # lists d True @ v1"] vs ext(4) by simp
      have n: "part_next d a = list_head v2" using top[of "us @ e # v1" a v2] vs ext(2) by simp
      have "\<not> is_logical (type_of d a)" using linkedD(3)[OF l, of a False] vs ext(2) by simp
      then show ?thesis using ys n ne[of a] vs
        by (cases v2) (simp_all add: ped_disk_next_partition_def list_head_def)
    qed
  qed
qed

end
