(* ===== verification/Disk_Update.thy ===== *)
theory Disk_Update
  imports Disk_Lists
begin

text \<open>
  Update mode: removing the placeholders of free space and metadata when it is entered,
  and filling the gaps between the partitions when it is left.
\<close>

section \<open>Dropping and renumbering partitions\<close>

text \<open>What deleting a partition does to the lists and nodes.\<close>

definition drops :: "('x, 'y) PedDisk \<Rightarrow> addr \<Rightarrow> ('x, 'y) PedDisk \<Rightarrow> bool" where
  "drops d a d' \<longleftrightarrow> linked d' \<and> (\<forall>k. lists d' k = remove1 a (lists d k))
     \<and> core d' = (core d)(a := None) \<and> same_disk d d' \<and> update_mode d' = update_mode d
     \<and> next_addr d' = next_addr d"

text \<open>What numbering partitions does.\<close>

definition renumbered :: "('x, 'y) PedDisk \<Rightarrow> ('x, 'y) PedDisk \<Rightarrow> bool" where
  "renumbered d d' \<longleftrightarrow> linked d' \<and> lists d' = lists d \<and> core d' = core d \<and> same_disk d d'
     \<and> update_mode d' = update_mode d \<and> next_addr d' = next_addr d"

lemma renumbered_refl: "linked d \<Longrightarrow> renumbered d d"
  by (simp add: renumbered_def)

lemma renumbered_trans: "renumbered a b \<Longrightarrow> renumbered b c \<Longrightarrow> renumbered a c"
  unfolding renumbered_def by (auto intro: same_disk_trans)

lemma ext_core:
  assumes "part_list d' = part_list d" "core d' = core d"
  shows "ped_disk_extended_partition d' = ped_disk_extended_partition d"
  using assms core_eqD(2)[OF fun_cong[OF assms(2)]] by (intro ext_cong) auto

text \<open>A change of nodes that keeps the cores, the lists and the allocation.\<close>

lemma linked_core:
  assumes l: "linked d" and lists: "\<And>k. lists d' k = lists d k" and core: "core d' = core d"
    and "next_addr d' = next_addr d"
  shows "linked d'"
proof -
  note c = core_eqD[OF fun_cong[OF core]]
  have p: "part_list d' = part_list d" using lists[of False] by simp
  show ?thesis
    unfolding linked_def lists p c assms(4) using l[unfolded linked_def] by blast
qed

lemma partition_enumerate_renumbered:
  assumes l: "linked d" and a: "d_heap d a \<noteq> None"
  shows "renumbered d (snd (partition_enumerate T a d))"
proof -
  obtain ok n where n: "op_partition_enumerate T d a = (ok, n)" by fastforce
  let ?d = "upd_node a (\<lambda>p. p\<lparr>p_num := n\<rparr>) d"
  have core: "core ?d = core d"
    using a by (auto simp: core_def upd_node_def node_def fun_eq_iff)
  have part: "part_list ?d = part_list d" by (simp add: upd_node_def)
  have lists: "lists ?d k = lists d k" for k
    using ext_core[OF part core] part
    by (auto simp: lists_def upd_node_def node_def split: option.splits)
  have "next_addr ?d = next_addr d" by (simp add: upd_node_def)
  then have "renumbered d ?d"
    unfolding renumbered_def using linked_core[OF l lists core] lists core
    by (auto simp: upd_node_def same_disk_def fun_eq_iff)
  with n show ?thesis by (simp add: partition_enumerate_def)
qed

lemma enumerate_partitions_renumbered:
  assumes l: "linked d"
  shows "renumbered d (snd (ped_disk_enumerate_partitions T d))"
proof -
  have mem: "d_heap s a \<noteq> None" if "renumbered d s" "a \<in> set (disk_walk s)" for s a
    using that linkedD(2)[of s a] walk_mem_lists[of s a] by (auto simp: renumbered_def)
  have step1: "renumbered d (snd (case ped_disk_get_partition s i of
          None \<Rightarrow> (True, s) | Some walk \<Rightarrow> partition_enumerate T walk s))"
    if s: "renumbered d s" for s i
  proof (cases "ped_disk_get_partition s i")
    case (Some w)
    then have "w \<in> set (disk_walk s)" by (auto simp: ped_disk_get_partition_def find_Some_iff)
    with mem[OF s] s have "renumbered s (snd (partition_enumerate T w s))"
      by (intro partition_enumerate_renumbered) (auto simp: renumbered_def)
    with renumbered_trans[OF s] Some show ?thesis by simp
  qed (use s in simp)
  let ?l1 = "while_ok (\<lambda>i d. case ped_disk_get_partition d i of None \<Rightarrow> (True, d)
                  | Some walk \<Rightarrow> partition_enumerate T walk d)
             [1 .. ped_disk_get_last_partition_num d] d"
  have r1: "renumbered d (snd ?l1)"
    by (rule while_ok_keeps[where P = "renumbered d"]) (use step1 renumbered_refl[OF l] in auto)
  have "renumbered d (snd (while_ok
      (\<lambda>walk d. if ped_partition_is_active (node d walk) \<and> p_num (node d walk) = - 1
                then partition_enumerate T walk d else (True, d)) (disk_walk d1) d1))"
    if d1: "renumbered d d1" for d1
  proof (rule while_ok_keeps[where P = "renumbered d"])
    fix a s assume a: "a \<in> set (disk_walk d1)" and s: "renumbered d s"
    have "core s = core d1" using d1 s by (simp add: renumbered_def)
    then have "d_heap s a \<noteq> None"
      using mem[OF d1 a] core_eqD(5)[of s a d1] by simp
    moreover have "linked s" using s by (simp add: renumbered_def)
    ultimately show "renumbered d (snd (if ped_partition_is_active (node s a) \<and> p_num (node s a) = - 1
                then partition_enumerate T a s else (True, s)))"
      using partition_enumerate_renumbered[of s a T] renumbered_trans[OF s] s by simp
  qed (rule d1)
  with r1 show ?thesis
    by (auto simp: ped_disk_enumerate_partitions_def split: prod.splits bool.splits)
qed

lemma lists_mode [simp]: "lists (mode_up d) = lists d" "lists (mode_down d) = lists d"
  by (auto simp: lists_def mode_up_def mode_down_def ped_disk_extended_partition_def node_def
      fun_eq_iff split: option.splits)

lemma core_mode [simp]: "core (mode_up d) = core d" "core (mode_down d) = core d"
  by (simp_all add: core_def mode_up_def mode_down_def fun_eq_iff)

lemma node_mode [simp]: "node (mode_up d) = node d" "node (mode_down d) = node d"
  by (simp_all add: node_def mode_up_def mode_down_def fun_eq_iff)

lemma fields_mode [simp]:
  "update_mode (mode_up d) = update_mode d + 1" "update_mode (mode_down d) = update_mode d - 1"
  "next_addr (mode_up d) = next_addr d" "next_addr (mode_down d) = next_addr d"
  "same_disk (mode_up d) d' = same_disk d d'" "same_disk (mode_down d) d' = same_disk d d'"
  "same_disk d (mode_up d') = same_disk d d'" "same_disk d (mode_down d') = same_disk d d'"
  "part_list (mode_up d) = part_list d" "part_list (mode_down d) = part_list d"
  "d_dev (mode_up d) = d_dev d" "d_dev (mode_down d) = d_dev d"
  "needs_clobber (mode_up d) = needs_clobber d" "needs_clobber (mode_down d) = needs_clobber d"
  "d_specific (mode_up d) = d_specific d" "d_specific (mode_down d) = d_specific d"
  "d_heap (mode_up d) = d_heap d" "d_heap (mode_down d) = d_heap d"
  by (simp_all add: mode_up_def mode_down_def same_disk_def)

lemma linked_mode [simp]: "linked (mode_up d) = linked d" "linked (mode_down d) = linked d"
  by (simp_all add: linked_def)

lemma disk_walk_mode [simp]: "disk_walk (mode_up d) = disk_walk d" "disk_walk (mode_down d) = disk_walk d"
  by (simp_all add: disk_walk_def cong: if_cong)

lemma ext_mode [simp]: "ped_disk_extended_partition (mode_up d) = ped_disk_extended_partition d"
  "ped_disk_extended_partition (mode_down d) = ped_disk_extended_partition d"
  by (simp_all add: ped_disk_extended_partition_def)

text \<open>Unlinking and destroying.\<close>

lemma destroy_unlinked:
  assumes l: "linked d" and a: "\<And>k. a \<notin> set (lists d k)"
  defines "d' \<equiv> ped_partition_destroy a d"
  shows "linked d'" "lists d' = lists d" "core d' = (core d)(a := None)" "same_disk d d'"
    "update_mode d' = update_mode d" "next_addr d' = next_addr d"
proof -
  have n: "node d' b = node d b" if "b \<noteq> a" for b
    using that by (simp add: d'_def ped_partition_destroy_def node_def)
  have p: "part_list d' = part_list d" by (simp add: d'_def ped_partition_destroy_def)
  have ap: "a \<notin> set (part_list d)" using a[of False] by simp
  have ext: "ped_disk_extended_partition d' = ped_disk_extended_partition d"
    using ext_cong[of d' d] p n ap by metis
  show lists: "lists d' = lists d"
  proof
    fix k
    show "lists d' k = lists d k"
    proof (cases "ped_disk_extended_partition d")
      case (Some e)
      then have "e \<noteq> a" using ext_Some_mem[of d e] ap by auto
      then show ?thesis using Some ext p n by (simp add: lists_def)
    qed (use ext p in \<open>simp add: lists_def\<close>)
  qed
  show core: "core d' = (core d)(a := None)"
    by (simp add: core_def d'_def ped_partition_destroy_def fun_eq_iff)
  show "same_disk d d'" "update_mode d' = update_mode d" "next_addr d' = next_addr d"
    by (simp_all add: d'_def ped_partition_destroy_def same_disk_def)
  have h: "d_heap d' b = (if b = a then None else d_heap d b)" for b
    by (simp add: d'_def ped_partition_destroy_def)
  have nx: "next_addr d' = next_addr d" by (simp add: d'_def ped_partition_destroy_def)
  show "linked d'"
    unfolding linked_def
  proof (intro conjI allI ballI impI)
    show "distinct (lists d' k)" for k using linkedD(1)[OF l] lists by simp
  next
    fix k b assume "b \<in> set (lists d' k)"
    then have "b \<in> set (lists d k)" "b \<noteq> a" using lists a by auto
    then show "d_heap d' b \<noteq> None" "is_logical (type_of d' b) = k"
      using linkedD(2,3)[OF l, of b k] h n by auto
  next
    fix b c assume "b \<in> set (part_list d')" "c \<in> set (part_list d')"
      "type_of d' b = PED_PARTITION_EXTENDED" "type_of d' c = PED_PARTITION_EXTENDED"
    then show "b = c" using linkedD(4)[OF l, of b c] p n ap by metis
  next
    fix b assume "d_heap d' b \<noteq> None"
    then show "b < next_addr d'" using linkedD(5)[OF l, of b] h nx by (metis)
  qed
qed

text \<open>The extended partition counts as removable when it has no logical partitions.\<close>

definition removable :: "('x, 'y) PedDisk \<Rightarrow> addr \<Rightarrow> bool" where
  "removable d a \<longleftrightarrow> a \<in> set (disk_walk d) \<and>
     (type_of d a = PED_PARTITION_EXTENDED \<longrightarrow> p_list (node d a) = [])"

lemma raw_remove_lists:
  assumes l: "linked d" and r: "removable d a"
  shows "linked (disk_raw_remove d a)" "lists (disk_raw_remove d a) k = remove1 a (lists d k)"
    "core (disk_raw_remove d a) = core d" "same_disk d (disk_raw_remove d a)"
    "update_mode (disk_raw_remove d a) = update_mode d"
    "next_addr (disk_raw_remove d a) = next_addr d"
proof -
  let ?k = "is_logical (type_of d a)"
  have mem: "a \<in> set (lists d ?k)" using r walk_mem_lists[OF l] by (simp add: removable_def)
  have rel: "relinked d ?k (remove1 a (lists d ?k)) (disk_raw_remove d a)"
    using raw_remove_relinked[OF l refl mem] r by (simp add: removable_def)
  have "a \<notin> set (lists d (\<not> ?k))" using linkedD(3)[OF l, of a "\<not> ?k"] by auto
  then show "lists (disk_raw_remove d a) k = remove1 a (lists d k)"
    using rel by (cases "k = ?k") (auto simp: relinked_def remove1_idem)
  show "linked (disk_raw_remove d a)" "core (disk_raw_remove d a) = core d"
    "same_disk d (disk_raw_remove d a)" "update_mode (disk_raw_remove d a) = update_mode d"
    "next_addr (disk_raw_remove d a) = next_addr d"
    using rel by (simp_all add: relinked_def)
qed

lemma removed_not_mem:
  assumes l: "linked d" and r: "removable d a"
  shows "a \<notin> set (lists (disk_raw_remove d a) k)"
  using raw_remove_lists(2)[OF l r] linkedD(1)[OF l, of k] by simp

lemma remove_destroy_drops:
  assumes l: "linked d" and r: "removable d a"
  shows "drops d a (ped_partition_destroy a (disk_raw_remove d a))"
  using destroy_unlinked[OF raw_remove_lists(1)[OF l r] removed_not_mem[OF l r]]
    raw_remove_lists[OF l r]
  unfolding drops_def by (auto intro: same_disk_trans)

lemma remove_nested_lists:
  assumes l: "linked d" and r: "removable d a"
  shows "renumbered (disk_raw_remove d a) (remove_nested T a d)"
proof -
  have raw: "disk_raw_remove (mode_up d) a = mode_up (disk_raw_remove d a)"
    by (simp add: disk_raw_remove_def set_list_for_def list_for_def upd_node_def)
  have down: "mode_down (mode_up d) = d" for d :: "('x, 'y) PedDisk"
    by (simp add: mode_up_def mode_down_def)
  show ?thesis
    unfolding remove_nested_def raw down
    by (rule enumerate_partitions_renumbered[OF raw_remove_lists(1)[OF l r]])
qed

lemma mode_up_removable [simp]: "removable (mode_up d) a = removable d a"
  by (simp add: removable_def)

lemma remove_nested_drops:
  assumes l: "linked d" and r: "removable d a"
  shows "drops d a (ped_partition_destroy a (remove_nested T a d))"
proof -
  have n: "renumbered (disk_raw_remove d a) (remove_nested T a d)"
    by (rule remove_nested_lists[OF l r])
  have l': "linked (remove_nested T a d)" and a: "\<And>k. a \<notin> set (lists (remove_nested T a d) k)"
    using n removed_not_mem[OF l r] by (simp_all add: renumbered_def)
  show ?thesis
    using destroy_unlinked[OF l' a] n raw_remove_lists[OF l r]
    unfolding drops_def renumbered_def by (auto intro: same_disk_trans)
qed

lemma delete_leaf_drops:
  assumes "linked d" "removable d a"
  shows "drops d a (delete_leaf T a d)"
  using remove_nested_drops[of "mode_up d" a T] assms
  by (simp add: delete_leaf_def drops_def)

section \<open>Dropping all partitions of a kind\<close>

lemma mem_walk: "linked d \<Longrightarrow> a \<in> set (lists d k) \<Longrightarrow> a \<in> set (disk_walk d)"
  using set_disk_walk[of d] by (cases k) (simp_all flip: lists_False)

lemma fold_drops:
  assumes l: "linked d" and ws: "distinct ws" "set ws \<subseteq> set (disk_walk d)"
    and step: "\<And>d a. linked d \<Longrightarrow> a \<in> set (disk_walk d) \<Longrightarrow> C (type_of d a) \<Longrightarrow> drops d a (F a d)"
  defines "d' \<equiv> fold (\<lambda>a d. if C (type_of d a) then F a d else d) ws d"
  shows "linked d' \<and> (\<forall>k. lists d' k = filter (\<lambda>a. \<not> (a \<in> set ws \<and> C (type_of d a))) (lists d k))
    \<and> core d' = (\<lambda>a. if a \<in> set ws \<and> C (type_of d a) then None else core d a)
    \<and> same_disk d d' \<and> update_mode d' = update_mode d \<and> next_addr d' = next_addr d"
  using l ws unfolding d'_def
proof (induction ws arbitrary: d)
  case (Cons a ws)
  let ?d = "if C (type_of d a) then F a d else d"
  have a: "a \<in> set (disk_walk d)" "a \<notin> set ws" using Cons.prems by simp_all
  have dr: "drops d a (F a d)" if "C (type_of d a)" using step Cons.prems(1) a(1) that by blast
  have l': "linked ?d" using dr Cons.prems(1) by (simp add: drops_def)
  have w': "set (disk_walk ?d) = (if C (type_of d a) then set (disk_walk d) - {a} else set (disk_walk d))"
  proof (cases "C (type_of d a)")
    case True
    have "set (remove1 a (lists d k)) = set (lists d k) - {a}" for k
      using linkedD(1)[OF Cons.prems(1), of k] by simp
    with dr[OF True] Cons.prems(1) True show ?thesis
      using set_disk_walk[of "F a d"] set_disk_walk[of d]
      by (auto simp: drops_def simp flip: lists_False)
  qed simp
  have "set ws \<subseteq> set (disk_walk ?d)" using Cons.prems(3) a(2) w' by auto
  moreover define e where "e = fold (\<lambda>a d. if C (type_of d a) then F a d else d) ws ?d"
  ultimately have IH:
    "linked e"
    "\<And>k. lists e k = filter (\<lambda>b. \<not> (b \<in> set ws \<and> C (type_of ?d b))) (lists ?d k)"
    "core e = (\<lambda>b. if b \<in> set ws \<and> C (type_of ?d b) then None else core ?d b)"
    "same_disk ?d e" "update_mode e = update_mode ?d" "next_addr e = next_addr ?d"
    using Cons.IH[OF l'] Cons.prems(2) by simp_all
  have core: "core ?d b = core d b" if "b \<noteq> a" for b using dr that by (simp add: drops_def)
  have ty: "type_of ?d b = type_of d b" if "b \<noteq> a" for b using core_eqD(2)[OF core[OF that]] .
  have "lists e k = filter (\<lambda>b. \<not> (b \<in> set (a # ws) \<and> C (type_of d b))) (lists d k)" for k
  proof -
    have "lists ?d k = filter (\<lambda>b. \<not> (b = a \<and> C (type_of d b))) (lists d k)"
    proof (cases "C (type_of d a)")
      case True
      have "remove1 a (lists d k) = filter (\<lambda>b. b \<noteq> a) (lists d k)"
        using linkedD(1)[OF Cons.prems(1), of k] by (simp add: distinct_remove1_removeAll removeAll_filter_not_eq eq_commute)
      also have "\<dots> = filter (\<lambda>b. \<not> (b = a \<and> C (type_of d b))) (lists d k)"
        by (rule filter_cong) (auto simp: True)
      finally show ?thesis using dr[OF True] True by (simp add: drops_def)
    next
      case False
      have "filter (\<lambda>b. \<not> (b = a \<and> C (type_of d b))) (lists d k) = lists d k"
        by (rule filter_True) (auto simp: False)
      with False show ?thesis by simp
    qed
    then have "lists e k = filter (\<lambda>b. \<not> (b = a \<and> C (type_of d b)) \<and>
        \<not> (b \<in> set ws \<and> C (type_of ?d b))) (lists d k)"
      unfolding IH(2) by (simp only: filter_filter)
    also have "\<dots> = filter (\<lambda>b. \<not> (b \<in> set (a # ws) \<and> C (type_of d b))) (lists d k)"
    proof (rule filter_cong[OF refl])
      fix b
      show "(\<not> (b = a \<and> C (type_of d b)) \<and> \<not> (b \<in> set ws \<and> C (type_of ?d b))) =
          (\<not> (b \<in> set (a # ws) \<and> C (type_of d b)))"
        using a(2) ty[of b] by (cases "b = a") simp_all
    qed
    finally show ?thesis .
  qed
  moreover have "core e b = (if b \<in> set (a # ws) \<and> C (type_of d b) then None else core d b)" for b
  proof (cases "b = a")
    case True
    then show ?thesis using IH(3) a(2) dr by (simp add: drops_def)
  next
    case False
    then show ?thesis using IH(3) core[OF False] ty[OF False] by simp
  qed
  moreover have "same_disk d ?d" "update_mode ?d = update_mode d" "next_addr ?d = next_addr d"
    using dr by (simp_all add: drops_def)
  ultimately have "linked e \<and> (\<forall>k. lists e k = filter (\<lambda>b. \<not> (b \<in> set (a # ws) \<and> C (type_of d b))) (lists d k))
    \<and> core e = (\<lambda>b. if b \<in> set (a # ws) \<and> C (type_of d b) then None else core d b)
    \<and> same_disk d e \<and> update_mode e = update_mode d \<and> next_addr e = next_addr d"
    using IH(1,4-6) same_disk_trans by (auto simp: fun_eq_iff)
  then show ?case unfolding e_def fold_simps .
qed simp

text \<open>The partitions of a list that are not of a dropped kind keep their nodes.\<close>

definition filtered :: "('x, 'y) PedDisk \<Rightarrow> (nat \<Rightarrow> bool) \<Rightarrow> ('x, 'y) PedDisk \<Rightarrow> bool" where
  "filtered d C d' \<longleftrightarrow> linked d' \<and> (\<forall>k. lists d' k = filter (\<lambda>a. \<not> C (type_of d a)) (lists d k))
     \<and> core d' = (\<lambda>a. if a \<in> set (disk_walk d) \<and> C (type_of d a) then None else core d a)
     \<and> same_disk d d' \<and> update_mode d' = update_mode d \<and> next_addr d' = next_addr d"

lemma fold_filtered:
  assumes l: "linked d"
    and step: "\<And>d a. linked d \<Longrightarrow> a \<in> set (disk_walk d) \<Longrightarrow> C (type_of d a) \<Longrightarrow> drops d a (F a d)"
  shows "filtered d C (fold (\<lambda>a d. if C (type_of d a) then F a d else d) (disk_walk d) d)"
proof -
  have "filter (\<lambda>a. \<not> (a \<in> set (disk_walk d) \<and> C (type_of d a))) (lists d k) =
      filter (\<lambda>a. \<not> C (type_of d a)) (lists d k)" for k
    by (rule filter_cong) (use mem_walk[OF l] in auto)
  then show ?thesis
    using fold_drops[OF l distinct_disk_walk[OF l] subset_refl, of C F] step
    by (simp add: filtered_def)
qed

abbreviation is_free :: "nat \<Rightarrow> bool" where "is_free ty \<equiv> has_bit ty PED_PARTITION_FREESPACE"
abbreviation is_metadata :: "nat \<Rightarrow> bool" where "is_metadata ty \<equiv> has_bit ty PED_PARTITION_METADATA"

lemma free_removable:
  "a \<in> set (disk_walk d) \<Longrightarrow> is_free (type_of d a) \<or> is_metadata (type_of d a) \<Longrightarrow> removable d a"
  by (auto simp: removable_def)

lemma remove_freespace_filtered:
  assumes "linked d"
  shows "filtered d is_free (disk_remove_freespace d)"
  unfolding disk_remove_freespace_def
  by (rule fold_filtered[OF assms]) (rule remove_destroy_drops, assumption, rule free_removable, simp_all)

lemma delete_nested_drops:
  assumes l: "linked d" and a: "removable d a" "type_of d a \<noteq> PED_PARTITION_EXTENDED"
  shows "drops d a (delete_nested T a d)"
  using remove_nested_drops[of "mode_up d" a T] l a
  by (simp add: delete_nested_def drops_def Let_def)

lemma remove_metadata_filtered:
  assumes "linked d"
  shows "filtered d is_metadata (disk_remove_metadata T d)"
  unfolding disk_remove_metadata_def
proof (rule fold_filtered[OF assms])
  fix d :: "('a, 'b) PedDisk" and a
  assume "linked d" "a \<in> set (disk_walk d)" and m: "is_metadata (type_of d a)"
  moreover have "type_of d a \<noteq> PED_PARTITION_EXTENDED" using m by auto
  ultimately show "drops d a (delete_nested T a d)"
    by (intro delete_nested_drops free_removable) simp_all
qed

text \<open>Entering update mode leaves the active partitions.\<close>

definition is_active :: "nat \<Rightarrow> bool" where
  "is_active ty \<longleftrightarrow> \<not> is_free ty \<and> \<not> is_metadata ty"

lemma active_type: "ped_partition_is_active p \<longleftrightarrow> is_active (p_type p)"
  by (simp add: ped_partition_is_active_def is_active_def)

definition actives :: "('x, 'y) PedDisk \<Rightarrow> bool \<Rightarrow> addr list" where
  "actives d k = filter (\<lambda>a. is_active (type_of d a)) (lists d k)"

lemma push_spec:
  fixes d :: "('x, 'y) PedDisk" and T :: "('x, 'y, 'z) PedPartOps_scheme"
  assumes l: "linked d" and m: "update_mode d = 0"
  defines "d' \<equiv> disk_push_update_mode T d"
  shows "linked d'" "lists d' = actives d"
    "\<And>a. (a \<in> set (disk_walk d) \<Longrightarrow> is_active (type_of d a)) \<Longrightarrow> core d' a = core d a"
    "same_disk d d'" "update_mode d' = 1" "next_addr d' = next_addr d"
proof -
  let ?f = "disk_remove_freespace d"
  have f: "filtered d is_free ?f" by (rule remove_freespace_filtered[OF l])
  then have lf: "linked (mode_up ?f)" by (simp add: filtered_def)
  have g: "filtered (mode_up ?f) is_metadata d'"
    using remove_metadata_filtered[OF lf] m by (simp add: d'_def disk_push_update_mode_def)
  have ty: "type_of ?f a = type_of d a" if "a \<notin> set (disk_walk d) \<or> \<not> is_free (type_of d a)" for a
    using f that by (intro core_eqD(2)) (auto simp: filtered_def)
  show "linked d'" using g by (simp add: filtered_def)
  show "lists d' = actives d"
  proof
    fix k
    have "lists d' k = filter (\<lambda>a. \<not> is_metadata (type_of ?f a)) (filter (\<lambda>a. \<not> is_free (type_of d a)) (lists d k))"
      using f g by (simp add: filtered_def)
    also have "\<dots> = actives d k"
      unfolding actives_def filter_filter
      by (rule filter_cong[OF refl]) (use ty in \<open>auto simp: is_active_def\<close>)
    finally show "lists d' k = actives d k" .
  qed
  show "core d' a = core d a" if act: "a \<in> set (disk_walk d) \<Longrightarrow> is_active (type_of d a)" for a
  proof -
    have c: "core ?f a = core d a" using f act by (auto simp: filtered_def is_active_def)
    have "a \<in> set (disk_walk ?f) \<Longrightarrow> a \<in> set (disk_walk d)"
      using f l by (auto simp: filtered_def set_disk_walk simp flip: lists_False)
    then have "\<not> (a \<in> set (disk_walk ?f) \<and> is_metadata (type_of ?f a))"
      using act core_eqD(2)[OF c] by (auto simp: is_active_def)
    then show ?thesis using g c by (auto simp: filtered_def)
  qed
  show "same_disk d d'" "update_mode d' = 1" "next_addr d' = next_addr d"
    using f g m by (auto simp: filtered_def intro: same_disk_trans)
qed

end
