(* ===== verification/Disk_Free.thy ===== *)
theory Disk_Free
  imports Disk_Update
begin

text \<open>
  Free space: the loops that leave update mode fill every gap of a list of partitions with a
  placeholder, so that the list of the disk tiles the device. The interface they use is the
  locale \<open>placeholder_ops\<close>: a label type can create placeholders.
\<close>

locale placeholder_ops =
  fixes T :: "('x, 'y, 'z) PedPartOps_scheme"
  assumes placeholder: "s \<le> e \<Longrightarrow> ty = PED_PARTITION_FREESPACE \<or> ty = PED_PARTITION_FREESPACE + PED_PARTITION_LOGICAL \<Longrightarrow>
      \<exists>p. ped_partition_new T d ty None s e = Inr p \<and>
        p_geom p = \<lparr>g_dev = d_dev d, g_start = s, g_length = e - s + 1, g_end = e\<rparr> \<and>
        p_type p = ty \<and> p_list p = []"

section \<open>Gaps\<close>

text \<open>No sector between \<open>le\<close> and the end of the list lies before, between or outside.\<close>

fun gapless :: "('x, 'y) PedDisk \<Rightarrow> PedSector \<Rightarrow> addr list \<Rightarrow> bool" where
  "gapless d le [] \<longleftrightarrow> True"
| "gapless d le (a # as) \<longleftrightarrow> g_start (geom_of d a) \<le> le + 1 \<and> gapless d (g_end (geom_of d a)) as"

definition end_of :: "('x, 'y) PedDisk \<Rightarrow> PedSector \<Rightarrow> addr list \<Rightarrow> PedSector" where
  "end_of d le xs = (if xs = [] then le else g_end (geom_of d (last xs)))"

lemma end_of_simps [simp]:
  "end_of d le [] = le" "end_of d le (a # as) = end_of d (g_end (geom_of d a)) as"
  by (auto simp: end_of_def)

lemma gapless_cong:
  assumes "\<And>a. a \<in> set xs \<Longrightarrow> geom_of d' a = geom_of d a"
  shows "gapless d' le xs \<longleftrightarrow> gapless d le xs"
  using assms by (induction xs arbitrary: le) auto

lemma end_of_cong:
  assumes "\<And>a. a \<in> set xs \<Longrightarrow> geom_of d' a = geom_of d a"
  shows "end_of d' le xs = end_of d le xs"
  using assms by (simp add: end_of_def)

lemma gapless_append:
  "gapless d le (xs @ ys) \<longleftrightarrow> gapless d le xs \<and> gapless d (end_of d le xs) ys"
  by (induction xs arbitrary: le) auto

lemma end_of_append: "end_of d le (xs @ ys) = end_of d (end_of d le xs) ys"
  by (simp add: end_of_def)

text \<open>A gapless list contains every sector up to its end.\<close>

lemma gapless_covers:
  assumes "gapless d le xs" "le < s" "s \<le> end_of d le xs"
  shows "\<exists>a \<in> set xs. g_start (geom_of d a) \<le> s \<and> s \<le> g_end (geom_of d a)"
  using assms
proof (induction xs arbitrary: le)
  case (Cons a as)
  show ?case
  proof (cases "s \<le> g_end (geom_of d a)")
    case True
    with Cons.prems show ?thesis by auto
  next
    case False
    with Cons show ?thesis by auto
  qed
qed simp

section \<open>Allocation of a node\<close>

lemma alloc_node_props:
  assumes l: "linked d" and al: "alloc_node d p = (d', a)"
  shows "a = next_addr d" "node d' a = p" "\<And>b. b < next_addr d \<Longrightarrow> d_heap d' b = d_heap d b"
    "lists d' = lists d" "linked d'" "same_disk d d'" "update_mode d' = update_mode d"
    "next_addr d' = Suc (next_addr d)" "d_heap d' a \<noteq> None"
    "ped_disk_extended_partition d' = ped_disk_extended_partition d" "d_dev d' = d_dev d"
proof -
  have d': "d' = d\<lparr>d_heap := (d_heap d)(next_addr d \<mapsto> p), next_addr := next_addr d + 1\<rparr>"
    and a: "a = next_addr d" using al by (auto simp: alloc_node_def)
  show "a = next_addr d" by (rule a)
  show "d_heap d' b = d_heap d b" if "b < next_addr d" for b
    using that by (simp add: d')
  show "node d' a = p" by (simp add: d' a node_def)
  show "same_disk d d'" "update_mode d' = update_mode d" "next_addr d' = Suc (next_addr d)"
    "d_heap d' a \<noteq> None" "d_dev d' = d_dev d"
    by (simp_all add: d' a same_disk_def)
  have nb: "node d' b = node d b" if "b \<in> set (lists d k)" for b k
    using linked_fresh[OF l that] by (simp add: d' node_def)
  have p: "part_list d' = part_list d" by (simp add: d')
  show ext: "ped_disk_extended_partition d' = ped_disk_extended_partition d"
    using ext_cong[of d' d] p nb[of _ False] by simp
  show lists: "lists d' = lists d"
  proof
    fix k
    show "lists d' k = lists d k"
    proof (cases "ped_disk_extended_partition d")
      case (Some e)
      then have "e \<in> set (lists d False)" using ext_Some_mem[of d e] by simp
      then have "node d' e = node d e" by (rule nb)
      with Some ext p show ?thesis by (simp add: lists_def)
    qed (use ext p in \<open>simp add: lists_def\<close>)
  qed
  show "linked d'"
    unfolding linked_def lists
  proof (intro conjI allI ballI impI)
    show "distinct (lists d k)" for k by (rule linkedD(1)[OF l])
    fix k b assume b: "b \<in> set (lists d k)"
    show "d_heap d' b \<noteq> None" "is_logical (type_of d' b) = k"
      using linkedD(2,3)[OF l b] nb[OF b] by (simp_all add: d')
  next
    fix b c assume "b \<in> set (part_list d')" "c \<in> set (part_list d')"
      "type_of d' b = PED_PARTITION_EXTENDED" "type_of d' c = PED_PARTITION_EXTENDED"
    then show "b = c" using linkedD(4)[OF l, of b c] p nb[of _ False] by simp
  next
    fix b assume "d_heap d' b \<noteq> None"
    then show "b < next_addr d'" using linkedD(5)[OF l, of b] by (auto simp: d' split: if_splits)
  qed
qed

lemma core_heap: "d_heap d' b = d_heap d b \<Longrightarrow> core d' b = core d b"
  by (simp add: core_def)

text \<open>
  One list after a fill: \<open>mid\<close> replaces \<open>suf\<close>; its new elements are placeholders of type
  \<open>ty\<close>.
\<close>

definition filled ::
    "('x, 'y) PedDisk \<Rightarrow> bool \<Rightarrow> nat \<Rightarrow> addr list \<Rightarrow> addr list \<Rightarrow> addr list \<Rightarrow> ('x, 'y) PedDisk \<Rightarrow> bool"
  where
  "filled d k ty pre suf mid d' \<longleftrightarrow>
     linked d' \<and> lists d' k = pre @ mid \<and> lists d' (\<not> k) = lists d (\<not> k)
     \<and> in_order d' (pre @ mid) \<and> geoms_ok d' (pre @ mid)
     \<and> filter (\<lambda>a. a < next_addr d) mid = suf
     \<and> (\<forall>a \<in> set mid. a < next_addr d \<or> type_of d' a = ty)
     \<and> (\<forall>a < next_addr d. core d' a = core d a)
     \<and> same_disk d d' \<and> update_mode d' = update_mode d \<and> next_addr d \<le> next_addr d'"

lemma filled_refl:
  "linked d \<Longrightarrow> lists d k = pre @ suf \<Longrightarrow> in_order d (pre @ suf) \<Longrightarrow> geoms_ok d (pre @ suf) \<Longrightarrow>
     filled d k ty pre suf suf d"
  using linked_fresh[of d _ k] by (auto simp: filled_def intro!: filter_True)

lemma filled_ext:
  assumes l: "linked d" and f: "filled d True ty pre suf mid d'"
  shows "ped_disk_extended_partition d' = ped_disk_extended_partition d"
proof (rule ext_cong)
  show "part_list d' = part_list d" using f by (simp add: filled_def flip: lists_False)
  fix a assume "a \<in> set (part_list d)"
  then have "a < next_addr d" using linked_fresh[OF l, of a False] by simp
  then show "type_of d' a = type_of d a" using f by (intro core_eqD(2)) (simp add: filled_def)
qed

text \<open>Putting a placeholder between two parts of a list.\<close>

context placeholder_ops begin

lemma placeholder_new:
  assumes "s \<le> e" "ty = PED_PARTITION_FREESPACE \<or> ty = PED_PARTITION_FREESPACE + PED_PARTITION_LOGICAL"
    and "new_placeholder T d ty s e = (d1, f)"
  shows "\<exists>p. alloc_node d p = (d1, f) \<and> p_type p = ty \<and> p_list p = [] \<and>
    p_geom p = \<lparr>g_dev = d_dev d, g_start = s, g_length = e - s + 1, g_end = e\<rparr>"
  using placeholder[OF assms(1,2), of d] assms(3) by (auto simp: new_placeholder_def)

lemma placeholder_linkable:
  assumes l: "linked d" and k: "has_list d k" "ty = (if k then PED_PARTITION_FREESPACE + PED_PARTITION_LOGICAL else PED_PARTITION_FREESPACE)"
    and se: "0 \<le> s" "s \<le> e" and new: "new_placeholder T d ty s e = (d1, f)"
  shows "linked d1" "f = next_addr d" "linkable d1 f" "k = is_logical (type_of d1 f)" "type_of d1 f = ty"
    "lists d1 = lists d" "\<And>b. b < next_addr d \<Longrightarrow> core d1 b = core d b" "same_disk d d1"
    "update_mode d1 = update_mode d" "next_addr d1 = Suc (next_addr d)" "geom_wf (geom_of d1 f)"
    "g_dev (geom_of d1 f) = d_dev d" "g_start (geom_of d1 f) = s" "g_end (geom_of d1 f) = e"
    "ped_disk_extended_partition d1 = ped_disk_extended_partition d" "p_list (node d1 f) = []"
proof -
  obtain p where p: "alloc_node d p = (d1, f)" "p_type p = ty" "p_list p = []"
    "p_geom p = \<lparr>g_dev = d_dev d, g_start = s, g_length = e - s + 1, g_end = e\<rparr>"
    using placeholder_new[OF se(2) _ new] k(2) by (auto split: if_splits)
  note a = alloc_node_props[OF l p(1)]
  show "linked d1" "f = next_addr d" "lists d1 = lists d" "same_disk d d1" "type_of d1 f = ty"
    "update_mode d1 = update_mode d" "next_addr d1 = Suc (next_addr d)"
    "ped_disk_extended_partition d1 = ped_disk_extended_partition d" "p_list (node d1 f) = []"
    using a p by simp_all
  show core: "core d1 b = core d b" if "b < next_addr d" for b
    using a(3)[OF that] by (rule core_heap)
  show kk: "k = is_logical (type_of d1 f)" using a(2) p(2) k(2) by simp
  have "f \<notin> set (lists d1 k)" using linked_fresh[OF l, of f k] a(1,4) by auto
  moreover have "type_of d1 f \<noteq> PED_PARTITION_EXTENDED" using a(2) p(2) k(2) by simp
  ultimately show "linkable d1 f"
    using a(9,10) k(1) kk by (simp add: linkable_def has_list_def)
  show "geom_wf (geom_of d1 f)" "g_dev (geom_of d1 f) = d_dev d" "g_start (geom_of d1 f) = s"
    "g_end (geom_of d1 f) = e"
    using a(2) p(4) se by (simp_all add: geom_wf_def)
qed

text \<open>
  One placeholder, linked somewhere into list \<open>k\<close> (\<open>relinked\<close>), between partitions it fits.
\<close>

lemma placeholder_filled:
  assumes l: "linked d" and k: "has_list d k" "ty = (if k then PED_PARTITION_FREESPACE + PED_PARTITION_LOGICAL else PED_PARTITION_FREESPACE)"
    and xs: "lists d k = pre @ suf" "in_order d (pre @ suf)" "geoms_ok d (pre @ suf)"
    and se: "0 \<le> s" "s \<le> e" and new: "new_placeholder T d ty s e = (d1, f)"
    and pre: "\<And>x. x \<in> set pre \<Longrightarrow> g_end (geom_of d x) < s"
    and suf: "\<And>x. x \<in> set suf \<Longrightarrow> e < g_start (geom_of d x)"
    and rel: "relinked d1 k (pre @ f # suf) d2"
  shows "filled d k ty pre suf (f # suf) d2" "g_start (geom_of d2 f) = s" "g_end (geom_of d2 f) = e"
    "f = next_addr d"
proof -
  note p = placeholder_linkable[OF l k se new]
  have r: "linked d2" "lists d2 k = pre @ f # suf" "lists d2 (\<not> k) = lists d (\<not> k)"
    "core d2 = core d1" "same_disk d1 d2" "update_mode d2 = update_mode d1"
    "next_addr d2 = next_addr d1"
    using rel p(6) by (simp_all add: relinked_def)
  have c: "core d2 b = core d b" if "b < next_addr d" for b using r(4) p(7)[OF that] by simp
  have old: "b < next_addr d" if "b \<in> set (pre @ suf)" for b
    using linked_fresh[OF l] xs(1) that by metis
  have g: "geom_of d2 b = geom_of d b" if "b \<in> set (pre @ suf)" for b
    using core_eqD(1)[OF c[OF old[OF that]]] .
  have gf: "geom_of d2 f = geom_of d1 f" "type_of d2 f = type_of d1 f"
    using core_eqD(1,2)[of d2 f d1] r(4) by simp_all
  show "g_start (geom_of d2 f) = s" "g_end (geom_of d2 f) = e" "f = next_addr d"
    using gf p(2,13,14) by simp_all
  have ord: "in_order d2 (pre @ suf)" using in_order_cong[of "pre @ suf" d2 d] g xs(2) by blast
  have "in_order d2 (pre @ f # suf)"
    using ord pre suf gf p(13,14) g by (auto simp: sorted_wrt_append before_def)
  moreover have "geoms_ok d2 (pre @ f # suf)"
    using xs(3) g gf p(11,12) r(5) p(8) by (auto simp: geoms_ok_def same_disk_def)
  moreover have "filter (\<lambda>a. a < next_addr d) (f # suf) = suf"
    using old p(2) by (auto intro!: filter_True)
  ultimately show "filled d k ty pre suf (f # suf) d2"
    using r c p(2,5,8,9,10) gf old by (auto simp: filled_def intro: same_disk_trans)
qed

end

lemma filled_trans:
  assumes f: "filled d k ty pre suf (us @ vs) d1" and us: "filter (\<lambda>a. a < next_addr d) us = us'"
    and suf: "suf = us' @ vs" and g: "filled d1 k ty (pre @ us) vs mid d2"
  shows "filled d k ty pre suf (us @ mid) d2"
proof -
  have le: "next_addr d \<le> next_addr d1" using f by (simp add: filled_def)
  have vs: "filter (\<lambda>a. a < next_addr d) vs = vs" using f us suf by (simp add: filled_def)
  have "filter (\<lambda>a. a < next_addr d) mid = filter (\<lambda>a. a < next_addr d) (filter (\<lambda>a. a < next_addr d1) mid)"
    using le by (auto simp: filter_filter intro!: filter_cong)
  also have "\<dots> = vs" using g vs by (simp add: filled_def)
  finally have "filter (\<lambda>a. a < next_addr d) (us @ mid) = suf" using us suf by simp
  moreover have "a < next_addr d \<or> type_of d2 a = ty" if "a \<in> set (us @ mid)" for a
  proof (cases "a < next_addr d1")
    case True
    then have t: "type_of d2 a = type_of d1 a"
      using g by (intro core_eqD(2)) (simp add: filled_def)
    have "a \<in> set us \<or> a \<in> set vs"
      using that True g by (auto simp: filled_def)
    then show ?thesis using f t by (auto simp: filled_def)
  next
    case False
    then have "a \<in> set mid"
      using that f linked_fresh[of d1 a k] by (auto simp: filled_def)
    with False g show ?thesis by (auto simp: filled_def)
  qed
  moreover have "core d2 a = core d a" if "a < next_addr d" for a
    using that le f g by (simp add: filled_def)
  ultimately show ?thesis
    using f g unfolding filled_def by (auto intro: same_disk_trans)
qed

section \<open>Filling the gaps of a list\<close>

context placeholder_ops begin

lemma fill_gaps_spec:
  assumes l: "linked d" and k: "has_list d k" "ty = (if k then PED_PARTITION_FREESPACE + PED_PARTITION_LOGICAL else PED_PARTITION_FREESPACE)"
    and xs: "lists d k = pre @ suf" "in_order d (pre @ suf)" "geoms_ok d (pre @ suf)"
    and pre: "\<And>x. x \<in> set pre \<Longrightarrow> g_end (geom_of d x) \<le> le" and le: "- 1 \<le> le"
    and lo: "lo \<le> le" "\<And>x. x \<in> set suf \<Longrightarrow> lo \<le> g_end (geom_of d x)"
  shows "\<exists>mid. filled d k ty pre suf mid (fst (fill_gaps T ty suf (d, le)))
    \<and> gapless (fst (fill_gaps T ty suf (d, le))) le mid
    \<and> snd (fill_gaps T ty suf (d, le)) = end_of d le suf
    \<and> end_of (fst (fill_gaps T ty suf (d, le))) le mid = end_of d le suf
    \<and> (mid = [] \<longleftrightarrow> suf = []) \<and> (suf \<noteq> [] \<longrightarrow> last mid = last suf)
    \<and> (\<forall>x \<in> set mid. x < next_addr d \<or>
         lo < g_start (geom_of (fst (fill_gaps T ty suf (d, le))) x))"
  using l k(1) xs pre le lo
proof (induction suf arbitrary: d pre le)
  case Nil
  then show ?case
    by (intro exI[of _ "[]"]) (auto simp: fill_gaps_def intro!: filled_refl)
next
  case (Cons a suf)
  note l = Cons.prems(1) and kl = Cons.prems(2) and xs = Cons.prems(3-5)
  define d2 where "d2 = fst (fill_gap T ty a (d, le))"
  have a: "geom_wf (geom_of d a)" using xs(3) by (simp add: geoms_ok_def)
  then have wa: "g_start (geom_of d a) \<le> g_end (geom_of d a)" "0 \<le> g_start (geom_of d a)"
    by (auto simp: geom_wf_def)
  have after: "g_start (geom_of d a) \<le> g_start (geom_of d x)" if "x \<in> set (a # suf)" for x
    using xs(2) that wa by (auto simp: sorted_wrt_append before_def)
  have step: "\<exists>us. filled d k ty pre (a # suf) (us @ suf) d2
      \<and> filter (\<lambda>a. a < next_addr d) us = [a] \<and> gapless d2 le us \<and> last us = a \<and> us \<noteq> []
      \<and> fill_gap T ty a (d, le) = (d2, g_end (geom_of d a))
      \<and> (\<forall>x \<in> set us. g_end (geom_of d2 x) \<le> g_end (geom_of d a))
      \<and> (\<forall>x \<in> set us. x < next_addr d \<or> lo < g_start (geom_of d2 x))"
  proof (cases "g_start (geom_of d a) > le + 1")
    case False
    then have fg: "fill_gap T ty a (d, le) = (d, g_end (geom_of d a))"
      by (simp add: fill_gap_def)
    then have d2: "d2 = d" by (simp add: d2_def)
    have "a < next_addr d" using linked_fresh[OF l, of a k] xs(1) by simp
    then show ?thesis
      using filled_refl[OF l xs] False fg unfolding d2 by (intro exI[of _ "[a]"]) simp
  next
    case True
    obtain d1 f where new: "new_placeholder T d ty (le + 1) (g_start (geom_of d a) - 1) = (d1, f)"
      by fastforce
    have se: "0 \<le> le + 1" "le + 1 \<le> g_start (geom_of d a) - 1" using True Cons.prems(7) by simp_all
    note p = placeholder_linkable[OF l kl k(2) se new]
    have rel: "relinked d1 k (pre @ f # a # suf) (disk_raw_insert_before d1 a f)"
      using raw_insert_before_relinked[OF p(1,3,4), of pre a suf] p(6) xs(1) by simp
    have "fst (fill_gap T ty a (d, le)) = disk_raw_insert_before d1 a f"
      using True new by (simp add: fill_gap_def Let_def)
    then have d2: "d2 = disk_raw_insert_before d1 a f" by (simp add: d2_def)
    have pre': "g_end (geom_of d x) < le + 1" if "x \<in> set pre" for x using Cons.prems(6)[OF that] by simp
    have suf': "g_start (geom_of d a) - 1 < g_start (geom_of d x)" if "x \<in> set (a # suf)" for x
      using after[OF that] by simp
    note fl = placeholder_filled[OF l kl k(2) xs se new pre' suf' rel]
    have old: "a < next_addr d" using linked_fresh[OF l, of a k] xs(1) by simp
    have ga: "geom_of d2 a = geom_of d a"
      using fl(1) old by (intro core_eqD(1)) (simp add: filled_def d2)
    have "fill_gap T ty a (d, le) = (d2, g_end (geom_of d a))"
      using True new ga by (simp add: fill_gap_def Let_def d2)
    then show ?thesis
      using fl old ga wa Cons.prems(8) by (intro exI[of _ "[f, a]"]) (simp add: d2)
  qed
  then obtain us where us: "filled d k ty pre (a # suf) (us @ suf) d2"
    "filter (\<lambda>a. a < next_addr d) us = [a]" "gapless d2 le us" "last us = a" "us \<noteq> []"
    "fill_gap T ty a (d, le) = (d2, g_end (geom_of d a))"
    "\<And>x. x \<in> set us \<Longrightarrow> g_end (geom_of d2 x) \<le> g_end (geom_of d a)"
    "\<And>x. x \<in> set us \<Longrightarrow> x < next_addr d \<or> lo < g_start (geom_of d2 x)" by blast
  have f2: "linked d2" "lists d2 k = (pre @ us) @ suf" "in_order d2 ((pre @ us) @ suf)"
    "geoms_ok d2 ((pre @ us) @ suf)" using us(1) by (simp_all add: filled_def)
  have hl2: "has_list d2 k"
  proof (cases k)
    case True
    with us(1) filled_ext[OF l, of ty pre "a # suf" "us @ suf" d2] kl show ?thesis by (simp add: has_list_def)
  qed (simp add: has_list_def)
  have gg: "geom_of d2 x = geom_of d x" if "x \<in> set (pre @ a # suf)" for x
    using us(1) linked_fresh[OF l, of x k] xs(1) that by (intro core_eqD(1)) (auto simp: filled_def)
  have pre2: "g_end (geom_of d2 x) \<le> g_end (geom_of d a)" if "x \<in> set (pre @ us)" for x
  proof (cases "x \<in> set pre")
    case True
    then have "before d x a" using xs(2) by (simp add: sorted_wrt_append)
    with True show ?thesis using gg[of x] wa by (simp add: before_def)
  qed (use that us(7) in auto)
  have le2: "- 1 \<le> g_end (geom_of d a)" using wa by simp
  have lo2: "lo \<le> g_end (geom_of d a)" "lo \<le> g_end (geom_of d2 x)" if "x \<in> set suf" for x
    using Cons.prems(9)[of a] Cons.prems(9)[of x] gg[of x] that by auto
  have lo1: "lo \<le> g_end (geom_of d a)" using Cons.prems(9)[of a] by simp
  let ?r = "fill_gaps T ty suf (d2, g_end (geom_of d a))"
  obtain mid where mid: "filled d2 k ty (pre @ us) suf mid (fst ?r)"
    "gapless (fst ?r) (g_end (geom_of d a)) mid" "snd ?r = end_of d2 (g_end (geom_of d a)) suf"
    "end_of (fst ?r) (g_end (geom_of d a)) mid = end_of d2 (g_end (geom_of d a)) suf"
    "mid = [] \<longleftrightarrow> suf = []" "suf \<noteq> [] \<Longrightarrow> last mid = last suf"
    "\<And>x. x \<in> set mid \<Longrightarrow> x < next_addr d2 \<or> lo < g_start (geom_of (fst ?r) x)"
    using Cons.IH[OF f2(1) hl2 f2(2-4) pre2 le2 lo1 lo2(2)] by blast
  have r: "fill_gaps T ty (a # suf) (d, le) = ?r" using us(6) by (simp add: fill_gaps_def)
  have e: "end_of d2 (g_end (geom_of d a)) suf = end_of d (g_end (geom_of d a)) suf"
    by (rule end_of_cong) (simp add: gg)
  have gr: "geom_of (fst ?r) x = geom_of d2 x" if "x \<in> set us" for x
    using mid(1) linked_fresh[OF f2(1), of x k] f2(2) that by (intro core_eqD(1)) (auto simp: filled_def)
  have "end_of (fst ?r) le us = g_end (geom_of d a)"
    using us(4,5) gr[of a] gg[of a] by (auto simp: end_of_def)
  moreover have "gapless (fst ?r) le us" using gapless_cong[of us "fst ?r" d2] gr us(3) by blast
  ultimately have "gapless (fst ?r) le (us @ mid)"
    "end_of (fst ?r) le (us @ mid) = end_of d (g_end (geom_of d a)) suf"
    using mid(2,4) e by (simp_all add: gapless_append end_of_append)
  moreover have "filled d k ty pre (a # suf) (us @ mid) (fst ?r)"
    using filled_trans[OF us(1,2) _ mid(1)] by simp
  moreover have "x < next_addr d \<or> lo < g_start (geom_of (fst ?r) x)" if x: "x \<in> set (us @ mid)" for x
  proof (cases "x \<in> set us")
    case True
    then show ?thesis using us(8) gr by metis
  next
    case False
    show ?thesis
    proof (cases "x < next_addr d2")
      case True
      then have "x \<in> set suf" using False x mid(1) by (auto simp: filled_def)
      then show ?thesis using linked_fresh[OF l, of x k] xs(1) by simp
    qed (use False x mid(7) in auto)
  qed
  ultimately show ?case
    unfolding r using mid(3,5,6) e us(4,5) by (intro exI[of _ "us @ mid"]) auto
qed

lemma close_gap:
  assumes l: "linked d" and k: "has_list d k" "ty = (if k then PED_PARTITION_FREESPACE + PED_PARTITION_LOGICAL else PED_PARTITION_FREESPACE)"
    and xs: "in_order d (lists d k)" "geoms_ok d (lists d k)"
    and le: "- 1 \<le> le" "le < hi" "end_of d le (lists d k) = le"
    and new: "new_placeholder T d ty (le + 1) hi = (d1, f)"
    and d2: "d2 = (if lists d k \<noteq> [] then disk_raw_insert_after d1 (last (lists d k)) f
                   else set_list_for ty [f] d1)"
  shows "filled d k ty (lists d k) [] [f] d2" "g_start (geom_of d2 f) = le + 1"
    "g_end (geom_of d2 f) = hi"
proof -
  let ?L = "lists d k"
  have se: "0 \<le> le + 1" "le + 1 \<le> hi" using le by simp_all
  note p = placeholder_linkable[OF l k se new]
  have rel: "relinked d1 k (?L @ f # []) d2"
  proof (cases "?L = []")
    case True
    have "k = is_logical ty" using p(4,5) by simp
    from linkable_relinked[OF p(1,3,4) this, of "[]" "[]"] p(6) True show ?thesis by (simp add: d2)
  next
    case False
    then have "lists d1 k = butlast ?L @ last ?L # []" using p(6) by simp
    from raw_insert_after_relinked[OF p(1,3,4) this] have
      "relinked d1 k (butlast ?L @ last ?L # f # []) d2" using False by (simp add: d2)
    moreover have "butlast ?L @ last ?L # f # [] = ?L @ [f]"
      using False by (metis append.assoc append_Cons append_Nil append_butlast_last_id)
    ultimately show ?thesis by simp
  qed
  have ends: "g_end (geom_of d x) < le + 1" if x: "x \<in> set ?L" for x
  proof -
    have ne: "?L \<noteq> []" using x by auto
    have last: "g_end (geom_of d (last ?L)) = le" using le(3) ne by (simp add: end_of_def)
    show ?thesis
    proof (cases "x = last ?L")
      case False
      have "?L = butlast ?L @ [last ?L]" using ne by simp
      then have "in_order d (butlast ?L @ [last ?L])" "x \<in> set (butlast ?L @ [last ?L])"
        using xs(1) x by simp_all
      then have "before d x (last ?L)" using False by (auto simp: sorted_wrt_append)
      moreover have "g_start (geom_of d (last ?L)) \<le> g_end (geom_of d (last ?L))"
        using xs(2) ne geom_wf_nonempty by (auto simp: geoms_ok_def)
      ultimately show ?thesis using last by (simp add: before_def)
    qed (use last in simp)
  qed
  have sorted: "lists d k = ?L @ []" "in_order d (?L @ [])" "geoms_ok d (?L @ [])"
    using xs by simp_all
  show "filled d k ty ?L [] [f] d2" "g_start (geom_of d2 f) = le + 1" "g_end (geom_of d2 f) = hi"
    using placeholder_filled[OF l k sorted se new ends _ rel] by simp_all
qed

text \<open>
  The whole of one list: the gaps from \<open>le\<close> to \<open>hi\<close> are filled, nothing else changes.
\<close>

lemma fill_list:
  assumes l: "linked d" and k: "has_list d k" "ty = (if k then PED_PARTITION_FREESPACE + PED_PARTITION_LOGICAL else PED_PARTITION_FREESPACE)"
    and xs: "in_order d (lists d k)" "geoms_ok d (lists d k)" and le: "- 1 \<le> le"
    and fl: "fill_gaps T ty (lists d k) (d, le) = (d1, last_end)"
    and d3: "d3 = (if last_end < hi then
        let (d2, f) = new_placeholder T d1 ty (last_end + 1) hi
        in if lists d k \<noteq> [] then disk_raw_insert_after d2 (last (lists d k)) f
           else set_list_for ty [f] d2
      else d1)"
    and lo: "\<And>x. x \<in> set (lists d k) \<Longrightarrow> le \<le> g_end (geom_of d x)"
  shows "\<exists>mid. filled d k ty [] (lists d k) mid d3 \<and> gapless d3 le mid
    \<and> end_of d3 le mid = max hi (end_of d le (lists d k))
    \<and> (\<forall>x \<in> set mid. x < next_addr d \<or> le < g_start (geom_of d3 x))"
proof -
  let ?L = "lists d k"
  have s: "lists d k = [] @ ?L" "in_order d ([] @ ?L)" "geoms_ok d ([] @ ?L)" using xs by simp_all
  obtain mid where mid: "filled d k ty [] ?L mid d1" "gapless d1 le mid" "last_end = end_of d le ?L"
    "end_of d1 le mid = end_of d le ?L" "mid = [] \<longleftrightarrow> ?L = []" "?L \<noteq> [] \<Longrightarrow> last mid = last ?L"
    "\<And>x. x \<in> set mid \<Longrightarrow> x < next_addr d \<or> le < g_start (geom_of d1 x)"
    using fill_gaps_spec[OF l k s _ le order_refl lo] fl by auto
  show ?thesis
  proof (cases "last_end < hi")
    case False
    then show ?thesis using mid d3 by (intro exI[of _ mid]) simp
  next
    case True
    obtain d2 f where new: "new_placeholder T d1 ty (last_end + 1) hi = (d2, f)" by fastforce
    have d3': "d3 = (if lists d1 k \<noteq> [] then disk_raw_insert_after d2 (last (lists d1 k)) f
                   else set_list_for ty [f] d2)"
      using d3 new True mid by (auto simp: filled_def)
    have f1: "linked d1" "in_order d1 (lists d1 k)" "geoms_ok d1 (lists d1 k)" "lists d1 k = mid"
      using mid(1) by (simp_all add: filled_def)
    have hl: "has_list d1 k"
      using k(1) filled_ext[OF l, of ty "[]" ?L mid d1] mid(1) by (cases k) (simp_all add: has_list_def)
    have le1: "- 1 \<le> last_end" "end_of d1 last_end (lists d1 k) = last_end"
    proof -
      show "- 1 \<le> last_end"
      proof (cases "?L = []")
        case False
        then have "geom_wf (geom_of d (last ?L))" using xs(2) by (simp add: geoms_ok_def)
        then show ?thesis using mid(3) False by (auto simp: end_of_def geom_wf_def)
      qed (use mid(3) le in simp)
      show "end_of d1 last_end (lists d1 k) = last_end"
        using mid f1(4) by (auto simp: end_of_def)
    qed
    note c = close_gap[OF f1(1) hl k(2) f1(2,3) le1(1) True le1(2) new d3']
    have g: "geom_of d3 x = geom_of d1 x" if "x \<in> set mid" for x
      using c(1) linked_fresh[OF f1(1), of x k] that f1(4)
      by (intro core_eqD(1)) (auto simp: filled_def)
    have "filled d k ty [] ?L (mid @ [f]) d3"
      by (rule filled_trans[of _ _ _ _ _ mid "[]", where us' = ?L])
        (use mid(1) c(1) f1(4) in \<open>auto simp: filled_def\<close>)
    moreover have "gapless d3 le (mid @ [f])"
      using mid gapless_cong[of mid d3 d1] end_of_cong[of mid d3 d1] g c(2) by (simp add: gapless_append)
    moreover have "end_of d3 le (mid @ [f]) = max hi (end_of d le ?L)"
      using c(3) True mid(3) by (simp add: end_of_append)
    moreover have "le \<le> last_end"
      using mid(3) lo[of "last ?L"] by (auto simp: end_of_def)
    then have "x < next_addr d \<or> le < g_start (geom_of d3 x)" if "x \<in> set (mid @ [f])" for x
      using that mid(7)[of x] g[of x] c(2) by auto
    ultimately show ?thesis by blast
  qed
qed

end

end
