(* ===== verification/Disk_Table.thy ===== *)
theory Disk_Table
  imports Disk_Free
begin

text \<open>
  The invariant of a partition table (\<open>table_ok\<close>), what leaving update mode establishes
  (\<open>tiled\<close>), and the transition between the two modes.
\<close>

section \<open>The invariant\<close>

text \<open>Logical partitions lie inside the extended partition.\<close>

definition logicals_inside :: "('x, 'y) PedDisk \<Rightarrow> bool" where
  "logicals_inside d \<longleftrightarrow> (\<forall>e a. ped_disk_extended_partition d = Some e \<longrightarrow> a \<in> set (lists d True) \<longrightarrow>
     ped_geometry_test_inside (geom_of d e) (geom_of d a))"

definition table_ok :: "dev_table \<Rightarrow> ('x, 'y) PedDisk \<Rightarrow> bool" where
  "table_ok devs d \<longleftrightarrow>
     linked d \<and> (\<forall>k. in_order d (lists d k) \<and> geoms_ok d (lists d k)) \<and> logicals_inside d
     \<and> 0 < dev_length (devs (d_dev d))
     \<and> (\<forall>a \<in> set (part_list d). g_end (geom_of d a) < dev_length (devs (d_dev d)))"

text \<open>The list of the disk tiles the device, that of the extended partition its interior.\<close>

definition tiled :: "dev_table \<Rightarrow> ('x, 'y) PedDisk \<Rightarrow> bool" where
  "tiled devs d \<longleftrightarrow>
     gapless d (- 1) (part_list d) \<and> end_of d (- 1) (part_list d) = dev_length (devs (d_dev d)) - 1
     \<and> (\<forall>e. ped_disk_extended_partition d = Some e \<longrightarrow>
          gapless d (g_start (geom_of d e)) (lists d True) \<and>
          end_of d (g_start (geom_of d e)) (lists d True) = g_end (geom_of d e))"

definition nonfree :: "('x, 'y) PedDisk \<Rightarrow> bool \<Rightarrow> addr list" where
  "nonfree d k = filter (\<lambda>a. \<not> is_free (type_of d a)) (lists d k)"

lemma table_okD:
  assumes "table_ok devs d"
  shows "linked d" "in_order d (lists d k)" "geoms_ok d (lists d k)" "logicals_inside d"
    "0 < dev_length (devs (d_dev d))"
    "a \<in> set (part_list d) \<Longrightarrow> g_end (geom_of d a) < dev_length (devs (d_dev d))"
  using assms by (auto simp: table_ok_def)

lemma in_order_filter: "in_order d xs \<Longrightarrow> in_order d (filter P xs)"
  by (rule sorted_wrt_filter)

lemma geoms_ok_filter: "geoms_ok d xs \<Longrightarrow> geoms_ok d (filter P xs)"
  by (auto simp: geoms_ok_def)

lemma geoms_ok_cong:
  assumes "\<And>a. a \<in> set xs \<Longrightarrow> geom_of d' a = geom_of d a" "d_dev d' = d_dev d"
  shows "geoms_ok d' xs \<longleftrightarrow> geoms_ok d xs"
  using assms by (simp add: geoms_ok_def)

text \<open>A change that keeps the cores of a sublist of the partitions.\<close>

lemma table_ok_sub:
  assumes ok: "table_ok devs d" and l: "linked d'" and sub: "\<And>k. lists d' k = filter (P k) (lists d k)"
    and core: "\<And>k a. a \<in> set (lists d' k) \<Longrightarrow> core d' a = core d a" and dev: "d_dev d' = d_dev d"
  shows "table_ok devs d'"
proof -
  note t = table_okD[OF ok]
  have g: "geom_of d' a = geom_of d a" "type_of d' a = type_of d a" if "a \<in> set (lists d' k)" for a k
    using core_eqD(1,2)[OF core[OF that]] .
  have part: "part_list d' = filter (P False) (part_list d)" using sub[of False] by simp
  have "in_order d' (lists d' k)" for k
    using in_order_cong[of "lists d' k" d' d] g(1) in_order_filter[OF t(2), of "P k" k] sub by metis
  moreover have "geoms_ok d' (lists d' k)" for k
    using geoms_ok_cong[of "lists d' k" d' d] g(1) geoms_ok_filter[OF t(3), of "P k" k] sub dev by metis
  moreover have "logicals_inside d'"
    unfolding logicals_inside_def
  proof (intro allI impI)
    fix e a assume e: "ped_disk_extended_partition d' = Some e" and a: "a \<in> set (lists d' True)"
    have e': "e \<in> set (lists d' False)" "type_of d' e = PED_PARTITION_EXTENDED"
      using ext_Some_mem[OF e] by simp_all
    then have "e \<in> set (part_list d)" using part by simp
    then have "ped_disk_extended_partition d = Some e"
      using ext_Some_iff[OF t(1)] e'(2) g(2)[OF e'(1)] by simp
    moreover have "a \<in> set (lists d True)" using a sub by simp
    ultimately show "ped_geometry_test_inside (geom_of d' e) (geom_of d' a)"
      using t(4) g(1)[OF e'(1)] g(1)[OF a] by (simp add: logicals_inside_def)
  qed
  moreover have "g_end (geom_of d' a) < dev_length (devs (d_dev d'))" if "a \<in> set (part_list d')" for a
    using t(6)[of a] that part dev g(1)[of a False] by simp
  ultimately show ?thesis using l t(5) dev by (simp add: table_ok_def)
qed

lemma filtered_core:
  assumes "linked d" "filtered d C d'" "a \<in> set (lists d' k)"
  shows "core d' a = core d a"
  using assms by (auto simp: filtered_def)

lemma table_ok_filtered:
  assumes ok: "table_ok devs d" and f: "filtered d C d'"
  shows "table_ok devs d'"
  using table_ok_sub[OF ok, of d' "\<lambda>k a. \<not> C (type_of d a)"] f
    filtered_core[OF table_okD(1)[OF ok] f]
  by (auto simp: filtered_def same_disk_def)

lemma push_table_ok:
  assumes ok: "table_ok devs d" and m: "update_mode d = 0"
  shows "table_ok devs (disk_push_update_mode T d)"
proof -
  note p = push_spec[OF table_okD(1)[OF ok] m, where T = T]
  show ?thesis
  proof (rule table_ok_sub[OF ok p(1)])
    show "lists (disk_push_update_mode T d) k = filter (\<lambda>a. is_active (type_of d a)) (lists d k)" for k
      using p(2) by (simp add: actives_def)
    show "core (disk_push_update_mode T d) a = core d a"
      if "a \<in> set (lists (disk_push_update_mode T d) k)" for a k
      using that p(2) by (intro p(3)) (auto simp: actives_def)
    show "d_dev (disk_push_update_mode T d) = d_dev d" using p(4) by (simp add: same_disk_def)
  qed
qed

section \<open>Leaving update mode\<close>

lemma filled_old: "filled d k ty pre suf mid d' \<Longrightarrow> filter (\<lambda>a. a < next_addr d) mid = suf"
  by (simp add: filled_def)

lemma filled_mem:
  "filled d k ty pre suf mid d' \<Longrightarrow> a \<in> set suf \<longleftrightarrow> a \<in> set mid \<and> a < next_addr d"
  using filled_old[of d k ty pre suf mid d'] by auto

lemma filled_types:
  assumes l: "linked d" and f: "filled d k ty [] (lists d k) mid d'"
    and free: "is_free ty" "\<And>a. a \<in> set (lists d k) \<Longrightarrow> \<not> is_free (type_of d a)"
  shows "nonfree d' k = lists d k"
proof -
  have "\<not> is_free (type_of d' a) \<longleftrightarrow> a < next_addr d" if a: "a \<in> set mid" for a
  proof (cases "a < next_addr d")
    case True
    then have "a \<in> set (lists d k)" using filled_mem[OF f] a by simp
    moreover have "type_of d' a = type_of d a"
      using f True by (intro core_eqD(2)) (simp add: filled_def)
    ultimately show ?thesis using free(2) True by simp
  next
    case False
    then show ?thesis using f a free(1) by (auto simp: filled_def)
  qed
  then have "filter (\<lambda>a. \<not> is_free (type_of d' a)) mid = filter (\<lambda>a. a < next_addr d) mid"
    by (intro filter_cong) auto
  moreover have "lists d' k = mid" using f by (simp add: filled_def)
  ultimately show ?thesis using filled_old[OF f] by (simp add: nonfree_def)
qed

lemma filled_other:
  assumes l: "linked d" and f: "filled d k ty pre suf mid d'" and a: "a \<in> set (lists d j)"
  shows "core d' a = core d a" "geom_of d' a = geom_of d a" "type_of d' a = type_of d a"
proof -
  show c: "core d' a = core d a" using f linked_fresh[OF l a] by (simp add: filled_def)
  show "geom_of d' a = geom_of d a" "type_of d' a = type_of d a" using core_eqD(1,2)[OF c] .
qed

lemma filled_mem_cases:
  assumes f: "filled d k ty [] suf mid d'" and a: "a \<in> set mid"
  obtains "a \<in> set suf" | "type_of d' a = ty" "a \<notin> set suf"
proof (cases "a < next_addr d")
  case True
  then show thesis using that filled_mem[OF f] a by blast
next
  case False
  moreover have "type_of d' a = ty" using f a False by (auto simp: filled_def)
  ultimately show thesis using that filled_mem[OF f] by blast
qed

lemma end_max:
  assumes "in_order d xs" "geoms_ok d xs" "a \<in> set xs"
  shows "g_end (geom_of d a) \<le> end_of d le xs"
  using assms
proof (induction xs arbitrary: le)
  case (Cons x xs)
  show ?case
  proof (cases "xs = []")
    case False
    then have l: "before d x (last xs)" "geom_wf (geom_of d (last xs))"
      using Cons.prems by (auto simp: geoms_ok_def)
    have "a = x \<or> a \<in> set xs" using Cons.prems by auto
    moreover have "g_end (geom_of d a) \<le> end_of d (g_end (geom_of d x)) xs" if "a \<in> set xs"
      using Cons that by (auto simp: geoms_ok_def)
    ultimately show ?thesis
      using l False geom_wf_nonempty[OF l(2)] by (auto simp: end_of_def before_def)
  qed (use Cons.prems in simp)
qed simp

context placeholder_ops begin

lemma fill_whole:
  assumes l: "linked d" and k: "has_list d k" "ty = (if k then PED_PARTITION_FREESPACE + PED_PARTITION_LOGICAL else PED_PARTITION_FREESPACE)"
    and xs: "in_order d (lists d k)" "geoms_ok d (lists d k)" and le: "- 1 \<le> le"
    and fl: "fill_gaps T ty (lists d k) (d, le) = (d1, last_end)"
    and lo: "\<And>x. x \<in> set (lists d k) \<Longrightarrow> le \<le> g_end (geom_of d x)"
  shows "filled d k ty [] (lists d k) (lists d1 k) d1" "last_end = end_of d le (lists d k)" "le \<le> last_end"
proof -
  let ?L = "lists d k"
  have s: "lists d k = [] @ ?L" "in_order d ([] @ ?L)" "geoms_ok d ([] @ ?L)" using xs by simp_all
  obtain mid where mid: "filled d k ty [] ?L mid d1" "last_end = end_of d le ?L"
    using fill_gaps_spec[OF l k s _ le order_refl lo] fl by auto
  moreover have "mid = lists d1 k" using mid(1) by (simp add: filled_def)
  ultimately show "filled d k ty [] ?L (lists d1 k) d1" "last_end = end_of d le ?L" by simp_all
  then show "le \<le> last_end" using lo[of "last ?L"] by (auto simp: end_of_def)
qed

lemma alloc_extended_spec:
  assumes ok: "table_ok devs d" and free: "\<And>k a. a \<in> set (lists d k) \<Longrightarrow> \<not> is_free (type_of d a)"
  defines "d' \<equiv> alloc_extended_freespace T d"
  shows "table_ok devs d' \<and> part_list d' = part_list d \<and> nonfree d' True = lists d True
    \<and> (\<forall>e. ped_disk_extended_partition d' = Some e \<longrightarrow>
          gapless d' (g_start (geom_of d' e)) (lists d' True) \<and>
          end_of d' (g_start (geom_of d' e)) (lists d' True) = g_end (geom_of d' e))
    \<and> (\<forall>a < next_addr d. core d' a = core d a) \<and> same_disk d d' \<and> update_mode d' = update_mode d
    \<and> ped_disk_extended_partition d' = ped_disk_extended_partition d \<and> next_addr d \<le> next_addr d'"
proof (cases "ped_disk_extended_partition d")
  case None
  then have "d' = d" by (simp add: d'_def alloc_extended_freespace_def)
  then show ?thesis using None ok by (simp add: nonfree_def lists_def)
next
  case (Some e)
  note t = table_okD[OF ok]
  let ?ty = "PED_PARTITION_FREESPACE + PED_PARTITION_LOGICAL" and ?L = "lists d True"
  have L: "?L = p_list (node d e)" using Some by (simp add: lists_def)
  have e: "e \<in> set (part_list d)" "type_of d e = PED_PARTITION_EXTENDED" using ext_Some_mem[OF Some] by simp_all
  have ge: "0 \<le> g_start (geom_of d e)" "g_start (geom_of d e) \<le> g_end (geom_of d e)"
    using t(3)[of False] e(1) by (auto simp: geoms_ok_def geom_wf_def)
  obtain d1 le where fl: "fill_gaps T ?ty ?L (d, g_start (geom_of d e)) = (d1, le)" by fastforce
  have hl: "has_list d True" using Some by (simp add: has_list_def)
  have ty: "?ty = (if True then ?ty else PED_PARTITION_FREESPACE)" by simp
  have inside: "g_end (geom_of d a) \<le> g_end (geom_of d e) \<and> g_start (geom_of d e) \<le> g_start (geom_of d a)
      \<and> g_dev (geom_of d e) = g_dev (geom_of d a)" if "a \<in> set ?L" for a
    using t(4) Some that by (auto simp: logicals_inside_def ped_geometry_test_inside_def split: if_splits)
  have lo: "g_start (geom_of d e) \<le> g_end (geom_of d a)" if "a \<in> set ?L" for a
    using inside[OF that] t(3)[of True] that by (auto simp: geoms_ok_def dest!: bspec geom_wf_nonempty)
  have le0: "- 1 \<le> g_start (geom_of d e)" using ge by simp
  note f1 = fill_whole(1)[OF t(1) hl ty t(2,3) le0 fl lo] and le = fill_whole(3)[OF t(1) hl ty t(2,3) le0 fl lo]
  have ext1: "ped_disk_extended_partition d1 = Some e" using filled_ext[OF t(1) f1] Some by simp
  have e1: "geom_of d1 e = geom_of d e" using filled_other(2)[OF t(1) f1, of e False] e(1) by simp
  have d': "d' = (if le < g_end (geom_of d e) then
        let (d2, f) = new_placeholder T d1 ?ty (le + 1) (g_end (geom_of d e))
        in if ?L \<noteq> [] then disk_raw_insert_after d2 (last ?L) f else set_list_for ?ty [f] d2
      else d1)"
  proof -
    have "upd_node e (\<lambda>p. p\<lparr>p_list := [f]\<rparr>) d2 = set_list_for ?ty [f] d2"
      if "new_placeholder T d1 ?ty (le + 1) (g_end (geom_of d e)) = (d2, f)" "le < g_end (geom_of d e)" for d2 f
    proof -
      have "0 \<le> le + 1" using le ge(1) by simp
      have "ped_disk_extended_partition d2 = Some e"
        using placeholder_linkable(15)[of d1 True ?ty "le + 1" "g_end (geom_of d e)" d2 f] that ext1 f1 \<open>0 \<le> le + 1\<close>
        by (simp add: filled_def has_list_def)
      then show ?thesis by (simp add: set_list_for_def)
    qed
    then show ?thesis
      using Some fl L e1 by (auto simp: d'_def alloc_extended_freespace_def Let_def split: prod.splits)
  qed
  obtain mid where mid: "filled d True ?ty [] ?L mid d'" "gapless d' (g_start (geom_of d e)) mid"
    "end_of d' (g_start (geom_of d e)) mid = max (g_end (geom_of d e)) (end_of d (g_start (geom_of d e)) ?L)"
    "\<And>x. x \<in> set mid \<Longrightarrow> x < next_addr d \<or> g_start (geom_of d e) < g_start (geom_of d' x)"
    using fill_list[OF t(1) hl ty t(2,3) le0 fl d' lo] by auto
  have end_eq: "end_of d' (g_start (geom_of d e)) mid = g_end (geom_of d e)"
    using mid(3) inside[of "last ?L"] ge(2) by (auto simp: end_of_def)
  have ext': "ped_disk_extended_partition d' = Some e" using filled_ext[OF t(1) mid(1)] Some by simp
  have part: "part_list d' = part_list d" using mid(1) by (simp add: filled_def flip: lists_False)
  have m: "lists d' True = mid" "linked d'" "in_order d' mid" "geoms_ok d' mid" "same_disk d d'"
    "update_mode d' = update_mode d" "next_addr d \<le> next_addr d'" "\<forall>a < next_addr d. core d' a = core d a"
    using mid(1) by (simp_all add: filled_def)
  have gp: "geom_of d' a = geom_of d a" if "a \<in> set (part_list d)" for a
    using filled_other(2)[OF t(1) mid(1), of a False] that by simp
  have dev: "d_dev d' = d_dev d" using m(5) by (simp add: same_disk_def)
  have mem: "ped_geometry_test_inside (geom_of d' e) (geom_of d' a)" if a: "a \<in> set mid" for a
  proof -
    have "g_start (geom_of d e) \<le> g_start (geom_of d' a)"
    proof (cases "a \<in> set ?L")
      case True
      then show ?thesis using inside[OF True] filled_other(2)[OF t(1) mid(1) True] by simp
    next
      case False
      then have "\<not> a < next_addr d" using filled_mem[OF mid(1), of a] a by simp
      then show ?thesis using mid(4)[OF a] by simp
    qed
    moreover have "g_end (geom_of d' a) \<le> g_end (geom_of d e)"
      using end_max[OF m(3,4) a, of "g_start (geom_of d e)"] end_eq by simp
    moreover have "g_dev (geom_of d' e) = g_dev (geom_of d' a)"
      using gp[OF e(1)] t(3)[of False] e(1) m(4) a dev by (simp add: geoms_ok_def)
    ultimately show ?thesis using gp[OF e(1)] by (simp add: ped_geometry_test_inside_def)
  qed
  have "in_order d' (part_list d)" "geoms_ok d' (part_list d)"
    using in_order_cong[of "part_list d" d' d] geoms_ok_cong[of "part_list d" d' d] gp dev
      t(2,3)[of False] by simp_all
  then have "table_ok devs d'"
    unfolding table_ok_def all_bool_eq using m(1-4) part t(5,6) gp dev mem ext'
    by (auto simp: logicals_inside_def)
  moreover have "nonfree d' True = ?L"
    using filled_types[OF t(1) mid(1)] free[of _ True] by simp
  ultimately show ?thesis
    using part ext' Some m mid(2) end_eq gp[OF e(1)] by simp
qed

lemma alloc_freespace_spec:
  assumes ok: "table_ok devs d"
  defines "d' \<equiv> disk_alloc_freespace T devs d"
  shows "table_ok devs d'" "tiled devs d'" "nonfree d' = nonfree d" "same_disk d d'"
    "update_mode d' = update_mode d"
    "\<And>a. a < next_addr d \<Longrightarrow> (a \<in> set (disk_walk d) \<Longrightarrow> \<not> is_free (type_of d a)) \<Longrightarrow> core d' a = core d a"
proof -
  define d0 where "d0 = disk_remove_freespace d"
  have f0: "filtered d is_free d0"
    unfolding d0_def by (rule remove_freespace_filtered[OF table_okD(1)[OF ok]])
  have ok0: "table_ok devs d0" by (rule table_ok_filtered[OF ok f0])
  have l0: "lists d0 k = nonfree d k" for k using f0 by (simp add: filtered_def nonfree_def)
  have free0: "\<not> is_free (type_of d0 a)" if "a \<in> set (lists d0 k)" for a k
    using that core_eqD(2)[OF filtered_core[OF table_okD(1)[OF ok] f0 that]] l0 by (simp add: nonfree_def)
  define d1 where "d1 = alloc_extended_freespace T d0"
  have e: "table_ok devs d1" "part_list d1 = part_list d0" "nonfree d1 True = lists d0 True"
    "\<And>e. ped_disk_extended_partition d1 = Some e \<Longrightarrow>
          gapless d1 (g_start (geom_of d1 e)) (lists d1 True) \<and>
          end_of d1 (g_start (geom_of d1 e)) (lists d1 True) = g_end (geom_of d1 e)"
    "\<And>a. a < next_addr d0 \<Longrightarrow> core d1 a = core d0 a" "same_disk d0 d1" "update_mode d1 = update_mode d0"
    "next_addr d0 \<le> next_addr d1"
    using alloc_extended_spec[OF ok0 free0] unfolding d1_def by auto
  note t = table_okD[OF e(1)]
  let ?N = "dev_length (devs (d_dev d1))"
  obtain d2 le where fl: "fill_gaps T PED_PARTITION_FREESPACE (lists d1 False) (d1, - 1) = (d2, le)" by fastforce
  have ty: "PED_PARTITION_FREESPACE = (if False then PED_PARTITION_FREESPACE + PED_PARTITION_LOGICAL else PED_PARTITION_FREESPACE)"
    by simp
  have lo: "- 1 \<le> g_end (geom_of d1 a)" if "a \<in> set (lists d1 False)" for a
    using t(3)[of False] that by (auto simp: geoms_ok_def geom_wf_def)
  have "filled d1 False PED_PARTITION_FREESPACE [] (lists d1 False) (lists d2 False) d2"
    by (rule fill_whole(1)[OF t(1) has_list_False ty t(2,3) order_refl fl lo])
  then have "d_dev d2 = d_dev d1" by (simp add: filled_def same_disk_def)
  then have d': "d' = (if le < ?N - 1 then
        let (d3, f) = new_placeholder T d2 PED_PARTITION_FREESPACE (le + 1) (?N - 1)
        in if lists d1 False \<noteq> [] then disk_raw_insert_after d3 (last (lists d1 False)) f
           else set_list_for PED_PARTITION_FREESPACE [f] d3
      else d2)"
    using fl by (simp add: d'_def disk_alloc_freespace_def d0_def[symmetric] d1_def[symmetric] Let_def
        set_list_for_def split: prod.splits)
  obtain mid where mid: "filled d1 False PED_PARTITION_FREESPACE [] (lists d1 False) mid d'"
    "gapless d' (- 1) mid" "end_of d' (- 1) mid = max (?N - 1) (end_of d1 (- 1) (lists d1 False))"
    using fill_list[OF t(1) has_list_False ty t(2,3) order_refl fl d' lo] by auto
  have m: "part_list d' = mid" "linked d'" "in_order d' mid" "geoms_ok d' mid" "same_disk d1 d'"
    "update_mode d' = update_mode d1" "next_addr d1 \<le> next_addr d'" "lists d' True = lists d1 True"
    "\<And>a. a < next_addr d1 \<Longrightarrow> core d' a = core d1 a"
    using mid(1) by (simp_all add: filled_def)
  have c: "core d' a = core d1 a" "geom_of d' a = geom_of d1 a" "type_of d' a = type_of d1 a"
    if "a \<in> set (lists d1 k)" for a k using filled_other[OF t(1) mid(1) that] .
  have dev: "d_dev d' = d_dev d1" using m(5) by (simp add: same_disk_def)
  have end_eq: "end_of d' (- 1) mid = ?N - 1"
    using mid(3) t(5) t(6)[of "last (part_list d1)"] by (auto simp: end_of_def)
  have ext: "ped_disk_extended_partition d' = ped_disk_extended_partition d1"
  proof (cases "ped_disk_extended_partition d1")
    case (Some e)
    have e: "e \<in> set (lists d1 False)" "type_of d1 e = PED_PARTITION_EXTENDED"
      using ext_Some_mem[OF Some] by simp_all
    have "e < next_addr d1" by (rule linked_fresh[OF t(1) e(1)])
    moreover have "e \<in> set (filter (\<lambda>a. a < next_addr d1) mid)" using mid(1) e(1) by (simp add: filled_def)
    ultimately show ?thesis using ext_Some_iff[OF m(2)] m(1) c(3)[OF e(1)] e(2) Some by simp
  next
    case None
    have "type_of d' a \<noteq> PED_PARTITION_EXTENDED" if "a \<in> set mid" for a
      using mid(1) that
    proof (cases rule: filled_mem_cases)
      case 1
      then show ?thesis using None c(3)[OF 1] by (simp add: ext_None_iff)
    qed simp
    then have "ped_disk_extended_partition d' = None" using m(1) by (simp add: ext_None_iff)
    then show ?thesis using None by simp
  qed
  have ins: "logicals_inside d'"
    unfolding logicals_inside_def ext m(8)
  proof (intro allI impI)
    fix e a assume e: "ped_disk_extended_partition d1 = Some e" and a: "a \<in> set (lists d1 True)"
    have "e \<in> set (lists d1 False)" using ext_Some_mem[OF e] by simp
    then show "ped_geometry_test_inside (geom_of d' e) (geom_of d' a)"
      using c(2)[of e False] c(2)[OF a] t(4) e a by (simp add: logicals_inside_def)
  qed
  have "in_order d' (lists d1 True)" "geoms_ok d' (lists d1 True)"
    using in_order_cong[of "lists d1 True" d' d1] geoms_ok_cong[of "lists d1 True" d' d1] c(2) dev
      t(2,3)[of True] by auto
  moreover have "g_end (geom_of d' a) < ?N" if "a \<in> set mid" for a
    using end_max[OF m(3,4) that, of "- 1"] end_eq by simp
  ultimately show "table_ok devs d'"
    unfolding table_ok_def all_bool_eq using m(1-4,8) t(5) dev ins by simp
  show "tiled devs d'"
    unfolding tiled_def
  proof (intro conjI allI impI)
    show "gapless d' (- 1) (part_list d')" using mid(2) m(1) by simp
    show "end_of d' (- 1) (part_list d') = dev_length (devs (d_dev d')) - 1" using end_eq m(1) dev by simp
    fix x assume x: "ped_disk_extended_partition d' = Some x"
    have "x \<in> set (lists d1 False)" using ext_Some_mem[of d1 x] x ext by simp
    then have gx: "geom_of d' x = geom_of d1 x" by (rule c(2))
    show "gapless d' (g_start (geom_of d' x)) (lists d' True)"
      "end_of d' (g_start (geom_of d' x)) (lists d' True) = g_end (geom_of d' x)"
      using e(4)[of x] x ext m(8) gx gapless_cong[of "lists d1 True" d' d1]
        end_of_cong[of "lists d1 True" d' d1] c(2)[of _ True] by simp_all
  qed
  have "nonfree d' False = lists d1 False"
    using filled_types[OF t(1) mid(1)] free0[of _ False] e(2,5) linked_fresh[OF table_okD(1)[OF ok0], of _ False]
      core_eqD(2)[OF e(5)] by simp
  moreover have "nonfree d' True = nonfree d1 True"
    unfolding nonfree_def m(8) using c(3)[of _ True] by (intro filter_cong) auto
  ultimately have "nonfree d' k = lists d0 k" for k using e(2,3) by (cases k) simp_all
  then show "nonfree d' = nonfree d" using l0 by auto
  show "same_disk d d'" using f0 e(6) m(5) by (auto simp: filtered_def intro: same_disk_trans)
  show "update_mode d' = update_mode d" using f0 e(7) m(6) by (simp add: filtered_def)
  show "core d' a = core d a" if "a < next_addr d" "a \<in> set (disk_walk d) \<Longrightarrow> \<not> is_free (type_of d a)" for a
    using that f0 e(5)[of a] e(8) m(9)[of a] by (auto simp: filtered_def)
qed

end

end
