(* ===== verification/Disk_Overlap.thy ===== *)
theory Disk_Overlap
  imports Disk_Table
begin

text \<open>
  The overlap constraint of a new or moved partition: every solution lies in a gap of the
  list, so that linking the partition in keeps the list in order.
\<close>

section \<open>Intersecting a constraint without alignment\<close>

lemma aligned_self: "aligned a (offset a)" "aligned a (offset a + grain_size a)"
  by (simp_all add: aligned_dvd)

text \<open>The sectors of an alignment determine its grain.\<close>

lemma aligned_eq_grain:
  assumes "align_wf a" "align_wf b" "\<And>s. aligned a s \<longleftrightarrow> aligned b s"
  shows "grain_size a = grain_size b"
proof -
  have "grain_size b dvd offset a + grain_size a - offset a"
    by (rule aligned_diff) (use aligned_self[of a] assms(3) in simp_all)
  moreover have "grain_size a dvd offset b + grain_size b - offset b"
    by (rule aligned_diff) (use aligned_self[of b] assms(3) in simp_all)
  ultimately show ?thesis
    using assms(1,2) zdvd_antisym_nonneg by (simp add: align_wf_def)
qed

definition no_align :: PedAlignment where
  "no_align = \<lparr>offset = 0, grain_size = 1\<rparr>"

lemma no_align_props: "ped_alignment_any = Some no_align" "align_small no_align" "aligned no_align s"
  by (simp_all add: no_align_def ped_alignment_any_def align_small_def aligned_dvd)

lemma intersect_no_align:
  assumes b: "align_small b"
  shows "\<exists>c. ped_alignment_intersect (Some no_align) (Some b) = Some c \<and> align_small c
    \<and> (\<forall>s. aligned c s \<longleftrightarrow> aligned b s)"
proof -
  note sp = alignment_intersect_spec[OF no_align_props(2) b]
  show ?thesis
  proof (cases "ped_alignment_intersect (Some no_align) (Some b)")
    case None
    then show ?thesis using sp aligned_self(1)[of b] no_align_props(3) by auto
  next
    case (Some c)
    then have c: "align_wf c" "\<And>s. aligned c s \<longleftrightarrow> aligned b s" using sp no_align_props(3) by simp_all
    have "grain_size c = grain_size b"
      using aligned_eq_grain[OF c(1) align_small_wf[OF b] c(2)] .
    then show ?thesis using Some c b by (simp add: align_small_def)
  qed
qed

lemma duplicate_small:
  assumes "align_small a"
  shows "\<exists>b. ped_alignment_duplicate (Some a) = Some b \<and> align_small b \<and> aligned b = aligned a"
  using alignment_duplicate_Some[OF align_small_wf[OF assms]] assms by (auto simp: align_small_def)

lemma new_from_max_small:
  assumes "ped_constraint_new_from_max m = Some a"
  shows "start_align a = Some no_align" "end_align a = Some no_align" "constraint_small a"
proof -
  obtain na where na: "ped_alignment_duplicate (Some no_align) = Some na" "align_small na" "aligned na = aligned no_align"
    using duplicate_small no_align_props(2) by blast
  have na': "na = no_align"
    using na(1) by (simp add: ped_alignment_duplicate_def ped_alignment_new_def ped_alignment_init_code
        no_align_def abs_mod_def)
  show al: "start_align a = Some no_align" "end_align a = Some no_align"
    using assms na(1) na' no_align_props(1)
    by (auto simp: ped_constraint_new_from_max_def ped_constraint_new_def ped_constraint_init_def)
  then show "constraint_small a" using no_align_props(2) by (simp add: constraint_small_def)
qed

text \<open>
  A region \<open>m\<close> restricts a constraint: \<open>ped_constraint_new_from_max\<close> intersected with it
  has the solutions of the constraint that lie in the region.
\<close>

lemma restrict_constraint:
  assumes m: "geom_wf m" and c: "constraint_wf c" "constraint_small c" "constraint_dev c = g_dev m"
    and i: "ped_constraint_intersect (ped_constraint_new_from_max m) (Some c) = Some c'"
  shows "constraint_wf c'" "constraint_small c'" "constraint_dev c' = g_dev m"
    "\<And>g. geom_wf g \<Longrightarrow> g_dev g = g_dev m \<Longrightarrow> ped_constraint_is_solution c' g \<longleftrightarrow>
       ped_constraint_is_solution c g \<and> g_start m \<le> g_start g \<and> g_end g \<le> g_end m"
proof -
  obtain a where a: "ped_constraint_new_from_max m = Some a" "constraint_wf a" "constraint_dev a = g_dev m"
    "\<And>g. geom_wf g \<Longrightarrow> g_dev g = g_dev m \<Longrightarrow>
       ped_constraint_is_solution a g \<longleftrightarrow> ped_geometry_test_inside m g"
    using constraint_new_from_max_spec[OF m] by blast
  note al = new_from_max_small(1,2)[OF a(1)] and small = new_from_max_small(3)[OF a(1)]
  have sp: "constraint_wf c'" "constraint_dev c' = constraint_dev a"
    "\<And>g. ped_constraint_is_solution c' g \<longleftrightarrow>
           ped_constraint_is_solution a g \<and> ped_constraint_is_solution c g"
    using constraint_intersect_spec[OF a(2) small c(1,2)] a(1,3) c(3) i by simp_all
  show "constraint_wf c'" "constraint_dev c' = g_dev m" using sp a(3) by simp_all
  obtain sa ea sr er where cc: "start_align c = Some sa" "end_align c = Some ea"
    using c(1) by (rule constraint_wfE)
  have sm: "align_small sa" "align_small ea" using c(2) cc by (simp_all add: constraint_small_def)
  obtain s1 where s1: "ped_alignment_intersect (Some no_align) (Some sa) = Some s1" "align_small s1"
    using intersect_no_align[OF sm(1)] by blast
  obtain e1 where e1: "ped_alignment_intersect (Some no_align) (Some ea) = Some e1" "align_small e1"
    using intersect_no_align[OF sm(2)] by blast
  obtain s2 e2 where d2: "ped_alignment_duplicate (Some s1) = Some s2" "align_small s2"
    "ped_alignment_duplicate (Some e1) = Some e2" "align_small e2"
    using duplicate_small s1(2) e1(2) by meson
  have "start_align c' = Some s2 \<and> end_align c' = Some e2"
    using i a(1) al cc s1(1) e1(1) d2(1,3)
    by (auto simp: ped_constraint_intersect_def ped_constraint_new_def ped_constraint_init_def Let_def
        split: option.splits)
  then show "constraint_small c'" using d2(2,4) by (simp add: constraint_small_def)
  show "ped_constraint_is_solution c' g \<longleftrightarrow>
       ped_constraint_is_solution c g \<and> g_start m \<le> g_start g \<and> g_end g \<le> g_end m"
    if "geom_wf g" "g_dev g = g_dev m" for g
    using sp(3) a(4)[OF that] that by (auto simp: ped_geometry_test_inside_def)
qed

section \<open>The gap the overlap constraint describes\<close>

lemma overlap_scan_spec:
  assumes "overlap_scan d part s m xs = (ms, rest)" "in_order d xs" "geoms_ok d xs"
    and "\<And>x. x \<in> set xs \<Longrightarrow> m \<le> g_end (geom_of d x) + 1"
  shows "\<exists>us. xs = us @ rest \<and> m \<le> ms \<and> (\<forall>x \<in> set us. x \<noteq> part \<longrightarrow> g_end (geom_of d x) < ms)"
  using assms
proof (induction xs arbitrary: m)
  case (Cons w xs)
  show ?case
  proof (cases "g_start (geom_of d w) < s \<or> m \<ge> g_start (geom_of d w)")
    case False
    then show ?thesis using Cons.prems(1) by (intro exI[of _ "[]"]) simp
  next
    case True
    let ?m = "if w \<noteq> part then g_end (geom_of d w) + 1 else m"
    have sc: "overlap_scan d part s ?m xs = (ms, rest)" using Cons.prems(1) True by simp
    have "?m \<le> g_end (geom_of d x) + 1" if "x \<in> set xs" for x
    proof -
      have "before d w x" "geom_wf (geom_of d x)" using Cons.prems(2,3) that by (auto simp: geoms_ok_def)
      then show ?thesis
        using Cons.prems(4)[of x] that geom_wf_nonempty[of "geom_of d x"] by (auto simp: before_def)
    qed
    then obtain us where us: "xs = us @ rest" "?m \<le> ms" "\<And>x. x \<in> set us \<Longrightarrow> x \<noteq> part \<Longrightarrow> g_end (geom_of d x) < ms"
      using Cons.IH[OF sc] Cons.prems(2,3) by (auto simp: geoms_ok_def)
    then show ?thesis
      using Cons.prems(4)[of w] by (intro exI[of _ "w # us"]) (auto split: if_splits)
  qed
qed simp

text \<open>
  Where a solution of the overlap constraint may be linked in: after the partitions \<open>us\<close> and
  before \<open>vs\<close>, which are the other partitions of the list.
\<close>

lemma overlap_gap:
  assumes ok: "table_ok devs d" and k: "k = is_logical (type_of d part)" "has_list d k"
    and ov: "partition_get_overlap_constraint d part geom \<noteq> None"
  obtains m us vs where "partition_get_overlap_constraint d part geom = ped_constraint_new_from_max m"
    "geom_wf m" "g_dev m = d_dev d"
    "filter (\<lambda>x. x \<noteq> part) (lists d k) = us @ vs"
    "\<And>x. x \<in> set us \<Longrightarrow> g_end (geom_of d x) < g_start m"
    "\<And>x. x \<in> set vs \<Longrightarrow> g_end m < g_start (geom_of d x)"
proof -
  note t = table_okD[OF ok]
  let ?L = "lists d k" and ?e = "the (ped_disk_extended_partition d)"
  define lo where "lo = (if k then g_start (geom_of d ?e) else 0)"
  define hi where "hi = (if k then g_end (geom_of d ?e) else LLONG_MAX - 1)"
  obtain ms rest where sc: "overlap_scan d part (g_start geom) lo ?L = (ms, rest)" by fastforce
  define rest' where "rest' = (if list_head rest = Some part then tl rest else rest)"
  define me where "me = (case rest' of [] \<Rightarrow> hi | w # _ \<Rightarrow> g_start (geom_of d w) - 1)"
  have L: "?L = (if k then p_list (node d ?e) else part_list d)"
    using k(2) by (auto simp: lists_def has_list_def)
  have ov': "partition_get_overlap_constraint d part geom =
      (if ms > me then None
       else ped_constraint_new_from_max (geometry_init_local (d_dev d) ms (me - ms + 1)))"
    using sc k(1) unfolding L me_def hi_def rest'_def lo_def partition_get_overlap_constraint_def Let_def
    by (cases k) simp_all
  with ov have le: "ms \<le> me" by (auto split: if_splits)
  have lo0: "0 \<le> lo" and lo_end: "\<And>x. x \<in> set ?L \<Longrightarrow> lo \<le> g_end (geom_of d x) + 1"
  proof -
    have pos: "0 \<le> g_start (geom_of d x) \<and> g_start (geom_of d x) \<le> g_end (geom_of d x)"
      if "x \<in> set (lists d j)" for x j
      using t(3)[of j] that by (auto simp: geoms_ok_def geom_wf_def)
    have "0 \<le> lo \<and> (\<forall>x \<in> set ?L. lo \<le> g_end (geom_of d x) + 1)"
    proof (cases k)
      case True
      then obtain e where e: "ped_disk_extended_partition d = Some e" using k(2) by (auto simp: has_list_def)
      then have "e \<in> set (lists d False)" using ext_Some_mem[OF e] by simp
      moreover have "g_start (geom_of d e) \<le> g_start (geom_of d x)" if "x \<in> set ?L" for x
        using t(4) e that True by (auto simp: logicals_inside_def ped_geometry_test_inside_def split: if_splits)
      ultimately show ?thesis using pos[of e False] pos[of _ k] True e by (fastforce simp: lo_def)
    next
      case False
      then show ?thesis using pos[of _ k] by (fastforce simp: lo_def)
    qed
    then show "0 \<le> lo" "\<And>x. x \<in> set ?L \<Longrightarrow> lo \<le> g_end (geom_of d x) + 1" by auto
  qed
  obtain us where us: "?L = us @ rest" "lo \<le> ms" "\<And>x. x \<in> set us \<Longrightarrow> x \<noteq> part \<Longrightarrow> g_end (geom_of d x) < ms"
    using overlap_scan_spec[OF sc t(2,3) lo_end] by blast
  let ?m = "geometry_init_local (d_dev d) ms (me - ms + 1)"
  have dist: "distinct rest" using linkedD(1)[OF t(1), of k] us(1) by simp
  have rest_filter: "filter (\<lambda>x. x \<noteq> part) rest = filter (\<lambda>x. x \<noteq> part) rest'"
    by (cases rest) (auto simp: rest'_def list_head_def)
  have rest_ord: "in_order d rest'"
    using t(2)[of k] us(1) by (cases rest) (auto simp: rest'_def list_head_def sorted_wrt_append)
  have sub: "set rest' \<subseteq> set ?L" using us(1) by (cases rest) (auto simp: rest'_def)
  show thesis
  proof (rule that)
    show "partition_get_overlap_constraint d part geom = ped_constraint_new_from_max ?m"
      using ov' le by simp
    show "geom_wf ?m" "g_dev ?m = d_dev d" using le lo0 us(2) by (simp_all add: geom_wf_def)
    show "filter (\<lambda>x. x \<noteq> part) ?L = filter (\<lambda>x. x \<noteq> part) us @ filter (\<lambda>x. x \<noteq> part) rest'"
      using us(1) rest_filter by simp
    show "g_end (geom_of d x) < g_start ?m" if "x \<in> set (filter (\<lambda>x. x \<noteq> part) us)" for x
      using us(3)[of x] that le by simp
    show "g_end ?m < g_start (geom_of d x)" if "x \<in> set (filter (\<lambda>x. x \<noteq> part) rest')" for x
    proof -
      from that have "x \<in> set rest'" by simp
      then obtain w r where w: "rest' = w # r" "x = w \<or> x \<in> set r" by (cases rest') auto
      then have "me = g_start (geom_of d w) - 1" by (simp add: me_def)
      moreover have "g_start (geom_of d w) \<le> g_start (geom_of d x)"
      proof (cases "x = w")
        case False
        then have "before d w x" using w rest_ord by simp
        moreover have "geom_wf (geom_of d w)" using t(3)[of k] sub w(1) by (auto simp: geoms_ok_def)
        ultimately show ?thesis using geom_wf_nonempty[of "geom_of d w"] by (simp add: before_def)
      qed simp
      ultimately show ?thesis using le by simp
    qed
  qed
qed

end
