(* ===== verification/Disk_Nested.thy ===== *)
theory Disk_Nested
  imports Disk_Update
begin

text \<open>
  Inside update mode the operations of \<open>libparted/disk.c\<close> only count: the lemmas
  \<open>nested_remove\<close>, \<open>nested_delete\<close> and \<open>nested_add\<close> show that \<open>remove_nested\<close>,
  \<open>delete_nested\<close> and \<open>add_nested\<close>, the forms that the metadata callbacks use, are what the
  general operations do there.
\<close>

section \<open>No step changes the mode\<close>

lemma set_list_mode [simp]: "update_mode (set_list_for ty xs d) = update_mode d"
  by (simp add: set_list_for_def upd_node_def)

lemma raw_remove_mode [simp]: "update_mode (disk_raw_remove d a) = update_mode d"
  by (simp add: disk_raw_remove_def)

lemma raw_add_mode [simp]: "update_mode (disk_raw_add d a) = update_mode d"
  by (simp add: disk_raw_add_def disk_raw_insert_before_def disk_raw_insert_after_def
      split: prod.splits option.splits)

lemma destroy_mode [simp]: "update_mode (ped_partition_destroy a d) = update_mode d"
  by (simp add: ped_partition_destroy_def)

lemma enumerate_mode [simp]: "update_mode (snd (partition_enumerate T a d)) = update_mode d"
  by (simp add: partition_enumerate_def upd_node_def split: prod.splits)

lemma enumerate_partitions_mode [simp]:
  "update_mode (snd (ped_disk_enumerate_partitions T d)) = update_mode d"
proof -
  let ?f = "\<lambda>i d. case ped_disk_get_partition d i of None \<Rightarrow> (True, d) | Some walk \<Rightarrow> partition_enumerate T walk d"
  let ?g = "\<lambda>walk d. if ped_partition_is_active (node d walk) \<and> p_num (node d walk) = - 1
              then partition_enumerate T walk d else (True, d)"
  have f: "update_mode (snd (while_ok ?f xs s)) = update_mode s" for xs s
    by (rule while_ok_keeps[where P = "\<lambda>t. update_mode t = update_mode s"]) (simp_all split: option.splits)
  have g: "update_mode (snd (while_ok ?g xs s)) = update_mode s" for xs s
    by (rule while_ok_keeps[where P = "\<lambda>t. update_mode t = update_mode s"]) simp_all
  show ?thesis
  proof (cases "while_ok ?f [1 .. ped_disk_get_last_partition_num d] d")
    case (Pair ok d1)
    have "update_mode d1 = update_mode d" using f[of "[1 .. ped_disk_get_last_partition_num d]" d] Pair by simp
    then show ?thesis using Pair g[of "disk_walk d1" d1]
      by (cases ok) (simp_all add: ped_disk_enumerate_partitions_def)
  qed
qed

lemma remove_nested_mode [simp]: "update_mode (remove_nested T a d) = update_mode d"
  by (simp add: remove_nested_def)

lemma delete_leaf_mode [simp]: "update_mode (delete_leaf T a d) = update_mode d"
  by (simp add: delete_leaf_def)

lemma delete_all_logical_mode [simp]: "update_mode (ped_disk_delete_all_logical T d) = update_mode d"
  unfolding ped_disk_delete_all_logical_def
  by (rule fold_keeps[where P = "\<lambda>t. update_mode t = update_mode d"]) simp_all

lemma place_active_mode [simp]: "update_mode (snd (place_active T devs ask part con d)) = update_mode d"
  using enumerate_mode[of T part d]
  by (auto simp: place_active_def partition_align_def upd_node_def Let_def
      simp del: enumerate_mode split: prod.splits bool.splits sum.splits)

lemma add_body_mode [simp]: "update_mode (snd (add_body T devs ask part con d)) = update_mode d"
  using place_active_mode[of T devs ask part con d]
  by (auto simp: add_body_def simp del: place_active_mode split: prod.splits sum.splits)

section \<open>The nested forms\<close>

lemma nested_push: "0 < update_mode d \<Longrightarrow> disk_push_update_mode T d = mode_up d"
  by (simp add: disk_push_update_mode_def)

lemma nested_pop: "1 < update_mode d \<Longrightarrow> disk_pop_update_mode T devs ask d = mode_down d"
  by (simp add: disk_pop_update_mode_def)

lemma nested_remove:
  "0 < update_mode d \<Longrightarrow> ped_disk_remove_partition T devs ask part d = remove_nested T part d"
  by (simp add: ped_disk_remove_partition_def remove_nested_def nested_push nested_pop)

lemma nested_delete:
  "0 < update_mode d \<Longrightarrow> ped_disk_delete_partition T devs ask part d = delete_nested T part d"
  by (simp add: ped_disk_delete_partition_def delete_nested_def nested_push nested_pop Let_def)

lemma nested_add:
  assumes "0 < update_mode d"
  shows "ped_disk_add_partition T devs ask part con d = add_nested T devs ask part con d"
proof (cases "partition_check_basic_sanity T devs d part")
  case (Inr u)
  obtain r d1 where b: "add_body T devs ask part con (mode_up d) = (r, d1)" by fastforce
  then have "update_mode d1 = update_mode d + 1"
    using add_body_mode[of T devs ask part con "mode_up d"] by simp
  then show ?thesis
    using assms Inr b by (simp add: ped_disk_add_partition_def add_nested_def nested_push nested_pop)
qed (simp add: ped_disk_add_partition_def add_nested_def)

end
