(* ===== verification/Disk_Label.thy ===== *)
theory Disk_Label
  imports Disk_Overlap Disk_Nested
begin

text \<open>
  The contract between \<open>libparted/disk.c\<close> and the label types: the locale \<open>disk_label\<close>
  states what the generic code relies on, and proves from it that adding, removing and
  moving partitions keep the table well formed, its partitions disjoint and its free space
  exact. The label types \<open>loop\<close> and \<open>gpt\<close> are interpretations of it.
\<close>

section \<open>Changing the contents of one node\<close>

lemma set_geom_links:
  fixes g :: PedGeometry and d :: "('x, 'y) PedDisk"
  assumes l: "linked d" and a: "d_heap d part \<noteq> None"
  defines "d' \<equiv> set_geom part g d"
  shows "linked d'" "lists d' = lists d" "type_of d' b = type_of d b" "geom_of d' part = g"
    "b \<noteq> part \<Longrightarrow> d_heap d' b = d_heap d b" "same_disk d d'" "update_mode d' = update_mode d"
    "next_addr d' = next_addr d" "p_list (node d' b) = p_list (node d b)"
    "ped_disk_extended_partition d' = ped_disk_extended_partition d"
    "d_heap d' part \<noteq> None" "p_num (node d' b) = p_num (node d b)"
proof -
  have n: "node d' b = (if b = part then (node d part)\<lparr>p_geom := g\<rparr> else node d b)" for b
    by (simp add: d'_def set_geom_def upd_node_def node_def)
  have p: "part_list d' = part_list d" by (simp add: d'_def set_geom_def upd_node_def)
  show ty: "type_of d' b = type_of d b" for b by (simp add: n)
  show "geom_of d' part = g" "p_list (node d' b) = p_list (node d b)" "p_num (node d' b) = p_num (node d b)"
    by (simp_all add: n)
  show "b \<noteq> part \<Longrightarrow> d_heap d' b = d_heap d b" "same_disk d d'" "update_mode d' = update_mode d"
    "next_addr d' = next_addr d" "d_heap d' part \<noteq> None"
    by (simp_all add: d'_def set_geom_def upd_node_def same_disk_def)
  show ext: "ped_disk_extended_partition d' = ped_disk_extended_partition d"
    using ext_cong[of d' d] p ty by simp
  show lists: "lists d' = lists d"
    using ext p by (auto simp: lists_def n fun_eq_iff split: option.splits)
  have h: "d_heap d' b \<noteq> None \<longleftrightarrow> d_heap d b \<noteq> None" for b
    using a by (simp add: d'_def set_geom_def upd_node_def)
  have nx: "next_addr d' = next_addr d" by (simp add: d'_def set_geom_def upd_node_def)
  show "linked d'"
    unfolding linked_def lists ty h p nx using l[unfolded linked_def] by blast
qed

lemma before_mode [simp]: "before (mode_up d) = before d" "before (mode_down d) = before d"
  by (simp_all add: before_def fun_eq_iff)

lemma table_ok_mode [simp]:
  "table_ok devs (mode_up d) = table_ok devs d" "table_ok devs (mode_down d) = table_ok devs d"
  by (simp_all add: table_ok_def logicals_inside_def geoms_ok_def)

section \<open>Linking a partition into a gap\<close>

lemma add_table_ok:
  assumes ok: "table_ok devs d" and part: "linkable d part" "type_of d part \<noteq> PED_PARTITION_EXTENDED"
    and k: "k = is_logical (type_of d part)" and g: "geom_wf (geom_of d part)" "g_dev (geom_of d part) = d_dev d"
    and xs: "lists d k = us @ vs"
    and us: "\<And>x. x \<in> set us \<Longrightarrow> g_end (geom_of d x) < g_start (geom_of d part)"
    and vs: "\<And>x. x \<in> set vs \<Longrightarrow> g_end (geom_of d part) < g_start (geom_of d x)"
    and inside: "k \<Longrightarrow> ped_geometry_test_inside (geom_of d (the (ped_disk_extended_partition d))) (geom_of d part)"
    and on: "g_end (geom_of d part) < dev_length (devs (d_dev d))"
  defines "d' \<equiv> disk_raw_add d part"
  shows "table_ok devs d'" "relinked d k (us @ part # vs) d'"
proof -
  note t = table_okD[OF ok]
  have u: "before d u part" if "u \<in> set us" for u using us[OF that] by (simp add: before_def)
  have v: "before d part v" if "v \<in> set vs" for v using vs[OF that] by (simp add: before_def)
  have ord: "in_order d (us @ vs)" "geoms_ok d (us @ vs)" using t(2,3)[of k] xs by simp_all
  note pos = raw_add_position[OF ord geom_wf_nonempty[OF g(1)] u v]
  show rel: "relinked d k (us @ part # vs) d'"
    using raw_add_relinked[OF t(1) part(1) k] xs unfolding d'_def by (simp add: pos)
  then have r: "linked d'" "lists d' k = us @ part # vs" "lists d' (\<not> k) = lists d (\<not> k)"
    "core d' = core d" "same_disk d d'" by (simp_all add: relinked_def)
  note c = core_eqD(1,2)[OF fun_cong[OF r(4)]]
  have dev: "d_dev d' = d_dev d" using r(5) by (simp add: same_disk_def)
  have in1: "in_order d' (us @ part # vs)"
    using in_order_cong[of "us @ part # vs" d' d] c(1) ord(1) u v by (auto simp: sorted_wrt_append)
  have ge1: "geoms_ok d' (us @ part # vs)" using ord(2) g c(1) dev by (auto simp: geoms_ok_def)
  have in2: "in_order d' (lists d (\<not> k))" "geoms_ok d' (lists d (\<not> k))"
    using in_order_cong[of "lists d (\<not> k)" d' d] geoms_ok_cong[of "lists d (\<not> k)" d' d] c(1) dev
      t(2,3)[of "\<not> k"] by simp_all
  have all: "in_order d' (lists d' j) \<and> geoms_ok d' (lists d' j)" for j
    by (cases "j = k") (use r(2,3) in1 ge1 in2 in auto)
  have ext: "ped_disk_extended_partition d' = ped_disk_extended_partition d"
  proof (cases k)
    case True
    then have "part_list d' = part_list d" using r(3) by simp
    then show ?thesis using ext_cong[of d' d] c(2) by simp
  next
    case False
    then have pl: "part_list d' = us @ part # vs" "part_list d = us @ vs" using r(2) xs by simp_all
    show ?thesis
    proof (cases "ped_disk_extended_partition d")
      case None
      then have "ped_disk_extended_partition d' = None"
        using pl part(2) c(2) by (auto simp: ext_None_iff)
      with None show ?thesis by simp
    next
      case (Some e)
      then show ?thesis using ext_Some_iff[OF r(1), of e] ext_Some_mem[OF Some] pl c(2) by auto
    qed
  qed
  have "logicals_inside d'"
    unfolding logicals_inside_def ext c(1)
  proof (intro allI impI)
    fix e a assume e: "ped_disk_extended_partition d = Some e" and a: "a \<in> set (lists d' True)"
    show "ped_geometry_test_inside (geom_of d e) (geom_of d a)"
    proof (cases "a = part \<and> k")
      case True
      then show ?thesis using inside e by simp
    next
      case False
      then have "a \<in> set (lists d True)" using a r(2,3) xs by (cases k) auto
      then show ?thesis using t(4) e by (simp add: logicals_inside_def)
    qed
  qed
  moreover have "g_end (geom_of d' a) < dev_length (devs (d_dev d))" if "a \<in> set (part_list d')" for a
  proof (cases "a = part")
    case False
    then have "a \<in> set (part_list d)" using that r(2,3) xs by (cases k) auto
    then show ?thesis using t(6) c(1) by simp
  qed (use on c(1) in simp)
  ultimately show "table_ok devs d'"
    unfolding table_ok_def using r(1) all t(5) dev by simp
qed

text \<open>What the checks guarantee when the user never ignores an error.\<close>

definition strict :: "PedExceptionHandler \<Rightarrow> bool" where
  "strict ask \<longleftrightarrow> (\<forall>e. ask e \<noteq> PED_EXCEPTION_IGNORE)"

lemma unless_ignored_strict [simp]:
  "strict ask \<Longrightarrow> unless_ignored ask bad e = (if bad then Inl (Some e) else Inr ())"
  by (simp add: strict_def unless_ignored_def)

lemma and_then_Inr [simp]: "and_then a b = Inr x \<longleftrightarrow> (\<exists>y. a = Inr y) \<and> b = Inr x"
  by (cases a) auto

lemma check_partition_strict:
  assumes "strict ask" "check_partition T devs ask d part = Inr u"
  shows "is_logical (type_of d part) \<Longrightarrow>
      ped_geometry_test_inside (geom_of d (the (ped_disk_extended_partition d))) (geom_of d part)"
    and "g_end (geom_of d part) < dev_length (devs (d_dev d))"
  using assms by (auto simp: check_partition_def Let_def split: if_splits)

section \<open>The contract\<close>

text \<open>
  What a label type may rely on when it aligns a partition: the lists are in order but for the
  place of this partition, and an extended partition is there when it is needed.
\<close>

definition neighbours_ok :: "('x, 'y) PedDisk \<Rightarrow> addr \<Rightarrow> bool" where
  "neighbours_ok d part \<longleftrightarrow> linked d \<and> has_list d (is_logical (type_of d part)) \<and>
     (\<forall>k. geoms_ok d (filter (\<lambda>a. a \<noteq> part) (lists d k)))"

text \<open>
  The types of partitions that callers place; an extended partition, whose logical partitions
  depend on it, is not covered by the theorems on adding and moving. \<open>span_ok\<close> holds for every
  region made by \<open>ped_geometry_set\<close>.
\<close>

definition plain_type :: "nat \<Rightarrow> bool" where
  "plain_type ty \<longleftrightarrow> ty = PED_PARTITION_NORMAL \<or> ty = PED_PARTITION_LOGICAL"

definition span_ok :: "PedGeometry \<Rightarrow> bool" where
  "span_ok g \<longleftrightarrow> g_end g = g_start g + g_length g - 1"

lemma plain_typeD:
  assumes "plain_type ty"
  shows "is_active ty" "ty \<noteq> PED_PARTITION_EXTENDED"
  using assms by (auto simp: plain_type_def is_active_def has_bit_def)

lemma geometry_init_span: "ped_geometry_init g0 dev s len = Inr g \<Longrightarrow> span_ok g"
  by (auto simp: ped_geometry_init_def ped_geometry_set_def span_ok_def split: if_splits)

locale disk_label = placeholder_ops T for T :: "('x, 'y) PedDiskOps" +
  fixes disk_inv :: "dev_table \<Rightarrow> ('x, 'y) PedDisk \<Rightarrow> bool"
    and allowed :: "dev_table \<Rightarrow> ('x, 'y) PedDisk \<Rightarrow> nat \<Rightarrow> PedGeometry \<Rightarrow> bool"
  assumes same_inv: "same_disk d d' \<Longrightarrow> disk_inv devs d \<Longrightarrow> disk_inv devs d'"
    and same_allowed: "same_disk d d' \<Longrightarrow> allowed devs d ty g \<Longrightarrow> allowed devs d' ty g"
    and align_sound: "op_partition_align T devs d part con = Inr g \<Longrightarrow> disk_inv devs d \<Longrightarrow>
      neighbours_ok d part \<Longrightarrow> plain_type (type_of d part) \<Longrightarrow> span_ok (geom_of d part) \<Longrightarrow>
      con = Some c \<Longrightarrow> constraint_wf c \<Longrightarrow> constraint_small c \<Longrightarrow> constraint_dev c = d_dev d \<Longrightarrow>
      g_dev (geom_of d part) = d_dev d \<Longrightarrow>
      ped_constraint_is_solution c g \<and> geom_wf g \<and> g_dev g = d_dev d \<and> allowed devs d (type_of d part) g"
    and alloc_metadata: "table_ok devs d \<Longrightarrow> update_mode d = 1 \<Longrightarrow> lists d = actives d \<Longrightarrow>
      disk_inv devs d \<Longrightarrow> (\<forall>k. \<forall>a \<in> set (lists d k). allowed devs d (type_of d a) (geom_of d a)) \<Longrightarrow> strict ask \<Longrightarrow>
      op_alloc_metadata T devs ask d = (r, d') \<Longrightarrow>
      table_ok devs d' \<and> actives d' = actives d \<and> nonfree d' = lists d' \<and>
      (\<forall>a < next_addr d. core d' a = core d a) \<and> same_disk d d' \<and> update_mode d' = update_mode d
      \<and> next_addr d \<le> next_addr d'"

text \<open>
  The label's part of the invariant: what it keeps about the disk, and its active partitions
  where it allows them.
\<close>

definition label_ok ::
    "(dev_table \<Rightarrow> ('x, 'y) PedDisk \<Rightarrow> bool) \<Rightarrow> (dev_table \<Rightarrow> ('x, 'y) PedDisk \<Rightarrow> nat \<Rightarrow> PedGeometry \<Rightarrow> bool) \<Rightarrow>
     dev_table \<Rightarrow> ('x, 'y) PedDisk \<Rightarrow> bool" where
  "label_ok disk_inv allowed devs d \<longleftrightarrow> table_ok devs d \<and> disk_inv devs d \<and>
     (\<forall>k. \<forall>a \<in> set (actives d k). allowed devs d (type_of d a) (geom_of d a))"

text \<open>A partition object that is not linked in, and a constraint that belongs to the disk.\<close>

definition unlisted :: "('x, 'y) PedDisk \<Rightarrow> addr \<Rightarrow> bool" where
  "unlisted d part \<longleftrightarrow> d_heap d part \<noteq> None \<and> part \<notin> set (lists d False) \<and> part \<notin> set (lists d True)
     \<and> span_ok (geom_of d part)"

definition usable :: "('x, 'y) PedDisk \<Rightarrow> PedConstraint \<Rightarrow> bool" where
  "usable d c \<longleftrightarrow> constraint_wf c \<and> constraint_small c \<and> constraint_dev c = d_dev d"

text \<open>A table outside update mode: its free space is computed.\<close>

definition disk_ok ::
    "(dev_table \<Rightarrow> ('x, 'y) PedDisk \<Rightarrow> bool) \<Rightarrow> (dev_table \<Rightarrow> ('x, 'y) PedDisk \<Rightarrow> nat \<Rightarrow> PedGeometry \<Rightarrow> bool) \<Rightarrow>
     dev_table \<Rightarrow> ('x, 'y) PedDisk \<Rightarrow> bool" where
  "disk_ok disk_inv allowed devs d \<longleftrightarrow>
     label_ok disk_inv allowed devs d \<and> tiled devs d \<and> update_mode d = 0"

text \<open>One partition is new in its list; nothing else changed.\<close>

definition one_more :: "('x, 'y) PedDisk \<Rightarrow> addr \<Rightarrow> ('x, 'y) PedDisk \<Rightarrow> bool" where
  "one_more d part d' \<longleftrightarrow>
     (let k = is_logical (type_of d part) in
      actives d' (\<not> k) = actives d (\<not> k)
      \<and> (\<exists>us vs. actives d k = us @ vs \<and> actives d' k = us @ part # vs))"

text \<open>One partition has moved within its list.\<close>

definition moved :: "('x, 'y) PedDisk \<Rightarrow> addr \<Rightarrow> ('x, 'y) PedDisk \<Rightarrow> bool" where
  "moved d part d' \<longleftrightarrow>
     (\<forall>k. filter (\<lambda>a. a \<noteq> part) (actives d' k) = filter (\<lambda>a. a \<noteq> part) (actives d k)
        \<and> set (actives d' k) = set (actives d k))"

lemma actives_sub: "a \<in> set (actives d k) \<Longrightarrow> a \<in> set (lists d k)"
  by (simp add: actives_def)

lemma actives_nonfree: "actives d k = filter (\<lambda>a. is_active (type_of d a)) (nonfree d k)"
  unfolding actives_def nonfree_def filter_filter by (rule filter_cong) (auto simp: is_active_def)

context disk_label begin

abbreviation (input) "lok \<equiv> label_ok disk_inv allowed"

lemma label_okD:
  assumes "lok devs d"
  shows "table_ok devs d" "disk_inv devs d" "a \<in> set (actives d k) \<Longrightarrow> allowed devs d (type_of d a) (geom_of d a)"
  using assms by (auto simp: label_ok_def)

text \<open>Entering update mode.\<close>

lemma push_label_ok:
  assumes ok: "lok devs d" and m: "update_mode d = 0"
  defines "d' \<equiv> disk_push_update_mode T d"
  shows "lok devs d'" "lists d' = actives d" "actives d' = actives d" "update_mode d' = 1"
    "same_disk d d'"
    "\<And>a. (a \<in> set (disk_walk d) \<Longrightarrow> is_active (type_of d a)) \<Longrightarrow> core d' a = core d a"
    "next_addr d' = next_addr d"
proof -
  note t = label_okD[OF ok]
  note p = push_spec[OF table_okD(1)[OF t(1)] m, where T = T, folded d'_def]
  have c: "core d' a = core d a" if "a \<in> set (actives d k)" for a k
    using that by (intro p(3)) (simp add: actives_def)
  show act: "actives d' = actives d"
    unfolding actives_def[of d'] p(2)
    by (rule ext, rule filter_True) (use core_eqD(2)[OF c] in \<open>auto simp: actives_def\<close>)
  show "lok devs d'"
    unfolding label_ok_def
  proof (intro conjI allI ballI)
    show "table_ok devs d'" using push_table_ok[OF t(1) m] by (simp add: d'_def)
    show "disk_inv devs d'" using same_inv p(4) t(2) by blast
    fix k a assume "a \<in> set (actives d' k)"
    then have a: "a \<in> set (actives d k)" by (simp add: act)
    show "allowed devs d' (type_of d' a) (geom_of d' a)"
      using t(3)[OF a] core_eqD(1,2)[OF c[OF a]] same_allowed[OF p(4)] by simp
  qed
  show "lists d' = actives d" "update_mode d' = 1" "same_disk d d'" "next_addr d' = next_addr d"
    using p by simp_all
  show "core d' a = core d a" if "a \<in> set (disk_walk d) \<Longrightarrow> is_active (type_of d a)" for a
    using p(3) that by blast
qed

text \<open>Leaving update mode.\<close>

lemma pop_label_ok:
  assumes ok: "lok devs d" and m: "update_mode d = 1" and act: "lists d = actives d" and s: "strict ask"
  defines "d' \<equiv> disk_pop_update_mode T devs ask d"
  shows "lok devs d'" "tiled devs d'" "actives d' = actives d" "update_mode d' = 0" "same_disk d d'"
    "\<And>a. a < next_addr d \<Longrightarrow> core d' a = core d a"
proof -
  note t = label_okD[OF ok]
  obtain r d1 where al: "op_alloc_metadata T devs ask d = (r, d1)" by fastforce
  have allow: "\<forall>k. \<forall>a \<in> set (lists d k). allowed devs d (type_of d a) (geom_of d a)" using t(3) act by simp
  have a1: "table_ok devs d1" "actives d1 = actives d" "nonfree d1 = lists d1"
    "\<And>a. a < next_addr d \<Longrightarrow> core d1 a = core d a" "same_disk d d1" "update_mode d1 = 1"
    and nx: "next_addr d \<le> next_addr d1"
    using alloc_metadata[OF t(1) m act t(2) allow s al] m by auto
  have up: "table_ok devs (mode_down d1)"
    using a1(1) by simp
  have d': "d' = disk_alloc_freespace T devs (mode_down d1)"
    using m al by (simp add: d'_def disk_pop_update_mode_def disk_alloc_metadata_def)
  note f = alloc_freespace_spec[OF up, folded d']
  have nf: "nonfree (mode_down d1) = lists d1" using a1(3) by (simp add: nonfree_def fun_eq_iff)
  have lt: "a < next_addr d" if "a \<in> set (actives d k)" for a k
    using linked_fresh[OF table_okD(1)[OF t(1)] actives_sub[OF that]] .
  have c1: "core d' a = core d1 a" if "a < next_addr d1" for a
  proof -
    have "core d' a = core (mode_down d1) a"
    proof (rule f(6))
      show "a < next_addr (mode_down d1)" using that by simp
      assume "a \<in> set (disk_walk (mode_down d1))"
      then have "a \<in> set (lists d1 (is_logical (type_of d1 a)))"
        using walk_mem_lists[OF table_okD(1)[OF a1(1)], of a] by simp
      then have "a \<in> set (nonfree d1 (is_logical (type_of d1 a)))" using a1(3) by simp
      then show "\<not> is_free (type_of (mode_down d1) a)" by (simp add: nonfree_def)
    qed
    then show ?thesis by simp
  qed
  show c: "core d' a = core d a" if "a < next_addr d" for a
    using c1[of a] a1(4)[OF that] that nx by simp
  show "same_disk d d'" using a1(5) f(4) by (auto intro: same_disk_trans)
  show "update_mode d' = 0" using f(5) a1(6) by simp
  show "tiled devs d'" by (rule f(2))
  show ac: "actives d' = actives d"
  proof
    fix k
    have "actives d' k = filter (\<lambda>a. is_active (type_of d' a)) (lists d1 k)"
      using actives_nonfree[of d' k] f(3) nf by simp
    also have "\<dots> = filter (\<lambda>a. is_active (type_of d1 a)) (lists d1 k)"
      by (rule filter_cong[OF refl])
        (use core_eqD(2)[OF c1] linked_fresh[OF table_okD(1)[OF a1(1)]] in simp)
    also have "\<dots> = actives d k" using a1(2) by (simp add: actives_def[symmetric])
    finally show "actives d' k = actives d k" .
  qed
  show "lok devs d'"
    unfolding label_ok_def
  proof (intro conjI allI ballI)
    show "table_ok devs d'" by (rule f(1))
    have sd: "same_disk d d'" using a1(5) f(4) by (auto intro: same_disk_trans)
    show "disk_inv devs d'" using same_inv[OF sd t(2)] .
    fix k a assume "a \<in> set (actives d' k)"
    then have a: "a \<in> set (actives d k)" by (simp add: ac)
    show "allowed devs d' (type_of d' a) (geom_of d' a)"
      using t(3)[OF a] core_eqD(1,2)[OF c[OF lt[OF a]]] same_allowed[OF sd] by simp
  qed
qed

section \<open>Adding a partition\<close>

text \<open>A change of a partition that is in no list.\<close>

lemma unlisted_label_ok:
  assumes ok: "lok devs d" and l: "linked d'" and lists: "lists d' = lists d" and sd: "same_disk d d'"
    and core: "\<And>k a. a \<in> set (lists d k) \<Longrightarrow> core d' a = core d a"
  shows "lok devs d'" "actives d' = actives d"
proof -
  note t = label_okD[OF ok]
  show act: "actives d' = actives d"
    unfolding actives_def lists by (rule ext, rule filter_cong) (use core_eqD(2)[OF core] in auto)
  show "lok devs d'"
    unfolding label_ok_def
  proof (intro conjI allI ballI)
    show "table_ok devs d'"
      by (rule table_ok_sub[OF t(1) l, of "\<lambda>_ _. True"]) (use lists core sd in \<open>auto simp: same_disk_def\<close>)
    show "disk_inv devs d'" using same_inv[OF sd t(2)] .
    fix k a assume "a \<in> set (actives d' k)"
    then have a: "a \<in> set (actives d k)" by (simp add: act)
    show "allowed devs d' (type_of d' a) (geom_of d' a)"
      using t(3)[OF a] core_eqD(1,2)[OF core[OF actives_sub[OF a]]] same_allowed[OF sd] by simp
  qed
qed

text \<open>The result of alignment: a solution in a gap between the other partitions.\<close>

definition fits ::
    "dev_table \<Rightarrow> ('x, 'y) PedDisk \<Rightarrow> addr \<Rightarrow> PedConstraint \<Rightarrow> PedGeometry \<Rightarrow> addr list \<Rightarrow> addr list \<Rightarrow> bool" where
  "fits devs d part c g us vs \<longleftrightarrow>
     filter (\<lambda>x. x \<noteq> part) (lists d (is_logical (type_of d part))) = us @ vs
     \<and> (\<forall>x \<in> set us. g_end (geom_of d x) < g_start g) \<and> (\<forall>x \<in> set vs. g_end g < g_start (geom_of d x))
     \<and> ped_constraint_is_solution c g \<and> geom_wf g \<and> g_dev g = d_dev d \<and> allowed devs d (type_of d part) g"

lemma neighbours_same:
  assumes ok: "table_ok devs d" and hl: "has_list d (is_logical (type_of d part))"
    and d1: "linked d1" "lists d1 = lists d" "same_disk d d1"
    and ty: "\<And>a. type_of d1 a = type_of d a" and c: "\<And>a. a \<noteq> part \<Longrightarrow> core d1 a = core d a"
  shows "neighbours_ok d1 part"
proof -
  have pl: "part_list d1 = part_list d" using fun_cong[OF d1(2), of False] by simp
  have "has_list d1 (is_logical (type_of d1 part))"
    using hl by (auto simp: has_list_def ped_disk_extended_partition_def find_None_iff pl ty)
  moreover have "geoms_ok d1 (filter (\<lambda>a. a \<noteq> part) (lists d1 k))" for k
    using table_okD(3)[OF ok, of k] core_eqD(1)[OF c] d1(3) by (auto simp: geoms_ok_def d1(2) same_disk_def)
  ultimately show ?thesis using d1(1) by (simp add: neighbours_ok_def)
qed

lemma align_fits:
  assumes ok: "lok devs d" and hl: "has_list d (is_logical (type_of d part))"
    and c: "usable d c"
    and i: "ped_constraint_intersect (partition_get_overlap_constraint d part geom) (Some c) = cons" "cons \<noteq> None"
    and d1: "same_disk d d1" "g_dev (geom_of d1 part) = d_dev d" "neighbours_ok d1 part"
      "plain_type (type_of d1 part)" "span_ok (geom_of d1 part)" "type_of d1 part = type_of d part"
    and al: "op_partition_align T devs d1 part cons = Inr g"
  shows "\<exists>us vs. fits devs d part c g us vs"
proof -
  note t = label_okD[OF ok]
  have cw: "constraint_wf c" "constraint_small c" "constraint_dev c = d_dev d" using c by (simp_all add: usable_def)
  have ov: "partition_get_overlap_constraint d part geom \<noteq> None"
    using i by (cases "partition_get_overlap_constraint d part geom") (auto simp: ped_constraint_intersect_def)
  obtain m us vs where m: "partition_get_overlap_constraint d part geom = ped_constraint_new_from_max m"
    "geom_wf m" "g_dev m = d_dev d"
    "filter (\<lambda>x. x \<noteq> part) (lists d (is_logical (type_of d part))) = us @ vs"
    "\<And>x. x \<in> set us \<Longrightarrow> g_end (geom_of d x) < g_start m"
    "\<And>x. x \<in> set vs \<Longrightarrow> g_end m < g_start (geom_of d x)"
    using overlap_gap[OF t(1) refl hl ov] by metis
  obtain c' where c': "cons = Some c'" using i(2) by auto
  have dm: "constraint_dev c = g_dev m" using cw(3) m(3) by simp
  note r = restrict_constraint[OF m(2) cw(1,2) dm i(1)[unfolded m(1) c']]
  have d1d: "d_dev d1 = d_dev d" using d1(1) by (simp add: same_disk_def)
  have inv1: "disk_inv devs d1" using same_inv[OF d1(1) t(2)] .
  have "constraint_dev c' = d_dev d1" "g_dev (geom_of d1 part) = d_dev d1" using r(3) m(3) d1d d1(2) by simp_all
  from align_sound[OF al inv1 d1(3-5) c' r(1,2) this]
  have g: "ped_constraint_is_solution c' g" "geom_wf g" "g_dev g = d_dev d" "allowed devs d1 (type_of d part) g"
    using d1d d1(6) by simp_all
  have "same_disk d1 d" using d1(1) by (simp add: same_disk_def)
  then have "allowed devs d (type_of d part) g" using same_allowed g(4) by blast
  moreover have "ped_constraint_is_solution c g" "g_start m \<le> g_start g" "g_end g \<le> g_end m"
    using r(4)[OF g(2)] g(1,3) m(3) by auto
  ultimately show ?thesis
    using g m(4-6) unfolding fits_def by (intro exI[of _ us] exI[of _ vs]) force
qed

lemma place_active_spec:
  assumes ok: "lok devs d" and part: "unlisted d part" and hl: "has_list d (is_logical (type_of d part))"
    and ty: "plain_type (type_of d part)"
    and dev: "g_dev (geom_of d part) = d_dev d" and nc: "\<not> needs_clobber d" and s: "strict ask"
    and c: "usable d c" and pl: "place_active T devs ask part (Some c) d = (r, d')"
  shows "linked d'" "lists d' = lists d" "same_disk d d'" "update_mode d' = update_mode d"
    "next_addr d' = next_addr d" "type_of d' part = type_of d part" "d_heap d' part \<noteq> None"
    "\<And>a. a \<noteq> part \<Longrightarrow> core d' a = core d a"
    "r = Inr u \<Longrightarrow> \<exists>us vs. fits devs d part c (geom_of d' part) us vs"
proof -
  let ?cons = "ped_constraint_intersect (partition_get_overlap_constraint d part (geom_of d part)) (Some c)"
  note l = table_okD(1)[OF label_okD(1)[OF ok]]
  have al: "d_heap d part \<noteq> None" using part by (simp add: unlisted_def)
  obtain ok1 d1 where e: "partition_enumerate T part d = (ok1, d1)" by fastforce
  have r1: "renumbered d d1" using partition_enumerate_renumbered[OF l al, of T] e by simp
  then have d1: "linked d1" "lists d1 = lists d" "core d1 = core d" "same_disk d d1"
    "update_mode d1 = update_mode d" "next_addr d1 = next_addr d" by (simp_all add: renumbered_def)
  note k1 = core_eqD[OF fun_cong[OF d1(3)]]
  have al1: "d_heap d1 part \<noteq> None" using k1(5) al by simp
  have cases: "(\<exists>x. r = Inl x) \<and> (d' = d \<or> d' = d1)
      \<or> ?cons \<noteq> None \<and> (\<exists>g. r = Inr () \<and> op_partition_align T devs d1 part ?cons = Inr g
          \<and> d' = set_geom part g d1)"
    using pl s nc d1(4) e
    by (cases ok1) (auto simp: place_active_def strict_def Let_def partition_align_def same_disk_def set_geom_def
        split: if_splits sum.splits)
  show "linked d'" "lists d' = lists d" "same_disk d d'" "update_mode d' = update_mode d"
    "next_addr d' = next_addr d" "type_of d' part = type_of d part" "d_heap d' part \<noteq> None"
    using cases l al d1 al1 k1(2) set_geom_links[OF d1(1) al1] by (auto intro: same_disk_trans)
  show "core d' a = core d a" if "a \<noteq> part" for a
    using cases d1(3) set_geom_links(5)[OF d1(1) al1 that] core_heap by metis
  show "\<exists>us vs. fits devs d part c (geom_of d' part) us vs" if r: "r = Inr u"
  proof -
    obtain g where g: "?cons \<noteq> None" "op_partition_align T devs d1 part ?cons = Inr g"
      "d' = set_geom part g d1" using cases r by auto
    have "geom_of d' part = g" using set_geom_links(4)[OF d1(1) al1] g(3) by simp
    moreover have "neighbours_ok d1 part" by (rule neighbours_same[OF label_okD(1)[OF ok] hl d1(1,2,4) k1(2)]) (simp add: d1(3))
    ultimately show ?thesis using align_fits[OF ok hl c refl g(1) d1(4) _ _ _ _ _ g(2)] k1(1,2) dev ty part
      by (simp add: unlisted_def)
  qed
qed

text \<open>Linking the partition in.\<close>

lemma link_label_ok:
  assumes ok: "lok devs d" and act: "lists d = actives d" and lin: "linkable d part"
    and ty: "is_active (type_of d part)" "type_of d part \<noteq> PED_PARTITION_EXTENDED"
    and k: "k = is_logical (type_of d part)"
    and g: "geom_wf (geom_of d part)" "g_dev (geom_of d part) = d_dev d" "allowed devs d (type_of d part) (geom_of d part)"
    and xs: "lists d k = us @ vs"
    and us: "\<And>x. x \<in> set us \<Longrightarrow> g_end (geom_of d x) < g_start (geom_of d part)"
    and vs: "\<And>x. x \<in> set vs \<Longrightarrow> g_end (geom_of d part) < g_start (geom_of d x)"
    and inside: "k \<Longrightarrow> ped_geometry_test_inside (geom_of d (the (ped_disk_extended_partition d))) (geom_of d part)"
    and on: "g_end (geom_of d part) < dev_length (devs (d_dev d))"
  defines "d' \<equiv> disk_raw_add d part"
  shows "lok devs d'" "lists d' = actives d'" "relinked d k (us @ part # vs) d'"
proof -
  note a = add_table_ok[OF label_okD(1)[OF ok] lin ty(2) k g(1,2) xs us vs inside on, folded d'_def]
  show "relinked d k (us @ part # vs) d'" by (rule a(2))
  then have r: "lists d' k = us @ part # vs" "lists d' (\<not> k) = lists d (\<not> k)" "core d' = core d" "same_disk d d'"
    by (simp_all add: relinked_def)
  have cd: "core d' a = core d a" for a using r(3) by simp
  have old: "a \<in> set (actives d j)" if "a \<in> set (lists d' j)" "a \<noteq> part" for a j
  proof -
    have "a \<in> set (lists d j)" using that r(1,2) xs by (cases "j = k") auto
    then show ?thesis by (simp add: act)
  qed
  have "is_active (type_of d' a)" if "a \<in> set (lists d' j)" for a j
    using old[OF that] core_eqD(2)[OF cd[of a]] ty(1) by (cases "a = part") (auto simp: actives_def)
  then have ac: "actives d' j = lists d' j" for j by (simp add: actives_def)
  then show "lists d' = actives d'" by (simp add: fun_eq_iff)
  show "lok devs d'"
    unfolding label_ok_def
  proof (intro conjI allI ballI)
    show "table_ok devs d'" by (rule a(1))
    show "disk_inv devs d'" using same_inv[OF r(4) label_okD(2)[OF ok]] .
    fix j b assume "b \<in> set (actives d' j)"
    then have b: "b \<in> set (lists d' j)" by (simp add: ac)
    show "allowed devs d' (type_of d' b) (geom_of d' b)"
      using same_allowed[OF r(4) label_okD(3)[OF ok old[OF b]]] same_allowed[OF r(4) g(3)] core_eqD(1,2)[OF cd[of b]]
      by (cases "b = part") auto
  qed
qed

text \<open>The body of the operation, inside update mode.\<close>

lemma add_body_spec:
  assumes ok: "lok devs d" and act: "lists d = actives d" and part: "unlisted d part"
    and pt: "plain_type (type_of d part)"
    and k: "k = is_logical (type_of d part)" and hl: "has_list d k"
    and dev: "g_dev (geom_of d part) = d_dev d" and nc: "\<not> needs_clobber d" and s: "strict ask"
    and c: "usable d c" and b: "add_body T devs ask part (Some c) d = (r, d')"
  shows "lok devs d'" "lists d' = actives d'" "same_disk d d'" "update_mode d' = update_mode d"
    "next_addr d' = next_addr d" "\<And>a. a \<noteq> part \<Longrightarrow> core d' a = core d a"
    "r = Inl e \<Longrightarrow> lists d' = lists d"
    "r = Inr u \<Longrightarrow> \<exists>us vs. lists d k = us @ vs \<and> lists d' k = us @ part # vs
       \<and> lists d' (\<not> k) = lists d (\<not> k) \<and> ped_constraint_is_solution c (geom_of d' part)"
    "type_of d' part = type_of d part"
proof -
  note ty = plain_typeD[OF pt]
  obtain r1 d1 where p: "place_active T devs ask part (Some c) d = (r1, d1)" by fastforce
  note pa = place_active_spec[OF ok part hl[unfolded k] pt dev nc s c p]
  have notin: "part \<notin> set (lists d j)" for j using part by (cases j) (simp_all add: unlisted_def)
  have c1: "core d1 a = core d a" if "a \<in> set (lists d j)" for a j
    using pa(8)[of a] that notin[of j] by blast
  note u1 = unlisted_label_ok[OF ok pa(1,2,3) c1]
  have act1: "lists d1 = actives d1" using pa(2) act u1(2) by simp
  have "ped_partition_is_active (node d part)" using ty(1) by (simp add: active_type)
  then have b': "(r, d') = (case r1 of Inl e \<Rightarrow> (Inl e, d1) | Inr _ \<Rightarrow>
        (case check_partition T devs ask d1 part of Inl e \<Rightarrow> (Inl e, d1)
         | Inr _ \<Rightarrow> (Inr (), disk_raw_add d1 part)))"
    using b p by (simp add: add_body_def)
  show "r = Inl e \<Longrightarrow> lists d' = lists d"
    using b' pa(2) by (auto split: sum.splits)
  have "lok devs d' \<and> lists d' = actives d' \<and> same_disk d d' \<and> update_mode d' = update_mode d
      \<and> next_addr d' = next_addr d \<and> (\<forall>a. a \<noteq> part \<longrightarrow> core d' a = core d a) \<and> type_of d' part = type_of d part \<and>
      (r = Inr u \<longrightarrow> (\<exists>us vs. lists d k = us @ vs \<and> lists d' k = us @ part # vs
       \<and> lists d' (\<not> k) = lists d (\<not> k) \<and> ped_constraint_is_solution c (geom_of d' part)))"
  proof (cases "\<exists>x. r1 = Inr () \<and> check_partition T devs ask d1 part = Inr x")
    case False
    then have "d' = d1" "\<exists>x. r = Inl x" using b' by (auto split: sum.splits)
    then show ?thesis using u1(1) act1 pa(3-6,8) by auto
  next
    case True
    then obtain x where r1: "r1 = Inr ()" and ch: "check_partition T devs ask d1 part = Inr x" by blast
    have d': "d' = disk_raw_add d1 part" "r = Inr ()" using b' r1 ch by simp_all
    obtain us vs where f: "fits devs d part c (geom_of d1 part) us vs" using pa(9)[OF r1] by blast
    have filt: "filter (\<lambda>x. x \<noteq> part) (lists d k) = lists d k" using notin[of k] by (auto simp: filter_id_conv)
    have xs: "lists d k = us @ vs" using f k filt by (simp add: fits_def)
    have g: "geom_of d1 a = geom_of d a" if "a \<in> set (us @ vs)" for a
      using core_eqD(1)[OF c1[of a k]] that xs by simp
    have in_us: "g_end (geom_of d1 a) < g_start (geom_of d1 part)" if "a \<in> set us" for a
      using f that g[of a] by (simp add: fits_def)
    have in_vs: "g_end (geom_of d1 part) < g_start (geom_of d1 a)" if "a \<in> set vs" for a
      using f that g[of a] by (simp add: fits_def)
    have k1: "k = is_logical (type_of d1 part)" using pa(6) k by simp
    have ext1: "ped_disk_extended_partition d1 = ped_disk_extended_partition d"
      using ext_cong[of d1 d] fun_cong[OF pa(2), of False] core_eqD(2)[OF c1[of _ False]] by simp
    have lin: "linkable d1 part"
      using pa(2,6,7) notin ty(2) hl k ext1
      by (simp add: linkable_def has_list_def)
    have dd: "d_dev d1 = d_dev d" using pa(3) by (simp add: same_disk_def)
    have geo: "geom_wf (geom_of d1 part)" "g_dev (geom_of d1 part) = d_dev d1"
      and sol: "ped_constraint_is_solution c (geom_of d1 part)" and al: "allowed devs d (type_of d1 part) (geom_of d1 part)"
      using f dd pa(6) by (simp_all add: fits_def)
    have al1: "allowed devs d1 (type_of d1 part) (geom_of d1 part)" using same_allowed[OF pa(3) al] .
    note chk = check_partition_strict[OF s ch]
    have xs1: "lists d1 k = us @ vs" using pa(2) xs by simp
    have t1: "is_active (type_of d1 part)" "type_of d1 part \<noteq> PED_PARTITION_EXTENDED" using pa(6) ty by simp_all
    note a = link_label_ok[OF u1(1) act1 lin t1 k1 geo al1 xs1 in_us in_vs chk(1)[folded k1] chk(2), folded d'(1)]
    have rl: "lists d' k = us @ part # vs" "lists d' (\<not> k) = lists d (\<not> k)" "core d' = core d1"
      "same_disk d1 d'" "update_mode d' = update_mode d1" "next_addr d' = next_addr d1"
      using a(3) pa(2) by (simp_all add: relinked_def)
    have "ped_constraint_is_solution c (geom_of d' part)" "type_of d' part = type_of d part"
      using sol core_eqD(1,2)[of d' part d1] rl(3) pa(6) by simp_all
    then show ?thesis using a(1,2) same_disk_trans[OF pa(3) rl(4)] rl pa(4,5,8) xs by auto
  qed
  then show "lok devs d'" "lists d' = actives d'" "same_disk d d'" "update_mode d' = update_mode d"
    "next_addr d' = next_addr d" "\<And>a. a \<noteq> part \<Longrightarrow> core d' a = core d a"
    "r = Inr u \<Longrightarrow> \<exists>us vs. lists d k = us @ vs \<and> lists d' k = us @ part # vs
       \<and> lists d' (\<not> k) = lists d (\<not> k) \<and> ped_constraint_is_solution c (geom_of d' part)"
    "type_of d' part = type_of d part"
    by blast+
qed

theorem add_partition_spec:
  assumes ok: "disk_ok disk_inv allowed devs d" and part: "unlisted d part"
    and ty: "plain_type (type_of d part)"
    and dev: "g_dev (geom_of d part) = d_dev d" and nc: "\<not> needs_clobber d" and s: "strict ask"
    and c: "usable d c" and b: "ped_disk_add_partition T devs ask part (Some c) d = (r, d')"
  shows "disk_ok disk_inv allowed devs d'" "same_disk d d'"
    "\<And>a k. a \<in> set (actives d k) \<Longrightarrow> core d' a = core d a"
    "r = Inl e \<Longrightarrow> actives d' = actives d"
    "r = Inr u \<Longrightarrow> one_more d part d' \<and> ped_constraint_is_solution c (geom_of d' part)"
    "type_of d' part = type_of d part"
proof -
  have lok: "lok devs d" and m: "update_mode d = 0" using ok by (simp_all add: disk_ok_def)
  let ?k = "is_logical (type_of d part)"
  let ?concl = "disk_ok disk_inv allowed devs d' \<and> same_disk d d' \<and>
    (\<forall>k. \<forall>a \<in> set (actives d k). core d' a = core d a) \<and> (r = Inl e \<longrightarrow> actives d' = actives d) \<and>
    type_of d' part = type_of d part \<and>
    (r = Inr u \<longrightarrow> one_more d part d' \<and> ped_constraint_is_solution c (geom_of d' part))"
  have ?concl
  proof (cases "partition_check_basic_sanity T devs d part")
    case (Inl x)
    then have "d' = d" "r = Inl x" using b by (simp_all add: ped_disk_add_partition_def)
    then show ?thesis using ok by simp
  next
    case (Inr x)
    define d0 where "d0 = disk_push_update_mode T d"
    obtain d1 where body: "add_body T devs ask part (Some c) d0 = (r, d1)"
      and d': "d' = disk_pop_update_mode T devs ask d1"
      using b Inr by (auto simp: ped_disk_add_partition_def d0_def split: prod.splits)
    note p = push_label_ok[OF lok m, folded d0_def]
    note t = table_okD[OF label_okD(1)[OF lok]]
    have nw: "part \<notin> set (disk_walk d)" using part set_disk_walk[OF t(1)] by (simp add: unlisted_def)
    have cp: "core d0 part = core d part" using p(6) nw by blast
    have ca: "core d0 a = core d a" if "a \<in> set (actives d k)" for a k
      using that by (intro p(6)) (simp add: actives_def)
    have un: "unlisted d0 part"
      using part core_eqD(1,5)[OF cp] p(2) by (auto simp: unlisted_def actives_def lists_def)
    have act0: "lists d0 = actives d0" using p(2,3) by simp
    have dd: "d_dev d0 = d_dev d" "needs_clobber d0 = needs_clobber d" using p(5) by (simp_all add: same_disk_def)
    have e0: "ped_disk_extended_partition d0 = None \<longleftrightarrow> ped_disk_extended_partition d = None"
    proof -
      have "part_list d0 = actives d False" using fun_cong[OF p(2), of False] by simp
      moreover have "type_of d0 a = type_of d a" if "a \<in> set (actives d False)" for a
        using core_eqD(2)[OF ca[OF that]] .
      ultimately show ?thesis
        by (auto simp: ext_None_iff actives_def is_active_def)
    qed
    have hl: "has_list d0 ?k"
      using Inr e0 by (auto simp: partition_check_basic_sanity_def has_list_def split: if_splits)
    have us: "usable d0 c" using c dd by (simp add: usable_def)
    note k0 = core_eqD[OF cp]
    have ty0: "plain_type (type_of d0 part)"
      "?k = is_logical (type_of d0 part)" "g_dev (geom_of d0 part) = d_dev d0" "\<not> needs_clobber d0"
      using ty dev nc dd k0(1,2) by simp_all
    note a = add_body_spec[OF p(1) act0 un ty0(1,2) hl ty0(3,4) s us body]
    have m1: "update_mode d1 = 1" using a(4) p(4) by simp
    note q = pop_label_ok[OF a(1) m1 a(2) s, folded d']
    have fr: "b < next_addr d1" if "b \<in> set (actives d k)" for b k
      using linked_fresh[OF t(1) actives_sub[OF that]] a(5) p(7) by simp
    have keep: "core d' b = core d b" if m: "b \<in> set (actives d k)" for b k
    proof -
      have "b \<noteq> part" using m part by (cases k) (auto simp: unlisted_def actives_def)
      then show ?thesis using q(6)[OF fr[OF m]] a(6)[of b] ca[OF m] by simp
    qed
    have sd: "same_disk d d'" using p(5) a(3) q(5) by (blast intro: same_disk_trans)
    have "d_heap d0 part \<noteq> None" using un by (simp add: unlisted_def)
    then have "part < next_addr d0" using linkedD(5) table_okD(1)[OF label_okD(1)[OF p(1)]] by blast
    then have cp': "core d' part = core d1 part" using q(6) a(5) by simp
    have fin: "disk_ok disk_inv allowed devs d'" using q(1,2,4) by (simp add: disk_ok_def)
    have ad: "actives d' = lists d1" using q(3) a(2) by simp
    have "actives d' = actives d" if "r = Inl e" using a(7)[OF that] ad p(2) by simp
    moreover have "one_more d part d' \<and> ped_constraint_is_solution c (geom_of d' part)" if "r = Inr u"
      using a(8)[OF that] core_eqD(1)[OF cp'] unfolding one_more_def Let_def ad p(2) by auto
    moreover have "type_of d' part = type_of d part" using core_eqD(2)[OF cp'] a(9) k0(2) by simp
    ultimately show ?thesis using fin sd keep by blast
  qed
  then show "disk_ok disk_inv allowed devs d'" "same_disk d d'"
    "\<And>a k. a \<in> set (actives d k) \<Longrightarrow> core d' a = core d a"
    "r = Inl e \<Longrightarrow> actives d' = actives d"
    "r = Inr u \<Longrightarrow> one_more d part d' \<and> ped_constraint_is_solution c (geom_of d' part)"
    "type_of d' part = type_of d part"
    by blast+
qed

section \<open>A new partition object\<close>

theorem alloc_node_disk_ok:
  assumes ok: "disk_ok disk_inv allowed devs d" and al: "alloc_node d p = (d', part)" and sp: "span_ok (p_geom p)"
  shows "disk_ok disk_inv allowed devs d'" "actives d' = actives d" "same_disk d d'" "unlisted d' part"
    "node d' part = p" "\<And>a. a \<in> set (lists d k) \<Longrightarrow> core d' a = core d a"
proof -
  have lok: "lok devs d" and tl: "tiled devs d" and m: "update_mode d = 0" using ok by (simp_all add: disk_ok_def)
  note l = table_okD(1)[OF label_okD(1)[OF lok]]
  note p = alloc_node_props[OF l al]
  show c: "core d' a = core d a" if "a \<in> set (lists d k)" for a k
    using core_heap[OF p(3)[OF linked_fresh[OF l that]]] .
  note u = unlisted_label_ok[OF lok p(5,4,6) c]
  show "actives d' = actives d" by (rule u(2))
  show "same_disk d d'" "node d' part = p" by (rule p(6), rule p(2))
  have "part \<notin> set (lists d' k)" for k using linked_fresh[OF l, of part k] p(1,4) by auto
  from this[of False] this[of True] show "unlisted d' part" using p(2,9) sp by (simp add: unlisted_def)
  have g: "geom_of d' a = geom_of d a" if "a \<in> set (lists d k)" for a k using core_eqD(1)[OF c[OF that]] .
  have "gapless d' le (lists d k) = gapless d le (lists d k)" "end_of d' le (lists d k) = end_of d le (lists d k)" for le k
    using g by (auto intro!: gapless_cong end_of_cong)
  from this[of _ True] this[of _ False]
  moreover have "part_list d' = part_list d" using fun_cong[OF p(4), of False] by simp
  ultimately have "tiled devs d'"
    using tl p(4,10,11) ext_Some_mem[of d] g[of _ False] by (auto simp: tiled_def)
  then show "disk_ok disk_inv allowed devs d'" using u(1) p(7) m by (simp add: disk_ok_def)
qed

section \<open>Removing and deleting partitions\<close>

lemma shrink_label_ok:
  assumes ok: "lok devs d" and act: "lists d = actives d" and l: "linked d'"
    and lists: "\<And>k. lists d' k = remove1 part (lists d k)" and sd: "same_disk d d'"
    and core: "\<forall>a. a \<noteq> part \<longrightarrow> core d' a = core d a"
  shows "lok devs d'" "lists d' = actives d'"
proof -
  note t = label_okD[OF ok]
  have dist: "distinct (lists d k)" for k using linkedD(1)[OF table_okD(1)[OF t(1)]] .
  have flt: "lists d' k = filter (\<lambda>a. a \<noteq> part) (lists d k)" for k
    using lists distinct_remove1_removeAll[OF dist, of part k] by (simp add: removeAll_filter_not_eq) metis
  have c: "core d' a = core d a" "a \<in> set (actives d k)" if "a \<in> set (lists d' k)" for a k
    using that core flt act by auto
  have ac: "actives d' k = lists d' k" for k
    unfolding actives_def by (rule filter_True) (use c core_eqD(2)[OF c(1)] in \<open>auto simp: actives_def\<close>)
  then show "lists d' = actives d'" by (simp add: fun_eq_iff)
  show "lok devs d'"
    unfolding label_ok_def
  proof (intro conjI allI ballI)
    show "table_ok devs d'"
      by (rule table_ok_sub[OF t(1) l, of "\<lambda>_ a. a \<noteq> part"]) (use flt c sd in \<open>auto simp: same_disk_def\<close>)
    show "disk_inv devs d'" using same_inv[OF sd t(2)] .
    fix k a assume "a \<in> set (actives d' k)"
    then have a: "a \<in> set (lists d' k)" by (simp add: ac)
    show "allowed devs d' (type_of d' a) (geom_of d' a)"
      using t(3)[OF c(2)[OF a]] core_eqD(1,2)[OF c(1)[OF a]] same_allowed[OF sd] by simp
  qed
qed

lemma renumbered_disk_ok:
  assumes ok: "disk_ok disk_inv allowed devs d" and r: "renumbered d d'"
  shows "disk_ok disk_inv allowed devs d'" "actives d' = actives d"
proof -
  have r': "linked d'" "lists d' = lists d" "core d' = core d" "same_disk d d'" "update_mode d' = update_mode d"
    using r by (simp_all add: renumbered_def)
  have ok': "lok devs d" "tiled devs d" "update_mode d = 0" using ok by (simp_all add: disk_ok_def)
  have c: "core d' a = core d a" for a using r'(3) by simp
  note u = unlisted_label_ok[OF ok'(1) r'(1,2,4) c]
  show "actives d' = actives d" by (rule u(2))
  have pl: "part_list d' = part_list d" using fun_cong[OF r'(2), of False] by simp
  have ext: "ped_disk_extended_partition d' = ped_disk_extended_partition d"
    using ext_cong[OF pl] core_eqD(2)[OF c] by simp
  have "tiled devs d'"
    using ok'(2) gapless_cong[of _ d' d] end_of_cong[of _ d' d] core_eqD(1)[OF c] r'(4)
    by (simp add: tiled_def pl ext r'(2) same_disk_def)
  then show "disk_ok disk_inv allowed devs d'" using u(1) r'(5) ok'(3) by (simp add: disk_ok_def)
qed

text \<open>What is common to removing and to deleting one partition.\<close>

lemma drop_and_pop:
  assumes ok: "disk_ok disk_inv allowed devs d" and part: "part \<in> set (actives d k)" and s: "strict ask"
  defines "d0 \<equiv> disk_push_update_mode T d"
  assumes l: "linked d1" and lists: "\<And>k. lists d1 k = remove1 part (lists d0 k)" and sd: "same_disk d0 d1"
    and core: "\<forall>a. a \<noteq> part \<longrightarrow> core d1 a = core d0 a" and m: "update_mode d1 = update_mode d0"
    and nx: "next_addr d1 = next_addr d0"
  defines "d' \<equiv> disk_pop_update_mode T devs ask d1"
  shows "disk_ok disk_inv allowed devs d'" "same_disk d d'" "actives d' j = remove1 part (actives d j)"
    "\<And>a. a \<in> set (actives d j) \<Longrightarrow> a \<noteq> part \<Longrightarrow> core d' a = core d a" "core d' part = core d1 part"
proof -
  have lok: "lok devs d" and m0: "update_mode d = 0" using ok by (simp_all add: disk_ok_def)
  note p = push_label_ok[OF lok m0, folded d0_def]
  have act0: "lists d0 = actives d0" using p(2,3) by simp
  note a = shrink_label_ok[OF p(1) act0 l lists sd core]
  have m1: "update_mode d1 = 1" using m p(4) by simp
  note q = pop_label_ok[OF a(1) m1 a(2) s, folded d'_def]
  have fr: "b < next_addr d1" if "b \<in> set (actives d k)" for b k
    using linked_fresh[OF table_okD(1)[OF label_okD(1)[OF lok]] actives_sub[OF that]] nx p(7) by simp
  show "disk_ok disk_inv allowed devs d'" using q(1,2,4) by (simp add: disk_ok_def)
  show "same_disk d d'" using p(5) sd q(5) by (blast intro: same_disk_trans)
  show "actives d' j = remove1 part (actives d j)" using q(3) a(2)[symmetric] lists p(2) by simp
  show "core d' b = core d b" if m: "b \<in> set (actives d j)" "b \<noteq> part" for b
  proof -
    have "core d0 b = core d b" using m(1) by (intro p(6)) (simp add: actives_def)
    then show ?thesis using q(6)[OF fr[OF m(1)]] core m(2) by simp
  qed
  show "core d' part = core d1 part" using q(6)[OF fr[OF part]] .
qed

lemma active_removable:
  assumes ok: "disk_ok disk_inv allowed devs d" and part: "part \<in> set (actives d k)"
    and ty: "type_of d part \<noteq> PED_PARTITION_EXTENDED"
  defines "d0 \<equiv> disk_push_update_mode T d"
  shows "linked d0" "removable d0 part" "core d0 part = core d part"
proof -
  have lok: "lok devs d" and m0: "update_mode d = 0" using ok by (simp_all add: disk_ok_def)
  note p = push_label_ok[OF lok m0, folded d0_def]
  show l: "linked d0" using table_okD(1)[OF label_okD(1)[OF p(1)]] .
  show c: "core d0 part = core d part" using part by (intro p(6)) (simp add: actives_def)
  show "removable d0 part"
    using mem_walk[OF l, of part k] part p(2) core_eqD(2)[OF c] ty by (simp add: removable_def)
qed

theorem remove_partition_spec:
  assumes ok: "disk_ok disk_inv allowed devs d" and part: "part \<in> set (actives d k)"
    and ty: "type_of d part \<noteq> PED_PARTITION_EXTENDED" and s: "strict ask"
  defines "d' \<equiv> ped_disk_remove_partition T devs ask part d"
  shows "disk_ok disk_inv allowed devs d'" "same_disk d d'" "actives d' j = remove1 part (actives d j)"
    "\<And>a. a \<in> set (actives d j) \<Longrightarrow> core d' a = core d a"
proof -
  define d0 where "d0 = disk_push_update_mode T d"
  note r = active_removable[OF ok part ty, folded d0_def]
  note l = raw_remove_lists[OF r(1,2)]
  have "\<forall>a. a \<noteq> part \<longrightarrow> core (disk_raw_remove d0 part) a = core d0 a" using l(3) by simp
  note p = drop_and_pop[OF ok part s, folded d0_def, OF l(1,2,4) this l(5,6)]
  let ?e = "disk_pop_update_mode T devs ask (disk_raw_remove d0 part)"
  have re: "renumbered ?e d'"
    using enumerate_partitions_renumbered[of ?e T] p(1)
    unfolding d'_def ped_disk_remove_partition_def d0_def by (simp add: disk_ok_def label_ok_def table_ok_def)
  note q = renumbered_disk_ok[OF p(1) re]
  have re': "core d' = core ?e" "same_disk ?e d'" using re by (simp_all add: renumbered_def)
  show "disk_ok disk_inv allowed devs d'" by (rule q(1))
  show "same_disk d d'" using p(2) re'(2) by (rule same_disk_trans)
  show "actives d' j = remove1 part (actives d j)" using q(2) p(3) by simp
  show "core d' a = core d a" if "a \<in> set (actives d j)" for a
    using p(4)[OF that] p(5) re'(1) l(3) r(3) by (cases "a = part") simp_all
qed

theorem delete_partition_spec:
  assumes ok: "disk_ok disk_inv allowed devs d" and part: "part \<in> set (actives d k)"
    and ty: "type_of d part \<noteq> PED_PARTITION_EXTENDED" and s: "strict ask"
  defines "d' \<equiv> ped_disk_delete_partition T devs ask part d"
  shows "disk_ok disk_inv allowed devs d'" "same_disk d d'" "actives d' j = remove1 part (actives d j)"
    "\<And>a. a \<in> set (actives d j) \<Longrightarrow> a \<noteq> part \<Longrightarrow> core d' a = core d a" "d_heap d' part = None"
proof -
  define d0 where "d0 = disk_push_update_mode T d"
  note r = active_removable[OF ok part ty, folded d0_def]
  define d1 where "d1 = ped_partition_destroy part (remove_nested T part d0)"
  have d: "linked d1" "\<And>k. lists d1 k = remove1 part (lists d0 k)" "core d1 = (core d0)(part := None)"
    "same_disk d0 d1" "update_mode d1 = update_mode d0" "next_addr d1 = next_addr d0"
    using remove_nested_drops[OF r(1,2), of T, folded d1_def] by (simp_all add: drops_def)
  have c: "\<forall>a. a \<noteq> part \<longrightarrow> core d1 a = core d0 a" using d(3) by simp
  note p = drop_and_pop[OF ok part s, folded d0_def, OF d(1,2,4) c d(5,6)]
  have d': "d' = disk_pop_update_mode T devs ask d1"
    using ty core_eqD(2)[OF r(3)] by (simp add: d'_def ped_disk_delete_partition_def d0_def d1_def Let_def)
  show "disk_ok disk_inv allowed devs d'" "same_disk d d'" "actives d' j = remove1 part (actives d j)"
    "\<And>a. a \<in> set (actives d j) \<Longrightarrow> a \<noteq> part \<Longrightarrow> core d' a = core d a"
    unfolding d' using p by simp_all
  have "core d' part = None" unfolding d' p(5) d(3) by simp
  then show "d_heap d' part = None" by (simp add: core_def)
qed

section \<open>Moving a partition\<close>

text \<open>The changed partition, taken out of its list: the rest of the table is unchanged.\<close>

lemma moved_out:
  assumes ok: "lok devs d" and act: "lists d = actives d" and part: "part \<in> set (lists d k)"
    and ty: "type_of d part \<noteq> PED_PARTITION_EXTENDED"
    and l: "linked d1" and lists: "lists d1 = lists d" and type: "type_of d1 part = type_of d part"
    and sd: "same_disk d d1" and core: "\<forall>a. a \<noteq> part \<longrightarrow> core d1 a = core d a"
  defines "d2 \<equiv> disk_raw_remove d1 part"
  shows "lok devs d2" "lists d2 = actives d2" "lists d2 j = remove1 part (lists d j)" "core d2 = core d1"
    "same_disk d1 d2" "update_mode d2 = update_mode d1" "next_addr d2 = next_addr d1"
    "linkable d2 part" "ped_disk_extended_partition d2 = ped_disk_extended_partition d1"
proof -
  have kk: "k = is_logical (type_of d part)"
    using linkedD(3)[OF table_okD(1)[OF label_okD(1)[OF ok]] part] by simp
  have rm: "removable d1 part"
    using mem_walk[OF l, of part k] part lists type ty by (simp add: removable_def)
  note r = raw_remove_lists[OF l rm, folded d2_def]
  show "core d2 = core d1" "same_disk d1 d2" "update_mode d2 = update_mode d1" "next_addr d2 = next_addr d1"
    by (fact r)+
  show li: "lists d2 j = remove1 part (lists d j)" for j using r(2) lists by simp
  have "\<forall>a. a \<noteq> part \<longrightarrow> core d2 a = core d a" using r(3) core by simp
  note s = shrink_label_ok[OF ok act r(1) li same_disk_trans[OF sd r(4)] this]
  show "lok devs d2" "lists d2 = actives d2" by (fact s)+
  have c: "core d2 a = core d1 a" for a using r(3) by simp
  have ty2: "type_of d2 a = type_of d1 a" for a using core_eqD(2)[OF c] .
  show ext: "ped_disk_extended_partition d2 = ped_disk_extended_partition d1"
  proof (cases "ped_disk_extended_partition d1")
    case None
    then have "\<forall>a \<in> set (part_list d2). type_of d2 a \<noteq> PED_PARTITION_EXTENDED"
      using r(2)[of False] ty2 set_remove1_subset[of part "part_list d1"] by (auto simp: ext_None_iff)
    then have "ped_disk_extended_partition d2 = None" by (simp only: ext_None_iff)
    with None show ?thesis by simp
  next
    case (Some e)
    then have "e \<noteq> part" using ext_Some_mem[OF Some] type ty by auto
    then show ?thesis
      using Some ext_Some_mem[OF Some] ext_Some_iff[OF r(1), of e] r(2)[of False] ty2 by simp
  qed
  have al: "d_heap d1 part \<noteq> None" using linkedD(2)[OF l, of part k] part lists by simp
  have "part \<in> set (lists d1 k)" using part lists by simp
  then have "has_list d2 k"
    using ext by (cases "ped_disk_extended_partition d1") (auto simp: has_list_def lists_def)
  moreover have "part \<notin> set (lists d2 k)"
    using li linkedD(1)[OF table_okD(1)[OF label_okD(1)[OF ok]]] by simp
  ultimately show "linkable d2 part"
    using al core_eqD(5)[OF c] ty2 type ty kk by (simp add: linkable_def)
qed

text \<open>The body of the operation, inside update mode, when it succeeds.\<close>

lemma set_geom_body_spec:
  assumes ok: "lok devs d" and act: "lists d = actives d" and part: "part \<in> set (lists d k)"
    and pt: "plain_type (type_of d part)"
    and dev: "g_dev new_geom = d_dev d" "span_ok new_geom" and nc: "\<not> needs_clobber d" and s: "strict ask"
    and c: "usable d c" and b: "set_geom_body T devs ask part (Some c) new_geom d = (Inr u, d')"
  shows "lok devs d'" "lists d' = actives d'" "same_disk d d'" "update_mode d' = update_mode d"
    "next_addr d' = next_addr d" "\<And>a. a \<noteq> part \<Longrightarrow> core d' a = core d a"
    "filter (\<lambda>a. a \<noteq> part) (lists d' j) = filter (\<lambda>a. a \<noteq> part) (lists d j)"
    "set (lists d' j) = set (lists d j)" "ped_constraint_is_solution c (geom_of d' part)"
    "type_of d' part = type_of d part"
proof -
  let ?cons = "ped_constraint_intersect (partition_get_overlap_constraint d part new_geom) (Some c)"
  let ?dn = "set_geom part new_geom d"
  note t = label_okD[OF ok] and l = table_okD(1)[OF label_okD(1)[OF ok]] and ty = plain_typeD(2)[OF pt]
  have kk: "k = is_logical (type_of d part)" using linkedD(3)[OF l part] by simp
  have al: "d_heap d part \<noteq> None" using linkedD(2)[OF l part] .
  note sn = set_geom_links[OF l al, where g = new_geom]
  have ncn: "\<not> needs_clobber ?dn" using nc sn(6) by (simp add: same_disk_def)
  obtain g where cons: "?cons \<noteq> None" and ag: "op_partition_align T devs ?dn part ?cons = Inr g"
    and ch: "check_partition T devs ask (set_geom part g ?dn) part = Inr ()"
    and d': "d' = disk_raw_add (disk_raw_remove (set_geom part g ?dn) part) part"
    using b ncn
    by (auto simp: set_geom_body_def Let_def partition_align_def set_geom_def[symmetric] split: if_splits sum.splits)
  define d1 where "d1 = set_geom part g ?dn"
  note s1 = set_geom_links[OF sn(1,11), where g = g, folded d1_def]
  have sd1: "same_disk d d1" using sn(6) s1(6) by (rule same_disk_trans)
  have li1: "lists d1 = lists d" and ty1: "type_of d1 part = type_of d part" using s1 sn by simp_all
  have c1: "\<forall>a. a \<noteq> part \<longrightarrow> core d1 a = core d a" using s1(5) sn(5) by (simp add: core_def)
  have hl: "has_list d k"
    using part by (cases "ped_disk_extended_partition d") (auto simp: has_list_def lists_def)
  have dvn: "g_dev (geom_of ?dn part) = d_dev d" using sn(4) dev(1) by simp
  have nbn: "neighbours_ok ?dn part" by (rule neighbours_same[OF label_okD(1)[OF ok] hl[unfolded kk] sn(1,2,6,3)]) (simp add: core_def sn(5))
  obtain us vs where f: "fits devs d part c g us vs"
    using align_fits[OF ok hl[unfolded kk] c refl cons sn(6) dvn nbn _ _ _ ag] sn(3,4) pt dev(2) by auto
  have geo: "filter (\<lambda>x. x \<noteq> part) (lists d k) = us @ vs" "ped_constraint_is_solution c g" "geom_wf g"
    "g_dev g = d_dev d" "allowed devs d (type_of d part) g"
    and us: "\<And>x. x \<in> set us \<Longrightarrow> g_end (geom_of d x) < g_start g"
    and vs: "\<And>x. x \<in> set vs \<Longrightarrow> g_end g < g_start (geom_of d x)"
    using f kk by (simp_all add: fits_def)
  define d2 where "d2 = disk_raw_remove d1 part"
  note m = moved_out[OF ok act part ty s1(1) li1 ty1 sd1 c1, folded d2_def]
  have dist: "distinct (lists d j)" for j using linkedD(1)[OF l] .
  have rmf: "remove1 part (lists d j) = filter (\<lambda>x. x \<noteq> part) (lists d j)" for j
    using distinct_remove1_removeAll[OF dist, of part j] by (simp add: removeAll_filter_not_eq) metis
  have xs2: "lists d2 k = us @ vs" using m(3)[of k] rmf geo(1) by simp
  have c2: "core d2 a = core d1 a" for a using m(4) by simp
  have g2: "geom_of d2 part = g" using core_eqD(1)[OF c2] s1(4) by simp
  have np: "part \<notin> set (us @ vs)" unfolding geo(1)[symmetric] by simp
  have gx: "geom_of d2 x = geom_of d x" if "x \<in> set (us @ vs)" for x
  proof -
    have "x \<noteq> part" using that np by blast
    then have "core d2 x = core d x" using c2 c1 by simp
    then show ?thesis by (rule core_eqD(1))
  qed
  have ty2: "type_of d2 part = type_of d part" using core_eqD(2)[OF c2] ty1 by simp
  have k2: "k = is_logical (type_of d2 part)" using kk ty2 by simp
  have dd: "d_dev d2 = d_dev d" "d_dev d1 = d_dev d" and sd2: "same_disk d d2"
    using sd1 m(5) by (auto simp: same_disk_def)
  have pact: "is_active (type_of d2 part)"
  proof -
    have "part \<in> set (actives d k)" using part by (simp only: act)
    then show ?thesis using ty2 by (simp add: actives_def)
  qed
  note chk = check_partition_strict[OF s ch[folded d1_def]]
  have ins: "ped_geometry_test_inside (geom_of d2 (the (ped_disk_extended_partition d2))) (geom_of d2 part)" if k
    using chk(1) that kk ty1 m(9) core_eqD(1)[OF c2] by simp
  have on: "g_end (geom_of d2 part) < dev_length (devs (d_dev d2))"
    using chk(2) core_eqD(1)[OF c2] dd by simp
  have in_us: "g_end (geom_of d2 x) < g_start (geom_of d2 part)" if "x \<in> set us" for x
    using us[OF that] gx[of x] that g2 by simp
  have in_vs: "g_end (geom_of d2 part) < g_start (geom_of d2 x)" if "x \<in> set vs" for x
    using vs[OF that] gx[of x] that g2 by simp
  have tyx: "type_of d2 part \<noteq> PED_PARTITION_EXTENDED" using ty ty2 by simp
  have geo2: "geom_wf (geom_of d2 part)" "g_dev (geom_of d2 part) = d_dev d2" "allowed devs d2 (type_of d2 part) (geom_of d2 part)"
    using geo g2 ty2 dd same_allowed[OF sd2 geo(5)] by simp_all
  note a = link_label_ok[OF m(1,2,8) pact tyx k2 geo2 xs2 in_us in_vs ins on, folded d'[folded d1_def d2_def]]
  show "lok devs d'" "lists d' = actives d'" using a(1,2) by simp_all
  have r: "lists d' k = us @ part # vs" "lists d' (\<not> k) = lists d2 (\<not> k)" "core d' = core d2"
    "same_disk d2 d'" "update_mode d' = update_mode d2" "next_addr d' = next_addr d2"
    using a(3) by (simp_all add: relinked_def)
  show "same_disk d d'" using sd2 r(4) by (rule same_disk_trans)
  show "update_mode d' = update_mode d" "next_addr d' = next_addr d"
    using r(5,6) m(6,7) s1(7,8) sn(7,8) by simp_all
  show "core d' a = core d a" if "a \<noteq> part" for a using r(3) c2 c1 that by simp
  have cp: "core d' part = core d2 part" using r(3) by simp
  show "ped_constraint_is_solution c (geom_of d' part)" using core_eqD(1)[OF cp] g2 geo(2) by simp
  show "type_of d' part = type_of d part" using core_eqD(2)[OF cp] ty2 by simp
  have other: "part \<notin> set (lists d (\<not> k))" using linkedD(3)[OF l, of part "\<not> k"] kk by auto
  have o2: "lists d' (\<not> k) = lists d (\<not> k)" using r(2) m(3) other by (simp add: remove1_idem)
  have pn: "part \<notin> set us" "part \<notin> set vs" using np by simp_all
  have "filter (\<lambda>a. a \<noteq> part) us = us" "filter (\<lambda>a. a \<noteq> part) vs = vs"
    using pn by (auto simp: filter_id_conv)
  then have "filter (\<lambda>a. a \<noteq> part) (lists d' k) = us @ vs" using r(1) by simp
  moreover have "set (lists d' k) = set (lists d k)"
    using r(1) part arg_cong[OF geo(1), of set] by auto
  ultimately show "filter (\<lambda>a. a \<noteq> part) (lists d' j) = filter (\<lambda>a. a \<noteq> part) (lists d j)"
    "set (lists d' j) = set (lists d j)"
    using o2 by (cases "j = k"; simp add: geo(1))+
qed

theorem set_partition_geom_spec:
  assumes ok: "disk_ok disk_inv allowed devs d" and part: "part \<in> set (actives d k)"
    and ty: "plain_type (type_of d part)" and nc: "\<not> needs_clobber d" and s: "strict ask"
    and c: "usable d c"
    and b: "ped_disk_set_partition_geom T devs ask part (Some c) start endd d = (Inr u, d')"
  shows "disk_ok disk_inv allowed devs d'" "same_disk d d'" "moved d part d'"
    "\<And>a. a \<in> set (actives d j) \<Longrightarrow> a \<noteq> part \<Longrightarrow> core d' a = core d a"
    "ped_constraint_is_solution c (geom_of d' part)" "type_of d' part = type_of d part"
proof -
  have lok: "lok devs d" and m0: "update_mode d = 0" using ok by (simp_all add: disk_ok_def)
  define d0 where "d0 = disk_push_update_mode T d"
  note p = push_label_ok[OF lok m0, folded d0_def]
  note t = table_okD[OF label_okD(1)[OF lok]]
  obtain ng d1 where ng: "ped_geometry_init uninit_geometry (g_dev (geom_of d part)) start (endd - start + 1) = Inr ng"
    and body: "set_geom_body T devs ask part (Some c) ng d0 = (Inr (), d1)"
    and d': "d' = disk_pop_update_mode T devs ask d1"
    using b by (auto simp: ped_disk_set_partition_geom_def Let_def d0_def split: sum.splits prod.splits)
  have c0: "core d0 a = core d a" if "a \<in> set (actives d j)" for a j
    using that by (intro p(6)) (simp add: actives_def)
  have act0: "lists d0 = actives d0" using p(2,3) by simp
  have dd: "d_dev d0 = d_dev d" "needs_clobber d0 = needs_clobber d" using p(5) by (simp_all add: same_disk_def)
  have "g_dev (geom_of d part) = d_dev d"
    using t(3)[of k] actives_sub[OF part] by (simp add: geoms_ok_def)
  then have dn: "g_dev ng = d_dev d0" using ng dd by (auto simp: geom_simps split: if_splits)
  have h: "part \<in> set (lists d0 k)" "plain_type (type_of d0 part)"
    "\<not> needs_clobber d0" "usable d0 c"
    using part p(2) ty core_eqD(2)[OF c0[OF part]] nc dd c by (simp_all add: usable_def)
  note a = set_geom_body_spec[OF p(1) act0 h(1,2) dn geometry_init_span[OF ng] h(3) s h(4) body]
  have m1: "update_mode d1 = 1" using a(4) p(4) by simp
  note q = pop_label_ok[OF a(1) m1 a(2) s, folded d']
  have fr: "x < next_addr d1" if "x \<in> set (actives d j)" for x j
    using linked_fresh[OF t(1) actives_sub[OF that]] a(5) p(7) by simp
  show "disk_ok disk_inv allowed devs d'" using q(1,2,4) by (simp add: disk_ok_def)
  show "same_disk d d'" using p(5) a(3) q(5) by (blast intro: same_disk_trans)
  have ad: "actives d' = lists d1" using q(3) a(2) by simp
  show "moved d part d'" unfolding moved_def ad using a(7,8) p(2) by simp
  show "core d' x = core d x" if m: "x \<in> set (actives d j)" "x \<noteq> part" for x
    using q(6)[OF fr[OF m(1)]] a(6)[OF m(2)] c0[OF m(1)] by simp
  show "ped_constraint_is_solution c (geom_of d' part)"
    using core_eqD(1)[OF q(6)[OF fr[OF part]]] a(9) by simp
  show "type_of d' part = type_of d part"
    using core_eqD(2)[OF q(6)[OF fr[OF part]]] a(10) core_eqD(2)[OF c0[OF part]] by simp
qed

end

section \<open>What the invariant says about sectors\<close>

lemma disk_ok_disjoint:
  assumes ok: "disk_ok disk_inv allowed devs d" and a: "a \<in> set (lists d k)" and b: "b \<in> set (lists d k)" "a \<noteq> b"
  shows "geom_sectors (geom_of d a) \<inter> geom_sectors (geom_of d b) = {}"
proof -
  have "table_ok devs d" using ok by (simp add: disk_ok_def label_ok_def)
  then show ?thesis using in_order_disjoint[of d "lists d k" a b] table_okD(2,3) a b by blast
qed

lemma disk_ok_covers:
  assumes ok: "disk_ok disk_inv allowed devs d" and s: "0 \<le> s" "s < dev_length (devs (d_dev d))"
  shows "\<exists>a \<in> set (part_list d). (d_dev d, s) \<in> geom_sectors (geom_of d a)"
proof -
  have t: "tiled devs d" "table_ok devs d" using ok by (simp_all add: disk_ok_def label_ok_def)
  obtain a where a: "a \<in> set (part_list d)" "g_start (geom_of d a) \<le> s" "s \<le> g_end (geom_of d a)"
    using gapless_covers[of d "- 1" "part_list d" s] t(1) s by (auto simp: tiled_def)
  have "g_dev (geom_of d a) = d_dev d"
    using table_okD(3)[OF t(2), of False] a(1) by (simp add: geoms_ok_def)
  then have "(d_dev d, s) \<in> geom_sectors (geom_of d a)" using a(2,3) by (simp add: geom_sectors_def)
  with a(1) show ?thesis by (rule bexI[rotated])
qed

lemma constraint_any_usable:
  assumes "0 < dev_length (devs dev)"
  obtains c where "ped_constraint_any devs dev = Some c" "constraint_wf c" "constraint_small c"
    "constraint_dev c = dev"
    "\<And>g. geom_wf g \<Longrightarrow> ped_constraint_is_solution c g \<longleftrightarrow> g_end g < dev_length (devs dev)"
proof -
  obtain c where c: "ped_constraint_any devs dev = Some c" "constraint_wf c" "constraint_dev c = dev"
    "\<forall>g. geom_wf g \<longrightarrow> (ped_constraint_is_solution c g \<longleftrightarrow> g_end g < dev_length (devs dev))"
    using constraint_any_spec[where devs = devs and dev = dev, OF assms] by blast
  obtain na where na: "ped_alignment_duplicate (Some no_align) = Some na" "align_small na"
    using duplicate_small no_align_props(2) by blast
  have "start_align c = Some na" "end_align c = Some na"
    using c(1) na(1) no_align_props(1) assms
    by (auto simp: ped_constraint_any_def ped_constraint_new_def ped_constraint_init_def geom_simps)
  then have "constraint_small c" using na(2) by (simp add: constraint_small_def)
  with c that show ?thesis by blast
qed

end
