(* ===== verification/Label_Align.thy ===== *)
theory Label_Align
  imports Disk_Label
begin

text \<open>
  What the functions \<open>*_partition_align\<close> of the label types share: the constraint a label makes from
  two alignments and two regions, and \<open>_ped_partition_attempt_align\<close>; the name of a swap area
  (\<open>labels/misc.h\<close>); and that every label's fresh tables are well formed.
\<close>

definition is_linux_swap :: "string \<Rightarrow> bool" where
  "is_linux_swap fs_type_name \<longleftrightarrow> take 10 fs_type_name = ''linux-swap''"

text \<open>The sectors of a cylinder: the partitions of some labels start on cylinders.\<close>

definition cylinder_size :: "PedCHSGeometry \<Rightarrow> PedSector" where
  "cylinder_size bios = sectors bios * heads bios"

text \<open>
  The common end of the functions that build a constraint: each of the alignments and regions
  that cannot be initialised makes them return \<open>NULL\<close>.
\<close>

definition constraint_of ::
    "PedAlignment option \<Rightarrow> PedAlignment option \<Rightarrow> PedGeometry result \<Rightarrow> PedGeometry result \<Rightarrow> PedSector \<Rightarrow>
     PedConstraint option" where
  "constraint_of sa ea sr er len =
     (case (sa, ea, sr, er) of
        (Some sal, Some eal, Inr start_geom, Inr end_geom) \<Rightarrow>
          ped_constraint_new (Some sal) (Some eal) start_geom end_geom 1 len
      | _ \<Rightarrow> None)"

lemma constraint_of_usable:
  assumes c: "constraint_of (ped_alignment_init a1 o1 g1) (ped_alignment_init a2 o2 g2)
      (ped_geometry_init u1 (d_dev d) s1 l1) (ped_geometry_init u2 (d_dev d) s2 l2) len = Some i"
    and g: "0 \<le> g1" "g1 < 2 ^ 31" "0 \<le> g2" "g2 < 2 ^ 31" and s: "0 \<le> s1" "0 \<le> s2"
  shows "usable d i" "ped_constraint_is_solution i x \<Longrightarrow> s1 \<le> g_start x"
    "ped_constraint_is_solution i x \<Longrightarrow> g_end x \<le> s2 + l2 - 1"
    "ped_constraint_is_solution i x \<Longrightarrow> g1 \<noteq> 0 \<Longrightarrow> g1 dvd g_start x - o1"
    "ped_constraint_is_solution i x \<Longrightarrow> g2 \<noteq> 0 \<Longrightarrow> g2 dvd g_end x - o2"
proof -
  obtain sal eal sr er where p: "ped_alignment_init a1 o1 g1 = Some sal" "ped_alignment_init a2 o2 g2 = Some eal"
    "ped_geometry_init u1 (d_dev d) s1 l1 = Inr sr" "ped_geometry_init u2 (d_dev d) s2 l2 = Inr er"
    and i: "ped_constraint_new (Some sal) (Some eal) sr er 1 len = Some i"
    using c by (auto simp: constraint_of_def split: option.splits sum.splits)
  have sm: "align_small sal" "align_small eal"
    using p(1,2) g by (auto simp: ped_alignment_init_def align_small_def split: if_splits)
  obtain sb eb where b: "ped_alignment_duplicate (Some sal) = Some sb" "align_small sb" "aligned sb = aligned sal"
    "ped_alignment_duplicate (Some eal) = Some eb" "align_small eb" "aligned eb = aligned eal"
    using duplicate_small sm by meson
  have ge: "geom_wf sr" "geom_wf er" "g_dev sr = d_dev d" "g_dev er = d_dev d" "g_start sr = s1" "g_end er = s2 + l2 - 1"
    using p(3,4) s by (auto simp: geom_simps split: if_splits)
  have f: "start_align i = Some sb" "end_align i = Some eb" "start_range i = Some sr" "end_range i = Some er"
    "min_size i = 1"
    using i b ge by (auto simp: ped_constraint_new_def ped_constraint_init_def)
  show "usable d i"
    using f b ge by (simp add: usable_def constraint_wf_def constraint_small_def constraint_dev_def)
  show "ped_constraint_is_solution i x \<Longrightarrow> s1 \<le> g_start x" "ped_constraint_is_solution i x \<Longrightarrow> g_end x \<le> s2 + l2 - 1"
    using f ge(5,6) by (auto simp: ped_constraint_is_solution_def ped_geometry_test_sector_inside_def split: if_splits)
  have al: "g dvd y - off" if "ped_alignment_init a off g = Some al" "aligned al y" "0 \<le> g" "g \<noteq> 0" for a off g al y
  proof -
    have "al = a\<lparr>offset := abs_mod off g, grain_size := g\<rparr>"
      using that by (auto simp: ped_alignment_init_def split: if_splits)
    then have "g dvd y - abs_mod off g" using that(2) by (simp add: aligned_dvd)
    from dvd_diff[OF this abs_mod_cong[of g off]] show ?thesis by simp
  qed
  assume x: "ped_constraint_is_solution i x"
  have "aligned sal (g_start x)" "aligned eal (g_end x)"
    using x f b(3,6) by (auto simp: ped_constraint_is_solution_def aligned_def split: if_splits)
  then show "g1 \<noteq> 0 \<Longrightarrow> g1 dvd g_start x - o1" "g2 \<noteq> 0 \<Longrightarrow> g2 dvd g_end x - o2"
    using al[OF p(1)] al[OF p(2)] g by simp_all
qed

text \<open>The region that \<open>_ped_partition_attempt_align\<close> finds fulfils both constraints.\<close>

lemma attempt_align_sound:
  assumes al: "ped_partition_attempt_align devs p (Some c) internal = Some g"
    and c: "usable d c" and i: "\<And>i. internal = Some i \<Longrightarrow> usable d i" and dev: "g_dev (p_geom p) = d_dev d"
  obtains i where "internal = Some i" "ped_constraint_is_solution c g" "ped_constraint_is_solution i g"
    "geom_wf g" "g_dev g = d_dev d"
proof -
  obtain b n s where b: "internal = Some b" and n: "ped_constraint_intersect (Some c) (Some b) = Some n"
    and s: "ped_constraint_solve_nearest devs (Some n) (p_geom p) = Some s"
    and g: "(case ped_geometry_set (p_geom p) (g_start s) (g_length s) of Inl _ \<Rightarrow> p_geom p | Inr g \<Rightarrow> g) = g"
    using al by (cases internal) (auto simp: ped_partition_attempt_align_def ped_constraint_intersect_def
        split: option.splits sum.splits)
  have u: "constraint_wf c" "constraint_small c" "constraint_wf b" "constraint_small b" "constraint_dev c = constraint_dev b"
    using c i[OF b] by (simp_all add: usable_def)
  have w: "constraint_wf n"
    and sols: "\<And>g. ped_constraint_is_solution n g \<longleftrightarrow> ped_constraint_is_solution c g \<and> ped_constraint_is_solution b g"
    using constraint_intersect_spec[OF u] n by auto
  note sol = solve_nearest_solution[OF w s]
  have "g = s" using g sol by (cases s; cases "p_geom p") (auto simp: geom_simps geom_wf_def split: if_splits)
  then show thesis using that[OF b] sol sols dev by simp
qed

section \<open>Fresh tables\<close>

lemma clobber_same [simp]:
  "node (d\<lparr>needs_clobber := b\<rparr>) = node d" "lists (d\<lparr>needs_clobber := b\<rparr>) = lists d"
  "ped_disk_extended_partition (d\<lparr>needs_clobber := b\<rparr>) = ped_disk_extended_partition d"
proof -
  show n: "node (d\<lparr>needs_clobber := b\<rparr>) = node d" for b by (simp add: node_def fun_eq_iff)
  show e: "ped_disk_extended_partition (d\<lparr>needs_clobber := b\<rparr>) = ped_disk_extended_partition d" for b
    by (simp add: ped_disk_extended_partition_def n)
  show "lists (d\<lparr>needs_clobber := b\<rparr>) = lists d" by (simp add: lists_def n e fun_eq_iff split: option.split)
qed

lemma actives_clobber: "actives (d\<lparr>needs_clobber := b\<rparr>) = actives d"
  by (simp add: actives_def fun_eq_iff)

lemma disk_ok_clobber:
  assumes "disk_inv devs (d\<lparr>needs_clobber := b\<rparr>) = disk_inv devs d"
    and "\<And>ty g. allowed devs (d\<lparr>needs_clobber := b\<rparr>) ty g = allowed devs d ty g"
  shows "disk_ok disk_inv allowed devs (d\<lparr>needs_clobber := b\<rparr>) = disk_ok disk_inv allowed devs d"
proof -
  let ?d = "d\<lparr>needs_clobber := b\<rparr>"
  have "before ?d = before d" by (simp add: before_def fun_eq_iff)
  moreover have "gapless ?d le xs = gapless d le xs" for le xs by (rule gapless_cong) simp
  moreover have "end_of ?d le xs = end_of d le xs" for le xs by (rule end_of_cong) simp
  ultimately show ?thesis
    by (simp add: disk_ok_def label_ok_def table_ok_def tiled_def linked_def geoms_ok_def logicals_inside_def
        actives_clobber assms)
qed

text \<open>A table as \<open>*_alloc\<close> makes it: in update mode, without partitions.\<close>

definition bare :: "dev_table \<Rightarrow> dev_ref \<Rightarrow> ('x, 'y) PedDisk \<Rightarrow> bool" where
  "bare devs dev d \<longleftrightarrow> d_dev d = dev \<and> update_mode d = 1 \<and> part_list d = [] \<and> d_heap d = Map.empty
     \<and> 0 < dev_length (devs dev)"

context disk_label begin

lemma fresh_disk_ok:
  assumes al: "alloc dev = Some d0" and b: "bare devs dev d0" and inv: "disk_inv devs d0" and s: "strict ask"
    and clob: "\<And>(d :: ('x, 'y) PedDisk) b. disk_inv devs (d\<lparr>needs_clobber := b\<rparr>) = disk_inv devs d"
      "\<And>(d :: ('x, 'y) PedDisk) b ty g. allowed devs (d\<lparr>needs_clobber := b\<rparr>) ty g = allowed devs d ty g"
  shows "\<exists>d. ped_disk_new_fresh T devs ask alloc dev = Some d \<and> disk_ok disk_inv allowed devs d
    \<and> (\<forall>k. actives d k = []) \<and> needs_clobber d \<and> d_dev d = dev \<and> d_specific d = d_specific d0"
proof -
  let ?p = "disk_pop_update_mode T devs ask d0"
  have e: "ped_disk_extended_partition d0 = None" using b by (simp add: bare_def ped_disk_extended_partition_def)
  have li: "lists d0 k = []" for k using e b by (simp add: lists_def bare_def)
  have act: "lists d0 = actives d0" by (simp add: actives_def li fun_eq_iff)
  have "table_ok devs d0"
    using b li e by (simp add: bare_def table_ok_def linked_def geoms_ok_def logicals_inside_def)
  then have "label_ok disk_inv allowed devs d0" using inv by (simp add: label_ok_def actives_def li)
  note p = pop_label_ok[OF this _ act s]
  have m: "update_mode d0 = 1" using b by (simp add: bare_def)
  have "actives ?p k = []" for k unfolding p(3)[OF m] by (simp add: act[symmetric] li)
  moreover have "disk_ok disk_inv allowed devs ?p" using p(1,2,4)[OF m] by (simp add: disk_ok_def)
  moreover have "d_dev ?p = dev" "d_specific ?p = d_specific d0" using p(5)[OF m] b by (simp_all add: same_disk_def bare_def)
  ultimately show ?thesis
    by (simp add: ped_disk_new_fresh_def al disk_ok_clobber clob actives_clobber)
qed

end

end
