(* ===== verification/Dos_Flags.thy ===== *)
theory Dos_Flags
  imports Dos_Chs Gpt_Guid Label_Align
begin

text \<open>
  Type ids and flags of the msdos label (\<open>libparted/labels/dos.c\<close>): the table that maps flags to
  type ids, the hidden and LBA variants of an id, and the operations that set, clear and read
  flags of a partition and choose the type id for a file system.
\<close>

section \<open>Type ids\<close>

abbreviation PARTITION_EMPTY :: byte where "PARTITION_EMPTY \<equiv> 0x00"
abbreviation PARTITION_FAT12 :: byte where "PARTITION_FAT12 \<equiv> 0x01"
abbreviation PARTITION_FAT16_SM :: byte where "PARTITION_FAT16_SM \<equiv> 0x04"
abbreviation PARTITION_DOS_EXT :: byte where "PARTITION_DOS_EXT \<equiv> 0x05"
abbreviation PARTITION_FAT16 :: byte where "PARTITION_FAT16 \<equiv> 0x06"
abbreviation PARTITION_NTFS :: byte where "PARTITION_NTFS \<equiv> 0x07"
abbreviation PARTITION_UDF :: byte where "PARTITION_UDF \<equiv> 0x07"
abbreviation PARTITION_FAT32 :: byte where "PARTITION_FAT32 \<equiv> 0x0b"
abbreviation PARTITION_FAT32_LBA :: byte where "PARTITION_FAT32_LBA \<equiv> 0x0c"
abbreviation PARTITION_FAT16_LBA :: byte where "PARTITION_FAT16_LBA \<equiv> 0x0e"
abbreviation PARTITION_EXT_LBA :: byte where "PARTITION_EXT_LBA \<equiv> 0x0f"
abbreviation PART_FLAG_HIDDEN :: byte where "PART_FLAG_HIDDEN \<equiv> 0x10"
abbreviation PARTITION_FAT12_H :: byte where "PARTITION_FAT12_H \<equiv> 0x11"
abbreviation PARTITION_FAT16_SM_H :: byte where "PARTITION_FAT16_SM_H \<equiv> 0x14"
abbreviation PARTITION_DOS_EXT_H :: byte where "PARTITION_DOS_EXT_H \<equiv> 0x15"
abbreviation PARTITION_FAT16_H :: byte where "PARTITION_FAT16_H \<equiv> 0x16"
abbreviation PARTITION_NTFS_H :: byte where "PARTITION_NTFS_H \<equiv> 0x17"
abbreviation PARTITION_FAT32_H :: byte where "PARTITION_FAT32_H \<equiv> 0x1b"
abbreviation PARTITION_FAT32_LBA_H :: byte where "PARTITION_FAT32_LBA_H \<equiv> 0x1c"
abbreviation PARTITION_FAT16_LBA_H :: byte where "PARTITION_FAT16_LBA_H \<equiv> 0x1e"
abbreviation PARTITION_COMPAQ_DIAG :: byte where "PARTITION_COMPAQ_DIAG \<equiv> 0x12"
abbreviation PARTITION_MSFT_RECOVERY_ID :: byte where "PARTITION_MSFT_RECOVERY_ID \<equiv> 0x27"
abbreviation PARTITION_LDM :: byte where "PARTITION_LDM \<equiv> 0x42"
abbreviation PARTITION_LINUX_SWAP :: byte where "PARTITION_LINUX_SWAP \<equiv> 0x82"
abbreviation PARTITION_LINUX :: byte where "PARTITION_LINUX \<equiv> 0x83"
abbreviation PARTITION_IRST :: byte where "PARTITION_IRST \<equiv> 0x84"
abbreviation PARTITION_LINUX_EXT :: byte where "PARTITION_LINUX_EXT \<equiv> 0x85"
abbreviation PARTITION_LINUX_LVM :: byte where "PARTITION_LINUX_LVM \<equiv> 0x8e"
abbreviation PARTITION_HFS :: byte where "PARTITION_HFS \<equiv> 0xaf"
abbreviation PARTITION_SUN_UFS :: byte where "PARTITION_SUN_UFS \<equiv> 0xbf"
abbreviation PARTITION_DELL_DIAG :: byte where "PARTITION_DELL_DIAG \<equiv> 0xde"
abbreviation PARTITION_BLS_BOOT :: byte where "PARTITION_BLS_BOOT \<equiv> 0xea"
abbreviation PARTITION_GPT :: byte where "PARTITION_GPT \<equiv> 0xee"
abbreviation PARTITION_ESP :: byte where "PARTITION_ESP \<equiv> 0xef"
abbreviation PARTITION_PALO :: byte where "PARTITION_PALO \<equiv> 0xf0"
abbreviation PARTITION_PREP :: byte where "PARTITION_PREP \<equiv> 0x41"
abbreviation PARTITION_LINUX_RAID :: byte where "PARTITION_LINUX_RAID \<equiv> 0xfd"
abbreviation PARTITION_LINUX_LVM_OLD :: byte where "PARTITION_LINUX_LVM_OLD \<equiv> 0xfe"

abbreviation PED_PARTITION_PALO :: int where "PED_PARTITION_PALO \<equiv> 9"

text \<open>A missing \<open>alt_type_id\<close> is 0 in the table of the code.\<close>

definition flag_id_mapping :: "(int \<times> byte \<times> byte) list" where
  "flag_id_mapping =
    [(PED_PARTITION_BLS_BOOT, PARTITION_BLS_BOOT, 0),
     (PED_PARTITION_DIAG, PARTITION_COMPAQ_DIAG, PARTITION_DELL_DIAG),
     (PED_PARTITION_ESP, PARTITION_ESP, 0),
     (PED_PARTITION_IRST, PARTITION_IRST, 0),
     (PED_PARTITION_LVM, PARTITION_LINUX_LVM, PARTITION_LINUX_LVM_OLD),
     (PED_PARTITION_MSFT_RESERVED, PARTITION_MSFT_RECOVERY_ID, 0),
     (PED_PARTITION_PALO, PARTITION_PALO, 0),
     (PED_PARTITION_PREP, PARTITION_PREP, 0),
     (PED_PARTITION_RAID, PARTITION_LINUX_RAID, 0),
     (PED_PARTITION_SWAP, PARTITION_LINUX_SWAP, 0)]"

definition skip_set_system_types :: "byte list" where
  "skip_set_system_types =
    [PARTITION_EXT_LBA, PARTITION_DOS_EXT, PARTITION_COMPAQ_DIAG, PARTITION_MSFT_RECOVERY_ID, PARTITION_LINUX_LVM,
     PARTITION_LINUX_SWAP, PARTITION_LINUX_RAID, PARTITION_PALO, PARTITION_PREP, PARTITION_IRST, PARTITION_ESP,
     PARTITION_BLS_BOOT]"

definition dos_find_flag_id_mapping :: "int \<Rightarrow> (byte \<times> byte) option" where
  "dos_find_flag_id_mapping flag = map_of flag_id_mapping flag"

definition dos_type_id_supports_hidden :: "byte \<Rightarrow> bool" where
  "dos_type_id_supports_hidden type_id \<longleftrightarrow> type_id \<in> set
     [PARTITION_DOS_EXT, PARTITION_DOS_EXT_H, PARTITION_FAT12, PARTITION_FAT12_H, PARTITION_FAT16, PARTITION_FAT16_H,
      PARTITION_FAT16_LBA, PARTITION_FAT16_LBA_H, PARTITION_FAT16_SM, PARTITION_FAT16_SM_H, PARTITION_FAT32,
      PARTITION_FAT32_H, PARTITION_FAT32_LBA, PARTITION_FAT32_LBA_H, PARTITION_NTFS, PARTITION_NTFS_H]"

definition dos_type_id_is_hidden :: "byte \<Rightarrow> bool" where
  "dos_type_id_is_hidden type_id \<longleftrightarrow> type_id \<in> set
     [PARTITION_DOS_EXT_H, PARTITION_FAT12_H, PARTITION_FAT16_H, PARTITION_FAT16_LBA_H, PARTITION_FAT16_SM_H,
      PARTITION_FAT32_H, PARTITION_FAT32_LBA_H, PARTITION_NTFS_H]"

text \<open>The setters return success and the new id.\<close>

definition dos_type_id_set_hidden :: "byte \<Rightarrow> bool \<Rightarrow> bool \<times> byte" where
  "dos_type_id_set_hidden type_id state =
     (if \<not> dos_type_id_supports_hidden type_id then (False, type_id)
      else (True, if state then type_id OR PART_FLAG_HIDDEN else type_id AND NOT PART_FLAG_HIDDEN))"

definition dos_type_id_supports_lba :: "byte \<Rightarrow> bool" where
  "dos_type_id_supports_lba type_id \<longleftrightarrow> type_id \<in> set
     [PARTITION_FAT16, PARTITION_FAT16_H, PARTITION_FAT16_LBA, PARTITION_FAT16_LBA_H, PARTITION_FAT32, PARTITION_FAT32_H,
      PARTITION_FAT32_LBA, PARTITION_FAT32_LBA_H, PARTITION_DOS_EXT, PARTITION_EXT_LBA]"

definition dos_type_id_is_lba :: "byte \<Rightarrow> bool" where
  "dos_type_id_is_lba type_id \<longleftrightarrow> type_id \<in> set
     [PARTITION_FAT16_LBA, PARTITION_FAT16_LBA_H, PARTITION_FAT32_LBA, PARTITION_FAT32_LBA_H, PARTITION_EXT_LBA]"

definition dos_type_id_set_lba :: "byte \<Rightarrow> bool \<Rightarrow> bool \<times> byte" where
  "dos_type_id_set_lba type_id state =
     (if \<not> dos_type_id_supports_lba type_id then (False, type_id)
      else (True,
        if state then
          (if type_id = PARTITION_FAT16 then PARTITION_FAT16_LBA
           else if type_id = PARTITION_FAT32 then PARTITION_FAT32_LBA
           else if type_id = PARTITION_DOS_EXT then PARTITION_EXT_LBA else type_id)
        else
          (if type_id = PARTITION_FAT16_LBA then PARTITION_FAT16
           else if type_id = PARTITION_FAT32_LBA then PARTITION_FAT32
           else if type_id = PARTITION_EXT_LBA then PARTITION_DOS_EXT else type_id)))"

section \<open>Operations on a partition\<close>

definition upd_dos :: "(DosPartitionData \<Rightarrow> DosPartitionData) \<Rightarrow> DosPart \<Rightarrow> DosPart" where
  "upd_dos f part = part\<lparr>p_specific := map_option f (p_specific part)\<rparr>"

definition is_skip_type :: "byte \<Rightarrow> bool" where
  "is_skip_type type_id \<longleftrightarrow> type_id \<in> set skip_set_system_types"

definition system_for_fs :: "string option \<Rightarrow> byte" where
  "system_for_fs fs_type =
     (case fs_type of
        None \<Rightarrow> PARTITION_LINUX
      | Some name \<Rightarrow>
          if name = ''fat16'' then PARTITION_FAT16
          else if name = ''fat32'' then PARTITION_FAT32
          else if name = ''ntfs'' \<or> name = ''hpfs'' then PARTITION_NTFS
          else if name = ''hfs'' \<or> name = ''hfs+'' then PARTITION_HFS
          else if name = ''udf'' then PARTITION_UDF
          else if name = ''sun-ufs'' then PARTITION_SUN_UFS
          else if is_linux_swap name then PARTITION_LINUX_SWAP
          else PARTITION_LINUX)"

definition msdos_partition_set_system :: "DosPart \<Rightarrow> string option \<Rightarrow> DosPart result" where
  "msdos_partition_set_system part fs_type =
     (let part1 = part\<lparr>p_fs := fs_type\<rparr>
      in if is_skip_type (dos_system (dos_data part1)) then Inr part1
         else if has_bit (p_type part1) PED_PARTITION_EXTENDED
         then Inr (upd_dos (\<lambda>x. x\<lparr>dos_system := PARTITION_EXT_LBA\<rparr>) part1)
         else Inr (upd_dos (\<lambda>x. x\<lparr>dos_system := system_for_fs fs_type\<rparr>) part1))"

definition set_boot :: "bool \<Rightarrow> addr \<Rightarrow> DosDisk \<Rightarrow> DosDisk" where
  "set_boot state part d = upd_node part (upd_dos (\<lambda>x. x\<lparr>dos_boot := state\<rparr>)) d"

definition set_id :: "byte \<Rightarrow> addr \<Rightarrow> DosDisk \<Rightarrow> DosDisk" where
  "set_id type_id part d = upd_node part (upd_dos (\<lambda>x. x\<lparr>dos_system := type_id\<rparr>)) d"

text \<open>
  The recursive calls for the other partitions clear the boot flag, which only assigns it:
  \<open>set_boot False\<close>.
\<close>

definition msdos_partition_set_flag :: "DosDisk \<Rightarrow> addr \<Rightarrow> int \<Rightarrow> bool \<Rightarrow> bool \<times> DosDisk" where
  "msdos_partition_set_flag d part flag state =
     (let system = dos_system (dos_data (node d part))
      in case dos_find_flag_id_mapping flag of
           Some (type_id, alt_type_id) \<Rightarrow>
             if has_bit (type_of d part) PED_PARTITION_EXTENDED then (False, d)
             else if state then (True, set_id type_id part d)
             else if system = type_id \<or> system = alt_type_id then
               (case msdos_partition_set_system (node (set_id PARTITION_LINUX part d) part) (p_fs (node d part)) of
                  Inl _ \<Rightarrow> (False, set_id PARTITION_LINUX part d)
                | Inr p \<Rightarrow> (True, upd_node part (\<lambda>_. p) d))
             else (True, d)
         | None \<Rightarrow>
             if flag = PED_PARTITION_HIDDEN then
               (case dos_type_id_set_hidden system state of (ok, tid) \<Rightarrow> (ok, set_id tid part d))
             else if flag = PED_PARTITION_LBA then
               (case dos_type_id_set_lba system state of (ok, tid) \<Rightarrow> (ok, set_id tid part d))
             else if flag = PED_PARTITION_BOOT then
               (True,
                if state then
                  fold (\<lambda>walk d. if walk = part \<or> \<not> ped_partition_is_active (node d walk) then d
                                 else set_boot False walk d)
                    (disk_walk d) (set_boot True part d)
                else set_boot False part d)
             else (False, d))"

definition msdos_partition_get_flag :: "DosPart \<Rightarrow> int \<Rightarrow> bool" where
  "msdos_partition_get_flag part flag =
     (let system = dos_system (dos_data part)
      in case dos_find_flag_id_mapping flag of
           Some (type_id, alt_type_id) \<Rightarrow> system = type_id \<or> system = alt_type_id
         | None \<Rightarrow>
             if flag = PED_PARTITION_HIDDEN then dos_type_id_is_hidden system
             else if flag = PED_PARTITION_LBA then dos_type_id_is_lba system
             else if flag = PED_PARTITION_BOOT then dos_boot (dos_data part)
             else False)"

definition msdos_partition_is_flag_available :: "DosPart \<Rightarrow> int \<Rightarrow> bool" where
  "msdos_partition_is_flag_available part flag =
     (let system = dos_system (dos_data part)
      in case dos_find_flag_id_mapping flag of
           Some _ \<Rightarrow> p_type part \<noteq> PED_PARTITION_EXTENDED
         | None \<Rightarrow>
             if flag = PED_PARTITION_HIDDEN then dos_type_id_supports_hidden system
             else if flag = PED_PARTITION_LBA then dos_type_id_supports_lba system
             else if flag = PED_PARTITION_BOOT then True
             else False)"

definition msdos_partition_set_type_id :: "DosPart \<Rightarrow> byte \<Rightarrow> DosPart result" where
  "msdos_partition_set_type_id part type_id = Inr (upd_dos (\<lambda>x. x\<lparr>dos_system := type_id\<rparr>) part)"

definition msdos_partition_get_type_id :: "DosPart \<Rightarrow> byte" where
  "msdos_partition_get_type_id part = dos_system (dos_data part)"

section \<open>Lemmas\<close>

lemma hidden_variants:
  assumes "dos_type_id_set_hidden t state = (True, t')"
  shows "dos_type_id_is_hidden t' = state" "dos_type_id_supports_hidden t'"
proof -
  have "t \<in> set [PARTITION_DOS_EXT, PARTITION_DOS_EXT_H, PARTITION_FAT12, PARTITION_FAT12_H, PARTITION_FAT16,
      PARTITION_FAT16_H, PARTITION_FAT16_LBA, PARTITION_FAT16_LBA_H, PARTITION_FAT16_SM, PARTITION_FAT16_SM_H,
      PARTITION_FAT32, PARTITION_FAT32_H, PARTITION_FAT32_LBA, PARTITION_FAT32_LBA_H, PARTITION_NTFS, PARTITION_NTFS_H]"
    using assms by (simp add: dos_type_id_set_hidden_def dos_type_id_supports_hidden_def split: if_splits)
  then show "dos_type_id_is_hidden t' = state" "dos_type_id_supports_hidden t'"
    using assms
    by (cases state; auto simp: dos_type_id_set_hidden_def dos_type_id_supports_hidden_def dos_type_id_is_hidden_def)+
qed

lemma lba_variants:
  assumes "dos_type_id_set_lba t state = (True, t')" "\<not> dos_type_id_is_hidden t"
  shows "dos_type_id_is_lba t' = state"
proof -
  have "t \<in> set [PARTITION_FAT16, PARTITION_FAT16_LBA, PARTITION_FAT32, PARTITION_FAT32_LBA, PARTITION_DOS_EXT, PARTITION_EXT_LBA]"
    using assms by (auto simp: dos_type_id_set_lba_def dos_type_id_supports_lba_def dos_type_id_is_hidden_def split: if_splits)
  then show ?thesis
    using assms
    by (cases state) (auto simp: dos_type_id_set_lba_def dos_type_id_supports_lba_def dos_type_id_is_lba_def)
qed

lemma node_upd: "node (upd_node a f d) b = (if b = a then f (node d a) else node d b)"
  by (simp add: upd_node_def node_def)

lemma upd_dos_simps [simp]:
  "p_geom (upd_dos f p) = p_geom p" "p_num (upd_dos f p) = p_num p" "p_type (upd_dos f p) = p_type p"
  "p_fs (upd_dos f p) = p_fs p" "p_list (upd_dos f p) = p_list p"
  "ped_partition_is_active (upd_dos f p) = ped_partition_is_active p"
  by (simp_all add: upd_dos_def ped_partition_is_active_def)

lemma upd_dos_specific [simp]: "(upd_dos f p)\<lparr>p_specific := None\<rparr> = p\<lparr>p_specific := None\<rparr>"
  by (simp add: upd_dos_def)

lemma dos_data_upd: "p_specific p \<noteq> None \<Longrightarrow> dos_data (upd_dos f p) = f (dos_data p)"
  by (auto simp: upd_dos_def dos_data_def)

lemma set_boot_node: "node (set_boot s a d) b = (if b = a then upd_dos (\<lambda>x. x\<lparr>dos_boot := s\<rparr>) (node d a) else node d b)"
  and set_id_node: "node (set_id t a d) b = (if b = a then upd_dos (\<lambda>x. x\<lparr>dos_system := t\<rparr>) (node d a) else node d b)"
  by (simp_all add: set_boot_def set_id_def node_upd)

lemma set_system_eq:
  "\<not> is_skip_type (dos_system (dos_data p)) \<Longrightarrow> \<not> has_bit (p_type p) PED_PARTITION_EXTENDED \<Longrightarrow>
   msdos_partition_set_system p fs = Inr (upd_dos (\<lambda>x. x\<lparr>dos_system := system_for_fs fs\<rparr>) (p\<lparr>p_fs := fs\<rparr>))"
  by (simp add: msdos_partition_set_system_def Let_def dos_data_def)

text \<open>The loop that clears the boot flag of the other partitions.\<close>

lemma clear_boot_node:
  "node (fold (\<lambda>walk d. if walk = part \<or> \<not> ped_partition_is_active (node d walk) then d else set_boot False walk d) xs d) b =
   (if b \<in> set xs \<and> b \<noteq> part \<and> ped_partition_is_active (node d b)
    then upd_dos (\<lambda>x. x\<lparr>dos_boot := False\<rparr>) (node d b) else node d b)"
proof (induction xs arbitrary: d)
  case (Cons x xs)
  have "upd_dos (\<lambda>x. x\<lparr>dos_boot := False\<rparr>) (upd_dos (\<lambda>x. x\<lparr>dos_boot := False\<rparr>) p) = upd_dos (\<lambda>x. x\<lparr>dos_boot := False\<rparr>) p" for p
    by (cases p) (simp add: upd_dos_def option.map_comp comp_def)
  then show ?case by (auto simp: Cons.IH set_boot_node)
qed simp

lemma mapping_ids:
  assumes "dos_find_flag_id_mapping flag = Some (t, alt)"
  shows "flag \<noteq> PED_PARTITION_HIDDEN" "flag \<noteq> PED_PARTITION_LBA" "flag \<noteq> PED_PARTITION_BOOT"
    "t \<noteq> PARTITION_LINUX" "alt \<noteq> PARTITION_LINUX"
    "flag \<noteq> PED_PARTITION_SWAP \<Longrightarrow> system_for_fs fs \<noteq> t \<and> system_for_fs fs \<noteq> alt"
    "flag = PED_PARTITION_SWAP \<Longrightarrow> \<not> (\<exists>n. fs = Some n \<and> is_linux_swap n) \<Longrightarrow> system_for_fs fs \<noteq> t \<and> system_for_fs fs \<noteq> alt"
  using assms by (auto simp: dos_find_flag_id_mapping_def flag_id_mapping_def system_for_fs_def split: if_splits option.splits)

section \<open>Properties\<close>

text \<open>
  A flag that \<open>msdos_partition_set_flag\<close> has set or cleared reads back as set or cleared,
  with two exceptions of the code: LBA on a hidden id, where the setter reports success without
  effect, and clearing SWAP on a partition that holds a swap file system, where the id is chosen
  again from the file system. The place, number, type and file system of no partition change.
\<close>
theorem msdos_flags_read_back:
  assumes data: "p_specific (node d part) \<noteq> None"
    and set: "msdos_partition_set_flag d part flag state = (True, d')"
    and lba: "flag = PED_PARTITION_LBA \<Longrightarrow> \<not> dos_type_id_is_hidden (dos_system (dos_data (node d part)))"
    and swap: "flag = PED_PARTITION_SWAP \<Longrightarrow> \<not> state \<Longrightarrow> \<not> (\<exists>fs. p_fs (node d part) = Some fs \<and> is_linux_swap fs)"
  shows "msdos_partition_get_flag (node d' part) flag = state \<and>
    (node d' a)\<lparr>p_specific := None\<rparr> = (node d a)\<lparr>p_specific := None\<rparr>"
proof (cases "dos_find_flag_id_mapping flag")
  case (Some ids)
  obtain t alt where ids: "ids = (t, alt)" by (cases ids)
  note m = mapping_ids[OF Some[unfolded ids]]
  have skip: "\<not> is_skip_type PARTITION_LINUX" by (simp add: is_skip_type_def skip_set_system_types_def)
  let ?p = "node d part"
  have noext: "\<not> has_bit (p_type ?p) PED_PARTITION_EXTENDED"
    using set by (auto simp: msdos_partition_set_flag_def Let_def Some ids split: if_splits)
  show ?thesis
  proof (cases state)
    case True
    then have "d' = set_id t part d"
      using set noext by (simp add: msdos_partition_set_flag_def Let_def Some ids)
    then show ?thesis
      using True data by (simp add: msdos_partition_get_flag_def Let_def Some ids set_id_node dos_data_upd)
  next
    case False
    show ?thesis
    proof (cases "dos_system (dos_data ?p) = t \<or> dos_system (dos_data ?p) = alt")
      case True
      let ?q = "upd_dos (\<lambda>x. x\<lparr>dos_system := PARTITION_LINUX\<rparr>) ?p"
      have sys: "msdos_partition_set_system ?q (p_fs ?p) =
          Inr (upd_dos (\<lambda>x. x\<lparr>dos_system := system_for_fs (p_fs ?p)\<rparr>) (?q\<lparr>p_fs := p_fs ?p\<rparr>))"
        using data noext skip by (intro set_system_eq) (simp_all add: dos_data_upd)
      have "d' = upd_node part (\<lambda>_. upd_dos (\<lambda>x. x\<lparr>dos_system := system_for_fs (p_fs ?p)\<rparr>) (?q\<lparr>p_fs := p_fs ?p\<rparr>)) d"
        using set noext False True by (simp add: msdos_partition_set_flag_def Let_def Some ids set_id_node sys)
      moreover have "system_for_fs (p_fs ?p) \<noteq> t \<and> system_for_fs (p_fs ?p) \<noteq> alt"
        using m(6,7)[of "p_fs ?p"] swap False by blast
      ultimately show ?thesis
        using False data
        by (auto simp: msdos_partition_get_flag_def Let_def Some ids node_upd dos_data_def upd_dos_def)
    next
      case no: False
      then have "d' = d" using set noext False by (simp add: msdos_partition_set_flag_def Let_def Some ids)
      then show ?thesis using no False by (simp add: msdos_partition_get_flag_def Let_def Some ids)
    qed
  qed
next
  case None
  consider (h) t where "flag = PED_PARTITION_HIDDEN" "dos_type_id_set_hidden (dos_system (dos_data (node d part))) state = (True, t)"
      "d' = set_id t part d"
    | (l) t where "flag = PED_PARTITION_LBA" "dos_type_id_set_lba (dos_system (dos_data (node d part))) state = (True, t)"
      "d' = set_id t part d"
    | (b) "flag = PED_PARTITION_BOOT"
    using set by (auto simp: msdos_partition_set_flag_def Let_def None split: if_splits prod.splits)
  then show ?thesis
  proof cases
    case h
    then show ?thesis
      using None data hidden_variants(1)[OF h(2)] by (simp add: msdos_partition_get_flag_def Let_def set_id_node dos_data_upd)
  next
    case l
    then show ?thesis
      using None data lba_variants[OF l(2)] lba by (simp add: msdos_partition_get_flag_def Let_def set_id_node dos_data_upd)
  next
    case b
    then show ?thesis
      using set None data
      by (cases state) (auto simp: Let_def msdos_partition_set_flag_def msdos_partition_get_flag_def clear_boot_node set_boot_node
          dos_data_upd)
  qed
qed

text \<open>
  After the boot flag of a partition was set, it is the only partition of the table that has
  the boot flag.
\<close>
theorem boot_flag_is_exclusive:
  assumes "p_specific (node d part) \<noteq> None" "msdos_partition_set_flag d part PED_PARTITION_BOOT True = (ok, d')"
    and "a \<in> set (disk_walk d)" "ped_partition_is_active (node d a)" "p_specific (node d a) \<noteq> None"
  shows "ok \<and> (msdos_partition_get_flag (node d' a) PED_PARTITION_BOOT \<longleftrightarrow> a = part)"
proof -
  have "dos_find_flag_id_mapping PED_PARTITION_BOOT = None"
    by (simp add: dos_find_flag_id_mapping_def flag_id_mapping_def)
  then show ?thesis
    using assms
    by (cases "a = part") (auto simp: Let_def msdos_partition_set_flag_def msdos_partition_get_flag_def clear_boot_node
        set_boot_node dos_data_upd)
qed

definition demo_dos_part :: "bool \<Rightarrow> byte \<Rightarrow> PedSector \<Rightarrow> DosPart" where
  "demo_dos_part boot tid start = \<lparr>p_geom = \<lparr>g_dev = 0, g_start = start, g_length = 100, g_end = start + 99\<rparr>, p_num = 1,
     p_type = 0, p_fs = Some ''fat16'', p_list = [], p_specific = Some \<lparr>dos_system = tid, dos_boot = boot, dos_orig = None\<rparr>\<rparr>"

definition demo_flags :: DosDisk where
  "demo_flags = \<lparr>d_dev = 0, part_list = [0, 1],
     d_heap = [0 \<mapsto> demo_dos_part True PARTITION_FAT16_H 100, 1 \<mapsto> demo_dos_part False PARTITION_LINUX 200],
     next_addr = 2, needs_clobber = False, update_mode = 0, d_specific = \<lparr>cylinder_alignment = False\<rparr>\<rparr>"

lemma demo_flags_data: "p_specific (node demo_flags 0) \<noteq> None" "p_specific (node demo_flags 1) \<noteq> None"
  by code_simp+

theorem msdos_flags_read_back_witness:
  "msdos_partition_get_flag (node (snd (msdos_partition_set_flag demo_flags 1 PED_PARTITION_LVM True)) 1) PED_PARTITION_LVM \<and>
   \<not> msdos_partition_get_flag (node (snd (msdos_partition_set_flag demo_flags 0 PED_PARTITION_HIDDEN False)) 0) PED_PARTITION_HIDDEN"
proof -
  have "fst (msdos_partition_set_flag demo_flags 1 PED_PARTITION_LVM True)"
    "fst (msdos_partition_set_flag demo_flags 0 PED_PARTITION_HIDDEN False)" by code_simp+
  then obtain d1 d2 where d: "msdos_partition_set_flag demo_flags 1 PED_PARTITION_LVM True = (True, d1)"
    "msdos_partition_set_flag demo_flags 0 PED_PARTITION_HIDDEN False = (True, d2)" by (metis prod.collapse)
  show ?thesis
    unfolding d snd_conv
    using msdos_flags_read_back[OF demo_flags_data(2) d(1)] msdos_flags_read_back[OF demo_flags_data(1) d(2)] by simp
qed

theorem boot_flag_is_exclusive_witness:
  "let d' = snd (msdos_partition_set_flag demo_flags 1 PED_PARTITION_BOOT True)
   in msdos_partition_get_flag (node d' 1) PED_PARTITION_BOOT \<and> \<not> msdos_partition_get_flag (node d' 0) PED_PARTITION_BOOT"
proof -
  have w: "0 \<in> set (disk_walk demo_flags)" "1 \<in> set (disk_walk demo_flags)"
    "ped_partition_is_active (node demo_flags 0)" "ped_partition_is_active (node demo_flags 1)" by code_simp+
  obtain ok d' where s: "msdos_partition_set_flag demo_flags 1 PED_PARTITION_BOOT True = (ok, d')" by fastforce
  show ?thesis
    using boot_flag_is_exclusive[OF demo_flags_data(2) s w(1,3) demo_flags_data(1)]
      boot_flag_is_exclusive[OF demo_flags_data(2) s w(2,4) demo_flags_data(2)] by (simp only: s Let_def snd_conv) simp
qed

text \<open>
  The two exceptions, and a third gap: the id 0 counts as every flag that has no second id.
\<close>

lemma lba_on_hidden_has_no_effect:
  "msdos_partition_set_flag demo_flags 0 PED_PARTITION_LBA True = (True, set_id PARTITION_FAT16_H 0 demo_flags) \<and>
   \<not> msdos_partition_get_flag (node (set_id PARTITION_FAT16_H 0 demo_flags) 0) PED_PARTITION_LBA"
  by (simp add: msdos_partition_set_flag_def msdos_partition_get_flag_def Let_def dos_find_flag_id_mapping_def flag_id_mapping_def
      demo_flags_def demo_dos_part_def node_def dos_data_def dos_type_id_set_lba_def dos_type_id_supports_lba_def
      dos_type_id_is_lba_def set_id_def upd_node_def upd_dos_def)

lemma empty_id_has_many_flags:
  "list_all (msdos_partition_get_flag (demo_dos_part False PARTITION_EMPTY 100))
     [PED_PARTITION_ESP, PED_PARTITION_RAID, PED_PARTITION_SWAP, PED_PARTITION_PREP, PED_PARTITION_BLS_BOOT]"
  by code_simp

end
