(* ===== verification/Disk_Delete.thy ===== *)
theory Disk_Delete
  imports Disk_Label Disk_Nested
begin

text \<open>
  Deleting several partitions at once (\<open>libparted/disk.c\<close>): an extended partition with the logical
  partitions inside it, and all partitions of a table.
\<close>

section \<open>A list of partitions\<close>

lemma remove1_filter: "distinct xs \<Longrightarrow> remove1 a xs = filter (\<lambda>x. x \<noteq> a) xs"
  by (induction xs) (auto intro: filter_True[symmetric])

lemma toplevel_only: "linked d \<Longrightarrow> a \<in> set (part_list d) \<Longrightarrow> a \<notin> set (lists d True)"
  using linkedD(3)[of d a False] linkedD(3)[of d a True] by auto

lemma fold_leaf_drops:
  fixes d :: "('x, 'y) PedDisk" and T :: "('x, 'y, 'z) PedPartOps_scheme"
  assumes l: "linked d" and ws: "distinct ws" "set ws \<subseteq> set (lists d k)"
    and leaf: "\<And>a. a \<in> set ws \<Longrightarrow> type_of d a \<noteq> PED_PARTITION_EXTENDED"
  defines "d' \<equiv> fold (delete_leaf T) ws d"
  shows "linked d'" "\<And>j. lists d' j = filter (\<lambda>a. a \<notin> set ws) (lists d j)"
    "core d' = (\<lambda>a. if a \<in> set ws then None else core d a)" "same_disk d d'" "update_mode d' = update_mode d"
    "next_addr d' = next_addr d"
proof -
  have "linked d' \<and> (\<forall>j. lists d' j = filter (\<lambda>a. a \<notin> set ws) (lists d j)) \<and>
    core d' = (\<lambda>a. if a \<in> set ws then None else core d a) \<and> same_disk d d' \<and> update_mode d' = update_mode d \<and>
    next_addr d' = next_addr d"
    using l ws leaf unfolding d'_def
  proof (induction ws arbitrary: d)
    case (Cons a ws)
    have a: "a \<in> set (lists d k)" "a \<notin> set ws" "distinct ws" using Cons.prems(2,3) by simp_all
    have "removable d a" using mem_walk[OF Cons.prems(1) a(1)] Cons.prems(4)[of a] by (simp add: removable_def)
    then have "drops d a (delete_leaf T a d)" by (rule delete_leaf_drops[OF Cons.prems(1)])
    then have d: "linked (delete_leaf T a d)" "\<And>j. lists (delete_leaf T a d) j = remove1 a (lists d j)"
      "core (delete_leaf T a d) = (core d)(a := None)" "same_disk d (delete_leaf T a d)"
      "update_mode (delete_leaf T a d) = update_mode d" "next_addr (delete_leaf T a d) = next_addr d"
      by (simp_all add: drops_def)
    have sub: "set ws \<subseteq> set (lists (delete_leaf T a d) k)"
      using Cons.prems(3) a(2) d(2) linkedD(1)[OF Cons.prems(1), of k] by auto
    have ty: "type_of (delete_leaf T a d) b \<noteq> PED_PARTITION_EXTENDED" if "b \<in> set ws" for b
    proof -
      have "core (delete_leaf T a d) b = core d b" using that a(2) d(3) by auto
      then show ?thesis using core_eqD(2) Cons.prems(4) that by (metis list.set_intros(2))
    qed
    have flt: "filter (\<lambda>x. x \<notin> set ws) (remove1 a (lists d j)) = filter (\<lambda>x. x \<notin> set (a # ws)) (lists d j)" for j
      using linkedD(1)[OF Cons.prems(1), of j]
      by (simp add: remove1_filter conj_commute)
    show ?case
      using Cons.IH[OF d(1) a(3) sub ty] d(2-6) flt same_disk_trans[OF d(4)] by (auto simp: fun_eq_iff)
  qed simp
  then show "linked d'" "\<And>j. lists d' j = filter (\<lambda>a. a \<notin> set ws) (lists d j)"
    "core d' = (\<lambda>a. if a \<in> set ws then None else core d a)" "same_disk d d'" "update_mode d' = update_mode d"
    "next_addr d' = next_addr d"
    by simp_all
qed

section \<open>A partition with what is inside it\<close>

definition wipes :: "('x, 'y) PedDisk \<Rightarrow> addr \<Rightarrow> ('x, 'y) PedDisk \<Rightarrow> bool" where
  "wipes d a d' \<longleftrightarrow> linked d' \<and> part_list d' = remove1 a (part_list d) \<and>
     lists d' True = (if type_of d a = PED_PARTITION_EXTENDED then [] else lists d True) \<and>
     core d' = (\<lambda>b. if b = a \<or> type_of d a = PED_PARTITION_EXTENDED \<and> b \<in> set (lists d True) then None else core d b) \<and>
     same_disk d d' \<and> update_mode d' = update_mode d \<and> next_addr d' = next_addr d"

text \<open>The logical partitions go first; then the extended partition is an empty one.\<close>

lemma delete_logicals_then:
  assumes l: "linked d" and a: "a \<in> set (part_list d)" "type_of d a = PED_PARTITION_EXTENDED"
  shows "wipes d a (ped_partition_destroy a (remove_nested T a (ped_disk_delete_all_logical T d)))"
proof -
  have ext: "ped_disk_extended_partition d = Some a" using ext_Some_iff[OF l] a by simp
  then have ws: "p_list (node d (the (ped_disk_extended_partition d))) = lists d True" by (simp add: lists_def)
  have logical: "is_logical (type_of d b)" if "b \<in> set (lists d True)" for b using linkedD(3)[OF l that] by simp
  have leaf: "type_of d b \<noteq> PED_PARTITION_EXTENDED" if "b \<in> set (lists d True)" for b
    using logical[OF that] by (auto simp: has_bit_def)
  then have na: "a \<notin> set (lists d True)" using a(2) by blast
  let ?e = "ped_disk_delete_all_logical T d"
  have e: "linked ?e" "\<And>j. lists ?e j = filter (\<lambda>b. b \<notin> set (lists d True)) (lists d j)"
    "core ?e = (\<lambda>b. if b \<in> set (lists d True) then None else core d b)" "same_disk d ?e" "update_mode ?e = update_mode d"
    "next_addr ?e = next_addr d"
    using fold_leaf_drops[OF l linkedD(1)[OF l, of True] subset_refl leaf, of T]
    unfolding ped_disk_delete_all_logical_def ws by blast+
  have nl: "lists d j = lists ?e j" if "j = False" for j
  proof -
    have "b \<notin> set (lists d True)" if "b \<in> set (part_list d)" for b
      using toplevel_only[OF l that] .
    then show ?thesis using that e(2)[of False] by (simp add: filter_id_conv)
  qed
  have ty: "type_of ?e a = PED_PARTITION_EXTENDED" using core_eqD(2)[of ?e a d] e(3) na a(2) by auto
  have pa: "a \<in> set (part_list ?e)" using a(1) nl[of False] by simp
  then have "ped_disk_extended_partition ?e = Some a" using ext_Some_iff[OF e(1)] ty by simp
  moreover have "lists ?e True = []" using e(2)[of True] by (simp add: filter_empty_conv)
  ultimately have "p_list (node ?e a) = []" by (simp add: lists_def)
  then have "removable ?e a" using mem_walk[OF e(1), of a False] pa by (simp add: removable_def)
  then have "drops ?e a (ped_partition_destroy a (remove_nested T a ?e))" by (rule remove_nested_drops[OF e(1)])
  then show ?thesis
    using e(3-6) nl[of False] a(2) \<open>lists ?e True = []\<close> spec[of "\<lambda>k. lists _ k = remove1 a (lists ?e k)" False]
    by (auto simp: wipes_def drops_def fun_eq_iff simp flip: lists_False intro: same_disk_trans)
qed

lemma delete_nested_wipes:
  assumes l: "linked d" and a: "a \<in> set (part_list d)"
  shows "wipes d a (delete_nested T a d)"
proof (cases "type_of d a = PED_PARTITION_EXTENDED")
  case True
  then have "wipes (mode_up d) a (ped_partition_destroy a (remove_nested T a (ped_disk_delete_all_logical T (mode_up d))))"
    by (intro delete_logicals_then) (use l a in simp_all)
  then show ?thesis using True by (simp add: delete_nested_def wipes_def Let_def cong: if_cong)
next
  case False
  have "removable d a" using mem_walk[OF l, of a False] a False by (simp add: removable_def)
  then have "drops d a (delete_nested T a d)" using delete_nested_drops[OF l _ False] by blast
  moreover have "a \<notin> set (lists d True)" by (rule toplevel_only[OF l a])
  ultimately show ?thesis using False by (auto simp: wipes_def drops_def remove1_idem fun_eq_iff simp flip: lists_False)
qed

section \<open>All partitions\<close>

lemma fold_wipes:
  fixes d :: "('x, 'y) PedDisk" and T :: "('x, 'y, 'z) PedPartOps_scheme"
  assumes "linked d"
  defines "d' \<equiv> fold (delete_nested T) (part_list d) d"
  shows "linked d'" "lists d' k = []" "b \<in> set (lists d j) \<Longrightarrow> core d' b = None" "core d b = None \<Longrightarrow> core d' b = None"
    "same_disk d d'" "update_mode d' = update_mode d" "next_addr d' = next_addr d"
proof -
  have "linked d' \<and> part_list d' = [] \<and> (\<forall>j. \<forall>b \<in> set (lists d j). core d' b = None) \<and>
    (\<forall>b. core d b = None \<longrightarrow> core d' b = None) \<and> same_disk d d' \<and> update_mode d' = update_mode d \<and> next_addr d' = next_addr d"
    using assms(1) unfolding d'_def
  proof (induction "part_list d" arbitrary: d)
    case Nil
    then have "lists d j = []" for j by (cases j) (simp_all add: lists_def ped_disk_extended_partition_def)
    then show ?case using Nil by simp
  next
    case (Cons a ws)
    let ?e = "delete_nested T a d"
    have "wipes d a ?e" by (rule delete_nested_wipes[OF Cons.prems]) (simp add: Cons.hyps(2)[symmetric])
    then have e: "linked ?e" "ws = part_list ?e"
      "lists ?e True = (if type_of d a = PED_PARTITION_EXTENDED then [] else lists d True)"
      "core ?e = (\<lambda>b. if b = a \<or> type_of d a = PED_PARTITION_EXTENDED \<and> b \<in> set (lists d True) then None else core d b)"
      "same_disk d ?e" "update_mode ?e = update_mode d" "next_addr ?e = next_addr d"
      using Cons.hyps(2)[symmetric] by (simp_all add: wipes_def)
    define f where "f = fold (delete_nested T) ws ?e"
    have IH: "linked f" "part_list f = []" "\<And>j b. b \<in> set (lists ?e j) \<Longrightarrow> core f b = None"
      "\<And>b. core ?e b = None \<Longrightarrow> core f b = None" "same_disk ?e f" "update_mode f = update_mode ?e" "next_addr f = next_addr ?e"
      using Cons.hyps(1)[OF e(2) e(1)] unfolding e(2)[symmetric] f_def by simp_all
    have "core f b = None" if b: "b \<in> set (lists d j)" for b j
    proof (cases "core ?e b = None")
      case False
      then have "b \<noteq> a" "\<not> (type_of d a = PED_PARTITION_EXTENDED \<and> b \<in> set (lists d True))" using e(4) by auto
      then have "b \<in> set (lists ?e j)" using b e(2,3) Cons.hyps(2) by (cases j) (auto simp flip: Cons.hyps(2))
      then show ?thesis by (rule IH(3))
    qed (rule IH(4))
    moreover have "core f b = None" if "core d b = None" for b using IH(4) that e(4) by simp
    ultimately have "linked f \<and> part_list f = [] \<and> (\<forall>j. \<forall>b \<in> set (lists d j). core f b = None) \<and>
      (\<forall>b. core d b = None \<longrightarrow> core f b = None) \<and> same_disk d f \<and> update_mode f = update_mode d \<and> next_addr f = next_addr d"
      using IH(1,2,6,7) same_disk_trans[OF e(5) IH(5)] e(6,7) by simp
    then show ?case by (simp add: f_def flip: Cons.hyps(2))
  qed
  then show "linked d'" "lists d' k = []" "b \<in> set (lists d j) \<Longrightarrow> core d' b = None" "core d b = None \<Longrightarrow> core d' b = None"
    "same_disk d d'" "update_mode d' = update_mode d" "next_addr d' = next_addr d"
    by (cases k; auto simp: lists_def ped_disk_extended_partition_def)+
qed

context disk_label begin

text \<open>The parts of a table that stay when some of its partitions go.\<close>

lemma sub_label_ok:
  assumes ok: "lok devs d" and act: "lists d = actives d" and l: "linked d'"
    and lists: "\<And>k. lists d' k = filter (P k) (lists d k)" and sd: "same_disk d d'"
    and core: "\<And>k a. a \<in> set (lists d' k) \<Longrightarrow> core d' a = core d a"
  shows "lok devs d'" "lists d' = actives d'"
proof -
  note t = label_okD[OF ok]
  have ac: "actives d' k = lists d' k" for k
    unfolding actives_def
  proof (rule filter_True, rule ballI)
    fix a assume a: "a \<in> set (lists d' k)"
    then have "a \<in> set (actives d k)" using lists act by auto
    then show "is_active (type_of d' a)" using core_eqD(2)[OF core[OF a]] by (simp add: actives_def)
  qed
  then show "lists d' = actives d'" by (simp add: fun_eq_iff)
  have "table_ok devs d'" using table_ok_sub[OF t(1) l lists core] sd by (simp add: same_disk_def)
  moreover have "allowed devs d' (type_of d' a) (geom_of d' a)" if "a \<in> set (actives d' k)" for a k
  proof -
    have a: "a \<in> set (lists d' k)" using that by (simp add: ac)
    then have "a \<in> set (actives d k)" using lists act by auto
    then show ?thesis using t(3) core_eqD(1,2)[OF core[OF a]] same_allowed[OF sd] by simp
  qed
  ultimately show "lok devs d'" using same_inv[OF sd t(2)] by (simp add: label_ok_def)
qed

lemma delete_all_spec:
  assumes ok: "disk_ok disk_inv allowed devs d" and s: "strict ask"
  defines "d' \<equiv> ped_disk_delete_all T devs ask d"
  shows "disk_ok disk_inv allowed devs d'" "same_disk d d'" "actives d' k = []"
    "\<And>a k. a \<in> set (actives d k) \<Longrightarrow> d_heap d' a = None"
proof -
  have lok: "lok devs d" and m0: "update_mode d = 0" using ok by (simp_all add: disk_ok_def)
  define d0 where "d0 = disk_push_update_mode T d"
  define e where "e = fold (delete_nested T) (part_list d0) d0"
  note p = push_label_ok[OF lok m0, folded d0_def]
  have act0: "lists d0 = actives d0" using p(2,3) by simp
  have l0: "linked d0" using table_okD(1)[OF label_okD(1)[OF p(1)]] .
  note f = fold_wipes[OF l0, where T = T, folded e_def]
  note a = sub_label_ok[OF p(1) act0 f(1) _ f(5), of "\<lambda>_ _. False"]
  have a': "lok devs e" "lists e = actives e" using a f(2) by simp_all
  have m1: "update_mode e = 1" using f(6) p(4) by simp
  note q = pop_label_ok[OF a'(1) m1 a'(2) s]
  have d': "d' = disk_pop_update_mode T devs ask e" by (simp add: d'_def ped_disk_delete_all_def d0_def e_def Let_def)
  show "disk_ok disk_inv allowed devs d'" unfolding d' using q(1,2,4) by (simp add: disk_ok_def)
  show "same_disk d d'" unfolding d' using p(5) f(5) q(5) by (blast intro: same_disk_trans)
  show "actives d' k = []" unfolding d' q(3) a'(2)[symmetric] using f(2) by simp
  show "d_heap d' a = None" if "a \<in> set (actives d k)" for a k
  proof -
    have "a < next_addr e"
      using linked_fresh[OF table_okD(1)[OF label_okD(1)[OF lok]] actives_sub[OF that]] f(7) p(7) by simp
    moreover have "core e a = None" using that p(2) by (intro f(3)) simp
    ultimately have "core d' a = None" unfolding d' using q(6) by simp
    then show ?thesis by (simp add: core_def)
  qed
qed

text \<open>Deleting an extended partition deletes the logical partitions as well.\<close>

lemma delete_extended_spec:
  assumes ok: "disk_ok disk_inv allowed devs d" and part: "part \<in> set (part_list d)"
    and ty: "type_of d part = PED_PARTITION_EXTENDED" and s: "strict ask"
  defines "d' \<equiv> ped_disk_delete_partition T devs ask part d"
  shows "disk_ok disk_inv allowed devs d'" "same_disk d d'" "actives d' True = []"
    "actives d' False = remove1 part (actives d False)"
    "\<And>a. a \<in> set (actives d False) \<Longrightarrow> a \<noteq> part \<Longrightarrow> core d' a = core d a"
proof -
  have lok: "lok devs d" and m0: "update_mode d = 0" using ok by (simp_all add: disk_ok_def)
  define d0 where "d0 = disk_push_update_mode T d"
  note p = push_label_ok[OF lok m0, folded d0_def]
  have act0: "lists d0 = actives d0" using p(2,3) by simp
  have l0: "linked d0" using table_okD(1)[OF label_okD(1)[OF p(1)]] .
  have pa: "part \<in> set (actives d False)" using part ty by (simp add: actives_def is_active_def has_bit_def)
  have c0: "core d0 a = core d a" if "a \<in> set (actives d k)" for a k using that by (intro p(6)) (simp add: actives_def)
  have p0: "part \<in> set (part_list d0)" "type_of d0 part = PED_PARTITION_EXTENDED"
    using pa p(2) core_eqD(2)[OF c0[OF pa]] ty by (simp_all flip: lists_False)
  define e where "e = ped_partition_destroy part (remove_nested T part (ped_disk_delete_all_logical T d0))"
  have w: "linked e" "part_list e = remove1 part (part_list d0)" "lists e True = []"
    "core e = (\<lambda>b. if b = part \<or> b \<in> set (lists d0 True) then None else core d0 b)"
    "same_disk d0 e" "update_mode e = update_mode d0" "next_addr e = next_addr d0"
    using delete_logicals_then[OF l0 p0, of T] p0(2) unfolding e_def[symmetric] wipes_def by simp_all
  have flt: "lists e k = filter (\<lambda>a. \<not> k \<and> a \<noteq> part) (lists d0 k)" for k
  proof (cases k)
    case False
    have "part_list e = filter (\<lambda>a. a \<noteq> part) (part_list d0)"
      using w(2) remove1_filter[of "part_list d0" part] linkedD(1)[OF l0, of False] by simp
    then show ?thesis using False by simp
  qed (simp add: w(3))
  have ce: "core e a = core d0 a" if m: "a \<in> set (lists e k)" for a k
  proof -
    have k: "a \<in> set (lists d0 k) \<and> \<not> k \<and> a \<noteq> part" using m unfolding flt set_filter by blast
    then have "a \<in> set (part_list d0)" by (cases k) simp_all
    then show ?thesis using toplevel_only[OF l0] k by (simp add: w(4))
  qed
  have a: "lok devs e" "lists e = actives e"
    by (rule sub_label_ok[OF p(1) act0 w(1) flt w(5)], erule ce)+
  have m1: "update_mode e = 1" using w(6) p(4) by simp
  note q = pop_label_ok[OF a(1) m1 a(2) s]
  have d': "d' = disk_pop_update_mode T devs ask e"
    unfolding d'_def ped_disk_delete_partition_def d0_def[symmetric] Let_def e_def using p0(2) by (simp only: if_True simp_thms)
  show "disk_ok disk_inv allowed devs d'" unfolding d' using q(1,2,4) by (simp add: disk_ok_def)
  show "same_disk d d'" unfolding d' by (rule same_disk_trans[OF same_disk_trans[OF p(5) w(5)] q(5)])
  show "actives d' True = []" unfolding d' q(3) a(2)[symmetric] by (rule w(3))
  show "actives d' False = remove1 part (actives d False)"
    unfolding d' q(3) a(2)[symmetric] using w(2) p(2) by (simp flip: lists_False)
  show "core d' b = core d b" if b: "b \<in> set (actives d False)" "b \<noteq> part" for b
  proof -
    have "b < next_addr e"
      using linked_fresh[OF table_okD(1)[OF label_okD(1)[OF lok]] actives_sub[OF b(1)]] w(7) p(7) by simp
    moreover have m: "b \<in> set (lists e False)" using b p(2) w(2) by (simp add: in_set_remove1 flip: lists_False)
    ultimately show ?thesis unfolding d' using q(6) ce[OF m] c0[OF b(1)] by simp
  qed
qed

text \<open>Both kinds of partition in one statement.\<close>

lemma delete_any_spec:
  assumes ok: "disk_ok disk_inv allowed devs d" and part: "part \<in> set (actives d k)" and s: "strict ask"
  defines "d' \<equiv> ped_disk_delete_partition T devs ask part d"
  shows "disk_ok disk_inv allowed devs d'" "actives d' False = remove1 part (actives d False)"
    "actives d' True = (if type_of d part = PED_PARTITION_EXTENDED then [] else remove1 part (actives d True))"
    "\<And>a j. a \<in> set (actives d' j) \<Longrightarrow> core d' a = core d a"
proof -
  have l: "linked d" using ok by (simp add: disk_ok_def label_ok_def table_ok_def)
  have dist: "distinct (actives d j)" for j using linkedD(1)[OF l, of j] by (simp add: actives_def)
  have "disk_ok disk_inv allowed devs d' \<and> actives d' False = remove1 part (actives d False) \<and>
    actives d' True = (if type_of d part = PED_PARTITION_EXTENDED then [] else remove1 part (actives d True)) \<and>
    (\<forall>j. \<forall>a \<in> set (actives d' j). core d' a = core d a)"
  proof (cases "type_of d part = PED_PARTITION_EXTENDED")
    case True
    have "is_logical (type_of d part) = k" using linkedD(3)[OF l actives_sub[OF part]] .
    then have "k = False" using True by (auto simp: has_bit_def)
    then have "part \<in> set (part_list d)" using actives_sub[OF part] by simp
    note e = delete_extended_spec[OF ok this True s, folded d'_def]
    have "core d' a = core d a" if "a \<in> set (actives d' j)" for a j
      using that e(3-5) dist[of False] by (cases j) auto
    then show ?thesis using e True by simp
  next
    case False
    note e = delete_partition_spec[OF ok part False s, folded d'_def]
    have "core d' a = core d a" if "a \<in> set (actives d' j)" for a j
      using that e(3)[of j] e(4)[of a j] dist[of j] by auto
    then show ?thesis using e False by simp
  qed
  then show "disk_ok disk_inv allowed devs d'" "actives d' False = remove1 part (actives d False)"
    "actives d' True = (if type_of d part = PED_PARTITION_EXTENDED then [] else remove1 part (actives d True))"
    "\<And>a j. a \<in> set (actives d' j) \<Longrightarrow> core d' a = core d a"
    by blast+
qed

end

end
