(* ===== verification/Disk_Meta.thy ===== *)
theory Disk_Meta
  imports Disk_Delete
begin

text \<open>
  Metadata partitions: what the label types rely on when their \<open>alloc_metadata\<close> links a
  placeholder into a gap of one of the lists. The steps compose (\<open>meta_step_keeps\<close>), so that a
  label proves its part of the contract \<open>disk_label\<close> from the positions alone.
\<close>

definition meta_type :: "bool \<Rightarrow> nat" where
  "meta_type k = PED_PARTITION_METADATA + (if k then PED_PARTITION_LOGICAL else 0)"

lemma meta_type_props [simp]:
  "is_logical (meta_type k) = k" "\<not> is_active (meta_type k)" "\<not> is_free (meta_type k)"
  "meta_type k \<noteq> PED_PARTITION_EXTENDED" "has_bit (meta_type k) (Suc 0) = k"
  by (simp_all add: meta_type_def is_active_def has_bit_def)

lemma meta_type_cases:
  "meta_type False = PED_PARTITION_METADATA" "meta_type True = PED_PARTITION_METADATA + PED_PARTITION_LOGICAL"
  by (simp_all add: meta_type_def)

text \<open>What adding one metadata partition does, when its place is free.\<close>

definition meta_step ::
    "dev_table \<Rightarrow> ('x, 'y) PedDisk \<Rightarrow> bool \<Rightarrow> addr list \<Rightarrow> addr list \<Rightarrow> PedSector \<Rightarrow> PedSector \<Rightarrow> ('x, 'y) PedDisk \<Rightarrow> bool" where
  "meta_step devs d k us vs s e d' \<longleftrightarrow>
     table_ok devs d' \<and> same_disk d d' \<and> update_mode d' = update_mode d \<and> next_addr d \<le> next_addr d'
     \<and> (\<forall>a < next_addr d. core d' a = core d a) \<and> lists d' (\<not> k) = lists d (\<not> k)
     \<and> (lists d' k = lists d k \<or>
        (\<exists>m. lists d' k = us @ m # vs \<and> type_of d' m = meta_type k
          \<and> g_start (geom_of d' m) = s \<and> g_end (geom_of d' m) = e))"

lemma meta_step_refl: "table_ok devs d \<Longrightarrow> meta_step devs d k us vs s e d"
  by (simp add: meta_step_def)

lemma add_nested_metadata:
  assumes "\<not> is_active (type_of d part)"
  shows "add_nested T devs ask part con d =
    (case partition_check_basic_sanity T devs d part of Inl e \<Rightarrow> (Inl e, d)
     | Inr _ \<Rightarrow> (case check_partition T devs ask (mode_up d) part of
         Inl e \<Rightarrow> (Inl e, d) | Inr _ \<Rightarrow> (Inr (), mode_down (disk_raw_add (mode_up d) part))))"
proof -
  have "mode_down (mode_up d) = d" by (simp add: mode_up_def mode_down_def)
  then show ?thesis
    using assms by (simp add: add_nested_def add_body_def active_type split: sum.splits)
qed

definition link_metadata ::
    "('x, 'y, 'z) PedPartOps_scheme \<Rightarrow> dev_table \<Rightarrow> PedExceptionHandler \<Rightarrow> PedConstraint option \<Rightarrow>
     ('x, 'y) PedDisk \<Rightarrow> addr \<Rightarrow> bool \<times> ('x, 'y) PedDisk" where
  "link_metadata T devs ask con d1 part =
     (case add_nested T devs ask part con d1 of
        (Inl _, d2) \<Rightarrow> (False, ped_partition_destroy part d2) | (Inr _, d2) \<Rightarrow> (True, d2))"

text \<open>
  A logical placeholder that would leave the extended partition is refused; the place of the others
  has to be free.
\<close>

definition in_extended :: "('x, 'y) PedDisk \<Rightarrow> PedSector \<Rightarrow> PedSector \<Rightarrow> bool" where
  "in_extended d s e \<longleftrightarrow> (let ext = geom_of d (the (ped_disk_extended_partition d)) in g_start ext \<le> s \<and> e \<le> g_end ext)"

lemma metadata_step:
  assumes ok: "table_ok devs d" and xs: "lists d k = us @ vs" and s: "strict ask"
    and p: "p_type p = meta_type k" "p_list p = []"
      "p_geom p = \<lparr>g_dev = d_dev d, g_start = start, g_length = e - start + 1, g_end = e\<rparr>"
    and e: "0 \<le> start" "start \<le> e"
    and us: "\<And>x. (k \<Longrightarrow> in_extended d start e) \<Longrightarrow> x \<in> set us \<Longrightarrow> g_end (geom_of d x) < start"
    and vs: "\<And>x. (k \<Longrightarrow> in_extended d start e) \<Longrightarrow> x \<in> set vs \<Longrightarrow> e < g_start (geom_of d x)"
    and al: "alloc_node d p = (d1, a)"
  shows "meta_step devs d k us vs start e (snd (link_metadata T devs ask con d1 a))"
proof -
  note l = table_okD(1)[OF ok]
  note q = alloc_node_props[OF l al]
  have ty: "type_of d1 a = meta_type k" using q(2) p by simp
  have na: "\<not> is_active (type_of d1 a)" by (simp add: ty)
  have co: "core d1 b = core d b" if "b < next_addr d" for b using core_heap[OF q(3)[OF that]] .
  have mem: "a \<notin> set (lists d1 j)" for j using linked_fresh[OF l] q(1,4) by fastforce
  have old: "b < next_addr d" if "b \<in> set (lists d j)" for b j using linked_fresh[OF l that] .
  have ok1: "table_ok devs d1"
    by (rule table_ok_sub[OF ok q(5), of "\<lambda>_ _. True"]) (use q(4,11) co old in auto)
  have failed: "meta_step devs d k us vs start e (ped_partition_destroy a d1)"
  proof -
    note r = destroy_unlinked[OF q(5) mem]
    have c: "core (ped_partition_destroy a d1) b = core d b" if "b < next_addr d" for b
      using r(3) co[OF that] that q(1) by simp
    have "table_ok devs (ped_partition_destroy a d1)"
      by (rule table_ok_sub[OF ok r(1), of "\<lambda>_ _. True"])
        (use r(2,4) q(4,11) c old in \<open>auto simp: same_disk_def\<close>)
    moreover have "same_disk d (ped_partition_destroy a d1)" using q(6) r(4) by (rule same_disk_trans)
    ultimately show ?thesis
      unfolding meta_step_def using r(2,5,6) q(4,7,8) c by simp
  qed
  show ?thesis
  proof (cases "\<exists>y. partition_check_basic_sanity T devs d1 a = Inr y \<and> check_partition T devs ask (mode_up d1) a = Inr y")
    case False
    then have "snd (link_metadata T devs ask con d1 a) = ped_partition_destroy a d1"
      by (auto simp: link_metadata_def add_nested_metadata[OF na] split: sum.splits)
    then show ?thesis using failed by simp
  next
    case True
    then obtain y where y: "partition_check_basic_sanity T devs d1 a = Inr y" "check_partition T devs ask (mode_up d1) a = Inr y"
      by blast
    let ?d1 = "mode_up d1"
    have res: "snd (link_metadata T devs ask con d1 a) = mode_down (disk_raw_add ?d1 a)"
      using y by (simp add: link_metadata_def add_nested_metadata[OF na])
    have hl: "has_list ?d1 k"
      using y(1) ty by (auto simp: has_list_def partition_check_basic_sanity_def split: if_splits)
    have "d_heap ?d1 a = d_heap d1 a" by (simp add: mode_up_def)
    then have lin: "linkable ?d1 a" using mem[of k] q(9) ty hl by (simp add: linkable_def)
    have ge: "geom_wf (geom_of ?d1 a)" "g_dev (geom_of ?d1 a) = d_dev ?d1"
      "g_start (geom_of ?d1 a) = start" "g_end (geom_of ?d1 a) = e"
      using q(2,11) e p by (simp_all add: geom_wf_def)
    have xs1: "lists ?d1 k = us @ vs" using fun_cong[OF q(4), of k] xs by simp
    have gx: "geom_of ?d1 x = geom_of d x" if "x \<in> set (us @ vs)" for x
      using core_eqD(1)[OF co[of x]] old[of x k] that xs by simp
    have tya: "type_of ?d1 a \<noteq> PED_PARTITION_EXTENDED" "k = is_logical (type_of ?d1 a)"
      using ty by simp_all
    note chk = check_partition_strict[OF s y(2)]
    have ine: "in_extended d start e" if kk: k
    proof -
      obtain x where x: "ped_disk_extended_partition d = Some x" using hl kk q(10) by (auto simp: has_list_def)
      have "geom_of d1 x = geom_of d x" using core_eqD(1)[OF co[OF old[of x False]]] ext_Some_mem[OF x] by simp
      then show ?thesis
        using chk(1)[folded tya(2), OF kk] ge x q(10)
        by (auto simp: in_extended_def ped_geometry_test_inside_def split: if_splits)
    qed
    have us1: "g_end (geom_of ?d1 x) < g_start (geom_of ?d1 a)" if "x \<in> set us" for x
      using us[OF ine that] gx[of x] that ge by simp
    have vs1: "g_end (geom_of ?d1 a) < g_start (geom_of ?d1 x)" if "x \<in> set vs" for x
      using vs[OF ine that] gx[of x] that ge by simp
    have okm: "table_ok devs ?d1" using ok1 by simp
    note r = add_table_ok[OF okm lin tya ge(1,2) xs1 us1 vs1 chk(1)[folded tya(2)] chk(2)]
    have r': "table_ok devs (disk_raw_add ?d1 a)" "relinked ?d1 k (us @ a # vs) (disk_raw_add ?d1 a)"
      using r by simp_all
    then have c: "core (disk_raw_add ?d1 a) = core d1" "update_mode (disk_raw_add ?d1 a) = update_mode d1 + 1"
      by (simp_all add: relinked_def)
    have "type_of (disk_raw_add ?d1 a) a = meta_type k"
      "g_start (geom_of (disk_raw_add ?d1 a) a) = start" "g_end (geom_of (disk_raw_add ?d1 a) a) = e"
      using core_eqD(1,2)[OF fun_cong[OF c(1)], of a] ty ge by simp_all
    then show ?thesis
      unfolding meta_step_def res using r' c co q
      by (auto simp: relinked_def same_disk_def)
  qed
qed

lemma meta_step_ext:
  assumes ok: "table_ok devs d" and st: "meta_step devs d True us vs s e d'"
  shows "ped_disk_extended_partition d' = ped_disk_extended_partition d"
proof (rule ext_cong)
  have pl: "lists d' False = lists d False" and co: "\<And>a. a < next_addr d \<Longrightarrow> core d' a = core d a"
    using st by (simp_all add: meta_step_def)
  then show "part_list d' = part_list d" by simp
  fix a assume "a \<in> set (part_list d)"
  then have "a < next_addr d" using linked_fresh[OF table_okD(1)[OF ok], of a False] by simp
  then show "type_of d' a = type_of d a" using core_eqD(2)[OF co] by simp
qed

lemma meta_step_keeps:
  assumes ok: "table_ok devs d" and st: "meta_step devs d k us vs s e d'" and xs: "lists d k = us @ vs"
    and nf: "nonfree d = lists d"
  shows "actives d' = actives d" "nonfree d' = lists d'"
proof -
  have ty: "type_of d' x = type_of d x" if "x \<in> set (lists d j)" for x j
    using core_eqD(2) st linked_fresh[OF table_okD(1)[OF ok] that] by (auto simp: meta_step_def)
  have "\<not> is_free (type_of d x)" if "x \<in> set (lists d j)" for x j
  proof -
    have "x \<in> set (nonfree d j)" using that by (simp only: nf)
    then show ?thesis by (simp add: nonfree_def)
  qed
  then have free: "\<not> is_free (type_of d' x)" if "x \<in> set (lists d j)" for x j
    using ty[OF that] that by auto
  have cases: "lists d' j = lists d j \<or>
      (\<exists>us m vs. lists d j = us @ vs \<and> lists d' j = us @ m # vs \<and> type_of d' m = meta_type k)" for j
    using st xs by (cases "j = k") (auto simp: meta_step_def)
  have "actives d' j = actives d j" for j
  proof -
    have "actives d' j = filter (\<lambda>a. is_active (type_of d' a)) (lists d j)"
      using cases[of j] by (auto simp: actives_def)
    also have "\<dots> = actives d j"
      unfolding actives_def by (rule filter_cong[OF refl]) (simp add: ty)
    finally show ?thesis .
  qed
  then show "actives d' = actives d" by (simp add: fun_eq_iff)
  have "nonfree d' j = lists d' j" for j
    unfolding nonfree_def
  proof (rule filter_True, rule ballI)
    fix x assume "x \<in> set (lists d' j)"
    then have "x \<in> set (lists d j) \<or> type_of d' x = meta_type k" using cases[of j] by auto
    then show "\<not> is_free (type_of d' x)" using free by (metis meta_type_props(3))
  qed
  then show "nonfree d' = lists d'" by (simp add: fun_eq_iff)
qed

text \<open>A sequence of steps, as \<open>alloc_metadata\<close> makes them: what the contract asks for.\<close>

definition meta_run :: "dev_table \<Rightarrow> ('x, 'y) PedDisk \<Rightarrow> ('x, 'y) PedDisk \<Rightarrow> bool" where
  "meta_run devs d d' \<longleftrightarrow> table_ok devs d' \<and> actives d' = actives d \<and> nonfree d' = lists d' \<and>
     (\<forall>a < next_addr d. core d' a = core d a) \<and> same_disk d d' \<and> update_mode d' = update_mode d
     \<and> next_addr d \<le> next_addr d'"

lemma meta_run_step:
  assumes r: "meta_run devs d0 d" and st: "meta_step devs d k us vs s e d'" and xs: "lists d k = us @ vs"
  shows "meta_run devs d0 d'"
proof -
  have ok: "table_ok devs d" and nf: "nonfree d = lists d" using r by (simp_all add: meta_run_def)
  note k = meta_step_keeps[OF ok st xs nf]
  show ?thesis using r st k by (auto simp: meta_run_def meta_step_def intro: same_disk_trans)
qed

lemma meta_run_start:
  assumes "table_ok devs d" "lists d = actives d"
  shows "meta_run devs d d"
proof -
  have "filter (\<lambda>a. \<not> is_free (type_of d a)) (actives d k) = actives d k" for k
    by (rule filter_True) (simp add: actives_def is_active_def)
  then have "nonfree d k = lists d k" for k by (simp only: nonfree_def assms(2))
  then show ?thesis using assms(1) by (simp add: meta_run_def fun_eq_iff)
qed

end
