(* ===== verification/Pt_Limit.thy ===== *)
theory Pt_Limit
  imports Disk
begin

text \<open>
  Model of \<open>libparted/labels/pt-limit.c\<close> (the perfect hash function that \<open>gperf\<close> derived
  from the table of limits of the label types, with its tables) and of the functions of
  \<open>labels/pt-tools.c\<close> that use it: the largest start sector and length a label type can
  represent. A C string is a list of characters without \<open>NUL\<close>; the comparison with the
  limits is unsigned, as C converts the signed sector numbers to \<open>uint64_t\<close>.
\<close>

section \<open>The hash table\<close>

record partition_limit =
  lim_name :: string
  max_start_sector :: int
  max_length :: int

definition asso_values :: "nat list" where
  "asso_values =
    [
     56, 56, 56, 56, 56, 56, 56, 56, 56, 56, 56, 56, 56, 56, 56, 56,
     56, 56, 56, 56, 56, 56, 56, 56, 56, 56, 56, 56, 56, 56, 56, 56,
     56, 56, 56, 56, 56, 56, 56, 56, 56, 56, 56, 56, 56, 56, 56, 56,
     56, 56, 56, 56, 56, 56, 56, 56, 10, 5, 56, 56, 56, 56, 56, 56,
     56, 56, 56, 56, 56, 56, 56, 56, 56, 56, 56, 56, 56, 56, 56, 56,
     56, 56, 56, 56, 56, 56, 56, 56, 56, 56, 56, 56, 56, 56, 56, 56,
     56, 5, 40, 40, 5, 56, 56, 5, 20, 0, 56, 56, 15, 0, 15, 10,
     0, 56, 0, 5, 0, 10, 15, 56, 56, 56, 56, 56, 56, 56, 56, 56,
     56, 56, 56, 56, 56, 56, 56, 56, 56, 56, 56, 56, 56, 56, 56, 56,
     56, 56, 56, 56, 56, 56, 56, 56, 56, 56, 56, 56, 56, 56, 56, 56,
     56, 56, 56, 56, 56, 56, 56, 56, 56, 56, 56, 56, 56, 56, 56, 56,
     56, 56, 56, 56, 56, 56, 56, 56, 56, 56, 56, 56, 56, 56, 56, 56,
     56, 56, 56, 56, 56, 56, 56, 56, 56, 56, 56, 56, 56, 56, 56, 56,
     56, 56, 56, 56, 56, 56, 56, 56, 56, 56, 56, 56, 56, 56, 56, 56,
     56, 56, 56, 56, 56, 56, 56, 56, 56, 56, 56, 56, 56, 56, 56, 56,
     56, 56, 56, 56, 56, 56, 56, 56, 56, 56, 56, 56, 56, 56, 56, 56]"

text \<open>\<open>asso_values[(unsigned char)str[i]]\<close>\<close>

definition asso :: "string \<Rightarrow> nat \<Rightarrow> nat" where
  "asso str i = asso_values ! (of_char (str ! i))"

text \<open>The cases of the \<open>switch\<close> fall through, from the longest to the shortest.\<close>

definition hash :: "string \<Rightarrow> nat \<Rightarrow> nat" where
  "hash str len =
     (if len \<notin> {1, 2, 3, 4} then asso str 4 else 0)
     + (if len \<notin> {1, 2, 3} then asso str 3 else 0)
     + (if len \<notin> {1, 2} then asso str 2 else 0)
     + (if len \<noteq> 1 then asso str 1 else 0)
     + asso str 0"

abbreviation UINT64_MAX :: int where "UINT64_MAX \<equiv> 2 ^ 64 - 1"
abbreviation UINT32_MAX :: int where "UINT32_MAX \<equiv> 2 ^ 32 - 1"
abbreviation INT32_MAX :: int where "INT32_MAX \<equiv> 2 ^ 31 - 1"

definition lim :: "string \<Rightarrow> int \<Rightarrow> int \<Rightarrow> partition_limit" where
  "lim n s l = \<lparr>lim_name = n, max_start_sector = s, max_length = l\<rparr>"

definition no_lim :: partition_limit where
  "no_lim = lim '''' 0 0"

definition wordlist :: "partition_limit list" where
  "wordlist =
    [no_lim, no_lim, no_lim, no_lim, no_lim,
     lim ''gpt'' (UINT64_MAX) (UINT64_MAX), no_lim, no_lim, no_lim, no_lim,
     lim ''atari'' (INT32_MAX) (INT32_MAX), no_lim, no_lim, no_lim, no_lim,
     lim ''amiga'' (UINT32_MAX) (UINT32_MAX), no_lim, no_lim, no_lim, no_lim,
     lim ''dasd'' (UINT32_MAX) (UINT32_MAX), no_lim, no_lim, no_lim, no_lim,
     lim ''msdos'' (UINT32_MAX) (UINT32_MAX), no_lim, no_lim, no_lim, no_lim,
     lim ''sun'' (128 * UINT32_MAX) (UINT32_MAX), no_lim, no_lim, no_lim, no_lim,
     lim ''loop'' (UINT64_MAX) (UINT64_MAX), no_lim, no_lim, no_lim, no_lim,
     lim ''dvh'' (UINT32_MAX) (UINT32_MAX), no_lim, no_lim, no_lim, no_lim,
     lim ''mac'' (UINT32_MAX) (UINT32_MAX), no_lim, no_lim, no_lim, no_lim,
     lim ''bsd'' (UINT32_MAX) (UINT32_MAX), no_lim, no_lim, no_lim, no_lim,
     lim ''pc98'' (UINT32_MAX) (UINT32_MAX)]"

abbreviation MIN_WORD_LENGTH :: nat where "MIN_WORD_LENGTH \<equiv> 3"
abbreviation MAX_WORD_LENGTH :: nat where "MAX_WORD_LENGTH \<equiv> 5"
abbreviation MAX_HASH_VALUE :: nat where "MAX_HASH_VALUE \<equiv> 55"

text \<open>\<open>*str == *s && !strcmp (str + 1, s + 1)\<close> for a nonempty \<open>str\<close> is equality.\<close>

definition pt_limit_lookup :: "string \<Rightarrow> nat \<Rightarrow> partition_limit option" where
  "pt_limit_lookup str len =
     (if len \<le> MAX_WORD_LENGTH \<and> len \<ge> MIN_WORD_LENGTH then
        let key = hash str len
        in if key \<le> MAX_HASH_VALUE then
             let s = lim_name (wordlist ! key)
             in if str = s then Some (wordlist ! key) else None
           else None
      else None)"

section \<open>The limits of a partition\<close>

definition to_uint64 :: "int \<Rightarrow> int" where
  "to_uint64 x = uint (word_of_int x :: 64 word)"

definition ptt_partition_max_start_len :: "string \<Rightarrow> PedGeometry \<Rightarrow> unit result" where
  "ptt_partition_max_start_len pt_type geom =
     (case pt_limit_lookup pt_type (length pt_type) of
        None \<Rightarrow> Inr ()
      | Some pt_lim \<Rightarrow>
          if to_uint64 (g_length geom) > max_length pt_lim
          then Inl (Some (error_cancel
            ''partition length of %jd sectors exceeds the %s-partition-table-imposed maximum of %jd''
            [AInt (g_length geom), AStr pt_type, AInt (max_length pt_lim)]))
          else if to_uint64 (g_start geom) > max_start_sector pt_lim
          then Inl (Some (error_cancel
            ''starting sector number, %jd exceeds the %s-partition-table-imposed maximum of %jd''
            [AInt (g_start geom), AStr pt_type, AInt (max_start_sector pt_lim)]))
          else Inr ())"

text \<open>The assignment of an unsigned limit to a \<open>PedSector\<close> keeps its bits.\<close>

definition to_pedsector :: "int \<Rightarrow> PedSector" where
  "to_pedsector x = signed_take_bit 63 x"

definition ptt_partition_max_start_sector :: "string \<Rightarrow> PedSector option" where
  "ptt_partition_max_start_sector pt_type =
     map_option (\<lambda>l. to_pedsector (max_start_sector l)) (pt_limit_lookup pt_type (length pt_type))"

definition ptt_partition_max_length :: "string \<Rightarrow> PedSector option" where
  "ptt_partition_max_length pt_type =
     map_option (\<lambda>l. to_pedsector (max_length l)) (pt_limit_lookup pt_type (length pt_type))"

section \<open>The lookup is a search in the table of limits\<close>

definition limit_table :: "(string \<times> partition_limit) list" where
  "limit_table = map (\<lambda>l. (lim_name l, l)) (filter (\<lambda>l. lim_name l \<noteq> '''') wordlist)"

lemma keywords_found:
  "list_all (\<lambda>(n, l). pt_limit_lookup n (length n) = Some l) limit_table"
  by code_simp

lemma lookup_in_table:
  assumes "pt_limit_lookup s (length s) = Some l"
  shows "(s, l) \<in> set limit_table"
proof -
  have w: "length wordlist = 56" by code_simp
  have k: "hash s (length s) < 56" "wordlist ! hash s (length s) = l" "s = lim_name l"
      "3 \<le> length s"
    using assms by (auto simp: pt_limit_lookup_def Let_def split: if_splits)
  then have "l \<in> set wordlist" "s \<noteq> ''''" using w by (metis nth_mem, auto)
  then show ?thesis using k(3) by (auto simp: limit_table_def)
qed

lemma limit_table_distinct: "distinct (map fst limit_table)"
  by code_simp

lemma pt_limit_lookup_eq: "pt_limit_lookup s (length s) = map_of limit_table s"
proof (cases "pt_limit_lookup s (length s)")
  case (Some l)
  then show ?thesis
    using map_of_is_SomeI[OF limit_table_distinct lookup_in_table[OF Some]] by simp
next
  case None
  have "map_of limit_table s = None"
  proof (rule ccontr)
    assume "map_of limit_table s \<noteq> None"
    then obtain l where "(s, l) \<in> set limit_table" by (auto dest: map_of_SomeD)
    with keywords_found None show False by (auto simp: list_all_iff)
  qed
  with None show ?thesis by simp
qed

lemma to_uint64_id: "0 \<le> x \<Longrightarrow> x < 2 ^ 64 \<Longrightarrow> to_uint64 x = x"
  by (simp add: to_uint64_def uint_word_of_int take_bit_int_eq_self)

lemma to_uint64_le: "to_uint64 x \<le> 2 ^ 64 - 1"
  using uint_lt2p[of "word_of_int x :: 64 word"] by (simp add: to_uint64_def)

text \<open>Labels with 64-bit fields accept every region.\<close>

lemma max_start_len_64 [simp]:
  "ptt_partition_max_start_len ''gpt'' g = Inr ()" "ptt_partition_max_start_len ''loop'' g = Inr ()"
proof -
  have "pt_limit_lookup ''gpt'' (length ''gpt'') = Some (lim ''gpt'' UINT64_MAX UINT64_MAX)"
    "pt_limit_lookup ''loop'' (length ''loop'') = Some (lim ''loop'' UINT64_MAX UINT64_MAX)"
    by code_simp+
  then show "ptt_partition_max_start_len ''gpt'' g = Inr ()"
    "ptt_partition_max_start_len ''loop'' g = Inr ()"
    unfolding ptt_partition_max_start_len_def
    using to_uint64_le[of "g_length g"] to_uint64_le[of "g_start g"]
    by (simp_all add: lim_def not_less del: list.size)
qed

section \<open>Properties\<close>

text \<open>
  C25. The generated perfect hash function is correct: for every string, \<open>pt_limit_lookup\<close>
  returns what a linear search in the table of the eleven label types returns.
\<close>
theorem limit_lookup_is_search:
  "pt_limit_lookup s (length s) = map_of limit_table s"
  by (rule pt_limit_lookup_eq)

text \<open>
  The limit check of the MS-DOS label accepts exactly the regions whose start and length
  fit in 32 bits.
\<close>
theorem msdos_limit_check:
  assumes "0 \<le> g_start g" "g_start g < 2 ^ 63" "0 < g_length g" "g_length g < 2 ^ 63"
  shows "ptt_partition_max_start_len ''msdos'' g = Inr () \<longleftrightarrow>
    g_start g < 2 ^ 32 \<and> g_length g < 2 ^ 32"
proof -
  have "pt_limit_lookup ''msdos'' (length ''msdos'') = Some (lim ''msdos'' UINT32_MAX UINT32_MAX)"
    by code_simp
  then show ?thesis
    unfolding ptt_partition_max_start_len_def using assms by (simp add: lim_def to_uint64_id)
qed

theorem msdos_limit_check_witness:
  "ptt_partition_max_start_len ''msdos''
     \<lparr>g_dev = 0, g_start = 2 ^ 32, g_length = 1, g_end = 2 ^ 32\<rparr> \<noteq> Inr ()"
  using msdos_limit_check[of "\<lparr>g_dev = 0, g_start = 2 ^ 32, g_length = 1, g_end = 2 ^ 32\<rparr>"]
  by simp

end
