(* ===== verification/Dos.thy ===== *)
theory Dos
  imports Dos_Flags Disk_Meta Pt_Limit
begin

text \<open>
  The label type \<open>msdos\<close> (\<open>libparted/labels/dos.c\<close>), its operations on the table object: new
  tables and partitions, the constraints of primary, extended and logical partitions, alignment,
  numbering, and the metadata that stands for the boot record, the extended partition table and
  the partition tables of the logical partitions.

  \<open>fsec\<close> is the first sector of a region as \<open>ped_geometry_read\<close> returns it, \<open>None\<close> when reading
  fails. A null pointer is \<open>None\<close>; \<open>PED_ASSERT\<close> has no counterpart.
\<close>

section \<open>Tables and partitions\<close>

definition msdos_alloc :: "dev_ref \<Rightarrow> DosDisk option" where
  "msdos_alloc dev = Some (ped_disk_alloc dev \<lparr>cylinder_alignment = True\<rparr>)"

text \<open>\<open>PED_DISK_CYLINDER_ALIGNMENT\<close> is 1.\<close>

definition msdos_disk_set_flag :: "int \<Rightarrow> bool \<Rightarrow> DosDisk \<Rightarrow> bool \<times> DosDisk" where
  "msdos_disk_set_flag flag state d =
     (if flag = 1 then (True, d\<lparr>d_specific := (d_specific d)\<lparr>cylinder_alignment := state\<rparr>\<rparr>) else (False, d))"

definition msdos_disk_get_flag :: "DosDisk \<Rightarrow> int \<Rightarrow> bool" where
  "msdos_disk_get_flag d flag = (if flag = 1 then cylinder_alignment (d_specific d) else False)"

definition msdos_disk_is_flag_available :: "DosDisk \<Rightarrow> int \<Rightarrow> bool" where
  "msdos_disk_is_flag_available d flag \<longleftrightarrow> flag = 1"

definition msdos_partition_new ::
    "DosDisk \<Rightarrow> nat \<Rightarrow> string option \<Rightarrow> PedSector \<Rightarrow> PedSector \<Rightarrow> DosPart result" where
  "msdos_partition_new d part_type fs_type start endd =
     (case ped_partition_alloc d part_type fs_type start endd None of
        Inl e \<Rightarrow> Inl e
      | Inr part \<Rightarrow>
          if ped_partition_is_active part
          then Inr (part\<lparr>p_specific := Some \<lparr>dos_system = PARTITION_LINUX, dos_boot = False, dos_orig = None\<rparr>\<rparr>)
          else Inr part)"

section \<open>Constraints\<close>

definition try_constraint ::
    "dev_table \<Rightarrow> DosPart \<Rightarrow> PedConstraint option \<Rightarrow> PedConstraint option \<Rightarrow> PedGeometry option" where
  "try_constraint devs part external internal =
     (case ped_constraint_intersect external internal of
        None \<Rightarrow> None
      | Some intersection \<Rightarrow> ped_constraint_solve_nearest devs (Some intersection) (p_geom part))"

definition best_solution ::
    "DosPart \<Rightarrow> PedCHSGeometry \<Rightarrow> PedGeometry option \<Rightarrow> PedGeometry option \<Rightarrow> PedGeometry option" where
  "best_solution part bios ao bo =
     (case (ao, bo) of
        (None, b) \<Rightarrow> b
      | (Some a, None) \<Rightarrow> Some a
      | (Some a, Some b) \<Rightarrow>
          let cyl_size = heads bios * sectors bios;
              a_cylinder = c_int (g_start a sdiv cyl_size);
              b_cylinder = c_int (g_start b sdiv cyl_size)
          in if a_cylinder = b_cylinder then
               (if (g_start a sdiv sectors bios) smod heads bios < (g_start b sdiv sectors bios) smod heads bios
                then Some a else Some b)
             else
               let a_delta = \<bar>g_start (p_geom part) - g_start a\<bar>;
                   b_delta = \<bar>g_start (p_geom part) - g_start b\<bar>
               in if a_delta < b_delta then Some a else Some b)"

definition primary_constraint ::
    "dev_table \<Rightarrow> DosDisk \<Rightarrow> PedCHSGeometry \<Rightarrow> PedGeometry option \<Rightarrow> PedConstraint option" where
  "primary_constraint devs d bios min_geom =
     (let dev = d_dev d; len = dev_length (devs dev);
          cylinder_size = sectors bios * heads bios;
          start_align = ped_alignment_init undefined 0 cylinder_size;
          end_align = ped_alignment_init undefined (- 1) cylinder_size
      in case min_geom of
           Some mn \<Rightarrow>
             if g_start mn < cylinder_size then None
             else constraint_of start_align end_align
                    (ped_geometry_init uninit_geometry dev cylinder_size (g_start mn + 1 - cylinder_size))
                    (ped_geometry_init uninit_geometry dev (g_end mn) (len - g_end mn)) len
         | None \<Rightarrow>
             let start = (if cylinder_size < len then cylinder_size else 1)
             in constraint_of start_align end_align
                  (ped_geometry_init uninit_geometry dev start (len - start))
                  (ped_geometry_init uninit_geometry dev 0 len) len)"

definition primary_start_constraint ::
    "dev_table \<Rightarrow> DosDisk \<Rightarrow> DosPart \<Rightarrow> PedCHSGeometry \<Rightarrow> PedGeometry option \<Rightarrow> PedConstraint option" where
  "primary_start_constraint devs d part bios min_geom =
     (let dev = d_dev d; len = dev_length (devs dev);
          cylinder_size = sectors bios * heads bios;
          start_pos = (if g_start (p_geom part) = 2048 then 2048 else sectors bios);
          start_align = ped_alignment_init undefined start_pos 0;
          end_align = ped_alignment_init undefined (- 1) cylinder_size
      in case min_geom of
           Some mn \<Rightarrow>
             constraint_of start_align end_align
               (ped_geometry_init uninit_geometry dev start_pos 1)
               (ped_geometry_init uninit_geometry dev (g_end mn) (len - g_end mn)) len
         | None \<Rightarrow>
             constraint_of start_align end_align
               (ped_geometry_init uninit_geometry dev start_pos (len - start_pos))
               (ped_geometry_init uninit_geometry dev 0 len) len)"

definition logical_constraint ::
    "dev_table \<Rightarrow> DosDisk \<Rightarrow> PedCHSGeometry \<Rightarrow> PedSector \<Rightarrow> bool \<Rightarrow> PedConstraint option" where
  "logical_constraint devs d bios start_offset is_start_part =
     (let ext = geom_of d (the (ped_disk_extended_partition d));
          dev = d_dev d; len = dev_length (devs dev);
          cylinder_size = sectors bios * heads bios;
          start_align = ped_alignment_init undefined start_offset cylinder_size;
          end_align = ped_alignment_init undefined (- 1) cylinder_size
      in if is_start_part then
           let max_geom = ped_geometry_init uninit_geometry dev (g_start ext) (g_length ext)
           in constraint_of start_align end_align max_geom max_geom len
         else
           let min_start = ped_round_up_to (g_start ext + 1) cylinder_size;
               max_length = g_end ext - min_start + 1;
               max_geom = ped_geometry_init uninit_geometry dev min_start max_length
           in if min_start \<ge> g_end ext then None
              else constraint_of start_align end_align max_geom max_geom len)"

text \<open>A change of a region whose status is ignored.\<close>

definition unless_failed :: "PedGeometry \<Rightarrow> PedGeometry result \<Rightarrow> PedGeometry" where
  "unless_failed g r = (case r of Inl _ \<Rightarrow> g | Inr g' \<Rightarrow> g')"

definition get_min_extended_part_geom ::
    "DosDisk \<Rightarrow> addr \<Rightarrow> PedCHSGeometry option \<Rightarrow> PedGeometry option" where
  "get_min_extended_part_geom d ext_part bios =
     (let head_size = (case bios of Some b \<Rightarrow> sectors b | None \<Rightarrow> 1)
      in case ped_disk_get_partition d 5 of
           None \<Rightarrow> None
         | Some walk5 \<Rightarrow>
      (case ped_geometry_duplicate (geom_of d walk5) of
           Inl _ \<Rightarrow> None
         | Inr g \<Rightarrow>
             let g0 = unless_failed g (ped_geometry_set_start g (g_start (geom_of d walk5) - max (1 * head_size) 2))
             in Some (fold (\<lambda>walk mn.
                  if \<not> ped_partition_is_active (node d walk) \<or> p_num (node d walk) = 5 then mn
                  else
                    let mn1 = (if g_start (geom_of d walk) < g_start mn
                               then unless_failed mn (ped_geometry_set_start mn (g_start (geom_of d walk) - 2 * head_size))
                               else mn)
                    in if g_end (geom_of d walk) > g_end mn1
                       then unless_failed mn1 (ped_geometry_set_end mn1 (g_end (geom_of d walk))) else mn1)
                (p_list (node d ext_part)) g0)))"

text \<open>
  Partition 5 has its table at the start of the extended partition; every other logical
  partition needs the sector before it. \<open>ebr_gap\<close> is the comparison \<open>num != 5\<close> used as a number.
\<close>

definition ebr_gap :: "DosPart \<Rightarrow> int" where
  "ebr_gap part = (if p_num part \<noteq> 5 then 1 else 0)"

fun log_meta_scan ::
    "DosDisk \<Rightarrow> addr \<Rightarrow> PedSector \<Rightarrow> int \<Rightarrow> PedSector \<Rightarrow> addr list \<Rightarrow> PedSector \<times> addr list" where
  "log_meta_scan d part start not_5 min_start [] = (min_start, [])"
| "log_meta_scan d part start not_5 min_start (walk # rest) =
     (if g_start (geom_of d walk) - ebr_gap (node d walk) < start - not_5
         \<or> g_start (geom_of d walk) - ebr_gap (node d walk) \<le> min_start
      then log_meta_scan d part start not_5
             (if walk \<noteq> part \<and> ped_partition_is_active (node d walk)
              then g_end (geom_of d walk) + 1 + not_5 else min_start) rest
      else (min_start, walk # rest))"

definition log_meta_overlap_constraint :: "DosDisk \<Rightarrow> addr \<Rightarrow> PedGeometry \<Rightarrow> PedConstraint option" where
  "log_meta_overlap_constraint d part geom =
     (let e = the (ped_disk_extended_partition d);
          not_5 = ebr_gap (node d part);
          (min_start, walk) = log_meta_scan d part (g_start geom) not_5 (g_start (geom_of d e) + 1 + not_5)
                                (p_list (node d e));
          rest = dropWhile (\<lambda>w. w = part \<or> \<not> ped_partition_is_active (node d w)) walk;
          max_end = (case rest of [] \<Rightarrow> g_end (geom_of d e)
                     | w # _ \<Rightarrow> g_start (geom_of d w) - 1 - ebr_gap (node d w))
      in if min_start \<ge> max_end then None
         else ped_constraint_new_from_max
                (geometry_init_local (d_dev d) min_start (max_end - min_start + 1)))"

definition no_geom_constraint :: "DosDisk \<Rightarrow> PedSector \<Rightarrow> PedSector \<Rightarrow> PedConstraint option" where
  "no_geom_constraint d start endd =
     ped_constraint_new_from_max (geometry_init_local (d_dev d) start (endd - start + 1))"

definition no_geom_extended_constraint :: "dev_table \<Rightarrow> DosDisk \<Rightarrow> addr \<Rightarrow> PedConstraint option" where
  "no_geom_extended_constraint devs d part =
     (let dev = d_dev d; len = dev_length (devs dev);
          (start_rng, end_rng) =
            (case get_min_extended_part_geom d part None of
               Some mn \<Rightarrow> (geometry_init_local dev 1 (g_start mn), geometry_init_local dev (g_end mn) (len - g_end mn))
             | None \<Rightarrow> (geometry_init_local dev 1 (len - 1), geometry_init_local dev 1 (len - 1)))
      in ped_constraint_new ped_alignment_any ped_alignment_any start_rng end_rng 1 len)"

section \<open>Alignment\<close>

text \<open>\<open>Some g\<close>: the function returns 1 and has set the region of the partition to \<open>g\<close>.\<close>

definition set_solution :: "DosPart \<Rightarrow> PedGeometry option \<Rightarrow> PedGeometry option" where
  "set_solution part solution =
     (case solution of None \<Rightarrow> None
      | Some s \<Rightarrow> Some (unless_failed (p_geom part) (ped_geometry_set (p_geom part) (g_start s) (g_length s))))"

definition align_primary ::
    "dev_table \<Rightarrow> DosDisk \<Rightarrow> addr \<Rightarrow> PedCHSGeometry \<Rightarrow> PedConstraint option \<Rightarrow> PedGeometry option" where
  "align_primary devs d part bios con =
     (let p = node d part;
          min_geom = (if p_type p = PED_PARTITION_EXTENDED then get_min_extended_part_geom d part (Some bios) else None);
          solution1 = best_solution p bios None
            (try_constraint devs p con (primary_start_constraint devs d p bios min_geom));
          solution2 = best_solution p bios solution1
            (try_constraint devs p con (primary_constraint devs d bios min_geom))
      in set_solution p solution2)"

definition logical_min_start_head :: "DosPart \<Rightarrow> PedCHSGeometry \<Rightarrow> PedGeometry \<Rightarrow> bool \<Rightarrow> int" where
  "logical_min_start_head part bios ext is_start_ext_part =
     (let cylinder_size = sectors bios * heads bios;
          base_head = (if is_start_ext_part then 1 + (g_start ext smod cylinder_size) sdiv sectors bios else 0)
      in c_int (if p_num part = 5 then base_head + 0 else base_head + 1))"

definition align_logical ::
    "dev_table \<Rightarrow> DosDisk \<Rightarrow> addr \<Rightarrow> PedCHSGeometry \<Rightarrow> PedConstraint option \<Rightarrow> PedGeometry option" where
  "align_logical devs d part bios con =
     (let p = node d part;
          ext = geom_of d (the (ped_disk_extended_partition d));
          cyl_size = sectors bios * heads bios
      in case ped_constraint_intersect con (log_meta_overlap_constraint d part (p_geom p)) of
           None \<Rightarrow> None
         | Some i \<Rightarrow>
             let start_base = ped_round_down_to (g_start (p_geom p)) cyl_size;
                 solution = fold (\<lambda>head solution.
                     let start = start_base + head * sectors bios;
                         disk_constraint = logical_constraint devs d bios start
                           (head \<ge> logical_min_start_head p bios ext True)
                     in best_solution p bios solution (try_constraint devs p (Some i) disk_constraint))
                   [logical_min_start_head p bios ext False .. min 5 (heads bios) - 1] None
             in set_solution p solution)"

definition align_cylinders ::
    "dev_table \<Rightarrow> DosDisk \<Rightarrow> addr \<Rightarrow> PedCHSGeometry \<Rightarrow> PedConstraint option \<Rightarrow> PedGeometry option" where
  "align_cylinders devs d part bios con =
     (if type_of d part = PED_PARTITION_LOGICAL then align_logical devs d part bios con
      else align_primary devs d part bios con)"

definition align_primary_no_geom ::
    "dev_table \<Rightarrow> DosDisk \<Rightarrow> addr \<Rightarrow> PedConstraint option \<Rightarrow> PedGeometry option" where
  "align_primary_no_geom devs d part con =
     set_solution (node d part) (try_constraint devs (node d part) con
       (if type_of d part = PED_PARTITION_EXTENDED then no_geom_extended_constraint devs d part
        else no_geom_constraint d 1 (dev_length (devs (d_dev d)) - 1)))"

definition align_logical_no_geom ::
    "dev_table \<Rightarrow> DosDisk \<Rightarrow> addr \<Rightarrow> PedConstraint option \<Rightarrow> PedGeometry option" where
  "align_logical_no_geom devs d part con =
     set_solution (node d part) (try_constraint devs (node d part) con
       (log_meta_overlap_constraint d part (geom_of d part)))"

definition align_no_geom ::
    "dev_table \<Rightarrow> DosDisk \<Rightarrow> addr \<Rightarrow> PedConstraint option \<Rightarrow> PedGeometry option" where
  "align_no_geom devs d part con =
     (if type_of d part = PED_PARTITION_LOGICAL then align_logical_no_geom devs d part con
      else align_primary_no_geom devs d part con)"

text \<open>
  When a partition of the Windows Dynamic Disk would change, the code also sets its region back to
  the one read from the disk before it fails; the callers of \<open>disk.c\<close> drop a partition that was
  not aligned or give it its old region, so that the error is all that is kept here.
\<close>

definition msdos_partition_align ::
    "first_sector \<Rightarrow> dev_table \<Rightarrow> DosDisk \<Rightarrow> addr \<Rightarrow> PedConstraint option \<Rightarrow> PedGeometry result" where
  "msdos_partition_align fsec devs d part con =
     (let data = dos_data (node d part)
      in case (if dos_system data = PARTITION_LDM then dos_orig data else None) of
           Some orig \<Rightarrow>
             if ped_geometry_test_equal (geom_of d part) (orig_geom orig)
                \<and> ped_constraint_is_solution (the con) (geom_of d part)
             then Inr (geom_of d part)
             else Inl (Some (error_cancel ''Parted can't resize partitions managed by Windows Dynamic Disk.'' []))
         | None \<Rightarrow>
             (case (if cylinder_alignment (d_specific d)
                    then align_cylinders devs d part (partition_probe_bios_geometry devs fsec d part) con else None) of
                Some g \<Rightarrow> Inr g
              | None \<Rightarrow>
             (case align_no_geom devs d part con of
                Some g \<Rightarrow> Inr g
              | None \<Rightarrow> Inl (Some (error_cancel ''Unable to satisfy all constraints on the partition.'' [])))))"

section \<open>Numbering\<close>

definition next_primary :: "DosDisk \<Rightarrow> int" where
  "next_primary d =
     (case find (\<lambda>i. ped_disk_get_partition d i = None) [1, 2, 3, 4] of Some i \<Rightarrow> i | None \<Rightarrow> - 1)"

definition MAX_TOTAL_PART :: int where
  "MAX_TOTAL_PART = 64"

definition next_logical :: "DosDisk \<Rightarrow> int" where
  "next_logical d =
     (case find (\<lambda>i. ped_disk_get_partition d i = None) [5 .. MAX_TOTAL_PART] of Some i \<Rightarrow> i | None \<Rightarrow> - 1)"

definition msdos_partition_enumerate :: "DosDisk \<Rightarrow> addr \<Rightarrow> bool \<times> int" where
  "msdos_partition_enumerate d part =
     (if p_num (node d part) \<noteq> - 1 \<and> p_num (node d part) \<le> 4 then (True, p_num (node d part))
      else
        let d1 = upd_node part (\<lambda>p. p\<lparr>p_num := - 1\<rparr>) d;
            n = (if has_bit (type_of d1 part) PED_PARTITION_LOGICAL then next_logical d1 else next_primary d1)
        in (n \<noteq> - 1, n))"

definition msdos_partition_check :: "DosPart \<Rightarrow> unit result" where
  "msdos_partition_check part = ptt_partition_max_start_len ''msdos'' (p_geom part)"

definition msdos_get_max_primary_partition_count :: "DosDisk \<Rightarrow> int" where
  "msdos_get_max_primary_partition_count d = 4"

definition msdos_get_max_supported_partition_count :: "DosDisk \<Rightarrow> int" where
  "msdos_get_max_supported_partition_count d = MAX_TOTAL_PART"

section \<open>Operations that do not add partitions\<close>

definition msdos_base_ops :: "first_sector \<Rightarrow> (DosPartitionData option, DosDiskData) PedPartOps" where
  "msdos_base_ops fsec = \<lparr>t_name = ''msdos'',
     t_features = PED_DISK_TYPE_EXTENDED + PED_DISK_TYPE_PARTITION_TYPE_ID,
     op_partition_new = msdos_partition_new,
     op_partition_duplicate = (\<lambda>_ _. Inl None),
     op_partition_set_system = msdos_partition_set_system,
     op_partition_align = msdos_partition_align fsec,
     op_partition_enumerate = msdos_partition_enumerate,
     op_partition_check = msdos_partition_check,
     op_get_max_primary_partition_count = msdos_get_max_primary_partition_count,
     op_partition_is_flag_available = msdos_partition_is_flag_available,
     op_partition_set_flag = msdos_partition_set_flag,
     op_partition_get_flag = msdos_partition_get_flag\<rparr>"

text \<open>\<open>msdos_partition_duplicate\<close> calls \<open>ped_partition_new\<close>, which does not use the missing entry.\<close>

definition msdos_partition_duplicate :: "first_sector \<Rightarrow> DosDisk \<Rightarrow> DosPart \<Rightarrow> DosPart result" where
  "msdos_partition_duplicate fsec d part =
     (case ped_partition_new (msdos_base_ops fsec) d (p_type part) (p_fs part)
             (g_start (p_geom part)) (g_end (p_geom part)) of
        Inl e \<Rightarrow> Inl e
      | Inr new_part \<Rightarrow>
          let old = dos_data part
          in Inr (upd_dos (\<lambda>x. x\<lparr>dos_system := dos_system old, dos_boot := dos_boot old, dos_orig := dos_orig old\<rparr>)
                    (new_part\<lparr>p_num := p_num part\<rparr>)))"

definition msdos_part_ops :: "first_sector \<Rightarrow> (DosPartitionData option, DosDiskData) PedPartOps" where
  "msdos_part_ops fsec = (msdos_base_ops fsec)\<lparr>op_partition_duplicate := msdos_partition_duplicate fsec\<rparr>"

section \<open>Metadata\<close>

definition add_dos_metadata_part ::
    "first_sector \<Rightarrow> dev_table \<Rightarrow> PedExceptionHandler \<Rightarrow> nat \<Rightarrow> PedSector \<Rightarrow> PedSector \<Rightarrow> DosDisk \<Rightarrow> bool \<times> DosDisk" where
  "add_dos_metadata_part fsec devs ask ty start endd d =
     (case ped_partition_new (msdos_part_ops fsec) d (ty OR PED_PARTITION_METADATA) None start endd of
        Inl _ \<Rightarrow> (False, d)
      | Inr p \<Rightarrow>
          let (d1, new_part) = alloc_node d p
          in case add_nested (msdos_part_ops fsec) devs ask new_part None d1 of
               (Inl _, d2) \<Rightarrow> (False, ped_partition_destroy new_part d2)
             | (Inr _, d2) \<Rightarrow> (True, d2))"

definition add_logical_part_metadata ::
    "first_sector \<Rightarrow> dev_table \<Rightarrow> PedExceptionHandler \<Rightarrow> addr \<Rightarrow> DosDisk \<Rightarrow> bool \<times> DosDisk" where
  "add_logical_part_metadata fsec devs ask log_part d =
     (let ext_part = the (ped_disk_extended_partition d);
          bios = partition_probe_bios_geometry devs fsec d ext_part;
          cyl_size = sectors bios * heads bios;
          metadata_end = g_start (geom_of d log_part) - 1;
          metadata_start = max (ped_round_down_to metadata_end cyl_size)
            (case part_prev d log_part of
               Some prev \<Rightarrow> g_end (geom_of d prev) + 1 | None \<Rightarrow> g_start (geom_of d ext_part) + 1);
          metadata_length = metadata_end - metadata_start + 1
      in if p_num (node d log_part) = 5 \<and> metadata_length < sectors bios then (True, d)
         else add_dos_metadata_part fsec devs ask PED_PARTITION_LOGICAL metadata_start metadata_end d)"

text \<open>The partitions that are not free space or metadata, as the code tests it.\<close>

definition nonfree_parts :: "DosDisk \<Rightarrow> addr list" where
  "nonfree_parts d = filter (\<lambda>a. type_of d a = PED_PARTITION_NORMAL \<or> type_of d a = PED_PARTITION_EXTENDED) (part_list d)"

definition get_start_first_nonfree_part :: "DosDisk \<Rightarrow> PedSector option" where
  "get_start_first_nonfree_part d =
     (case nonfree_parts d of [] \<Rightarrow> None | walk # _ \<Rightarrow> Some (g_start (geom_of d walk)))"

definition get_end_last_nonfree_part :: "DosDisk \<Rightarrow> PedSector option" where
  "get_end_last_nonfree_part d =
     (if nonfree_parts d = [] then None else Some (g_end (geom_of d (last (nonfree_parts d)))))"

definition add_startend_metadata ::
    "first_sector \<Rightarrow> dev_table \<Rightarrow> PedExceptionHandler \<Rightarrow> DosDisk \<Rightarrow> bool \<times> DosDisk" where
  "add_startend_metadata fsec devs ask d =
     (let dev = devs (d_dev d); len = dev_length dev;
          cyl_size = sectors (bios_geom dev) * heads (bios_geom dev);
          init_end = (case get_start_first_nonfree_part d of
                        None \<Rightarrow> sectors (bios_geom dev) - 1
                      | Some s \<Rightarrow> min (sectors (bios_geom dev) - 1) (s - 1));
          final_start = (if \<not> cylinder_alignment (d_specific d) then len - 1
                         else case get_end_last_nonfree_part d of
                           None \<Rightarrow> ped_round_down_to len cyl_size
                         | Some e \<Rightarrow> max (e + 1) (ped_round_down_to len cyl_size));
          final_end = len - 1
      in case (if 0 < init_end \<and> init_end \<le> len
               then add_dos_metadata_part fsec devs ask PED_PARTITION_NORMAL 0 init_end d else (True, d)) of
           (False, d1) \<Rightarrow> (False, d1)
         | (True, d1) \<Rightarrow>
             (if final_start < final_end \<and> init_end < final_start \<and> final_end \<le> len
              then add_dos_metadata_part fsec devs ask PED_PARTITION_NORMAL final_start final_end d1 else (True, d1)))"

text \<open>
  The loop over the numbers of the logical partitions stops at the first number that is not
  used; numbers above the last partition are not (\<open>get_partition_bound\<close>), and metadata has none.
\<close>

fun logical_metadata ::
    "(addr \<Rightarrow> DosDisk \<Rightarrow> bool \<times> DosDisk) \<Rightarrow> int list \<Rightarrow> DosDisk \<Rightarrow> bool \<times> DosDisk" where
  "logical_metadata f [] d = (True, d)"
| "logical_metadata f (i # is) d =
     (case ped_disk_get_partition d i of
        None \<Rightarrow> (True, d)
      | Some log_part \<Rightarrow> (case f log_part d of (False, d1) \<Rightarrow> (False, d1) | (True, d1) \<Rightarrow> logical_metadata f is d1))"

definition extended_metadata ::
    "first_sector \<Rightarrow> dev_table \<Rightarrow> PedExceptionHandler \<Rightarrow> addr \<Rightarrow> DosDisk \<Rightarrow> bool \<times> DosDisk" where
  "extended_metadata fsec devs ask ext_part d =
     (let bios = partition_probe_bios_geometry devs fsec d ext_part;
          start = g_start (geom_of d ext_part);
          end0 = start + sectors bios - 1;
          endd = (case p_list (node d ext_part) of [] \<Rightarrow> end0 | w # _ \<Rightarrow> min end0 (g_start (geom_of d w) - 1))
      in add_dos_metadata_part fsec devs ask PED_PARTITION_LOGICAL start endd d)"

definition msdos_alloc_metadata ::
    "first_sector \<Rightarrow> dev_table \<Rightarrow> PedExceptionHandler \<Rightarrow> DosDisk \<Rightarrow> bool \<times> DosDisk" where
  "msdos_alloc_metadata fsec devs ask d =
     (case add_startend_metadata fsec devs ask d of
        (False, d1) \<Rightarrow> (False, d1)
      | (True, d1) \<Rightarrow>
     (case ped_disk_extended_partition d1 of
        None \<Rightarrow> (True, d1)
      | Some ext_part \<Rightarrow>
     (case logical_metadata (add_logical_part_metadata fsec devs ask) [5 .. ped_disk_get_last_partition_num d1] d1 of
        (False, d2) \<Rightarrow> (False, d2)
      | (True, d2) \<Rightarrow> extended_metadata fsec devs ask ext_part d2)))"

definition msdos_disk_ops :: "first_sector \<Rightarrow> (DosPartitionData option, DosDiskData) PedDiskOps" where
  "msdos_disk_ops fsec =
     (let T = msdos_part_ops fsec in
      \<lparr>t_name = t_name T, t_features = t_features T,
       op_partition_new = op_partition_new T,
       op_partition_duplicate = op_partition_duplicate T,
       op_partition_set_system = op_partition_set_system T,
       op_partition_align = op_partition_align T,
       op_partition_enumerate = op_partition_enumerate T,
       op_partition_check = op_partition_check T,
       op_get_max_primary_partition_count = op_get_max_primary_partition_count T,
       op_partition_is_flag_available = op_partition_is_flag_available T,
       op_partition_set_flag = op_partition_set_flag T,
       op_partition_get_flag = op_partition_get_flag T,
       op_alloc_metadata = msdos_alloc_metadata fsec\<rparr>)"

definition msdos_duplicate ::
    "first_sector \<Rightarrow> dev_table \<Rightarrow> PedExceptionHandler \<Rightarrow> DosDisk \<Rightarrow> DosDisk option" where
  "msdos_duplicate fsec devs ask d =
     (case ped_disk_new_fresh (msdos_disk_ops fsec) devs ask msdos_alloc (d_dev d) of
        None \<Rightarrow> None
      | Some new_disk \<Rightarrow> Some (new_disk\<lparr>d_specific := d_specific d\<rparr>))"

section \<open>The operations table\<close>

lemma msdos_part_ops_simps [simp]:
  "t_features (msdos_part_ops f) = 5" "op_partition_new (msdos_part_ops f) = msdos_partition_new"
  "op_partition_set_system (msdos_part_ops f) = msdos_partition_set_system"
  by (simp_all add: msdos_part_ops_def msdos_base_ops_def)

lemma msdos_disk_ops_simps [simp]:
  "t_features (msdos_disk_ops f) = 5" "op_partition_new (msdos_disk_ops f) = msdos_partition_new"
  "op_partition_align (msdos_disk_ops f) = msdos_partition_align f"
  "op_partition_set_system (msdos_disk_ops f) = msdos_partition_set_system"
  "op_alloc_metadata (msdos_disk_ops f) = msdos_alloc_metadata f"
  "op_partition_enumerate (msdos_disk_ops f) = msdos_partition_enumerate"
  "op_partition_check (msdos_disk_ops f) = msdos_partition_check"
  "op_get_max_primary_partition_count (msdos_disk_ops f) = msdos_get_max_primary_partition_count"
  by (simp_all add: msdos_disk_ops_def msdos_part_ops_def msdos_base_ops_def Let_def)

lemma msdos_placeholder:
  assumes "s \<le> e" "ty \<noteq> PED_PARTITION_EXTENDED" "\<not> is_active ty" "has_bit (t_features T) PED_DISK_TYPE_EXTENDED"
    "op_partition_new T = msdos_partition_new"
  shows "ped_partition_new T d ty None s e =
     Inr \<lparr>p_geom = \<lparr>g_dev = d_dev d, g_start = s, g_length = e - s + 1, g_end = e\<rparr>, p_num = - 1,
       p_type = ty, p_fs = None, p_list = [], p_specific = None\<rparr>"
  using assms by (simp add: ped_partition_new_def ped_disk_type_check_feature_def msdos_partition_new_def
      ped_partition_alloc_def geom_simps uninit_geometry_def ped_partition_is_active_def is_active_def)

section \<open>Soundness of alignment\<close>

text \<open>A region of the device that fulfils a constraint; every step of the search keeps this.\<close>

definition solution_for :: "DosDisk \<Rightarrow> PedConstraint \<Rightarrow> PedGeometry option \<Rightarrow> bool" where
  "solution_for d c r \<longleftrightarrow> (\<forall>g. r = Some g \<longrightarrow>
     ped_constraint_is_solution c g \<and> geom_wf g \<and> g_dev g = d_dev d \<and> 1 \<le> g_start g)"

lemma try_sound:
  assumes c: "usable d c" and dev: "g_dev (p_geom p) = d_dev d"
    and i: "\<And>i. internal = Some i \<Longrightarrow> usable d i"
    and st: "\<And>i g. internal = Some i \<Longrightarrow> ped_constraint_is_solution c g \<Longrightarrow> ped_constraint_is_solution i g \<Longrightarrow> 1 \<le> g_start g"
  shows "solution_for d c (try_constraint devs p (Some c) internal)"
  unfolding solution_for_def
proof (intro allI impI)
  fix g assume "try_constraint devs p (Some c) internal = Some g"
  then obtain i n where n: "internal = Some i" "ped_constraint_intersect (Some c) (Some i) = Some n"
    "ped_constraint_solve_nearest devs (Some n) (p_geom p) = Some g"
    by (cases internal) (auto simp: try_constraint_def ped_constraint_intersect_def split: option.splits)
  have u: "constraint_wf c" "constraint_small c" "constraint_wf i" "constraint_small i" "constraint_dev c = constraint_dev i"
    using c i[OF n(1)] by (simp_all add: usable_def)
  have iw: "constraint_wf n"
    and sols: "\<And>g. ped_constraint_is_solution n g \<longleftrightarrow> ped_constraint_is_solution c g \<and> ped_constraint_is_solution i g"
    using constraint_intersect_spec[OF u] n(2) by auto
  note s = solve_nearest_solution[OF iw n(3)]
  show "ped_constraint_is_solution c g \<and> geom_wf g \<and> g_dev g = d_dev d \<and> 1 \<le> g_start g"
    using s(1-3) sols st[OF n(1)] dev by simp
qed

lemma solution_for_None [simp]: "solution_for d c None"
  by (simp add: solution_for_def)

lemma best_sound:
  "solution_for d c a \<Longrightarrow> solution_for d c b \<Longrightarrow> solution_for d c (best_solution p bios a b)"
  by (auto simp: best_solution_def Let_def split: option.splits)

lemma set_solution_sound:
  assumes "solution_for d c s" "g_dev (p_geom p) = d_dev d"
  shows "solution_for d c (set_solution p s)"
proof (cases s)
  case (Some g)
  then have "geom_wf g" "g_dev g = d_dev d" using assms(1) by (simp_all add: solution_for_def)
  then have "set_solution p s = s"
    using Some assms(2) by (cases g; cases "p_geom p") (auto simp: set_solution_def unless_failed_def geom_simps)
  then show ?thesis using assms(1) by simp
qed (simp add: set_solution_def)

lemma own_bios_ok: "own_bios_geometry devs fsec d p = Some bios \<Longrightarrow> chs_geometry bios"
  by (auto simp: own_bios_geometry_def probe_partition_for_geom_def probe_filesystem_for_geom_def Let_def chs_geometry_def
      split: if_splits option.splits prod.splits)

lemma probed_bios_ok:
  "chs_geometry (bios_geom (devs (d_dev d))) \<Longrightarrow> chs_geometry (partition_probe_bios_geometry devs fsec d part)"
  by (auto simp: partition_probe_bios_geometry_def dest: own_bios_ok split: option.splits)

lemma cylinder_bounds:
  assumes "chs_geometry bios"
  shows "1 \<le> sectors bios" "1 \<le> sectors bios * heads bios" "sectors bios * heads bios < 2 ^ 31"
proof -
  have b: "1 \<le> heads bios" "heads bios \<le> 255" "1 \<le> sectors bios" "sectors bios \<le> 63"
    using assms by (simp_all add: chs_geometry_def)
  show "1 \<le> sectors bios" by (rule b(3))
  show "1 \<le> sectors bios * heads bios" using mult_mono[of 1 "sectors bios" 1 "heads bios"] b by simp
  show "sectors bios * heads bios < 2 ^ 31" using mult_mono[of "sectors bios" 63 "heads bios" 255] b by simp
qed

lemma primary_constraint_usable:
  assumes b: "chs_geometry bios" and i: "primary_constraint devs d bios None = Some i"
  shows "usable d i" "ped_constraint_is_solution i g \<Longrightarrow> 1 \<le> g_start g"
proof -
  note k = cylinder_bounds[OF b]
  note u = constraint_of_usable[OF i[unfolded primary_constraint_def Let_def option.case]]
  show "usable d i" using u(1) k by simp
  show "ped_constraint_is_solution i g \<Longrightarrow> 1 \<le> g_start g" using u(2) k by (fastforce split: if_splits)
qed

lemma primary_start_constraint_usable:
  assumes b: "chs_geometry bios" and i: "primary_start_constraint devs d p bios None = Some i"
  shows "usable d i" "ped_constraint_is_solution i g \<Longrightarrow> 1 \<le> g_start g"
proof -
  note k = cylinder_bounds[OF b]
  note u = constraint_of_usable[OF i[unfolded primary_start_constraint_def Let_def option.case]]
  show "usable d i" using u(1) k by simp
  show "ped_constraint_is_solution i g \<Longrightarrow> 1 \<le> g_start g" using u(2) k by (fastforce split: if_splits)
qed

lemma logical_constraint_usable:
  assumes b: "chs_geometry bios" and e: "0 \<le> g_start (geom_of d (the (ped_disk_extended_partition d)))"
    and i: "logical_constraint devs d bios start first = Some i"
  shows "usable d i"
proof -
  note k = cylinder_bounds[OF b]
  let ?e = "geom_of d (the (ped_disk_extended_partition d))"
  have r: "0 \<le> ped_round_up_to (g_start ?e + 1) (sectors bios * heads bios)"
    using round_up_bounds(1)[of "sectors bios * heads bios" "g_start ?e + 1"] k e by simp
  show ?thesis
  proof (cases first)
    case True
    show ?thesis
      using constraint_of_usable(1)[of _ start "sectors bios * heads bios" _ "- 1" "sectors bios * heads bios" _ d
          "g_start ?e" "g_length ?e" _ "g_start ?e" "g_length ?e"] i k e True
      by (simp add: logical_constraint_def Let_def)
  next
    case False
    show ?thesis
      using constraint_of_usable(1)[of _ start "sectors bios * heads bios" _ "- 1" "sectors bios * heads bios" _ d
          "ped_round_up_to (g_start ?e + 1) (sectors bios * heads bios)" _ _
          "ped_round_up_to (g_start ?e + 1) (sectors bios * heads bios)"] i k r False
      by (simp add: logical_constraint_def Let_def split: if_splits)
  qed
qed

lemma region_usable:
  assumes i: "ped_constraint_new_from_max (geometry_init_local (d_dev d) s len) = Some i" and s: "0 \<le> s" "0 < len"
  shows "usable d i" "ped_constraint_is_solution i g \<Longrightarrow> s \<le> g_start g"
proof -
  let ?m = "\<lparr>g_dev = d_dev d, g_start = s, g_length = len, g_end = s + len - 1\<rparr>"
  have m: "geom_wf ?m" "geometry_init_local (d_dev d) s len = ?m" using s by (simp_all add: geom_wf_def)
  obtain c where c: "ped_constraint_new_from_max ?m = Some c" "constraint_wf c" "constraint_dev c = d_dev d"
    using constraint_new_from_max_spec[OF m(1)] by auto
  have ci: "c = i" using c(1) i m(2) by simp
  note small = new_from_max_small[OF c(1)]
  show "usable d i" using c ci small(3) by (simp add: usable_def)
  have "start_range i = Some ?m" using c(1) ci m(1)
    by (auto simp: ped_constraint_new_from_max_def ped_constraint_new_def ped_constraint_init_def)
  then show "ped_constraint_is_solution i g \<Longrightarrow> s \<le> g_start g"
    by (auto simp: ped_constraint_is_solution_def ped_geometry_test_sector_inside_def split: if_splits)
qed

lemma log_meta_scan_ge:
  assumes "m \<le> min_start" "\<And>w. w \<in> set ws \<Longrightarrow> w \<noteq> part \<Longrightarrow> m \<le> g_end (geom_of d w) + 1 + n5"
  shows "m \<le> fst (log_meta_scan d part start n5 min_start ws)"
  using assms by (induction ws arbitrary: min_start) auto

definition log_meta_end :: "DosDisk \<Rightarrow> addr \<Rightarrow> addr \<Rightarrow> addr list \<Rightarrow> PedSector" where
  "log_meta_end d part e walk =
     (case dropWhile (\<lambda>w. w = part \<or> \<not> ped_partition_is_active (node d w)) walk of
        [] \<Rightarrow> g_end (geom_of d e) | w # _ \<Rightarrow> g_start (geom_of d w) - 1 - ebr_gap (node d w))"

lemma log_meta_region:
  assumes "log_meta_scan d part (g_start geom) (ebr_gap (node d part))
      (g_start (geom_of d (the (ped_disk_extended_partition d))) + 1 + ebr_gap (node d part))
      (p_list (node d (the (ped_disk_extended_partition d)))) = (s, rest)"
    and "log_meta_overlap_constraint d part geom = Some i"
  defines "x \<equiv> log_meta_end d part (the (ped_disk_extended_partition d)) rest"
  shows "s < x \<and> ped_constraint_new_from_max (geometry_init_local (d_dev d) s (x - s + 1)) = Some i"
  using assms(2)
  unfolding log_meta_overlap_constraint_def Let_def assms(1) prod.case log_meta_end_def[symmetric] x_def[symmetric]
  by (auto split: if_splits)

lemma log_meta_usable:
  assumes e: "0 \<le> g_start (geom_of d (the (ped_disk_extended_partition d)))"
    and ws: "\<And>w. w \<in> set (p_list (node d (the (ped_disk_extended_partition d)))) \<Longrightarrow> w \<noteq> part \<Longrightarrow> 0 \<le> g_end (geom_of d w)"
    and i: "log_meta_overlap_constraint d part geom = Some i"
  shows "usable d i" "ped_constraint_is_solution i g \<Longrightarrow> 1 \<le> g_start g"
proof -
  let ?e = "the (ped_disk_extended_partition d)" and ?n = "ebr_gap (node d part)"
  have n: "0 \<le> ?n" by (simp add: ebr_gap_def)
  obtain s rest where sc: "log_meta_scan d part (g_start geom) ?n (g_start (geom_of d ?e) + 1 + ?n) (p_list (node d ?e)) = (s, rest)"
    by fastforce
  have s: "1 \<le> s"
    using log_meta_scan_ge[of 1 "g_start (geom_of d ?e) + 1 + ?n" "p_list (node d ?e)" part d ?n "g_start geom"] e n ws sc
    by fastforce
  note x = log_meta_region[OF sc i, THEN conjunct1] log_meta_region[OF sc i, THEN conjunct2]
  let ?x = "log_meta_end d part (the (ped_disk_extended_partition d)) rest"
  have p: "0 \<le> s" "0 < ?x - s + 1" using s x(1) by simp_all
  show "usable d i" by (rule region_usable(1)[OF x(2) p])
  show "ped_constraint_is_solution i g \<Longrightarrow> 1 \<le> g_start g" using region_usable(2)[OF x(2) p] s by fastforce
qed

text \<open>A region intersected with a constraint from the right, as \<open>restrict_constraint\<close> from the left.\<close>

lemma intersect_no_align_right:
  assumes b: "align_small b"
  shows "\<exists>c. ped_alignment_intersect (Some b) (Some no_align) = Some c \<and> align_small c"
proof -
  note sp = alignment_intersect_spec[OF b no_align_props(2)]
  show ?thesis
  proof (cases "ped_alignment_intersect (Some b) (Some no_align)")
    case None
    then show ?thesis using sp aligned_self(1)[of b] no_align_props(3) by auto
  next
    case (Some c)
    then have c: "align_wf c" "\<And>s. aligned c s \<longleftrightarrow> aligned b s" using sp no_align_props(3) by simp_all
    have "grain_size c = grain_size b" using aligned_eq_grain[OF c(1) align_small_wf[OF b] c(2)] .
    then show ?thesis using Some c b by (simp add: align_small_def)
  qed
qed

lemma restrict_usable:
  assumes c: "usable d c" and m: "ped_constraint_new_from_max m = Some a" "usable d a"
    and i: "ped_constraint_intersect (Some c) (Some a) = Some n"
  shows "usable d n" "ped_constraint_is_solution n g \<longleftrightarrow> ped_constraint_is_solution c g \<and> ped_constraint_is_solution a g"
proof -
  have u: "constraint_wf c" "constraint_small c" "constraint_wf a" "constraint_small a" "constraint_dev c = constraint_dev a"
    "constraint_dev c = d_dev d"
    using c m(2) by (simp_all add: usable_def)
  note sp = constraint_intersect_spec[OF u(1-5)]
  show "ped_constraint_is_solution n g \<longleftrightarrow> ped_constraint_is_solution c g \<and> ped_constraint_is_solution a g"
    using sp i by simp
  have n: "constraint_wf n" "constraint_dev n = d_dev d" using sp i u(6) by simp_all
  obtain sa ea sr er where cc: "start_align c = Some sa" "end_align c = Some ea" using u(1) by (rule constraint_wfE)
  have sm: "align_small sa" "align_small ea" using u(2) cc by (simp_all add: constraint_small_def)
  obtain s1 where s1: "ped_alignment_intersect (Some sa) (Some no_align) = Some s1" "align_small s1"
    using intersect_no_align_right[OF sm(1)] by blast
  obtain e1 where e1: "ped_alignment_intersect (Some ea) (Some no_align) = Some e1" "align_small e1"
    using intersect_no_align_right[OF sm(2)] by blast
  obtain s2 e2 where d2: "ped_alignment_duplicate (Some s1) = Some s2" "align_small s2"
    "ped_alignment_duplicate (Some e1) = Some e2" "align_small e2" using duplicate_small s1(2) e1(2) by meson
  have "start_align n = Some s2 \<and> end_align n = Some e2"
    using i new_from_max_small(1,2)[OF m(1)] cc s1(1) e1(1) d2(1,3)
    by (auto simp: ped_constraint_intersect_def ped_constraint_new_def ped_constraint_init_def Let_def split: option.splits)
  then show "usable d n" using n d2(2,4) by (simp add: usable_def constraint_small_def)
qed

lemma solution_weaken:
  "solution_for d n r \<Longrightarrow> (\<And>g. ped_constraint_is_solution n g \<Longrightarrow> ped_constraint_is_solution c g) \<Longrightarrow> solution_for d c r"
  by (auto simp: solution_for_def)

text \<open>What the alignment of a partition relies on: see \<open>neighbours_ok\<close>.\<close>

lemma extended_ok:
  assumes n: "neighbours_ok d part" and ty: "type_of d part = PED_PARTITION_LOGICAL"
  shows "0 \<le> g_start (geom_of d (the (ped_disk_extended_partition d)))"
    "\<And>w. w \<in> set (p_list (node d (the (ped_disk_extended_partition d)))) \<Longrightarrow> w \<noteq> part \<Longrightarrow> 0 \<le> g_end (geom_of d w)"
proof -
  have hl: "has_list d True" and ge: "\<And>k. geoms_ok d (filter (\<lambda>a. a \<noteq> part) (lists d k))"
    using n ty by (simp_all add: neighbours_ok_def has_bit_def)
  obtain e where e: "ped_disk_extended_partition d = Some e" using hl by (auto simp: has_list_def)
  note m = ext_Some_mem[OF e]
  have "e \<noteq> part" using m ty by auto
  then show "0 \<le> g_start (geom_of d (the (ped_disk_extended_partition d)))"
    using ge[of False] m e by (auto simp: geoms_ok_def geom_wf_def)
  fix w assume "w \<in> set (p_list (node d (the (ped_disk_extended_partition d))))" "w \<noteq> part"
  then have "geom_wf (geom_of d w)" using ge[of True] e by (auto simp: geoms_ok_def lists_def)
  then show "0 \<le> g_end (geom_of d w)" by (simp add: geom_wf_def)
qed

lemma align_primary_sound:
  assumes b: "chs_geometry bios" and c: "usable d c" and ty: "type_of d part \<noteq> PED_PARTITION_EXTENDED"
    and dev: "g_dev (geom_of d part) = d_dev d"
  shows "solution_for d c (align_primary devs d part bios (Some c))"
  using assms unfolding align_primary_def Let_def if_not_P[OF ty]
  by (intro set_solution_sound best_sound try_sound)
    (auto dest: primary_start_constraint_usable primary_constraint_usable)

lemma align_logical_sound:
  assumes b: "chs_geometry bios" and c: "usable d c" and n: "neighbours_ok d part"
    and ty: "type_of d part = PED_PARTITION_LOGICAL" and dev: "g_dev (geom_of d part) = d_dev d"
  shows "solution_for d c (align_logical devs d part bios (Some c)) \<and>
    (\<forall>m. log_meta_overlap_constraint d part (geom_of d part) = Some m \<longrightarrow>
      solution_for d m (align_logical devs d part bios (Some c)))"
proof (cases "ped_constraint_intersect (Some c) (log_meta_overlap_constraint d part (geom_of d part))")
  case None
  then have "align_logical devs d part bios (Some c) = None" by (simp add: align_logical_def Let_def)
  then show ?thesis by simp
next
  case (Some i)
  note e = extended_ok[OF n ty]
  obtain m where m: "log_meta_overlap_constraint d part (geom_of d part) = Some m"
    using Some by (cases "log_meta_overlap_constraint d part (geom_of d part)") (auto simp: ped_constraint_intersect_def)
  note lm = log_meta_usable[OF e m]
  obtain r where "ped_constraint_new_from_max r = Some m"
    using m by (auto simp: log_meta_overlap_constraint_def Let_def split: prod.splits if_splits)
  note i = restrict_usable[OF c this lm(1) Some[unfolded m]]
  let ?f = "\<lambda>head solution. best_solution (node d part) bios solution (try_constraint devs (node d part) (Some i)
      (logical_constraint devs d bios (ped_round_down_to (g_start (geom_of d part)) (sectors bios * heads bios) + head * sectors bios)
        (head \<ge> logical_min_start_head (node d part) bios (geom_of d (the (ped_disk_extended_partition d))) True)))"
  have "solution_for d i (?f h s)" if "solution_for d i s" for h s
    using that i lm(2) logical_constraint_usable[OF b e(1)] dev by (intro best_sound try_sound) auto
  then have "solution_for d i (fold ?f hs None)" for hs
    by (rule fold_keeps) simp_all
  then have "solution_for d i (align_logical devs d part bios (Some c))"
    using Some dev by (simp add: align_logical_def Let_def set_solution_sound)
  then show ?thesis using m by (auto simp: i(2) elim: solution_weaken)
qed

lemma try_internal:
  assumes "usable d c" "usable d i" "g_dev (p_geom p) = d_dev d" "try_constraint devs p (Some c) (Some i) = Some g"
  shows "ped_constraint_is_solution i g"
proof -
  obtain n where n: "ped_constraint_intersect (Some c) (Some i) = Some n" "ped_constraint_solve_nearest devs (Some n) (p_geom p) = Some g"
    using assms(4) by (auto simp: try_constraint_def split: option.splits)
  have u: "constraint_wf c" "constraint_small c" "constraint_wf i" "constraint_small i" "constraint_dev c = constraint_dev i"
    using assms(1,2) by (simp_all add: usable_def)
  show ?thesis using constraint_intersect_spec[OF u] n(1) solve_nearest_solution[OF _ n(2)] by auto
qed

lemma align_no_geom_sound:
  assumes len: "2 \<le> dev_length (devs (d_dev d))" and c: "usable d c" and n: "neighbours_ok d part"
    and ty: "plain_type (type_of d part)" and dev: "g_dev (geom_of d part) = d_dev d"
  shows "solution_for d c (align_no_geom devs d part (Some c))"
proof (cases "type_of d part = PED_PARTITION_LOGICAL")
  case True
  note lm = log_meta_usable[OF extended_ok[OF n True]]
  show ?thesis
    unfolding align_no_geom_def align_logical_no_geom_def if_P[OF True]
    using lm c dev by (intro set_solution_sound try_sound) auto
next
  case False
  have ty': "type_of d part \<noteq> PED_PARTITION_EXTENDED" using ty by (auto simp: plain_type_def)
  show ?thesis
    unfolding align_no_geom_def align_primary_no_geom_def if_not_P[OF False] if_not_P[OF ty'] no_geom_constraint_def
    using region_usable[of d 1 "dev_length (devs (d_dev d)) - 1 - 1 + 1"] c dev len
    by (intro set_solution_sound try_sound) auto
qed

section \<open>The label contract\<close>

text \<open>
  What an msdos table relies on: a geometry of the device that fits the packed form, and two
  sectors. Its partitions have one of the three types that the label makes.
\<close>

definition msdos_inv :: "dev_table \<Rightarrow> DosDisk \<Rightarrow> bool" where
  "msdos_inv devs d \<longleftrightarrow> chs_geometry (bios_geom (devs (d_dev d))) \<and> 2 \<le> dev_length (devs (d_dev d))"

definition msdos_allowed :: "dev_table \<Rightarrow> DosDisk \<Rightarrow> nat \<Rightarrow> PedGeometry \<Rightarrow> bool" where
  "msdos_allowed devs d ty g \<longleftrightarrow> plain_type ty \<or> ty = PED_PARTITION_EXTENDED"

lemma align_cylinders_sound:
  assumes b: "chs_geometry bios" and c: "usable d c" and n: "neighbours_ok d part"
    and ty: "plain_type (type_of d part)" and dev: "g_dev (geom_of d part) = d_dev d"
  shows "solution_for d c (align_cylinders devs d part bios (Some c))"
  using align_primary_sound[OF b c _ dev] conjunct1[OF align_logical_sound[OF b c n _ dev]] ty
  by (auto simp: align_cylinders_def plain_type_def)

lemma msdos_align_sound:
  assumes al: "msdos_partition_align fsec devs d part con = Inr g" and inv: "msdos_inv devs d"
    and n: "neighbours_ok d part" and ty: "plain_type (type_of d part)" and sp: "span_ok (geom_of d part)"
    and c: "con = Some c" "usable d c" and dev: "g_dev (geom_of d part) = d_dev d"
  shows "ped_constraint_is_solution c g \<and> geom_wf g \<and> g_dev g = d_dev d"
    "dos_system (dos_data (node d part)) \<noteq> PARTITION_LDM \<Longrightarrow> 1 \<le> g_start g"
proof -
  let ?b = "partition_probe_bios_geometry devs fsec d part"
  have b: "chs_geometry ?b" using probed_bios_ok inv by (simp add: msdos_inv_def)
  have s: "solution_for d c (align_cylinders devs d part ?b con)" "solution_for d c (align_no_geom devs d part con)"
    using align_cylinders_sound[OF b c(2) n ty dev] align_no_geom_sound[OF _ c(2) n ty dev] inv c(1)
    by (simp_all add: msdos_inv_def)
  show 1: "ped_constraint_is_solution c g \<and> geom_wf g \<and> g_dev g = d_dev d"
  proof (cases "if dos_system (dos_data (node d part)) = PARTITION_LDM then dos_orig (dos_data (node d part)) else None")
    case None
    then show ?thesis
      using al s by (auto simp: msdos_partition_align_def Let_def solution_for_def split: option.splits if_splits)
  next
    case (Some orig)
    have g: "g = geom_of d part" "ped_constraint_is_solution c g"
      using al c(1) unfolding msdos_partition_align_def Let_def Some option.case by (auto split: if_splits)
    obtain sa ea sr er where r: "start_range c = Some sr" "geom_wf sr" "0 < min_size c"
      using c(2) by (auto simp: usable_def elim: constraint_wfE)
    have "g_start sr \<le> g_start g" "min_size c \<le> g_length g"
      using g(2) r(1) by (auto simp: ped_constraint_is_solution_def ped_geometry_test_sector_inside_def split: if_splits)
    then have "geom_wf g" using r(2,3) sp g(1) by (auto simp: geom_wf_def span_ok_def)
    then show ?thesis using g dev by simp
  qed
  show "1 \<le> g_start g" if "dos_system (dos_data (node d part)) \<noteq> PARTITION_LDM"
    using al s that by (auto simp: msdos_partition_align_def Let_def solution_for_def split: option.splits if_splits)
qed

section \<open>Metadata\<close>

lemma add_dos_metadata_part_step:
  assumes ok: "table_ok devs d" and xs: "lists d k = us @ vs" and s: "strict ask" and st: "0 \<le> start"
    and us: "\<And>x. start \<le> e \<Longrightarrow> (k \<Longrightarrow> in_extended d start e) \<Longrightarrow> x \<in> set us \<Longrightarrow> g_end (geom_of d x) < start"
    and vs: "\<And>x. start \<le> e \<Longrightarrow> (k \<Longrightarrow> in_extended d start e) \<Longrightarrow> x \<in> set vs \<Longrightarrow> e < g_start (geom_of d x)"
    and ty: "ty = (if k then PED_PARTITION_LOGICAL else PED_PARTITION_NORMAL)"
  shows "meta_step devs d k us vs start e (snd (add_dos_metadata_part f devs ask ty start e d))"
proof -
  have m: "ty OR PED_PARTITION_METADATA = meta_type k" using ty by (cases k) (simp_all add: meta_type_def)
  show ?thesis
  proof (cases "start \<le> e")
    case False
    then have "ped_partition_new (msdos_part_ops f) d (meta_type k) None start e = Inl None \<or>
        (\<exists>x. ped_partition_new (msdos_part_ops f) d (meta_type k) None start e = Inl x)"
      by (auto simp: ped_partition_new_def msdos_partition_new_def ped_partition_alloc_def geom_simps split: if_splits)
    then show ?thesis using meta_step_refl[OF ok] by (auto simp: add_dos_metadata_part_def m)
  next
    case True
    define p where "p = \<lparr>p_geom = \<lparr>g_dev = d_dev d, g_start = start, g_length = e - start + 1, g_end = e\<rparr>, p_num = - 1,
       p_type = meta_type k, p_fs = None, p_list = [], p_specific = (None :: DosPartitionData option)\<rparr>"
    have new: "ped_partition_new (msdos_part_ops f) d (meta_type k) None start e = Inr p"
      using msdos_placeholder[OF True, of "meta_type k" "msdos_part_ops f" d] by (simp add: p_def)
    obtain d1 a where al: "alloc_node d p = (d1, a)" by fastforce
    have res: "add_dos_metadata_part f devs ask ty start e d = link_metadata (msdos_part_ops f) devs ask None d1 a"
      by (simp add: add_dos_metadata_part_def m new al link_metadata_def)
    show ?thesis
      unfolding res
      by (rule metadata_step[OF ok xs s _ _ _ st True us[OF True] vs[OF True] al]) (simp_all add: p_def)
  qed
qed

text \<open>The lists of a table in update mode before metadata is added.\<close>

lemma primary_types:
  assumes ok: "table_ok devs d" and allow: "\<forall>k. \<forall>a \<in> set (lists d k). msdos_allowed devs d (type_of d a) (geom_of d a)"
  shows "nonfree_parts d = part_list d"
  unfolding nonfree_parts_def
proof (rule filter_True, rule ballI)
  fix a assume a: "a \<in> set (part_list d)"
  then have "\<not> is_logical (type_of d a)" using linkedD(3)[OF table_okD(1)[OF ok], of a False] by simp
  moreover have "msdos_allowed devs d (type_of d a) (geom_of d a)" using allow[rule_format, of a False] a by simp
  ultimately show "type_of d a = PED_PARTITION_NORMAL \<or> type_of d a = PED_PARTITION_EXTENDED"
    by (auto simp: msdos_allowed_def plain_type_def has_bit_def)
qed

lemma in_order_ends:
  assumes ok: "table_ok devs d" and xs: "lists d k = us @ vs"
  shows "u \<in> set us \<Longrightarrow> g_end (geom_of d u) \<le> g_end (geom_of d (last us))"
    "v \<in> set vs \<Longrightarrow> g_start (geom_of d (hd vs)) \<le> g_start (geom_of d v)"
    "u \<in> set us \<Longrightarrow> v \<in> set vs \<Longrightarrow> g_end (geom_of d u) < g_start (geom_of d v)"
    "x \<in> set (us @ vs) \<Longrightarrow> g_start (geom_of d x) \<le> g_end (geom_of d x) \<and> 0 \<le> g_start (geom_of d x)"
proof -
  have o: "in_order d (us @ vs)" "geoms_ok d (us @ vs)" using table_okD(2,3)[OF ok, of k] xs by simp_all
  have w: "g_start (geom_of d x) \<le> g_end (geom_of d x) \<and> 0 \<le> g_start (geom_of d x)" if "x \<in> set (us @ vs)" for x
    using o(2) that find_before[OF o that] by (auto simp: geoms_ok_def geom_wf_def)
  then show "x \<in> set (us @ vs) \<Longrightarrow> g_start (geom_of d x) \<le> g_end (geom_of d x) \<and> 0 \<le> g_start (geom_of d x)" .
  show "u \<in> set us \<Longrightarrow> v \<in> set vs \<Longrightarrow> g_end (geom_of d u) < g_start (geom_of d v)"
    using o(1) by (auto simp: before_def sorted_wrt_append)
  show "g_end (geom_of d u) \<le> g_end (geom_of d (last us))" if u: "u \<in> set us"
  proof (cases us rule: rev_cases)
    case (snoc zs z)
    then have "g_end (geom_of d u) < g_start (geom_of d z)" if "u \<noteq> z"
      using u o(1) that by (auto simp: before_def sorted_wrt_append)
    then show ?thesis using w[of z] snoc by (cases "u = z") fastforce+
  qed (use u in simp)
  show "g_start (geom_of d (hd vs)) \<le> g_start (geom_of d v)" if v: "v \<in> set vs"
  proof (cases vs)
    case (Cons z zs)
    then have "g_end (geom_of d z) < g_start (geom_of d v)" if "v \<noteq> z"
      using v o(1) that by (auto simp: before_def sorted_wrt_append)
    then show ?thesis using w[of z] Cons by (cases "v = z") fastforce+
  qed (use v in simp)
qed

lemma startend_step:
  assumes ok: "table_ok devs d" and act: "lists d = actives d" and inv: "msdos_inv devs d" and s: "strict ask"
    and allow: "\<forall>k. \<forall>a \<in> set (lists d k). msdos_allowed devs d (type_of d a) (geom_of d a)"
  shows "meta_run devs d (snd (add_startend_metadata f devs ask d))"
proof -
  let ?N = "dev_length (devs (d_dev d))"
  define i where "i = (case get_start_first_nonfree_part d of None \<Rightarrow> sectors (bios_geom (devs (d_dev d))) - 1
      | Some s \<Rightarrow> min (sectors (bios_geom (devs (d_dev d))) - 1) (s - 1))"
  define fs where "fs = (if \<not> cylinder_alignment (d_specific d) then ?N - 1
      else case get_end_last_nonfree_part d of
        None \<Rightarrow> ped_round_down_to ?N (sectors (bios_geom (devs (d_dev d))) * heads (bios_geom (devs (d_dev d))))
      | Some e \<Rightarrow> max (e + 1) (ped_round_down_to ?N (sectors (bios_geom (devs (d_dev d))) * heads (bios_geom (devs (d_dev d))))))"
  define r1 where "r1 = (if 0 < i \<and> i \<le> ?N then add_dos_metadata_part f devs ask PED_PARTITION_NORMAL 0 i d else (True, d))"
  have res: "add_startend_metadata f devs ask d = (case r1 of (False, d1) \<Rightarrow> (False, d1)
       | (True, d1) \<Rightarrow> (if fs < ?N - 1 \<and> i < fs \<and> ?N - 1 \<le> ?N
            then add_dos_metadata_part f devs ask PED_PARTITION_NORMAL fs (?N - 1) d1 else (True, d1)))"
    unfolding add_startend_metadata_def Let_def r1_def i_def fs_def by (rule refl)
  note nf = primary_types[OF ok allow]
  note ends = in_order_ends[OF ok, of False "part_list d" "[]"] in_order_ends(2)[OF ok, of False "[]" "part_list d"]
  have first: "i < g_start (geom_of d x)" if "x \<in> set (part_list d)" for x
  proof -
    have "get_start_first_nonfree_part d = Some (g_start (geom_of d (hd (part_list d))))"
      using that by (cases "part_list d") (auto simp: get_start_first_nonfree_part_def nf)
    then show ?thesis using ends(5)[of x] that by (simp add: i_def)
  qed
  have i: "- 1 \<le> i"
  proof (cases "part_list d")
    case Nil
    then show ?thesis using inv by (simp add: i_def get_start_first_nonfree_part_def nf msdos_inv_def chs_geometry_def)
  next
    case (Cons a as)
    then show ?thesis using inv ends(4)[of a]
      by (simp add: i_def get_start_first_nonfree_part_def nf msdos_inv_def chs_geometry_def)
  qed
  have s1: "meta_step devs d False [] (part_list d) 0 i (snd r1)"
    unfolding r1_def using meta_step_refl[OF ok] add_dos_metadata_part_step[OF ok _ s, of False "[]" "part_list d" 0 i] first
    by simp
  have m1: "meta_run devs d (snd r1)" by (rule meta_run_step[OF meta_run_start[OF ok act] s1]) simp
  obtain b d1 where r: "r1 = (b, d1)" by fastforce
  have ok1: "table_ok devs d1" using m1 r by (simp add: meta_run_def)
  have last: "g_end (geom_of d1 x) < fs" if c: "cylinder_alignment (d_specific d)" "i < fs" and x: "x \<in> set (part_list d1)" for x
  proof (cases "x \<in> set (part_list d)")
    case True
    then have "x < next_addr d" using linked_fresh[OF table_okD(1)[OF ok], of x False] by simp
    then have "geom_of d1 x = geom_of d x" using m1 r core_eqD(1)[of d1 x d] by (simp add: meta_run_def)
    moreover have "get_end_last_nonfree_part d = Some (g_end (geom_of d (last (part_list d))))"
      using True by (auto simp: get_end_last_nonfree_part_def nf)
    ultimately show ?thesis using ends(1)[of x] True c by (simp add: fs_def)
  next
    case False
    then have "g_end (geom_of d1 x) = i" using s1 r x by (auto simp: meta_step_def)
    then show ?thesis using c by simp
  qed
  have "meta_run devs d (snd (add_dos_metadata_part f devs ask PED_PARTITION_NORMAL fs (?N - 1) d1))"
    if g: "fs < ?N - 1" "i < fs"
  proof -
    have c: "cylinder_alignment (d_specific d)"
    proof (rule ccontr)
      assume "\<not> cylinder_alignment (d_specific d)"
      then show False using g by (simp add: fs_def)
    qed
    have fs: "0 \<le> fs" using i g by linarith
    have "meta_step devs d1 False (part_list d1) [] fs (?N - 1)
        (snd (add_dos_metadata_part f devs ask PED_PARTITION_NORMAL fs (?N - 1) d1))"
      by (rule add_dos_metadata_part_step[OF ok1 _ s fs]) (use last[OF c g(2)] in simp_all)
    then show ?thesis by (rule meta_run_step[rotated]) (use m1 r in simp_all)
  qed
  then show ?thesis using m1 r unfolding res by (cases b) simp_all
qed

text \<open>The table of a logical partition: between the partition before it and itself.\<close>

lemma get_partition_mem:
  assumes l: "linked d" and g: "ped_disk_get_partition d n = Some a"
  shows "a \<in> set (lists d (is_logical (type_of d a)))"
  using g walk_mem_lists[OF l, of a] by (auto simp: ped_disk_get_partition_def find_Some_iff)

lemma get_partition_bound:
  assumes "ped_disk_get_last_partition_num d < n"
  shows "ped_disk_get_partition d n = None"
proof -
  let ?F = "\<lambda>walk highest. if p_num (node d walk) > highest then p_num (node d walk) else highest"
  have m: "m \<le> fold ?F xs m" for xs m
    by (induction xs arbitrary: m) (auto intro: order_trans[OF less_imp_le])
  have b: "p_num (node d x) \<le> fold ?F xs m" if "x \<in> set xs" for xs x m
    using that
  proof (induction xs arbitrary: m)
    case (Cons y ys)
    then show ?case using m[of "?F y m" ys] by (cases "x = y") (auto split: if_splits)
  qed simp
  have "p_num (node d x) \<noteq> n" if "x \<in> set (disk_walk d)" for x
    using b[OF that, of "- 1"] assms by (simp add: ped_disk_get_last_partition_num_def)
  then show ?thesis by (auto simp: ped_disk_get_partition_def find_None_iff)
qed

lemma part_prev_split:
  assumes l: "linked d" and xs: "lists d (is_logical (type_of d a)) = us @ a # vs" and h: "has_list d (is_logical (type_of d a))"
  shows "part_prev d a = list_head (rev us)"
proof -
  have "a \<notin> set (rev vs)" using linkedD(1)[OF l, of "is_logical (type_of d a)"] xs by simp
  then show ?thesis using succ_in_append[of a "rev vs" "rev us"] xs list_for_eq[OF h] by (simp add: part_prev_def)
qed

lemma logical_part_step:
  assumes ok: "table_ok devs d" and s: "strict ask" and x: "ped_disk_extended_partition d = Some ext"
    and a: "ped_disk_get_partition d n = Some a"
  shows "\<exists>us vs st e. lists d True = us @ vs \<and>
    meta_step devs d True us vs st e (snd (add_logical_part_metadata f devs ask a d))"
proof -
  let ?k = "is_logical (type_of d a)"
  note l = table_okD(1)[OF ok]
  obtain us vs where sp: "lists d ?k = us @ a # vs" using get_partition_mem[OF l a] by (meson split_list)
  have pv: "part_prev d a = list_head (rev us)"
    by (rule part_prev_split[OF l sp]) (auto simp: has_list_def x)
  define e where "e = g_start (geom_of d a) - 1"
  define st0 where "st0 = (case part_prev d a of Some prev \<Rightarrow> g_end (geom_of d prev) + 1 | None \<Rightarrow> g_start (geom_of d ext) + 1)"
  obtain st where st: "st0 \<le> st" and res: "add_logical_part_metadata f devs ask a d = (True, d) \<or>
      add_logical_part_metadata f devs ask a d = add_dos_metadata_part f devs ask PED_PARTITION_LOGICAL st e d"
  proof -
    define b where "b = partition_probe_bios_geometry devs f d ext"
    show thesis
      by (rule that[of "max (ped_round_down_to e (sectors b * heads b)) st0"])
        (simp_all add: add_logical_part_metadata_def Let_def x e_def st0_def b_def)
  qed
  note o = in_order_ends[OF ok sp]
  have m: "ext \<in> set (part_list d)" using ext_Some_mem[OF x] by simp
  obtain us' vs' where ex: "part_list d = us' @ ext # vs'" using m by (meson split_list)
  have ge: "0 \<le> g_start (geom_of d ext)"
    using in_order_ends(4)[OF ok, of False "us' @ [ext]" vs' ext] ex by simp
  have prev: "g_end (geom_of d u) < st0" if "u \<in> set us" for u
  proof -
    have "part_prev d a = Some (last us)" using that by (auto simp: pv list_head_def hd_rev split: list.split)
    then show ?thesis using o(1)[OF that] by (simp add: st0_def)
  qed
  have "0 \<le> st0"
  proof (cases "us = []")
    case True
    then show ?thesis using pv ge by (simp add: st0_def list_head_def)
  next
    case False
    then show ?thesis using prev[of "hd us"] o(4)[of "hd us"] by simp
  qed
  then have st': "0 \<le> st" using st by simp
  let ?d' = "snd (add_dos_metadata_part f devs ask PED_PARTITION_LOGICAL st e d)"
  have "\<exists>us vs. lists d True = us @ vs \<and> meta_step devs d True us vs st e ?d'"
  proof (cases ?k)
    case True
    then have "lists d True = us @ a # vs" using sp by simp
    then have "meta_step devs d True us (a # vs) st e ?d'"
      using prev st o(2)[of _] by (intro add_dos_metadata_part_step[OF ok _ s st']) (fastforce simp: e_def)+
    then show ?thesis using \<open>lists d True = us @ a # vs\<close> by blast
  next
    case False
    have no: "\<not> in_extended d st e" if "st \<le> e"
    proof (cases "a = ext")
      case True
      then show ?thesis using that by (simp add: in_extended_def x e_def Let_def)
    next
      case neq: False
      then consider "ext \<in> set us" | "ext \<in> set vs" using m sp False by auto
      then show ?thesis
      proof cases
        case 1
        then have "g_end (geom_of d ext) < st" using prev[OF 1] st by simp
        then show ?thesis using that by (simp add: in_extended_def x)
      next
        case 2
        then have "g_start (geom_of d a) \<le> g_start (geom_of d ext)" using o(2)[of ext] by simp
        then show ?thesis using that by (simp add: in_extended_def x e_def)
      qed
    qed
    have "meta_step devs d True [] (lists d True) st e ?d'"
      using no by (intro add_dos_metadata_part_step[OF ok _ s st']) auto
    then show ?thesis by (metis append_Nil)
  qed
  then show ?thesis using res meta_step_refl[OF ok] by (metis append_Nil snd_conv)
qed

lemma logical_metadata_run:
  assumes "meta_run devs d0 d" "ped_disk_extended_partition d = Some ext" "strict ask"
  shows "meta_run devs d0 (snd (logical_metadata (add_logical_part_metadata f devs ask) is d))
    \<and> ped_disk_extended_partition (snd (logical_metadata (add_logical_part_metadata f devs ask) is d)) = Some ext"
  using assms
proof (induction "is" arbitrary: d)
  case (Cons i js)
  show ?case
  proof (cases "ped_disk_get_partition d i")
    case (Some a)
    obtain r d1 where r: "add_logical_part_metadata f devs ask a d = (r, d1)" by fastforce
    have ok: "table_ok devs d" using Cons.prems(1) by (simp add: meta_run_def)
    obtain us vs st e where st: "lists d True = us @ vs" "meta_step devs d True us vs st e d1"
      using logical_part_step[OF ok Cons.prems(3,2) Some, of f] r by auto
    have m: "meta_run devs d0 d1" by (rule meta_run_step[OF Cons.prems(1) st(2,1)])
    have x: "ped_disk_extended_partition d1 = Some ext" using meta_step_ext[OF ok st(2)] Cons.prems(2) by simp
    show ?thesis using Some r m x Cons.IH[OF m x Cons.prems(3)] by (cases r) simp_all
  qed (use Cons.prems in simp)
qed simp

lemma extended_step:
  assumes ok: "table_ok devs d" and s: "strict ask" and x: "ped_disk_extended_partition d = Some ext"
  shows "meta_run devs d0 d \<Longrightarrow> meta_run devs d0 (snd (extended_metadata f devs ask ext d))"
proof -
  assume r: "meta_run devs d0 d"
  define st where "st = g_start (geom_of d ext)"
  obtain e where e: "\<And>w ws. p_list (node d ext) = w # ws \<Longrightarrow> e < g_start (geom_of d w)"
    and res: "extended_metadata f devs ask ext d = add_dos_metadata_part f devs ask PED_PARTITION_LOGICAL st e d"
  proof -
    define b where "b = partition_probe_bios_geometry devs f d ext"
    let ?e = "case p_list (node d ext) of [] \<Rightarrow> st + sectors b - 1 | w # _ \<Rightarrow> min (st + sectors b - 1) (g_start (geom_of d w) - 1)"
    show thesis
      by (rule that[of ?e]) (simp, unfold extended_metadata_def Let_def st_def b_def, rule refl)
  qed
  have m: "ext \<in> set (part_list d)" using ext_Some_mem[OF x] by simp
  have li: "lists d True = p_list (node d ext)" using x by (simp add: lists_def)
  have "0 \<le> st" using in_order_ends(4)[OF ok, of False "part_list d" "[]" ext] m by (simp add: st_def)
  moreover have "e < g_start (geom_of d w)" if w: "w \<in> set (lists d True)" for w
  proof -
    obtain v vs where v: "lists d True = v # vs" using w by (cases "lists d True") auto
    then have "e < g_start (geom_of d v)" using e li by metis
    moreover have "g_start (geom_of d v) \<le> g_start (geom_of d w)"
      using in_order_ends(2)[OF ok, of True "[]" "v # vs" w] v that by simp
    ultimately show ?thesis by simp
  qed
  ultimately have "meta_step devs d True [] (lists d True) st e (snd (add_dos_metadata_part f devs ask PED_PARTITION_LOGICAL st e d))"
    by (intro add_dos_metadata_part_step[OF ok _ s]) simp_all
  then show ?thesis unfolding res by (rule meta_run_step[OF r]) simp
qed

lemma msdos_metadata_contract:
  assumes ok: "table_ok devs d" and act: "lists d = actives d" and inv: "msdos_inv devs d" and s: "strict ask"
    and allow: "\<forall>k. \<forall>a \<in> set (lists d k). msdos_allowed devs d (type_of d a) (geom_of d a)"
  shows "meta_run devs d (snd (msdos_alloc_metadata f devs ask d))"
proof -
  obtain r1 d1 where a1: "add_startend_metadata f devs ask d = (r1, d1)" by fastforce
  have m1: "meta_run devs d d1" using startend_step[OF ok act inv s allow, of f] a1 by simp
  show ?thesis
  proof (cases "r1 \<and> ped_disk_extended_partition d1 \<noteq> None")
    case False
    then show ?thesis using m1 a1 by (auto simp: msdos_alloc_metadata_def split: bool.split)
  next
    case True
    then obtain ext where x: "ped_disk_extended_partition d1 = Some ext" by blast
    obtain r2 d2 where a2: "logical_metadata (add_logical_part_metadata f devs ask) [5 .. ped_disk_get_last_partition_num d1] d1 = (r2, d2)"
      by fastforce
    have m2: "meta_run devs d d2" "ped_disk_extended_partition d2 = Some ext"
      using logical_metadata_run[OF m1 x s, of f "[5 .. ped_disk_get_last_partition_num d1]"] a2 by simp_all
    have "meta_run devs d (snd (extended_metadata f devs ask ext d2))"
      using extended_step[OF _ s m2(2) m2(1)] m2(1) by (simp add: meta_run_def)
    then show ?thesis using True x a1 a2 m2 by (cases r2) (simp_all add: msdos_alloc_metadata_def)
  qed
qed

lemma msdos_new_span: "ped_partition_new (msdos_disk_ops f) d ty fs s e = Inr p \<Longrightarrow> span_ok (p_geom p)"
  by (auto simp: ped_partition_new_def msdos_partition_new_def ped_partition_alloc_def msdos_partition_set_system_def Let_def upd_dos_def
      dest!: geometry_init_span split: if_splits sum.splits option.splits)

interpretation msdos: disk_label "msdos_disk_ops f" msdos_inv msdos_allowed for f
proof (unfold_locales)
  fix s e :: PedSector and ty and d :: DosDisk
  assume "s \<le> e" "ty = PED_PARTITION_FREESPACE \<or> ty = PED_PARTITION_FREESPACE + PED_PARTITION_LOGICAL"
  then show "\<exists>p. ped_partition_new (msdos_disk_ops f) d ty None s e = Inr p \<and>
        p_geom p = \<lparr>g_dev = d_dev d, g_start = s, g_length = e - s + 1, g_end = e\<rparr> \<and>
        p_type p = ty \<and> p_list p = []"
    using msdos_placeholder[of s e ty "msdos_disk_ops f" d] by (auto simp: is_active_def has_bit_def)
next
  show "same_disk d d' \<Longrightarrow> msdos_inv devs d \<Longrightarrow> msdos_inv devs d'" for devs and d d' :: DosDisk
    by (simp add: msdos_inv_def same_disk_def)
  show "same_disk d d' \<Longrightarrow> msdos_allowed devs d ty g \<Longrightarrow> msdos_allowed devs d' ty g" for devs and d d' :: DosDisk and ty g
    by (simp add: msdos_allowed_def)
next
  fix devs part con g c and d :: DosDisk
  assume "op_partition_align (msdos_disk_ops f) devs d part con = Inr g" "msdos_inv devs d"
    "neighbours_ok d part" "plain_type (type_of d part)" "span_ok (geom_of d part)" "con = Some c"
    "constraint_wf c" "constraint_small c" "constraint_dev c = d_dev d" "g_dev (geom_of d part) = d_dev d"
  then show "ped_constraint_is_solution c g \<and> geom_wf g \<and> g_dev g = d_dev d \<and> msdos_allowed devs d (type_of d part) g"
    using msdos_align_sound(1)[of f devs d part con g c] by (simp add: usable_def msdos_allowed_def)
next
  fix devs ask r and d d' :: DosDisk
  assume a: "table_ok devs d" "update_mode d = 1" "lists d = actives d" "msdos_inv devs d"
    "\<forall>k. \<forall>a \<in> set (lists d k). msdos_allowed devs d (type_of d a) (geom_of d a)" "strict ask"
    and "op_alloc_metadata (msdos_disk_ops f) devs ask d = (r, d')"
  then have "d' = snd (msdos_alloc_metadata f devs ask d)" by simp
  then show "table_ok devs d' \<and> actives d' = actives d \<and> nonfree d' = lists d' \<and>
      (\<forall>a < next_addr d. core d' a = core d a) \<and> same_disk d d' \<and> update_mode d' = update_mode d
      \<and> next_addr d \<le> next_addr d'"
    using msdos_metadata_contract[OF a(1,3,4,6,5), of f] by (simp add: meta_run_def del: lists_False)
qed

end
