(* ===== verification/Gpt.thy ===== *)
theory Gpt
  imports Disk_Meta Gpt_Guid Pt_Limit Label_Align
begin

text \<open>
  The label type \<open>gpt\<close> (\<open>libparted/labels/gpt.c\<close>), its operations on the table object: new
  tables and partitions, alignment inside the usable area, numbering, and the two metadata
  partitions that cover the headers and the entry arrays. The theory interprets the label
  contract \<open>disk_label\<close>, so that the theorems about \<open>disk.c\<close> hold for GPT tables.

  \<open>fresh_uuid\<close> is what a \<open>uuid\<close> field holds after \<open>uuid_generate\<close>; it may depend on the
  state of the table. (The function of \<open>lib/uuid/uuid_gen.c\<close> copies the random bytes over its
  own pointer argument, so that the field keeps its indeterminate contents.)
\<close>

record GPTDiskData =
  data_area :: PedGeometry
  entry_count :: int
  disk_uuid :: efi_guid_t
  pmbr_boot :: int
  AlternateLBA :: PedSector

type_synonym GptDisk = "(GPTPartitionData option, GPTDiskData) PedDisk"

section \<open>Operations\<close>

abbreviation (input) GPT_DEFAULT_PARTITION_ENTRY_ARRAY_SIZE :: int
  where "GPT_DEFAULT_PARTITION_ENTRY_ARRAY_SIZE \<equiv> 16384"
abbreviation (input) sizeof_GuidPartitionEntry_t :: int where "sizeof_GuidPartitionEntry_t \<equiv> 128"
abbreviation (input) sizeof_GuidPartitionTableHeader_t :: int where "sizeof_GuidPartitionTableHeader_t \<equiv> 100"
abbreviation (input) GPT_DEFAULT_PARTITION_ENTRIES :: int where "GPT_DEFAULT_PARTITION_ENTRIES \<equiv> 128"

definition gpt_alloc :: "efi_guid_t \<Rightarrow> dev_table \<Rightarrow> dev_ref \<Rightarrow> GptDisk option" where
  "gpt_alloc uuid devs dev =
     (let ss = sector_size (devs dev);
          N = dev_length (devs dev);
          data_start = 2 + GPT_DEFAULT_PARTITION_ENTRY_ARRAY_SIZE sdiv ss;
          data_end = N - 2 - GPT_DEFAULT_PARTITION_ENTRY_ARRAY_SIZE sdiv ss
      in if data_end < data_start then None
         else Some (ped_disk_alloc dev
           \<lparr>data_area = geometry_init_local dev data_start (data_end - data_start + 1),
            entry_count = GPT_DEFAULT_PARTITION_ENTRIES,
            disk_uuid = swap_uuid_and_efi_guid uuid, pmbr_boot = 0, AlternateLBA = N - 1\<rparr>))"

definition gpt_partition_new ::
    "(GptDisk \<Rightarrow> efi_guid_t) \<Rightarrow> GptDisk \<Rightarrow> nat \<Rightarrow> string option \<Rightarrow> PedSector \<Rightarrow> PedSector \<Rightarrow> GptPart result" where
  "gpt_partition_new fresh_uuid d part_type fs_type start endd =
     (case ped_partition_alloc d part_type fs_type start endd None of
        Inl e \<Rightarrow> Inl e
      | Inr part \<Rightarrow>
          if part_type \<noteq> 0 then Inr part
          else Inr (part\<lparr>p_specific := Some
            \<lparr>gp_type = PARTITION_LINUX_DATA_GUID, gp_uuid = swap_uuid_and_efi_guid (fresh_uuid d),
             gp_name = replicate 37 0, translated_name = None,
             attributes = \<lparr>RequiredToFunction = False, NoBlockIOProtocol = False,
               LegacyBIOSBootable = False, AttrReserved = 0, GuidSpecific = 0, NoAutomount = False\<rparr>\<rparr>\<rparr>))"

definition gpt_partition_duplicate :: "GptDisk \<Rightarrow> GptPart \<Rightarrow> GptPart result" where
  "gpt_partition_duplicate d part =
     (case ped_partition_alloc d (p_type part) (p_fs part) (g_start (p_geom part)) (g_end (p_geom part)) None of
        Inl e \<Rightarrow> Inl e
      | Inr result \<Rightarrow>
          let result = result\<lparr>p_num := p_num part\<rparr>
          in if p_type result \<noteq> 0 then Inr result else Inr (result\<lparr>p_specific := p_specific part\<rparr>))"

definition gpt_partition_enumerate :: "GptDisk \<Rightarrow> addr \<Rightarrow> bool \<times> int" where
  "gpt_partition_enumerate d part =
     (if p_num (node d part) \<noteq> - 1 then (True, p_num (node d part))
      else case find (\<lambda>i. ped_disk_get_partition d i = None) [1 .. entry_count (d_specific d)] of
        Some i \<Rightarrow> (True, i)
      | None \<Rightarrow> (False, p_num (node d part)))"

definition gpt_get_max_primary_partition_count :: "GptDisk \<Rightarrow> int" where
  "gpt_get_max_primary_partition_count d = entry_count (d_specific d)"

definition non_metadata_constraint :: "GptDisk \<Rightarrow> PedConstraint option" where
  "non_metadata_constraint d = ped_constraint_new_from_max (data_area (d_specific d))"

definition gpt_partition_align ::
    "dev_table \<Rightarrow> GptDisk \<Rightarrow> addr \<Rightarrow> PedConstraint option \<Rightarrow> PedGeometry result" where
  "gpt_partition_align devs d part con =
     (case ped_partition_attempt_align devs (node d part) con (non_metadata_constraint d) of
        Some g \<Rightarrow> Inr g
      | None \<Rightarrow> Inl (Some (error_cancel ''Unable to satisfy all constraints on the partition.'' [])))"

definition gpt_partition_check :: "GptPart \<Rightarrow> unit result" where
  "gpt_partition_check part = ptt_partition_max_start_len ''gpt'' (p_geom part)"

text \<open>The operations that do not call back into adding partitions.\<close>

definition gpt_part_ops :: "(GptDisk \<Rightarrow> efi_guid_t) \<Rightarrow> (GPTPartitionData option, GPTDiskData) PedPartOps" where
  "gpt_part_ops fresh_uuid = \<lparr>t_name = ''gpt'',
     t_features = PED_DISK_TYPE_PARTITION_NAME + PED_DISK_TYPE_PARTITION_TYPE_UUID
       + PED_DISK_TYPE_DISK_UUID + PED_DISK_TYPE_PARTITION_UUID,
     op_partition_new = gpt_partition_new fresh_uuid,
     op_partition_duplicate = gpt_partition_duplicate,
     op_partition_set_system = gpt_partition_set_system,
     op_partition_align = gpt_partition_align,
     op_partition_enumerate = gpt_partition_enumerate,
     op_partition_check = gpt_partition_check,
     op_get_max_primary_partition_count = gpt_get_max_primary_partition_count,
     op_partition_is_flag_available = gpt_partition_is_flag_available,
     op_partition_set_flag = (\<lambda>d part flag state. case gpt_partition_set_flag (node d part) flag state of
        Inl _ \<Rightarrow> (False, d) | Inr p \<Rightarrow> (True, upd_node part (\<lambda>_. p) d)),
     op_partition_get_flag = gpt_partition_get_flag\<rparr>"

definition add_metadata_part ::
    "(GptDisk \<Rightarrow> efi_guid_t) \<Rightarrow> dev_table \<Rightarrow> PedExceptionHandler \<Rightarrow> PedSector \<Rightarrow> PedSector \<Rightarrow>
     GptDisk \<Rightarrow> bool \<times> GptDisk" where
  "add_metadata_part fresh_uuid devs ask start len d =
     (case ped_partition_new (gpt_part_ops fresh_uuid) d PED_PARTITION_METADATA None start (start + len - 1) of
        Inl _ \<Rightarrow> (False, d)
      | Inr p \<Rightarrow>
          let (d1, part) = alloc_node d p
          in case add_nested (gpt_part_ops fresh_uuid) devs ask part
                    (ped_constraint_exact devs (geom_of d1 part)) d1 of
               (Inl _, d2) \<Rightarrow> (False, ped_partition_destroy part d2)
             | (Inr _, d2) \<Rightarrow> (True, d2))"

definition gptlength :: "dev_table \<Rightarrow> GptDisk \<Rightarrow> PedSector" where
  "gptlength devs d = ped_div_round_up sizeof_GuidPartitionTableHeader_t (sector_size (devs (d_dev d)))"

definition pteslength :: "dev_table \<Rightarrow> GptDisk \<Rightarrow> PedSector" where
  "pteslength devs d = ped_div_round_up (entry_count (d_specific d) * sizeof_GuidPartitionEntry_t)
     (sector_size (devs (d_dev d)))"

definition gpt_alloc_metadata ::
    "(GptDisk \<Rightarrow> efi_guid_t) \<Rightarrow> dev_table \<Rightarrow> PedExceptionHandler \<Rightarrow> GptDisk \<Rightarrow> bool \<times> GptDisk" where
  "gpt_alloc_metadata fresh_uuid devs ask d =
     (case add_metadata_part fresh_uuid devs ask 0 (1 + gptlength devs d + pteslength devs d) d of
        (False, d1) \<Rightarrow> (False, d1)
      | (True, d1) \<Rightarrow>
          add_metadata_part fresh_uuid devs ask
            (dev_length (devs (d_dev d1)) - gptlength devs d1 - pteslength devs d1)
            (gptlength devs d1 + pteslength devs d1) d1)"

definition gpt_disk_ops :: "(GptDisk \<Rightarrow> efi_guid_t) \<Rightarrow> (GPTPartitionData option, GPTDiskData) PedDiskOps" where
  "gpt_disk_ops fresh_uuid =
     (let T = gpt_part_ops fresh_uuid in
      \<lparr>t_name = t_name T, t_features = t_features T,
       op_partition_new = op_partition_new T,
       op_partition_duplicate = op_partition_duplicate T,
       op_partition_set_system = op_partition_set_system T,
       op_partition_align = op_partition_align T,
       op_partition_enumerate = op_partition_enumerate T,
       op_partition_check = op_partition_check T,
       op_get_max_primary_partition_count = op_get_max_primary_partition_count T,
       op_partition_is_flag_available = op_partition_is_flag_available T,
       op_partition_set_flag = op_partition_set_flag T,
       op_partition_get_flag = op_partition_get_flag T,
       op_alloc_metadata = gpt_alloc_metadata fresh_uuid\<rparr>)"

definition gpt_duplicate ::
    "(GptDisk \<Rightarrow> efi_guid_t) \<Rightarrow> efi_guid_t \<Rightarrow> dev_table \<Rightarrow> PedExceptionHandler \<Rightarrow> GptDisk \<Rightarrow> GptDisk option" where
  "gpt_duplicate fresh_uuid uuid devs ask d =
     (case ped_disk_new_fresh (gpt_disk_ops fresh_uuid) devs ask (gpt_alloc uuid devs) (d_dev d) of
        None \<Rightarrow> None
      | Some new_disk \<Rightarrow>
          let old = d_specific d
          in Some (new_disk\<lparr>d_specific := (d_specific new_disk)
               \<lparr>data_area := geometry_init_local (d_dev d) (g_start (data_area old)) (g_length (data_area old)),
                entry_count := entry_count old, disk_uuid := disk_uuid old, pmbr_boot := pmbr_boot old\<rparr>\<rparr>))"

text \<open>Flags and identifier of the table; \<open>PED_DISK_GPT_PMBR_BOOT\<close> is 2.\<close>

definition gpt_disk_is_flag_available :: "GptDisk \<Rightarrow> int \<Rightarrow> bool" where
  "gpt_disk_is_flag_available d flag \<longleftrightarrow> flag = 2"

definition gpt_disk_set_flag :: "int \<Rightarrow> int \<Rightarrow> GptDisk \<Rightarrow> bool \<times> GptDisk" where
  "gpt_disk_set_flag flag state d =
     (if flag = 2 then (True, d\<lparr>d_specific := (d_specific d)\<lparr>pmbr_boot := state\<rparr>\<rparr>) else (False, d))"

definition gpt_disk_get_flag :: "GptDisk \<Rightarrow> int \<Rightarrow> int" where
  "gpt_disk_get_flag d flag = (if flag = 2 then pmbr_boot (d_specific d) else 0)"

definition gpt_disk_get_uuid :: "GptDisk \<Rightarrow> byte list" where
  "gpt_disk_get_uuid d = guid_bytes (swap_uuid_and_efi_guid (disk_uuid (d_specific d)))"

section \<open>The operations table\<close>

lemma gpt_part_ops_simps [simp]:
  "t_features (gpt_part_ops u) = 58" "op_partition_new (gpt_part_ops u) = gpt_partition_new u"
  "op_partition_align (gpt_part_ops u) = gpt_partition_align"
  "op_partition_set_system (gpt_part_ops u) = gpt_partition_set_system"
  by (simp_all add: gpt_part_ops_def)

lemma gpt_disk_ops_simps [simp]:
  "t_features (gpt_disk_ops u) = 58" "op_partition_new (gpt_disk_ops u) = gpt_partition_new u"
  "op_partition_align (gpt_disk_ops u) = gpt_partition_align"
  "op_partition_set_system (gpt_disk_ops u) = gpt_partition_set_system"
  "op_alloc_metadata (gpt_disk_ops u) = gpt_alloc_metadata u"
  "op_get_max_primary_partition_count (gpt_disk_ops u) = gpt_get_max_primary_partition_count"
  "op_partition_enumerate (gpt_disk_ops u) = gpt_partition_enumerate"
  "op_partition_check (gpt_disk_ops u) = gpt_partition_check"
  "op_partition_duplicate (gpt_disk_ops u) = gpt_partition_duplicate"
  by (simp_all add: gpt_disk_ops_def gpt_part_ops_def Let_def)

section \<open>Metadata partitions\<close>

lemma gpt_partition_new_eq:
  "s \<le> e \<Longrightarrow> ty \<noteq> 0 \<Longrightarrow> gpt_partition_new u d ty None s e =
     Inr \<lparr>p_geom = \<lparr>g_dev = d_dev d, g_start = s, g_length = e - s + 1, g_end = e\<rparr>, p_num = - 1,
       p_type = ty, p_fs = None, p_list = [], p_specific = None\<rparr>"
  by (simp add: gpt_partition_new_def ped_partition_alloc_def geom_simps uninit_geometry_def)

lemma gpt_placeholder_eq:
  assumes "s \<le> e" "ty = PED_PARTITION_FREESPACE \<or> ty = PED_PARTITION_FREESPACE + PED_PARTITION_LOGICAL
      \<or> ty = PED_PARTITION_METADATA"
  shows "ped_partition_new (gpt_part_ops u) d ty None s e = gpt_partition_new u d ty None s e"
    "ped_partition_new (gpt_disk_ops u) d ty None s e = gpt_partition_new u d ty None s e"
  using assms gpt_partition_new_eq[of s e ty u d] by (auto simp: ped_partition_new_def)

lemma add_metadata_part_step:
  assumes ok: "table_ok devs d" and xs: "part_list d = us @ vs" and s: "strict ask"
    and e: "e = start + len - 1" "0 \<le> start" "1 \<le> len"
    and us: "\<And>x. x \<in> set us \<Longrightarrow> g_end (geom_of d x) < start"
    and vs: "\<And>x. x \<in> set vs \<Longrightarrow> e < g_start (geom_of d x)"
  shows "meta_step devs d False us vs start e (snd (add_metadata_part u devs ask start len d))"
proof -
  define p where "p = \<lparr>p_geom = \<lparr>g_dev = d_dev d, g_start = start, g_length = e - start + 1, g_end = e\<rparr>, p_num = - 1,
       p_type = PED_PARTITION_METADATA, p_fs = None, p_list = [], p_specific = (None :: GPTPartitionData option)\<rparr>"
  obtain d1 a where al: "alloc_node d p = (d1, a)" by fastforce
  have new: "ped_partition_new (gpt_part_ops u) d PED_PARTITION_METADATA None start (start + len - 1) = Inr p"
    using gpt_placeholder_eq(1)[of start e PED_PARTITION_METADATA u d]
      gpt_partition_new_eq[of start e PED_PARTITION_METADATA u d] e by (simp add: p_def)
  have res: "add_metadata_part u devs ask start len d =
      link_metadata (gpt_part_ops u) devs ask (ped_constraint_exact devs (geom_of d1 a)) d1 a"
    by (simp add: add_metadata_part_def new al link_metadata_def)
  show ?thesis
    unfolding res
    by (rule metadata_step[OF ok _ s _ _ _ e(2) _ us vs al, where k = False]) (use xs e in \<open>simp_all add: p_def meta_type_cases\<close>)
qed

section \<open>The label contract\<close>

text \<open>
  What a GPT table keeps: its usable area lies on the device, behind the protective MBR, the
  header and the entry array, and before their copies.
\<close>

definition gpt_inv :: "dev_table \<Rightarrow> GptDisk \<Rightarrow> bool" where
  "gpt_inv devs d \<longleftrightarrow>
     (let a = data_area (d_specific d); gl = gptlength devs d; pl = pteslength devs d in
      geom_wf a \<and> g_dev a = d_dev d \<and> 1 \<le> gl \<and> 0 \<le> pl \<and> 1 + gl + pl \<le> g_start a
      \<and> g_end a < dev_length (devs (d_dev d)) - gl - pl)"

definition gpt_allowed :: "dev_table \<Rightarrow> GptDisk \<Rightarrow> nat \<Rightarrow> PedGeometry \<Rightarrow> bool" where
  "gpt_allowed devs d ty g \<longleftrightarrow> ped_geometry_test_inside (data_area (d_specific d)) g"

lemma gpt_same:
  assumes "same_disk d d'"
  shows "gpt_inv devs d' = gpt_inv devs d" "gpt_allowed devs d' ty g = gpt_allowed devs d ty g"
    "gptlength devs d' = gptlength devs d" "pteslength devs d' = pteslength devs d"
  using assms by (simp_all add: same_disk_def gpt_inv_def gpt_allowed_def gptlength_def pteslength_def)

lemma gpt_align_sound:
  assumes al: "gpt_partition_align devs d p con = Inr g" and inv: "gpt_inv devs d"
    and c: "con = Some c" "constraint_wf c" "constraint_small c" "constraint_dev c = d_dev d"
    and dev: "g_dev (geom_of d p) = d_dev d"
  shows "ped_constraint_is_solution c g \<and> geom_wf g \<and> g_dev g = d_dev d \<and> gpt_allowed devs d (type_of d p) g"
proof -
  let ?m = "data_area (d_specific d)"
  have m: "geom_wf ?m" "g_dev ?m = d_dev d" using inv by (simp_all add: gpt_inv_def Let_def)
  obtain b where b: "ped_constraint_new_from_max ?m = Some b" "constraint_wf b" "constraint_dev b = d_dev d"
    "\<And>g. geom_wf g \<Longrightarrow> g_dev g = d_dev d \<Longrightarrow> ped_constraint_is_solution b g \<longleftrightarrow> ped_geometry_test_inside ?m g"
    using constraint_new_from_max_spec[OF m(1)] m(2) by auto
  have u: "usable d b" using b(2,3) new_from_max_small(3)[OF b(1)] by (simp add: usable_def)
  have "ped_partition_attempt_align devs (node d p) (Some c) (Some b) = Some g"
    using al c(1) b(1) by (auto simp: gpt_partition_align_def non_metadata_constraint_def split: option.splits)
  from attempt_align_sound[OF this _ _ dev] u c
  show ?thesis using b(4)[of g] by (auto simp: usable_def gpt_allowed_def)
qed

lemma gpt_metadata_contract:
  assumes ok: "table_ok devs d" and act: "lists d = actives d"
    and inv: "gpt_inv devs d" and allow: "\<forall>k. \<forall>a \<in> set (lists d k). gpt_allowed devs d (type_of d a) (geom_of d a)"
    and s: "strict ask" and al: "gpt_alloc_metadata u devs ask d = (r, d')"
  shows "meta_run devs d d'"
proof -
  let ?gl = "gptlength devs d" and ?pl = "pteslength devs d" and ?N = "dev_length (devs (d_dev d))"
  let ?A = "data_area (d_specific d)"
  have inv': "1 \<le> ?gl" "0 \<le> ?pl" "1 + ?gl + ?pl \<le> g_start ?A" "g_end ?A < ?N - ?gl - ?pl" "geom_wf ?A"
    using inv by (simp_all add: gpt_inv_def Let_def)
  have N: "?gl + ?pl < ?N" using inv' by (simp add: geom_wf_def)
  have inA: "g_start ?A \<le> g_start (geom_of d x) \<and> g_end (geom_of d x) \<le> g_end ?A" if "x \<in> set (part_list d)" for x
    using allow[rule_format, of x False] that by (auto simp: gpt_allowed_def ped_geometry_test_inside_def split: if_splits)
  have old: "x < next_addr d" if "x \<in> set (part_list d)" for x
    using linked_fresh[OF table_okD(1)[OF ok], of x False] that by simp
  obtain r1 d1 where a1: "add_metadata_part u devs ask 0 (1 + ?gl + ?pl) d = (r1, d1)" by fastforce
  have s1: "meta_step devs d False [] (part_list d) 0 (?gl + ?pl) d1"
    using add_metadata_part_step[OF ok _ s, of "[]" "part_list d" "?gl + ?pl" 0 "1 + ?gl + ?pl" u] inA
      inv' a1 by fastforce
  have r1': "meta_run devs d d1" by (rule meta_run_step[OF meta_run_start[OF ok act] s1]) simp
  show ?thesis
  proof (cases r1)
    case False
    then have "d' = d1" using al a1 by (simp add: gpt_alloc_metadata_def)
    then show ?thesis using r1' by simp
  next
    case True
    let ?s = "?N - ?gl - ?pl"
    have t1: "same_disk d d1" "table_ok devs d1" using r1' by (simp_all add: meta_run_def)
    then have dd: "d_dev d1 = d_dev d" by (simp add: same_disk_def)
    have d': "d' = snd (add_metadata_part u devs ask ?s (?gl + ?pl) d1)"
      using al a1 True gpt_same(3,4)[OF t1(1)] dd by (simp add: gpt_alloc_metadata_def)
    have "g_end (geom_of d1 x) < ?s" if x: "x \<in> set (part_list d1)" for x
    proof (cases "x \<in> set (part_list d)")
      case True
      then have "core d1 x = core d x" using s1 old by (simp add: meta_step_def)
      then show ?thesis using core_eqD(1)[of d1 x d] inA[OF True] inv' by simp
    next
      case False
      then have "g_end (geom_of d1 x) = ?gl + ?pl" using s1 x by (auto simp: meta_step_def)
      then show ?thesis using inv' by (simp add: geom_wf_def)
    qed
    then have "meta_step devs d1 False (part_list d1) [] ?s (?N - 1) d'"
      unfolding d' using add_metadata_part_step[OF t1(2) _ s, of "part_list d1" "[]" "?N - 1" ?s "?gl + ?pl" u]
        inv' N by fastforce
    then show ?thesis by (rule meta_run_step[OF r1']) simp
  qed
qed

lemma gpt_new_span: "ped_partition_new (gpt_disk_ops u) d ty fs s e = Inr p \<Longrightarrow> span_ok (p_geom p)"
  by (auto simp: ped_partition_new_def gpt_partition_new_def ped_partition_alloc_def gpt_partition_set_system_def Let_def upd_data_def
      dest!: geometry_init_span split: if_splits sum.splits option.splits)

interpretation gpt: disk_label "gpt_disk_ops u" gpt_inv gpt_allowed for u
proof (unfold_locales)
  fix s e :: PedSector and ty and d :: GptDisk
  assume "s \<le> e" "ty = PED_PARTITION_FREESPACE \<or> ty = PED_PARTITION_FREESPACE + PED_PARTITION_LOGICAL"
  then show "\<exists>p. ped_partition_new (gpt_disk_ops u) d ty None s e = Inr p \<and>
        p_geom p = \<lparr>g_dev = d_dev d, g_start = s, g_length = e - s + 1, g_end = e\<rparr> \<and>
        p_type p = ty \<and> p_list p = []"
    using gpt_placeholder_eq(2)[of s e ty u d] gpt_partition_new_eq[of s e ty u d] by auto
next
  show "same_disk d d' \<Longrightarrow> gpt_inv devs d \<Longrightarrow> gpt_inv devs d'" for devs and d d' :: GptDisk
    by (simp add: gpt_same)
  show "same_disk d d' \<Longrightarrow> gpt_allowed devs d ty g \<Longrightarrow> gpt_allowed devs d' ty g" for devs and d d' :: GptDisk and ty g
    by (simp add: gpt_same)
next
  fix devs p con g c and d :: GptDisk
  assume "op_partition_align (gpt_disk_ops u) devs d p con = Inr g" "gpt_inv devs d" "con = Some c"
    "constraint_wf c" "constraint_small c" "constraint_dev c = d_dev d" "g_dev (geom_of d p) = d_dev d"
  then show "ped_constraint_is_solution c g \<and> geom_wf g \<and> g_dev g = d_dev d \<and> gpt_allowed devs d (type_of d p) g"
    using gpt_align_sound by simp
next
  fix devs ask r and d d' :: GptDisk
  assume "table_ok devs d" "update_mode d = 1" "lists d = actives d" "gpt_inv devs d"
    "\<forall>k. \<forall>a \<in> set (lists d k). gpt_allowed devs d (type_of d a) (geom_of d a)" "strict ask"
    and "op_alloc_metadata (gpt_disk_ops u) devs ask d = (r, d')"
  then show "table_ok devs d' \<and> actives d' = actives d \<and> nonfree d' = lists d' \<and>
      (\<forall>a < next_addr d. core d' a = core d a) \<and> same_disk d d' \<and> update_mode d' = update_mode d
      \<and> next_addr d \<le> next_addr d'"
    using gpt_metadata_contract[of devs d ask u r d'] by (simp add: meta_run_def del: lists_False)
qed

end
