(* ===== verification/Crc32.thy ===== *)
theory Crc32
  imports Bytes
begin

text \<open>
  The checksum of the GPT structures: \<open>labels/efi_crc32.c\<close> with its table of 256 words, and
  the function \<open>efi_crc32\<close> of \<open>labels/gpt.c\<close> that calls it. The reference is the division
  of the message by the CRC polynomial, one bit at a time; the table is proved to hold the
  remainders of the 256 bytes.
\<close>

section \<open>The code\<close>

definition crc32_tab :: "32 word list" where
  "crc32_tab = [
    0x00000000, 0x77073096, 0xee0e612c, 0x990951ba, 0x076dc419, 0x706af48f,
    0xe963a535, 0x9e6495a3, 0x0edb8832, 0x79dcb8a4, 0xe0d5e91e, 0x97d2d988,
    0x09b64c2b, 0x7eb17cbd, 0xe7b82d07, 0x90bf1d91, 0x1db71064, 0x6ab020f2,
    0xf3b97148, 0x84be41de, 0x1adad47d, 0x6ddde4eb, 0xf4d4b551, 0x83d385c7,
    0x136c9856, 0x646ba8c0, 0xfd62f97a, 0x8a65c9ec, 0x14015c4f, 0x63066cd9,
    0xfa0f3d63, 0x8d080df5, 0x3b6e20c8, 0x4c69105e, 0xd56041e4, 0xa2677172,
    0x3c03e4d1, 0x4b04d447, 0xd20d85fd, 0xa50ab56b, 0x35b5a8fa, 0x42b2986c,
    0xdbbbc9d6, 0xacbcf940, 0x32d86ce3, 0x45df5c75, 0xdcd60dcf, 0xabd13d59,
    0x26d930ac, 0x51de003a, 0xc8d75180, 0xbfd06116, 0x21b4f4b5, 0x56b3c423,
    0xcfba9599, 0xb8bda50f, 0x2802b89e, 0x5f058808, 0xc60cd9b2, 0xb10be924,
    0x2f6f7c87, 0x58684c11, 0xc1611dab, 0xb6662d3d, 0x76dc4190, 0x01db7106,
    0x98d220bc, 0xefd5102a, 0x71b18589, 0x06b6b51f, 0x9fbfe4a5, 0xe8b8d433,
    0x7807c9a2, 0x0f00f934, 0x9609a88e, 0xe10e9818, 0x7f6a0dbb, 0x086d3d2d,
    0x91646c97, 0xe6635c01, 0x6b6b51f4, 0x1c6c6162, 0x856530d8, 0xf262004e,
    0x6c0695ed, 0x1b01a57b, 0x8208f4c1, 0xf50fc457, 0x65b0d9c6, 0x12b7e950,
    0x8bbeb8ea, 0xfcb9887c, 0x62dd1ddf, 0x15da2d49, 0x8cd37cf3, 0xfbd44c65,
    0x4db26158, 0x3ab551ce, 0xa3bc0074, 0xd4bb30e2, 0x4adfa541, 0x3dd895d7,
    0xa4d1c46d, 0xd3d6f4fb, 0x4369e96a, 0x346ed9fc, 0xad678846, 0xda60b8d0,
    0x44042d73, 0x33031de5, 0xaa0a4c5f, 0xdd0d7cc9, 0x5005713c, 0x270241aa,
    0xbe0b1010, 0xc90c2086, 0x5768b525, 0x206f85b3, 0xb966d409, 0xce61e49f,
    0x5edef90e, 0x29d9c998, 0xb0d09822, 0xc7d7a8b4, 0x59b33d17, 0x2eb40d81,
    0xb7bd5c3b, 0xc0ba6cad, 0xedb88320, 0x9abfb3b6, 0x03b6e20c, 0x74b1d29a,
    0xead54739, 0x9dd277af, 0x04db2615, 0x73dc1683, 0xe3630b12, 0x94643b84,
    0x0d6d6a3e, 0x7a6a5aa8, 0xe40ecf0b, 0x9309ff9d, 0x0a00ae27, 0x7d079eb1,
    0xf00f9344, 0x8708a3d2, 0x1e01f268, 0x6906c2fe, 0xf762575d, 0x806567cb,
    0x196c3671, 0x6e6b06e7, 0xfed41b76, 0x89d32be0, 0x10da7a5a, 0x67dd4acc,
    0xf9b9df6f, 0x8ebeeff9, 0x17b7be43, 0x60b08ed5, 0xd6d6a3e8, 0xa1d1937e,
    0x38d8c2c4, 0x4fdff252, 0xd1bb67f1, 0xa6bc5767, 0x3fb506dd, 0x48b2364b,
    0xd80d2bda, 0xaf0a1b4c, 0x36034af6, 0x41047a60, 0xdf60efc3, 0xa867df55,
    0x316e8eef, 0x4669be79, 0xcb61b38c, 0xbc66831a, 0x256fd2a0, 0x5268e236,
    0xcc0c7795, 0xbb0b4703, 0x220216b9, 0x5505262f, 0xc5ba3bbe, 0xb2bd0b28,
    0x2bb45a92, 0x5cb36a04, 0xc2d7ffa7, 0xb5d0cf31, 0x2cd99e8b, 0x5bdeae1d,
    0x9b64c2b0, 0xec63f226, 0x756aa39c, 0x026d930a, 0x9c0906a9, 0xeb0e363f,
    0x72076785, 0x05005713, 0x95bf4a82, 0xe2b87a14, 0x7bb12bae, 0x0cb61b38,
    0x92d28e9b, 0xe5d5be0d, 0x7cdcefb7, 0x0bdbdf21, 0x86d3d2d4, 0xf1d4e242,
    0x68ddb3f8, 0x1fda836e, 0x81be16cd, 0xf6b9265b, 0x6fb077e1, 0x18b74777,
    0x88085ae6, 0xff0f6a70, 0x66063bca, 0x11010b5c, 0x8f659eff, 0xf862ae69,
    0x616bffd3, 0x166ccf45, 0xa00ae278, 0xd70dd2ee, 0x4e048354, 0x3903b3c2,
    0xa7672661, 0xd06016f7, 0x4969474d, 0x3e6e77db, 0xaed16a4a, 0xd9d65adc,
    0x40df0b66, 0x37d83bf0, 0xa9bcae53, 0xdebb9ec5, 0x47b2cf7f, 0x30b5ffe9,
    0xbdbdf21c, 0xcabac28a, 0x53b39330, 0x24b4a3a6, 0xbad03605, 0xcdd70693,
    0x54de5729, 0x23d967bf, 0xb3667a2e, 0xc4614ab8, 0x5d681b02, 0x2a6f2b94,
    0xb40bbe37, 0xc30c8ea1, 0x5a05df1b, 0x2d02ef8d]"

definition crc_step :: "32 word \<Rightarrow> byte \<Rightarrow> 32 word" where
  "crc_step crc32val b =
     crc32_tab ! unat ((crc32val XOR ucast b) AND 0xff) XOR drop_bit 8 crc32val"

definition efi_crc32_seed :: "byte list \<Rightarrow> 32 word \<Rightarrow> 32 word" where
  "efi_crc32_seed s seed = foldl crc_step seed s"

definition efi_crc32 :: "byte list \<Rightarrow> 32 word" where
  "efi_crc32 buf = efi_crc32_seed buf (NOT 0) XOR NOT 0"

section \<open>Reference: division bit by bit\<close>

text \<open>
  One step of the reflected shift register: the lowest bit decides whether the polynomial
  (\<open>0xedb88320\<close>, its bits in reverse order) is subtracted.
\<close>

definition crc_bit :: "32 word \<Rightarrow> 32 word" where
  "crc_bit r = (if bit r 0 then drop_bit 1 r XOR 0xedb88320 else drop_bit 1 r)"

definition crc_reference :: "byte list \<Rightarrow> 32 word \<Rightarrow> 32 word" where
  "crc_reference s seed = foldl (\<lambda>r b. (crc_bit ^^ 8) (r XOR ucast b)) seed s"

section \<open>Lemmas\<close>

text \<open>The shift register is linear.\<close>

definition crc_byte :: "32 word \<Rightarrow> 32 word" where
  "crc_byte r = (crc_bit ^^ 8) r"

lemma crc_bit_xor: "crc_bit (a XOR b) = crc_bit a XOR crc_bit b"
  by (rule bit_word_eqI) (auto simp: crc_bit_def bit_simps)

lemma crc_bits_xor: "(crc_bit ^^ n) (a XOR b) = (crc_bit ^^ n) a XOR (crc_bit ^^ n) b"
  by (induction n) (simp_all add: crc_bit_xor)

lemma crc_byte_xor: "crc_byte (a XOR b) = crc_byte a XOR crc_byte b"
  by (simp add: crc_byte_def crc_bits_xor)

text \<open>Zero bits are shifted out; what remains of a word above its low byte only moves.\<close>

lemma crc_bits_shift: "(\<forall>k<n. \<not> bit r k) \<Longrightarrow> (crc_bit ^^ n) r = drop_bit n r"
proof (induction n arbitrary: r)
  case (Suc n)
  then have "\<not> bit r 0" by simp
  then have "crc_bit r = drop_bit 1 r" by (simp add: crc_bit_def)
  moreover have "(crc_bit ^^ n) (drop_bit 1 r) = drop_bit n (drop_bit 1 r)"
    using Suc by (intro Suc.IH) (simp add: bit_drop_bit_eq)
  ultimately show ?case by (simp add: funpow_swap1 drop_bit_Suc)
qed simp

text \<open>The table is built from the remainders of the eight powers of two.\<close>

lemma crc_powers:
  "map (\<lambda>k. crc_byte (push_bit k 1)) [0..<8] =
    [0x77073096, 0xee0e612c, 0x076dc419, 0x0edb8832, 0x1db71064, 0x3b6e20c8, 0x76dc4190, 0xedb88320]"
  by code_simp

lemma crc_doubling:
  "crc32_tab = foldl (\<lambda>l b. l @ map (\<lambda>x. x XOR b) l) [0]
    [0x77073096, 0xee0e612c, 0x076dc419, 0x0edb8832, 0x1db71064, 0x3b6e20c8, 0x76dc4190, 0xedb88320]"
  by (simp add: crc32_tab_def)

lemma crc_table_doubling:
  "n < 32 \<Longrightarrow> foldl (\<lambda>l b. l @ map (\<lambda>x. x XOR b) l) [0] (map (\<lambda>k. crc_byte (push_bit k 1)) [0..<n])
    = map (\<lambda>m. crc_byte (word_of_nat m)) [0..<2 ^ n]"
proof (induction n)
  case 0
  have "crc_byte 0 = 0" using crc_byte_xor[of 0 0] by simp
  then show ?case by simp
next
  case (Suc n)
  have "crc_byte (word_of_nat (m + 2 ^ n)) = crc_byte (word_of_nat m) XOR crc_byte (push_bit n 1)"
    if "m < 2 ^ n" for m
  proof -
    let ?m = "word_of_nat m :: 32 word" and ?p = "push_bit n 1 :: 32 word"
    have "\<not> bit m n" using that by (simp add: bit_iff_odd)
    then have dis: "\<not> bit ?m n" by (simp add: bit_simps)
    then have "?m + ?p = ?m OR ?p" by (intro disjunctive_add) (auto simp: bit_simps)
    also have "\<dots> = ?m XOR ?p" using dis by (intro bit_word_eqI) (auto simp: bit_simps)
    finally have "?m + ?p = ?m XOR ?p" .
    then show ?thesis using crc_byte_xor by (simp add: push_bit_eq_mult)
  qed
  moreover have "[0..<2 ^ Suc n] = [0..<2 ^ n] @ map (\<lambda>m. m + 2 ^ n) [0..<2 ^ n]"
    by (simp add: map_add_upt upt_add_eq_append[symmetric] mult_2)
  ultimately show ?case using Suc by simp
qed

lemma crc32_tab_entry:
  assumes "n < 256"
  shows "crc32_tab ! n = crc_byte (word_of_nat n)"
proof -
  have "crc32_tab = map (\<lambda>m. crc_byte (word_of_nat m)) [0..<2 ^ 8]"
    using crc_table_doubling[of 8] by (simp only: crc_doubling crc_powers) 
  then show ?thesis using assms nth_map_upt[of n "2 ^ 8" 0 "\<lambda>m. crc_byte (word_of_nat m)"] by simp
qed

lemma crc_step_is_byte: "crc_step r b = crc_byte (r XOR ucast b)"
proof -
  let ?x = "r XOR ucast b"
  let ?l = "?x AND 0xff" and ?h = "?x AND NOT 0xff"
  have ff: "(0xff :: 32 word) = mask 8" by (simp add: mask_eq_exp_minus_1)
  have "?x = ?l XOR ?h" by (rule bit_word_eqI) (auto simp: bit_simps)
  then have "crc_byte ?x = crc_byte ?l XOR crc_byte ?h" using crc_byte_xor by metis
  also have "crc_byte ?h = drop_bit 8 ?h"
    unfolding crc_byte_def ff by (rule crc_bits_shift) (simp add: bit_simps)
  also have "drop_bit 8 ?h = drop_bit 8 r"
    unfolding ff by (rule bit_word_eqI) (auto simp: bit_simps dest: bit_imp_le_length)
  also have "crc_byte ?l = crc32_tab ! unat ?l"
  proof -
    have "unat ?l = take_bit 8 (unat ?x)"
      unfolding ff by (simp only: unsigned_take_bit_eq flip: take_bit_eq_mask)
    then have "unat ?l < 256" using take_bit_nat_less_exp[of 8 "unat ?x"] by simp
    then show ?thesis by (simp add: crc32_tab_entry)
  qed
  finally show ?thesis by (simp add: crc_step_def)
qed

text \<open>
  C34. The table-driven loop computes the division bit by bit, for every message and every seed.
\<close>
theorem crc32_is_polynomial_division: "efi_crc32_seed s seed = crc_reference s seed"
  unfolding efi_crc32_seed_def crc_reference_def
  by (rule arg_cong[where f = "\<lambda>f. foldl f seed s"]) (simp add: fun_eq_iff crc_step_is_byte crc_byte_def)

section \<open>Error detection\<close>

lemma xor_cancel: "(r :: 'a::len word) XOR a = r XOR b \<longleftrightarrow> a = b"
  by (metis xor.left_neutral xor.assoc xor_self_eq)

lemma crc_bit_inj: "crc_bit a = crc_bit b \<longleftrightarrow> a = b"
proof
  assume eq: "crc_bit a = crc_bit b"
  have top: "bit (crc_bit r) 31 \<longleftrightarrow> bit r 0" for r
    using bit_imp_le_length[of r 32] by (auto simp: crc_bit_def bit_simps)
  have "bit a 0 \<longleftrightarrow> bit b 0" using top[of a] top[of b] eq by simp
  then have "drop_bit 1 a = drop_bit 1 b"
    using eq xor_cancel[of "0xedb88320" "drop_bit 1 a" "drop_bit 1 b"]
    by (auto simp: crc_bit_def xor.commute split: if_splits)
  then have "bit (drop_bit 1 a) k \<longleftrightarrow> bit (drop_bit 1 b) k" for k by simp
  then have "bit a (Suc k) \<longleftrightarrow> bit b (Suc k)" for k unfolding bit_drop_bit_eq by simp
  with \<open>bit a 0 \<longleftrightarrow> bit b 0\<close> show "a = b"
    by (intro bit_word_eqI) (metis not0_implies_Suc)
qed simp

lemma crc_bits_inj: "(crc_bit ^^ n) a = (crc_bit ^^ n) b \<longleftrightarrow> a = b"
  by (induction n) (simp_all add: crc_bit_inj)

lemma crc_bytes_inj: "(crc_byte ^^ n) a = (crc_byte ^^ n) b \<longleftrightarrow> a = b"
  by (induction n) (simp_all add: crc_byte_def crc_bits_inj)

lemma crc_suffix_inj: "efi_crc32_seed s a = efi_crc32_seed s b \<longleftrightarrow> a = b"
proof (induction s arbitrary: a b)
  case (Cons x s)
  have "efi_crc32_seed (x # s) r = efi_crc32_seed s (crc_step r x)" for r
    by (simp add: efi_crc32_seed_def)
  moreover have "crc_byte (a XOR ucast x) = crc_byte (b XOR ucast x) \<longleftrightarrow> a = b"
    using crc_bytes_inj[of 1] xor_cancel[of "ucast x" a b] by (simp add: xor.commute)
  ultimately show ?case using Cons by (simp add: crc_step_is_byte)
qed (simp add: efi_crc32_seed_def)

text \<open>Up to four bytes enter the register as one little-endian word.\<close>

lemma crc_word:
  "length s \<le> 4 \<Longrightarrow> efi_crc32_seed s r = (crc_byte ^^ length s) (r XOR of_le s)"
proof (induction s arbitrary: r)
  case (Cons b s)
  let ?w = "of_le s :: 32 word"
  have "?w = drop_bit 8 (push_bit 8 ?w)"
    using Cons.prems by (intro bit_word_eqI) (auto simp: bit_simps bit_of_le)
  also have "\<dots> = crc_byte (push_bit 8 ?w)"
    unfolding crc_byte_def by (rule crc_bits_shift[symmetric]) (simp add: bit_simps)
  finally have w: "crc_byte (push_bit 8 ?w) = ?w" ..
  have "of_le (b # s) = ucast b XOR push_bit 8 ?w"
    unfolding of_le_Cons by (rule bit_word_eqI) (auto simp: bit_simps dest: bit_imp_le_length)
  then have "crc_byte (r XOR of_le (b # s)) = crc_byte (r XOR ucast b) XOR ?w"
    by (simp add: crc_byte_xor w xor.assoc)
  moreover have "efi_crc32_seed (b # s) r = efi_crc32_seed s (crc_byte (r XOR ucast b))"
    by (simp add: efi_crc32_seed_def crc_step_is_byte)
  ultimately show ?case using Cons by (simp add: funpow_swap1)
qed (simp add: efi_crc32_seed_def)

lemma of_le_inj:
  assumes "length a = length b" "8 * length a \<le> LENGTH('a)" "(of_le a :: 'a::len word) = of_le b"
  shows "a = b"
proof (rule nth_equalityI)
  fix i assume i: "i < length a"
  show "a ! i = b ! i"
  proof (rule bit_word_eqI)
    fix k assume "k < LENGTH(8)"
    then have "(8 * i + k) div 8 = i" "(8 * i + k) mod 8 = k" "8 * i + k < LENGTH('a)"
      using i assms(2) by (auto simp: div_mult_self4)
    then show "bit (a ! i) k \<longleftrightarrow> bit (b ! i) k"
      using arg_cong[OF assms(3), of "\<lambda>w. bit w (8 * i + k)"] i assms(1) by (simp add: bit_of_le)
  qed
qed (fact assms(1))

text \<open>
  The checksum detects every damage confined to four consecutive bytes: two messages that
  differ only there have the same checksum exactly when they are equal.
\<close>
theorem crc32_detects_burst:
  assumes "length a = length b" and "length a \<le> 4"
  shows "efi_crc32 (pre @ a @ post) = efi_crc32 (pre @ b @ post) \<longleftrightarrow> a = b"
proof -
  have app: "efi_crc32_seed (xs @ ys) r = efi_crc32_seed ys (efi_crc32_seed xs r)" for xs ys r
    by (simp add: efi_crc32_seed_def)
  have "efi_crc32_seed a r = efi_crc32_seed b r \<longleftrightarrow> a = b" for r
    using assms of_le_inj[of a b, where 'a = 32] by (auto simp: crc_word crc_bytes_inj xor_cancel)
  then show ?thesis
    by (simp add: efi_crc32_def app crc_suffix_inj xor.commute[of _ "NOT 0"] xor_cancel)
qed

theorem crc32_detects_burst_witness:
  "efi_crc32 ([1, 2] @ [0, 0xff, 7] @ [9]) \<noteq> efi_crc32 ([1, 2] @ [0, 0xfe, 7] @ [9])"
  using crc32_detects_burst[of "[0, 0xff, 7]" "[0, 0xfe, 7]" "[1, 2]" "[9]"] by simp

end
