(* ===== verification/Gpt_Format.thy ===== *)
theory Gpt_Format
  imports Gpt Crc32
begin

text \<open>
  The structures of the GPT label on disk (\<open>libparted/labels/gpt.c\<close>): the table header, the
  partition entry with its attribute bit-fields, and the protective MBR. The packed structures
  are read from and written to the bytes of a sector; \<open>pth_new_from_raw\<close> and
  \<open>pth_get_raw\<close> are the functions of that name, the casts of the code between a buffer and a
  structure pointer are the functions \<open>..._of_bytes\<close> and \<open>..._bytes\<close>.
\<close>

section \<open>The table header\<close>

abbreviation GPT_HEADER_SIGNATURE :: "64 word" where "GPT_HEADER_SIGNATURE \<equiv> 0x5452415020494645"
abbreviation GPT_HEADER_REVISION_V1_02 :: "32 word" where "GPT_HEADER_REVISION_V1_02 \<equiv> 0x00010200"
abbreviation GPT_HEADER_REVISION_V1_00 :: "32 word" where "GPT_HEADER_REVISION_V1_00 \<equiv> 0x00010000"
abbreviation MSDOS_MBR_SIGNATURE :: "16 word" where "MSDOS_MBR_SIGNATURE \<equiv> 0xaa55"
abbreviation EFI_PMBR_OSTYPE_EFI :: byte where "EFI_PMBR_OSTYPE_EFI \<equiv> 0xEE"

record GuidPartitionTableHeader_t =
  Signature :: "64 word"
  Revision :: "32 word"
  HeaderSize :: "32 word"
  HeaderCRC32 :: "32 word"
  Reserved1 :: "32 word"
  MyLBA :: "64 word"
  HdrAlternateLBA :: "64 word"
  FirstUsableLBA :: "64 word"
  LastUsableLBA :: "64 word"
  DiskGUID :: efi_guid_t
  PartitionEntryLBA :: "64 word"
  NumberOfPartitionEntries :: "32 word"
  SizeOfPartitionEntry :: "32 word"
  PartitionEntryArrayCRC32 :: "32 word"
  Reserved2 :: "byte list"

definition pth_get_size_static :: nat where
  "pth_get_size_static = 92"

text \<open>The reserved bytes fill the sector.\<close>

definition pth_new_from_raw :: "byte list \<Rightarrow> GuidPartitionTableHeader_t" where
  "pth_new_from_raw raw = \<lparr>
     Signature = of_le (field 0 8 raw), Revision = of_le (field 8 4 raw),
     HeaderSize = of_le (field 12 4 raw), HeaderCRC32 = of_le (field 16 4 raw),
     Reserved1 = of_le (field 20 4 raw), MyLBA = of_le (field 24 8 raw),
     HdrAlternateLBA = of_le (field 32 8 raw), FirstUsableLBA = of_le (field 40 8 raw),
     LastUsableLBA = of_le (field 48 8 raw), DiskGUID = guid_of_bytes (field 56 16 raw),
     PartitionEntryLBA = of_le (field 72 8 raw), NumberOfPartitionEntries = of_le (field 80 4 raw),
     SizeOfPartitionEntry = of_le (field 84 4 raw), PartitionEntryArrayCRC32 = of_le (field 88 4 raw),
     Reserved2 = drop pth_get_size_static raw\<rparr>"

definition pth_get_raw :: "GuidPartitionTableHeader_t \<Rightarrow> byte list" where
  "pth_get_raw pth =
     le_bytes 8 (Signature pth) @ le_bytes 4 (Revision pth) @ le_bytes 4 (HeaderSize pth)
     @ le_bytes 4 (HeaderCRC32 pth) @ le_bytes 4 (Reserved1 pth) @ le_bytes 8 (MyLBA pth)
     @ le_bytes 8 (HdrAlternateLBA pth) @ le_bytes 8 (FirstUsableLBA pth) @ le_bytes 8 (LastUsableLBA pth)
     @ guid_bytes (DiskGUID pth) @ le_bytes 8 (PartitionEntryLBA pth)
     @ le_bytes 4 (NumberOfPartitionEntries pth) @ le_bytes 4 (SizeOfPartitionEntry pth)
     @ le_bytes 4 (PartitionEntryArrayCRC32 pth) @ Reserved2 pth"

definition pth_new_zeroed :: "nat \<Rightarrow> GuidPartitionTableHeader_t" where
  "pth_new_zeroed sector = pth_new_from_raw (replicate sector 0)"

definition pth_crc32 :: "GuidPartitionTableHeader_t \<Rightarrow> 32 word" where
  "pth_crc32 pth = efi_crc32 (take (unat (HeaderSize pth)) (pth_get_raw pth))"

section \<open>Partition entries\<close>

text \<open>The bit-fields are laid out from the lowest bit, as the compilers for the target do.\<close>

definition attr_word :: "GuidPartitionEntryAttributes_t \<Rightarrow> 64 word" where
  "attr_word a = of_bool (RequiredToFunction a) OR push_bit 1 (of_bool (NoBlockIOProtocol a))
     OR push_bit 2 (of_bool (LegacyBIOSBootable a)) OR push_bit 3 (ucast (AttrReserved a))
     OR push_bit 48 (ucast (GuidSpecific a)) OR push_bit 63 (of_bool (NoAutomount a))"

definition attr_of_word :: "64 word \<Rightarrow> GuidPartitionEntryAttributes_t" where
  "attr_of_word w = \<lparr>RequiredToFunction = bit w 0, NoBlockIOProtocol = bit w 1,
     LegacyBIOSBootable = bit w 2, AttrReserved = ucast (drop_bit 3 w),
     GuidSpecific = ucast (drop_bit 48 w), NoAutomount = bit w 63\<rparr>"

record GuidPartitionEntry_t =
  PartitionTypeGuid :: efi_guid_t
  UniquePartitionGuid :: efi_guid_t
  StartingLBA :: "64 word"
  EndingLBA :: "64 word"
  Attributes :: GuidPartitionEntryAttributes_t
  PartitionName :: "16 word list"

definition pte_bytes :: "GuidPartitionEntry_t \<Rightarrow> byte list" where
  "pte_bytes e = guid_bytes (PartitionTypeGuid e) @ guid_bytes (UniquePartitionGuid e)
     @ le_bytes 8 (StartingLBA e) @ le_bytes 8 (EndingLBA e) @ le_bytes 8 (attr_word (Attributes e))
     @ concat (map (le_bytes 2) (PartitionName e))"

definition pte_of_bytes :: "byte list \<Rightarrow> GuidPartitionEntry_t" where
  "pte_of_bytes raw = \<lparr>PartitionTypeGuid = guid_of_bytes (field 0 16 raw),
     UniquePartitionGuid = guid_of_bytes (field 16 16 raw), StartingLBA = of_le (field 32 8 raw),
     EndingLBA = of_le (field 40 8 raw), Attributes = attr_of_word (of_le (field 48 8 raw)),
     PartitionName = map (\<lambda>i. of_le (field (56 + 2 * i) 2 raw)) [0..<36]\<rparr>"

section \<open>The protective MBR\<close>

record PartitionRecord_t =
  BootIndicator :: byte
  StartHead :: byte
  StartSector :: byte
  StartTrack :: byte
  OSType :: byte
  EndHead :: byte
  EndSector :: byte
  EndTrack :: byte
  RecStartingLBA :: "32 word"
  SizeInLBA :: "32 word"

record LegacyMBR_t =
  BootCode :: "byte list"
  UniqueMBRSignature :: "32 word"
  MbrUnknown :: "16 word"
  PartitionRecord :: "PartitionRecord_t list"
  MbrSignature :: "16 word"

definition record_bytes :: "PartitionRecord_t \<Rightarrow> byte list" where
  "record_bytes r = [BootIndicator r, StartHead r, StartSector r, StartTrack r, OSType r, EndHead r,
     EndSector r, EndTrack r] @ le_bytes 4 (RecStartingLBA r) @ le_bytes 4 (SizeInLBA r)"

definition record_of_bytes :: "byte list \<Rightarrow> PartitionRecord_t" where
  "record_of_bytes raw = \<lparr>BootIndicator = raw ! 0, StartHead = raw ! 1, StartSector = raw ! 2,
     StartTrack = raw ! 3, OSType = raw ! 4, EndHead = raw ! 5, EndSector = raw ! 6, EndTrack = raw ! 7,
     RecStartingLBA = of_le (field 8 4 raw), SizeInLBA = of_le (field 12 4 raw)\<rparr>"

definition mbr_bytes :: "LegacyMBR_t \<Rightarrow> byte list" where
  "mbr_bytes m = BootCode m @ le_bytes 4 (UniqueMBRSignature m) @ le_bytes 2 (MbrUnknown m)
     @ concat (map record_bytes (PartitionRecord m)) @ le_bytes 2 (MbrSignature m)"

definition mbr_of_bytes :: "byte list \<Rightarrow> LegacyMBR_t" where
  "mbr_of_bytes raw = \<lparr>BootCode = field 0 440 raw, UniqueMBRSignature = of_le (field 440 4 raw),
     MbrUnknown = of_le (field 444 2 raw),
     PartitionRecord = map (\<lambda>i. record_of_bytes (field (446 + 16 * i) 16 raw)) [0..<4],
     MbrSignature = of_le (field 510 2 raw)\<rparr>"

definition zero_record :: PartitionRecord_t where
  "zero_record = record_of_bytes (replicate 16 0)"

definition pmbr_is_valid :: "LegacyMBR_t \<Rightarrow> bool" where
  "pmbr_is_valid mbr \<longleftrightarrow> MbrSignature mbr = MSDOS_MBR_SIGNATURE \<and>
     (\<exists>i \<in> set [0..<4]. OSType (PartitionRecord mbr ! i) = EFI_PMBR_OSTYPE_EFI)"

text \<open>What \<open>_write_pmbr\<close> makes of the first sector, \<open>len\<close> being the length of the device.\<close>

definition make_pmbr :: "PedSector \<Rightarrow> bool \<Rightarrow> byte list \<Rightarrow> byte list" where
  "make_pmbr len boot s0 =
     (let pmbr = mbr_of_bytes s0;
          r0 = zero_record\<lparr>OSType := EFI_PMBR_OSTYPE_EFI, StartSector := 2, EndHead := 0xFF,
             EndSector := 0xFF, EndTrack := 0xFF, RecStartingLBA := 1,
             SizeInLBA := (if (word_of_int len - 1 :: 64 word) > 0xFFFFFFFF then 0xFFFFFFFF else word_of_int (len - 1)),
             BootIndicator := (if boot then 0x80 else 0)\<rparr>
      in mbr_bytes (pmbr\<lparr>PartitionRecord := [r0, zero_record, zero_record, zero_record],
                         MbrSignature := MSDOS_MBR_SIGNATURE\<rparr>) @ drop 512 s0)"

section \<open>Round trips\<close>

text \<open>Well-formed structures: the arrays have the lengths of their declarations.\<close>

definition pth_wf :: "nat \<Rightarrow> GuidPartitionTableHeader_t \<Rightarrow> bool" where
  "pth_wf sector h \<longleftrightarrow> guid_wf (DiskGUID h) \<and> length (Reserved2 h) = sector - 92 \<and> 92 \<le> sector"

definition pte_wf :: "GuidPartitionEntry_t \<Rightarrow> bool" where
  "pte_wf e \<longleftrightarrow> guid_wf (PartitionTypeGuid e) \<and> guid_wf (UniquePartitionGuid e) \<and> length (PartitionName e) = 36"

lemma length_guid_wf: "guid_wf g \<Longrightarrow> length (guid_bytes g) = 16"
  by (simp add: length_guid_bytes)

lemma length_pth_get_raw: "pth_wf sector h \<Longrightarrow> length (pth_get_raw h) = sector"
  by (simp add: pth_get_raw_def pth_wf_def length_guid_wf)

lemma field_append:
  "length xs \<le> i \<Longrightarrow> field i n (xs @ ys) = field (i - length xs) n ys"
  "field 0 n (xs @ ys) = take n xs @ field 0 (n - length xs) ys"
  "field i 0 zs = []"
  by (simp_all add: field_def)

lemma pth_from_raw_raw: "pth_wf sector h \<Longrightarrow> pth_new_from_raw (pth_get_raw h) = h"
  by (cases h) (simp add: pth_new_from_raw_def pth_get_raw_def pth_wf_def field_append length_guid_wf
      guid_of_bytes_of_guid pth_get_size_static_def)

lemma bit_attr_word:
  "bit (attr_word a) k \<longleftrightarrow> (k = 0 \<and> RequiredToFunction a) \<or> (k = 1 \<and> NoBlockIOProtocol a) \<or>
     (k = 2 \<and> LegacyBIOSBootable a) \<or> (3 \<le> k \<and> k < 48 \<and> bit (AttrReserved a) (k - 3)) \<or>
     (48 \<le> k \<and> k < 63 \<and> bit (GuidSpecific a) (k - 48)) \<or> (k = 63 \<and> NoAutomount a)"
proof -
  have flag: "bit (push_bit m (of_bool b :: 64 word)) k \<longleftrightarrow> k = m \<and> b" if "m < 64" for m b
    using that by (auto simp: bit_simps)
  have "bit (push_bit 3 (ucast (AttrReserved a) :: 64 word)) k \<longleftrightarrow> 3 \<le> k \<and> k < 48 \<and> bit (AttrReserved a) (k - 3)"
    using bit_imp_le_length[of "AttrReserved a" "k - 3"] by (auto simp: bit_simps)
  moreover have "bit (push_bit 48 (ucast (GuidSpecific a) :: 64 word)) k \<longleftrightarrow> 48 \<le> k \<and> k < 63 \<and> bit (GuidSpecific a) (k - 48)"
    using bit_imp_le_length[of "GuidSpecific a" "k - 48"] by (auto simp: bit_simps)
  ultimately show ?thesis
    using flag[of 0 "RequiredToFunction a"] flag[of 1 "NoBlockIOProtocol a"] flag[of 2 "LegacyBIOSBootable a"]
      flag[of 63 "NoAutomount a"]
    unfolding attr_word_def bit_or_iff by simp
qed

lemma attr_roundtrip: "attr_of_word (attr_word a) = a"
proof -
  have "ucast (drop_bit 3 (attr_word a)) = AttrReserved a" "ucast (drop_bit 48 (attr_word a)) = GuidSpecific a"
    by (rule bit_word_eqI, auto simp: bit_ucast_iff bit_drop_bit_eq bit_attr_word)+
  then show ?thesis by (cases a) (simp add: attr_of_word_def bit_attr_word)
qed

lemma length_pte_bytes: "pte_wf e \<Longrightarrow> length (pte_bytes e) = 128"
proof -
  have "length (concat (map (le_bytes 2) ws)) = 2 * length ws" for ws :: "16 word list"
    by (induction ws) auto
  then show "pte_wf e \<Longrightarrow> length (pte_bytes e) = 128"
    by (simp add: pte_bytes_def pte_wf_def length_guid_wf)
qed

text \<open>Reading the \<open>i\<close>-th element of an array of fixed-size elements.\<close>

lemma field_concat:
  assumes "\<And>x. x \<in> set xs \<Longrightarrow> length (f x) = n" and "i < length xs"
  shows "field (n * i) n (concat (map f xs) @ ys) = f (xs ! i)"
  using assms
proof (induction xs arbitrary: i)
  case (Cons x xs)
  show ?case
  proof (cases i)
    case 0
    then show ?thesis using Cons.prems by (simp add: field_def)
  next
    case (Suc j)
    have "field (n * i) n (concat (map f (x # xs)) @ ys) = field (n * j) n (concat (map f xs) @ ys)"
      using Cons.prems(1)[of x] Suc by (simp add: field_def)
    then show ?thesis using Cons Suc by simp
  qed
qed simp

lemma pte_roundtrip: "pte_wf e \<Longrightarrow> pte_of_bytes (pte_bytes e @ rest) = e"
proof -
  assume wf: "pte_wf e"
  have names: "field (56 + 2 * i) 2 (pte_bytes e @ rest) = le_bytes 2 (PartitionName e ! i)" if "i < 36" for i
  proof -
    have "field (56 + 2 * i) 2 (pte_bytes e @ rest) =
        field (2 * i) 2 (concat (map (le_bytes 2) (PartitionName e)) @ rest)"
      using wf by (simp add: pte_bytes_def pte_wf_def field_append length_guid_wf)
    also have "\<dots> = le_bytes 2 (PartitionName e ! i)"
      using that wf by (intro field_concat) (simp_all add: pte_wf_def)
    finally show ?thesis .
  qed
  have "map (\<lambda>i. of_le (field (56 + 2 * i) 2 (pte_bytes e @ rest))) [0..<36] = map ((!) (PartitionName e)) [0..<36]"
    by (rule map_cong) (simp_all add: names)
  also have "\<dots> = PartitionName e" using wf map_nth[of "PartitionName e"] by (simp add: pte_wf_def)
  finally have "PartitionName (pte_of_bytes (pte_bytes e @ rest)) = PartitionName e"
    by (simp add: pte_of_bytes_def)
  moreover have "PartitionTypeGuid (pte_of_bytes (pte_bytes e @ rest)) = PartitionTypeGuid e"
    "UniquePartitionGuid (pte_of_bytes (pte_bytes e @ rest)) = UniquePartitionGuid e"
    "StartingLBA (pte_of_bytes (pte_bytes e @ rest)) = StartingLBA e"
    "EndingLBA (pte_of_bytes (pte_bytes e @ rest)) = EndingLBA e"
    "Attributes (pte_of_bytes (pte_bytes e @ rest)) = Attributes e"
    using wf by (simp_all add: pte_of_bytes_def pte_bytes_def pte_wf_def field_append length_guid_wf
        guid_of_bytes_of_guid attr_roundtrip)
  ultimately show "pte_of_bytes (pte_bytes e @ rest) = e" by simp
qed

text \<open>The four records of an MBR.\<close>

lemma length_record_bytes [simp]: "length (record_bytes r) = 16"
  by (simp add: record_bytes_def)

lemma record_roundtrip: "record_of_bytes (record_bytes r) = r"
  by (cases r) (simp add: record_of_bytes_def record_bytes_def field_def)

definition mbr_wf :: "LegacyMBR_t \<Rightarrow> bool" where
  "mbr_wf m \<longleftrightarrow> length (BootCode m) = 440 \<and> length (PartitionRecord m) = 4"

lemma length_mbr_bytes: "mbr_wf m \<Longrightarrow> length (mbr_bytes m) = 512"
proof -
  have "length (concat (map record_bytes rs)) = 16 * length rs" for rs
    by (induction rs) auto
  then show "mbr_wf m \<Longrightarrow> length (mbr_bytes m) = 512" by (simp add: mbr_bytes_def mbr_wf_def)
qed

lemma mbr_roundtrip: "mbr_wf m \<Longrightarrow> mbr_of_bytes (mbr_bytes m @ rest) = m"
proof -
  assume wf: "mbr_wf m"
  have rs: "field (446 + 16 * i) 16 (mbr_bytes m @ rest) = record_bytes (PartitionRecord m ! i)" if "i < 4" for i
  proof -
    have "field (446 + 16 * i) 16 (mbr_bytes m @ rest) =
        field (16 * i) 16 (concat (map record_bytes (PartitionRecord m)) @ le_bytes 2 (MbrSignature m) @ rest)"
      using wf by (simp add: mbr_bytes_def mbr_wf_def field_append)
    also have "\<dots> = record_bytes (PartitionRecord m ! i)"
      using that wf by (intro field_concat) (simp_all add: mbr_wf_def)
    finally show ?thesis .
  qed
  have len: "length (concat (map record_bytes (PartitionRecord m))) = 64"
  proof -
    have "length (concat (map record_bytes rs)) = 16 * length rs" for rs by (induction rs) auto
    then show ?thesis using wf by (simp add: mbr_wf_def)
  qed
  have "map (\<lambda>i. record_of_bytes (field (446 + 16 * i) 16 (mbr_bytes m @ rest))) [0..<4] = map ((!) (PartitionRecord m)) [0..<4]"
    by (rule map_cong) (simp_all add: rs record_roundtrip)
  also have "\<dots> = PartitionRecord m" using wf map_nth[of "PartitionRecord m"] by (simp add: mbr_wf_def)
  finally have "PartitionRecord (mbr_of_bytes (mbr_bytes m @ rest)) = PartitionRecord m"
    by (simp add: mbr_of_bytes_def)
  moreover have "BootCode (mbr_of_bytes (mbr_bytes m @ rest)) = BootCode m"
    "UniqueMBRSignature (mbr_of_bytes (mbr_bytes m @ rest)) = UniqueMBRSignature m"
    "MbrUnknown (mbr_of_bytes (mbr_bytes m @ rest)) = MbrUnknown m"
    "MbrSignature (mbr_of_bytes (mbr_bytes m @ rest)) = MbrSignature m"
    using wf len by (simp_all add: mbr_of_bytes_def mbr_bytes_def mbr_wf_def field_append)
  ultimately show "mbr_of_bytes (mbr_bytes m @ rest) = m" by simp
qed

lemma make_pmbr_valid:
  assumes "512 \<le> length s0"
  shows "length (make_pmbr len boot s0) = length s0" "pmbr_is_valid (mbr_of_bytes (make_pmbr len boot s0))"
    "BootIndicator (PartitionRecord (mbr_of_bytes (make_pmbr len boot s0)) ! 0) = (if boot then 0x80 else 0)"
proof -
  let ?m = "mbr_of_bytes s0"
  have "mbr_wf (?m\<lparr>PartitionRecord := rs, MbrSignature := sig\<rparr>)" if "length rs = 4" for rs sig
    using assms that by (simp add: mbr_wf_def mbr_of_bytes_def field_def)
  note wf = this[of "[a, b, c, d]" for a b c d, simplified]
  show "length (make_pmbr len boot s0) = length s0"
    using assms wf by (simp add: make_pmbr_def Let_def length_mbr_bytes)
  show "pmbr_is_valid (mbr_of_bytes (make_pmbr len boot s0))"
    using wf by (simp add: make_pmbr_def Let_def mbr_roundtrip pmbr_is_valid_def upt_rec)
  show "BootIndicator (PartitionRecord (mbr_of_bytes (make_pmbr len boot s0)) ! 0) = (if boot then 0x80 else 0)"
    using wf by (simp add: make_pmbr_def Let_def mbr_roundtrip)
qed

end
