(* ===== verification/Dos_Format.thy ===== *)
theory Dos_Format
  imports Dos_Chs Gpt_Format
begin

text \<open>
  The sectors of the msdos label (\<open>libparted/labels/dos.c\<close>): the table of four entries that the
  boot record and every extended boot record hold, as the bytes of a sector, and what is written
  into an entry. A sector is its table, in 512 bytes, and the bytes behind it.
\<close>

section \<open>Structures\<close>

definition MSDOS_MAGIC :: "16 word" where "MSDOS_MAGIC = 0xAA55"

definition PARTITION_MAGIC_MAGIC :: "16 word" where "PARTITION_MAGIC_MAGIC = 0xf6f6"

definition DOS_N_PRI_PARTITIONS :: nat where "DOS_N_PRI_PARTITIONS = 4"

record DosRawTable =
  boot_code :: "byte list"
  mbr_signature :: "32 word"
  Unknown :: "16 word"
  partitions :: "DosRawPartition list"
  tab_magic :: "16 word"

definition chs_bytes :: "RawCHS \<Rightarrow> byte list" where
  "chs_bytes c = [chs_head c, chs_sector c, chs_cylinder c]"

definition chs_of_bytes :: "byte list \<Rightarrow> RawCHS" where
  "chs_of_bytes raw = \<lparr>chs_head = raw ! 0, chs_sector = raw ! 1, chs_cylinder = raw ! 2\<rparr>"

definition raw_part_bytes :: "DosRawPartition \<Rightarrow> byte list" where
  "raw_part_bytes r = [boot_ind r] @ chs_bytes (chs_start r) @ [raw_type r] @ chs_bytes (chs_end r)
     @ le_bytes 4 (raw_start r) @ le_bytes 4 (raw_length r)"

definition raw_part_of_bytes :: "byte list \<Rightarrow> DosRawPartition" where
  "raw_part_of_bytes raw = \<lparr>boot_ind = raw ! 0, chs_start = chs_of_bytes (field 1 3 raw), raw_type = raw ! 4,
     chs_end = chs_of_bytes (field 5 3 raw), raw_start = of_le (field 8 4 raw), raw_length = of_le (field 12 4 raw)\<rparr>"

definition table_bytes :: "DosRawTable \<Rightarrow> byte list" where
  "table_bytes t = boot_code t @ le_bytes 4 (mbr_signature t) @ le_bytes 2 (Unknown t)
     @ concat (map raw_part_bytes (partitions t)) @ le_bytes 2 (tab_magic t)"

definition table_of_bytes :: "byte list \<Rightarrow> DosRawTable" where
  "table_of_bytes raw = \<lparr>boot_code = field 0 440 raw, mbr_signature = of_le (field 440 4 raw),
     Unknown = of_le (field 444 2 raw),
     partitions = map (\<lambda>i. raw_part_of_bytes (field (446 + 16 * i) 16 raw)) [0..<DOS_N_PRI_PARTITIONS],
     tab_magic = of_le (field 510 2 raw)\<rparr>"

text \<open>What \<open>memset\<close> leaves of an entry.\<close>

definition empty_part :: DosRawPartition where
  "empty_part = raw_part_of_bytes (replicate 16 0)"

definition empty_parts :: "DosRawPartition list" where
  "empty_parts = replicate DOS_N_PRI_PARTITIONS empty_part"

text \<open>This boot code is loaded to 0000:7c00 by the BIOS.\<close>

definition MBR_BOOT_CODE :: "byte list" where
  "MBR_BOOT_CODE =
    [0xfa, 0xb8, 0x00, 0x10, 0x8e, 0xd0, 0xbc, 0x00, 0xb0, 0xb8, 0x00,
     0x00, 0x8e, 0xd8, 0x8e, 0xc0, 0xfb, 0xbe, 0x00, 0x7c, 0xbf, 0x00,
     0x06, 0xb9, 0x00, 0x02, 0xf3, 0xa4, 0xea, 0x21, 0x06, 0x00, 0x00,
     0xbe, 0xbe, 0x07, 0x38, 0x04, 0x75, 0x0b, 0x83, 0xc6, 0x10, 0x81,
     0xfe, 0xfe, 0x07, 0x75, 0xf3, 0xeb, 0x16, 0xb4, 0x02, 0xb0, 0x01,
     0xbb, 0x00, 0x7c, 0xb2, 0x80, 0x8a, 0x74, 0x01, 0x8b, 0x4c, 0x02,
     0xcd, 0x13, 0xea, 0x00, 0x7c, 0x00, 0x00, 0xeb, 0xfe]"

text \<open>The first four bytes of a fresh UUID, which must not read as zero.\<close>

definition generate_random_uint32 :: "byte list \<Rightarrow> 32 word" where
  "generate_random_uint32 uuid =
     (let i = of_le (take 4 uuid) :: 32 word in if i > 0 then i else 0xffffffff)"

section \<open>Entries\<close>

definition raw_part_is_extended :: "DosRawPartition \<Rightarrow> bool" where
  "raw_part_is_extended raw_part \<longleftrightarrow> raw_type raw_part \<in> {0x05, 0x0f, 0x85}"

text \<open>Could the sector be the boot sector of a FAT?\<close>

definition maybe_FAT :: "byte list \<Rightarrow> bool" where
  "maybe_FAT s \<longleftrightarrow>
     (s ! 0 = 0xeb \<or> s ! 0 = 0xe9)
     \<and> (push_bit 8 (uint (s ! 12)) OR uint (s ! 11)) \<in> {512, 1024, 2048, 4096}
     \<and> (s ! 21 = 0xf0 \<or> s ! 21 = 0xf8)"

text \<open>The region is stored in 32 bits; the old CHS address is kept where the sector has not changed.\<close>

definition fill_raw_part ::
    "dev_table \<Rightarrow> first_sector \<Rightarrow> DosDisk \<Rightarrow> addr \<Rightarrow> PedSector \<Rightarrow> DosRawPartition" where
  "fill_raw_part devs fsec d part off =
     (let bios = partition_probe_bios_geometry devs fsec d part;
          dev = devs (d_dev d);
          data = dos_data (node d part);
          g = geom_of d part;
          s = sector_to_chs dev (Some bios) (g_start g);
          e = sector_to_chs dev (Some bios) (g_end g)
      in \<lparr>boot_ind = (if dos_boot data then 0x80 else 0),
          chs_start = (case dos_orig data of None \<Rightarrow> s
             | Some orig \<Rightarrow> if g_start (orig_geom orig) = g_start g then chs_start (orig_raw_part orig) else s),
          raw_type = dos_system data,
          chs_end = (case dos_orig data of None \<Rightarrow> e
             | Some orig \<Rightarrow> if g_end (orig_geom orig) = g_end g then chs_end (orig_raw_part orig) else e),
          raw_start = word_of_int (g_start g - off),
          raw_length = word_of_int (g_length g)\<rparr>)"

definition fill_ext_raw_part_geom ::
    "PedDevice \<Rightarrow> PedCHSGeometry \<Rightarrow> PedGeometry \<Rightarrow> PedSector \<Rightarrow> DosRawPartition" where
  "fill_ext_raw_part_geom dev bios geom off =
     \<lparr>boot_ind = 0, chs_start = sector_to_chs dev (Some bios) (g_start geom), raw_type = 0x05,
      chs_end = sector_to_chs dev (Some bios) (g_start geom + g_length geom - 1),
      raw_start = word_of_int (g_start geom - off), raw_length = word_of_int (g_length geom)\<rparr>"

section \<open>Round trips\<close>

lemma length_raw_part_bytes [simp]: "length (raw_part_bytes r) = 16"
  by (simp add: raw_part_bytes_def chs_bytes_def)

lemma raw_part_roundtrip: "raw_part_of_bytes (raw_part_bytes r) = r"
  by (cases r; cases "chs_start r"; cases "chs_end r")
    (simp add: raw_part_of_bytes_def raw_part_bytes_def field_def chs_bytes_def chs_of_bytes_def)

definition table_wf :: "DosRawTable \<Rightarrow> bool" where
  "table_wf t \<longleftrightarrow> length (boot_code t) = 440 \<and> length (partitions t) = DOS_N_PRI_PARTITIONS"

lemma length_entries [simp]: "length (concat (map raw_part_bytes rs)) = 16 * length rs"
  by (induction rs) auto

lemma length_table_bytes: "table_wf t \<Longrightarrow> length (table_bytes t) = 512"
  by (simp add: table_bytes_def table_wf_def DOS_N_PRI_PARTITIONS_def)

lemma table_roundtrip: "table_wf t \<Longrightarrow> table_of_bytes (table_bytes t @ rest) = t"
proof -
  assume wf: "table_wf t"
  have rs: "field (446 + 16 * i) 16 (table_bytes t @ rest) = raw_part_bytes (partitions t ! i)" if "i < 4" for i
  proof -
    have "field (446 + 16 * i) 16 (table_bytes t @ rest) =
        field (16 * i) 16 (concat (map raw_part_bytes (partitions t)) @ le_bytes 2 (tab_magic t) @ rest)"
      using wf by (simp add: table_bytes_def table_wf_def field_append)
    also have "\<dots> = raw_part_bytes (partitions t ! i)"
      using that wf by (intro field_concat) (simp_all add: table_wf_def DOS_N_PRI_PARTITIONS_def)
    finally show ?thesis .
  qed
  have "map (\<lambda>i. raw_part_of_bytes (field (446 + 16 * i) 16 (table_bytes t @ rest))) [0..<4] = partitions t"
    using wf rs by (intro nth_equalityI) (simp_all add: table_wf_def DOS_N_PRI_PARTITIONS_def raw_part_roundtrip)
  moreover have "field 0 440 (table_bytes t @ rest) = boot_code t" "field 440 4 (table_bytes t @ rest) = le_bytes 4 (mbr_signature t)"
    "field 444 2 (table_bytes t @ rest) = le_bytes 2 (Unknown t)" "field 510 2 (table_bytes t @ rest) = le_bytes 2 (tab_magic t)"
    using wf by (simp_all add: table_bytes_def table_wf_def field_append field_def DOS_N_PRI_PARTITIONS_def)
  ultimately show ?thesis
    by (cases t) (simp add: table_of_bytes_def DOS_N_PRI_PARTITIONS_def del: upt_Suc)
qed

end
