(* ===== verification/Device.thy ===== *)
theory Device
  imports Constraint Bytes
begin

text \<open>
  Model of \<open>libparted/device.c\<close>: the list of detected devices, opening and closing, and the
  input and output of sectors, over the operations of the architecture
  (\<open>PedDeviceArchOps\<close>, \<open>include/parted/device.h\<close>). A device object is a reference into the
  table of devices; the state \<open>'s\<close> of the platform (its media) is a parameter. A C buffer
  is the list of its bytes; an operation that fills a buffer takes its old contents and
  returns the new ones.
\<close>

section \<open>State and the operations of the architecture\<close>

record 's io_state =
  devices :: "dev_ref list"
  dev_tab :: dev_table
  next_dev :: dev_ref
  platform :: 's

record 's PedDeviceArchOps =
  op_new :: "string \<Rightarrow> 's io_state \<Rightarrow> dev_ref option \<times> 's io_state"
  op_destroy :: "dev_ref \<Rightarrow> 's io_state \<Rightarrow> 's io_state"
  op_is_busy :: "dev_ref \<Rightarrow> 's io_state \<Rightarrow> bool"
  op_open :: "dev_ref \<Rightarrow> 's io_state \<Rightarrow> bool \<times> 's io_state"
  op_refresh_open :: "dev_ref \<Rightarrow> 's io_state \<Rightarrow> bool \<times> 's io_state"
  op_close :: "dev_ref \<Rightarrow> 's io_state \<Rightarrow> bool \<times> 's io_state"
  op_refresh_close :: "dev_ref \<Rightarrow> 's io_state \<Rightarrow> bool \<times> 's io_state"
  op_read :: "dev_ref \<Rightarrow> byte list \<Rightarrow> PedSector \<Rightarrow> PedSector \<Rightarrow> 's io_state \<Rightarrow> bool \<times> byte list"
  op_write :: "dev_ref \<Rightarrow> byte list \<Rightarrow> PedSector \<Rightarrow> PedSector \<Rightarrow> 's io_state \<Rightarrow> bool \<times> 's io_state"
  op_sync :: "dev_ref \<Rightarrow> 's io_state \<Rightarrow> bool \<times> 's io_state"
  op_sync_fast :: "dev_ref \<Rightarrow> 's io_state \<Rightarrow> bool \<times> 's io_state"
  op_check :: "dev_ref \<Rightarrow> byte list \<Rightarrow> PedSector \<Rightarrow> PedSector \<Rightarrow> 's io_state \<Rightarrow> PedSector"
  op_probe_all :: "'s io_state \<Rightarrow> 's io_state"
  op_get_minimum_alignment :: "(PedDevice \<Rightarrow> PedAlignment option) option"
  op_get_optimum_alignment :: "(PedDevice \<Rightarrow> PedAlignment option) option"

abbreviation dev_of :: "'s io_state \<Rightarrow> dev_ref \<Rightarrow> PedDevice" where
  "dev_of st dev \<equiv> dev_tab st dev"

definition upd_dev :: "dev_ref \<Rightarrow> (PedDevice \<Rightarrow> PedDevice) \<Rightarrow> 's io_state \<Rightarrow> 's io_state" where
  "upd_dev dev f st = st\<lparr>dev_tab := (dev_tab st)(dev := f (dev_tab st dev))\<rparr>"

section \<open>The list of devices\<close>

definition device_register :: "dev_ref \<Rightarrow> 's io_state \<Rightarrow> 's io_state" where
  "device_register dev st = st\<lparr>devices := devices st @ [dev]\<rparr>"

text \<open>The first occurrence is unlinked; a device that is not in the list is left alone.\<close>

definition device_unregister :: "dev_ref \<Rightarrow> 's io_state \<Rightarrow> 's io_state" where
  "device_unregister dev st = st\<lparr>devices := remove1 dev (devices st)\<rparr>"

fun next_in :: "dev_ref \<Rightarrow> dev_ref list \<Rightarrow> dev_ref option" where
  "next_in dev (w # ws) = (if w = dev then (case ws of [] \<Rightarrow> None | n # _ \<Rightarrow> Some n) else next_in dev ws)"
| "next_in dev [] = None"

definition ped_device_get_next :: "dev_ref option \<Rightarrow> 's io_state \<Rightarrow> dev_ref option" where
  "ped_device_get_next dev st =
     (case dev of
        Some d \<Rightarrow> next_in d (devices st)
      | None \<Rightarrow> (case devices st of [] \<Rightarrow> None | w # _ \<Rightarrow> Some w))"

text \<open>
  The code also frees the caller's \<open>path\<close> on every way out, because \<open>normal_path\<close> aliases it.
\<close>

definition ped_device_get ::
    "'s PedDeviceArchOps \<Rightarrow> string \<Rightarrow> 's io_state \<Rightarrow> dev_ref option \<times> 's io_state" where
  "ped_device_get ops path st =
     (case List.find (\<lambda>walk. dev_path (dev_of st walk) = path) (devices st) of
        Some walk \<Rightarrow> (Some walk, st)
      | None \<Rightarrow>
          (case op_new ops path st of
             (None, st1) \<Rightarrow> (None, st1)
           | (Some dev, st1) \<Rightarrow> (Some dev, device_register dev st1)))"

text \<open>The exception machinery around the call is that of theory \<open>Exception\<close>; nothing is thrown here.\<close>

definition ped_device_probe :: "'s PedDeviceArchOps \<Rightarrow> string \<Rightarrow> 's io_state \<Rightarrow> 's io_state" where
  "ped_device_probe ops path st = snd (ped_device_get ops path st)"

definition ped_device_probe_all :: "'s PedDeviceArchOps \<Rightarrow> 's io_state \<Rightarrow> 's io_state" where
  "ped_device_probe_all ops st = op_probe_all ops st"

definition ped_device_cache_remove :: "dev_ref \<Rightarrow> 's io_state \<Rightarrow> 's io_state" where
  "ped_device_cache_remove dev st = device_unregister dev st"

definition ped_device_is_busy :: "'s PedDeviceArchOps \<Rightarrow> dev_ref \<Rightarrow> 's io_state \<Rightarrow> bool" where
  "ped_device_is_busy ops dev st = op_is_busy ops dev st"

section \<open>Opening and closing\<close>

definition ped_device_open ::
    "'s PedDeviceArchOps \<Rightarrow> dev_ref \<Rightarrow> 's io_state \<Rightarrow> bool \<times> 's io_state" where
  "ped_device_open ops dev st =
     (let (status, st1) =
        (if open_count (dev_of st dev) \<noteq> 0 then op_refresh_open ops dev st else op_open ops dev st)
      in (status, if status then upd_dev dev (open_count_update (\<lambda>n. n + 1)) st1 else st1))"

definition ped_device_close ::
    "'s PedDeviceArchOps \<Rightarrow> dev_ref \<Rightarrow> 's io_state \<Rightarrow> bool \<times> 's io_state" where
  "ped_device_close ops dev st =
     (let st1 = upd_dev dev (open_count_update (\<lambda>n. n - 1)) st
      in if open_count (dev_of st1 dev) \<noteq> 0 then op_refresh_close ops dev st1
         else op_close ops dev st1)"

definition ped_device_begin_external_access ::
    "'s PedDeviceArchOps \<Rightarrow> dev_ref \<Rightarrow> 's io_state \<Rightarrow> bool \<times> 's io_state" where
  "ped_device_begin_external_access ops dev st =
     (let st1 = upd_dev dev (external_mode_update (\<lambda>_. True)) st
      in if open_count (dev_of st1 dev) \<noteq> 0 then op_close ops dev st1 else (True, st1))"

definition ped_device_end_external_access ::
    "'s PedDeviceArchOps \<Rightarrow> dev_ref \<Rightarrow> 's io_state \<Rightarrow> bool \<times> 's io_state" where
  "ped_device_end_external_access ops dev st =
     (let st1 = upd_dev dev (external_mode_update (\<lambda>_. False)) st
      in if open_count (dev_of st1 dev) \<noteq> 0 then op_open ops dev st1 else (True, st1))"

text \<open>
  \<open>while (dev->open_count) if (!ped_device_close (dev)) break;\<close> The loop need not end for
  every architecture, so that not returning is the value \<open>None\<close>.
\<close>

partial_function (option) close_all ::
    "'s PedDeviceArchOps \<Rightarrow> dev_ref \<Rightarrow> 's io_state \<Rightarrow> 's io_state option" where
  "close_all ops dev st =
     (if open_count (dev_of st dev) = 0 then Some st
      else let (ok, st1) = ped_device_close ops dev st
           in if ok then close_all ops dev st1 else Some st1)"

declare close_all.simps [code]

definition ped_device_destroy ::
    "'s PedDeviceArchOps \<Rightarrow> dev_ref \<Rightarrow> 's io_state \<Rightarrow> 's io_state option" where
  "ped_device_destroy ops dev st =
     map_option (op_destroy ops dev) (close_all ops dev (device_unregister dev st))"

partial_function (option) ped_device_free_all ::
    "'s PedDeviceArchOps \<Rightarrow> 's io_state \<Rightarrow> 's io_state option" where
  "ped_device_free_all ops st =
     (case devices st of
        [] \<Rightarrow> Some st
      | dev # _ \<Rightarrow> Option.bind (ped_device_destroy ops dev st) (ped_device_free_all ops))"

declare ped_device_free_all.simps [code]

section \<open>Input and output\<close>

definition ped_device_read ::
    "'s PedDeviceArchOps \<Rightarrow> dev_ref \<Rightarrow> byte list \<Rightarrow> PedSector \<Rightarrow> PedSector \<Rightarrow> 's io_state \<Rightarrow> bool \<times> byte list" where
  "ped_device_read ops dev buffer start count st = op_read ops dev buffer start count st"

definition ped_device_write ::
    "'s PedDeviceArchOps \<Rightarrow> dev_ref \<Rightarrow> byte list \<Rightarrow> PedSector \<Rightarrow> PedSector \<Rightarrow> 's io_state \<Rightarrow> bool \<times> 's io_state" where
  "ped_device_write ops dev buffer start count st = op_write ops dev buffer start count st"

definition ped_device_check ::
    "'s PedDeviceArchOps \<Rightarrow> dev_ref \<Rightarrow> byte list \<Rightarrow> PedSector \<Rightarrow> PedSector \<Rightarrow> 's io_state \<Rightarrow> PedSector" where
  "ped_device_check ops dev buffer start count st = op_check ops dev buffer start count st"

definition ped_device_sync :: "'s PedDeviceArchOps \<Rightarrow> dev_ref \<Rightarrow> 's io_state \<Rightarrow> bool \<times> 's io_state" where
  "ped_device_sync ops dev st = op_sync ops dev st"

definition ped_device_sync_fast :: "'s PedDeviceArchOps \<Rightarrow> dev_ref \<Rightarrow> 's io_state \<Rightarrow> bool \<times> 's io_state" where
  "ped_device_sync_fast ops dev st = op_sync_fast ops dev st"

section \<open>Alignments and constraints of a device\<close>

definition PED_DEFAULT_ALIGNMENT :: int where
  "PED_DEFAULT_ALIGNMENT = 1024 * 1024"

definition ped_device_get_minimum_alignment ::
    "'s PedDeviceArchOps \<Rightarrow> PedDevice \<Rightarrow> PedAlignment option" where
  "ped_device_get_minimum_alignment ops dev =
     (let align = (case op_get_minimum_alignment ops of Some f \<Rightarrow> f dev | None \<Rightarrow> None)
      in if align = None then ped_alignment_new 0 (phys_sector_size dev sdiv sector_size dev) else align)"

definition ped_device_get_optimum_alignment ::
    "'s PedDeviceArchOps \<Rightarrow> PedDevice \<Rightarrow> PedAlignment option" where
  "ped_device_get_optimum_alignment ops dev =
     (let align = (case op_get_optimum_alignment ops of Some f \<Rightarrow> f dev | None \<Rightarrow> None)
      in if align = None then ped_alignment_new 0 (PED_DEFAULT_ALIGNMENT sdiv sector_size dev) else align)"

text \<open>
  A device of length 0 has no region that spans it; the code then hands a \<open>NULL\<close> region to
  \<open>ped_constraint_new\<close> and reads through it.
\<close>

definition ped_device_get_constraint :: "dev_table \<Rightarrow> dev_ref \<Rightarrow> PedConstraint option" where
  "ped_device_get_constraint devs dev =
     (let s = ptr_of (ped_geometry_new dev 0 (dev_length (devs dev)));
          e = ptr_of (ped_geometry_new dev 0 (dev_length (devs dev)))
      in ped_constraint_new ped_alignment_any ped_alignment_any (the s) (the e) 1 (dev_length (devs dev)))"

definition ped_device_get_aligned_constraint ::
    "dev_table \<Rightarrow> dev_ref \<Rightarrow> PedAlignment option \<Rightarrow> PedConstraint option" where
  "ped_device_get_aligned_constraint devs dev align =
     (let whole = ptr_of (ped_geometry_new dev 0 (dev_length (devs dev)));
          len = dev_length (devs dev)
      in case align of
           Some sa \<Rightarrow>
             (case ped_alignment_new (offset sa - 1) (grain_size sa) of
                None \<Rightarrow> None
              | Some ea \<Rightarrow> ped_constraint_new (Some sa) (Some ea) (the whole) (the whole) 1 len)
         | None \<Rightarrow> ped_constraint_new ped_alignment_any ped_alignment_any (the whole) (the whole) 1 len)"

definition ped_device_get_minimal_aligned_constraint ::
    "'s PedDeviceArchOps \<Rightarrow> dev_table \<Rightarrow> dev_ref \<Rightarrow> PedConstraint option" where
  "ped_device_get_minimal_aligned_constraint ops devs dev =
     ped_device_get_aligned_constraint devs dev (ped_device_get_minimum_alignment ops (devs dev))"

definition ped_device_get_optimal_aligned_constraint ::
    "'s PedDeviceArchOps \<Rightarrow> dev_table \<Rightarrow> dev_ref \<Rightarrow> PedConstraint option" where
  "ped_device_get_optimal_aligned_constraint ops devs dev =
     ped_device_get_aligned_constraint devs dev (ped_device_get_optimum_alignment ops (devs dev))"

section \<open>Lemmas\<close>

lemma upd_dev_simps [simp]:
  "dev_tab (upd_dev d f st) = (dev_tab st)(d := f (dev_tab st d))" "devices (upd_dev d f st) = devices st"
  "next_dev (upd_dev d f st) = next_dev st" "platform (upd_dev d f st) = platform st"
  by (simp_all add: upd_dev_def)

lemma register_simps [simp]:
  "devices (device_register d st) = devices st @ [d]" "dev_tab (device_register d st) = dev_tab st"
  "next_dev (device_register d st) = next_dev st" "platform (device_register d st) = platform st"
  by (simp_all add: device_register_def)

lemma unregister_simps [simp]:
  "devices (device_unregister d st) = remove1 d (devices st)" "dev_tab (device_unregister d st) = dev_tab st"
  "next_dev (device_unregister d st) = next_dev st" "platform (device_unregister d st) = platform st"
  by (simp_all add: device_unregister_def)

text \<open>A constraint aligned at multiples of a grain: starts are aligned, ends lie just before.\<close>

lemma aligned_constraint_spec:
  assumes "0 < dev_length (devs dev)" "0 < grain"
  shows "\<exists>c. ped_device_get_aligned_constraint devs dev (ped_alignment_new 0 grain) = Some c \<and> constraint_wf c \<and>
    (\<forall>g. geom_wf g \<longrightarrow> (ped_constraint_is_solution c g \<longleftrightarrow>
       grain dvd g_start g \<and> grain dvd g_end g + 1 \<and> g_end g < dev_length (devs dev)))"
proof -
  let ?N = "dev_length (devs dev)"
  let ?m = "\<lparr>g_dev = dev, g_start = 0, g_length = ?N, g_end = ?N - 1\<rparr>"
  obtain sa where sa: "ped_alignment_new 0 grain = Some sa" "align_wf sa" "grain_size sa = grain"
      "\<And>s. aligned sa s \<longleftrightarrow> grain dvd s"
    using alignment_new_Some[of grain 0] assms(2) by auto
  obtain ea where ea: "ped_alignment_new (offset sa - 1) grain = Some ea" "align_wf ea"
      "\<And>s. aligned ea s \<longleftrightarrow> grain dvd s - (offset sa - 1)"
    using alignment_new_Some[of grain "offset sa - 1"] assms(2) by auto
  have "grain dvd offset sa" using sa(3) sa(4)[of 0] by (simp add: aligned_dvd)
  then have end_al: "aligned ea s \<longleftrightarrow> grain dvd s + 1" for s
    using ea(3)[of s] dvd_diff_right_iff[of grain "offset sa" "s + 1"]
    by (simp add: algebra_simps) (metis add.commute add_diff_eq dvd_add_right_iff diff_add_cancel)
  have m: "geom_wf ?m" using assms(1) by (simp add: geom_wf_def)
  have d: "ped_device_get_aligned_constraint devs dev (ped_alignment_new 0 grain) =
      ped_constraint_new (Some sa) (Some ea) ?m ?m 1 ?N"
    using assms(1) sa ea by (simp add: ped_device_get_aligned_constraint_def)
  from constraint_init_wf[OF sa(2) ea(2) m m refl zero_less_one, of ?N] obtain c where
    c: "ped_device_get_aligned_constraint devs dev (ped_alignment_new 0 grain) = Some c" "constraint_wf c"
    "\<And>g. ped_constraint_is_solution c g \<longleftrightarrow>
      solves sa ?m (g_start g) \<and> solves ea ?m (g_end g) \<and> 1 \<le> g_length g \<and> g_length g \<le> ?N"
    unfolding d by auto
  have "ped_constraint_is_solution c g \<longleftrightarrow>
      grain dvd g_start g \<and> grain dvd g_end g + 1 \<and> g_end g < ?N" if "geom_wf g" for g
    unfolding c(3) using that by (auto simp: sa(4) end_al geom_wf_def)
  with c show ?thesis by blast
qed

text \<open>
  The constraint for optimal alignment of a device whose sector size divides one mebibyte
  has exactly the regions of the device that start at a multiple of one mebibyte and end just
  before one.
\<close>
theorem optimal_alignment_is_one_mebibyte:
  assumes "op_get_optimum_alignment ops = None" and "0 < dev_length (devs dev)"
    and "0 < sector_size (devs dev)" "sector_size (devs dev) dvd 1024 * 1024" and "geom_wf g"
  shows "\<exists>c. ped_device_get_optimal_aligned_constraint ops devs dev = Some c \<and>
    (ped_constraint_is_solution c g \<longleftrightarrow>
       1024 * 1024 dvd g_start g * sector_size (devs dev) \<and>
       1024 * 1024 dvd (g_end g + 1) * sector_size (devs dev) \<and> g_end g < dev_length (devs dev))"
proof -
  let ?ss = "sector_size (devs dev)" and ?M = "1024 * 1024 :: int"
  let ?grain = "?M sdiv ?ss"
  have M: "?M = ?grain * ?ss" using sdiv_mult_exact[OF assms(4)] by simp
  have "0 < ?grain * ?ss" using M by simp
  then have "0 < ?grain" using assms(3) zero_less_mult_pos2 by blast
  from aligned_constraint_spec[where devs = devs and dev = dev, OF assms(2) this] obtain c where
    c: "ped_device_get_optimal_aligned_constraint ops devs dev = Some c"
      "ped_constraint_is_solution c g \<longleftrightarrow>
        ?grain dvd g_start g \<and> ?grain dvd g_end g + 1 \<and> g_end g < dev_length (devs dev)"
    using assms(1,5) by (auto simp: ped_device_get_optimal_aligned_constraint_def
        ped_device_get_optimum_alignment_def PED_DEFAULT_ALIGNMENT_def)
  moreover have "?grain dvd x \<longleftrightarrow> ?M dvd x * ?ss" for x
    using assms(3) by (subst M) simp
  ultimately show ?thesis by auto
qed

end
