(* ===== verification/Uefi.thy ===== *)
theory Uefi
  imports Device
begin

text \<open>
  Model of \<open>libparted/arch/uefi.c\<close>: block devices of the UEFI firmware. The firmware is a
  parameter: a record of the boot services and of the block I/O protocol the code calls,
  over a state of its own. \<open>block_device\<close> states what the UEFI specification promises
  about a working, writable device; it is a hypothesis of the theorems that need it.
\<close>

section \<open>The firmware\<close>

record EFI_BLOCK_IO_MEDIA =
  BlockSize :: int
  LastBlock :: int
  ReadOnly :: bool
  LogicalPartition :: bool
  MediaPresent :: bool

text \<open>
  \<open>device_path\<close> gives the texts of the suffixes of a handle's device path.
  \<open>ReadBlocks fw s h lba size buf\<close> returns the status and the new contents of the buffer.
\<close>

record 's firmware =
  LocateHandleBuffer :: "'s \<Rightarrow> nat list option"
  device_path :: "'s \<Rightarrow> nat \<Rightarrow> string list"
  HandleProtocol :: "'s \<Rightarrow> nat \<Rightarrow> EFI_BLOCK_IO_MEDIA option"
  ReadBlocks :: "'s \<Rightarrow> nat \<Rightarrow> int \<Rightarrow> nat \<Rightarrow> byte list \<Rightarrow> bool \<times> byte list"
  WriteBlocks :: "'s \<Rightarrow> nat \<Rightarrow> int \<Rightarrow> nat \<Rightarrow> byte list \<Rightarrow> bool \<times> 's"
  FlushBlocks :: "'s \<Rightarrow> nat \<Rightarrow> bool \<times> 's"

definition protocol_of :: "'s firmware \<Rightarrow> PedDevice \<Rightarrow> 's io_state \<Rightarrow> EFI_BLOCK_IO_MEDIA option" where
  "protocol_of fw dev st =
     (case arch_specific dev of None \<Rightarrow> None | Some h \<Rightarrow> HandleProtocol fw (platform st) h)"

section \<open>Detecting devices\<close>

definition device_get_sector_size :: "'s firmware \<Rightarrow> PedDevice \<Rightarrow> 's io_state \<Rightarrow> int" where
  "device_get_sector_size fw dev st =
     (case protocol_of fw dev st of None \<Rightarrow> - 1 | Some m \<Rightarrow> c_int (BlockSize m))"

definition device_get_length :: "'s firmware \<Rightarrow> PedDevice \<Rightarrow> 's io_state \<Rightarrow> PedSector" where
  "device_get_length fw dev st =
     (case protocol_of fw dev st of None \<Rightarrow> - 1 | Some m \<Rightarrow> LastBlock m + 1)"

text \<open>The status is not used by the only caller.\<close>

definition device_probe_geometry :: "'s firmware \<Rightarrow> 's io_state \<Rightarrow> PedDevice \<Rightarrow> bool \<times> PedDevice" where
  "device_probe_geometry fw st dev =
     (let dev = dev\<lparr>dev_length := device_get_length fw dev st\<rparr>
      in if dev_length dev = 0 then (False, dev)
      else let dev = dev\<lparr>sector_size := device_get_sector_size fw dev st\<rparr>
      in if sector_size dev = 0 then (False, dev)
      else let dev = dev\<lparr>phys_sector_size := sector_size dev\<rparr>;
               cyl_size = 63 * 255;
               bios = \<lparr>cylinders = c_int (dev_length dev sdiv cyl_size * (sector_size dev sdiv 512)),
                       heads = 255, sectors = 63\<rparr>
      in (True, dev\<lparr>bios_geom := bios, hw_geom := bios\<rparr>))"

text \<open>Fields that \<open>_init_device\<close> does not assign have indeterminate contents.\<close>

definition init_device :: "string \<Rightarrow> PedDevice" where
  "init_device path = (undefined :: PedDevice)\<lparr>dev_path := path, arch_specific := None,
     open_count := 0, read_only := False, external_mode := False\<rparr>"

definition find_from_path :: "'s firmware \<Rightarrow> string \<Rightarrow> 's io_state \<Rightarrow> nat option" where
  "find_from_path fw path st =
     (case LocateHandleBuffer fw (platform st) of
        None \<Rightarrow> None
      | Some allHandles \<Rightarrow> List.find (\<lambda>h. path \<in> set (device_path fw (platform st) h)) allHandles)"

definition uefi_new_from_handle ::
    "'s firmware \<Rightarrow> nat \<Rightarrow> string \<Rightarrow> 's io_state \<Rightarrow> dev_ref option \<times> 's io_state" where
  "uefi_new_from_handle fw handle path st =
     (case HandleProtocol fw (platform st) handle of
        None \<Rightarrow> (None, st)
      | Some media \<Rightarrow>
          let dev = (init_device path)\<lparr>arch_specific := Some handle, read_only := ReadOnly media\<rparr>;
              dev = snd (device_probe_geometry fw st dev);
              r = next_dev st
          in (Some r, st\<lparr>dev_tab := (dev_tab st)(r := dev\<lparr>dev_path := path\<rparr>), next_dev := r + 1\<rparr>))"

definition uefi_new :: "'s firmware \<Rightarrow> string \<Rightarrow> 's io_state \<Rightarrow> dev_ref option \<times> 's io_state" where
  "uefi_new fw path st =
     (case find_from_path fw path st of
        None \<Rightarrow> (None, st)
      | Some handle \<Rightarrow> uefi_new_from_handle fw handle path st)"

section \<open>The operations that do nothing\<close>

definition reread_part_table :: "dev_ref \<Rightarrow> 's io_state \<Rightarrow> bool" where
  "reread_part_table dev st = False"

definition uefi_destroy :: "dev_ref \<Rightarrow> 's io_state \<Rightarrow> 's io_state" where
  "uefi_destroy dev st = st"

definition uefi_is_busy :: "dev_ref \<Rightarrow> 's io_state \<Rightarrow> bool" where
  "uefi_is_busy dev st = False"

definition uefi_open :: "dev_ref \<Rightarrow> 's io_state \<Rightarrow> bool \<times> 's io_state" where
  "uefi_open dev st = (True, st)"

definition uefi_refresh_open :: "dev_ref \<Rightarrow> 's io_state \<Rightarrow> bool \<times> 's io_state" where
  "uefi_refresh_open dev st = (True, st)"

definition uefi_close :: "dev_ref \<Rightarrow> 's io_state \<Rightarrow> bool \<times> 's io_state" where
  "uefi_close dev st = (False, st)"

definition uefi_refresh_close :: "dev_ref \<Rightarrow> 's io_state \<Rightarrow> bool \<times> 's io_state" where
  "uefi_refresh_close dev st = (True, st)"

definition uefi_check :: "dev_ref \<Rightarrow> byte list \<Rightarrow> PedSector \<Rightarrow> PedSector \<Rightarrow> 's io_state \<Rightarrow> PedSector" where
  "uefi_check dev buffer start count st = 0"

definition uefi_disk_commit :: "dev_ref \<Rightarrow> 's io_state \<Rightarrow> bool" where
  "uefi_disk_commit dev st = reread_part_table dev st"

section \<open>Reading, writing and flushing\<close>

text \<open>\<open>(UINTN) count * BlockSize\<close>, a 64-bit product.\<close>

definition byte_size :: "PedSector \<Rightarrow> EFI_BLOCK_IO_MEDIA \<Rightarrow> nat" where
  "byte_size count m = nat (count * BlockSize m mod 2 ^ 64)"

definition uefi_read ::
    "'s firmware \<Rightarrow> dev_ref \<Rightarrow> byte list \<Rightarrow> PedSector \<Rightarrow> PedSector \<Rightarrow> 's io_state \<Rightarrow> bool \<times> byte list" where
  "uefi_read fw dev buffer start count st =
     (case protocol_of fw (dev_of st dev) st of
        None \<Rightarrow> (False, buffer)
      | Some m \<Rightarrow>
          (True, snd (ReadBlocks fw (platform st) (the (arch_specific (dev_of st dev))) start
                        (byte_size count m) buffer)))"

definition uefi_write ::
    "'s firmware \<Rightarrow> dev_ref \<Rightarrow> byte list \<Rightarrow> PedSector \<Rightarrow> PedSector \<Rightarrow> 's io_state \<Rightarrow> bool \<times> 's io_state" where
  "uefi_write fw dev buffer start count st =
     (case protocol_of fw (dev_of st dev) st of
        None \<Rightarrow> (False, st)
      | Some m \<Rightarrow>
          (True, st\<lparr>platform := snd (WriteBlocks fw (platform st) (the (arch_specific (dev_of st dev))) start
                        (byte_size count m) buffer)\<rparr>))"

definition uefi_sync :: "'s firmware \<Rightarrow> dev_ref \<Rightarrow> 's io_state \<Rightarrow> bool \<times> 's io_state" where
  "uefi_sync fw dev st =
     (case protocol_of fw (dev_of st dev) st of
        None \<Rightarrow> (False, st)
      | Some m \<Rightarrow>
          (True, st\<lparr>platform := snd (FlushBlocks fw (platform st) (the (arch_specific (dev_of st dev))))\<rparr>))"

section \<open>The table of operations\<close>

text \<open>\<open>uefi_probe_all\<close> calls back into \<open>device.c\<close>, which uses every entry but that one.\<close>

definition uefi_base_ops :: "'s firmware \<Rightarrow> 's PedDeviceArchOps" where
  "uefi_base_ops fw = \<lparr>op_new = uefi_new fw, op_destroy = uefi_destroy, op_is_busy = uefi_is_busy,
     op_open = uefi_open, op_refresh_open = uefi_refresh_open, op_close = uefi_close,
     op_refresh_close = uefi_refresh_close, op_read = uefi_read fw, op_write = uefi_write fw,
     op_sync = uefi_sync fw, op_sync_fast = uefi_sync fw, op_check = uefi_check,
     op_probe_all = id, op_get_minimum_alignment = None, op_get_optimum_alignment = None\<rparr>"

text \<open>The inner loop of \<open>uefi_probe_all\<close> over the nodes of one device path.\<close>

fun probe_nodes :: "'s firmware \<Rightarrow> nat \<Rightarrow> string list \<Rightarrow> 's io_state \<Rightarrow> 's io_state" where
  "probe_nodes fw h [] st = st"
| "probe_nodes fw h (p # ps) st =
     (case HandleProtocol fw (platform st) h of
        None \<Rightarrow> probe_nodes fw h ps st
      | Some m \<Rightarrow>
          if LogicalPartition m \<or> \<not> MediaPresent m then probe_nodes fw h ps st
          else ped_device_probe (uefi_base_ops fw) p st)"

definition uefi_probe_all :: "'s firmware \<Rightarrow> 's io_state \<Rightarrow> 's io_state" where
  "uefi_probe_all fw st =
     (case LocateHandleBuffer fw (platform st) of
        None \<Rightarrow> st
      | Some allHandles \<Rightarrow>
          fold (\<lambda>h st. probe_nodes fw h (device_path fw (platform st) h) st) allHandles st)"

definition uefi_dev_ops :: "'s firmware \<Rightarrow> 's PedDeviceArchOps" where
  "uefi_dev_ops fw = (uefi_base_ops fw)\<lparr>op_probe_all := uefi_probe_all fw\<rparr>"

lemma uefi_base_sel [simp]:
  "op_new (uefi_base_ops fw) = uefi_new fw"
  "op_destroy (uefi_base_ops fw) = uefi_destroy"
  "op_is_busy (uefi_base_ops fw) = uefi_is_busy"
  "op_open (uefi_base_ops fw) = uefi_open"
  "op_refresh_open (uefi_base_ops fw) = uefi_refresh_open"
  "op_close (uefi_base_ops fw) = uefi_close"
  "op_refresh_close (uefi_base_ops fw) = uefi_refresh_close"
  "op_read (uefi_base_ops fw) = uefi_read fw"
  "op_write (uefi_base_ops fw) = uefi_write fw"
  "op_sync (uefi_base_ops fw) = uefi_sync fw"
  "op_sync_fast (uefi_base_ops fw) = uefi_sync fw"
  "op_check (uefi_base_ops fw) = uefi_check"
  "op_get_minimum_alignment (uefi_base_ops fw) = None"
  "op_get_optimum_alignment (uefi_base_ops fw) = None"
  by (simp_all add: uefi_base_ops_def)

lemma uefi_sel [simp]:
  "op_new (uefi_dev_ops fw) = uefi_new fw"
  "op_destroy (uefi_dev_ops fw) = uefi_destroy"
  "op_is_busy (uefi_dev_ops fw) = uefi_is_busy"
  "op_open (uefi_dev_ops fw) = uefi_open"
  "op_refresh_open (uefi_dev_ops fw) = uefi_refresh_open"
  "op_close (uefi_dev_ops fw) = uefi_close"
  "op_refresh_close (uefi_dev_ops fw) = uefi_refresh_close"
  "op_read (uefi_dev_ops fw) = uefi_read fw"
  "op_write (uefi_dev_ops fw) = uefi_write fw"
  "op_sync (uefi_dev_ops fw) = uefi_sync fw"
  "op_sync_fast (uefi_dev_ops fw) = uefi_sync fw"
  "op_check (uefi_dev_ops fw) = uefi_check"
  "op_get_minimum_alignment (uefi_dev_ops fw) = None"
  "op_get_optimum_alignment (uefi_dev_ops fw) = None"
  "op_probe_all (uefi_dev_ops fw) = uefi_probe_all fw"
  by (simp_all add: uefi_dev_ops_def)

lemmas uefi_ops = uefi_open_def uefi_refresh_open_def uefi_close_def uefi_refresh_close_def
  uefi_destroy_def

section \<open>The device state machine\<close>

lemma open_eq:
  "ped_device_open (uefi_dev_ops fw) d st = (True, upd_dev d (open_count_update (\<lambda>n. n + 1)) st)"
  by (simp add: ped_device_open_def uefi_ops)

lemma close_eq:
  "ped_device_close (uefi_dev_ops fw) d st =
     (open_count (dev_of st d) \<noteq> 1, upd_dev d (open_count_update (\<lambda>n. n - 1)) st)"
  by (simp add: ped_device_close_def uefi_ops Let_def)

lemma upd_dev_idle: "f (dev_of st d) = dev_of st d \<Longrightarrow> upd_dev d f st = st"
  by (simp add: upd_dev_def)

lemma open_count_idle: "open_count_update (\<lambda>_. open_count dev) dev = (dev :: PedDevice)"
  by simp

text \<open>
  Closing an open device until it is closed ends: \<open>uefi_close\<close> fails on the last reference,
  which leaves the loop with the count at 0.
\<close>

lemma close_all_eq:
  "0 \<le> open_count (dev_of st d) \<Longrightarrow>
     close_all (uefi_dev_ops fw) d st = Some (upd_dev d (open_count_update (\<lambda>_. 0)) st)"
proof (induction "nat (open_count (dev_of st d))" arbitrary: st)
  case 0
  then have "open_count (dev_of st d) = 0" by simp
  moreover from this have "upd_dev d (open_count_update (\<lambda>_. 0)) st = st"
    using open_count_idle[of "dev_of st d"] by (simp add: upd_dev_idle)
  ultimately show ?case by (simp add: close_all.simps)
next
  case (Suc n)
  let ?st1 = "upd_dev d (open_count_update (\<lambda>n. n - 1)) st"
  have c: "open_count (dev_of st d) = int (Suc n)" using Suc by simp
  have up: "upd_dev d (open_count_update (\<lambda>_. 0)) ?st1 = upd_dev d (open_count_update (\<lambda>_. 0)) st"
    by (simp add: upd_dev_def comp_def)
  show ?case
  proof (cases "n = 0")
    case True
    then have "open_count_update (\<lambda>n. n - 1) (dev_of st d) = open_count_update (\<lambda>_. 0) (dev_of st d)"
      using c by (cases "dev_of st d") simp
    then have "?st1 = upd_dev d (open_count_update (\<lambda>_. 0)) st"
      by (simp add: upd_dev_def)
    then show ?thesis using c True by (simp add: close_all.simps[of _ d st] close_eq)
  next
    case False
    then have "close_all (uefi_dev_ops fw) d ?st1 = Some (upd_dev d (open_count_update (\<lambda>_. 0)) ?st1)"
      using c by (intro Suc.hyps(1)) simp_all
    then show ?thesis using c False up by (simp add: close_all.simps[of _ d st] close_eq)
  qed
qed

lemma destroy_eq:
  "0 \<le> open_count (dev_of st d) \<Longrightarrow> ped_device_destroy (uefi_dev_ops fw) d st =
     Some (upd_dev d (open_count_update (\<lambda>_. 0)) (device_unregister d st))"
  by (simp add: ped_device_destroy_def close_all_eq comp_def uefi_destroy_def)

text \<open>
  The invariant of the device list: no device twice, no path twice, all objects allocated, and
  no negative reference count.
\<close>

definition cache_inv :: "'s io_state \<Rightarrow> bool" where
  "cache_inv st \<longleftrightarrow> distinct (devices st) \<and> (\<forall>d \<in> set (devices st). d < next_dev st) \<and>
     inj_on (\<lambda>d. dev_path (dev_of st d)) (set (devices st)) \<and>
     (\<forall>d < next_dev st. 0 \<le> open_count (dev_of st d))"

lemma new_spec:
  assumes "uefi_new fw path st = (r, st')"
  shows "(r = None \<and> st' = st) \<or> (r = Some (next_dev st) \<and> (\<exists>dev. dev_path dev = path \<and> open_count dev = 0 \<and>
    st' = st\<lparr>dev_tab := (dev_tab st)(next_dev st := dev), next_dev := next_dev st + 1\<rparr>))"
proof -
  have keep: "open_count (snd (device_probe_geometry fw st d)) = open_count d" for d
    by (simp add: device_probe_geometry_def Let_def)
  let ?dev = "\<lambda>h m. snd (device_probe_geometry fw st
    ((init_device path)\<lparr>arch_specific := Some h, read_only := ReadOnly m\<rparr>)) \<lparr>dev_path := path\<rparr>"
  have "dev_path (?dev h m) = path" "open_count (?dev h m) = 0" for h m
    by (simp_all add: keep init_device_def)
  then have ex: "\<exists>dev. dev_path dev = path \<and> open_count dev = 0 \<and>
      (dev_tab st)(next_dev st := ?dev h m) = (dev_tab st)(next_dev st := dev)" for h m by blast
  show ?thesis
  proof (cases "find_from_path fw path st")
    case (Some h)
    show ?thesis
    proof (cases "HandleProtocol fw (platform st) h")
      case (Some m)
      then have "r = Some (next_dev st)"
        "st' = st\<lparr>dev_tab := (dev_tab st)(next_dev st := ?dev h m), next_dev := next_dev st + 1\<rparr>"
        using assms \<open>find_from_path fw path st = Some h\<close>
        by (simp_all add: uefi_new_def uefi_new_from_handle_def Let_def)
      then show ?thesis using ex[of m h] by auto
    qed (use assms Some in \<open>simp add: uefi_new_def uefi_new_from_handle_def\<close>)
  qed (use assms in \<open>simp add: uefi_new_def\<close>)
qed

lemma get_spec:
  assumes "cache_inv st" "ped_device_get (uefi_base_ops fw) path st = (r, st')"
  shows "cache_inv st' \<and> (case r of None \<Rightarrow> devices st' = devices st
    | Some d \<Rightarrow> d \<in> set (devices st') \<and> dev_path (dev_of st' d) = path)"
proof (cases "List.find (\<lambda>walk. dev_path (dev_of st walk) = path) (devices st)")
  case (Some w)
  then have "w \<in> set (devices st)" "dev_path (dev_of st w) = path"
    by (auto simp: find_Some_iff in_set_conv_nth)
  moreover have "r = Some w" "st' = st" using assms(2) Some by (simp_all add: ped_device_get_def)
  ultimately show ?thesis using assms(1) by simp
next
  case None
  then have new: "\<forall>d \<in> set (devices st). dev_path (dev_of st d) \<noteq> path"
    by (auto simp: find_None_iff)
  obtain r' st1 where n: "uefi_new fw path st = (r', st1)" by fastforce
  from new_spec[OF this] show ?thesis
  proof (elim disjE conjE exE)
    assume "r' = None" "st1 = st"
    then show ?thesis using assms None n by (auto simp: ped_device_get_def)
  next
    fix dev assume d: "r' = Some (next_dev st)" "dev_path dev = path" "open_count dev = 0"
      "st1 = st\<lparr>dev_tab := (dev_tab st)(next_dev st := dev), next_dev := next_dev st + 1\<rparr>"
    have "st' = device_register (next_dev st) st1" "r = Some (next_dev st)"
      using assms None n d(1) by (auto simp: ped_device_get_def)
    moreover have "next_dev st \<notin> set (devices st)" using assms(1) by (auto simp: cache_inv_def)
    ultimately show ?thesis
      using assms(1) new d(2-4) by (auto simp: cache_inv_def inj_on_def less_Suc_eq)
  qed
qed

lemma get_ops: "ped_device_get (uefi_dev_ops fw) = ped_device_get (uefi_base_ops fw)"
  by (simp add: fun_eq_iff ped_device_get_def split: option.split)

lemma probe_nodes_inv: "cache_inv st \<Longrightarrow> cache_inv (probe_nodes fw h ps st)"
proof (induction fw h ps st rule: probe_nodes.induct)
  case (2 fw h p ps st)
  have "cache_inv (ped_device_probe (uefi_base_ops fw) p st)"
    using get_spec[OF 2(3), of fw p] by (cases "ped_device_get (uefi_base_ops fw) p st") (auto simp: ped_device_probe_def)
  with 2 show ?case by (auto split: option.splits)
qed simp

lemma probe_all_inv: "cache_inv st \<Longrightarrow> cache_inv (uefi_probe_all fw st)"
  unfolding uefi_probe_all_def
  by (auto split: option.splits intro!: fold_keeps[where P = cache_inv] probe_nodes_inv)

text \<open>The calls of a client: a device is closed only when it is open, as the assertions ask.\<close>

inductive dev_step :: "'s firmware \<Rightarrow> 's io_state \<Rightarrow> 's io_state \<Rightarrow> bool" for fw where
  step_get: "dev_step fw st (snd (ped_device_get (uefi_dev_ops fw) path st))"
| step_probe: "dev_step fw st (ped_device_probe_all (uefi_dev_ops fw) st)"
| step_open: "dev_step fw st (snd (ped_device_open (uefi_dev_ops fw) d st))"
| step_close: "0 < open_count (dev_of st d) \<Longrightarrow> dev_step fw st (snd (ped_device_close (uefi_dev_ops fw) d st))"
| step_begin: "dev_step fw st (snd (ped_device_begin_external_access (uefi_dev_ops fw) d st))"
| step_end: "dev_step fw st (snd (ped_device_end_external_access (uefi_dev_ops fw) d st))"
| step_remove: "dev_step fw st (ped_device_cache_remove d st)"
| step_destroy: "d \<in> set (devices st) \<Longrightarrow> ped_device_destroy (uefi_dev_ops fw) d st = Some st' \<Longrightarrow> dev_step fw st st'"
| step_write: "dev_step fw st (snd (ped_device_write (uefi_dev_ops fw) d buf start count st))"
| step_sync: "dev_step fw st (snd (ped_device_sync (uefi_dev_ops fw) d st))"

inductive dev_reach :: "'s firmware \<Rightarrow> 's io_state \<Rightarrow> bool" for fw where
  reach_start: "devices st = [] \<Longrightarrow> next_dev st = 0 \<Longrightarrow> dev_reach fw st"
| reach_step: "dev_reach fw st \<Longrightarrow> dev_step fw st st' \<Longrightarrow> dev_reach fw st'"

lemma upd_dev_inv:
  assumes "cache_inv st" and "dev_path (f (dev_of st d)) = dev_path (dev_of st d)"
    and "0 \<le> open_count (dev_of st d) \<Longrightarrow> 0 \<le> open_count (f (dev_of st d))"
  shows "cache_inv (upd_dev d f st)"
proof -
  have "(\<lambda>w. dev_path (dev_of (upd_dev d f st) w)) = (\<lambda>w. dev_path (dev_of st w))"
    using assms(2) by (simp add: fun_eq_iff)
  then show ?thesis using assms(1,3) by (simp add: cache_inv_def)
qed

lemma platform_inv [simp]: "cache_inv (st\<lparr>platform := p\<rparr>) \<longleftrightarrow> cache_inv st"
  by (simp add: cache_inv_def)

lemma unregister_inv: "cache_inv st \<Longrightarrow> cache_inv (device_unregister d st)"
  by (auto simp: cache_inv_def inj_on_def set_remove1_eq dest: notin_set_remove1)

lemma dev_step_inv: "dev_step fw st st' \<Longrightarrow> cache_inv st \<Longrightarrow> cache_inv st'"
proof (induction rule: dev_step.induct)
  case (step_get st path)
  then show ?case
    using get_spec[of st fw path] by (cases "ped_device_get (uefi_base_ops fw) path st") (auto simp: get_ops)
next
  case (step_probe st)
  then show ?case by (simp add: ped_device_probe_all_def uefi_dev_ops_def probe_all_inv)
next
  case (step_destroy d st st')
  then have "0 \<le> open_count (dev_of st d)" by (auto simp: cache_inv_def)
  with step_destroy have "st' = upd_dev d (open_count_update (\<lambda>_. 0)) (device_unregister d st)"
    by (simp add: destroy_eq)
  then show ?case using unregister_inv[OF step_destroy(3), of d] by (simp add: upd_dev_inv)
next
  case (step_write st d buf start count)
  then show ?case
    by (auto simp: ped_device_write_def uefi_ops uefi_write_def split: option.splits)
next
  case (step_sync st d)
  then show ?case
    by (auto simp: ped_device_sync_def uefi_ops uefi_sync_def split: option.splits)
next
  case (step_close st d)
  then show ?case by (simp add: close_eq upd_dev_inv)
qed (simp_all add: open_eq upd_dev_inv unregister_inv ped_device_cache_remove_def
    ped_device_begin_external_access_def ped_device_end_external_access_def uefi_ops Let_def)

lemma dev_reach_inv: "dev_reach fw st \<Longrightarrow> cache_inv st"
  by (induction rule: dev_reach.induct) (auto simp: dev_step_inv, simp add: cache_inv_def)

section \<open>What the specification promises of a working device\<close>

text \<open>
  A working device \<open>h\<close> of \<open>n\<close> blocks of \<open>bs\<close> bytes, whose contents in a firmware state \<open>s\<close> are
  \<open>blk s\<close>: a read inside the device succeeds and returns the blocks, a write inside it
  succeeds and replaces exactly the blocks written, a flush changes nothing that is read.
\<close>

definition block_device :: "'s firmware \<Rightarrow> nat \<Rightarrow> int \<Rightarrow> nat \<Rightarrow> ('s \<Rightarrow> int \<Rightarrow> byte list) \<Rightarrow> bool" where
  "block_device fw h n bs blk \<longleftrightarrow>
     0 < bs \<and> n < 2 ^ 32 \<and> bs \<le> 4096 \<and>
     (\<forall>s. \<exists>m. HandleProtocol fw s h = Some m \<and> BlockSize m = int bs \<and> LastBlock m + 1 = n) \<and>
     (\<forall>s l. 0 \<le> l \<longrightarrow> l < n \<longrightarrow> length (blk s l) = bs) \<and>
     (\<forall>s l k buf. 0 \<le> l \<longrightarrow> l + int k \<le> n \<longrightarrow> k * bs \<le> length buf \<longrightarrow>
        ReadBlocks fw s h l (k * bs) buf =
          (True, concat (map (\<lambda>i. blk s (l + int i)) [0..<k]) @ drop (k * bs) buf)) \<and>
     (\<forall>s l k buf. 0 \<le> l \<longrightarrow> l + int k \<le> n \<longrightarrow> k * bs \<le> length buf \<longrightarrow>
        (\<exists>s'. WriteBlocks fw s h l (k * bs) buf = (True, s') \<and>
          (\<forall>j. blk s' j = (if l \<le> j \<and> j < l + int k then take bs (drop (nat (j - l) * bs) buf) else blk s j)))) \<and>
     (\<forall>s. blk (snd (FlushBlocks fw s h)) = blk s)"

text \<open>A device in memory, the instance of the witnesses.\<close>

type_synonym ram = "nat \<Rightarrow> byte list"

definition ram_blk :: "nat \<Rightarrow> ram \<Rightarrow> int \<Rightarrow> byte list" where
  "ram_blk bs s l = (if 0 \<le> l then take bs (s (nat l) @ replicate bs 0) else [])"

definition ram_fw :: "nat \<Rightarrow> nat \<Rightarrow> ram firmware" where
  "ram_fw n bs = \<lparr>LocateHandleBuffer = \<lambda>s. Some [0],
     device_path = \<lambda>s h. [''PciRoot(0x0)/Pci(0x1,0x0)'', ''Pci(0x1,0x0)''],
     HandleProtocol = \<lambda>s h. if h = 0 then Some \<lparr>BlockSize = int bs, LastBlock = int n - 1, ReadOnly = False,
       LogicalPartition = False, MediaPresent = True\<rparr> else None,
     ReadBlocks = \<lambda>s h lba size buf.
       if 0 \<le> lba \<and> nat lba * bs + size \<le> n * bs
       then (True, concat (map (\<lambda>i. ram_blk bs s (lba + int i)) [0..<size div bs]) @ drop size buf) else (False, buf),
     WriteBlocks = \<lambda>s h lba size buf.
       if 0 \<le> lba \<and> nat lba * bs + size \<le> n * bs
       then (True, \<lambda>j. if nat lba \<le> j \<and> j < nat lba + size div bs
                       then take bs (drop ((j - nat lba) * bs) buf) else s j)
       else (False, s),
     FlushBlocks = \<lambda>s h. (True, s)\<rparr>"

lemma ram_device:
  assumes "0 < bs" "bs \<le> 4096" "n < 2 ^ 32"
  shows "block_device (ram_fw n bs) 0 (int n) bs (ram_blk bs)"
  unfolding block_device_def
proof (intro conjI allI impI)
  fix s :: ram and l :: int and k :: nat and buf :: "byte list"
  assume l: "0 \<le> l" "l + int k \<le> int n" "k * bs \<le> length buf"
  have "nat l + k \<le> n" using l by simp
  then have "(nat l + k) * bs \<le> n * bs" by simp
  then have r: "nat l * bs + k * bs \<le> n * bs" by (simp add: distrib_right)
  then show "ReadBlocks (ram_fw n bs) s 0 l (k * bs) buf =
      (True, concat (map (\<lambda>i. ram_blk bs s (l + int i)) [0..<k]) @ drop (k * bs) buf)"
    using l assms by (simp add: ram_fw_def)
  have slice: "bs \<le> length buf - i * bs" if "i < k" for i
  proof -
    have "Suc i * bs \<le> k * bs" using that by (intro mult_right_mono) simp_all
    then show ?thesis using l(3) by simp
  qed
  have sliced: "bs \<le> length buf - (nat j - nat l) * bs" if "l \<le> j" "j < l + int k" for j
    using slice[of "nat j - nat l"] that l(1) by simp
  let ?s = "\<lambda>j. if nat l \<le> j \<and> j < nat l + k then take bs (drop ((j - nat l) * bs) buf) else s j"
  have "WriteBlocks (ram_fw n bs) s 0 l (k * bs) buf = (True, ?s)"
    using l assms r by (simp add: ram_fw_def)
  moreover have "ram_blk bs ?s j =
      (if l \<le> j \<and> j < l + int k then take bs (drop (nat (j - l) * bs) buf) else ram_blk bs s j)" for j
    using l(1) sliced[of j] by (auto simp: ram_blk_def nat_diff_distrib)
  ultimately show "\<exists>s'. WriteBlocks (ram_fw n bs) s 0 l (k * bs) buf = (True, s') \<and>
      (\<forall>j. ram_blk bs s' j =
        (if l \<le> j \<and> j < l + int k then take bs (drop (nat (j - l) * bs) buf) else ram_blk bs s j))"
    by blast
qed (use assms in \<open>auto simp: ram_fw_def ram_blk_def\<close>)

definition start_state :: "'s \<Rightarrow> 's io_state" where
  "start_state s = \<lparr>devices = [], dev_tab = (\<lambda>_. undefined), next_dev = 0, platform = s\<rparr>"

lemma ram_get:
  assumes "0 < n"
  shows "\<exists>st. ped_device_get (uefi_dev_ops (ram_fw n 512)) ''Pci(0x1,0x0)'' (start_state s) = (Some 0, st) \<and>
    devices st = [0] \<and> platform st = s \<and> dev_length (dev_of st 0) = int n \<and> sector_size (dev_of st 0) = 512 \<and>
    arch_specific (dev_of st 0) = Some 0 \<and> open_count (dev_of st 0) = 0"
  using assms
  by (simp add: ped_device_get_def start_state_def uefi_new_def find_from_path_def ram_fw_def
      uefi_new_from_handle_def device_probe_geometry_def device_get_length_def device_get_sector_size_def
      protocol_of_def init_device_def Let_def c_int_id)

section \<open>Properties of the device list\<close>

lemma find_unique:
  "inj_on f (set xs) \<Longrightarrow> d \<in> set xs \<Longrightarrow> List.find (\<lambda>w. f w = f d) xs = Some d"
proof (induction xs)
  case (Cons a xs)
  then show ?case by (cases "f a = f d") (auto dest: inj_onD)
qed simp



text \<open>
  \<open>ped_device_free_all\<close> returns in every reachable state, with no device left in the list and
  every device that was listed closed, although \<open>uefi_close\<close> always reports failure.
\<close>
theorem free_all_returns:
  assumes "dev_reach fw st"
  shows "\<exists>st'. ped_device_free_all (uefi_dev_ops fw) st = Some st' \<and> devices st' = [] \<and>
    (\<forall>d \<in> set (devices st). open_count (dev_of st' d) = 0)"
proof -
  have "cache_inv st \<Longrightarrow> \<exists>st'. ped_device_free_all (uefi_dev_ops fw) st = Some st' \<and> devices st' = [] \<and>
    (\<forall>d \<in> set (devices st). open_count (dev_of st' d) = 0) \<and>
    (\<forall>d. open_count (dev_of st d) = 0 \<longrightarrow> open_count (dev_of st' d) = 0)"
  proof (induction "devices st" arbitrary: st)
    case Nil
    then show ?case by (simp add: ped_device_free_all.simps[of _ st])
  next
    case (Cons d ds)
    let ?st1 = "upd_dev d (open_count_update (\<lambda>_. 0)) (device_unregister d st)"
    have l: "devices st = d # ds" using Cons(2) by simp
    have "0 \<le> open_count (dev_of st d)" using Cons(3) l by (auto simp: cache_inv_def)
    then have step: "ped_device_free_all (uefi_dev_ops fw) st = ped_device_free_all (uefi_dev_ops fw) ?st1"
      by (simp add: ped_device_free_all.simps[of _ st] l destroy_eq)
    have "cache_inv ?st1" by (intro upd_dev_inv unregister_inv Cons(3)) simp_all
    moreover have "devices ?st1 = ds" using l by simp
    ultimately obtain st' where "ped_device_free_all (uefi_dev_ops fw) ?st1 = Some st'" "devices st' = []"
      "\<forall>w \<in> set ds. open_count (dev_of st' w) = 0"
      "\<forall>w. open_count (dev_of ?st1 w) = 0 \<longrightarrow> open_count (dev_of st' w) = 0"
      using Cons(1)[of ?st1] by auto
    then show ?case using l unfolding step by (intro exI[of _ st']) auto
  qed
  then show ?thesis using dev_reach_inv[OF assms] by blast
qed

theorem free_all_returns_witness:
  "\<exists>st st'. ped_device_get (uefi_dev_ops (ram_fw 100 512)) ''Pci(0x1,0x0)'' (start_state (\<lambda>_. [])) = (Some 0, st) \<and>
     ped_device_free_all (uefi_dev_ops (ram_fw 100 512)) (snd (ped_device_open (uefi_dev_ops (ram_fw 100 512)) 0 st))
       = Some st' \<and> devices st' = []"
proof -
  let ?fw = "ram_fw 100 512"
  obtain st where st: "ped_device_get (uefi_dev_ops ?fw) ''Pci(0x1,0x0)'' (start_state (\<lambda>_. [])) = (Some 0, st)"
    using ram_get[of 100 "\<lambda>_. []"] by auto
  have "dev_reach ?fw (start_state (\<lambda>_. []))"
    by (rule reach_start) (simp_all add: start_state_def)
  then have "dev_reach ?fw st" using step_get[of ?fw "start_state (\<lambda>_. [])"] st by (metis reach_step snd_conv)
  then have "dev_reach ?fw (snd (ped_device_open (uefi_dev_ops ?fw) 0 st))" by (rule reach_step[OF _ step_open])
  from free_all_returns[OF this] st show ?thesis by blast
qed

text \<open>
  \<open>uefi_read\<close> and \<open>uefi_write\<close> report success whenever the handle still carries the block
  I/O protocol, whatever the firmware answers to the transfer; and the commit hook of the
  architecture fails always.
\<close>
theorem uefi_io_reports_success:
  "(fst (uefi_read fw dev buffer start count st) \<longleftrightarrow> protocol_of fw (dev_of st dev) st \<noteq> None) \<and>
   (fst (uefi_write fw dev buffer start count st) \<longleftrightarrow> protocol_of fw (dev_of st dev) st \<noteq> None) \<and>
   (fst (uefi_sync fw dev st) \<longleftrightarrow> protocol_of fw (dev_of st dev) st \<noteq> None) \<and>
   \<not> uefi_disk_commit dev st"
  by (auto simp: uefi_read_def uefi_write_def uefi_sync_def uefi_disk_commit_def reread_part_table_def
      split: option.splits)

theorem optimal_alignment_is_one_mebibyte_witness:
  "\<exists>c. ped_device_get_optimal_aligned_constraint (uefi_dev_ops (ram_fw 10000 512)) (\<lambda>_. demo_dev) 0 = Some c \<and>
     ped_constraint_is_solution c \<lparr>g_dev = 0, g_start = 2048, g_length = 4096, g_end = 6143\<rparr>"
  using optimal_alignment_is_one_mebibyte[where ops = "uefi_dev_ops (ram_fw 10000 512)" and devs = "\<lambda>_. demo_dev"
      and dev = 0 and g = "\<lparr>g_dev = 0, g_start = 2048, g_length = 4096, g_end = 6143\<rparr>"]
  by (auto simp: demo_dev_def geom_wf_def)

end
