(* ===== verification/Sector_IO.thy ===== *)
theory Sector_IO
  imports Uefi
begin

text \<open>
  Reading and writing regions of a device (\<open>libparted/cs/geom.c\<close>) and whole sectors for the
  labels (\<open>labels/pt-tools.c\<close>). \<open>working_device\<close> is the contract of the architecture's
  operations that these and the labels rely on; theory \<open>Uefi\<close> provides it on every
  firmware that keeps the UEFI specification. Allocation does not fail; a fresh buffer has
  indeterminate contents.
\<close>

section \<open>The contract of the sector operations\<close>

abbreviation sectors_of :: "('s io_state \<Rightarrow> int \<Rightarrow> byte list) \<Rightarrow> 's io_state \<Rightarrow> int \<Rightarrow> int \<Rightarrow> byte list" where
  "sectors_of img st start count \<equiv> concat (map (img st) [start..start + count - 1])"

definition in_device :: "'s io_state \<Rightarrow> dev_ref \<Rightarrow> PedSector \<Rightarrow> PedSector \<Rightarrow> bool" where
  "in_device st dev start count \<longleftrightarrow> 0 \<le> start \<and> 0 \<le> count \<and> start + count \<le> dev_length (dev_of st dev)"

definition sector_bytes :: "'s io_state \<Rightarrow> dev_ref \<Rightarrow> PedSector \<Rightarrow> nat" where
  "sector_bytes st dev count = nat (count * sector_size (dev_of st dev))"

definition slice :: "nat \<Rightarrow> byte list \<Rightarrow> nat \<Rightarrow> byte list" where
  "slice bs buf i = take bs (drop (i * bs) buf)"

text \<open>The sectors of a medium after \<open>count\<close> of them were replaced from a buffer.\<close>

definition written :: "nat \<Rightarrow> (int \<Rightarrow> byte list) \<Rightarrow> int \<Rightarrow> int \<Rightarrow> byte list \<Rightarrow> int \<Rightarrow> byte list" where
  "written bs old start count buf j =
     (if start \<le> j \<and> j < start + count then slice bs buf (nat (j - start)) else old j)"

definition working_device ::
    "'s PedDeviceArchOps \<Rightarrow> dev_ref \<Rightarrow> ('s io_state \<Rightarrow> int \<Rightarrow> byte list) \<Rightarrow> 's io_state \<Rightarrow> bool" where
  "working_device ops dev img st \<longleftrightarrow>
     0 < sector_size (dev_of st dev) \<and> sector_size (dev_of st dev) \<le> 4096 \<and>
     (\<forall>p l. in_device st dev l 1 \<longrightarrow> length (img (st\<lparr>platform := p\<rparr>) l) = sector_bytes st dev 1) \<and>
     (\<forall>p buf start count. in_device st dev start count \<longrightarrow> sector_bytes st dev count \<le> length buf \<longrightarrow>
        ped_device_read ops dev buf start count (st\<lparr>platform := p\<rparr>) =
          (True, sectors_of img (st\<lparr>platform := p\<rparr>) start count @ drop (sector_bytes st dev count) buf)) \<and>
     (\<forall>p buf start count. in_device st dev start count \<longrightarrow> sector_bytes st dev count \<le> length buf \<longrightarrow>
        (\<exists>q. ped_device_write ops dev buf start count (st\<lparr>platform := p\<rparr>) = (True, st\<lparr>platform := q\<rparr>) \<and>
          img (st\<lparr>platform := q\<rparr>) = written (sector_bytes st dev 1) (img (st\<lparr>platform := p\<rparr>)) start count buf)) \<and>
     (\<forall>p. \<exists>q. ped_device_sync ops dev (st\<lparr>platform := p\<rparr>) = (True, st\<lparr>platform := q\<rparr>) \<and>
          img (st\<lparr>platform := q\<rparr>) = img (st\<lparr>platform := p\<rparr>))"

lemma platform_simps [simp]:
  "in_device (st\<lparr>platform := p\<rparr>) = in_device st" "sector_bytes (st\<lparr>platform := p\<rparr>) = sector_bytes st"
  by (simp_all add: in_device_def sector_bytes_def fun_eq_iff)

lemma working_device_platform [simp]:
  "working_device ops dev img (st\<lparr>platform := p\<rparr>) \<longleftrightarrow> working_device ops dev img st"
  by (simp add: working_device_def)

lemma platform_idle [simp]: "st\<lparr>platform := platform st\<rparr> = st"
  by simp

lemma working_read:
  assumes "working_device ops dev img st" "in_device st dev start count" "sector_bytes st dev count \<le> length buf"
  shows "ped_device_read ops dev buf start count st =
    (True, sectors_of img st start count @ drop (sector_bytes st dev count) buf)"
proof -
  have "ped_device_read ops dev buf start count (st\<lparr>platform := platform st\<rparr>) =
    (True, sectors_of img (st\<lparr>platform := platform st\<rparr>) start count @ drop (sector_bytes st dev count) buf)"
    using assms unfolding working_device_def by blast
  then show ?thesis by simp
qed

lemma working_write:
  assumes "working_device ops dev img st" "in_device st dev start count" "sector_bytes st dev count \<le> length buf"
  obtains q where "ped_device_write ops dev buf start count st = (True, st\<lparr>platform := q\<rparr>)"
    "img (st\<lparr>platform := q\<rparr>) = written (sector_bytes st dev 1) (img st) start count buf"
proof -
  have "\<exists>q. ped_device_write ops dev buf start count (st\<lparr>platform := platform st\<rparr>) = (True, st\<lparr>platform := q\<rparr>) \<and>
    img (st\<lparr>platform := q\<rparr>) = written (sector_bytes st dev 1) (img (st\<lparr>platform := platform st\<rparr>)) start count buf"
    using assms unfolding working_device_def by blast
  then show ?thesis using that by auto
qed

text \<open>Writing one sector.\<close>

lemma sector_written:
  assumes "working_device ops dev img st" "in_device st dev s 1" "length buf = sector_bytes st dev 1"
  obtains q where "ped_device_write ops dev buf s 1 st = (True, st\<lparr>platform := q\<rparr>)"
    "img (st\<lparr>platform := q\<rparr>) = (img st)(s := buf)"
proof -
  obtain q where q: "ped_device_write ops dev buf s 1 st = (True, st\<lparr>platform := q\<rparr>)"
    "img (st\<lparr>platform := q\<rparr>) = written (sector_bytes st dev 1) (img st) s 1 buf"
    using working_write[OF assms(1,2), of buf] assms(3) by auto
  have "written (sector_bytes st dev 1) (img st) s 1 buf j = ((img st)(s := buf)) j" for j
    using assms(3) by (simp add: written_def slice_def)
  then show ?thesis using that q by (simp add: fun_eq_iff)
qed

lemma working_length:
  assumes "working_device ops dev img st" "in_device st dev l 1"
  shows "length (img st l) = sector_bytes st dev 1"
proof -
  have "length (img (st\<lparr>platform := platform st\<rparr>) l) = sector_bytes st dev 1"
    using assms unfolding working_device_def by blast
  then show ?thesis by simp
qed

section \<open>The UEFI architecture keeps the contract\<close>

lemma upto_as_upt: "[start..start + int k - 1] = map (\<lambda>i. start + int i) [0..<k]"
proof (induction k)
  case (Suc k)
  have "[start..start + int (Suc k) - 1] = [start..start + int k - 1] @ [start + int k]"
    using upto_rec2[of start "start + int k"] by simp
  with Suc show ?case by simp
qed simp

lemma uefi_working:
  assumes "block_device fw h n bs blk" and "arch_specific (dev_of st dev) = Some h"
    and "dev_length (dev_of st dev) = n" and "sector_size (dev_of st dev) = int bs"
  shows "working_device (uefi_dev_ops fw) dev (\<lambda>st. blk (platform st)) st"
proof -
  have bs: "0 < bs" "bs \<le> 4096" "n < 2 ^ 32" using assms(1) by (simp_all add: block_device_def)
  have size: "sector_bytes st dev (int k) = k * bs" for k
    using assms(4) by (simp add: sector_bytes_def nat_mult_distrib)
  have proto: "\<exists>m. protocol_of fw (dev_of st dev) (st\<lparr>platform := p\<rparr>) = Some m \<and> BlockSize m = int bs" for p
    using assms(1,2) unfolding block_device_def protocol_of_def by (metis (no_types, lifting) io_state.select_convs(4) io_state.surjective io_state.update_convs(4) option.simps(5))
  have bytes: "byte_size (int k) m = k * bs" if "int k \<le> n" "BlockSize m = int bs" for k m
  proof -
    have "int k * int bs < 2 ^ 32 * 4097" using that(1) bs by (intro mult_strict_mono') auto
    then show ?thesis by (simp add: byte_size_def that(2) nat_mult_distrib)
  qed
  show ?thesis
    unfolding working_device_def
  proof (intro conjI allI impI)
    fix p and buf :: "byte list" and start count
    assume "in_device st dev start count" "sector_bytes st dev count \<le> length buf"
    then obtain k where k: "count = int k" "0 \<le> start" "start + int k \<le> n" "k * bs \<le> length buf"
      using assms(3) size by (auto simp: in_device_def) (metis nonneg_int_cases)
    then have kn: "int k \<le> n" by simp
    obtain m where m: "protocol_of fw (dev_of st dev) (st\<lparr>platform := p\<rparr>) = Some m" "BlockSize m = int bs"
      using proto by blast
    show "ped_device_read (uefi_dev_ops fw) dev buf start count (st\<lparr>platform := p\<rparr>) =
      (True, concat (map (blk (platform (st\<lparr>platform := p\<rparr>))) [start..start + count - 1])
         @ drop (sector_bytes st dev count) buf)"
      using assms(1,2) m k bytes[OF kn m(2)] size[of k]
      by (simp add: ped_device_read_def uefi_read_def block_device_def upto_as_upt comp_def)
    obtain s' where s': "WriteBlocks fw p h start (k * bs) buf = (True, s')"
      "\<And>j. blk s' j = (if start \<le> j \<and> j < start + int k then take bs (drop (nat (j - start) * bs) buf) else blk p j)"
      using assms(1) k unfolding block_device_def by metis
    have "ped_device_write (uefi_dev_ops fw) dev buf start count (st\<lparr>platform := p\<rparr>) = (True, st\<lparr>platform := s'\<rparr>)"
      using assms(2) m k bytes[OF kn m(2)] s'(1) by (simp add: ped_device_write_def uefi_write_def)
    moreover have "blk s' = written (sector_bytes st dev 1) (blk p) start count buf"
      using size[of 1] k(1) by (simp add: fun_eq_iff s'(2) written_def slice_def)
    ultimately show "\<exists>q. ped_device_write (uefi_dev_ops fw) dev buf start count (st\<lparr>platform := p\<rparr>) = (True, st\<lparr>platform := q\<rparr>) \<and>
      blk (platform (st\<lparr>platform := q\<rparr>)) =
        written (sector_bytes st dev 1) (blk (platform (st\<lparr>platform := p\<rparr>))) start count buf"
      by auto
  next
    fix p
    obtain m where m: "protocol_of fw (dev_of st dev) (st\<lparr>platform := p\<rparr>) = Some m"
      using proto by blast
    have "blk (snd (FlushBlocks fw p h)) = blk p" using assms(1) by (simp add: block_device_def)
    then show "\<exists>q. ped_device_sync (uefi_dev_ops fw) dev (st\<lparr>platform := p\<rparr>) = (True, st\<lparr>platform := q\<rparr>) \<and>
          blk (platform (st\<lparr>platform := q\<rparr>)) = blk (platform (st\<lparr>platform := p\<rparr>))"
      using m assms(2) by (simp add: ped_device_sync_def uefi_sync_def) blast
  next
    fix p l assume "in_device st dev l 1"
    then show "length (blk (platform (st\<lparr>platform := p\<rparr>)) l) = sector_bytes st dev 1"
      using assms(1,3) size[of 1] by (simp add: block_device_def in_device_def)
  qed (use bs assms(4) in simp_all)
qed

section \<open>Reading and writing regions\<close>

definition ped_geometry_read ::
    "'s PedDeviceArchOps \<Rightarrow> PedGeometry \<Rightarrow> byte list \<Rightarrow> PedSector \<Rightarrow> PedSector \<Rightarrow> 's io_state \<Rightarrow> bool \<times> byte list" where
  "ped_geometry_read ops geom buffer off count st =
     (let real_start = g_start geom + off
      in if real_start + count - 1 > g_end geom then (False, buffer)
         else ped_device_read ops (g_dev geom) buffer real_start count st)"

definition uninit_buffer :: "nat \<Rightarrow> byte list" where
  "uninit_buffer n = replicate n undefined"

definition ped_geometry_read_alloc ::
    "'s PedDeviceArchOps \<Rightarrow> PedGeometry \<Rightarrow> PedSector \<Rightarrow> PedSector \<Rightarrow> 's io_state \<Rightarrow> byte list option" where
  "ped_geometry_read_alloc ops geom off count st =
     (let (ok, buf) = ped_geometry_read ops geom
            (uninit_buffer (nat (count * sector_size (dev_of st (g_dev geom))))) off count st
      in if ok then Some buf else None)"

definition ped_geometry_sync :: "'s PedDeviceArchOps \<Rightarrow> PedGeometry \<Rightarrow> 's io_state \<Rightarrow> bool \<times> 's io_state" where
  "ped_geometry_sync ops geom st = ped_device_sync ops (g_dev geom) st"

definition ped_geometry_sync_fast :: "'s PedDeviceArchOps \<Rightarrow> PedGeometry \<Rightarrow> 's io_state \<Rightarrow> bool \<times> 's io_state" where
  "ped_geometry_sync_fast ops geom st = ped_device_sync_fast ops (g_dev geom) st"

definition ped_geometry_write ::
    "PedExceptionHandler \<Rightarrow> 's PedDeviceArchOps \<Rightarrow> PedGeometry \<Rightarrow> byte list \<Rightarrow> PedSector \<Rightarrow> PedSector \<Rightarrow>
     's io_state \<Rightarrow> bool \<times> 's io_state" where
  "ped_geometry_write ask ops geom buffer off count st =
     (let real_start = g_start geom + off
      in if real_start + count - 1 > g_end geom
         then (ask (error_ignore_cancel ''Attempt to write sectors %ld-%ld outside of partition on %s.''
                 [AInt off, AInt (off + count - 1), AStr (dev_path (dev_of st (g_dev geom)))])
               = PED_EXCEPTION_IGNORE, st)
         else ped_device_write ops (g_dev geom) buffer real_start count st)"

text \<open>
  \<open>ped_geometry_check\<close>, less the calls of its timer: reading in groups until one fails, then
  in granules inside that group, and all over again when no granule fails. Neither loop need
  end (a \<open>buffer_size\<close> or \<open>granularity\<close> of 0), and a group that always fails while its granules
  do not makes the code retry for ever.
\<close>

partial_function (option) check_groups ::
    "(PedSector \<Rightarrow> PedSector \<Rightarrow> bool) \<Rightarrow> PedSector \<Rightarrow> PedSector \<Rightarrow> PedSector \<Rightarrow> PedSector option option" where
  "check_groups rd buffer_size endd grp =
     (if grp < endd
      then if rd grp (min buffer_size (endd - grp))
           then check_groups rd buffer_size endd (grp + buffer_size) else Some (Some grp)
      else Some None)"

partial_function (option) check_granules ::
    "(PedSector \<Rightarrow> PedSector \<Rightarrow> bool) \<Rightarrow> PedSector \<Rightarrow> PedSector \<Rightarrow> PedSector \<Rightarrow> PedSector option option" where
  "check_granules rd granularity endd i =
     (if i + granularity < endd
      then if rd i granularity then check_granules rd granularity endd (i + granularity) else Some (Some i)
      else Some None)"

partial_function (option) ped_geometry_check ::
    "'s PedDeviceArchOps \<Rightarrow> PedGeometry \<Rightarrow> byte list \<Rightarrow> PedSector \<Rightarrow> PedSector \<Rightarrow> PedSector \<Rightarrow> PedSector \<Rightarrow>
     's io_state \<Rightarrow> PedSector option" where
  "ped_geometry_check ops geom buffer buffer_size off granularity count st =
     (let rd = \<lambda>s n. fst (ped_geometry_read ops geom buffer s n st)
      in case check_groups rd buffer_size (off + count) off of
           None \<Rightarrow> None
         | Some None \<Rightarrow> Some 0
         | Some (Some grp) \<Rightarrow>
             (case check_granules rd granularity (grp + count) grp of
                None \<Rightarrow> None
              | Some (Some i) \<Rightarrow> Some i
              | Some None \<Rightarrow> ped_geometry_check ops geom buffer buffer_size off granularity count st))"

section \<open>Whole sectors for the labels\<close>

text \<open>
  The buffer argument of \<open>ptt_write_sector\<close> is its first \<open>buflen\<close> bytes; a longer one than a
  sector would overrun the copy.
\<close>

definition ptt_write_sector ::
    "'s PedDeviceArchOps \<Rightarrow> dev_ref \<Rightarrow> byte list \<Rightarrow> 's io_state \<Rightarrow> bool \<times> 's io_state" where
  "ptt_write_sector ops dev buf st =
     (let s0 = buf @ replicate (nat (sector_size (dev_of st dev)) - length buf) 0
      in ped_device_write ops dev s0 0 1 st)"

definition ptt_read_sectors ::
    "'s PedDeviceArchOps \<Rightarrow> dev_ref \<Rightarrow> PedSector \<Rightarrow> PedSector \<Rightarrow> 's io_state \<Rightarrow> byte list option" where
  "ptt_read_sectors ops dev start_sector n_sectors st =
     (let (ok, b) = ped_device_read ops dev
            (uninit_buffer (nat (n_sectors * sector_size (dev_of st dev)))) start_sector n_sectors st
      in if ok then Some b else None)"

definition ptt_read_sector ::
    "'s PedDeviceArchOps \<Rightarrow> dev_ref \<Rightarrow> PedSector \<Rightarrow> 's io_state \<Rightarrow> byte list option" where
  "ptt_read_sector ops dev sector_num st = ptt_read_sectors ops dev sector_num 1 st"

definition zero_buffer :: "byte list" where
  "zero_buffer = replicate (16 * 1024) 0"

definition ptt_clear_sectors ::
    "'s PedDeviceArchOps \<Rightarrow> dev_ref \<Rightarrow> PedSector \<Rightarrow> PedSector \<Rightarrow> 's io_state \<Rightarrow> bool \<times> 's io_state" where
  "ptt_clear_sectors ops dev start n st =
     (let n_z_sectors = 16 * 1024 sdiv sector_size (dev_of st dev);
          n_full = n sdiv n_z_sectors;
          (ok, st1) = while_ok (\<lambda>i. ped_device_write ops dev zero_buffer (start + n_z_sectors * i) n_z_sectors)
                        [0..n_full - 1] st
      in if \<not> ok then (False, st1)
         else let i = max n_full 0; rm = n - n_z_sectors * i
         in if rm = 0 then (True, st1)
            else ped_device_write ops dev zero_buffer (start + n_z_sectors * i) rm st1)"

definition ptt_geom_clear_sectors ::
    "'s PedDeviceArchOps \<Rightarrow> PedGeometry \<Rightarrow> PedSector \<Rightarrow> PedSector \<Rightarrow> 's io_state \<Rightarrow> bool \<times> 's io_state" where
  "ptt_geom_clear_sectors ops geom start n st = ptt_clear_sectors ops (g_dev geom) (g_start geom + start) n st"

section \<open>Lemmas\<close>

lemma sectors_written:
  assumes "length buf = nat count * bs"
  shows "concat (map (written bs old start count buf) [start..start + count - 1]) = buf"
proof -
  have "concat (map (slice bs buf) [0..<k]) = take (k * bs) buf" for k
  proof (induction k)
    case (Suc k)
    have "take (Suc k * bs) buf = take (k * bs) buf @ slice bs buf k"
      by (simp only: slice_def take_add[symmetric]) (simp add: add.commute)
    with Suc show ?case by simp
  qed simp
  moreover have "map (written bs old start (int k) buf) [start..start + int k - 1] = map (slice bs buf) [0..<k]" for k
    by (simp add: upto_as_upt written_def)
  ultimately have "concat (map (written bs old start (int k) buf) [start..start + int k - 1]) = take (k * bs) buf" for k
    by simp
  from this[of "nat count"] show ?thesis using assms by (cases "0 \<le> count") simp_all
qed

lemma sector_bytes_mult:
  "0 \<le> count \<Longrightarrow> 0 < sector_size (dev_of st dev) \<Longrightarrow> sector_bytes st dev count = nat count * sector_bytes st dev 1"
  by (simp add: sector_bytes_def nat_mult_distrib)

text \<open>
  A successful write to a region of a device that keeps its contract is read back unchanged
  by the next read of the same sectors, and touches no other sector of the device; a write
  that ends behind the region transfers nothing.
\<close>
theorem geometry_write_then_read:
  assumes "working_device ops (g_dev geom) img st" and "geom_on_dev (dev_tab st) geom"
    and "0 \<le> off" "0 < count" and "length buf = sector_bytes st (g_dev geom) count"
    and "length old = sector_bytes st (g_dev geom) count"
  shows "case ped_geometry_write ask ops geom buf off count st of (ok, st') \<Rightarrow>
    if off + count \<le> g_length geom
    then ok \<and> ped_geometry_read ops geom old off count st' = (True, buf) \<and>
      (\<forall>j. j < g_start geom + off \<or> g_start geom + off + count \<le> j \<longrightarrow> img st' j = img st j)
    else st' = st"
proof (cases "off + count \<le> g_length geom")
  case True
  let ?s = "g_start geom + off" and ?d = "g_dev geom"
  have g: "?s + count - 1 \<le> g_end geom" "in_device st ?d ?s count"
    using assms(2,3,4) True by (auto simp: geom_on_dev_def geom_wf_def in_device_def)
  obtain q where q: "ped_device_write ops ?d buf ?s count st = (True, st\<lparr>platform := q\<rparr>)"
    "img (st\<lparr>platform := q\<rparr>) = written (sector_bytes st ?d 1) (img st) ?s count buf"
    using working_write[OF assms(1) g(2), of buf] assms(5) by auto
  have "sector_bytes st ?d count = nat count * sector_bytes st ?d 1"
    using assms(1,4) sector_bytes_mult[of count st ?d] by (simp add: working_device_def)
  then have "ped_device_read ops ?d old ?s count (st\<lparr>platform := q\<rparr>) = (True, buf)"
    using working_read[of ops ?d img "st\<lparr>platform := q\<rparr>" ?s count old] assms(1,5,6) g(2) q(2)
      sectors_written[of buf count "sector_bytes st ?d 1"] by simp
  then show ?thesis
    using q g(1) True by (auto simp: ped_geometry_write_def ped_geometry_read_def written_def)
next
  case False
  then show ?thesis
    using assms(2) by (auto simp: ped_geometry_write_def Let_def geom_on_dev_def geom_wf_def)
qed

text \<open>The device in memory as the first device of a state.\<close>

definition ram_state :: "nat \<Rightarrow> nat \<Rightarrow> ram \<Rightarrow> ram io_state" where
  "ram_state n bs s = \<lparr>devices = [0],
     dev_tab = (\<lambda>_. \<lparr>dev_path = ''Pci(0x1,0x0)'', sector_size = int bs, phys_sector_size = int bs,
        dev_length = int n, open_count = 1, read_only = False, external_mode = False,
        bios_geom = \<lparr>cylinders = 0, heads = 255, sectors = 63\<rparr>,
        hw_geom = \<lparr>cylinders = 0, heads = 255, sectors = 63\<rparr>, arch_specific = Some 0\<rparr>),
     next_dev = 1, platform = s\<rparr>"

lemma ram_working:
  assumes "0 < bs" "bs \<le> 4096" "n < 2 ^ 32"
  shows "working_device (uefi_dev_ops (ram_fw n bs)) 0 (\<lambda>st. ram_blk bs (platform st)) (ram_state n bs s)"
  using uefi_working[OF ram_device[OF assms], of "ram_state n bs s" 0] by (simp add: ram_state_def)

theorem geometry_write_then_read_witness:
  "let ops = uefi_dev_ops (ram_fw 100 512); geom = \<lparr>g_dev = 0, g_start = 10, g_length = 20, g_end = 29\<rparr>;
       (ok, st') = ped_geometry_write (\<lambda>_. PED_EXCEPTION_CANCEL) ops geom (replicate 1024 7) 3 2 (ram_state 100 512 (\<lambda>_. []))
   in ok \<and> ped_geometry_read ops geom (replicate 1024 0) 3 2 st' = (True, replicate 1024 7)"
proof -
  let ?g = "\<lparr>g_dev = 0, g_start = 10, g_length = 20, g_end = 29\<rparr>"
  have "geom_on_dev (dev_tab (ram_state 100 512 (\<lambda>_. []))) ?g"
    by (simp add: ram_state_def geom_on_dev_def geom_wf_def)
  moreover have "sector_bytes (ram_state 100 512 (\<lambda>_. [])) 0 2 = 1024"
    by (simp add: sector_bytes_def ram_state_def)
  ultimately show ?thesis
    using geometry_write_then_read[of "uefi_dev_ops (ram_fw 100 512)" ?g "\<lambda>st. ram_blk 512 (platform st)"
        "ram_state 100 512 (\<lambda>_. [])" 3 2 "replicate 1024 7" "replicate 1024 0" "\<lambda>_. PED_EXCEPTION_CANCEL"]
      ram_working[of 512 100 "\<lambda>_. []"]
    by (auto simp: Let_def split: prod.splits)
qed

section \<open>Sectors of a working device\<close>

lemma read_sectors_eq:
  assumes "working_device ops dev img st" "in_device st dev start n"
  shows "ptt_read_sectors ops dev start n st = Some (sectors_of img st start n)"
proof -
  let ?b = "uninit_buffer (nat (n * sector_size (dev_of st dev)))"
  have "length ?b = sector_bytes st dev n" by (simp add: uninit_buffer_def sector_bytes_def)
  then show ?thesis
    using working_read[OF assms, of ?b] by (simp add: ptt_read_sectors_def)
qed

lemma read_sector_eq:
  assumes "working_device ops dev img st" "in_device st dev j 1"
  shows "ptt_read_sector ops dev j st = Some (img st j)"
  using read_sectors_eq[OF assms] by (simp add: ptt_read_sector_def)

lemma device_read_eq:
  assumes "working_device ops dev img st" "in_device st dev start n" "length buf = sector_bytes st dev n"
  shows "ped_device_read ops dev buf start n st = (True, sectors_of img st start n)"
  using working_read[OF assms(1,2), of buf] assms(3) by simp

lemma device_write_ex:
  assumes "working_device ops dev img st" "in_device st dev start n" "length buf = sector_bytes st dev n"
  shows "\<exists>q. ped_device_write ops dev buf start n (st\<lparr>platform := p\<rparr>) = (True, st\<lparr>platform := q\<rparr>) \<and>
    img (st\<lparr>platform := q\<rparr>) = written (sector_bytes st dev 1) (img (st\<lparr>platform := p\<rparr>)) start n buf"
proof -
  have w: "working_device ops dev img (st\<lparr>platform := p\<rparr>)" "in_device (st\<lparr>platform := p\<rparr>) dev start n"
    "sector_bytes (st\<lparr>platform := p\<rparr>) dev n \<le> length buf"
    using assms by simp_all
  show ?thesis by (rule working_write[OF w]) auto
qed

lemma written_out: "j < s \<or> s + n \<le> j \<Longrightarrow> written bs old s n buf j = old j"
  by (auto simp: written_def)

lemma written_one: "length buf = bs \<Longrightarrow> written bs old s 1 buf s = buf"
  by (simp add: written_def slice_def)

lemma sectors_cong:
  "(\<And>j. s \<le> j \<Longrightarrow> j < s + n \<Longrightarrow> f j = g j) \<Longrightarrow> concat (map f [s..s + n - 1]) = concat (map g [s..s + n - 1])"
  by (rule arg_cong[where f = concat]) (auto intro: map_cong)

lemma geometry_read_working:
  assumes "working_device ops (g_dev geom) img st" "in_device st (g_dev geom) (g_start geom + off) n"
    and "g_start geom + off + n - 1 \<le> g_end geom" "length buf = sector_bytes st (g_dev geom) n"
  shows "ped_geometry_read ops geom buf off n st = (True, sectors_of img st (g_start geom + off) n)"
  using working_read[OF assms(1,2), of buf] assms(3,4) by (simp add: ped_geometry_read_def Let_def)

section \<open>Clearing sectors\<close>

lemma while_ok_append:
  "while_ok f (xs @ ys) s = (case while_ok f xs s of (ok, s') \<Rightarrow> if ok then while_ok f ys s' else (False, s'))"
  by (induction xs arbitrary: s) (auto split: prod.split)

definition cleared :: "nat \<Rightarrow> (int \<Rightarrow> byte list) \<Rightarrow> int \<Rightarrow> int \<Rightarrow> int \<Rightarrow> byte list" where
  "cleared bs old start n j = (if start \<le> j \<and> j < start + n then replicate bs 0 else old j)"

lemma written_zero:
  assumes "nat n * bs \<le> 16 * 1024"
  shows "written bs old start n zero_buffer = cleared bs old start n"
proof -
  have "slice bs zero_buffer (nat (j - start)) = replicate bs 0" if "start \<le> j" "j < start + n" for j
  proof -
    have "Suc (nat (j - start)) * bs \<le> nat n * bs" using that by (intro mult_right_mono) simp_all
    then have "bs \<le> 16 * 1024 - nat (j - start) * bs" using assms by simp
    then show ?thesis by (simp add: slice_def zero_buffer_def)
  qed
  then show ?thesis by (auto simp: written_def cleared_def)
qed

lemma cleared_cleared: "0 \<le> m \<Longrightarrow> 0 \<le> n \<Longrightarrow> cleared bs (cleared bs old start m) (start + m) n = cleared bs old start (m + n)"
  by (auto simp: cleared_def fun_eq_iff)

lemma clear_step:
  assumes "working_device ops dev img st" "in_device st dev start n" "nat n * sector_bytes st dev 1 \<le> 16 * 1024"
  obtains q where "ped_device_write ops dev zero_buffer start n st = (True, st\<lparr>platform := q\<rparr>)"
    "img (st\<lparr>platform := q\<rparr>) = cleared (sector_bytes st dev 1) (img st) start n"
proof -
  have "sector_bytes st dev n \<le> length zero_buffer"
    using assms sector_bytes_mult[of n st dev] by (simp add: zero_buffer_def working_device_def in_device_def)
  then show thesis using working_write[OF assms(1,2)] written_zero[OF assms(3)] that by metis
qed

lemma clear_loop:
  assumes w: "working_device ops dev img st" and z: "0 \<le> z" "nat z * sector_bytes st dev 1 \<le> 16 * 1024"
    and "in_device st dev start (z * int k)"
  shows "\<exists>q. while_ok (\<lambda>i. ped_device_write ops dev zero_buffer (start + z * i) z) [0..int k - 1] st
      = (True, st\<lparr>platform := q\<rparr>) \<and>
    img (st\<lparr>platform := q\<rparr>) = cleared (sector_bytes st dev 1) (img st) start (z * int k)"
  using assms(4)
proof (induction k)
  case 0
  have "cleared bs old start 0 = old" for bs old by (rule ext) (auto simp: cleared_def)
  then show ?case by (intro exI[of _ "platform st"]) simp
next
  case (Suc k)
  have "in_device st dev start (z * int k)" "in_device st dev (start + z * int k) z"
    using Suc.prems z(1) by (auto simp: in_device_def algebra_simps)
  with Suc.IH obtain q where q:
    "while_ok (\<lambda>i. ped_device_write ops dev zero_buffer (start + z * i) z) [0..int k - 1] st = (True, st\<lparr>platform := q\<rparr>)"
    "img (st\<lparr>platform := q\<rparr>) = cleared (sector_bytes st dev 1) (img st) start (z * int k)" by blast
  obtain q' where "ped_device_write ops dev zero_buffer (start + z * int k) z (st\<lparr>platform := q\<rparr>) = (True, st\<lparr>platform := q'\<rparr>)"
    "img (st\<lparr>platform := q'\<rparr>) = cleared (sector_bytes st dev 1) (img (st\<lparr>platform := q\<rparr>)) (start + z * int k) z"
    using clear_step[of ops dev img "st\<lparr>platform := q\<rparr>" "start + z * int k" z] w z
      \<open>in_device st dev (start + z * int k) z\<close> by auto
  moreover have "[0..int (Suc k) - 1] = [0..int k - 1] @ [int k]"
    using upto_rec2[of 0 "int k"] by simp
  ultimately show ?case
    using q z(1) by (auto simp: while_ok_append cleared_cleared algebra_simps)
qed

lemma clear_sectors:
  assumes w: "working_device ops dev img st" and i: "in_device st dev start n"
  shows "\<exists>q. ptt_clear_sectors ops dev start n st = (True, st\<lparr>platform := q\<rparr>) \<and>
    img (st\<lparr>platform := q\<rparr>) = (\<lambda>j. if start \<le> j \<and> j < start + n
      then replicate (nat (sector_size (dev_of st dev))) 0 else img st j)"
proof -
  let ?ss = "sector_size (dev_of st dev)"
  define z where "z = 16384 sdiv ?ss"
  have ss: "0 < ?ss" "?ss \<le> 4096" using w by (simp_all add: working_device_def)
  then have zd: "z = 16384 div ?ss" by (simp add: z_def sdiv_nonneg_eq)
  have b1: "sector_bytes st dev 1 = nat ?ss" by (simp add: sector_bytes_def)
  have z: "0 < z" using ss unfolding zd by (simp add: pos_imp_zdiv_pos_iff)
  have zs: "nat z * nat ?ss \<le> 16 * 1024"
  proof -
    have "z * ?ss \<le> 16 * 1024" 
      unfolding zd using ss(1) div_mult_mod_eq[of 16384 ?ss] pos_mod_sign[of ?ss 16384] by linarith
    then show ?thesis using z ss by (simp flip: nat_mult_distrib)
  qed
  have n: "0 \<le> n" "n sdiv z = n div z" using i z by (simp_all add: in_device_def sdiv_nonneg_eq)
  then obtain k where k: "n div z = int k" using z nonneg_int_cases pos_imp_zdiv_nonneg_iff by metis
  define r where "r = n - z * int k"
  have r: "0 \<le> r" "r \<le> z" "z * int k + r = n"
    using z k by (simp_all add: r_def minus_mult_div_eq_mod order_less_imp_le flip: k)
  have "in_device st dev start (z * int k)" "in_device st dev (start + z * int k) r"
    using i r z by (auto simp: in_device_def)
  then obtain q where q:
    "while_ok (\<lambda>i. ped_device_write ops dev zero_buffer (start + z * i) z) [0..int k - 1] st = (True, st\<lparr>platform := q\<rparr>)"
    "img (st\<lparr>platform := q\<rparr>) = cleared (nat ?ss) (img st) start (z * int k)"
    using clear_loop[OF w, of z start k] z zs b1 by auto
  show ?thesis
  proof (cases "r = 0")
    case True
    then show ?thesis
      using q r k n by (intro exI[of _ q]) (simp add: ptt_clear_sectors_def Let_def r_def cleared_def fun_eq_iff flip: z_def)
  next
    case False
    have "nat r * nat ?ss \<le> nat z * nat ?ss" using r(2) by (intro mult_right_mono) simp_all
    then have rs: "nat r * nat ?ss \<le> 16 * 1024" using zs by linarith
    obtain q' where q': "ped_device_write ops dev zero_buffer (start + z * int k) r (st\<lparr>platform := q\<rparr>) = (True, st\<lparr>platform := q'\<rparr>)"
      "img (st\<lparr>platform := q'\<rparr>) = cleared (nat ?ss) (img (st\<lparr>platform := q\<rparr>)) (start + z * int k) r"
      using clear_step[of ops dev img "st\<lparr>platform := q\<rparr>" "start + z * int k" r] w rs b1
        \<open>in_device st dev (start + z * int k) r\<close>
      by auto
    have "cleared (nat ?ss) (cleared (nat ?ss) (img st) start (z * int k)) (start + z * int k) r = cleared (nat ?ss) (img st) start n"
      using cleared_cleared[of "z * int k" r] r z by simp
    then have "img (st\<lparr>platform := q'\<rparr>) = cleared (nat ?ss) (img st) start n" using q(2) q'(2) by simp
    moreover have "ptt_clear_sectors ops dev start n st = (True, st\<lparr>platform := q'\<rparr>)"
      using q(1) q'(1) r k n False by (simp add: ptt_clear_sectors_def Let_def r_def flip: z_def)
    ultimately show ?thesis by (intro exI[of _ q']) (simp add: cleared_def fun_eq_iff)
  qed
qed

text \<open>
  \<open>ptt_clear_sectors\<close> zeroes exactly the sectors asked for, whatever their number: the loop
  over the static 16 KiB of zeros and the remainder neither miss nor exceed one.
\<close>
theorem clear_sectors_exact:
  assumes w: "working_device ops dev img st" and i: "in_device st dev start n"
  shows "\<exists>q. ptt_clear_sectors ops dev start n st = (True, st\<lparr>platform := q\<rparr>) \<and>
    img (st\<lparr>platform := q\<rparr>) = (\<lambda>j. if start \<le> j \<and> j < start + n
      then replicate (nat (sector_size (dev_of st dev))) 0 else img st j)"
  by (rule clear_sectors[OF assms])

theorem clear_sectors_exact_witness:
  "\<exists>q. ptt_clear_sectors (uefi_dev_ops (ram_fw 100 512)) 0 3 70 (ram_state 100 512 (\<lambda>_. replicate 512 1))
      = (True, (ram_state 100 512 (\<lambda>_. replicate 512 1))\<lparr>platform := q\<rparr>) \<and>
     ram_blk 512 q 72 = replicate 512 0 \<and> ram_blk 512 q 73 = replicate 512 1"
proof -
  let ?st = "ram_state 100 512 (\<lambda>_. replicate 512 1)"
  have "in_device ?st 0 3 70" by (simp add: in_device_def ram_state_def)
  from clear_sectors_exact[OF ram_working this] obtain q where
    q: "ptt_clear_sectors (uefi_dev_ops (ram_fw 100 512)) 0 3 70 ?st = (True, ?st\<lparr>platform := q\<rparr>)"
    "ram_blk 512 q = (\<lambda>j. if 3 \<le> j \<and> j < 3 + 70 then replicate (nat (sector_size (dev_of ?st 0))) 0
       else ram_blk 512 (platform ?st) j)"
    by auto
  then show ?thesis by (intro exI[of _ q]) (simp add: ram_state_def ram_blk_def)
qed

end
