(* ===== verification/Disk_IO.thy ===== *)
theory Disk_IO
  imports Disk Sector_IO
begin

text \<open>
  The part of \<open>libparted/disk.c\<close> that reads and writes devices: the registry of label types,
  probing, clobbering and committing. A label type appears here with its name and its probe
  function; the function that writes a label, and the commit hook of the architecture, are
  arguments. Exceptions thrown while probing are caught by the code and leave no trace.
\<close>

section \<open>The registry of label types\<close>

record 's PedDiskType =
  dt_name :: string
  dt_probe :: "dev_ref \<Rightarrow> 's io_state \<Rightarrow> bool"

definition tolower :: "char \<Rightarrow> char" where
  "tolower c = (let n = of_char c :: nat in if 65 \<le> n \<and> n \<le> 90 then char_of (n + 32) else c)"

definition strcasecmp_eq :: "string \<Rightarrow> string \<Rightarrow> bool" where
  "strcasecmp_eq a b \<longleftrightarrow> map tolower a = map tolower b"

definition ped_disk_type_register :: "'s PedDiskType \<Rightarrow> 's PedDiskType list \<Rightarrow> 's PedDiskType list" where
  "ped_disk_type_register t types = t # types"

text \<open>Label types are told apart by their names, as the pointers of the code are.\<close>

fun ped_disk_type_unregister :: "string \<Rightarrow> 's PedDiskType list \<Rightarrow> 's PedDiskType list" where
  "ped_disk_type_unregister n [] = []"
| "ped_disk_type_unregister n (w # ws) = (if dt_name w = n then ws else w # ped_disk_type_unregister n ws)"

fun ped_disk_type_get_next :: "string option \<Rightarrow> 's PedDiskType list \<Rightarrow> 's PedDiskType option" where
  "ped_disk_type_get_next None [] = None"
| "ped_disk_type_get_next None (w # ws) = Some w"
| "ped_disk_type_get_next (Some n) (w # ws) =
     (if dt_name w = n then ped_disk_type_get_next None ws else ped_disk_type_get_next (Some n) ws)"
| "ped_disk_type_get_next (Some n) [] = None"

definition ped_disk_type_get :: "string \<Rightarrow> 's PedDiskType list \<Rightarrow> 's PedDiskType option" where
  "ped_disk_type_get name types = List.find (\<lambda>walk. strcasecmp_eq (dt_name walk) name) types"

definition find_disk_type :: "string \<Rightarrow> 's PedDiskType list \<Rightarrow> 's PedDiskType option" where
  "find_disk_type name types = List.find (\<lambda>t. dt_name t = name) types"

section \<open>Probing\<close>

definition ped_disk_probe ::
    "'s PedDeviceArchOps \<Rightarrow> 's PedDiskType list \<Rightarrow> dev_ref \<Rightarrow> 's io_state \<Rightarrow>
     's PedDiskType option \<times> 's io_state" where
  "ped_disk_probe ops types dev st =
     (case ped_device_open ops dev st of
        (False, st1) \<Rightarrow> (None, st1)
      | (True, st1) \<Rightarrow>
          (List.find (\<lambda>walk. dt_probe walk dev st1) types, snd (ped_device_close ops dev st1)))"

text \<open>
  \<open>ped_disk_new\<close>, with the label type's \<open>ped_disk_new_fresh\<close> and \<open>read\<close> as the functions
  \<open>fresh\<close> and \<open>rd\<close>; the clobber flag of the table read is cleared by \<open>rd\<close>'s caller.
\<close>

definition ped_disk_new ::
    "'s PedDeviceArchOps \<Rightarrow> 's PedDiskType list \<Rightarrow> (string \<Rightarrow> dev_ref \<Rightarrow> 's io_state \<Rightarrow> ('x, 'y) PedDisk option) \<Rightarrow>
     (string \<Rightarrow> ('x, 'y) PedDisk \<Rightarrow> 's io_state \<Rightarrow> bool \<times> ('x, 'y) PedDisk \<times> 's io_state) \<Rightarrow>
     dev_ref \<Rightarrow> 's io_state \<Rightarrow> ('x, 'y) PedDisk result \<times> 's io_state" where
  "ped_disk_new ops types fresh rd dev st =
     (case ped_device_open ops dev st of
        (False, st1) \<Rightarrow> (Inl None, st1)
      | (True, st1) \<Rightarrow>
     (case ped_disk_probe ops types dev st1 of
        (None, st2) \<Rightarrow>
          (Inl (Some (error_cancel ''%s: unrecognised disk label'' [AStr (dev_path (dev_of st2 dev))])),
           snd (ped_device_close ops dev st2))
      | (Some type, st2) \<Rightarrow>
     (case fresh (dt_name type) dev st2 of
        None \<Rightarrow> (Inl None, snd (ped_device_close ops dev st2))
      | Some disk \<Rightarrow>
     (case rd (dt_name type) disk st2 of
        (False, disk', st3) \<Rightarrow> (Inl None, snd (ped_device_close ops dev st3))
      | (True, disk', st3) \<Rightarrow> (Inr (disk'\<lparr>needs_clobber := False\<rparr>), snd (ped_device_close ops dev st3))))))"

section \<open>Clobbering\<close>

definition ped_disk_clobber ::
    "'s PedDeviceArchOps \<Rightarrow> 's PedDiskType list \<Rightarrow> dev_ref \<Rightarrow> 's io_state \<Rightarrow> bool \<times> 's io_state" where
  "ped_disk_clobber ops types dev st =
     (case ped_device_open ops dev st of
        (False, st1) \<Rightarrow> (False, st1)
      | (True, st1) \<Rightarrow>
          let is_gpt = dt_probe (the (find_disk_type ''gpt'' types)) dev st1;
              first_sector = (if is_gpt then 1 else 0);
              len = dev_length (dev_of st1 dev);
              n_sectors = 9 * 1024 sdiv sector_size (dev_of st1 dev) + 1;
              n = (if len < first_sector + n_sectors then len - first_sector else n_sectors)
          in case ptt_clear_sectors ops dev first_sector n st1 of
               (False, st2) \<Rightarrow> (False, snd (ped_device_close ops dev st2))
             | (True, st2) \<Rightarrow>
                 let t = len - (if n_sectors < len then n_sectors else 1);
                     t = (if t < first_sector then first_sector else t)
                 in case ptt_clear_sectors ops dev t (len - t) st2 of
                      (False, st3) \<Rightarrow> (False, snd (ped_device_close ops dev st3))
                    | (True, st3) \<Rightarrow> (True, snd (ped_device_close ops dev st3)))"

section \<open>Committing\<close>

text \<open>
  A label type without \<open>write\<close> is the argument \<open>None\<close>; its exception says that the library
  has no write support.
\<close>

definition ped_disk_commit_to_dev ::
    "'s PedDeviceArchOps \<Rightarrow> 's PedDiskType list \<Rightarrow>
     (('x, 'y) PedDisk \<Rightarrow> 's io_state \<Rightarrow> bool \<times> 's io_state) option \<Rightarrow>
     ('x, 'y) PedDisk \<Rightarrow> 's io_state \<Rightarrow> bool \<times> ('x, 'y) PedDisk \<times> 's io_state" where
  "ped_disk_commit_to_dev ops types write d st =
     (case write of
        None \<Rightarrow> (False, d, st)
      | Some wr \<Rightarrow>
     (case ped_device_open ops (d_dev d) st of
        (False, st1) \<Rightarrow> (False, d, st1)
      | (True, st1) \<Rightarrow>
          let (ok, d1, st2) =
                (if needs_clobber d
                 then (case ped_disk_clobber ops types (d_dev d) st1 of
                         (False, s) \<Rightarrow> (False, d, s)
                       | (True, s) \<Rightarrow> (True, d\<lparr>needs_clobber := False\<rparr>, s))
                 else (True, d, st1))
          in if \<not> ok then (False, d1, snd (ped_device_close ops (d_dev d) st2))
             else case wr d1 st2 of (ok, st3) \<Rightarrow> (ok, d1, snd (ped_device_close ops (d_dev d) st3))))"

definition ped_disk_commit_to_os ::
    "'s PedDeviceArchOps \<Rightarrow> (dev_ref \<Rightarrow> 's io_state \<Rightarrow> bool) \<Rightarrow>
     ('x, 'y) PedDisk \<Rightarrow> 's io_state \<Rightarrow> bool \<times> 's io_state" where
  "ped_disk_commit_to_os ops disk_commit d st =
     (case ped_device_open ops (d_dev d) st of
        (False, st1) \<Rightarrow> (False, st1)
      | (True, st1) \<Rightarrow> (disk_commit (d_dev d) st1, snd (ped_device_close ops (d_dev d) st1)))"

definition ped_disk_commit ::
    "'s PedDeviceArchOps \<Rightarrow> 's PedDiskType list \<Rightarrow>
     (('x, 'y) PedDisk \<Rightarrow> 's io_state \<Rightarrow> bool \<times> 's io_state) option \<Rightarrow> (dev_ref \<Rightarrow> 's io_state \<Rightarrow> bool) \<Rightarrow>
     ('x, 'y) PedDisk \<Rightarrow> 's io_state \<Rightarrow> bool \<times> ('x, 'y) PedDisk \<times> 's io_state" where
  "ped_disk_commit ops types write disk_commit d st =
     (case ped_device_open ops (d_dev d) st of
        (False, st1) \<Rightarrow> (False, d, st1)
      | (True, st1) \<Rightarrow>
     (case ped_disk_commit_to_dev ops types write d st1 of
        (False, d1, st2) \<Rightarrow> (False, d1, snd (ped_device_close ops (d_dev d) st2))
      | (True, d1, st2) \<Rightarrow>
     (case ped_disk_commit_to_os ops disk_commit d1 st2 of
        (ok, st3) \<Rightarrow> (ok, d1, snd (ped_device_close ops (d_dev d) st3)))))"

section \<open>Properties\<close>

text \<open>A device of the firmware in a state of the library.\<close>

definition uefi_device ::
    "'s firmware \<Rightarrow> nat \<Rightarrow> int \<Rightarrow> nat \<Rightarrow> ('s \<Rightarrow> int \<Rightarrow> byte list) \<Rightarrow> dev_ref \<Rightarrow> 's io_state \<Rightarrow> bool" where
  "uefi_device fw h n bs blk dev st \<longleftrightarrow> block_device fw h n bs blk \<and>
     arch_specific (dev_of st dev) = Some h \<and> dev_length (dev_of st dev) = n \<and>
     sector_size (dev_of st dev) = int bs"

lemma uefi_device_working:
  "uefi_device fw h n bs blk dev st \<Longrightarrow> working_device (uefi_dev_ops fw) dev (\<lambda>st. blk (platform st)) st"
  unfolding uefi_device_def using uefi_working by blast

lemma uefi_device_upd [simp]:
  "uefi_device fw h n bs blk dev (upd_dev w (open_count_update f) st) \<longleftrightarrow> uefi_device fw h n bs blk dev st"
  "uefi_device fw h n bs blk dev (st\<lparr>platform := q\<rparr>) \<longleftrightarrow> uefi_device fw h n bs blk dev st"
  by (simp_all add: uefi_device_def)

lemma uefi_clear:
  assumes "uefi_device fw h n bs blk dev st" "0 \<le> start" "0 \<le> count" "start + count \<le> n"
  obtains q where "ptt_clear_sectors (uefi_dev_ops fw) dev start count st = (True, st\<lparr>platform := q\<rparr>)"
    "blk q = (\<lambda>j. if start \<le> j \<and> j < start + count then replicate bs 0 else blk (platform st) j)"
proof -
  have "in_device st dev start count" using assms by (simp add: in_device_def uefi_device_def)
  from clear_sectors[OF uefi_device_working[OF assms(1)] this] obtain q where
    q: "ptt_clear_sectors (uefi_dev_ops fw) dev start count st = (True, st\<lparr>platform := q\<rparr>)"
    "blk (platform (st\<lparr>platform := q\<rparr>)) = (\<lambda>j. if start \<le> j \<and> j < start + count
       then replicate (nat (sector_size (dev_of st dev))) 0 else blk (platform st) j)" by blast
  have bs: "nat (sector_size (dev_of st dev)) = bs" using assms(1) by (simp add: uefi_device_def)
  show ?thesis using that[of q] q unfolding bs by simp
qed

text \<open>
  C32. Clobbering zeroes the first and the last \<open>9 * 1024 div bs + 1\<close> sectors of a device, and
  changes nothing else; when the device carries a GPT, the protective MBR in sector 0 survives.
\<close>
theorem clobber_zeroes_both_ends:
  assumes dev: "uefi_device fw h n bs blk dev st" and "find_disk_type ''gpt'' types = Some t" and "0 < n"
  defines "first \<equiv> (if dt_probe t dev (snd (ped_device_open (uefi_dev_ops fw) dev st)) then 1 else 0 :: int)"
    and "k \<equiv> 9 * 1024 div int bs + 1"
  shows "case ped_disk_clobber (uefi_dev_ops fw) types dev st of (ok, st') \<Rightarrow> ok \<and>
    (\<forall>j. blk (platform st') j =
       (if first \<le> j \<and> j < n \<and> (j < first + k \<or> n - k \<le> j) then replicate bs 0 else blk (platform st) j))"
proof -
  let ?ops = "uefi_dev_ops fw"
  let ?st1 = "upd_dev dev (open_count_update (\<lambda>n. n + 1)) st"
  have d1: "uefi_device fw h n bs blk dev ?st1" using dev by simp
  have len: "dev_length (dev_of st dev) = n" "sector_size (dev_of st dev) = int bs" and bs: "0 < bs"
    using dev by (simp_all add: uefi_device_def block_device_def)
  have ks: "9 * 1024 sdiv int bs + 1 = k" "0 < k"
    using bs by (simp_all add: k_def sdiv_nonneg_eq pos_imp_zdiv_nonneg_iff add_nonneg_pos)
  have first: "0 \<le> first" "first \<le> 1" by (simp_all add: first_def)
  define c where "c = (if n < first + k then n - first else k)"
  define u where "u = (let t = n - (if k < n then k else 1) in if t < first then first else t)"
  have c: "0 \<le> c" "first + c \<le> n" and u: "0 \<le> u" "u \<le> n"
    using first ks(2) assms(3) by (auto simp: c_def u_def Let_def)
  obtain q where q: "ptt_clear_sectors ?ops dev first c ?st1 = (True, ?st1\<lparr>platform := q\<rparr>)"
    "blk q = (\<lambda>j. if first \<le> j \<and> j < first + c then replicate bs 0 else blk (platform ?st1) j)"
    by (rule uefi_clear[OF d1 first(1) c])
  have d2: "uefi_device fw h n bs blk dev (?st1\<lparr>platform := q\<rparr>)" using d1 by simp
  have u': "0 \<le> n - u" "u + (n - u) \<le> n" using u by simp_all
  obtain r where r': "ptt_clear_sectors ?ops dev u (n - u) (?st1\<lparr>platform := q\<rparr>) = (True, ?st1\<lparr>platform := q, platform := r\<rparr>)"
    "blk r = (\<lambda>j. if u \<le> j \<and> j < u + (n - u) then replicate bs 0 else blk (platform (?st1\<lparr>platform := q\<rparr>)) j)"
    by (rule uefi_clear[OF d2 u(1) u'])
  have r: "ptt_clear_sectors ?ops dev u (n - u) (?st1\<lparr>platform := q\<rparr>) = (True, ?st1\<lparr>platform := r\<rparr>)"
    "blk r = (\<lambda>j. if u \<le> j \<and> j < n then replicate bs 0 else blk q j)"
    using r' by (simp_all cong: if_cong)
  have probe: "(if dt_probe (the (find_disk_type ''gpt'' types)) dev ?st1 then 1 else 0) = first"
    by (simp add: first_def open_eq assms(2))
  have fields: "dev_length (dev_of ?st1 dev) = n" "9 * 1024 sdiv sector_size (dev_of ?st1 dev) + 1 = k"
    using len ks by simp_all
  have "ped_disk_clobber ?ops types dev st = (True, snd (ped_device_close ?ops dev (?st1\<lparr>platform := r\<rparr>)))"
    unfolding ped_disk_clobber_def open_eq prod.case bool.case Let_def probe fields
      c_def[symmetric] u_def[unfolded Let_def, symmetric] q(1) r(1) ..
  moreover have "blk (platform (snd (ped_device_close ?ops dev (?st1\<lparr>platform := r\<rparr>)))) j =
      (if first \<le> j \<and> j < n \<and> (j < first + k \<or> n - k \<le> j) then replicate bs 0 else blk (platform st) j)" for j
    using ks(2) first assms(3) by (simp add: close_eq r(2) q(2)) (auto simp: c_def u_def Let_def)
  ultimately show ?thesis by simp
qed

theorem clobber_zeroes_both_ends_witness:
  "let st = ram_state 100 512 (\<lambda>_. replicate 512 1); types = [\<lparr>dt_name = ''gpt'', dt_probe = \<lambda>_ _. True\<rparr>];
       (ok, st') = ped_disk_clobber (uefi_dev_ops (ram_fw 100 512)) types 0 st
   in ok \<and> ram_blk 512 (platform st') 0 = replicate 512 1 \<and> ram_blk 512 (platform st') 1 = replicate 512 0 \<and>
      ram_blk 512 (platform st') 50 = replicate 512 1 \<and> ram_blk 512 (platform st') 99 = replicate 512 0"
proof -
  let ?st = "ram_state 100 512 (\<lambda>_. replicate 512 1)"
  let ?types = "[\<lparr>dt_name = ''gpt'', dt_probe = \<lambda>_ _. True\<rparr>]"
  have "uefi_device (ram_fw 100 512) 0 100 512 (ram_blk 512) 0 ?st"
    using ram_device[of 512 100] by (simp add: uefi_device_def ram_state_def)
  from clobber_zeroes_both_ends[OF this, of ?types]
  have "case ped_disk_clobber (uefi_dev_ops (ram_fw 100 512)) ?types 0 ?st of (ok, st') \<Rightarrow> ok \<and>
    (\<forall>j. ram_blk 512 (platform st') j =
       (if 1 \<le> j \<and> j < 100 \<and> (j < 20 \<or> 81 \<le> j) then replicate 512 0 else ram_blk 512 (platform ?st) j))"
    by (simp add: find_disk_type_def)
  moreover have "ram_blk 512 (platform ?st) 0 = replicate 512 1" "ram_blk 512 (platform ?st) 50 = replicate 512 1"
    by (simp_all add: ram_state_def ram_blk_def)
  ultimately show ?thesis by (simp add: Let_def split: prod.splits)
qed

text \<open>
  With the UEFI architecture \<open>ped_disk_commit\<close> fails always, also when the label has been
  written to the device: the hook that tells the operating system is a stub that fails.
\<close>
theorem commit_always_fails:
  "(case ped_disk_commit_to_dev (uefi_dev_ops fw) types (Some wr) d
       (snd (ped_device_open (uefi_dev_ops fw) (d_dev d) st)) of (ok, d', st') \<Rightarrow>
      case ped_disk_commit (uefi_dev_ops fw) types (Some wr) uefi_disk_commit d st of (ok', d'', st'') \<Rightarrow>
        \<not> ok' \<and> d'' = d' \<and> platform st'' = platform st')"
  by (auto simp: ped_disk_commit_def ped_disk_commit_to_os_def uefi_disk_commit_def reread_part_table_def
      open_eq close_eq split: prod.splits bool.splits)

end
