(* ===== verification/Filesys.thy ===== *)
theory Filesys
  imports Disk_IO
begin

text \<open>
  Detecting file systems: the registry and the choice between several candidates
  (\<open>libparted/filesys.c\<close>) and the probes of the file systems in the build for the firmware
  (\<open>libparted/fs/\<close>: fat, ntfs, btrfs, ext2). A probe gets the handler that answers its
  exceptions; its result is \<open>None\<close> when it does not return, \<open>Some None\<close> when it finds nothing.
\<close>

section \<open>The registry of file system types\<close>

record 's PedFileSystemType =
  fs_name :: string
  fs_probe :: "PedExceptionHandler \<Rightarrow> PedGeometry \<Rightarrow> 's io_state \<Rightarrow> PedGeometry option option"

record 's PedFileSystemAlias =
  alias_type :: "'s PedFileSystemType"
  alias_name :: string
  deprecated :: bool

definition ped_file_system_type_register :: "'s PedFileSystemType \<Rightarrow> 's PedFileSystemType list \<Rightarrow> 's PedFileSystemType list" where
  "ped_file_system_type_register t fs_types = t # fs_types"

text \<open>Types are told apart by their names, as the pointers of the code are.\<close>

fun ped_file_system_type_unregister :: "string \<Rightarrow> 's PedFileSystemType list \<Rightarrow> 's PedFileSystemType list" where
  "ped_file_system_type_unregister n [] = []"
| "ped_file_system_type_unregister n (w # ws) =
     (if fs_name w = n then ws else w # ped_file_system_type_unregister n ws)"

definition ped_file_system_alias_register ::
    "'s PedFileSystemType \<Rightarrow> string \<Rightarrow> bool \<Rightarrow> 's PedFileSystemAlias list \<Rightarrow> 's PedFileSystemAlias list" where
  "ped_file_system_alias_register t a dep aliases = \<lparr>alias_type = t, alias_name = a, deprecated = dep\<rparr> # aliases"

fun ped_file_system_alias_unregister ::
    "string \<Rightarrow> string \<Rightarrow> 's PedFileSystemAlias list \<Rightarrow> 's PedFileSystemAlias list" where
  "ped_file_system_alias_unregister n a [] = []"
| "ped_file_system_alias_unregister n a (w # ws) =
     (if fs_name (alias_type w) = n \<and> alias_name w = a then ws
      else w # ped_file_system_alias_unregister n a ws)"

definition ped_file_system_type_get ::
    "string \<Rightarrow> 's PedFileSystemType list \<Rightarrow> 's PedFileSystemAlias list \<Rightarrow> 's PedFileSystemType option" where
  "ped_file_system_type_get name fs_types fs_aliases =
     (case List.find (\<lambda>walk. strcasecmp_eq (fs_name walk) name) fs_types of
        Some walk \<Rightarrow> Some walk
      | None \<Rightarrow> map_option alias_type (List.find (\<lambda>walk. strcasecmp_eq (alias_name walk) name) fs_aliases))"

text \<open>The successor of a type in the list, the first one for \<open>None\<close>.\<close>

fun ped_file_system_type_get_next :: "string option \<Rightarrow> 's PedFileSystemType list \<Rightarrow> 's PedFileSystemType option" where
  "ped_file_system_type_get_next _ [] = None"
| "ped_file_system_type_get_next None (w # ws) = Some w"
| "ped_file_system_type_get_next (Some n) (w # ws) =
     (if fs_name w = n then ped_file_system_type_get_next None ws else ped_file_system_type_get_next (Some n) ws)"

section \<open>Choosing between candidates\<close>

definition ped_file_system_probe_specific ::
    "'s PedDeviceArchOps \<Rightarrow> PedExceptionHandler \<Rightarrow> 's PedFileSystemType \<Rightarrow> PedGeometry \<Rightarrow> 's io_state \<Rightarrow>
     (PedGeometry option \<times> 's io_state) option" where
  "ped_file_system_probe_specific ops ask t geom st =
     (case ped_device_open ops (g_dev geom) st of
        (False, st) \<Rightarrow> Some (None, st)
      | (True, st) \<Rightarrow>
          (case fs_probe t ask geom st of
             None \<Rightarrow> None
           | Some r \<Rightarrow> Some (r, snd (ped_device_close ops (g_dev geom) st))))"

text \<open>The sum is returned as an \<open>int\<close>.\<close>

definition geometry_error :: "PedGeometry \<Rightarrow> PedGeometry \<Rightarrow> int" where
  "geometry_error a b = c_int (\<bar>g_start a - g_start b\<bar> + \<bar>g_end a - g_end b\<bar>)"

definition best_match :: "PedGeometry \<Rightarrow> 'a list \<Rightarrow> int list \<Rightarrow> 'a option" where
  "best_match geom detected detected_error =
     (let min_error = max 4096 (g_length geom sdiv 100);
          best = fold (\<lambda>i best. if detected_error ! i < detected_error ! best then i else best)
                   [1..<length detected] 0
      in if \<exists>i \<in> set [0..<length detected]. i \<noteq> best \<and> \<bar>detected_error ! best - detected_error ! i\<bar> < min_error
         then None else Some (detected ! best))"

text \<open>
  The loop over the types; inside \<open>ped_exception_fetch_all\<close> every exception is answered with
  \<open>PED_EXCEPTION_UNHANDLED\<close>.
\<close>

fun probe_types ::
    "'s PedDeviceArchOps \<Rightarrow> PedGeometry \<Rightarrow> 's PedFileSystemType list \<Rightarrow> 's io_state \<Rightarrow>
     (('s PedFileSystemType \<times> int) list \<times> 's io_state) option" where
  "probe_types ops geom [] st = Some ([], st)"
| "probe_types ops geom (walk # ts) st =
     (case ped_file_system_probe_specific ops (\<lambda>_. PED_EXCEPTION_UNHANDLED) walk geom st of
        None \<Rightarrow> None
      | Some (probed, st) \<Rightarrow>
          (case probe_types ops geom ts st of
             None \<Rightarrow> None
           | Some (found, st) \<Rightarrow>
               Some (case probed of None \<Rightarrow> found | Some g \<Rightarrow> (walk, geometry_error geom g) # found, st)))"

text \<open>At most 32 types can be registered before the code overruns its array of candidates.\<close>

definition ped_file_system_probe ::
    "'s PedDeviceArchOps \<Rightarrow> 's PedFileSystemType list \<Rightarrow> PedGeometry \<Rightarrow> 's io_state \<Rightarrow>
     ('s PedFileSystemType option \<times> 's io_state) option" where
  "ped_file_system_probe ops fs_types geom st =
     (case ped_device_open ops (g_dev geom) st of
        (False, st) \<Rightarrow> Some (None, st)
      | (True, st) \<Rightarrow>
          (case probe_types ops geom fs_types st of
             None \<Rightarrow> None
           | Some (found, st) \<Rightarrow>
               Some (if found = [] then None else best_match geom (map fst found) (map snd found),
                     snd (ped_device_close ops (g_dev geom) st))))"

section \<open>The choice is a clear winner\<close>

lemma best_fold:
  "(\<forall>i \<in> set is. i < n) \<Longrightarrow> b < n \<Longrightarrow>
   (let m = fold (\<lambda>i best. if es ! i < (es ! best :: int) then i else best) is b
    in m < n \<and> es ! m \<le> es ! b \<and> (\<forall>i \<in> set is. es ! m \<le> es ! i))"
proof (induction "is" arbitrary: b)
  case (Cons i "is")
  show ?case
  proof (cases "es ! i < es ! b")
    case True
    then show ?thesis using Cons.IH[of i] Cons.prems by (auto simp: Let_def)
  next
    case False
    then show ?thesis using Cons.IH[of b] Cons.prems by (auto simp: Let_def intro: order_trans)
  qed
qed simp

lemma best_match_winner:
  assumes "length es = length ts" "ts \<noteq> []"
  shows "best_match geom ts es = Some t \<longleftrightarrow>
    (\<exists>i < length ts. ts ! i = t \<and> (\<forall>j < length ts. j \<noteq> i \<longrightarrow> es ! i + max 4096 (g_length geom sdiv 100) \<le> es ! j))"
proof -
  let ?m = "max 4096 (g_length geom sdiv 100)"
  define b where "b = fold (\<lambda>i best. if es ! i < es ! best then i else best) [1..<length ts] 0"
  have "let m = b in m < length ts \<and> es ! m \<le> es ! 0 \<and> (\<forall>i \<in> set [1..<length ts]. es ! m \<le> es ! i)"
    unfolding b_def using assms(2) by (intro best_fold) auto
  then have b: "b < length ts" "es ! b \<le> es ! j" if "j < length ts" for j
    using that by (cases "j = 0"; simp)+
  have bl: "b < length ts" using b(1)[of 0] assms(2) by simp
  have far: "\<not> \<bar>es ! b - es ! j\<bar> < ?m \<longleftrightarrow> es ! b + ?m \<le> es ! j" if "j < length ts" for j
    using b(2)[OF that] by auto
  have def: "best_match geom ts es = (if \<forall>j < length ts. j \<noteq> b \<longrightarrow> es ! b + ?m \<le> es ! j then Some (ts ! b) else None)"
  proof -
    have "(\<exists>i \<in> set [0..<length ts]. i \<noteq> b \<and> \<bar>es ! b - es ! i\<bar> < ?m) \<longleftrightarrow>
        \<not> (\<forall>j < length ts. j \<noteq> b \<longrightarrow> es ! b + ?m \<le> es ! j)"
      unfolding Bex_def set_upt atLeastLessThan_iff using far by blast
    then show ?thesis unfolding best_match_def Let_def b_def[symmetric] by simp
  qed
  have uniq: "i = b" if "i < length ts" "\<forall>j < length ts. j \<noteq> i \<longrightarrow> es ! i + ?m \<le> es ! j" for i
    using that b(2)[of i] bl by force
  define W where "W i \<longleftrightarrow> (\<forall>j < length ts. j \<noteq> i \<longrightarrow> es ! i + ?m \<le> es ! j)" for i
  have "best_match geom ts es = (if W b then Some (ts ! b) else None)" unfolding def W_def ..
  moreover have "i = b" if "i < length ts" "W i" for i using uniq that by (simp add: W_def)
  ultimately show ?thesis unfolding W_def[symmetric] using bl by (metis option.distinct(1) option.inject)
qed



end
