(* ===== verification/Fs_Probe.thy ===== *)
theory Fs_Probe
  imports Filesys
begin

text \<open>
  The probes of the file systems in the build for the firmware: \<open>fs/fat/bootsector.c\<close> and
  \<open>fs/fat/fat.c\<close>, \<open>fs/ntfs/ntfs.c\<close>, \<open>fs/btrfs/btrfs.c\<close>, \<open>fs/ext2/interface.c\<close>. The packed
  structures are read from the bytes of the sectors. A probe of ext2 starts over at another
  place when it finds the copy of a superblock, and need not return.
\<close>

section \<open>FAT: the boot sector\<close>

text \<open>The union \<open>u\<close> is given by the members of both of its structures that the code reads.\<close>

record FatBootSector =
  boot_jump :: "byte list"
  system_id :: "byte list"
  bs_sector_size :: "16 word"
  bs_cluster_size :: "8 word"
  reserved :: "16 word"
  fats :: "8 word"
  dir_entries :: "16 word"
  bs_sectors :: "16 word"
  media :: "8 word"
  fat_length :: "16 word"
  secs_track :: "16 word"
  bs_heads :: "16 word"
  hidden :: "32 word"
  bs_sector_count :: "32 word"
  fat16_serial_number :: "32 word"
  fat32_fat_length :: "32 word"
  fat32_root_dir_cluster :: "32 word"
  fat32_info_sector :: "16 word"
  fat32_backup_sector :: "16 word"
  fat32_serial_number :: "32 word"
  boot_sign :: "16 word"

definition fat_boot_sector_of_bytes :: "byte list \<Rightarrow> FatBootSector" where
  "fat_boot_sector_of_bytes raw = \<lparr>boot_jump = field 0 3 raw, system_id = field 3 8 raw,
     bs_sector_size = of_le (field 0x0b 2 raw), bs_cluster_size = of_le (field 0x0d 1 raw),
     reserved = of_le (field 0x0e 2 raw), fats = of_le (field 0x10 1 raw),
     dir_entries = of_le (field 0x11 2 raw), bs_sectors = of_le (field 0x13 2 raw),
     media = of_le (field 0x15 1 raw), fat_length = of_le (field 0x16 2 raw),
     secs_track = of_le (field 0x18 2 raw), bs_heads = of_le (field 0x1a 2 raw),
     hidden = of_le (field 0x1c 4 raw), bs_sector_count = of_le (field 0x20 4 raw),
     fat16_serial_number = of_le (field 0x27 4 raw), fat32_fat_length = of_le (field 0x24 4 raw),
     fat32_root_dir_cluster = of_le (field 0x2c 4 raw), fat32_info_sector = of_le (field 0x30 2 raw),
     fat32_backup_sector = of_le (field 0x32 2 raw), fat32_serial_number = of_le (field 0x43 4 raw),
     boot_sign = of_le (field 0x1fe 2 raw)\<rparr>"

text \<open>The five messages carry no choice; the handler's answer is not used.\<close>

definition fat_boot_sector_read ::
    "'s PedDeviceArchOps \<Rightarrow> PedGeometry \<Rightarrow> 's io_state \<Rightarrow> FatBootSector option" where
  "fat_boot_sector_read ops geom st =
     (case ped_geometry_read_alloc ops geom 0 1 st of
        None \<Rightarrow> None
      | Some raw \<Rightarrow>
          let bs = fat_boot_sector_of_bytes raw
          in if boot_sign bs \<noteq> 0xAA55 then None
             else if bs_sector_size bs = 0 \<or> uint (bs_sector_size bs) mod 512 \<noteq> 0 then None
             else if bs_cluster_size bs = 0 then None
             else if reserved bs = 0 then None
             else if uint (fats bs) < 1 \<or> uint (fats bs) > 4 then None
             else Some bs)"

datatype FatType = FAT_TYPE_FAT12 | FAT_TYPE_FAT16 | FAT_TYPE_FAT32

definition MAX_FAT12_CLUSTERS :: int where "MAX_FAT12_CLUSTERS = 4086"

text \<open>The number of clusters is kept in a \<open>uint32_t\<close>.\<close>

definition fat_boot_sector_probe_type :: "FatBootSector \<Rightarrow> PedGeometry \<Rightarrow> FatType" where
  "fat_boot_sector_probe_type bs geom =
     (if dir_entries bs = 0 then FAT_TYPE_FAT32
      else let logical_sector_size = uint (bs_sector_size bs) div 512;
               first_cluster_sector = uint (reserved bs) * logical_sector_size
                 + 2 * uint (fat_length bs) * logical_sector_size + uint (dir_entries bs) div (512 div 32);
               cluster_count = (g_length geom - first_cluster_sector) sdiv uint (bs_cluster_size bs)
                 sdiv logical_sector_size mod 2 ^ 32
      in if cluster_count > MAX_FAT12_CLUSTERS then FAT_TYPE_FAT16 else FAT_TYPE_FAT12)"

fun fat_table_entry_size :: "FatType \<Rightarrow> int" where
  "fat_table_entry_size FAT_TYPE_FAT12 = 2"
| "fat_table_entry_size FAT_TYPE_FAT16 = 2"
| "fat_table_entry_size FAT_TYPE_FAT32 = 4"

section \<open>FAT: the numbers of the file system\<close>

record FatSpecific =
  logical_sector_size :: int
  fi_sector_count :: PedSector
  sectors_per_track :: int
  fi_heads :: int
  fi_cluster_size :: int
  cluster_sectors :: PedSector
  cluster_count :: int
  dir_entries_per_cluster :: int
  fat_type :: FatType
  fat_table_count :: int
  fat_sectors :: PedSector
  serial_number :: "32 word"
  info_sector_offset :: PedSector
  fat_offset :: PedSector
  root_dir_offset :: PedSector
  cluster_offset :: PedSector
  boot_sector_backup_offset :: PedSector
  root_cluster :: "32 word"
  root_dir_entry_count :: int
  root_dir_sector_count :: PedSector

text \<open>Unsigned 32-bit arithmetic.\<close>

abbreviation u32 :: "int \<Rightarrow> int" where
  "u32 x \<equiv> x mod 2 ^ 32"

definition bad_chs :: "FatBootSector \<Rightarrow> bool" where
  "bad_chs bs \<longleftrightarrow> uint (secs_track bs) < 1 \<or> uint (secs_track bs) > 63 \<or> uint (bs_heads bs) < 1 \<or> uint (bs_heads bs) > 255"

definition chs_exception :: "FatBootSector \<Rightarrow> PedDevice \<Rightarrow> PedException" where
  "chs_exception bs dev =
     (let heads = uint (bs_heads bs); spt = uint (secs_track bs);
          cyl_count = (if heads > 0 \<and> spt > 0 then c_int (dev_length dev sdiv heads sdiv spt) else 0);
          g = bios_geom dev
      in error_ignore_cancel
           ''The file system's CHS geometry is (%d, %d, %d), which is invalid.  The partition table's CHS geometry is (%d, %d, %d).''
           [AInt cyl_count, AInt heads, AInt spt, AInt (cylinders g), AInt (PedCHSGeometry.heads g), AInt (sectors g)])"

text \<open>
  The numbers common to the types, those of FAT16, those of FAT32; members that are not
  assigned keep the indeterminate contents of a fresh structure.
\<close>

definition fat_common :: "FatBootSector \<Rightarrow> FatSpecific" where
  "fat_common bs =
     (let lss = uint (bs_sector_size bs) div 512
      in (undefined :: FatSpecific)
       \<lparr>logical_sector_size := lss, sectors_per_track := uint (secs_track bs), fi_heads := uint (bs_heads bs),
        fi_sector_count := (if bs_sectors bs \<noteq> 0 then uint (bs_sectors bs) * lss
                            else u32 (uint (bs_sector_count bs) * lss)),
        fat_table_count := uint (fats bs), root_dir_entry_count := uint (dir_entries bs),
        fat_offset := uint (reserved bs) * lss, cluster_sectors := uint (bs_cluster_size bs) * lss,
        fi_cluster_size := uint (bs_cluster_size bs) * lss * 512\<rparr>)"

definition fat16_numbers :: "FatBootSector \<Rightarrow> FatSpecific \<Rightarrow> FatSpecific" where
  "fat16_numbers bs fi =
     (let lss = logical_sector_size fi; n = uint (fat_length bs) * lss;
          root = fat_offset fi + n * fat_table_count fi;
          cnt = root_dir_entry_count fi * 32 div (512 * lss)
      in fi\<lparr>fat_sectors := n, serial_number := fat16_serial_number bs, root_cluster := 0,
            root_dir_offset := root, root_dir_sector_count := cnt, cluster_offset := root + cnt\<rparr>)"

definition fat32_numbers :: "FatBootSector \<Rightarrow> FatSpecific \<Rightarrow> FatSpecific" where
  "fat32_numbers bs fi =
     (let lss = logical_sector_size fi; n = u32 (uint (fat32_fat_length bs) * lss)
      in fi\<lparr>fat_sectors := n, serial_number := fat32_serial_number bs,
            info_sector_offset := uint (fat32_info_sector bs) * lss,
            boot_sector_backup_offset := uint (fat32_backup_sector bs) * lss,
            root_cluster := fat32_root_dir_cluster bs, root_dir_offset := 0, root_dir_sector_count := 0,
            cluster_offset := fat_offset fi + n * fat_table_count fi\<rparr>)"

definition fat_clusters :: "FatSpecific \<Rightarrow> FatSpecific" where
  "fat_clusters fi =
     (let cc = u32 ((fi_sector_count fi - cluster_offset fi) sdiv cluster_sectors fi);
          entries = fat_sectors fi * 512 sdiv fat_table_entry_size (fat_type fi);
          cc = (if u32 (cc + 2) > entries then u32 (entries - 2) else cc)
      in fi\<lparr>cluster_count := cc, dir_entries_per_cluster := fi_cluster_size fi div 32\<rparr>)"

definition fat_boot_sector_analyse ::
    "PedExceptionHandler \<Rightarrow> FatBootSector \<Rightarrow> PedGeometry \<Rightarrow> 's io_state \<Rightarrow> FatSpecific option" where
  "fat_boot_sector_analyse ask bs geom st =
     (if bad_chs bs \<and> ask (chs_exception bs (dev_of st (g_dev geom))) = PED_EXCEPTION_CANCEL then None
      else let fi = fat_common bs
      in if logical_sector_size fi = 0 \<or> fat_table_count fi = 0 \<or> cluster_sectors fi = 0 then None
      else let fi = fi\<lparr>fat_type := fat_boot_sector_probe_type bs geom\<rparr>
      in if fat_type fi = FAT_TYPE_FAT12 then None
      else if fat_type fi = FAT_TYPE_FAT16 then Some (fat_clusters (fat16_numbers bs fi))
      else Some (fat_clusters (fat32_numbers bs fi)))"

section \<open>FAT: probing\<close>

definition fat_probe ::
    "'s PedDeviceArchOps \<Rightarrow> PedExceptionHandler \<Rightarrow> PedGeometry \<Rightarrow> 's io_state \<Rightarrow> (PedGeometry \<times> FatType) option" where
  "fat_probe ops ask geom st =
     (case ped_geometry_duplicate geom of
        Inl _ \<Rightarrow> None
      | Inr fs_geom \<Rightarrow>
          (case fat_boot_sector_read ops geom st of
             None \<Rightarrow> None
           | Some bs \<Rightarrow>
               (case fat_boot_sector_analyse ask bs fs_geom st of
                  None \<Rightarrow> None
                | Some fi \<Rightarrow>
                    (case ped_geometry_new (g_dev geom) (g_start geom) (fi_sector_count fi) of
                       Inl _ \<Rightarrow> None | Inr g \<Rightarrow> Some (g, fat_type fi)))))"

definition fat_probe_fat16 ::
    "'s PedDeviceArchOps \<Rightarrow> PedExceptionHandler \<Rightarrow> PedGeometry \<Rightarrow> 's io_state \<Rightarrow> PedGeometry option option" where
  "fat_probe_fat16 ops ask geom st =
     Some (case fat_probe ops ask geom st of
        Some (g, t) \<Rightarrow> if t = FAT_TYPE_FAT16 then Some g else None | None \<Rightarrow> None)"

definition fat_probe_fat32 ::
    "'s PedDeviceArchOps \<Rightarrow> PedExceptionHandler \<Rightarrow> PedGeometry \<Rightarrow> 's io_state \<Rightarrow> PedGeometry option option" where
  "fat_probe_fat32 ops ask geom st =
     Some (case fat_probe ops ask geom st of
        Some (g, t) \<Rightarrow> if t = FAT_TYPE_FAT32 then Some g else None | None \<Rightarrow> None)"

definition fat16_type :: "'s PedDeviceArchOps \<Rightarrow> 's PedFileSystemType" where
  "fat16_type ops = \<lparr>fs_name = ''fat16'', fs_probe = fat_probe_fat16 ops\<rparr>"

definition fat32_type :: "'s PedDeviceArchOps \<Rightarrow> 's PedFileSystemType" where
  "fat32_type ops = \<lparr>fs_name = ''fat32'', fs_probe = fat_probe_fat32 ops\<rparr>"

definition ped_file_system_fat_init :: "'s PedDeviceArchOps \<Rightarrow> 's PedFileSystemType list \<Rightarrow> 's PedFileSystemType list" where
  "ped_file_system_fat_init ops ts =
     ped_file_system_type_register (fat32_type ops) (ped_file_system_type_register (fat16_type ops) ts)"

definition ped_file_system_fat_done :: "'s PedFileSystemType list \<Rightarrow> 's PedFileSystemType list" where
  "ped_file_system_fat_done ts =
     ped_file_system_type_unregister ''fat32'' (ped_file_system_type_unregister ''fat16'' ts)"

section \<open>NTFS\<close>

text \<open>The signature is compared by \<open>strncmp\<close>; it has no zero byte.\<close>

definition NTFS_SIGNATURE :: "byte list" where "NTFS_SIGNATURE = [0x4e, 0x54, 0x46, 0x53]"

definition ntfs_probe ::
    "'s PedDeviceArchOps \<Rightarrow> PedExceptionHandler \<Rightarrow> PedGeometry \<Rightarrow> 's io_state \<Rightarrow> PedGeometry option option" where
  "ntfs_probe ops ask geom st =
     Some (case ped_geometry_read ops geom (uninit_buffer (nat (sector_size (dev_of st (g_dev geom))))) 0 1 st of
        (False, _) \<Rightarrow> None
      | (True, buf) \<Rightarrow>
          if field 3 4 buf = NTFS_SIGNATURE
          then (case ped_geometry_new (g_dev geom) (g_start geom) (sint (of_le (field 0x28 8 buf) :: 64 word)) of
                  Inl _ \<Rightarrow> None | Inr g \<Rightarrow> Some g)
          else None)"

definition ntfs_type :: "'s PedDeviceArchOps \<Rightarrow> 's PedFileSystemType" where
  "ntfs_type ops = \<lparr>fs_name = ''ntfs'', fs_probe = ntfs_probe ops\<rparr>"

section \<open>btrfs\<close>

definition BTRFS_MAGIC :: "64 word" where "BTRFS_MAGIC = 0x4D5F53665248425F"

text \<open>The buffer has 8192 bytes; a larger sector would overrun it.\<close>

definition btrfs_probe ::
    "'s PedDeviceArchOps \<Rightarrow> PedExceptionHandler \<Rightarrow> PedGeometry \<Rightarrow> 's io_state \<Rightarrow> PedGeometry option option" where
  "btrfs_probe ops ask geom st =
     Some (let off = 64 * 1024 sdiv sector_size (dev_of st (g_dev geom))
       in if g_length geom < off + 1 then None
          else case ped_geometry_read ops geom (uninit_buffer 8192) off 1 st of
            (False, _) \<Rightarrow> None
          | (True, buf) \<Rightarrow>
              if of_le (field 64 8 buf) = BTRFS_MAGIC
              then (case ped_geometry_new (g_dev geom) (g_start geom) (g_length geom) of Inl _ \<Rightarrow> None | Inr g \<Rightarrow> Some g)
              else None)"

definition btrfs_type :: "'s PedDeviceArchOps \<Rightarrow> 's PedFileSystemType" where
  "btrfs_type ops = \<lparr>fs_name = ''btrfs'', fs_probe = btrfs_probe ops\<rparr>"

section \<open>ext2, ext3, ext4\<close>

record ext2_super_block =
  s_blocks_count :: "32 word"
  s_first_data_block :: "32 word"
  s_log_block_size :: "32 word"
  s_blocks_per_group :: "32 word"
  s_magic :: "16 word"
  s_rev_level :: "32 word"
  s_block_group_nr :: "16 word"
  s_feature_compat :: "32 word"
  s_feature_incompat :: "32 word"
  s_feature_ro_compat :: "32 word"

definition ext2_super_block_of_bytes :: "byte list \<Rightarrow> ext2_super_block" where
  "ext2_super_block_of_bytes raw = \<lparr>s_blocks_count = of_le (field 4 4 raw), s_first_data_block = of_le (field 20 4 raw),
     s_log_block_size = of_le (field 24 4 raw), s_blocks_per_group = of_le (field 32 4 raw),
     s_magic = of_le (field 56 2 raw), s_rev_level = of_le (field 76 4 raw), s_block_group_nr = of_le (field 90 2 raw),
     s_feature_compat = of_le (field 92 4 raw), s_feature_incompat = of_le (field 96 4 raw),
     s_feature_ro_compat = of_le (field 100 4 raw)\<rparr>"

definition EXT2_SUPER_MAGIC_CONST :: "16 word" where "EXT2_SUPER_MAGIC_CONST = 0xEF53"

text \<open>
  The flags are \<open>HAS_JOURNAL\<close> (4), then \<open>HUGE_FILE\<close> (8), \<open>GDT_CSUM\<close> (16), \<open>DIR_NLINK\<close> (32) of
  \<open>ro_compat\<close> and \<open>EXTENTS\<close> (64), \<open>64BIT\<close> (128), \<open>FLEX_BG\<close> (512) of \<open>incompat\<close>.
\<close>

definition ext_features :: "ext2_super_block \<Rightarrow> bool \<times> bool" where
  "ext_features sb =
     (let is_ext3 = (s_feature_compat sb AND 0x4 \<noteq> 0);
          is_ext4 = (is_ext3 \<and> (s_feature_ro_compat sb AND 0x8 \<noteq> 0 \<or> s_feature_ro_compat sb AND 0x10 \<noteq> 0 \<or>
            s_feature_ro_compat sb AND 0x20 \<noteq> 0 \<or> s_feature_incompat sb AND 0x40 \<noteq> 0 \<or>
            s_feature_incompat sb AND 0x80 \<noteq> 0 \<or> s_feature_incompat sb AND 0x200 \<noteq> 0))
      in (is_ext3 \<and> \<not> is_ext4, is_ext4))"

definition ext2_expected :: "int \<Rightarrow> ext2_super_block \<Rightarrow> bool" where
  "ext2_expected expect_ext_ver sb =
     (case ext_features sb of (is_ext3, is_ext4) \<Rightarrow>
        \<not> (expect_ext_ver = 2 \<and> (is_ext3 \<or> is_ext4)) \<and> \<not> (expect_ext_ver = 3 \<and> \<not> is_ext3) \<and>
        \<not> (expect_ext_ver = 4 \<and> \<not> is_ext4))"

text \<open>
  The shift is one of an \<open>int\<close>, the count is taken modulo 32 as the processor does; a superblock
  whose block size needs a larger count is undefined behaviour.
\<close>

definition ext2_block_size :: "int \<Rightarrow> ext2_super_block \<Rightarrow> PedSector" where
  "ext2_block_size ss sb = c_int (1024 * 2 ^ (unat (s_log_block_size sb) mod 32)) sdiv ss"

definition ext2_read_super ::
    "'s PedDeviceArchOps \<Rightarrow> 's io_state \<Rightarrow> PedGeometry \<Rightarrow> ext2_super_block option" where
  "ext2_read_super ops st geom =
     (let ss = sector_size (dev_of st (g_dev geom)); n = c_int ((4096 + ss - 1) sdiv ss)
      in case ped_geometry_read ops geom (uninit_buffer (nat (n * ss))) 0 n st of
           (False, _) \<Rightarrow> None
         | (True, buf) \<Rightarrow> Some (ext2_super_block_of_bytes (drop 1024 buf)))"

text \<open>The number of sectors, and the distance in blocks to the start of the file system.\<close>

definition ext2_length :: "int \<Rightarrow> ext2_super_block \<Rightarrow> PedSector" where
  "ext2_length ss sb = uint (s_blocks_count sb) * ext2_block_size ss sb"

definition ext2_back :: "ext2_super_block \<Rightarrow> PedSector" where
  "ext2_back sb = uint (s_blocks_per_group sb) * uint (s_block_group_nr sb) + uint (s_first_data_block sb)"

definition ext2_is_copy :: "ext2_super_block \<Rightarrow> bool" where
  "ext2_is_copy sb \<longleftrightarrow> sint (s_rev_level sb) > 0 \<and> uint (s_block_group_nr sb) > 0"

partial_function (option) ext2_generic_probe ::
    "'s PedDeviceArchOps \<Rightarrow> int \<Rightarrow> 's io_state \<Rightarrow> PedGeometry \<Rightarrow> PedGeometry option option" where
  "ext2_generic_probe ops expect_ext_ver st geom =
     (case ext2_read_super ops st geom of
        None \<Rightarrow> Some None
      | Some sb \<Rightarrow>
          if s_magic sb \<noteq> EXT2_SUPER_MAGIC_CONST \<or> \<not> ext2_expected expect_ext_ver sb then Some None
          else if ext2_is_copy sb
          then if g_start geom - ext2_back sb < 0 then Some None
               else ext2_generic_probe ops expect_ext_ver st (geometry_init_local (g_dev geom)
                      (g_start geom - ext2_back sb) (ext2_length (sector_size (dev_of st (g_dev geom))) sb))
          else Some (case ped_geometry_new (g_dev geom) (g_start geom)
                       (ext2_length (sector_size (dev_of st (g_dev geom))) sb) of Inl _ \<Rightarrow> None | Inr g \<Rightarrow> Some g))"

definition ext2_probe ::
    "'s PedDeviceArchOps \<Rightarrow> PedExceptionHandler \<Rightarrow> PedGeometry \<Rightarrow> 's io_state \<Rightarrow> PedGeometry option option" where
  "ext2_probe ops ask geom st = ext2_generic_probe ops 2 st geom"

definition ext3_probe ::
    "'s PedDeviceArchOps \<Rightarrow> PedExceptionHandler \<Rightarrow> PedGeometry \<Rightarrow> 's io_state \<Rightarrow> PedGeometry option option" where
  "ext3_probe ops ask geom st = ext2_generic_probe ops 3 st geom"

definition ext4_probe ::
    "'s PedDeviceArchOps \<Rightarrow> PedExceptionHandler \<Rightarrow> PedGeometry \<Rightarrow> 's io_state \<Rightarrow> PedGeometry option option" where
  "ext4_probe ops ask geom st = ext2_generic_probe ops 4 st geom"

definition ext2_type :: "'s PedDeviceArchOps \<Rightarrow> 's PedFileSystemType" where
  "ext2_type ops = \<lparr>fs_name = ''ext2'', fs_probe = ext2_probe ops\<rparr>"

definition ext3_type :: "'s PedDeviceArchOps \<Rightarrow> 's PedFileSystemType" where
  "ext3_type ops = \<lparr>fs_name = ''ext3'', fs_probe = ext3_probe ops\<rparr>"

definition ext4_type :: "'s PedDeviceArchOps \<Rightarrow> 's PedFileSystemType" where
  "ext4_type ops = \<lparr>fs_name = ''ext4'', fs_probe = ext4_probe ops\<rparr>"

definition ped_file_system_ext2_init :: "'s PedDeviceArchOps \<Rightarrow> 's PedFileSystemType list \<Rightarrow> 's PedFileSystemType list" where
  "ped_file_system_ext2_init ops ts = ped_file_system_type_register (ext4_type ops)
     (ped_file_system_type_register (ext3_type ops) (ped_file_system_type_register (ext2_type ops) ts))"

text \<open>The build for the firmware registers these types (\<open>libparted.c\<close>).\<close>

definition init_file_system_types :: "'s PedDeviceArchOps \<Rightarrow> 's PedFileSystemType list" where
  "init_file_system_types ops = ped_file_system_type_register (btrfs_type ops)
     (ped_file_system_ext2_init ops (ped_file_system_fat_init ops (ped_file_system_type_register (ntfs_type ops) [])))"

section \<open>When the probe of ext2 returns\<close>

lemma geometry_init_local_start:
  "1 \<le> len \<Longrightarrow> geometry_init_local dev s len = \<lparr>g_dev = dev, g_start = s, g_length = len, g_end = s + len - 1\<rparr>"
  by (simp add: geometry_init_local_def ped_geometry_init_def ped_geometry_set_def uninit_geometry_def)


text \<open>
  A superblock that claims to be the copy of group 1 with no blocks per group and with first
  block 0 makes the probe call itself on the same place for ever.
\<close>
theorem ext2_probe_diverges:
  assumes "geom = \<lparr>g_dev = dev, g_start = s, g_length = len, g_end = s + len - 1\<rparr>" "0 \<le> s" "1 \<le> len"
    and "ext2_read_super ops st geom = Some sb" "s_magic sb = EXT2_SUPER_MAGIC_CONST" "ext2_expected v sb"
    and "ext2_is_copy sb" "ext2_back sb = 0" "ext2_length (sector_size (dev_of st dev)) sb = len"
  shows "ext2_generic_probe ops v st geom = None"
proof -
  have local: "geometry_init_local (g_dev geom) (g_start geom - ext2_back sb)
      (ext2_length (sector_size (dev_of st (g_dev geom))) sb) = geom"
    using assms(1,3,8,9) by (simp add: geometry_init_local_start)
  have "\<not> (ops = ops \<and> v = v \<and> st = st \<and> geom = geom)" if "ext2_generic_probe ops v st geom = Some r" for r
  proof (rule ext2_generic_probe.raw_induct[where P = "\<lambda>ops' v' st' g r. \<not> (ops' = ops \<and> v' = v \<and> st' = st \<and> g = geom)", OF _ that])
    fix f ops' v' st' g y
    assume IH: "\<And>ops' v' st' g y. f ops' v' st' g = Some y \<Longrightarrow> \<not> (ops' = ops \<and> v' = v \<and> st' = st \<and> g = geom)"
      and step: "(case ext2_read_super ops' st' g of
        None \<Rightarrow> Some None
      | Some sb \<Rightarrow>
          if s_magic sb \<noteq> EXT2_SUPER_MAGIC_CONST \<or> \<not> ext2_expected v' sb then Some None
          else if ext2_is_copy sb
          then if g_start g - ext2_back sb < 0 then Some None
               else f ops' v' st' (geometry_init_local (g_dev g)
                      (g_start g - ext2_back sb) (ext2_length (sector_size (dev_of st' (g_dev g))) sb))
          else Some (case ped_geometry_new (g_dev g) (g_start g)
                       (ext2_length (sector_size (dev_of st' (g_dev g))) sb) of Inl _ \<Rightarrow> None | Inr g \<Rightarrow> Some g)) = Some y"
    show "\<not> (ops' = ops \<and> v' = v \<and> st' = st \<and> g = geom)"
    proof
      assume e: "ops' = ops \<and> v' = v \<and> st' = st \<and> g = geom"
      have "0 \<le> g_start geom - ext2_back sb" using assms(1,2,8) by simp
      then have "f ops v st geom = Some y" using step assms(4-7) local by (simp add: e)
      then show False using IH by blast
    qed
  qed
  then show ?thesis by (metis option.exhaust)
qed

section \<open>Superblocks on a working device\<close>

lemma of_le_zeros [simp]: "of_le (replicate n 0) = (0 :: 'a::len word)"
  by (induction n) (simp_all add: of_le_Cons)

lemma super_on_ram:
  assumes "g_dev geom = 0" "0 \<le> g_start geom" "g_start geom + 8 \<le> int n" "n < 2 ^ 32"
    and "ext2_read_super (uefi_dev_ops (ram_fw n 512)) (ram_state n 512 s) geom = Some sb"
  shows "sb = ext2_super_block_of_bytes (concat (map (\<lambda>i. ram_blk 512 s (g_start geom + i)) [2, 3, 4, 5, 6, 7]))"
proof -
  let ?ops = "uefi_dev_ops (ram_fw n 512)" and ?st = "ram_state n 512 s" and ?b = "g_start geom"
  let ?img = "\<lambda>st :: ram io_state. ram_blk 512 (platform st)"
  have w: "working_device ?ops (g_dev geom) ?img ?st" using ram_working[of 512 n s] assms(1,4) by simp
  have f: "sector_size (dev_of ?st (g_dev geom)) = 512" "platform ?st = s" by (simp_all add: ram_state_def)
  have n: "c_int ((4096 + 512 - 1) sdiv 512) = 8" by (simp add: sdiv_nonneg_eq c_int_id)
  let ?rd = "ped_geometry_read ?ops geom (uninit_buffer (nat (8 * 512))) 0 8 ?st"
  have "fst ?rd" using assms(5) unfolding ext2_read_super_def Let_def f n by (auto split: bool.splits prod.splits)
  then have "?b + 0 + 8 - 1 \<le> g_end geom" by (auto simp: ped_geometry_read_def Let_def split: if_splits)
  from geometry_read_working[OF w _ this] have "?rd = (True, sectors_of ?img ?st ?b 8)"
    using assms(1-3) by (simp add: in_device_def sector_bytes_def ram_state_def uninit_buffer_def)
  moreover have "[?b..?b + 8 - 1] = map (\<lambda>i. ?b + i) [0, 1, 2, 3, 4, 5, 6, 7]"
    using upto_as_upt[of ?b 8] by (simp add: upt_rec)
  moreover have "length (ram_blk 512 s j) = 512" if "0 \<le> j" for j using that by (simp add: ram_blk_def)
  ultimately show ?thesis
    using assms(2,5) unfolding ext2_read_super_def Let_def f n by (simp add: f(2))
qed

lemma super_is_read:
  assumes "g_dev geom = 0" "0 \<le> g_start geom" "g_start geom + 8 \<le> int n" "n < 2 ^ 32" "g_start geom + 7 \<le> g_end geom"
  shows "ext2_read_super (uefi_dev_ops (ram_fw n 512)) (ram_state n 512 s) geom \<noteq> None"
  using geometry_read_working[of "uefi_dev_ops (ram_fw n 512)" geom "\<lambda>st. ram_blk 512 (platform st)" "ram_state n 512 s" 0 8
      "uninit_buffer (nat (8 * 512))"] ram_working[of 512 n s] assms
  by (simp add: ext2_read_super_def in_device_def sector_bytes_def ram_state_def uninit_buffer_def sdiv_nonneg_eq c_int_id)

definition demo_copy :: "byte list" where
  "demo_copy = replicate 4 0 @ [10] @ replicate 51 0 @ [0x53, 0xEF] @ replicate 18 0 @ [1] @ replicate 13 0 @ [1] @ replicate 421 0"

lemma demo_copy_super:
  "ext2_super_block_of_bytes (demo_copy @ rest) = \<lparr>s_blocks_count = 10, s_first_data_block = 0, s_log_block_size = 0,
     s_blocks_per_group = 0, s_magic = EXT2_SUPER_MAGIC_CONST, s_rev_level = 1, s_block_group_nr = 1,
     s_feature_compat = 0, s_feature_incompat = 0, s_feature_ro_compat = 0\<rparr>"
  by (simp add: ext2_super_block_of_bytes_def field_def demo_copy_def EXT2_SUPER_MAGIC_CONST_def of_le_Cons take_Cons' drop_Cons')

theorem ext2_probe_diverges_witness:
  "ext2_probe (uefi_dev_ops (ram_fw 100 512)) (\<lambda>_. PED_EXCEPTION_UNHANDLED)
     \<lparr>g_dev = 0, g_start = 0, g_length = 20, g_end = 19\<rparr> (ram_state 100 512 (\<lambda>j. if j = 2 then demo_copy else [])) = None"
proof -
  let ?s = "\<lambda>j. if j = 2 then demo_copy else []" and ?geom = "\<lparr>g_dev = 0, g_start = 0, g_length = 20, g_end = 19\<rparr>"
  have "length demo_copy = 512" by (simp add: demo_copy_def)
  then have "ram_blk 512 ?s 2 = demo_copy" by (simp add: ram_blk_def)
  moreover obtain sb where "ext2_read_super (uefi_dev_ops (ram_fw 100 512)) (ram_state 100 512 ?s) ?geom = Some sb"
    using super_is_read[of ?geom 100 ?s] by auto
  ultimately have sb: "ext2_read_super (uefi_dev_ops (ram_fw 100 512)) (ram_state 100 512 ?s) ?geom = Some
      \<lparr>s_blocks_count = 10, s_first_data_block = 0, s_log_block_size = 0,
       s_blocks_per_group = 0, s_magic = EXT2_SUPER_MAGIC_CONST, s_rev_level = 1, s_block_group_nr = 1,
       s_feature_compat = 0, s_feature_incompat = 0, s_feature_ro_compat = 0\<rparr>"
    using super_on_ram[of ?geom 100 ?s sb] demo_copy_super by simp
  show ?thesis
    unfolding ext2_probe_def
    by (rule ext2_probe_diverges[of _ 0 0 20, OF _ _ _ sb])
      (simp_all add: ext2_expected_def ext_features_def ext2_is_copy_def ext2_back_def ext2_length_def
        ext2_block_size_def ram_state_def sdiv_nonneg_eq c_int_id)
qed


end
