(* ===== verification/Dos_Disk.thy ===== *)
theory Dos_Disk
  imports Dos Dos_Format Fs_Probe
begin

text \<open>
  The msdos label on a device (\<open>libparted/labels/dos.c\<close>): probing, reading and writing the boot
  record and the chain of extended boot records.

  Reading follows the chain by recursion, with nothing that bounds it: \<open>read_table\<close> has the number
  of nested calls that are made at most as its first argument, and its result is \<open>None\<close> when they
  are not enough, or when a file system probe does not return.
\<close>

section \<open>Probing\<close>

definition fsec_of :: "'s PedDeviceArchOps \<Rightarrow> 's io_state \<Rightarrow> first_sector" where
  "fsec_of ops st geom =
     (let (ok, buf) = ped_geometry_read ops geom
            (uninit_buffer (nat (sector_size (dev_of st (g_dev geom))))) 0 1 st
      in if ok then Some buf else None)"

definition msdos_probe :: "'s PedDeviceArchOps \<Rightarrow> PedExceptionHandler \<Rightarrow> dev_ref \<Rightarrow> 's io_state \<Rightarrow> bool" where
  "msdos_probe ops ask dev st =
     (if sector_size (dev_of st dev) < 512 then False
      else case ptt_read_sector ops dev 0 st of
        None \<Rightarrow> False
      | Some label \<Rightarrow>
          let part_table = table_of_bytes label;
              geom = the (ptr_of (ped_geometry_new dev 0 (dev_length (dev_of st dev))));
              n_active = length (filter (\<lambda>p. boot_ind p = 0x80) (partitions part_table))
          in if tab_magic part_table \<noteq> MSDOS_MAGIC then False
             else if the (fat_probe_fat16 ops ask geom st) \<noteq> None then False
             else if the (fat_probe_fat32 ops ask geom st) \<noteq> None then False
             else if the (ntfs_probe ops ask geom st) \<noteq> None then False
             else if list_ex (\<lambda>p. boot_ind p \<noteq> 0 \<and> boot_ind p \<noteq> 0x80) (partitions part_table) then False
             else if n_active = 0 \<and> maybe_FAT label then False
             else if list_ex (\<lambda>p. raw_type p = 0xee) (partitions part_table) then False
             else if field 0 4 (boot_code part_table) = [0xc9, 0xc2, 0xd4, 0xc1] then False
             else True)"

section \<open>Reading\<close>

definition set_raw_data :: "DosRawPartition \<Rightarrow> PedSector \<Rightarrow> DosPart \<Rightarrow> DosPart" where
  "set_raw_data raw_part lba_offset part =
     part\<lparr>p_specific := Some \<lparr>dos_system = raw_type raw_part, dos_boot = (boot_ind raw_part \<noteq> 0),
        dos_orig = Some \<lparr>orig_geom = p_geom part, orig_raw_part = raw_part, orig_lba_offset = lba_offset\<rparr>\<rparr>\<rparr>"

definition raw_part_parse ::
    "first_sector \<Rightarrow> DosDisk \<Rightarrow> DosRawPartition \<Rightarrow> PedSector \<Rightarrow> nat \<Rightarrow> DosPart result" where
  "raw_part_parse fsec d raw_part lba_offset type =
     (case ped_partition_new (msdos_disk_ops fsec) d type None
             (linear_start raw_part lba_offset) (linear_end raw_part lba_offset) of
        Inl e \<Rightarrow> Inl e
      | Inr part \<Rightarrow> Inr (set_raw_data raw_part lba_offset part))"

text \<open>
  The first loop of \<open>read_table\<close>, over the entries with their indices; \<open>rec\<close> reads the table of an
  extended partition. The status \<open>False\<close> stands for \<open>goto error\<close>.
\<close>

type_synonym 's read_result = "(bool \<times> DosDisk \<times> 's io_state) option"

definition recursive_partition :: "PedDevice \<Rightarrow> PedException" where
  "recursive_partition dev = \<lparr>ex_type = PED_EXCEPTION_ERROR, ex_options = PED_EXCEPTION_IGNORE_CANCEL,
     ex_format = ''Invalid partition table - recursive partition on %s.'', ex_args = [AStr (dev_path dev)]\<rparr>"

fun read_entries ::
    "'s PedDeviceArchOps \<Rightarrow> PedExceptionHandler \<Rightarrow> 's PedFileSystemType list \<Rightarrow>
     (PedSector \<Rightarrow> DosDisk \<Rightarrow> 's io_state \<Rightarrow> 's read_result) \<Rightarrow> PedSector \<Rightarrow> bool \<Rightarrow>
     (int \<times> DosRawPartition) list \<Rightarrow> DosDisk \<Rightarrow> 's io_state \<Rightarrow> 's read_result" where
  "read_entries ops ask fs_types rec sector is_extended_table [] d st = Some (True, d, st)"
| "read_entries ops ask fs_types rec sector is_extended_table ((i, raw_part) # rest) d st =
     (let next_entry = read_entries ops ask fs_types rec sector is_extended_table rest;
          lba_offset = (if is_extended_table then sector else 0)
      in if raw_type raw_part = 0 \<or> raw_length raw_part = 0 then next_entry d st
         else if is_extended_table \<and> raw_part_is_extended raw_part then next_entry d st
         else if linear_start raw_part lba_offset = sector then
           (if ask (recursive_partition (dev_of st (d_dev d))) \<noteq> PED_EXCEPTION_IGNORE then Some (False, d, st)
            else next_entry d st)
         else
           let type = (if is_extended_table then PED_PARTITION_LOGICAL
                       else if raw_part_is_extended raw_part then PED_PARTITION_EXTENDED
                       else PED_PARTITION_NORMAL)
           in case raw_part_parse (fsec_of ops st) d raw_part lba_offset type of
                Inl _ \<Rightarrow> Some (False, d, st)
              | Inr part \<Rightarrow>
           (case (if type \<noteq> PED_PARTITION_EXTENDED
                  then map_option (\<lambda>(t, st). (map_option fs_name t, st)) (ped_file_system_probe ops fs_types (p_geom part) st)
                  else Some (p_fs part, st)) of
                None \<Rightarrow> None
              | Some (fs, st) \<Rightarrow>
                  let (d, a) = alloc_node d (part\<lparr>p_num := (if \<not> is_extended_table then i + 1 else p_num part), p_fs := fs\<rparr>)
                  in case ped_disk_add_partition (msdos_disk_ops (fsec_of ops st)) (dev_tab st) ask a
                          (ped_constraint_exact (dev_tab st) (p_geom part)) d of
                       (Inl _, d) \<Rightarrow> Some (False, d, st)
                     | (Inr _, d) \<Rightarrow>
                         if type_of d a = PED_PARTITION_EXTENDED
                         then case rec (g_start (geom_of d a)) d st of
                                None \<Rightarrow> None
                              | Some (False, d, st) \<Rightarrow> Some (False, d, st)
                              | Some (True, d, st) \<Rightarrow> next_entry d st
                         else next_entry d st))"

text \<open>The second loop, over the links to the next tables.\<close>

fun read_nested ::
    "(PedSector \<Rightarrow> DosDisk \<Rightarrow> 's io_state \<Rightarrow> 's read_result) \<Rightarrow> PedSector \<Rightarrow>
     DosRawPartition list \<Rightarrow> DosDisk \<Rightarrow> 's io_state \<Rightarrow> 's read_result" where
  "read_nested rec sector [] d st = Some (True, d, st)"
| "read_nested rec sector (raw_part # rest) d st =
     (if \<not> raw_part_is_extended raw_part then read_nested rec sector rest d st
      else let lba_offset = g_start (geom_of d (the (ped_disk_extended_partition d)));
               part_start = linear_start raw_part lba_offset
           in if part_start = sector then read_nested rec sector rest d st
              else case rec part_start d st of
                     None \<Rightarrow> None
                   | Some (False, d, st) \<Rightarrow> Some (False, d, st)
                   | Some (True, d, st) \<Rightarrow> read_nested rec sector rest d st)"

definition wrong_signature :: "PedDevice \<Rightarrow> 16 word \<Rightarrow> PedException" where
  "wrong_signature dev m = \<lparr>ex_type = PED_EXCEPTION_ERROR, ex_options = PED_EXCEPTION_IGNORE_CANCEL,
     ex_format = ''Invalid partition table on %s -- wrong signature %x.'', ex_args = [AStr (dev_path dev), AInt (uint m)]\<rparr>"

definition read_error ::
    "'s PedDeviceArchOps \<Rightarrow> PedExceptionHandler \<Rightarrow> DosDisk \<Rightarrow> 's io_state \<Rightarrow> 's read_result" where
  "read_error ops ask d st =
     Some (False, ped_disk_delete_all (msdos_disk_ops (fsec_of ops st)) (dev_tab st) ask d, st)"

fun read_table ::
    "nat \<Rightarrow> 's PedDeviceArchOps \<Rightarrow> PedExceptionHandler \<Rightarrow> 's PedFileSystemType list \<Rightarrow>
     PedSector \<Rightarrow> bool \<Rightarrow> DosDisk \<Rightarrow> 's io_state \<Rightarrow> 's read_result" where
  "read_table 0 ops ask fs_types sector is_extended_table d st = None"
| "read_table (Suc n) ops ask fs_types sector is_extended_table d st =
     (case ptt_read_sector ops (d_dev d) sector st of
        None \<Rightarrow> read_error ops ask d st
      | Some label \<Rightarrow>
          let table = table_of_bytes label;
              rec = (\<lambda>s. read_table n ops ask fs_types s True)
          in if is_extended_table \<and> tab_magic table = PARTITION_MAGIC_MAGIC then Some (True, d, st)
             else if tab_magic table \<noteq> MSDOS_MAGIC then
               (if ask (wrong_signature (dev_of st (d_dev d)) (tab_magic table)) \<noteq> PED_EXCEPTION_IGNORE
                then read_error ops ask d st else Some (True, d, st))
             else case read_entries ops ask fs_types rec sector is_extended_table
                         (zip [0 .. int DOS_N_PRI_PARTITIONS - 1] (partitions table)) d st of
                    None \<Rightarrow> None
                  | Some (False, d, st) \<Rightarrow> read_error ops ask d st
                  | Some (True, d, st) \<Rightarrow>
                      if \<not> is_extended_table then Some (True, d, st)
                      else case read_nested rec sector (partitions table) d st of
                             None \<Rightarrow> None
                           | Some (False, d, st) \<Rightarrow> read_error ops ask d st
                           | Some (True, d, st) \<Rightarrow> Some (True, d, st))"

text \<open>
  When the partitions do not fit the geometry of the device, \<open>msdos_read\<close> changes that geometry
  and starts again; its first argument also bounds these starts.
\<close>

fun msdos_read ::
    "nat \<Rightarrow> 's PedDeviceArchOps \<Rightarrow> PedExceptionHandler \<Rightarrow> 's PedFileSystemType list \<Rightarrow>
     DosDisk \<Rightarrow> 's io_state \<Rightarrow> 's read_result" where
  "msdos_read 0 ops ask fs_types d st = None"
| "msdos_read (Suc n) ops ask fs_types d st =
     (let d = ped_disk_delete_all (msdos_disk_ops (fsec_of ops st)) (dev_tab st) ask d
      in case read_table (Suc n) ops ask fs_types 0 False d st of
           None \<Rightarrow> None
         | Some (False, d, st) \<Rightarrow> Some (False, d, st)
         | Some (True, d, st) \<Rightarrow>
             let bios = bios_geom (dev_of st (d_dev d))
             in if disk_check_bios_geometry d bios then Some (True, d, st)
                else let new = disk_probe_bios_geometry (dev_tab st) (fsec_of ops st)
                           msdos_partition_get_flag d bios
                     in if cylinders bios \<noteq> cylinders new \<or> heads bios \<noteq> heads new \<or> sectors bios \<noteq> sectors new
                        then msdos_read n ops ask fs_types d (upd_dev (d_dev d) (\<lambda>dev. dev\<lparr>bios_geom := new\<rparr>) st)
                        else Some (True, d, st))"

section \<open>Writing\<close>

text \<open>
  A chain of extended boot records: the record at \<open>sector\<close> holds \<open>logical\<close> and a link to the
  record of the partition with the next number, which lies where the metadata before that
  partition starts. The next records are written first.
\<close>

definition ebr_sector :: "DosDisk \<Rightarrow> addr \<Rightarrow> PedSector" where
  "ebr_sector d part = g_start (geom_of d (the (part_prev d part)))"

function write_ext_table ::
    "'s PedDeviceArchOps \<Rightarrow> DosDisk \<Rightarrow> PedSector \<Rightarrow> addr \<Rightarrow> 's io_state \<Rightarrow> bool \<times> 's io_state" where
  "write_ext_table ops d sector logical st =
     (let dev = d_dev d; devs = dev_tab st; fsec = fsec_of ops st;
          lba_offset = g_start (geom_of d (the (ped_disk_extended_partition d)))
      in case ptt_read_sector ops dev sector st of
           None \<Rightarrow> (False, st)
         | Some s \<Rightarrow>
             let table = (table_of_bytes s)\<lparr>partitions := empty_parts[0 := fill_raw_part devs fsec d logical sector],
                            tab_magic := MSDOS_MAGIC\<rparr>
             in case ped_disk_get_partition d (p_num (node d logical) + 1) of
                  None \<Rightarrow> ped_device_write ops dev (table_bytes table @ drop 512 s) sector 1 st
                | Some part \<Rightarrow>
                    (case ped_geometry_new dev (ebr_sector d part)
                            (g_end (geom_of d part) - ebr_sector d part + 1) of
                       Inl _ \<Rightarrow> (False, st)
                     | Inr geom \<Rightarrow>
                         let bios = partition_probe_bios_geometry devs fsec d part;
                             table = table\<lparr>partitions := (partitions table)
                                       [1 := fill_ext_raw_part_geom (devs dev) bios geom lba_offset]\<rparr>
                         in case write_ext_table ops d (ebr_sector d part) part st of
                              (False, st) \<Rightarrow> (False, st)
                            | (True, st) \<Rightarrow> ped_device_write ops dev (table_bytes table @ drop 512 s) sector 1 st))"
  by pat_completeness auto

termination
proof (relation "measure (\<lambda>(ops, d, sector, logical, st). nat (ped_disk_get_last_partition_num d + 1 - p_num (node d logical)))")
  fix d :: DosDisk and logical part
  assume g: "ped_disk_get_partition d (p_num (node d logical) + 1) = Some part"
  then have "p_num (node d part) = p_num (node d logical) + 1"
    by (auto simp: ped_disk_get_partition_def find_Some_iff)
  moreover have "p_num (node d logical) + 1 \<le> ped_disk_get_last_partition_num d"
    using g get_partition_bound[of d "p_num (node d logical) + 1"] by (cases "ped_disk_get_last_partition_num d < p_num (node d logical) + 1") simp_all
  ultimately show "((ops, d, s, part, st), ops', d, s', logical, st')
      \<in> measure (\<lambda>(ops, d, sector, logical, st). nat (ped_disk_get_last_partition_num d + 1 - p_num (node d logical)))"
    for ops ops' s s' st st' by simp
qed simp

text \<open>
  When the old sector cannot be read, the table on the stack is written without having been
  initialised; it has 512 bytes, also when a sector has more.
\<close>

definition write_empty_table ::
    "'s PedDeviceArchOps \<Rightarrow> DosDisk \<Rightarrow> PedSector \<Rightarrow> 's io_state \<Rightarrow> bool \<times> 's io_state" where
  "write_empty_table ops d sector st =
     (let table = table_of_bytes (case ptt_read_sector ops (d_dev d) sector st of
                    Some table_sector \<Rightarrow> take 512 table_sector | None \<Rightarrow> uninit_buffer 512)
      in ped_device_write ops (d_dev d)
           (table_bytes (table\<lparr>partitions := empty_parts, tab_magic := MSDOS_MAGIC\<rparr>)) sector 1 st)"

definition write_extended_partitions ::
    "'s PedDeviceArchOps \<Rightarrow> DosDisk \<Rightarrow> 's io_state \<Rightarrow> bool \<times> 's io_state" where
  "write_extended_partitions ops d st =
     (let start = g_start (geom_of d (the (ped_disk_extended_partition d)))
      in case ped_disk_get_partition d 5 of
           Some part \<Rightarrow> write_ext_table ops d start part st
         | None \<Rightarrow> write_empty_table ops d start st)"

text \<open>The loop over the primary numbers; the entries are collected in the table.\<close>

fun write_primaries ::
    "'s PedDeviceArchOps \<Rightarrow> DosDisk \<Rightarrow> int list \<Rightarrow> DosRawPartition list \<Rightarrow> 's io_state \<Rightarrow>
     bool \<times> DosRawPartition list \<times> 's io_state" where
  "write_primaries ops d [] raws st = (True, raws, st)"
| "write_primaries ops d (i # is) raws st =
     (case ped_disk_get_partition d i of
        None \<Rightarrow> write_primaries ops d is raws st
      | Some part \<Rightarrow>
          let raws = raws[nat (i - 1) := fill_raw_part (dev_tab st) (fsec_of ops st) d part 0]
          in if type_of d part = PED_PARTITION_EXTENDED
             then (case write_extended_partitions ops d st of
                     (False, st) \<Rightarrow> (False, raws, st)
                   | (True, st) \<Rightarrow> write_primaries ops d is raws st)
             else write_primaries ops d is raws st)"

text \<open>The first table with boot code and a signature; \<open>uuid\<close> is a fresh UUID.\<close>

definition with_boot_code :: "byte list \<Rightarrow> byte list" where
  "with_boot_code s0 =
     (if s0 ! 0 = 0 then MBR_BOOT_CODE @ replicate (512 - length MBR_BOOT_CODE) 0 @ drop 512 s0 else s0)"

definition with_signature :: "byte list \<Rightarrow> DosRawTable \<Rightarrow> DosRawTable" where
  "with_signature uuid t = (if mbr_signature t = 0 then t\<lparr>mbr_signature := generate_random_uint32 uuid\<rparr> else t)"

definition msdos_write ::
    "'s PedDeviceArchOps \<Rightarrow> byte list \<Rightarrow> DosDisk \<Rightarrow> 's io_state \<Rightarrow> bool \<times> 's io_state" where
  "msdos_write ops uuid d st =
     (case ptt_read_sector ops (d_dev d) 0 st of
        None \<Rightarrow> (False, st)
      | Some s0 \<Rightarrow>
          let s0 = with_boot_code s0;
              table = (with_signature uuid (table_of_bytes s0))\<lparr>tab_magic := MSDOS_MAGIC\<rparr>
          in case write_primaries ops d [1 .. int DOS_N_PRI_PARTITIONS] empty_parts st of
               (False, _, st) \<Rightarrow> (False, st)
             | (True, raws, st) \<Rightarrow>
                 (case ped_device_write ops (d_dev d) (table_bytes (table\<lparr>partitions := raws\<rparr>) @ drop 512 s0) 0 1 st of
                    (False, st) \<Rightarrow> (False, st)
                  | (True, st) \<Rightarrow> ped_device_sync ops (d_dev d) st))"

end
