(* ===== verification/Dos_Records.thy ===== *)
theory Dos_Records
  imports Dos_Disk
begin

text \<open>
  What reading and writing msdos boot records achieves: an entry keeps its partition, the boot
  record keeps the boot code, the chain of extended boot records is a linked list of the logical
  partitions, and a chain of empty records that closes to a cycle is followed for ever.
\<close>

declare write_ext_table.simps [simp del]

section \<open>One sector\<close>

text \<open>A sector whose table is changed keeps its length, and has the new table.\<close>

lemma table_of_sector:
  assumes "512 \<le> length s" "length ps = DOS_N_PRI_PARTITIONS"
  defines "t \<equiv> (table_of_bytes s)\<lparr>partitions := ps, tab_magic := MSDOS_MAGIC\<rparr>"
  shows "length (table_bytes t @ drop 512 s) = length s" "table_of_bytes (table_bytes t @ drop 512 s) = t"
proof -
  have "table_wf t" using assms by (simp add: t_def table_wf_def table_of_bytes_def field_def)
  then show "length (table_bytes t @ drop 512 s) = length s" "table_of_bytes (table_bytes t @ drop 512 s) = t"
    using assms(1) by (simp_all add: length_table_bytes table_roundtrip)
qed

section \<open>An entry and its partition\<close>

lemma uint32: "0 \<le> x \<Longrightarrow> x < 2 ^ 32 \<Longrightarrow> uint (word_of_int x :: 32 word) = x"
  by (simp add: uint_word_of_int)

lemma fill_raw_part_region:
  fixes devs :: dev_table and fsec :: first_sector
  assumes g: "geom_wf (geom_of d part)" and off: "off \<le> g_start (geom_of d part)" "g_start (geom_of d part) - off < 2 ^ 32"
    and len: "g_length (geom_of d part) < 2 ^ 32"
  defines "r \<equiv> fill_raw_part devs fsec d part off"
  shows "linear_start r off = g_start (geom_of d part)" "linear_end r off = g_end (geom_of d part)"
    "raw_type r = dos_system (dos_data (node d part))" "boot_ind r \<noteq> 0 \<longleftrightarrow> dos_boot (dos_data (node d part))"
    "raw_length r \<noteq> 0"
proof -
  have l: "1 \<le> g_length (geom_of d part)" "g_end (geom_of d part) = g_start (geom_of d part) + g_length (geom_of d part) - 1"
    using g by (simp_all add: geom_wf_def)
  have "raw_start r = word_of_int (g_start (geom_of d part) - off)" by (simp add: r_def fill_raw_part_def Let_def)
  then have s: "uint (raw_start r) = g_start (geom_of d part) - off"
    using uint32[of "g_start (geom_of d part) - off"] off by (simp only: diff_ge_0_iff_ge)
  have n: "uint (raw_length r) = g_length (geom_of d part)" using l len by (simp add: r_def fill_raw_part_def Let_def uint_word_of_int)
  show ne: "raw_length r \<noteq> 0" using n l by auto
  have "uint (raw_length r - 1) = g_length (geom_of d part) - 1" using n l ne by (simp add: uint_minus_simple_alt word_le_def uint_sub_if')
  then show "linear_start r off = g_start (geom_of d part)" "linear_end r off = g_end (geom_of d part)"
    using s l by (simp_all add: linear_start_def linear_end_def)
  show "raw_type r = dos_system (dos_data (node d part))" "boot_ind r \<noteq> 0 \<longleftrightarrow> dos_boot (dos_data (node d part))"
    by (simp_all add: r_def fill_raw_part_def Let_def)
qed

lemma new_partition_region:
  assumes "s \<le> e" "type \<in> {PED_PARTITION_NORMAL, PED_PARTITION_LOGICAL, PED_PARTITION_EXTENDED}"
  shows "\<exists>p. ped_partition_new (msdos_disk_ops f) d type None s e = Inr p \<and> p_type p = type \<and>
    g_start (p_geom p) = s \<and> g_end (p_geom p) = e"
  using assms
  by (auto simp: ped_partition_new_def ped_disk_type_check_feature_def msdos_partition_new_def ped_partition_alloc_def
      geom_simps ped_partition_is_active_def has_bit_def msdos_partition_set_system_def Let_def upd_dos_def)

section \<open>The chain of extended boot records\<close>

text \<open>The records that \<open>write_ext_table\<close> writes: their sectors and partitions.\<close>

function ebr_list :: "DosDisk \<Rightarrow> PedSector \<Rightarrow> addr \<Rightarrow> (PedSector \<times> addr) list" where
  "ebr_list d sector logical = (sector, logical) #
     (case ped_disk_get_partition d (p_num (node d logical) + 1) of
        None \<Rightarrow> [] | Some part \<Rightarrow> ebr_list d (ebr_sector d part) part)"
  by pat_completeness auto

lemma next_number:
  assumes "ped_disk_get_partition d (p_num (node d logical) + 1) = Some part"
  shows "p_num (node d part) = p_num (node d logical) + 1" "p_num (node d logical) + 1 \<le> ped_disk_get_last_partition_num d"
proof -
  show "p_num (node d part) = p_num (node d logical) + 1"
    using assms by (auto simp: ped_disk_get_partition_def find_Some_iff)
  show "p_num (node d logical) + 1 \<le> ped_disk_get_last_partition_num d"
    using assms get_partition_bound[of d "p_num (node d logical) + 1"]
    by (cases "ped_disk_get_last_partition_num d < p_num (node d logical) + 1") simp_all
qed

termination ebr_list
  by (relation "measure (\<lambda>(d, sector, logical). nat (ped_disk_get_last_partition_num d + 1 - p_num (node d logical)))")
    (auto dest: next_number)

declare ebr_list.simps [simp del]

text \<open>A record holds a partition and the link to the next one, if there is one.\<close>

definition ebr_holds :: "DosDisk \<Rightarrow> PedSector \<Rightarrow> byte list \<Rightarrow> PedSector \<times> addr \<Rightarrow> PedSector option \<Rightarrow> bool" where
  "ebr_holds d ext_start raw ebr link \<longleftrightarrow>
     (let t = table_of_bytes raw; entry = partitions t ! 0; next = partitions t ! 1;
          (sector, logical) = ebr
      in tab_magic t = MSDOS_MAGIC \<and> length (partitions t) = 4 \<and>
         linear_start entry sector = g_start (geom_of d logical) \<and> linear_end entry sector = g_end (geom_of d logical) \<and>
         raw_type entry = dos_system (dos_data (node d logical)) \<and>
         (case link of None \<Rightarrow> next = empty_part
          | Some s \<Rightarrow> raw_part_is_extended next \<and> linear_start next ext_start = s) \<and>
         partitions t ! 2 = empty_part \<and> partitions t ! 3 = empty_part)"

fun chain_holds :: "DosDisk \<Rightarrow> PedSector \<Rightarrow> (int \<Rightarrow> byte list) \<Rightarrow> (PedSector \<times> addr) list \<Rightarrow> bool" where
  "chain_holds d ext_start img [] = True"
| "chain_holds d ext_start img (e # es) =
     (ebr_holds d ext_start (img (fst e)) e (map_option fst (list_head es)) \<and> chain_holds d ext_start img es)"

lemma chain_holds_cong: "(\<And>e. e \<in> set es \<Longrightarrow> img (fst e) = img' (fst e)) \<Longrightarrow> chain_holds d x img es = chain_holds d x img' es"
  by (induction es) simp_all

text \<open>Records that can be written: the sectors on the device, the numbers in 32 bits.\<close>

definition ebr_fits :: "'s io_state \<Rightarrow> DosDisk \<Rightarrow> PedSector \<Rightarrow> PedSector \<times> addr \<Rightarrow> bool" where
  "ebr_fits st d ext_start ebr \<longleftrightarrow>
     (case ebr of (s, l) \<Rightarrow> in_device st (d_dev d) s 1 \<and> ext_start \<le> s \<and> s - ext_start < 2 ^ 32 \<and>
        geom_wf (geom_of d l) \<and> s \<le> g_start (geom_of d l) \<and> g_start (geom_of d l) - s < 2 ^ 32 \<and>
        g_length (geom_of d l) < 2 ^ 32)"

lemma empty_parts_eq: "empty_parts = [empty_part, empty_part, empty_part, empty_part]"
  by (simp add: empty_parts_def DOS_N_PRI_PARTITIONS_def numeral_eq_Suc)

lemma magic_last: "t\<lparr>tab_magic := m, partitions := ps\<rparr> = t\<lparr>partitions := ps, tab_magic := m\<rparr>"
  by (cases t) simp

lemma geometry_new_ok: "0 < len \<Longrightarrow> ped_geometry_new dev s len = Inr \<lparr>g_dev = dev, g_start = s, g_length = len, g_end = s + len - 1\<rparr>"
  by (simp add: geom_simps)

lemma ebr_list_first: "fst (hd (ebr_list d s l)) = s" "ebr_list d s l \<noteq> []" "list_head (ebr_list d s l) = Some (s, l)"
  by (subst ebr_list.simps, simp add: list_head_def)+

text \<open>Writing the record of one partition, with the link to the next one.\<close>

lemma write_record:
  fixes devs :: dev_table and fsec :: first_sector
  assumes w: "working_device ops (d_dev d) img st" and ss: "512 \<le> sector_size (dev_of st (d_dev d))"
    and e: "ebr_fits st d x (s, l)" and raw: "length raw = sector_bytes st (d_dev d) 1"
    and link: "case link of None \<Rightarrow> nx = empty_part | Some n \<Rightarrow> raw_part_is_extended nx \<and> linear_start nx x = n"
  defines "t \<equiv> (table_of_bytes raw)\<lparr>partitions := [fill_raw_part devs fsec d l s, nx, empty_part, empty_part], tab_magic := MSDOS_MAGIC\<rparr>"
  shows "\<exists>q. ped_device_write ops (d_dev d) (table_bytes t @ drop 512 raw) s 1 st = (True, st\<lparr>platform := q\<rparr>) \<and>
    ebr_holds d x (img (st\<lparr>platform := q\<rparr>) s) (s, l) link \<and> (\<forall>j. j \<noteq> s \<longrightarrow> img (st\<lparr>platform := q\<rparr>) j = img st j)"
proof -
  have "512 \<le> length raw" using raw ss by (simp add: sector_bytes_def)
  note ts = table_of_sector[OF this, of "[fill_raw_part devs fsec d l s, nx, empty_part, empty_part]", folded t_def]
  have n4: "length [fill_raw_part devs fsec d l s, nx, empty_part, empty_part] = DOS_N_PRI_PARTITIONS"
    by (simp add: DOS_N_PRI_PARTITIONS_def)
  have i: "in_device st (d_dev d) s 1" and g: "geom_wf (geom_of d l)" "s \<le> g_start (geom_of d l)"
    "g_start (geom_of d l) - s < 2 ^ 32" "g_length (geom_of d l) < 2 ^ 32"
    using e by (simp_all add: ebr_fits_def)
  obtain q where q: "ped_device_write ops (d_dev d) (table_bytes t @ drop 512 raw) s 1 st = (True, st\<lparr>platform := q\<rparr>)"
    "img (st\<lparr>platform := q\<rparr>) = (img st)(s := table_bytes t @ drop 512 raw)"
    using sector_written[OF w i, of "table_bytes t @ drop 512 raw"] ts(1)[OF n4] raw by metis
  have "ebr_holds d x (table_bytes t @ drop 512 raw) (s, l) link"
    using fill_raw_part_region(1-3)[OF g, of devs fsec] link
    by (simp add: ebr_holds_def ts(2)[OF n4]) (simp add: t_def)
  then show ?thesis using q by auto
qed

lemma write_chain:
  assumes "working_device ops (d_dev d) img st" "512 \<le> sector_size (dev_of st (d_dev d))"
    and "distinct (map fst (ebr_list d s l))"
    and "\<forall>e \<in> set (ebr_list d s l). ebr_fits st d (g_start (geom_of d (the (ped_disk_extended_partition d)))) e"
  shows "\<exists>q. write_ext_table ops d s l st = (True, st\<lparr>platform := q\<rparr>) \<and>
    chain_holds d (g_start (geom_of d (the (ped_disk_extended_partition d)))) (img (st\<lparr>platform := q\<rparr>)) (ebr_list d s l) \<and>
    (\<forall>j. j \<notin> fst ` set (ebr_list d s l) \<longrightarrow> img (st\<lparr>platform := q\<rparr>) j = img st j)"
  using assms
proof (induction d s l rule: ebr_list.induct)
  case (1 d s l)
  let ?x = "g_start (geom_of d (the (ped_disk_extended_partition d)))"
  let ?raw = "img st s" and ?r = "fill_raw_part (dev_tab st) (fsec_of ops st) d l s"
  note w = "1.prems"(1) and ss = "1.prems"(2)
  have e: "ebr_fits st d ?x (s, l)" using "1.prems"(4) ebr_list.simps[of d s l] by simp
  have i: "in_device st (d_dev d) s 1" using e by (simp add: ebr_fits_def)
  have rd: "ptt_read_sector ops (d_dev d) s st = Some ?raw" by (rule read_sector_eq[OF w i])
  have len: "length ?raw = sector_bytes st (d_dev d) 1" by (rule working_length[OF w i])
  show ?case
  proof (cases "ped_disk_get_partition d (p_num (node d l) + 1)")
    case None
    have li: "ebr_list d s l = [(s, l)]" by (simp add: ebr_list.simps[of d s l] None)
    obtain q where q: "ped_device_write ops (d_dev d) (table_bytes ((table_of_bytes ?raw)\<lparr>partitions :=
        [?r, empty_part, empty_part, empty_part], tab_magic := MSDOS_MAGIC\<rparr>) @ drop 512 ?raw) s 1 st = (True, st\<lparr>platform := q\<rparr>)"
      "ebr_holds d ?x (img (st\<lparr>platform := q\<rparr>) s) (s, l) None" "\<And>j. j \<noteq> s \<Longrightarrow> img (st\<lparr>platform := q\<rparr>) j = img st j"
      using write_record[OF w ss e len, where link = None and nx = empty_part, of "dev_tab st" "fsec_of ops st"] by auto
    have "write_ext_table ops d s l st = (True, st\<lparr>platform := q\<rparr>)"
      using q(1) by (simp add: write_ext_table.simps[of ops d s l st] Let_def rd None empty_parts_eq)
    then show ?thesis using q(2,3) unfolding li by (intro exI[of _ q]) (simp add: list_head_def)
  next
    case (Some p)
    let ?s = "ebr_sector d p"
    have li: "ebr_list d s l = (s, l) # ebr_list d ?s p" by (simp add: ebr_list.simps[of d s l] Some)
    have pf: "ebr_fits st d ?x (?s, p)"
      using "1.prems"(4) ebr_list.simps[of d ?s p] unfolding li by simp
    obtain q0 where q0: "write_ext_table ops d ?s p st = (True, st\<lparr>platform := q0\<rparr>)"
      "chain_holds d ?x (img (st\<lparr>platform := q0\<rparr>)) (ebr_list d ?s p)"
      "\<And>j. j \<notin> fst ` set (ebr_list d ?s p) \<Longrightarrow> img (st\<lparr>platform := q0\<rparr>) j = img st j"
      using "1.IH"[OF Some w ss] "1.prems"(3,4) unfolding li by auto
    have ge: "0 < g_end (geom_of d p) - ?s + 1" "?x \<le> ?s" "?s - ?x < 2 ^ 32"
      using pf by (simp_all add: ebr_fits_def geom_wf_def)
    let ?g = "\<lparr>g_dev = d_dev d, g_start = ?s, g_length = g_end (geom_of d p) - ?s + 1, g_end = g_end (geom_of d p)\<rparr>"
    have gn: "ped_geometry_new (d_dev d) ?s (g_end (geom_of d p) - ?s + 1) = Inr ?g"
      using geometry_new_ok[OF ge(1)] by simp
    let ?n = "fill_ext_raw_part_geom (dev_of st (d_dev d)) (partition_probe_bios_geometry (dev_tab st) (fsec_of ops st) d p) ?g ?x"
    have nl: "raw_part_is_extended ?n" "linear_start ?n ?x = ?s"
      using ge uint32[of "?s - ?x"] by (simp_all add: fill_ext_raw_part_geom_def raw_part_is_extended_def linear_start_def)
    let ?st = "st\<lparr>platform := q0\<rparr>"
    have w0: "working_device ops (d_dev d) img ?st" "512 \<le> sector_size (dev_of ?st (d_dev d))"
      "ebr_fits ?st d ?x (s, l)" "length ?raw = sector_bytes ?st (d_dev d) 1"
      using w ss e len by (simp_all add: ebr_fits_def)
    obtain q where q: "ped_device_write ops (d_dev d) (table_bytes ((table_of_bytes ?raw)\<lparr>partitions :=
        [?r, ?n, empty_part, empty_part], tab_magic := MSDOS_MAGIC\<rparr>) @ drop 512 ?raw) s 1 ?st = (True, ?st\<lparr>platform := q\<rparr>)"
      "ebr_holds d ?x (img (?st\<lparr>platform := q\<rparr>) s) (s, l) (Some ?s)" "\<And>j. j \<noteq> s \<Longrightarrow> img (?st\<lparr>platform := q\<rparr>) j = img ?st j"
      using write_record[OF w0, where link = "Some ?s" and nx = ?n, of "dev_tab st" "fsec_of ops st"] nl by auto
    have "write_ext_table ops d s l st = (True, st\<lparr>platform := q\<rparr>)"
      using q(1) by (simp add: write_ext_table.simps[of ops d s l st] Let_def rd Some gn q0(1) empty_parts_eq magic_last)
    moreover have nin: "s \<notin> fst ` set (ebr_list d ?s p)" using "1.prems"(3) unfolding li by simp
    then have "chain_holds d ?x (img (st\<lparr>platform := q\<rparr>)) (ebr_list d ?s p)"
      using q0(2) q(3) by (subst chain_holds_cong[where img' = "img (st\<lparr>platform := q0\<rparr>)"]) force+
    ultimately show ?thesis
      using q(2,3) q0(3) unfolding li by (intro exI[of _ q]) (simp add: ebr_list_first)
  qed
qed

lemma ebr_list_numbers:
  "\<exists>k. map (\<lambda>e. p_num (node d (snd e))) (ebr_list d s l) = [p_num (node d l) .. k] \<and> p_num (node d l) \<le> k
    \<and> ped_disk_get_partition d (k + 1) = None"
proof (induction d s l rule: ebr_list.induct)
  case (1 d s l)
  show ?case
  proof (cases "ped_disk_get_partition d (p_num (node d l) + 1)")
    case None
    then show ?thesis by (intro exI[of _ "p_num (node d l)"]) (simp add: ebr_list.simps[of d s l])
  next
    case (Some p)
    obtain k where k: "map (\<lambda>e. p_num (node d (snd e))) (ebr_list d (ebr_sector d p) p) = [p_num (node d p) .. k]"
      "p_num (node d p) \<le> k" "ped_disk_get_partition d (k + 1) = None"
      using "1.IH"[OF Some] by blast
    have n: "p_num (node d p) = p_num (node d l) + 1" by (rule next_number(1)[OF Some])
    show ?thesis
      using k n by (intro exI[of _ k]) (simp add: ebr_list.simps[of d s l] Some upto_rec1[of "p_num (node d l)" k])
  qed
qed

section \<open>Reading for ever\<close>

lemma empty_table_entries:
  assumes "\<And>i e. (i, e) \<in> set es \<Longrightarrow> raw_type e = 0 \<or> raw_length e = 0 \<or> raw_part_is_extended e"
  shows "read_entries ops ask fs_types rec sector True es d st = Some (True, d, st)"
  using assms
proof (induction es)
  case (Cons x es)
  obtain i e where x: "x = (i, e)" by fastforce
  have "raw_type e = 0 \<or> raw_length e = 0 \<or> raw_part_is_extended e" using Cons.prems[of i e] x by simp
  then show ?case using Cons.IH Cons.prems unfolding x by (auto simp: Let_def)
qed simp

lemma nested_first_link:
  assumes "find raw_part_is_extended es = Some p"
    and "linear_start p (g_start (geom_of d (the (ped_disk_extended_partition d)))) \<noteq> sector"
    and "rec (linear_start p (g_start (geom_of d (the (ped_disk_extended_partition d))))) d st = None"
  shows "read_nested rec sector es d st = None"
  using assms by (induction es) (auto simp: Let_def split: if_splits)

text \<open>More nested calls do not change a result: the one result extends the other.\<close>

definition extends :: "'a option \<Rightarrow> 'a option \<Rightarrow> bool" where
  "extends r r' \<longleftrightarrow> r = None \<or> r' = r"

lemma extends_intros:
  "extends r r"
  "(c \<Longrightarrow> extends a a') \<Longrightarrow> (\<not> c \<Longrightarrow> extends b b') \<Longrightarrow> extends (if c then a else b) (if c then a' else b')"
  "(\<And>x. extends (f x) (f' x)) \<Longrightarrow> (\<And>y. extends (g y) (g' y)) \<Longrightarrow> extends (case_sum f g s) (case_sum f' g' s)"
  "extends r r' \<Longrightarrow> (\<And>y. extends (g y) (g' y)) \<Longrightarrow> extends (case_option None g r) (case_option None g' r')"
  "(\<And>y. extends (g y) (g' y)) \<Longrightarrow> extends (case_option z g v) (case_option z g' v)"
  "(\<And>x y. extends (h x y) (h' x y)) \<Longrightarrow> extends (case_prod h p) (case_prod h' p)"
  "extends a a' \<Longrightarrow> extends b b' \<Longrightarrow> extends (case_bool a b c) (case_bool a' b' c)"
  by (auto simp: extends_def split: sum.splits option.splits prod.splits bool.splits)

lemma read_nested_extends:
  assumes "\<And>s d st. extends (rec s d st) (rec' s d st)"
  shows "extends (read_nested rec sector es d st) (read_nested rec' sector es d st)"
proof (induction es arbitrary: d st)
  case (Cons e es)
  show ?case unfolding read_nested.simps Let_def by (intro extends_intros assms Cons)
qed (simp add: extends_def)

lemma read_entries_extends:
  assumes "\<And>s d st. extends (rec s d st) (rec' s d st)"
  shows "extends (read_entries ops ask fs_types rec sector b es d st) (read_entries ops ask fs_types rec' sector b es d st)"
proof (induction es arbitrary: d st)
  case (Cons x es)
  obtain i e where x: "x = (i, e)" by fastforce
  show ?case unfolding x read_entries.simps Let_def by (intro extends_intros assms Cons)
qed (simp add: extends_def)

lemma read_table_extends:
  "extends (read_table n ops ask fs_types sector b d st) (read_table (n + k) ops ask fs_types sector b d st)"
proof (induction n arbitrary: sector b d st)
  case (Suc n)
  show ?case
    unfolding read_table.simps add_Suc Let_def
    by (intro extends_intros read_nested_extends read_entries_extends Suc)
qed (simp add: extends_def)

section \<open>The boot record\<close>

lemma length_boot_code: "length MBR_BOOT_CODE = 75"
  by (simp add: MBR_BOOT_CODE_def)

lemma with_boot_code_props:
  assumes "512 \<le> length s"
  shows "length (with_boot_code s) = length s" "drop 512 (with_boot_code s) = drop 512 s"
    "take 440 (with_boot_code s) = (if s ! 0 = 0 then MBR_BOOT_CODE @ replicate (440 - length MBR_BOOT_CODE) 0 else take 440 s)"
  using assms by (simp_all add: with_boot_code_def length_boot_code)

lemma generate_random_nonzero: "generate_random_uint32 uuid \<noteq> 0"
  by (simp add: generate_random_uint32_def Let_def word_gt_0)

lemma write_primaries_plain:
  assumes "\<And>i p. i \<in> set is \<Longrightarrow> ped_disk_get_partition d i = Some p \<Longrightarrow> type_of d p \<noteq> PED_PARTITION_EXTENDED"
  shows "write_primaries ops d is raws st = (True, fold (\<lambda>i raws. case ped_disk_get_partition d i of None \<Rightarrow> raws
     | Some p \<Rightarrow> raws[nat (i - 1) := fill_raw_part (dev_tab st) (fsec_of ops st) d p 0]) is raws, st)"
  using assms by (induction "is" arbitrary: raws) (auto simp: Let_def split: option.split)

section \<open>Concrete records\<close>

text \<open>An extended partition with the partitions 5 and 6, and the metadata before partition 6.\<close>

definition ebr_demo :: DosDisk where
  "ebr_demo = (let data = \<lparr>dos_system = PARTITION_LINUX, dos_boot = False, dos_orig = None\<rparr> in
     \<lparr>d_dev = 0, part_list = [0],
     d_heap = [0 \<mapsto> \<lparr>p_geom = \<lparr>g_dev = 0, g_start = 2016, g_length = 7056, g_end = 9071\<rparr>, p_num = 1,
                     p_type = PED_PARTITION_EXTENDED, p_fs = None, p_list = [1, 2, 3],
                     p_specific = Some (data\<lparr>dos_system := PARTITION_EXT_LBA\<rparr>)\<rparr>,
               1 \<mapsto> \<lparr>p_geom = \<lparr>g_dev = 0, g_start = 2079, g_length = 1953, g_end = 4031\<rparr>, p_num = 5,
                     p_type = PED_PARTITION_LOGICAL, p_fs = None, p_list = [], p_specific = Some data\<rparr>,
               2 \<mapsto> \<lparr>p_geom = \<lparr>g_dev = 0, g_start = 4032, g_length = 63, g_end = 4094\<rparr>, p_num = - 1,
                     p_type = PED_PARTITION_METADATA + PED_PARTITION_LOGICAL, p_fs = None, p_list = [], p_specific = None\<rparr>,
               3 \<mapsto> \<lparr>p_geom = \<lparr>g_dev = 0, g_start = 4095, g_length = 1953, g_end = 6047\<rparr>, p_num = 6,
                     p_type = PED_PARTITION_LOGICAL, p_fs = None, p_list = [], p_specific = Some data\<rparr>],
     next_addr = 4, needs_clobber = False, update_mode = 0, d_specific = \<lparr>cylinder_alignment = True\<rparr>\<rparr>)"

lemma ebr_demo_facts:
  "ped_disk_get_partition ebr_demo 5 = Some 1" "ped_disk_get_partition ebr_demo 6 = Some 3"
  "ped_disk_get_partition ebr_demo 7 = None" "ebr_sector ebr_demo 3 = 4032" "p_num (node ebr_demo 1) = 5"
  "p_num (node ebr_demo 3) = 6" "g_start (geom_of ebr_demo (the (ped_disk_extended_partition ebr_demo))) = 2016"
  "geom_of ebr_demo 1 = \<lparr>g_dev = 0, g_start = 2079, g_length = 1953, g_end = 4031\<rparr>"
  "geom_of ebr_demo 3 = \<lparr>g_dev = 0, g_start = 4095, g_length = 1953, g_end = 6047\<rparr>" "d_dev ebr_demo = 0"
  by code_simp+

lemma ebr_demo_list: "ebr_list ebr_demo 2016 1 = [(2016, 1), (4032, 3)]"
proof -
  have "ebr_list ebr_demo 4032 3 = [(4032, 3)]"
    unfolding ebr_list.simps[of ebr_demo 4032 3] ebr_demo_facts(6) by (simp add: ebr_demo_facts(3))
  then show ?thesis
    unfolding ebr_list.simps[of ebr_demo 2016 1] ebr_demo_facts(5) by (simp add: ebr_demo_facts(2,4))
qed

definition ebr_ram :: "ram io_state" where
  "ebr_ram = ram_state 10000 512 (\<lambda>_. replicate 512 0)"

abbreviation ebr_ops :: "ram PedDeviceArchOps" where
  "ebr_ops \<equiv> uefi_dev_ops (ram_fw 10000 512)"

abbreviation ebr_img :: "ram io_state \<Rightarrow> int \<Rightarrow> byte list" where
  "ebr_img \<equiv> \<lambda>st. ram_blk 512 (platform st)"

lemma ebr_ram_working: "working_device ebr_ops 0 ebr_img ebr_ram"
  unfolding ebr_ram_def by (rule ram_working) simp_all

lemma ebr_ram_fields: "sector_size (dev_of ebr_ram 0) = 512" "dev_length (dev_of ebr_ram 0) = 10000"
  by (simp_all add: ebr_ram_def ram_state_def)

section \<open>Properties\<close>

text \<open>
  C12. What is written into an entry is read back: a partition whose start (relative to the
  offset of its table) and length fit in 32 bits gives, through the bytes of an entry, a new
  partition with the same region, system and boot flag, that remembers the entry.
\<close>
theorem msdos_entry_roundtrip:
  fixes devs :: dev_table and fsec :: first_sector
  assumes "geom_wf (geom_of d part)" "off \<le> g_start (geom_of d part)" "g_start (geom_of d part) - off < 2 ^ 32"
    and "g_length (geom_of d part) < 2 ^ 32" "type \<in> {PED_PARTITION_NORMAL, PED_PARTITION_LOGICAL, PED_PARTITION_EXTENDED}"
  defines "raw \<equiv> raw_part_of_bytes (raw_part_bytes (fill_raw_part devs fsec d part off))"
  shows "\<exists>p. raw_part_parse fsec' d' raw off type = Inr p \<and> p_type p = type \<and>
    g_start (p_geom p) = g_start (geom_of d part) \<and> g_end (p_geom p) = g_end (geom_of d part) \<and>
    dos_system (dos_data p) = dos_system (dos_data (node d part)) \<and>
    dos_boot (dos_data p) = dos_boot (dos_data (node d part)) \<and>
    (\<exists>orig. dos_orig (dos_data p) = Some orig \<and> orig_raw_part orig = raw \<and> orig_geom orig = p_geom p)"
proof -
  note r = fill_raw_part_region[OF assms(1-4), of devs fsec]
  have raw: "raw = fill_raw_part devs fsec d part off" by (simp add: raw_def raw_part_roundtrip)
  have le: "g_start (geom_of d part) \<le> g_end (geom_of d part)" using assms(1) by (rule geom_wf_nonempty)
  obtain p where "ped_partition_new (msdos_disk_ops fsec') d' type None (g_start (geom_of d part)) (g_end (geom_of d part)) = Inr p"
    "p_type p = type" "g_start (p_geom p) = g_start (geom_of d part)" "g_end (p_geom p) = g_end (geom_of d part)"
    using new_partition_region[OF le assms(5)] by blast
  then show ?thesis
    unfolding raw_part_parse_def raw r(1,2) by (simp add: set_raw_data_def dos_data_def r(3,4)[unfolded dos_data_def])
qed

theorem msdos_entry_roundtrip_witness:
  "\<exists>p. raw_part_parse (\<lambda>_. None) ebr_demo (raw_part_of_bytes (raw_part_bytes
      (fill_raw_part (dev_tab ebr_ram) (\<lambda>_. None) ebr_demo 3 4032))) 4032 PED_PARTITION_LOGICAL = Inr p \<and>
    g_start (p_geom p) = 4095 \<and> g_end (p_geom p) = 6047"
  using msdos_entry_roundtrip[of ebr_demo 3 4032 PED_PARTITION_LOGICAL "\<lambda>_. None" ebr_demo "dev_tab ebr_ram" "\<lambda>_. None"]
  by (auto simp: ebr_demo_facts geom_wf_def)

text \<open>
  C6. The chain of extended boot records. Writing the extended partition of a table that has
  partition 5 visits the logical partitions by number, from 5 to the last number before a gap.
  Provided their records lie in different sectors of the device and the relative numbers fit in
  32 bits, it succeeds and leaves a linked list: the record in the first sector of the extended
  partition holds partition 5, each record holds its partition and the link to the next record,
  and the last one has no link. No other sector is touched.
\<close>
theorem ebr_chain_is_written:
  fixes d :: DosDisk
  defines "ext_start \<equiv> g_start (geom_of d (the (ped_disk_extended_partition d)))"
  assumes "working_device ops (d_dev d) img st" "512 \<le> sector_size (dev_of st (d_dev d))"
    and "ped_disk_get_partition d 5 = Some first" "chain = ebr_list d ext_start first"
    and "distinct (map fst chain)" "\<forall>e \<in> set chain. ebr_fits st d ext_start e"
  shows "\<exists>q k. write_extended_partitions ops d st = (True, st\<lparr>platform := q\<rparr>) \<and>
    fst (hd chain) = ext_start \<and> map (\<lambda>e. p_num (node d (snd e))) chain = [5 .. k] \<and>
    5 \<le> k \<and> ped_disk_get_partition d (k + 1) = None \<and>
    chain_holds d ext_start (img (st\<lparr>platform := q\<rparr>)) chain \<and>
    (\<forall>j. j \<notin> fst ` set chain \<longrightarrow> img (st\<lparr>platform := q\<rparr>) j = img st j)"
proof -
  have five: "p_num (node d first) = 5" using assms(4) by (auto simp: ped_disk_get_partition_def find_Some_iff)
  obtain k where k: "map (\<lambda>e. p_num (node d (snd e))) chain = [5 .. k]" "5 \<le> k" "ped_disk_get_partition d (k + 1) = None"
    using ebr_list_numbers[of d ext_start first] five assms(5) by auto
  obtain q where q: "write_ext_table ops d ext_start first st = (True, st\<lparr>platform := q\<rparr>)"
    "chain_holds d ext_start (img (st\<lparr>platform := q\<rparr>)) chain"
    "\<forall>j. j \<notin> fst ` set chain \<longrightarrow> img (st\<lparr>platform := q\<rparr>) j = img st j"
    using write_chain[OF assms(2,3), of ext_start first] assms(5-7) unfolding ext_start_def by blast
  have "fst (hd chain) = ext_start" by (simp add: assms(5) ebr_list_first)
  then show ?thesis
    using q k assms(4) by (auto simp: write_extended_partitions_def Let_def ext_start_def[symmetric])
qed

theorem ebr_chain_is_written_witness:
  "\<exists>q. write_extended_partitions ebr_ops ebr_demo ebr_ram = (True, ebr_ram\<lparr>platform := q\<rparr>) \<and>
    chain_holds ebr_demo 2016 (ebr_img (ebr_ram\<lparr>platform := q\<rparr>)) [(2016, 1), (4032, 3)]"
proof -
  have fits: "\<forall>e \<in> set [(2016, 1), (4032, 3)]. ebr_fits ebr_ram ebr_demo 2016 e"
    by (simp add: ebr_fits_def ebr_demo_facts in_device_def ebr_ram_fields geom_wf_def ebr_demo_facts[unfolded One_nat_def])
  have "working_device ebr_ops (d_dev ebr_demo) ebr_img ebr_ram" "512 \<le> sector_size (dev_of ebr_ram (d_dev ebr_demo))"
    by (simp_all add: ebr_demo_facts(10) ebr_ram_working ebr_ram_fields)
  from ebr_chain_is_written[OF this ebr_demo_facts(1) refl, unfolded ebr_demo_facts(7) ebr_demo_list, OF _ fits]
  show ?thesis by auto
qed

text \<open>
  C7. Writing the boot record of a table without an extended partition. Only sector 0 changes;
  its entries are those of the partitions 1 to 4, empty where there is none; the signature is
  there and the identifier is not zero. Boot code that is there is kept, with everything behind
  the table, and so is an identifier that is there; without boot code the sector gets the default
  one (and a new identifier).
\<close>
theorem boot_record_is_written:
  assumes "working_device ops (d_dev d) img st" "512 \<le> sector_size (dev_of st (d_dev d))" "0 < dev_length (dev_of st (d_dev d))"
    and "\<forall>i \<in> {1 .. 4}. \<forall>p. ped_disk_get_partition d i = Some p \<longrightarrow> type_of d p \<noteq> PED_PARTITION_EXTENDED"
  shows "\<exists>q. msdos_write ops uuid d st = (True, st\<lparr>platform := q\<rparr>) \<and>
    (let old = img st 0; new = img (st\<lparr>platform := q\<rparr>) 0; t = table_of_bytes new in
      (\<forall>j. j \<noteq> 0 \<longrightarrow> img (st\<lparr>platform := q\<rparr>) j = img st j) \<and> length new = length old \<and>
      tab_magic t = MSDOS_MAGIC \<and> mbr_signature t \<noteq> 0 \<and>
      (\<forall>i \<in> {1 .. 4}. partitions t ! nat (i - 1) = (case ped_disk_get_partition d i of
         None \<Rightarrow> empty_part | Some p \<Rightarrow> fill_raw_part (dev_tab st) (fsec_of ops st) d p 0)) \<and>
      boot_code t = (if old ! 0 = 0 then MBR_BOOT_CODE @ replicate (440 - length MBR_BOOT_CODE) 0 else take 440 old) \<and>
      drop 512 new = drop 512 old \<and>
      (old ! 0 \<noteq> 0 \<and> mbr_signature (table_of_bytes old) \<noteq> 0 \<longrightarrow> mbr_signature t = mbr_signature (table_of_bytes old)))"
proof -
  let ?old = "img st 0" and ?dev = "d_dev d"
  have i: "in_device st ?dev 0 1" using assms(3) by (simp add: in_device_def)
  have len: "length ?old = sector_bytes st ?dev 1" by (rule working_length[OF assms(1) i])
  then have l512: "512 \<le> length ?old" using assms(2) by (simp add: sector_bytes_def)
  note b = with_boot_code_props[OF l512]
  define s0 where "s0 = with_boot_code ?old"
  define entry where "entry i = (case ped_disk_get_partition d i of
         None \<Rightarrow> empty_part | Some p \<Rightarrow> fill_raw_part (dev_tab st) (fsec_of ops st) d p 0)" for i
  define t0 where "t0 = with_signature uuid (table_of_bytes s0)"
  define t where "t = t0\<lparr>partitions := [entry 1, entry 2, entry 3, entry 4], tab_magic := MSDOS_MAGIC\<rparr>"
  have raws: "fold (\<lambda>i raws. case ped_disk_get_partition d i of None \<Rightarrow> raws
     | Some p \<Rightarrow> raws[nat (i - 1) := fill_raw_part (dev_tab st) (fsec_of ops st) d p 0]) [1, 2, 3, 4] empty_parts
     = [entry 1, entry 2, entry 3, entry 4]"
    by (simp add: empty_parts_eq entry_def split: option.split)
  have up: "[1 .. int DOS_N_PRI_PARTITIONS] = [1, 2, 3, 4]" by (simp add: DOS_N_PRI_PARTITIONS_def upto_rec1)
  have wp: "write_primaries ops d [1 .. int DOS_N_PRI_PARTITIONS] empty_parts st = (True, [entry 1, entry 2, entry 3, entry 4], st)"
    unfolding up raws[symmetric] using assms(4) by (intro write_primaries_plain) auto
  have wf: "table_wf t" and bc: "boot_code t = take 440 s0"
    by (simp_all add: t_def t0_def with_signature_def table_wf_def table_of_bytes_def field_def DOS_N_PRI_PARTITIONS_def
        s0_def b(1) l512 min_absorb1 order_trans[OF _ l512])
  let ?new = "table_bytes t @ drop 512 s0"
  have nl: "length ?new = sector_bytes st ?dev 1" using l512 b(1) len by (simp add: length_table_bytes[OF wf] s0_def)
  obtain q where q: "ped_device_write ops ?dev ?new 0 1 st = (True, st\<lparr>platform := q\<rparr>)" "img (st\<lparr>platform := q\<rparr>) = (img st)(0 := ?new)"
    using sector_written[OF assms(1) i nl] by blast
  obtain q' where q': "ped_device_sync ops ?dev (st\<lparr>platform := q\<rparr>) = (True, st\<lparr>platform := q'\<rparr>)"
    "img (st\<lparr>platform := q'\<rparr>) = img (st\<lparr>platform := q\<rparr>)"
    using assms(1) unfolding working_device_def by blast
  have w: "msdos_write ops uuid d st = (True, st\<lparr>platform := q'\<rparr>)"
    using q(1) q'(1)
    by (simp add: msdos_write_def Let_def read_sector_eq[OF assms(1) i] wp s0_def[symmetric] t0_def[symmetric] t_def magic_last)
  have tab: "table_of_bytes ?new = t" using table_roundtrip[OF wf] by simp
  have sig: "mbr_signature t \<noteq> 0" by (simp add: t_def t0_def with_signature_def generate_random_nonzero)
  have keep: "mbr_signature t = mbr_signature (table_of_bytes ?old)" if "?old ! 0 \<noteq> 0" "mbr_signature (table_of_bytes ?old) \<noteq> 0"
    using that by (simp add: t_def t0_def with_signature_def s0_def with_boot_code_def)
  have four: "partitions t ! nat (i - 1) = entry i" if "i \<in> {1 .. 4}" for i :: int
  proof -
    have "i = 1 \<or> i = 2 \<or> i = 3 \<or> i = 4" using that by auto
    then show ?thesis by (auto simp: t_def)
  qed
  define new where "new = ?new"
  have im: "img (st\<lparr>platform := q'\<rparr>) = (img st)(0 := new)" using q(2) q'(2) by (simp add: new_def)
  have nw: "table_of_bytes new = t" "length new = length ?old" "drop 512 new = drop 512 ?old" "tab_magic t = MSDOS_MAGIC"
    using tab nl len b(2) by (simp_all add: new_def length_table_bytes[OF wf] s0_def) (simp add: t_def)
  have bt: "boot_code t = (if ?old ! 0 = 0 then MBR_BOOT_CODE @ replicate (440 - length MBR_BOOT_CODE) 0 else take 440 ?old)"
    using bc b(3) by (simp only: s0_def)
  show ?thesis
    unfolding entry_def[symmetric] Let_def
  proof (rule exI[of _ q'], unfold im fun_upd_same nw(1), intro conjI w ballI impI)
    show "partitions t ! nat (i - 1) = entry i" if "i \<in> {1 .. 4}" for i using four[OF that] .
  qed (use nw sig keep bt in simp_all)
qed

theorem boot_record_is_written_witness:
  "\<exists>q. msdos_write ebr_ops [1, 2, 3, 4] (ebr_demo\<lparr>part_list := []\<rparr>) ebr_ram = (True, ebr_ram\<lparr>platform := q\<rparr>) \<and>
    tab_magic (table_of_bytes (ebr_img (ebr_ram\<lparr>platform := q\<rparr>) 0)) = MSDOS_MAGIC"
proof -
  let ?d = "ebr_demo\<lparr>part_list := []\<rparr>"
  have none: "ped_disk_get_partition ?d i = None" for i by (simp add: ped_disk_get_partition_def disk_walk_def)
  have "working_device ebr_ops (d_dev ?d) ebr_img ebr_ram" "512 \<le> sector_size (dev_of ebr_ram (d_dev ?d))"
    "0 < dev_length (dev_of ebr_ram (d_dev ?d))"
    by (simp_all add: ebr_demo_facts(10) ebr_ram_working ebr_ram_fields)
  note b = boot_record_is_written[OF this, of "[1, 2, 3, 4]", unfolded Let_def]
  have "\<forall>i \<in> {1 .. 4}. \<forall>p. ped_disk_get_partition ?d i = Some p \<longrightarrow> type_of ?d p \<noteq> PED_PARTITION_EXTENDED"
    by (simp add: none)
  from b[OF this] show ?thesis by blast
qed

text \<open>
  C11. A chain of extended boot records need not end. If every record of a set of sectors holds no
  logical partition, and its first link leads to another sector of the set, reading any of them
  does not return, whatever the number of nested calls (in the C code, until the stack is full): the
  check for a recursive table only compares a record with itself.
\<close>
theorem empty_ebr_cycle_never_returns:
  fixes d :: DosDisk
  defines "ext_start \<equiv> g_start (geom_of d (the (ped_disk_extended_partition d)))"
  assumes "\<forall>s \<in> S. \<exists>raw p. ptt_read_sector ops (d_dev d) s st = Some raw \<and> tab_magic (table_of_bytes raw) = MSDOS_MAGIC \<and>
      (\<forall>e \<in> set (partitions (table_of_bytes raw)). raw_type e = 0 \<or> raw_length e = 0 \<or> raw_part_is_extended e) \<and>
      find raw_part_is_extended (partitions (table_of_bytes raw)) = Some p \<and>
      linear_start p ext_start \<noteq> s \<and> linear_start p ext_start \<in> S"
    and "sector \<in> S"
  shows "read_table n ops ask fs_types sector True d st = None"
  using assms(3)
proof (induction n arbitrary: sector)
  case (Suc n)
  obtain raw p where r: "ptt_read_sector ops (d_dev d) sector st = Some raw" "tab_magic (table_of_bytes raw) = MSDOS_MAGIC"
    "\<forall>e \<in> set (partitions (table_of_bytes raw)). raw_type e = 0 \<or> raw_length e = 0 \<or> raw_part_is_extended e"
    "find raw_part_is_extended (partitions (table_of_bytes raw)) = Some p"
    "linear_start p ext_start \<noteq> sector" "linear_start p ext_start \<in> S"
    using assms(2) Suc.prems by blast
  have m: "tab_magic (table_of_bytes raw) \<noteq> PARTITION_MAGIC_MAGIC" by (simp add: r(2) MSDOS_MAGIC_def PARTITION_MAGIC_MAGIC_def)
  have e: "read_entries ops ask fs_types rec sector True (zip [0 .. int DOS_N_PRI_PARTITIONS - 1] (partitions (table_of_bytes raw))) d st
      = Some (True, d, st)" for rec
    by (rule empty_table_entries) (use r(3) in \<open>auto dest: set_zip_rightD\<close>)
  have "read_nested (\<lambda>s. read_table n ops ask fs_types s True) sector (partitions (table_of_bytes raw)) d st = None"
    by (rule nested_first_link[OF r(4)]) (use r(5,6) Suc.IH in \<open>simp_all add: ext_start_def\<close>)
  then show ?case using r(1,2) m e by (simp add: Let_def)
qed simp

text \<open>Two records that link to each other.\<close>

definition cycle_record :: "32 word \<Rightarrow> byte list" where
  "cycle_record s = table_bytes \<lparr>boot_code = replicate 440 0, mbr_signature = 0, Unknown = 0,
     partitions = [empty_part\<lparr>raw_type := 0x05, raw_start := s, raw_length := 63\<rparr>, empty_part, empty_part, empty_part],
     tab_magic = MSDOS_MAGIC\<rparr>"

definition cycle_ram :: "ram io_state" where
  "cycle_ram = ram_state 10000 512 (\<lambda>j. if j = 2016 then cycle_record 1000 else if j = 3016 then cycle_record 0 else replicate 512 0)"

theorem empty_ebr_cycle_never_returns_witness:
  "\<forall>n. read_table n ebr_ops (\<lambda>_. PED_EXCEPTION_CANCEL) [] 2016 True ebr_demo cycle_ram = None"
proof
  fix n
  have w: "working_device ebr_ops 0 ebr_img cycle_ram" unfolding cycle_ram_def by (rule ram_working) simp_all
  have wf: "table_wf \<lparr>boot_code = replicate 440 0, mbr_signature = 0, Unknown = 0,
     partitions = [empty_part\<lparr>raw_type := 0x05, raw_start := s, raw_length := 63\<rparr>, empty_part, empty_part, empty_part],
     tab_magic = MSDOS_MAGIC\<rparr>" for s by (simp add: table_wf_def DOS_N_PRI_PARTITIONS_def)
  have t: "table_of_bytes (cycle_record s) = \<lparr>boot_code = replicate 440 0, mbr_signature = 0, Unknown = 0,
     partitions = [empty_part\<lparr>raw_type := 0x05, raw_start := s, raw_length := 63\<rparr>, empty_part, empty_part, empty_part],
     tab_magic = MSDOS_MAGIC\<rparr>" for s
    using table_roundtrip[OF wf, of s "[]"] by (simp add: cycle_record_def)
  have len: "length (cycle_record s) = 512" for s by (simp add: cycle_record_def length_table_bytes[OF wf])
  have dev: "in_device cycle_ram 0 2016 1" "in_device cycle_ram 0 3016 1"
    by (simp_all add: in_device_def cycle_ram_def ram_state_def)
  have rd: "ptt_read_sector ebr_ops 0 2016 cycle_ram = Some (cycle_record 1000)" "ptt_read_sector ebr_ops 0 3016 cycle_ram = Some (cycle_record 0)"
    using read_sector_eq[OF w dev(1)] read_sector_eq[OF w dev(2)] len by (simp_all add: cycle_ram_def ram_state_def ram_blk_def)
  have ty: "raw_type empty_part = 0" "raw_part_is_extended (empty_part\<lparr>raw_type := 0x05, raw_start := s, raw_length := 63\<rparr>)" for s
    by (simp_all add: empty_part_def raw_part_of_bytes_def raw_part_is_extended_def)
  have "\<forall>s \<in> {2016, 3016}. \<exists>raw p. ptt_read_sector ebr_ops (d_dev ebr_demo) s cycle_ram = Some raw \<and>
      tab_magic (table_of_bytes raw) = MSDOS_MAGIC \<and>
      (\<forall>e \<in> set (partitions (table_of_bytes raw)). raw_type e = 0 \<or> raw_length e = 0 \<or> raw_part_is_extended e) \<and>
      find raw_part_is_extended (partitions (table_of_bytes raw)) = Some p \<and>
      linear_start p 2016 \<noteq> s \<and> linear_start p 2016 \<in> {2016, 3016}"
    using rd t ty by (simp add: ebr_demo_facts(10) linear_start_def)
  from empty_ebr_cycle_never_returns[where S = "{2016, 3016}" and d = ebr_demo and ops = ebr_ops and st = cycle_ram,
      unfolded ebr_demo_facts(7), OF this]
  show "read_table n ebr_ops (\<lambda>_. PED_EXCEPTION_CANCEL) [] 2016 True ebr_demo cycle_ram = None" by simp
qed

end
