(* ===== verification/Gpt_Disk.thy ===== *)
theory Gpt_Disk
  imports Gpt_Format Disk_IO
begin

text \<open>
  Reading and writing the GPT label (\<open>libparted/labels/gpt.c\<close>): probing, the validity of a
  header, reading the two copies, and writing them. \<open>PedSector\<close> values read from 64-bit
  fields are their signed readings; the product of entry size and entry count is taken in 32
  bits, as in the code. Exceptions are answered by \<open>ask\<close>; \<open>probe_fs\<close> stands for
  \<open>ped_file_system_probe\<close> (theory \<open>Filesys\<close>), and \<open>commit\<close> for
  \<open>ped_disk_commit_to_dev\<close> with the write function of this theory.
\<close>

abbreviation pth_size :: "'s io_state \<Rightarrow> dev_ref \<Rightarrow> nat" where
  "pth_size st dev \<equiv> nat (sector_size (dev_of st dev))"

section \<open>Probing\<close>

definition gpt_probe :: "'s PedDeviceArchOps \<Rightarrow> dev_ref \<Rightarrow> 's io_state \<Rightarrow> bool" where
  "gpt_probe ops dev st =
     (if dev_length (dev_of st dev) \<le> 1 then False
      else case ptt_read_sector ops dev 0 st of
        None \<Rightarrow> False
      | Some label \<Rightarrow>
          if \<not> pmbr_is_valid (mbr_of_bytes label) then False
          else let (ok1, raw1) = ped_device_read ops dev (uninit_buffer (pth_size st dev)) 1 1 st;
                   (ok, raw) = (if ok1 then (True, raw1)
                                else ped_device_read ops dev raw1 (dev_length (dev_of st dev) - 1) 1 st)
               in ok \<and> Signature (pth_new_from_raw raw) = GPT_HEADER_SIGNATURE)"

section \<open>Reading a header and its entry array\<close>

definition ptes_bytes_of :: "GuidPartitionTableHeader_t \<Rightarrow> nat" where
  "ptes_bytes_of gpt = unat (SizeOfPartitionEntry gpt * NumberOfPartitionEntries gpt)"

definition gpt_read_PE_array ::
    "'s PedDeviceArchOps \<Rightarrow> dev_ref \<Rightarrow> GuidPartitionTableHeader_t \<Rightarrow> 's io_state \<Rightarrow> (byte list \<times> nat) option" where
  "gpt_read_PE_array ops dev gpt st =
     (let ptes_bytes = ptes_bytes_of gpt;
          ss = sector_size (dev_of st dev);
          ptes_sectors = ped_div_round_up (int ptes_bytes) ss
      in if ptes_sectors * ss \<ge> 2 ^ 63 then None
         else let (ok, ptes) = ped_device_read ops dev (uninit_buffer (nat (ptes_sectors * ss)))
                    (sint (PartitionEntryLBA gpt)) ptes_sectors st
              in if ok then Some (ptes, ptes_bytes) else None)"

text \<open>\<open>None\<close> when the array cannot be read, otherwise whether its checksum is right.\<close>

definition check_PE_array_CRC ::
    "'s PedDeviceArchOps \<Rightarrow> dev_ref \<Rightarrow> GuidPartitionTableHeader_t \<Rightarrow> 's io_state \<Rightarrow> bool option" where
  "check_PE_array_CRC ops dev gpt st =
     (case gpt_read_PE_array ops dev gpt st of
        None \<Rightarrow> None
      | Some (ptes, ptes_bytes) \<Rightarrow> Some (efi_crc32 (take ptes_bytes ptes) = PartitionEntryArrayCRC32 gpt))"

definition header_is_valid ::
    "'s PedDeviceArchOps \<Rightarrow> dev_ref \<Rightarrow> GuidPartitionTableHeader_t \<Rightarrow> PedSector \<Rightarrow> 's io_state \<Rightarrow> bool" where
  "header_is_valid ops dev gpt my_lba st =
     (let ss = sector_size (dev_of st dev);
          pe_size = unat (SizeOfPartitionEntry gpt);
          alt_lba = sint (HdrAlternateLBA gpt);
          first_usable = sint (FirstUsableLBA gpt);
          last_usable = sint (LastUsableLBA gpt)
      in if Signature gpt \<noteq> GPT_HEADER_SIGNATURE then False
         else if unat (HeaderSize gpt) < pth_get_size_static \<or> int (unat (HeaderSize gpt)) > ss then False
         else if pe_size mod 8 \<noteq> 0 \<or> \<not> (128 \<le> pe_size \<and> pe_size \<le> 0xfffffff) then False
         else if MyLBA gpt \<noteq> word_of_int my_lba then False
         else if my_lba \<noteq> 1 \<and> alt_lba \<noteq> 1 then False
         else if alt_lba = my_lba then False
         else if check_PE_array_CRC ops dev gpt st \<noteq> Some True then False
         else if first_usable < 3 then False
         else if last_usable < first_usable then False
         else pth_crc32 (gpt\<lparr>HeaderCRC32 := 0\<rparr>) = HeaderCRC32 gpt)"

definition ptes_sectors_of :: "'s io_state \<Rightarrow> dev_ref \<Rightarrow> GuidPartitionTableHeader_t \<Rightarrow> PedSector" where
  "ptes_sectors_of st dev gpt =
     (let b = ptes_bytes_of gpt; b = (if b < 128 * 128 then 128 * 128 else b)
      in ped_div_round_up (int b) (sector_size (dev_of st dev)))"

definition hdr_disk_end :: "'s io_state \<Rightarrow> dev_ref \<Rightarrow> GuidPartitionTableHeader_t \<Rightarrow> PedSector" where
  "hdr_disk_end st dev gpt = sint (LastUsableLBA gpt) + 1 + ptes_sectors_of st dev gpt"

definition set_specific :: "(GPTDiskData \<Rightarrow> GPTDiskData) \<Rightarrow> GptDisk \<Rightarrow> GptDisk" where
  "set_specific f d = d\<lparr>d_specific := f (d_specific d)\<rparr>"

definition warn :: "PedExceptionType \<Rightarrow> PedExceptionOption \<Rightarrow> string \<Rightarrow> ped_arg list \<Rightarrow> PedException" where
  "warn ty opts fmt args = \<lparr>ex_type = ty, ex_options = opts, ex_format = fmt, ex_args = args\<rparr>"

text \<open>Returns the status, the table, whether an update is needed, and the device state.\<close>

definition parse_header ::
    "PedExceptionHandler \<Rightarrow> 's PedDeviceArchOps \<Rightarrow> GuidPartitionTableHeader_t \<Rightarrow> GptDisk \<Rightarrow> 's io_state \<Rightarrow>
     bool \<times> GptDisk \<times> bool \<times> 's io_state" where
  "parse_header ask ops gpt d st =
     (let dev = d_dev d; len = dev_length (dev_of st dev);
          first_usable = sint (FirstUsableLBA gpt);
          last_usable = sint (LastUsableLBA gpt);
          last_usable_if_grown = len - 2 - ptes_sectors_of st dev gpt
      in if Revision gpt > GPT_HEADER_REVISION_V1_02 \<and>
            ask (warn PED_EXCEPTION_WARNING PED_EXCEPTION_IGNORE_CANCEL
              ''The format of the GPT partition table is version %x, which is newer than what Parted can recognise.  Please report this!''
              [AInt (uint (Revision gpt))]) \<noteq> PED_EXCEPTION_IGNORE
         then (False, d, False, st)
         else if last_usable \<le> first_usable \<or> len < last_usable then (False, d, False, st)
         else if last_usable_if_grown \<le> first_usable \<or> len < last_usable_if_grown then (False, d, False, st)
         else let (last_usable, d, upd, st) =
                (if last_usable < last_usable_if_grown \<and>
                    ask (warn PED_EXCEPTION_WARNING (PED_EXCEPTION_FIX + PED_EXCEPTION_IGNORE)
                      ''Not all of the space available to %s appears to be used, you can fix the GPT to use all of the space (an extra %llu blocks) or continue with the current setting? ''
                      [AStr (dev_path (dev_of st dev)), AInt (last_usable_if_grown - last_usable)]) = PED_EXCEPTION_FIX
                 then (last_usable_if_grown, set_specific (\<lambda>s. s\<lparr>AlternateLBA := len - 1\<rparr>) d, True,
                       snd (ptt_clear_sectors ops dev (AlternateLBA (d_specific d)) 1 st))
                 else (last_usable, d, False, st))
              in (True, set_specific (\<lambda>s. s
                    \<lparr>data_area := (case ped_geometry_init (data_area s) dev first_usable (last_usable - first_usable + 1) of
                        Inr g \<Rightarrow> g | Inl _ \<Rightarrow> (data_area s)\<lparr>g_dev := dev\<rparr>),
                     entry_count := sint (NumberOfPartitionEntries gpt), disk_uuid := DiskGUID gpt\<rparr>) d, upd, st))"

definition parse_part_entry ::
    "(GptDisk \<Rightarrow> efi_guid_t) \<Rightarrow> GptDisk \<Rightarrow> GuidPartitionEntry_t \<Rightarrow> GptPart result" where
  "parse_part_entry fresh_uuid d pte =
     (case ped_partition_new (gpt_disk_ops fresh_uuid) d PED_PARTITION_NORMAL None
             (sint (StartingLBA pte)) (sint (EndingLBA pte)) of
        Inl e \<Rightarrow> Inl e
      | Inr part \<Rightarrow> Inr (upd_data (\<lambda>x. x\<lparr>gp_type := PartitionTypeGuid pte, gp_uuid := UniquePartitionGuid pte,
          gp_name := PartitionName pte @ [0], translated_name := None, attributes := Attributes pte\<rparr>) part))"

text \<open>The status is \<open>True\<close> when a read failed; the headers are those found valid.\<close>

definition gpt_read_headers ::
    "'s PedDeviceArchOps \<Rightarrow> GptDisk \<Rightarrow> 's io_state \<Rightarrow>
     bool \<times> GptDisk \<times> GuidPartitionTableHeader_t option \<times> GuidPartitionTableHeader_t option" where
  "gpt_read_headers ops d st =
     (let dev = d_dev d in
      case ptt_read_sector ops dev 0 st of
        None \<Rightarrow> (True, d, None, None)
      | Some mbr \<Rightarrow>
          let d = (if BootIndicator (PartitionRecord (mbr_of_bytes mbr) ! 0) = 0x80
                   then set_specific (\<lambda>s. s\<lparr>pmbr_boot := 1\<rparr>) d else d)
          in case ptt_read_sector ops dev 1 st of
               None \<Rightarrow> (True, d, None, None)
             | Some s1 \<Rightarrow>
                 let pri = pth_new_from_raw s1;
                     valid_primary = header_is_valid ops dev pri 1 st;
                     primary = (if valid_primary then Some pri else None);
                     alt = (if valid_primary then sint (HdrAlternateLBA pri) else dev_length (dev_of st dev) - 1);
                     d = set_specific (\<lambda>s. s\<lparr>AlternateLBA := alt\<rparr>) d
                 in case ptt_read_sector ops dev alt st of
                      None \<Rightarrow> (True, d, primary, None)
                    | Some s_bak \<Rightarrow>
                        let bak = pth_new_from_raw s_bak
                        in (False, d, primary, if header_is_valid ops dev bak alt st then Some bak else None))"

text \<open>The decision which of the two headers to use; \<open>None\<close> when reading stops.\<close>

definition choose_header ::
    "PedExceptionHandler \<Rightarrow> 's PedDeviceArchOps \<Rightarrow> GptDisk \<Rightarrow> GuidPartitionTableHeader_t option \<Rightarrow>
     GuidPartitionTableHeader_t option \<Rightarrow> 's io_state \<Rightarrow>
     (GuidPartitionTableHeader_t \<times> GptDisk \<times> bool \<times> 's io_state) option" where
  "choose_header ask ops d primary backup st =
     (case (primary, backup) of
        (Some p, Some b) \<Rightarrow>
          let alt = sint (HdrAlternateLBA p);
              d = set_specific (\<lambda>s. s\<lparr>AlternateLBA := alt\<rparr>) d;
              last = dev_length (dev_of st (d_dev d)) - 1
          in if alt \<noteq> last \<and> alt \<noteq> hdr_disk_end st (d_dev d) p \<and>
                ask (warn PED_EXCEPTION_ERROR (PED_EXCEPTION_FIX + PED_EXCEPTION_IGNORE)
                  ''The backup GPT table is not at the end of the disk, as it should be.  Fix, by moving the backup to the end (and removing the old backup)?'' [])
                = PED_EXCEPTION_FIX
             then Some (p, set_specific (\<lambda>s. s\<lparr>AlternateLBA := last\<rparr>) d, True,
                        snd (ptt_clear_sectors ops (d_dev d) alt 1 st))
             else Some (p, d, False, st)
      | (None, None) \<Rightarrow> None
      | (Some p, None) \<Rightarrow>
          if ask (warn PED_EXCEPTION_ERROR (PED_EXCEPTION_OK + PED_EXCEPTION_CANCEL)
               ''The backup GPT table is corrupt, but the primary appears OK, so that will be used.'' [])
             = PED_EXCEPTION_CANCEL then None else Some (p, d, False, st)
      | (None, Some b) \<Rightarrow>
          if ask (warn PED_EXCEPTION_ERROR (PED_EXCEPTION_OK + PED_EXCEPTION_CANCEL)
               ''The primary GPT table is corrupt, but the backup appears OK, so that will be used.'' [])
             = PED_EXCEPTION_CANCEL then None else Some (b, d, False, st))"

text \<open>One pass of the loop over the entries; the product with the entry size has 32 bits.\<close>

definition read_entry ::
    "(GptDisk \<Rightarrow> efi_guid_t) \<Rightarrow> PedExceptionHandler \<Rightarrow> (PedGeometry \<Rightarrow> string option) \<Rightarrow> dev_table \<Rightarrow>
     byte list \<Rightarrow> nat \<Rightarrow> int \<Rightarrow> GptDisk \<Rightarrow> bool \<times> GptDisk" where
  "read_entry fresh_uuid ask probe_fs devs ptes p_ent_size i d =
     (let pte = pte_of_bytes (field (nat i * p_ent_size mod 2 ^ 32) 128 ptes)
      in if guid_eq (PartitionTypeGuid pte) UNUSED_ENTRY_GUID then (True, d)
         else case parse_part_entry fresh_uuid d pte of
           Inl _ \<Rightarrow> (False, d)
         | Inr p \<Rightarrow>
             let (d1, part) = alloc_node d (p\<lparr>p_fs := probe_fs (p_geom p), p_num := i + 1\<rparr>)
             in case ped_disk_add_partition (gpt_disk_ops fresh_uuid) devs ask part
                       (ped_constraint_exact devs (geom_of d1 part)) d1 of
                  (Inl _, d2) \<Rightarrow> (False, ped_partition_destroy part d2)
                | (Inr _, d2) \<Rightarrow> (True, d2))"

definition gpt_read ::
    "(GptDisk \<Rightarrow> efi_guid_t) \<Rightarrow> PedExceptionHandler \<Rightarrow> 's PedDeviceArchOps \<Rightarrow> (PedGeometry \<Rightarrow> string option) \<Rightarrow>
     (GptDisk \<Rightarrow> 's io_state \<Rightarrow> GptDisk \<times> 's io_state) \<Rightarrow> GptDisk \<Rightarrow> 's io_state \<Rightarrow> bool \<times> GptDisk \<times> 's io_state" where
  "gpt_read fresh_uuid ask ops probe_fs commit d st =
     (let T = gpt_disk_ops fresh_uuid; dev = d_dev d; devs = dev_tab st;
          d = ped_disk_delete_all T devs ask d
      in if \<not> gpt_probe ops dev st then (False, d, st)
         else case gpt_read_headers ops d st of
           (True, d, _, _) \<Rightarrow> (False, d, st)
         | (False, d, primary, backup) \<Rightarrow>
             (case choose_header ask ops d primary backup st of
                None \<Rightarrow> (False, d, st)
              | Some (gpt, d, back1, st) \<Rightarrow>
                  (case parse_header ask ops gpt d st of
                     (False, d, _, st) \<Rightarrow> (False, d, st)
                   | (True, d, back2, st) \<Rightarrow>
                       (case gpt_read_PE_array ops dev gpt st of
                          None \<Rightarrow> (False, d, st)
                        | Some (ptes, ptes_bytes) \<Rightarrow>
                            if efi_crc32 (take ptes_bytes ptes) \<noteq> PartitionEntryArrayCRC32 gpt then (False, d, st)
                            else case while_ok (read_entry fresh_uuid ask probe_fs devs ptes (unat (SizeOfPartitionEntry gpt)))
                                        [0..entry_count (d_specific d) - 1] d of
                              (False, d) \<Rightarrow> (False, ped_disk_delete_all T devs ask d, st)
                            | (True, d) \<Rightarrow>
                                let (d, st) = (if back1 \<or> back2 then commit d st else (d, st))
                                in (True, d, st)))))"

section \<open>Writing\<close>

definition write_pmbr ::
    "'s PedDeviceArchOps \<Rightarrow> dev_ref \<Rightarrow> bool \<Rightarrow> 's io_state \<Rightarrow> bool \<times> 's io_state" where
  "write_pmbr ops dev boot st =
     (case ptt_read_sector ops dev 0 st of
        None \<Rightarrow> (False, st)
      | Some s0 \<Rightarrow> ped_device_write ops dev (make_pmbr (dev_length (dev_of st dev)) boot s0) 0 1 st)"

definition array_sectors :: "'s io_state \<Rightarrow> GptDisk \<Rightarrow> PedSector" where
  "array_sectors st d =
     (let ss = sector_size (dev_of st (d_dev d)) in (entry_count (d_specific d) * 128 + ss - 1) sdiv ss)"

definition generate_header :: "'s io_state \<Rightarrow> GptDisk \<Rightarrow> bool \<Rightarrow> 32 word \<Rightarrow> GuidPartitionTableHeader_t" where
  "generate_header st d alternate ptes_crc =
     (let s = d_specific d;
          gpt = (pth_new_zeroed (pth_size st (d_dev d)))
            \<lparr>Signature := GPT_HEADER_SIGNATURE, Revision := GPT_HEADER_REVISION_V1_00,
             HeaderSize := of_nat pth_get_size_static, HeaderCRC32 := 0, Reserved1 := 0\<rparr>;
          gpt = (if alternate
                 then gpt\<lparr>MyLBA := word_of_int (AlternateLBA s), HdrAlternateLBA := 1,
                          PartitionEntryLBA := word_of_int (AlternateLBA s - array_sectors st d)\<rparr>
                 else gpt\<lparr>MyLBA := 1, HdrAlternateLBA := word_of_int (AlternateLBA s), PartitionEntryLBA := 2\<rparr>);
          gpt = gpt\<lparr>FirstUsableLBA := word_of_int (g_start (data_area s)),
                    LastUsableLBA := word_of_int (g_end (data_area s)), DiskGUID := disk_uuid s,
                    NumberOfPartitionEntries := word_of_int (entry_count s), SizeOfPartitionEntry := 128,
                    PartitionEntryArrayCRC32 := ptes_crc\<rparr>
      in gpt\<lparr>HeaderCRC32 := pth_crc32 gpt\<rparr>)"

definition generate_part_entry :: "GptPart \<Rightarrow> GuidPartitionEntry_t" where
  "generate_part_entry part =
     (let x = the (p_specific part)
      in \<lparr>PartitionTypeGuid = gp_type x, UniquePartitionGuid = gp_uuid x,
          StartingLBA = word_of_int (g_start (p_geom part)), EndingLBA = word_of_int (g_end (p_geom part)),
          Attributes = attributes x, PartitionName = take 36 (gp_name x)\<rparr>)"

text \<open>The assignment \<open>ptes[i] = e\<close> in the bytes of the array.\<close>

definition store :: "nat \<Rightarrow> byte list \<Rightarrow> byte list \<Rightarrow> byte list" where
  "store off new buf = take off buf @ new @ drop (off + length new) buf"

definition fill_entries :: "GptDisk \<Rightarrow> byte list \<Rightarrow> byte list" where
  "fill_entries d ptes =
     fold (\<lambda>a ptes. if type_of d a \<noteq> 0 then ptes
             else store (nat (p_num (node d a) - 1) * 128) (pte_bytes (generate_part_entry (node d a))) ptes)
       (disk_walk d) ptes"

definition write_all :: "('s io_state \<Rightarrow> bool \<times> 's io_state) list \<Rightarrow> 's io_state \<Rightarrow> bool \<times> 's io_state" where
  "write_all ws st = while_ok (\<lambda>w st. w st) ws st"

definition gpt_write :: "'s PedDeviceArchOps \<Rightarrow> GptDisk \<Rightarrow> 's io_state \<Rightarrow> bool \<times> 's io_state" where
  "gpt_write ops d st =
     (let dev = d_dev d; s = d_specific d; ss = sector_size (dev_of st dev);
          ptes_bytes = nat (entry_count s * 128);
          ptes_sectors = array_sectors st d;
          ptes = fill_entries d (replicate (nat (ptes_sectors * ss)) 0);
          ptes_crc = efi_crc32 (take ptes_bytes ptes)
      in write_all
           [write_pmbr ops dev (pmbr_boot s \<noteq> 0),
            ped_device_write ops dev (pth_get_raw (generate_header st d False ptes_crc)) 1 1,
            ped_device_write ops dev ptes 2 ptes_sectors,
            ped_device_write ops dev (pth_get_raw (generate_header st d True ptes_crc)) (AlternateLBA s) 1,
            ped_device_write ops dev ptes (AlternateLBA s - ptes_sectors) ptes_sectors,
            ped_device_sync ops dev] st)"

section \<open>Limits\<close>

text \<open>
  The number of entries between the primary array and the first partition. The header
  is read from the sector behind the last one of the device.
\<close>

definition gpt_get_max_supported_partition_count ::
    "'s PedDeviceArchOps \<Rightarrow> GptDisk \<Rightarrow> 's io_state \<Rightarrow> int option" where
  "gpt_get_max_supported_partition_count ops d st =
     (let dev = d_dev d;
          (ok1, raw1) = ped_device_read ops dev (uninit_buffer (pth_size st dev)) 1 1 st;
          (ok, raw) = (if ok1 then (True, raw1)
                       else ped_device_read ops dev raw1 (dev_length (dev_of st dev)) 1 st)
      in if \<not> ok then None
         else let pth = pth_new_from_raw raw;
                  pth = (if header_is_valid ops dev pth 1 st then pth
                         else pth\<lparr>FirstUsableLBA := 34, SizeOfPartitionEntry := 128\<rparr>)
              in Some (c_int (uint (word_of_int (sector_size (dev_of st dev)) * (FirstUsableLBA pth - 2)
                   div ucast (SizeOfPartitionEntry pth)))))"

end
