(* ===== verification/Loop.thy ===== *)
theory Loop
  imports Disk_Label Pt_Limit
begin

text \<open>
  The label type \<open>loop\<close> (\<open>libparted/labels/loop.c\<close>): a device without a partition table is
  shown as one partition that spans it. The operations of \<open>loop_disk_ops\<close> that work on the
  table object, \<open>loop_alloc\<close> and \<open>loop_duplicate\<close>; the theory interprets the label contract.
\<close>

type_synonym LoopDisk = "(unit, unit) PedDisk"
type_synonym LoopPart = "unit PedPartition"

section \<open>Operations\<close>

definition loop_partition_new ::
    "LoopDisk \<Rightarrow> nat \<Rightarrow> string option \<Rightarrow> PedSector \<Rightarrow> PedSector \<Rightarrow> LoopPart result" where
  "loop_partition_new d part_type fs_type start endd = ped_partition_alloc d part_type fs_type start endd ()"

definition loop_partition_set_system :: "LoopPart \<Rightarrow> string option \<Rightarrow> LoopPart result" where
  "loop_partition_set_system part fs_type = Inr (part\<lparr>p_fs := fs_type\<rparr>)"

definition loop_partition_set_flag :: "LoopDisk \<Rightarrow> addr \<Rightarrow> int \<Rightarrow> bool \<Rightarrow> bool \<times> LoopDisk" where
  "loop_partition_set_flag d part flag state = (False, d)"

definition loop_partition_get_flag :: "LoopPart \<Rightarrow> int \<Rightarrow> bool" where
  "loop_partition_get_flag part flag = False"

definition loop_partition_is_flag_available :: "LoopPart \<Rightarrow> int \<Rightarrow> bool" where
  "loop_partition_is_flag_available part flag = False"

definition loop_partition_align ::
    "dev_table \<Rightarrow> LoopDisk \<Rightarrow> addr \<Rightarrow> PedConstraint option \<Rightarrow> PedGeometry result" where
  "loop_partition_align devs d part con =
     (case ped_constraint_solve_nearest devs con (geom_of d part) of
        None \<Rightarrow> Inl (Some (error_cancel ''Unable to satisfy all constraints on the partition.'' []))
      | Some new_geom \<Rightarrow>
          (case ped_geometry_set (geom_of d part) (g_start new_geom) (g_length new_geom) of
             Inl _ \<Rightarrow> Inr (geom_of d part)
           | Inr g \<Rightarrow> Inr g))"

definition loop_partition_enumerate :: "LoopDisk \<Rightarrow> addr \<Rightarrow> bool \<times> int" where
  "loop_partition_enumerate d part = (True, 1)"

definition loop_partition_check :: "LoopPart \<Rightarrow> unit result" where
  "loop_partition_check part = ptt_partition_max_start_len ''loop'' (p_geom part)"

definition loop_get_max_primary_partition_count :: "LoopDisk \<Rightarrow> int" where
  "loop_get_max_primary_partition_count d = 1"

definition loop_alloc_metadata ::
    "dev_table \<Rightarrow> PedExceptionHandler \<Rightarrow> LoopDisk \<Rightarrow> bool \<times> LoopDisk" where
  "loop_alloc_metadata devs ask d = (True, d)"

text \<open>
  The operations table. \<open>loop_partition_duplicate\<close> calls back \<open>ped_partition_new\<close>, which uses
  two fields of the table: the table without it is defined first.
\<close>

definition loop_base_ops :: "(unit, unit) PedDiskOps" where
  "loop_base_ops = \<lparr>t_name = ''loop'', t_features = 0,
     op_partition_new = loop_partition_new,
     op_partition_duplicate = (\<lambda>_ _. Inl None),
     op_partition_set_system = loop_partition_set_system,
     op_partition_align = loop_partition_align,
     op_partition_enumerate = loop_partition_enumerate,
     op_partition_check = loop_partition_check,
     op_get_max_primary_partition_count = loop_get_max_primary_partition_count,
     op_partition_is_flag_available = loop_partition_is_flag_available,
     op_partition_set_flag = loop_partition_set_flag,
     op_partition_get_flag = loop_partition_get_flag,
     op_alloc_metadata = loop_alloc_metadata\<rparr>"

definition loop_partition_duplicate :: "LoopDisk \<Rightarrow> LoopPart \<Rightarrow> LoopPart result" where
  "loop_partition_duplicate d part =
     (case ped_partition_new loop_base_ops d (p_type part) (p_fs part)
             (g_start (p_geom part)) (g_end (p_geom part)) of
        Inl e \<Rightarrow> Inl e
      | Inr result \<Rightarrow> Inr (result\<lparr>p_num := p_num part\<rparr>))"

definition loop_disk_ops :: "(unit, unit) PedDiskOps" where
  "loop_disk_ops = loop_base_ops\<lparr>op_partition_duplicate := loop_partition_duplicate\<rparr>"

definition loop_alloc :: "dev_table \<Rightarrow> PedExceptionHandler \<Rightarrow> dev_ref \<Rightarrow> LoopDisk option" where
  "loop_alloc devs ask dev =
     (if dev_length (devs dev) < 256 then None
      else
        let disk = ped_disk_alloc dev ();
            geom = the (ptr_of (ped_geometry_new dev 0 (dev_length (devs dev))));
            (disk1, part) = alloc_node disk
              (the (ptr_of (ped_partition_new loop_disk_ops disk PED_PARTITION_NORMAL None
                              (g_start geom) (g_end geom))))
        in case ped_disk_add_partition loop_disk_ops devs ask part (ped_constraint_any devs dev) disk1 of
             (Inl _, _) \<Rightarrow> None
           | (Inr _, disk2) \<Rightarrow> Some disk2)"

definition loop_duplicate :: "dev_table \<Rightarrow> PedExceptionHandler \<Rightarrow> LoopDisk \<Rightarrow> LoopDisk option" where
  "loop_duplicate devs ask d = ped_disk_new_fresh loop_disk_ops devs ask (loop_alloc devs ask) (d_dev d)"

section \<open>The label contract\<close>

lemma loop_ops_simps [simp]:
  "t_features loop_disk_ops = 0" "op_partition_new loop_disk_ops = loop_partition_new"
  "op_partition_align loop_disk_ops = loop_partition_align"
  "op_partition_enumerate loop_disk_ops = loop_partition_enumerate"
  "op_alloc_metadata loop_disk_ops = loop_alloc_metadata"
  "op_partition_set_system loop_disk_ops = loop_partition_set_system"
  "op_partition_check loop_disk_ops = loop_partition_check"
  "op_get_max_primary_partition_count loop_disk_ops = loop_get_max_primary_partition_count"
  "op_partition_duplicate loop_disk_ops = loop_partition_duplicate"
  by (simp_all add: loop_disk_ops_def loop_base_ops_def)

lemma loop_partition_new_eq:
  "s \<le> e \<Longrightarrow> ty \<noteq> PED_PARTITION_EXTENDED \<Longrightarrow> ty \<noteq> PED_PARTITION_LOGICAL \<Longrightarrow>
   ped_partition_new loop_disk_ops d ty None s e =
     Inr \<lparr>p_geom = \<lparr>g_dev = d_dev d, g_start = s, g_length = e - s + 1, g_end = e\<rparr>, p_num = - 1,
       p_type = ty, p_fs = None, p_list = [], p_specific = ()\<rparr>"
  by (simp add: ped_partition_new_def loop_partition_new_def ped_partition_alloc_def geom_simps
      uninit_geometry_def)

interpretation loop: disk_label loop_disk_ops "\<lambda>_ _. True" "\<lambda>_ _ _ _. True"
proof (unfold_locales)
  fix s e :: PedSector and ty and d :: LoopDisk
  assume "s \<le> e" "ty = PED_PARTITION_FREESPACE \<or> ty = PED_PARTITION_FREESPACE + PED_PARTITION_LOGICAL"
  then show "\<exists>p. ped_partition_new loop_disk_ops d ty None s e = Inr p \<and>
        p_geom p = \<lparr>g_dev = d_dev d, g_start = s, g_length = e - s + 1, g_end = e\<rparr> \<and>
        p_type p = ty \<and> p_list p = []"
    using loop_partition_new_eq[of s e ty d] by auto
next
  fix devs and d :: LoopDisk and p con g c
  assume al: "op_partition_align loop_disk_ops devs d p con = Inr g" and c: "con = Some c" "constraint_wf c"
    and dev: "g_dev (geom_of d p) = d_dev d"
  obtain n where n: "ped_constraint_solve_nearest devs (Some c) (geom_of d p) = Some n"
    using al c by (auto simp: loop_partition_align_def split: option.splits)
  note sol = solve_nearest_solution[OF c(2) n]
  have "g = n"
    using al c n sol by (auto simp: loop_partition_align_def geom_simps geom_wf_def split: if_splits)
  then show "ped_constraint_is_solution c g \<and> geom_wf g \<and> g_dev g = d_dev d \<and> True"
    using sol dev by simp
next
  fix devs and d d' :: LoopDisk and ask r
  assume "table_ok devs d" "lists d = actives d" "op_alloc_metadata loop_disk_ops devs ask d = (r, d')"
  moreover have "filter (\<lambda>a. \<not> is_free (type_of d a)) (actives d k) = actives d k" for k
    by (rule filter_True) (simp add: actives_def is_active_def)
  ultimately show "table_ok devs d' \<and> actives d' = actives d \<and> nonfree d' = lists d' \<and>
      (\<forall>a < next_addr d. core d' a = core d a) \<and> same_disk d d' \<and> update_mode d' = update_mode d
      \<and> next_addr d \<le> next_addr d'"
    by (auto simp: loop_alloc_metadata_def nonfree_def fun_eq_iff)
qed simp_all

section \<open>Properties\<close>

definition demo_ask :: PedExceptionHandler where
  "demo_ask e = PED_EXCEPTION_CANCEL"

definition demo_loop :: LoopDisk where
  "demo_loop = the (ped_disk_new_fresh loop_disk_ops (\<lambda>_. demo_dev) demo_ask
                     (loop_alloc (\<lambda>_. demo_dev) demo_ask) 0)"

text \<open>A partition list as the user sees it: type, first and last sector.\<close>

definition layout :: "('x, 'y) PedDisk \<Rightarrow> (nat \<times> PedSector \<times> PedSector) list" where
  "layout d = map (\<lambda>a. (type_of d a, g_start (geom_of d a), g_end (geom_of d a))) (part_list d)"

text \<open>
  A fresh loop label on a device of 10000 sectors holds one partition that spans the
  device; duplicating this table with \<open>ped_disk_duplicate\<close> gives a table with two partitions
  that both span the device, because \<open>loop_duplicate\<close> already creates the partition that
  \<open>ped_disk_duplicate\<close> then copies once more.
\<close>
theorem loop_duplicate_doubles_partition:
  "layout demo_loop = [(PED_PARTITION_NORMAL, 0, 9999)] \<and>
   map_option layout (ped_disk_duplicate loop_disk_ops (\<lambda>_. demo_dev) demo_ask
     (loop_duplicate (\<lambda>_. demo_dev) demo_ask) demo_loop) =
   Some [(PED_PARTITION_NORMAL, 0, 9999), (PED_PARTITION_NORMAL, 0, 9999)]"
  by code_simp

definition demo_moved :: LoopDisk where
  "demo_moved = snd (ped_disk_set_partition_geom loop_disk_ops (\<lambda>_. demo_dev) demo_ask 0
     (ped_constraint_any (\<lambda>_. demo_dev) 0) 100 199 (demo_loop\<lparr>needs_clobber := False\<rparr>))"

definition unsolvable :: PedConstraint where
  "unsolvable = (the (ped_constraint_any (\<lambda>_. demo_dev) 0))\<lparr>min_size := 20000\<rparr>"

text \<open>
  A move that fails does not restore the table: after \<open>ped_disk_set_partition_geom\<close> has
  failed to move the partition [100, 199] to [5000, 6000], the partition is at [100, 199]
  again, but the free space around it is the one computed for the new place, since
  \<open>_disk_pop_update_mode\<close> runs before the old geometry is restored.
\<close>
theorem failed_move_leaves_wrong_free_space:
  "layout demo_moved = [(PED_PARTITION_FREESPACE, 0, 99), (PED_PARTITION_NORMAL, 100, 199),
     (PED_PARTITION_FREESPACE, 200, 9999)] \<and>
   (case ped_disk_set_partition_geom loop_disk_ops (\<lambda>_. demo_dev) demo_ask 0 (Some unsolvable)
           5000 6000 demo_moved of
      (r, d) \<Rightarrow> isl r \<and>
        layout d = [(PED_PARTITION_FREESPACE, 0, 4999), (PED_PARTITION_NORMAL, 100, 199),
          (PED_PARTITION_FREESPACE, 6001, 9999)])"
  by code_simp

end
