(* ===== verification/Gpt_Table.thy ===== *)
theory Gpt_Table
  imports Gpt Disk_Nested Loop
begin

text \<open>
  The theorems about GPT partition tables that follow from the label contract: a table made
  by \<open>ped_disk_new_fresh\<close> is well formed, and adding, moving, removing and deleting
  partitions keep it so.
\<close>

abbreviation gpt_ok :: "dev_table \<Rightarrow> GptDisk \<Rightarrow> bool" where
  "gpt_ok \<equiv> disk_ok gpt_inv gpt_allowed"

section \<open>Fresh tables\<close>

lemma gpt_clobber [simp]:
  "gpt_inv devs (d\<lparr>needs_clobber := b\<rparr>) = gpt_inv devs d"
  "gpt_allowed devs (d\<lparr>needs_clobber := b\<rparr>) ty g = gpt_allowed devs d ty g"
  by (simp_all add: gpt_inv_def gpt_allowed_def gptlength_def pteslength_def)

lemma gpt_ok_clobber:
  "gpt_ok devs (d\<lparr>needs_clobber := b\<rparr>) \<longleftrightarrow> gpt_ok devs d" "actives (d\<lparr>needs_clobber := b\<rparr>) = actives d"
  by (simp_all add: disk_ok_clobber actives_clobber)

lemma gpt_alloc_inv:
  assumes ss: "128 \<le> sector_size (devs dev)" "sector_size (devs dev) dvd 16384"
    and al: "gpt_alloc uuid devs dev = Some d"
  shows "gpt_inv devs d" "d_dev d = dev" "update_mode d = 1" "part_list d = []" "d_heap d = Map.empty"
    "0 < dev_length (devs dev)"
proof -
  let ?ss = "sector_size (devs dev)" and ?N = "dev_length (devs dev)"
  obtain q where q: "16384 = ?ss * q" using ss(2) by (auto simp: dvd_def)
  have "?ss * q div ?ss = q" using ss(1) by simp
  then have q1: "16384 sdiv ?ss = q" using ss(1) by (simp add: sdiv_nonneg_eq q[symmetric])
  have qpos: "0 \<le> q" using q ss(1) by (smt (verit) mult_less_0_iff)
  have d: "d = ped_disk_alloc dev \<lparr>data_area = geometry_init_local dev (2 + q) (?N - 2 - q - (2 + q) + 1),
      entry_count = 128, disk_uuid = swap_uuid_and_efi_guid uuid, pmbr_boot = 0, AlternateLBA = ?N - 1\<rparr>"
    and N: "2 + q \<le> ?N - 2 - q"
    using al by (auto simp: gpt_alloc_def Let_def q1 split: if_splits)
  show "d_dev d = dev" "update_mode d = 1" "part_list d = []" "d_heap d = Map.empty"
    by (simp_all add: d ped_disk_alloc_def)
  have gl: "ped_div_round_up 100 ?ss = 1"
  proof -
    have "(99 + ?ss) div ?ss = 99 div ?ss + 1" using ss(1) by (intro div_add_self2) simp
    also have "99 div ?ss = 0" using ss(1) by (intro div_pos_pos_trivial) simp_all
    finally show ?thesis using ss(1) by (simp add: ped_div_round_up_def sdiv_nonneg_eq)
  qed
  have pl: "ped_div_round_up (128 * 128) ?ss = q"
  proof -
    have "ped_div_round_up (128 * 128) ?ss = (?ss * q + (?ss - 1)) div ?ss"
      using q ss(1) by (simp add: ped_div_round_up_def sdiv_nonneg_eq)
    also have "\<dots> = q" using ss(1) by (simp add: div_add1_eq)
    finally show ?thesis .
  qed
  show "gpt_inv devs d" "0 < ?N"
    using N qpos gl pl
    by (simp_all add: d gpt_inv_def gptlength_def pteslength_def ped_disk_alloc_def Let_def geom_wf_def)
qed

lemma gpt_fresh_ok:
  assumes ss: "128 \<le> sector_size (devs dev)" "sector_size (devs dev) dvd 16384" and s: "strict ask"
    and f: "ped_disk_new_fresh (gpt_disk_ops u) devs ask (gpt_alloc uuid devs) dev = Some d"
  shows "gpt_ok devs d" "actives d k = []" "needs_clobber d" "d_dev d = dev"
proof -
  obtain d0 where d0: "gpt_alloc uuid devs dev = Some d0"
    using f by (auto simp: ped_disk_new_fresh_def split: option.splits)
  note i = gpt_alloc_inv[OF ss d0]
  have "bare devs dev d0" using i by (simp add: bare_def)
  from gpt.fresh_disk_ok[where alloc = "gpt_alloc uuid devs", OF d0 this i(1) s, of u] f
  show "gpt_ok devs d" "actives d k = []" "needs_clobber d" "d_dev d = dev" by simp_all
qed

section \<open>A concrete table\<close>

definition demo_uuid :: "GptDisk \<Rightarrow> efi_guid_t" where
  "demo_uuid d = PARTITION_SYSTEM_GUID"

abbreviation demo_devs :: dev_table where
  "demo_devs \<equiv> \<lambda>_. demo_dev"

definition demo_fresh :: "GptDisk option" where
  "demo_fresh = ped_disk_new_fresh (gpt_disk_ops demo_uuid) demo_devs demo_ask
     (gpt_alloc PARTITION_SYSTEM_GUID demo_devs) 0"

definition demo_gpt :: GptDisk where
  "demo_gpt = (the demo_fresh)\<lparr>needs_clobber := False\<rparr>"

definition demo_any :: PedConstraint where
  "demo_any = the (ped_constraint_any demo_devs 0)"

text \<open>A partition object [start, endd] that is not linked in yet, and the table with it added.\<close>

definition demo_with :: "PedSector \<Rightarrow> PedSector \<Rightarrow> GptDisk \<Rightarrow> GptDisk \<times> addr" where
  "demo_with start endd d = alloc_node d (the (ptr_of (ped_partition_new (gpt_disk_ops demo_uuid) d
     PED_PARTITION_NORMAL None start endd)))"

definition demo_add :: "PedSector \<Rightarrow> PedSector \<Rightarrow> GptDisk \<Rightarrow> unit result \<times> GptDisk" where
  "demo_add start endd d = (case demo_with start endd d of (d1, part) \<Rightarrow>
     ped_disk_add_partition (gpt_disk_ops demo_uuid) demo_devs demo_ask part (Some demo_any) d1)"

lemma demo_dev_fields: "sector_size demo_dev = 512" "dev_length demo_dev = 10000"
  by (simp_all add: demo_dev_def)

lemma demo_ask_strict: "strict demo_ask"
  by (simp add: strict_def demo_ask_def)

lemma demo_fresh_Some: "demo_fresh \<noteq> None"
  by code_simp

lemma demo_gpt_ok:
  "gpt_ok demo_devs demo_gpt" "actives demo_gpt k = []" "\<not> needs_clobber demo_gpt" "d_dev demo_gpt = 0"
proof -
  obtain d where d: "demo_fresh = Some d" using demo_fresh_Some by blast
  note f = gpt_fresh_ok[OF _ _ demo_ask_strict d[unfolded demo_fresh_def], unfolded demo_dev_fields, simplified]
  show "gpt_ok demo_devs demo_gpt" "actives demo_gpt k = []" "\<not> needs_clobber demo_gpt" "d_dev demo_gpt = 0"
    using f by (simp_all add: demo_gpt_def d gpt_ok_clobber)
qed

lemma demo_any_usable: "d_dev d = 0 \<Longrightarrow> usable d demo_any"
proof -
  assume d: "d_dev d = 0"
  have "0 < dev_length (demo_devs 0)" by (simp add: demo_dev_def)
  then obtain c where "ped_constraint_any demo_devs 0 = Some c" "constraint_wf c" "constraint_small c"
    "constraint_dev c = 0"
    by (rule constraint_any_usable)
  then show ?thesis using d by (simp add: usable_def demo_any_def)
qed

lemma demo_with_ok:
  assumes ok: "gpt_ok demo_devs d" and se: "s \<le> e" and al: "demo_with s e d = (d1, part)"
  shows "gpt_ok demo_devs d1" "unlisted d1 part" "type_of d1 part = PED_PARTITION_NORMAL"
    "g_dev (geom_of d1 part) = d_dev d1" "same_disk d d1" "actives d1 = actives d"
proof -
  obtain p where p: "ped_partition_new (gpt_disk_ops demo_uuid) d PED_PARTITION_NORMAL None s e = Inr p"
    "p_type p = PED_PARTITION_NORMAL" "g_dev (p_geom p) = d_dev d"
    using se by (auto simp: ped_partition_new_def gpt_partition_new_def ped_partition_alloc_def geom_simps)
  have "alloc_node d p = (d1, part)" using al p(1) by (simp add: demo_with_def)
  note a = gpt.alloc_node_disk_ok[OF ok this gpt_new_span[OF p(1)]]
  show "gpt_ok demo_devs d1" "unlisted d1 part" "same_disk d d1" "actives d1 = actives d" using a by simp_all
  show "type_of d1 part = PED_PARTITION_NORMAL" "g_dev (geom_of d1 part) = d_dev d1"
    using a(3,5) p(2,3) by (simp_all add: same_disk_def)
qed

definition demo_new :: "GptDisk \<times> addr" where
  "demo_new = demo_with 2048 4095 demo_gpt"

definition demo_one :: GptDisk where
  "demo_one = snd (demo_add 2048 4095 demo_gpt)"

lemma demo_new_ok:
  "gpt_ok demo_devs (fst demo_new)" "unlisted (fst demo_new) (snd demo_new)"
  "type_of (fst demo_new) (snd demo_new) = PED_PARTITION_NORMAL"
  "g_dev (geom_of (fst demo_new) (snd demo_new)) = d_dev (fst demo_new)"
  "\<not> needs_clobber (fst demo_new)" "usable (fst demo_new) demo_any" "actives (fst demo_new) k = []"
proof -
  note w = demo_with_ok[of demo_gpt 2048 4095 "fst demo_new" "snd demo_new", OF demo_gpt_ok(1)]
  show "gpt_ok demo_devs (fst demo_new)" "unlisted (fst demo_new) (snd demo_new)"
    "type_of (fst demo_new) (snd demo_new) = PED_PARTITION_NORMAL"
    "g_dev (geom_of (fst demo_new) (snd demo_new)) = d_dev (fst demo_new)"
    "\<not> needs_clobber (fst demo_new)" "usable (fst demo_new) demo_any" "actives (fst demo_new) k = []"
    using w demo_gpt_ok(2-4) by (auto simp: demo_new_def same_disk_def intro: demo_any_usable)
qed

lemma demo_one_eq:
  "ped_disk_add_partition (gpt_disk_ops demo_uuid) demo_devs demo_ask (snd demo_new) (Some demo_any) (fst demo_new)
     = (Inr (), demo_one)"
proof -
  have "fst (demo_add 2048 4095 demo_gpt) = Inr ()" by code_simp
  then show ?thesis
    by (cases "demo_add 2048 4095 demo_gpt")
      (simp add: demo_one_def demo_add_def demo_new_def[symmetric] case_prod_beta)
qed

lemma demo_one_ok:
  "gpt_ok demo_devs demo_one" "snd demo_new \<in> set (actives demo_one False)"
  "type_of demo_one (snd demo_new) = PED_PARTITION_NORMAL" "\<not> needs_clobber demo_one"
  "usable demo_one demo_any"
proof -
  have ty: "plain_type (type_of (fst demo_new) (snd demo_new))"
    using demo_new_ok(3) by (simp add: plain_type_def)
  note a = gpt.add_partition_spec[OF demo_new_ok(1,2) ty demo_new_ok(4,5) demo_ask_strict demo_new_ok(6) demo_one_eq]
  show "gpt_ok demo_devs demo_one" by (rule a(1))
  show "\<not> needs_clobber demo_one" "usable demo_one demo_any"
    using a(2) demo_new_ok(5,6) by (simp_all add: same_disk_def usable_def)
  show "snd demo_new \<in> set (actives demo_one False)" "type_of demo_one (snd demo_new) = PED_PARTITION_NORMAL"
    by code_simp+
qed

section \<open>Properties\<close>

text \<open>
  C5. A new GPT label. On a device whose sector size divides 16 KiB (and is at least 128
  bytes), \<open>ped_disk_new_fresh\<close> fails exactly if the device cannot hold the two copies of the
  header and entry array and one more sector; otherwise the new table is well formed, has no
  partition, and its free space and metadata cover the device.
\<close>
theorem gpt_fresh_table:
  assumes "128 \<le> sector_size (devs dev)" "sector_size (devs dev) dvd 16384" "strict ask"
  shows "case ped_disk_new_fresh (gpt_disk_ops u) devs ask (gpt_alloc uuid devs) dev of
      None \<Rightarrow> dev_length (devs dev) < 4 + 2 * (16384 div sector_size (devs dev))
    | Some d \<Rightarrow> 4 + 2 * (16384 div sector_size (devs dev)) \<le> dev_length (devs dev)
        \<and> gpt_ok devs d \<and> (\<forall>k. actives d k = []) \<and> needs_clobber d \<and> d_dev d = dev"
proof (cases "gpt_alloc uuid devs dev")
  case None
  then show ?thesis
    using assms(1) by (auto simp: ped_disk_new_fresh_def gpt_alloc_def Let_def sdiv_nonneg_eq split: if_splits)
next
  case (Some d0)
  then have "4 + 2 * (16384 div sector_size (devs dev)) \<le> dev_length (devs dev)"
    using assms(1) by (auto simp: gpt_alloc_def Let_def sdiv_nonneg_eq split: if_splits)
  moreover obtain d where "ped_disk_new_fresh (gpt_disk_ops u) devs ask (gpt_alloc uuid devs) dev = Some d"
    using Some by (simp add: ped_disk_new_fresh_def)
  ultimately show ?thesis using gpt_fresh_ok[where devs = devs and dev = dev, OF assms] by simp
qed

theorem gpt_fresh_table_witness: "gpt_ok demo_devs (the demo_fresh)"
proof -
  obtain d where d: "demo_fresh = Some d" using demo_fresh_Some by blast
  show ?thesis
    using gpt_fresh_table[of demo_devs 0 demo_ask demo_uuid PARTITION_SYSTEM_GUID, unfolded demo_dev_fields,
      folded demo_fresh_def] demo_ask_strict
    unfolding d by simp
qed

text \<open>
  C2. Adding a partition to a GPT table with \<open>ped_disk_add_partition\<close> (outside update mode,
  on a table that has been written, with a handler that never ignores an error). Whether it
  succeeds or not, the table stays well formed and no other partition changes. If it
  succeeds, exactly this partition is new, it satisfies the caller's constraint and it lies
  in the usable area; if it fails, the partitions are those from before.
\<close>
theorem gpt_add_partition:
  assumes "gpt_ok devs d" "unlisted d part" "type_of d part = PED_PARTITION_NORMAL"
    and "g_dev (geom_of d part) = d_dev d" "\<not> needs_clobber d" "strict ask" "usable d c"
    and "ped_disk_add_partition (gpt_disk_ops u) devs ask part (Some c) d = (r, d')"
  shows "gpt_ok devs d' \<and> (\<forall>k. \<forall>a \<in> set (actives d k). core d' a = core d a) \<and>
    (case r of
       Inl _ \<Rightarrow> actives d' = actives d
     | Inr _ \<Rightarrow> one_more d part d' \<and> ped_constraint_is_solution c (geom_of d' part)
         \<and> ped_geometry_test_inside (data_area (d_specific d)) (geom_of d' part))"
proof -
  have ty: "plain_type (type_of d part)" using assms(3) by (simp add: plain_type_def)
  note a = gpt.add_partition_spec[OF assms(1,2) ty assms(4-8)]
  have "ped_geometry_test_inside (data_area (d_specific d)) (geom_of d' part)" if "one_more d part d'"
  proof -
    have "part \<in> set (actives d' False)" using that assms(3) by (auto simp: one_more_def Let_def)
    then have "gpt_allowed devs d' (type_of d' part) (geom_of d' part)" using a(1) by (simp add: disk_ok_def label_ok_def)
    then show ?thesis using a(2) by (simp add: gpt_allowed_def same_disk_def)
  qed
  then show ?thesis using a(1,3-5) by (cases r) auto
qed

theorem gpt_add_partition_witness:
  "gpt_ok demo_devs demo_one \<and> one_more (fst demo_new) (snd demo_new) demo_one"
  using gpt_add_partition[OF demo_new_ok(1-5) demo_ask_strict demo_new_ok(6) demo_one_eq] by simp

text \<open>
  C4. Removing and deleting a partition. Both keep the table well formed and take exactly
  this partition out of its list; \<open>ped_disk_delete_partition\<close> also frees the object, while
  after \<open>ped_disk_remove_partition\<close> it is unchanged apart from its number.
\<close>
theorem gpt_remove_and_delete:
  assumes "gpt_ok devs d" "part \<in> set (actives d k)" "type_of d part = PED_PARTITION_NORMAL" "strict ask"
    and "removed = ped_disk_remove_partition (gpt_disk_ops u) devs ask part d"
    and "deleted = ped_disk_delete_partition (gpt_disk_ops u) devs ask part d"
  shows "gpt_ok devs removed \<and> actives removed j = remove1 part (actives d j) \<and> core removed part = core d part
    \<and> gpt_ok devs deleted \<and> actives deleted j = remove1 part (actives d j) \<and> d_heap deleted part = None
    \<and> (\<forall>a \<in> set (actives d j). a \<noteq> part \<longrightarrow> core removed a = core d a \<and> core deleted a = core d a)"
proof -
  have ty: "type_of d part \<noteq> PED_PARTITION_EXTENDED" using assms(3) by simp
  note r = gpt.remove_partition_spec[OF assms(1,2) ty assms(4), where u = u, folded assms(5)]
  note x = gpt.delete_partition_spec[OF assms(1,2) ty assms(4), where u = u, folded assms(6)]
  show ?thesis using r(1,3) r(4)[of part k] r(4)[of _ j] x(1,3,5) x(4)[of _ j] assms(2) by simp
qed

theorem gpt_remove_and_delete_witness:
  "actives (ped_disk_delete_partition (gpt_disk_ops demo_uuid) demo_devs demo_ask (snd demo_new) demo_one) False
     = remove1 (snd demo_new) (actives demo_one False)"
  using gpt_remove_and_delete[OF demo_one_ok(1-3) demo_ask_strict refl refl] by blast



text \<open>
  The tables a program reaches from a new label that has been written to the device, by
  creating partition objects, adding, removing, deleting and (successfully) moving
  partitions.
\<close>

inductive gpt_reach ::
    "(GptDisk \<Rightarrow> efi_guid_t) \<Rightarrow> dev_table \<Rightarrow> PedExceptionHandler \<Rightarrow> GptDisk \<Rightarrow> bool"
  for u :: "GptDisk \<Rightarrow> efi_guid_t" and devs :: dev_table and ask :: PedExceptionHandler where
  written: "128 \<le> sector_size (devs dev) \<Longrightarrow> sector_size (devs dev) dvd 16384 \<Longrightarrow>
     ped_disk_new_fresh (gpt_disk_ops u) devs ask (gpt_alloc uuid devs) dev = Some d \<Longrightarrow>
     gpt_reach u devs ask (d\<lparr>needs_clobber := False\<rparr>)"
| created: "gpt_reach u devs ask d \<Longrightarrow>
     ped_partition_new (gpt_disk_ops u) d PED_PARTITION_NORMAL fs s e = Inr p \<Longrightarrow>
     gpt_reach u devs ask (fst (alloc_node d p))"
| added: "gpt_reach u devs ask d \<Longrightarrow> unlisted d part \<Longrightarrow> type_of d part = PED_PARTITION_NORMAL \<Longrightarrow>
     g_dev (geom_of d part) = d_dev d \<Longrightarrow> usable d c \<Longrightarrow>
     gpt_reach u devs ask (snd (ped_disk_add_partition (gpt_disk_ops u) devs ask part (Some c) d))"
| removed: "gpt_reach u devs ask d \<Longrightarrow> part \<in> set (actives d k) \<Longrightarrow>
     gpt_reach u devs ask (ped_disk_remove_partition (gpt_disk_ops u) devs ask part d)"
| deleted: "gpt_reach u devs ask d \<Longrightarrow> part \<in> set (actives d k) \<Longrightarrow>
     gpt_reach u devs ask (ped_disk_delete_partition (gpt_disk_ops u) devs ask part d)"
| moved_to: "gpt_reach u devs ask d \<Longrightarrow> part \<in> set (actives d k) \<Longrightarrow> usable d c \<Longrightarrow>
     ped_disk_set_partition_geom (gpt_disk_ops u) devs ask part (Some c) start endd d = (Inr v, d') \<Longrightarrow>
     gpt_reach u devs ask d'"

definition normal_only :: "GptDisk \<Rightarrow> bool" where
  "normal_only d \<longleftrightarrow> (\<forall>k. \<forall>a \<in> set (actives d k). type_of d a = PED_PARTITION_NORMAL)"

lemma normal_not_ext: "normal_only d \<Longrightarrow> part \<in> set (actives d k) \<Longrightarrow> type_of d part \<noteq> PED_PARTITION_EXTENDED"
  by (fastforce simp: normal_only_def)

lemma gpt_reach_ok:
  assumes s: "strict ask" and r: "gpt_reach u devs ask d"
  shows "gpt_ok devs d \<and> normal_only d \<and> \<not> needs_clobber d"
  using r
proof induction
  case (written dev uuid d)
  then show ?case
    using gpt_fresh_ok[where devs = devs and dev = dev, OF _ _ s] by (simp add: gpt_ok_clobber normal_only_def)
next
  case (created d fs s e p)
  then have ok: "gpt_ok devs d" by simp
  note a = gpt.alloc_node_disk_ok[OF ok, of p "fst (alloc_node d p)" "snd (alloc_node d p)", OF _ gpt_new_span[OF created.hyps(2)], simplified]
  have "type_of (fst (alloc_node d p)) x = PED_PARTITION_NORMAL" if "x \<in> set (actives (fst (alloc_node d p)) k)" for x k
    using created.IH that core_eqD(2)[OF a(6)[OF actives_sub], of x k] unfolding normal_only_def a(2) by auto
  then show ?case using a(1,3) created.IH by (simp add: same_disk_def normal_only_def)
next
  case (added d part c)
  have ty: "plain_type (type_of d part)" using added.hyps(3) by (simp add: plain_type_def)
  obtain x d' where b: "ped_disk_add_partition (gpt_disk_ops u) devs ask part (Some c) d = (x, d')" by fastforce
  have h: "gpt_ok devs d" "\<not> needs_clobber d" "normal_only d" using added.IH by simp_all
  note a = gpt.add_partition_spec[OF h(1) added.hyps(2) ty added.hyps(4) h(2) s added.hyps(5) b]
  have mem: "y = part \<or> y \<in> set (actives d k)" if "y \<in> set (actives d' k)" for y k
  proof (cases x)
    case (Inl e)
    then show ?thesis using a(4) that by simp
  next
    case (Inr v)
    then have "one_more d part d'" using a(5) by blast
    then show ?thesis using that by (cases "k = is_logical (type_of d part)") (auto simp: one_more_def Let_def)
  qed
  have "type_of d' y = PED_PARTITION_NORMAL" if "y \<in> set (actives d' k)" for y k
    using mem[OF that] a(6) core_eqD(2)[OF a(3), of y k] h(3) added.hyps(3) by (auto simp: normal_only_def)
  then show ?case using a(1,2) h(2) b by (simp add: normal_only_def same_disk_def)
next
  case (removed d part k)
  have h: "gpt_ok devs d" "\<not> needs_clobber d" "normal_only d" using removed.IH by simp_all
  note r = gpt.remove_partition_spec[OF h(1) removed.hyps(2) normal_not_ext[OF h(3) removed.hyps(2)] s, where u = u]
  show ?case
    using r(1,2) h core_eqD(2)[OF r(4)] notin_set_remove1 by (fastforce simp: normal_only_def same_disk_def r(3))
next
  case (deleted d part k)
  have h: "gpt_ok devs d" "\<not> needs_clobber d" "normal_only d" using deleted.IH by simp_all
  note r = gpt.delete_partition_spec[OF h(1) deleted.hyps(2) normal_not_ext[OF h(3) deleted.hyps(2)] s, where u = u]
  let ?d = "ped_disk_delete_partition (gpt_disk_ops u) devs ask part d"
  have "type_of ?d x = PED_PARTITION_NORMAL" if "x \<in> set (actives ?d j)" for x j
  proof -
    have x: "x \<in> set (remove1 part (actives d j))" using that r(3) by simp
    have "distinct (actives d j)"
      using table_okD(1) linkedD(1) h(1) by (fastforce simp: actives_def disk_ok_def label_ok_def)
    then have "x \<noteq> part" "x \<in> set (actives d j)" using x by auto
    then show ?thesis using core_eqD(2)[OF r(4)] h(3) by (simp add: normal_only_def)
  qed
  then show ?case using r(1,2) h(2) by (simp add: normal_only_def same_disk_def)
next
  case (moved_to d part k c start endd v d')
  have h: "gpt_ok devs d" "\<not> needs_clobber d" "normal_only d" using moved_to.IH by simp_all
  have ne: "plain_type (type_of d part)" using h(3) moved_to.hyps(2) by (fastforce simp: normal_only_def plain_type_def)
  note m = gpt.set_partition_geom_spec[OF h(1) moved_to.hyps(2) ne h(2) s moved_to.hyps(3,4)]
  have "type_of d' x = PED_PARTITION_NORMAL" if "x \<in> set (actives d' j)" for x j
  proof -
    have x: "x \<in> set (actives d j)" using that m(3) by (simp add: moved_def)
    then show ?thesis
      using m(6) core_eqD(2)[OF m(4)[OF x]] h(3) moved_to.hyps(2) by (cases "x = part") (auto simp: normal_only_def)
  qed
  then show ?case using m(1,2) h(2) by (simp add: normal_only_def same_disk_def)
qed


lemma demo_reach: "gpt_reach demo_uuid demo_devs demo_ask demo_one"
proof -
  obtain d where d: "demo_fresh = Some d" using demo_fresh_Some by blast
  have r0: "gpt_reach demo_uuid demo_devs demo_ask demo_gpt"
    unfolding demo_gpt_def d option.sel
    by (rule gpt_reach.written[of demo_devs 0 _ demo_ask PARTITION_SYSTEM_GUID, unfolded demo_dev_fields])
      (use d in \<open>simp_all add: demo_fresh_def\<close>)
  obtain p where p: "ped_partition_new (gpt_disk_ops demo_uuid) demo_gpt PED_PARTITION_NORMAL None 2048 4095 = Inr p"
    by (auto simp: ped_partition_new_def gpt_partition_new_def ped_partition_alloc_def geom_simps)
  have n: "demo_new = alloc_node demo_gpt p" by (simp add: demo_new_def demo_with_def p)
  have "gpt_reach demo_uuid demo_devs demo_ask (fst demo_new)"
    unfolding n by (rule gpt_reach.created[OF r0 p])
  from gpt_reach.added[OF this demo_new_ok(2-4,6)] show ?thesis by (simp add: demo_one_eq)
qed


text \<open>
  Before a new label has been written, the checks do not apply: on a table fresh from
  \<open>ped_disk_new_fresh\<close> (which sets \<open>needs_clobber\<close>), \<open>_partition_align\<close> returns at once, and a
  partition [0, 100] is added over the protective MBR, the GPT header and the entry array.
\<close>
theorem fresh_label_skips_alignment:
  "let r = demo_add 0 100 (the demo_fresh) in
   fst r = Inr () \<and>
   layout (snd r) = [(PED_PARTITION_NORMAL, 0, 100), (PED_PARTITION_METADATA, 0, 33),
     (PED_PARTITION_FREESPACE, 34, 9966), (PED_PARTITION_METADATA, 9967, 9999)]"
  by code_simp

end
