(* ===== verification/Gpt_Roundtrip.thy ===== *)
theory Gpt_Roundtrip
  imports Gpt_Disk Gpt_Table
begin

text \<open>
  What \<open>gpt_write\<close> leaves on a working device, and that the reading side of the label accepts
  it: both headers are valid, both copies of the entry array carry the checksum of the
  headers, and the entries are those of the partitions of the table.
\<close>

section \<open>The entry array\<close>

lemma length_store: "off + length new \<le> length buf \<Longrightarrow> length (store off new buf) = length buf"
  by (simp add: store_def)

lemma field_store:
  assumes "length new = n" "Suc j * n \<le> length buf"
  shows "field (i * n) n (store (j * n) new buf) = (if i = j then new else field (i * n) n buf)"
proof (cases i j rule: linorder_cases)
  case less
  then have "Suc i * n \<le> j * n" by (intro mult_right_mono) simp_all
  then show ?thesis using less assms by (auto simp: field_def store_def take_drop min_def)
next
  case equal
  then show ?thesis using assms by (simp add: field_def store_def)
next
  case greater
  then have "Suc j * n \<le> i * n" by (intro mult_right_mono) simp_all
  then have "i * n = j * n + n + (i * n - (j * n + n))" by simp
  then show ?thesis
    using greater assms by (simp add: field_def store_def)
qed

text \<open>The partitions that have an entry, and the conditions for writing them.\<close>

definition entry_index :: "GptDisk \<Rightarrow> addr \<Rightarrow> nat" where
  "entry_index d a = nat (p_num (node d a) - 1)"

definition listed_parts :: "GptDisk \<Rightarrow> addr list" where
  "listed_parts d = filter (\<lambda>a. type_of d a = 0) (disk_walk d)"

definition entries_ok :: "GptDisk \<Rightarrow> bool" where
  "entries_ok d \<longleftrightarrow> inj_on (entry_index d) (set (listed_parts d)) \<and> distinct (listed_parts d) \<and>
     (\<forall>a \<in> set (listed_parts d). 1 \<le> p_num (node d a) \<and> p_num (node d a) \<le> entry_count (d_specific d) \<and>
        pte_wf (generate_part_entry (node d a)))"

lemma fill_entries_listed:
  "fill_entries d = fold (\<lambda>a. store (entry_index d a * 128) (pte_bytes (generate_part_entry (node d a)))) (listed_parts d)"
proof -
  have "fold (\<lambda>a b. if type_of d a \<noteq> 0 then b
           else store (nat (p_num (node d a) - 1) * 128) (pte_bytes (generate_part_entry (node d a))) b) xs =
      fold (\<lambda>a. store (entry_index d a * 128) (pte_bytes (generate_part_entry (node d a)))) (filter (\<lambda>a. type_of d a = 0) xs)" for xs
    by (induction xs) (auto simp: entry_index_def fun_eq_iff)
  then show ?thesis by (simp add: fun_eq_iff fill_entries_def listed_parts_def)
qed

lemma fold_store:
  assumes "\<And>a. a \<in> set xs \<Longrightarrow> length (f a) = n \<and> Suc (k a) * n \<le> length buf"
    and "inj_on k (set xs)" "distinct xs"
  shows "length (fold (\<lambda>a. store (k a * n) (f a)) xs buf) = length buf \<and>
    field (i * n) n (fold (\<lambda>a. store (k a * n) (f a)) xs buf) =
      (case List.find (\<lambda>a. k a = i) xs of Some a \<Rightarrow> f a | None \<Rightarrow> field (i * n) n buf)"
  using assms
proof (induction xs arbitrary: buf)
  case (Cons a xs)
  let ?buf = "store (k a * n) (f a) buf"
  have len: "length ?buf = length buf" using Cons.prems(1)[of a] by (intro length_store) simp
  have IH: "length (fold (\<lambda>a. store (k a * n) (f a)) xs ?buf) = length ?buf \<and>
    field (i * n) n (fold (\<lambda>a. store (k a * n) (f a)) xs ?buf) =
      (case List.find (\<lambda>a. k a = i) xs of Some a \<Rightarrow> f a | None \<Rightarrow> field (i * n) n ?buf)"
    using Cons.prems len by (intro Cons.IH) auto
  have fs: "field (i * n) n ?buf = (if i = k a then f a else field (i * n) n buf)"
    using Cons.prems(1)[of a] by (intro field_store) auto
  show ?case
  proof (cases "k a = i")
    case True
    then have "List.find (\<lambda>a. k a = i) xs = None"
      using Cons.prems(2,3) by (auto simp: find_None_iff) (metis imageI)
    then show ?thesis using IH fs True len by simp
  next
    case False
    then show ?thesis using IH fs len by (auto split: option.splits)
  qed
qed simp

section \<open>The image that is written\<close>

definition array_of :: "'s io_state \<Rightarrow> GptDisk \<Rightarrow> byte list" where
  "array_of st d = fill_entries d (replicate (nat (array_sectors st d * sector_size (dev_of st (d_dev d)))) 0)"

definition array_crc :: "'s io_state \<Rightarrow> GptDisk \<Rightarrow> 32 word" where
  "array_crc st d = efi_crc32 (take (nat (entry_count (d_specific d) * 128)) (array_of st d))"

definition gpt_writable ::
    "'s PedDeviceArchOps \<Rightarrow> ('s io_state \<Rightarrow> int \<Rightarrow> byte list) \<Rightarrow> GptDisk \<Rightarrow> 's io_state \<Rightarrow> bool" where
  "gpt_writable ops img d st \<longleftrightarrow>
     (let L = dev_length (dev_of st (d_dev d)); s = d_specific d; ps = array_sectors st d in
      working_device ops (d_dev d) img st \<and> 512 \<le> sector_size (dev_of st (d_dev d)) \<and> L < 2 ^ 63 \<and>
      0 < entry_count s \<and> entry_count s \<le> 2 ^ 20 \<and> guid_wf (disk_uuid s) \<and>
      2 + ps \<le> g_start (data_area s) \<and> g_start (data_area s) \<le> g_end (data_area s) \<and>
      g_end (data_area s) < AlternateLBA s - ps \<and> AlternateLBA s < L \<and> entries_ok d)"

lemma array_sectors_bounds:
  assumes "0 < entry_count (d_specific d)" "0 < sector_size (dev_of st (d_dev d))"
  shows "1 \<le> array_sectors st d"
    "entry_count (d_specific d) * 128 \<le> array_sectors st d * sector_size (dev_of st (d_dev d))"
    "array_sectors st d = ped_div_round_up (entry_count (d_specific d) * 128) (sector_size (dev_of st (d_dev d)))"
    "array_sectors st d * sector_size (dev_of st (d_dev d)) < entry_count (d_specific d) * 128 + sector_size (dev_of st (d_dev d))"
proof -
  let ?ss = "sector_size (dev_of st (d_dev d))" and ?b = "entry_count (d_specific d) * 128"
  have a: "array_sectors st d = (?b + ?ss - 1) div ?ss"
    using assms by (simp add: array_sectors_def sdiv_nonneg_eq Let_def)
  have e: "(?b + ?ss - 1) div ?ss * ?ss + (?b + ?ss - 1) mod ?ss = ?b + ?ss - 1" by simp
  have m: "0 \<le> (?b + ?ss - 1) mod ?ss" "(?b + ?ss - 1) mod ?ss < ?ss" using assms by simp_all
  have "1 * ?ss \<le> ?b + ?ss - 1" using assms by simp
  then show "1 \<le> array_sectors st d" unfolding a using assms(2) zdiv_mono1[of ?ss "?b + ?ss - 1" ?ss] by simp
  show "?b \<le> array_sectors st d * ?ss" "array_sectors st d * ?ss < ?b + ?ss" unfolding a using e m by linarith+
  show "array_sectors st d = ped_div_round_up ?b ?ss" by (simp add: array_sectors_def ped_div_round_up_def Let_def)
qed

lemma generate_header_wf:
  assumes "512 \<le> sector_size (dev_of st (d_dev d))" "guid_wf (disk_uuid (d_specific d))"
  shows "pth_wf (pth_size st (d_dev d)) (generate_header st d alt crc)"
  using assms by (simp add: pth_wf_def generate_header_def Let_def pth_new_zeroed_def pth_new_from_raw_def
      pth_get_size_static_def nat_diff_distrib)

lemma generate_header_fields:
  "Signature (generate_header st d alt crc) = GPT_HEADER_SIGNATURE"
  "Revision (generate_header st d alt crc) = GPT_HEADER_REVISION_V1_00"
  "HeaderSize (generate_header st d alt crc) = 92"
  "MyLBA (generate_header st d alt crc) = (if alt then word_of_int (AlternateLBA (d_specific d)) else 1)"
  "HdrAlternateLBA (generate_header st d alt crc) = (if alt then 1 else word_of_int (AlternateLBA (d_specific d)))"
  "PartitionEntryLBA (generate_header st d alt crc) =
     (if alt then word_of_int (AlternateLBA (d_specific d) - array_sectors st d) else 2)"
  "FirstUsableLBA (generate_header st d alt crc) = word_of_int (g_start (data_area (d_specific d)))"
  "LastUsableLBA (generate_header st d alt crc) = word_of_int (g_end (data_area (d_specific d)))"
  "DiskGUID (generate_header st d alt crc) = disk_uuid (d_specific d)"
  "NumberOfPartitionEntries (generate_header st d alt crc) = word_of_int (entry_count (d_specific d))"
  "SizeOfPartitionEntry (generate_header st d alt crc) = 128"
  "PartitionEntryArrayCRC32 (generate_header st d alt crc) = crc"
  "pth_crc32 ((generate_header st d alt crc)\<lparr>HeaderCRC32 := 0\<rparr>) = HeaderCRC32 (generate_header st d alt crc)"
  by (simp_all add: generate_header_def Let_def pth_get_size_static_def pth_crc32_def pth_get_raw_def)

lemma sint_of_int63: "0 \<le> i \<Longrightarrow> i < 2 ^ 63 \<Longrightarrow> sint (word_of_int i :: 64 word) = i"
  by (simp add: signed_of_int signed_take_bit_int_eq_self)

lemma array_of_entries:
  assumes "entries_ok d" "0 < entry_count (d_specific d)" "0 < sector_size (dev_of st (d_dev d))"
  shows "length (array_of st d) = nat (array_sectors st d * sector_size (dev_of st (d_dev d)))"
    and "a \<in> set (listed_parts d) \<Longrightarrow>
      pte_of_bytes (field (entry_index d a * 128) 128 (array_of st d)) = generate_part_entry (node d a)"
    and "i < nat (entry_count (d_specific d)) \<Longrightarrow> i \<notin> entry_index d ` set (listed_parts d) \<Longrightarrow>
      field (i * 128) 128 (array_of st d) = replicate 128 0"
proof -
  let ?n = "nat (array_sectors st d * sector_size (dev_of st (d_dev d)))"
  let ?z = "replicate ?n 0 :: byte list"
  let ?f = "\<lambda>a. pte_bytes (generate_part_entry (node d a))"
  have N: "nat (entry_count (d_specific d)) * 128 \<le> ?n"
    using array_sectors_bounds(2)[OF assms(2,3)] assms(2) by linarith
  have st: "length (?f a) = 128 \<and> Suc (entry_index d a) * 128 \<le> length ?z" if "a \<in> set (listed_parts d)" for a
  proof -
    have "Suc (entry_index d a) \<le> nat (entry_count (d_specific d))"
      using assms(1) that by (auto simp: entries_ok_def entry_index_def)
    then have "Suc (entry_index d a) * 128 \<le> nat (entry_count (d_specific d)) * 128" by (intro mult_right_mono) simp_all
    then show ?thesis using N assms(1) that by (simp add: length_pte_bytes entries_ok_def)
  qed
  note fs = fold_store[where f = ?f and k = "entry_index d" and n = 128 and xs = "listed_parts d" and buf = ?z, OF st]
  have inj: "inj_on (entry_index d) (set (listed_parts d))" "distinct (listed_parts d)"
    using assms(1) by (simp_all add: entries_ok_def)
  show "length (array_of st d) = ?n"
    using fs[OF _ inj] by (simp add: array_of_def fill_entries_listed)
  show "pte_of_bytes (field (entry_index d a * 128) 128 (array_of st d)) = generate_part_entry (node d a)"
    if a: "a \<in> set (listed_parts d)"
  proof -
    have "List.find (\<lambda>b. entry_index d b = entry_index d a) (listed_parts d) = Some a"
      using find_unique[OF inj(1) a] .
    then have "field (entry_index d a * 128) 128 (array_of st d) = ?f a @ []"
      using fs[OF _ inj, of "entry_index d a"] by (simp add: array_of_def fill_entries_listed)
    then show ?thesis using pte_roundtrip[of _ "[]"] a assms(1) by (simp add: entries_ok_def)
  qed
  show "field (i * 128) 128 (array_of st d) = replicate 128 0"
    if i: "i < nat (entry_count (d_specific d))" "i \<notin> entry_index d ` set (listed_parts d)"
  proof -
    have "List.find (\<lambda>b. entry_index d b = i) (listed_parts d) = None"
      using i(2) by (auto simp: find_None_iff)
    then have "field (i * 128) 128 (array_of st d) = field (i * 128) 128 ?z"
      using fs[OF _ inj, of i] by (simp add: array_of_def fill_entries_listed)
    moreover have "Suc i * 128 \<le> ?n"
      using i(1) N by (intro order_trans[OF mult_right_mono N]) simp_all
    ultimately show ?thesis by (simp add: field_def)
  qed
qed

section \<open>Writing\<close>

lemma platform_update [simp]: "st\<lparr>platform := p, platform := q\<rparr> = st\<lparr>platform := q\<rparr>"
  by simp

definition on_disk :: "'s PedDeviceArchOps \<Rightarrow> ('s io_state \<Rightarrow> int \<Rightarrow> byte list) \<Rightarrow> GptDisk \<Rightarrow> 's io_state \<Rightarrow> 's io_state \<Rightarrow> bool" where
  "on_disk ops img d st st' \<longleftrightarrow>
     (let L = dev_length (dev_of st (d_dev d)); A = AlternateLBA (d_specific d); ps = array_sectors st d;
          h = \<lambda>alt. pth_get_raw (generate_header st d alt (array_crc st d)) in
      img st' 0 = make_pmbr L (pmbr_boot (d_specific d) \<noteq> 0) (img st 0) \<and>
      img st' 1 = h False \<and> img st' A = h True \<and>
      sectors_of img st' 2 ps = array_of st d \<and> sectors_of img st' (A - ps) ps = array_of st d \<and>
      (\<forall>j. 2 + ps \<le> j \<and> j < A - ps \<or> A < j \<longrightarrow> img st' j = img st j))"

lemma gpt_write_on_disk:
  assumes w: "gpt_writable ops img d st"
  shows "\<exists>q. gpt_write ops d st = (True, st\<lparr>platform := q\<rparr>) \<and> on_disk ops img d st (st\<lparr>platform := q\<rparr>)"
proof -
  define dev where "dev = d_dev d"
  define L where "L = dev_length (dev_of st dev)"
  define A where "A = AlternateLBA (d_specific d)"
  define ps where "ps = array_sectors st d"
  define bs where "bs = sector_bytes st dev 1"
  let ?ss = "sector_size (dev_of st dev)"
  let ?h = "\<lambda>alt. pth_get_raw (generate_header st d alt (array_crc st d))"
  let ?ptes = "array_of st d"
  have wd: "working_device ops dev img st" and ss: "512 \<le> ?ss" and N: "0 < entry_count (d_specific d)"
    and uu: "guid_wf (disk_uuid (d_specific d))" and lay: "2 + ps < A - ps" "A < L" and ok: "entries_ok d"
    using w by (auto simp: gpt_writable_def Let_def dev_def L_def A_def ps_def)
  have bs: "bs = nat ?ss" by (simp add: bs_def sector_bytes_def)
  have ps1: "1 \<le> ps" using array_sectors_bounds(1)[of d st] N ss by (simp add: ps_def dev_def)
  have ins: "in_device st dev 0 1" "in_device st dev 1 1" "in_device st dev A 1"
    "in_device st dev 2 ps" "in_device st dev (A - ps) ps"
    using lay ps1 by (simp_all add: in_device_def L_def)
  have hlen: "length (?h alt) = sector_bytes st dev 1" for alt
    using length_pth_get_raw[OF generate_header_wf[of st d]] ss uu by (simp add: dev_def sector_bytes_def)
  have plen: "length ?ptes = sector_bytes st dev ps"
    using array_of_entries(1)[OF ok N, of st] ss by (simp add: sector_bytes_def ps_def dev_def)
  have img0: "length (img st 0) = bs" using working_length[OF wd ins(1)] by (simp add: bs_def)
  define mbr where "mbr = make_pmbr L (pmbr_boot (d_specific d) \<noteq> 0) (img st 0)"
  have mlen: "length mbr = sector_bytes st dev 1"
    using make_pmbr_valid(1)[of "img st 0"] img0 ss by (simp add: mbr_def bs flip: bs_def)
  note wr = device_write_ex[OF wd]
  obtain q1 where q1: "ped_device_write ops dev mbr 0 1 st = (True, st\<lparr>platform := q1\<rparr>)"
    "img (st\<lparr>platform := q1\<rparr>) = written bs (img st) 0 1 mbr"
    using wr[OF ins(1) mlen, where p = "platform st"] by (auto simp: bs_def)
  obtain q2 where q2: "ped_device_write ops dev (?h False) 1 1 (st\<lparr>platform := q1\<rparr>) = (True, st\<lparr>platform := q2\<rparr>)"
    "img (st\<lparr>platform := q2\<rparr>) = written bs (img (st\<lparr>platform := q1\<rparr>)) 1 1 (?h False)"
    using wr[OF ins(2) hlen, where p = q1] by (auto simp: bs_def)
  obtain q3 where q3: "ped_device_write ops dev ?ptes 2 ps (st\<lparr>platform := q2\<rparr>) = (True, st\<lparr>platform := q3\<rparr>)"
    "img (st\<lparr>platform := q3\<rparr>) = written bs (img (st\<lparr>platform := q2\<rparr>)) 2 ps ?ptes"
    using wr[OF ins(4) plen, where p = q2] by (auto simp: bs_def)
  obtain q4 where q4: "ped_device_write ops dev (?h True) A 1 (st\<lparr>platform := q3\<rparr>) = (True, st\<lparr>platform := q4\<rparr>)"
    "img (st\<lparr>platform := q4\<rparr>) = written bs (img (st\<lparr>platform := q3\<rparr>)) A 1 (?h True)"
    using wr[OF ins(3) hlen, where p = q3] by (auto simp: bs_def)
  obtain q5 where q5: "ped_device_write ops dev ?ptes (A - ps) ps (st\<lparr>platform := q4\<rparr>) = (True, st\<lparr>platform := q5\<rparr>)"
    "img (st\<lparr>platform := q5\<rparr>) = written bs (img (st\<lparr>platform := q4\<rparr>)) (A - ps) ps ?ptes"
    using wr[OF ins(5) plen, where p = q4] by (auto simp: bs_def)
  obtain q6 where q6: "ped_device_sync ops dev (st\<lparr>platform := q5\<rparr>) = (True, st\<lparr>platform := q6\<rparr>)"
    "img (st\<lparr>platform := q6\<rparr>) = img (st\<lparr>platform := q5\<rparr>)"
    using wd unfolding working_device_def by blast
  have pm: "write_pmbr ops dev (pmbr_boot (d_specific d) \<noteq> 0) st = (True, st\<lparr>platform := q1\<rparr>)"
    using read_sector_eq[OF wd ins(1)] q1(1) by (simp add: write_pmbr_def mbr_def L_def)
  have "gpt_write ops d st = (True, st\<lparr>platform := q6\<rparr>)"
    unfolding gpt_write_def Let_def write_all_def array_of_def[symmetric] array_crc_def[symmetric]
      dev_def[symmetric] A_def[symmetric] ps_def[symmetric]
    using pm q2(1) q3(1) q4(1) q5(1) q6(1)
    by (simp add: array_crc_def array_of_def flip: dev_def ps_def)
  moreover have im: "img (st\<lparr>platform := q6\<rparr>) = written bs (written bs (written bs (written bs (written bs (img st)
      0 1 mbr) 1 1 (?h False)) 2 ps ?ptes) A 1 (?h True)) (A - ps) ps ?ptes"
    by (simp only: q1(2) q2(2) q3(2) q4(2) q5(2) q6(2))
  have pl: "length ?ptes = nat ps * bs" "bs = length mbr" "bs = length (?h alt)" for alt
    using plen sector_bytes_mult[of ps st dev] ps1 ss mlen hlen[of alt] by (simp_all add: bs_def)
  have "on_disk ops img d st (st\<lparr>platform := q6\<rparr>)"
    unfolding on_disk_def Let_def im dev_def[symmetric] L_def[symmetric] A_def[symmetric] ps_def[symmetric] mbr_def[symmetric]
  proof (intro conjI allI impI)
    let ?i3 = "written bs (written bs (written bs (img st) 0 1 mbr) 1 1 (?h False)) 2 ps ?ptes"
    have "concat (map (written bs (written bs ?i3 A 1 (?h True)) (A - ps) ps ?ptes) [2..2 + ps - 1])
        = concat (map ?i3 [2..2 + ps - 1])"
      using lay ps1 by (intro sectors_cong) (simp add: written_out)
    then show "concat (map (written bs (written bs ?i3 A 1 (?h True)) (A - ps) ps ?ptes) [2..2 + ps - 1]) = ?ptes"
      by (simp only: sectors_written[OF pl(1)])
    show "concat (map (written bs (written bs ?i3 A 1 (?h True)) (A - ps) ps ?ptes) [A - ps..A - ps + ps - 1]) = ?ptes"
      by (rule sectors_written[OF pl(1)])
    show "written bs (written bs ?i3 A 1 (?h True)) (A - ps) ps ?ptes j = img st j" if "2 + ps \<le> j \<and> j < A - ps \<or> A < j" for j
    proof -
      have "0 + 1 \<le> j" "1 + 1 \<le> j" "2 + ps \<le> j" "j < A \<or> A + 1 \<le> j" "j < A - ps \<or> A - ps + ps \<le> j"
        using that lay ps1 by auto
      then show ?thesis by (simp only: written_out simp_thms)
    qed
  qed (use lay ps1 pl in \<open>simp_all add: written_out written_one sectors_written\<close>)
  ultimately show ?thesis by blast
qed

section \<open>Reading back\<close>

lemma written_header_valid:
  assumes w: "gpt_writable ops img d st" and l: "on_disk ops img d st st'" and st': "st' = st\<lparr>platform := q\<rparr>"
  shows "gpt_read_PE_array ops (d_dev d) (generate_header st d alt (array_crc st d)) st' =
      Some (array_of st d, nat (entry_count (d_specific d) * 128))" (is ?A)
    and "header_is_valid ops (d_dev d) (generate_header st d alt (array_crc st d))
      (if alt then AlternateLBA (d_specific d) else 1) st'" (is ?V)
proof -
  let ?dev = "d_dev d" and ?s = "d_specific d"
  let ?ss = "sector_size (dev_of st ?dev)" and ?N = "entry_count ?s" and ?A' = "AlternateLBA ?s"
  let ?h = "generate_header st d alt (array_crc st d)"
  let ?ps = "array_sectors st d"
  have wd: "working_device ops ?dev img st'" and ss: "512 \<le> ?ss" "?ss \<le> 4096" and N: "0 < ?N" "?N \<le> 2 ^ 20"
    and lay: "2 + ?ps \<le> g_start (data_area ?s)" "g_start (data_area ?s) \<le> g_end (data_area ?s)"
      "g_end (data_area ?s) < ?A' - ?ps" "?A' < dev_length (dev_of st ?dev)" "dev_length (dev_of st ?dev) < 2 ^ 63"
    using w by (auto simp: gpt_writable_def Let_def working_device_def st')
  have b: "1 \<le> ?ps" "?ps = ped_div_round_up (?N * 128) ?ss" "?ps * ?ss < ?N * 128 + ?ss"
    using array_sectors_bounds[of d st] N ss by simp_all
  have bytes: "ptes_bytes_of ?h = nat (?N * 128)"
  proof -
    have "(128 :: 32 word) * word_of_int ?N = word_of_int (?N * 128)" by simp
    then show ?thesis
      using N by (simp add: ptes_bytes_of_def generate_header_fields unat_eq_nat_uint unsigned_of_int take_bit_int_eq_self
          del: of_int_mult)
  qed
  have lba: "sint (PartitionEntryLBA ?h) = (if alt then ?A' - ?ps else 2)"
    using lay b(1) sint_of_int63[of "?A' - ?ps"] sint_of_int63[of 2]
    by (simp add: generate_header_fields del: of_int_diff)
  have "in_device st' ?dev (sint (PartitionEntryLBA ?h)) ?ps"
    using lay b(1) by (auto simp: lba st' in_device_def)
  moreover have "length (uninit_buffer (nat (?ps * ?ss))) = sector_bytes st' ?dev ?ps"
    by (simp add: uninit_buffer_def sector_bytes_def st')
  moreover have "sectors_of img st' (sint (PartitionEntryLBA ?h)) ?ps = array_of st d"
    unfolding lba using l by (simp add: on_disk_def Let_def)
  ultimately have rd: "ped_device_read ops ?dev (uninit_buffer (nat (?ps * ?ss))) (sint (PartitionEntryLBA ?h)) ?ps st'
      = (True, array_of st d)"
    using device_read_eq[OF wd] by metis
  have "\<not> 2 ^ 63 \<le> ?ps * ?ss" using b(3) N ss by simp
  moreover have "ped_div_round_up (int (ptes_bytes_of ?h)) ?ss = ?ps" using N by (simp add: bytes b(2))
  moreover have "sector_size (dev_of st' ?dev) = ?ss" by (simp add: st')
  ultimately show A: ?A
    unfolding gpt_read_PE_array_def Let_def using rd bytes by simp
  have crc: "check_PE_array_CRC ops ?dev ?h st' = Some True"
    unfolding check_PE_array_CRC_def A by (simp add: generate_header_fields array_crc_def)
  have first: "sint (FirstUsableLBA ?h) = g_start (data_area ?s)" and last: "sint (LastUsableLBA ?h) = g_end (data_area ?s)"
    and alb: "sint (HdrAlternateLBA ?h) = (if alt then 1 else ?A')"
    using lay b(1) by (simp_all add: generate_header_fields sint_of_int63)
  show ?V
    unfolding header_is_valid_def Let_def first last alb crc
    using lay b(1) ss by (simp add: generate_header_fields pth_get_size_static_def st')
qed

text \<open>
  C30. A GPT table that satisfies the layout conditions is written completely, and what is then on
  the device is read as the same table: the device is probed as GPT, both headers are found
  valid and are the ones that were written, the entry array passes its checksum, the entry of
  every partition is found at the place of its number, every other entry is unused, and no
  sector of the usable area has been touched.
\<close>
theorem gpt_write_is_read_back:
  assumes w: "gpt_writable ops img d st" and dev: "d_dev d' = d_dev d"
  shows "\<exists>q st'. gpt_write ops d st = (True, st') \<and> st' = st\<lparr>platform := q\<rparr> \<and> gpt_probe ops (d_dev d) st' \<and>
    (\<exists>d'' p b ptes. gpt_read_headers ops d' st' = (False, d'', Some p, Some b) \<and>
       AlternateLBA (d_specific d'') = AlternateLBA (d_specific d) \<and>
       DiskGUID p = disk_uuid (d_specific d) \<and> sint (FirstUsableLBA p) = g_start (data_area (d_specific d)) \<and>
       sint (LastUsableLBA p) = g_end (data_area (d_specific d)) \<and>
       gpt_read_PE_array ops (d_dev d) p st' = Some (ptes, nat (entry_count (d_specific d) * 128)) \<and>
       efi_crc32 (take (nat (entry_count (d_specific d) * 128)) ptes) = PartitionEntryArrayCRC32 p \<and>
       (\<forall>a \<in> set (listed_parts d). pte_of_bytes (field (entry_index d a * 128) 128 ptes) = generate_part_entry (node d a)) \<and>
       (\<forall>i < nat (entry_count (d_specific d)). i \<notin> entry_index d ` set (listed_parts d) \<longrightarrow>
          guid_eq (PartitionTypeGuid (pte_of_bytes (field (i * 128) 128 ptes))) UNUSED_ENTRY_GUID)) \<and>
    (\<forall>j. g_start (data_area (d_specific d)) \<le> j \<and> j \<le> g_end (data_area (d_specific d)) \<longrightarrow> img st' j = img st j)"
proof -
  obtain q where q: "gpt_write ops d st = (True, st\<lparr>platform := q\<rparr>)" "on_disk ops img d st (st\<lparr>platform := q\<rparr>)"
    using gpt_write_on_disk[OF w] by blast
  define st' where "st' = st\<lparr>platform := q\<rparr>"
  let ?dev = "d_dev d" and ?s = "d_specific d"
  let ?ss = "sector_size (dev_of st ?dev)" and ?N = "entry_count ?s" and ?A = "AlternateLBA ?s"
  let ?h = "\<lambda>alt. generate_header st d alt (array_crc st d)" and ?ps = "array_sectors st d"
  have l: "on_disk ops img d st st'" using q(2) by (simp add: st'_def)
  have wd: "working_device ops ?dev img st'" and ss: "512 \<le> ?ss" "0 < ?ss" and N: "0 < ?N"
    and uu: "guid_wf (disk_uuid ?s)" and ok: "entries_ok d"
    and lay: "2 + ?ps \<le> g_start (data_area ?s)" "g_start (data_area ?s) \<le> g_end (data_area ?s)"
      "g_end (data_area ?s) < ?A - ?ps" "?A < dev_length (dev_of st ?dev)" "dev_length (dev_of st ?dev) < 2 ^ 63"
    using w by (auto simp: gpt_writable_def Let_def working_device_def st'_def)
  have ps: "1 \<le> ?ps" using array_sectors_bounds(1)[of d st] N ss by simp
  have sec: "ptt_read_sector ops ?dev j st' = Some (img st' j)" if "0 \<le> j" "j \<le> ?A" for j
    using read_sector_eq[OF wd, of j] that lay by (simp add: in_device_def st'_def)
  have raw: "pth_new_from_raw (pth_get_raw (?h alt)) = ?h alt" for alt
    using pth_from_raw_raw[OF generate_header_wf] ss uu by blast
  have sectors: "img st' 0 = make_pmbr (dev_length (dev_of st ?dev)) (pmbr_boot ?s \<noteq> 0) (img st 0)"
    "img st' 1 = pth_get_raw (?h False)" "img st' ?A = pth_get_raw (?h True)"
    "\<And>j. g_start (data_area ?s) \<le> j \<Longrightarrow> j \<le> g_end (data_area ?s) \<Longrightarrow> img st' j = img st j"
    using l lay by (simp_all add: on_disk_def Let_def)
  have "length (img st 0) = nat ?ss"
    using working_length[of ops ?dev img st 0] w lay ps
    by (simp add: gpt_writable_def Let_def in_device_def sector_bytes_def)
  then have pmbr: "pmbr_is_valid (mbr_of_bytes (img st' 0))"
    unfolding sectors(1) using make_pmbr_valid(2)[of "img st 0"] ss by simp
  have "ped_device_read ops ?dev (uninit_buffer (pth_size st' ?dev)) 1 1 st' = (True, img st' 1)"
    using device_read_eq[OF wd, of 1 1 "uninit_buffer (pth_size st' ?dev)"] lay ps
    by (simp add: in_device_def uninit_buffer_def sector_bytes_def st'_def)
  then have probe: "gpt_probe ops ?dev st'"
    unfolding gpt_probe_def using sec[of 0] pmbr lay ps raw[of False]
    by (simp add: sectors(2) generate_header_fields) (simp add: st'_def)
  note valid = written_header_valid[OF w l st'_def]
  have alb: "sint (HdrAlternateLBA (?h False)) = ?A" "sint (FirstUsableLBA (?h False)) = g_start (data_area ?s)"
    "sint (LastUsableLBA (?h False)) = g_end (data_area ?s)"
    using lay ps by (simp_all add: generate_header_fields sint_of_int63)
  have hd: "\<exists>d''. gpt_read_headers ops d' st' = (False, d'', Some (?h False), Some (?h True)) \<and>
      AlternateLBA (d_specific d'') = ?A"
    unfolding gpt_read_headers_def Let_def dev
    using sec[of 0] sec[of 1] sec[of ?A] lay ps valid(2)[of False] valid(2)[of True]
    by (auto simp: sectors(2,3) raw alb set_specific_def)
  have unused: "guid_eq (PartitionTypeGuid (pte_of_bytes (replicate 128 0))) UNUSED_ENTRY_GUID"
    by (simp add: guid_eq_def pte_of_bytes_def field_def guid_of_bytes_def UNUSED_ENTRY_GUID_def of_le_def)
      (simp add: guid_def numeral_eq_Suc)
  from hd obtain d'' where "gpt_read_headers ops d' st' = (False, d'', Some (?h False), Some (?h True))"
    "AlternateLBA (d_specific d'') = ?A" by blast
  moreover have "efi_crc32 (take (nat (?N * 128)) (array_of st d)) = PartitionEntryArrayCRC32 (?h False)"
    by (simp add: generate_header_fields array_crc_def)
  moreover have "\<forall>i < nat ?N. i \<notin> entry_index d ` set (listed_parts d) \<longrightarrow>
      guid_eq (PartitionTypeGuid (pte_of_bytes (field (i * 128) 128 (array_of st d)))) UNUSED_ENTRY_GUID"
    using array_of_entries(3)[OF ok N ss(2)] unused by simp
  moreover have "\<forall>a \<in> set (listed_parts d).
      pte_of_bytes (field (entry_index d a * 128) 128 (array_of st d)) = generate_part_entry (node d a)"
    using array_of_entries(2)[OF ok N ss(2)] by blast
  moreover have "DiskGUID (?h False) = disk_uuid ?s" by (simp add: generate_header_fields)
  ultimately show ?thesis
    using q(1) st'_def probe valid(1)[of False] alb sectors(4) by blast
qed

section \<open>A concrete table on a concrete device\<close>

definition demo_ram :: "ram io_state" where
  "demo_ram = ram_state 10000 512 (\<lambda>_. replicate 512 0)"

lemma demo_dev_of: "d_dev demo_one = 0" "sector_size (dev_of demo_ram 0) = 512" "dev_length (dev_of demo_ram 0) = 10000"
proof -
  show "d_dev demo_one = 0" by code_simp
qed (simp_all add: demo_ram_def ram_state_def)

lemma demo_entries: "entries_ok demo_one"
proof -
  have "listed_parts demo_one = [snd demo_new]" by code_simp
  moreover have "p_num (node demo_one (snd demo_new)) = 1" "entry_count (d_specific demo_one) = 128" by code_simp+
  moreover have "pte_wf (generate_part_entry (node demo_one (snd demo_new)))"
    by code_simp
  ultimately show ?thesis by (simp add: entries_ok_def)
qed

lemma demo_writable:
  "gpt_writable (uefi_dev_ops (ram_fw 10000 512)) (\<lambda>st. ram_blk 512 (platform st)) demo_one demo_ram"
proof -
  have s: "entry_count (d_specific demo_one) = 128" "AlternateLBA (d_specific demo_one) = 9999"
    "g_start (data_area (d_specific demo_one)) = 34" "g_end (data_area (d_specific demo_one)) = 9966"
    "guid_wf (disk_uuid (d_specific demo_one))"
    by code_simp+
  have ps: "array_sectors demo_one_st demo_one = 32" if "sector_size (dev_of demo_one_st 0) = 512" for demo_one_st :: "ram io_state"
    using that s by (simp add: array_sectors_def demo_dev_of sdiv_nonneg_eq)
  have "working_device (uefi_dev_ops (ram_fw 10000 512)) 0 (\<lambda>st. ram_blk 512 (platform st)) demo_ram"
    unfolding demo_ram_def by (rule ram_working) simp_all
  then show ?thesis
    unfolding gpt_writable_def Let_def demo_dev_of ps[OF demo_dev_of(2)] s(1-4) using s(5) demo_entries by simp
qed

theorem gpt_write_is_read_back_witness:
  "\<exists>q. gpt_write (uefi_dev_ops (ram_fw 10000 512)) demo_one demo_ram = (True, demo_ram\<lparr>platform := q\<rparr>) \<and>
     gpt_probe (uefi_dev_ops (ram_fw 10000 512)) 0 (demo_ram\<lparr>platform := q\<rparr>)"
  using gpt_write_is_read_back[OF demo_writable refl] by (auto simp: demo_dev_of)

end
