(* ===== verification/Uuid.thy ===== *)
theory Uuid
  imports Bytes
begin

text \<open>
  The UUID library under \<open>lib/uuid\<close>: parsing (\<open>uuid_parse.c\<close>) and printing
  (\<open>uuid_unparse.c\<close>). A \<open>uuid_t\<close> is a list of 16 bytes, a C string the list of its
  characters. \<open>uuid_gen.c\<close> asks the firmware for random bytes and is not modelled.
\<close>

section \<open>Characters and numbers of the C library\<close>

definition xdigits :: "(char \<times> nat) list" where
  "xdigits = zip ''0123456789abcdefABCDEF'' ([0..<16] @ [10..<16])"

definition isxdigit :: "char \<Rightarrow> bool" where
  "isxdigit c \<longleftrightarrow> map_of xdigits c \<noteq> None"

definition xvalue :: "char \<Rightarrow> nat" where
  "xvalue c = the (map_of xdigits c)"

definition ULONG_MAX :: nat where
  "ULONG_MAX = 2 ^ 64 - 1"

definition hexnum :: "string \<Rightarrow> nat" where
  "hexnum = foldl (\<lambda>n c. 16 * n + xvalue c) 0"

text \<open>
  \<open>strtoul (s, NULL, 16)\<close> on a string that starts with a hexadecimal digit and not with
  \<open>0x\<close>: the value, or \<open>None\<close> when \<open>errno\<close> is set to \<open>ERANGE\<close>.
\<close>

definition strtoul16 :: "string \<Rightarrow> nat option" where
  "strtoul16 s = (let n = hexnum (takeWhile isxdigit s) in if n \<le> ULONG_MAX then Some n else None)"

section \<open>Parsing\<close>

type_synonym uuid_t = "byte list"

record uuid =
  time_low :: "32 word"
  time_mid :: "16 word"
  time_hi_and_version :: "16 word"
  clock_seq :: "16 word"
  node :: "byte list"

definition uuid_pack :: "uuid \<Rightarrow> uuid_t" where
  "uuid_pack uu =
     rev (le_bytes 4 (time_low uu)) @ rev (le_bytes 2 (time_mid uu))
       @ rev (le_bytes 2 (time_hi_and_version uu)) @ rev (le_bytes 2 (clock_seq uu))
       @ take 6 (node uu)"

text \<open>The checking loop at index \<open>i\<close>.\<close>

definition uuid_char_ok :: "nat \<Rightarrow> char \<Rightarrow> bool" where
  "uuid_char_ok i c =
     (if i = 8 \<or> i = 13 \<or> i = 18 \<or> i = 23 then c = CHR ''-'' else isxdigit c)"

text \<open>The loop over the six bytes of the node, two characters at a time.\<close>

fun parse_node :: "nat \<Rightarrow> string \<Rightarrow> byte list option" where
  "parse_node (Suc n) (a # b # cp) =
     (case strtoul16 [a, b] of
        None \<Rightarrow> None
      | Some v \<Rightarrow> (case parse_node n cp of None \<Rightarrow> None | Some bs \<Rightarrow> Some (of_nat v # bs)))"
| "parse_node _ _ = Some []"

definition uuid_parse_range :: "string \<Rightarrow> uuid_t option" where
  "uuid_parse_range s =
     (if length s \<noteq> 36 then None
      else if \<not> list_all (\<lambda>(i, c). uuid_char_ok i c) (enumerate 0 s) then None
      else case strtoul16 s of None \<Rightarrow> None
      | Some low \<Rightarrow> (case strtoul16 (drop 9 s) of None \<Rightarrow> None
      | Some mid \<Rightarrow> (case strtoul16 (drop 14 s) of None \<Rightarrow> None
      | Some hi \<Rightarrow> (case strtoul16 (drop 19 s) of None \<Rightarrow> None
      | Some sq \<Rightarrow> (case parse_node 6 (drop 24 s) of None \<Rightarrow> None
      | Some nd \<Rightarrow> Some (uuid_pack \<lparr>time_low = of_nat low, time_mid = of_nat mid,
          time_hi_and_version = of_nat hi, clock_seq = of_nat sq, node = nd\<rparr>))))))"

definition uuid_parse :: "string \<Rightarrow> uuid_t option" where
  "uuid_parse s = (if length s \<noteq> 36 then None else uuid_parse_range s)"

definition uuid_is_null :: "uuid_t \<Rightarrow> bool" where
  "uuid_is_null uu \<longleftrightarrow> uu = replicate 16 0"

section \<open>Printing\<close>

definition hexdigits_lower :: string where "hexdigits_lower = ''0123456789abcdef''"
definition hexdigits_upper :: string where "hexdigits_upper = ''0123456789ABCDEF''"

definition uuid_fmt :: "uuid_t \<Rightarrow> string \<Rightarrow> string" where
  "uuid_fmt uuid fmt = concat (map (\<lambda>i.
     (if i = 4 \<or> i = 6 \<or> i = 8 \<or> i = 10 then ''-'' else '''')
       @ [fmt ! (unat (uuid ! i) div 16), fmt ! unat (uuid ! i AND 15)]) [0..<16])"

definition uuid_unparse_lower :: "uuid_t \<Rightarrow> string" where
  "uuid_unparse_lower uu = uuid_fmt uu hexdigits_lower"

definition uuid_unparse_upper :: "uuid_t \<Rightarrow> string" where
  "uuid_unparse_upper uu = uuid_fmt uu hexdigits_upper"

definition uuid_unparse :: "uuid_t \<Rightarrow> string" where
  "uuid_unparse uu = uuid_fmt uu hexdigits_lower"

section \<open>Reference reading of a UUID string\<close>

text \<open>Two hexadecimal digits per byte, in order; the dashes separate and mean nothing.\<close>

fun hex_bytes :: "string \<Rightarrow> byte list" where
  "hex_bytes (a # b # s) = of_nat (16 * xvalue a + xvalue b) # hex_bytes s"
| "hex_bytes _ = []"

definition undash :: "string \<Rightarrow> string" where
  "undash = filter (\<lambda>c. c \<noteq> CHR ''-'')"

definition uuid_shape :: "string \<Rightarrow> bool" where
  "uuid_shape s \<longleftrightarrow> length s = 36 \<and> (\<forall>i < 36. uuid_char_ok i (s ! i))"

definition lower_digit :: "char \<Rightarrow> char" where
  "lower_digit c = (if isxdigit c then hexdigits_lower ! xvalue c else c)"

section \<open>Lemmas\<close>

lemma isxdigit_cases:
  assumes "isxdigit c"
  shows "c \<in> set ''0123456789abcdefABCDEF''"
proof -
  obtain v where "map_of xdigits c = Some v" using assms by (auto simp: isxdigit_def)
  then have "(c, v) \<in> set xdigits" by (rule map_of_SomeD)
  then show ?thesis unfolding xdigits_def by (rule set_zip_leftD)
qed

lemma list_all_set: "x \<in> set xs \<Longrightarrow> list_all P xs \<Longrightarrow> P x"
  by (simp add: list_all_iff)

lemma xvalue_less: "isxdigit c \<Longrightarrow> xvalue c < 16"
  using list_all_set[OF isxdigit_cases, of c "\<lambda>c. xvalue c < 16"]
  by (simp add: xvalue_def xdigits_def upt_rec)

lemma dash_not_xdigit [simp]: "\<not> isxdigit (CHR ''-'')"
  by (simp add: isxdigit_def xdigits_def upt_rec)

lemma digit_table:
  assumes "n < 16"
  shows "isxdigit (hexdigits_lower ! n) \<and> xvalue (hexdigits_lower ! n) = n \<and>
    isxdigit (hexdigits_upper ! n) \<and> xvalue (hexdigits_upper ! n) = n"
proof -
  have "list_all (\<lambda>n. isxdigit (hexdigits_lower ! n) \<and> xvalue (hexdigits_lower ! n) = n \<and>
    isxdigit (hexdigits_upper ! n) \<and> xvalue (hexdigits_upper ! n) = n) [0..<16]"
    by code_simp
  then show ?thesis using assms by (simp add: list_all_iff)
qed

lemma lower_digit_idem: "lower_digit (CHR ''-'') = CHR ''-''"
  by (simp add: lower_digit_def)

lemma all_nat_number: "(\<forall>i < numeral k. P i) \<longleftrightarrow> P (pred_numeral k) \<and> (\<forall>i < pred_numeral k. P i)"
  by (simp add: numeral_eq_Suc All_less_Suc)

lemma uuid_shape_iff:
  "list_all (\<lambda>(i, c). uuid_char_ok i c) (enumerate 0 s) \<longleftrightarrow> (\<forall>i < length s. uuid_char_ok i (s ! i))"
  by (auto simp: list_all_length nth_enumerate_eq)

text \<open>A string of the right shape is five groups of digits with dashes between them.\<close>

lemma uuid_shape_groups:
  assumes "uuid_shape s"
  obtains a b c d e where "s = a @ ''-'' @ b @ ''-'' @ c @ ''-'' @ d @ ''-'' @ e"
    "list_all isxdigit (a @ b @ c @ d @ e)"
    "length a = 8" "length b = 4" "length c = 4" "length d = 4" "length e = 12"
proof -
  have len: "length s = 36" and ok: "\<And>i. i < 36 \<Longrightarrow> uuid_char_ok i (s ! i)"
    using assms by (auto simp: uuid_shape_def)
  let ?g = "\<lambda>i n. take n (drop i s)"
  have split: "s = ?g 0 8 @ [s ! 8] @ ?g 9 4 @ [s ! 13] @ ?g 14 4 @ [s ! 18] @ ?g 19 4 @ [s ! 23] @ ?g 24 12"
  proof -
    have step: "drop i s = ?g i n @ [s ! (i + n)] @ drop (Suc (i + n)) s" if "i + n < 36" for i n
      using that len by (metis Cons_nth_drop_Suc append_Cons append_Nil append_take_drop_id drop_drop add.commute)
    show ?thesis using step[of 0 8] step[of 9 4] step[of 14 4] step[of 19 4] len by simp
  qed
  have digits: "list_all isxdigit (?g i n)" if "i + n \<le> 36" "{8, 13, 18, 23} \<inter> {i ..< i + n} = {}" for i n
    unfolding list_all_length
  proof (intro allI impI)
    fix j assume "j < length (?g i n)"
    then have "j < n" "i + j < 36" using that(1) by auto
    then have "uuid_char_ok (i + j) (s ! (i + j))" "i + j \<notin> {8, 13, 18, 23}" using ok that(2) by auto
    then show "isxdigit (?g i n ! j)" using len \<open>j < n\<close> \<open>i + j < 36\<close> by (simp add: uuid_char_ok_def)
  qed
  have "s ! 8 = CHR ''-''" "s ! 13 = CHR ''-''" "s ! 18 = CHR ''-''" "s ! 23 = CHR ''-''"
    using ok[of 8] ok[of 13] ok[of 18] ok[of 23] by (simp_all add: uuid_char_ok_def)
  with split digits[of 0 8] digits[of 9 4] digits[of 14 4] digits[of 19 4] digits[of 24 12] len
  show thesis by (intro that[of "?g 0 8" "?g 9 4" "?g 14 4" "?g 19 4" "?g 24 12"]) auto
qed

lemma hexnum_snoc [simp]: "hexnum (xs @ [c]) = 16 * hexnum xs + xvalue c"
  by (simp add: hexnum_def)

lemma hexnum_less: "list_all isxdigit xs \<Longrightarrow> hexnum xs < 16 ^ length xs"
proof (induction xs rule: rev_induct)
  case (snoc c xs)
  then have "hexnum xs < 16 ^ length xs" "xvalue c < 16" by (simp_all add: xvalue_less)
  then show ?case by simp
qed (simp add: hexnum_def)

lemma takeWhile_group:
  "list_all isxdigit xs \<Longrightarrow> takeWhile isxdigit (xs @ CHR ''-'' # ys) = xs"
  by (induction xs) auto

lemma strtoul16_digits:
  assumes "list_all isxdigit xs" and "length xs \<le> 16"
  shows "hexnum xs \<le> ULONG_MAX"
proof -
  have "hexnum xs < 16 ^ 16"
    using hexnum_less[OF assms(1)] power_increasing[OF assms(2), of "16::nat"] by simp
  then show ?thesis by (simp add: ULONG_MAX_def)
qed

lemma strtoul16_group:
  assumes "list_all isxdigit xs" and "length xs \<le> 16"
  shows "strtoul16 (xs @ CHR ''-'' # ys) = Some (hexnum xs)" and "strtoul16 xs = Some (hexnum xs)"
proof -
  have tw: "takeWhile isxdigit xs = xs" using assms(1) by (simp add: list_all_iff)
  show "strtoul16 (xs @ CHR ''-'' # ys) = Some (hexnum xs)" "strtoul16 xs = Some (hexnum xs)"
    using assms by (simp_all add: strtoul16_def takeWhile_group strtoul16_digits Let_def tw)
qed

lemma parse_node_digits:
  "length cp = 2 * n \<Longrightarrow> list_all isxdigit cp \<Longrightarrow> parse_node n cp = Some (hex_bytes cp)"
proof (induction n cp rule: parse_node.induct)
  case (1 n a b cp)
  then have "strtoul16 [a, b] = Some (hexnum [a, b])" by (intro strtoul16_group) simp_all
  with 1 show ?case by (simp add: hexnum_def)
qed (auto simp: numeral_2_eq_2)

text \<open>The big-endian bytes of the value of a group are its digit pairs.\<close>

lemma be_bytes_step:
  assumes "v < 256" and "8 * Suc n \<le> LENGTH('a)"
  shows "rev (le_bytes (Suc n) (of_nat (256 * u + v) :: 'a::len word))
    = rev (le_bytes n (of_nat u :: 'a word)) @ [of_nat v]"
proof -
  have "(256 * u + v) div 256 ^ Suc i = u div 256 ^ i" for i
    using assms(1) by (simp add: div_mult2_eq)
  moreover have "(of_nat (256 * u + v) :: byte) = of_nat v"
    by (simp add: word_of_nat_eq_iff take_bit_eq_mod del: of_nat_add of_nat_mult)
  ultimately show ?thesis
    using assms(2) by (simp add: le_bytes_of_nat upt_conv_Cons map_Suc_upt[symmetric] del: upt_Suc of_nat_add)
qed

lemma hexnum_pair:
  assumes "isxdigit a" "isxdigit b" "8 * Suc n \<le> LENGTH('a)"
  shows "rev (le_bytes (Suc n) (of_nat (hexnum (xs @ [a, b])) :: 'a::len word))
    = rev (le_bytes n (of_nat (hexnum xs) :: 'a word)) @ [of_nat (16 * xvalue a + xvalue b)]"
proof -
  have "hexnum (xs @ [a, b]) = 256 * hexnum xs + (16 * xvalue a + xvalue b)"
    using hexnum_snoc[of "xs @ [a]" b] by simp
  moreover have "16 * xvalue a + xvalue b < 256" using xvalue_less[OF assms(1)] xvalue_less[OF assms(2)] by simp
  ultimately show ?thesis using be_bytes_step[OF _ assms(3)] by (simp del: of_nat_add of_nat_mult)
qed

lemma hex_bytes_append:
  "length xs = 2 * n \<Longrightarrow> hex_bytes (xs @ ys) = hex_bytes xs @ hex_bytes ys"
proof (induction n arbitrary: xs)
  case (Suc n)
  then obtain a b zs where "xs = a # b # zs" "length zs = 2 * n" by (auto simp: length_Suc_conv)
  with Suc.IH[of zs] show ?case by simp
qed simp

lemma be_bytes_hexnum:
  assumes "list_all isxdigit xs" "length xs = 2 * n" "8 * n \<le> LENGTH('a)"
  shows "rev (le_bytes n (of_nat (hexnum xs) :: 'a::len word)) = hex_bytes xs"
  using assms
proof (induction n arbitrary: xs)
  case (Suc n)
  let ?ys = "take (2 * n) xs"
  obtain a b where ab: "drop (2 * n) xs = [a, b]"
  proof -
    have "length (drop (2 * n) xs) = Suc (Suc 0)" using Suc.prems(2) by simp
    then obtain a b where "drop (2 * n) xs = [a, b]" by (metis length_0_conv length_Suc_conv)
    then show thesis by (rule that)
  qed
  then have xs: "xs = ?ys @ [a, b]" by (metis append_take_drop_id)
  have "list_all isxdigit ?ys" "isxdigit a" "isxdigit b" 
    using Suc.prems(1) xs list_all_append[of isxdigit ?ys "[a, b]"] by simp_all
  moreover have "length ?ys = 2 * n" using Suc.prems(2) by simp
  ultimately show ?case
    using Suc.IH[of ?ys] Suc.prems(3) hexnum_pair[of a b n ?ys, where 'a = 'a] hex_bytes_append[of ?ys n "[a, b]"] xs
    by simp
qed (simp add: le_bytes_def)

lemma undash_digits: "list_all isxdigit xs \<Longrightarrow> filter (\<lambda>c. c \<noteq> CHR ''-'') xs = xs"
  by (induction xs) auto

lemma uuid_parse_eq:
  "uuid_parse s = (if uuid_shape s then Some (hex_bytes (undash s)) else None)"
proof (cases "uuid_shape s")
  case True
  then obtain a b c d e where s: "s = a @ ''-'' @ b @ ''-'' @ c @ ''-'' @ d @ ''-'' @ e"
    and dig: "list_all isxdigit (a @ b @ c @ d @ e)"
    and len: "length a = 8" "length b = 4" "length c = 4" "length d = 4" "length e = 12"
    by (rule uuid_shape_groups)
  note dig' = dig[simplified]
  have fields: "strtoul16 s = Some (hexnum a)" "strtoul16 (drop 9 s) = Some (hexnum b)"
      "strtoul16 (drop 14 s) = Some (hexnum c)" "strtoul16 (drop 19 s) = Some (hexnum d)"
      "parse_node 6 (drop 24 s) = Some (hex_bytes e)"
    using s dig' len by (simp_all add: strtoul16_group parse_node_digits)
  have bytes: "rev (le_bytes 4 (of_nat (hexnum a) :: 32 word)) = hex_bytes a"
      "rev (le_bytes 2 (of_nat (hexnum b) :: 16 word)) = hex_bytes b"
      "rev (le_bytes 2 (of_nat (hexnum c) :: 16 word)) = hex_bytes c"
      "rev (le_bytes 2 (of_nat (hexnum d) :: 16 word)) = hex_bytes d"
    using dig' len by (simp_all add: be_bytes_hexnum)
  have "length (hex_bytes e) = 6"
    using len(5) by (auto simp: length_Suc_conv numeral_eq_Suc)
  moreover have "undash s = a @ b @ c @ d @ e"
    unfolding s undash_def using dig' by (simp add: undash_digits)
  moreover have "uuid_parse s = Some (uuid_pack \<lparr>time_low = of_nat (hexnum a), time_mid = of_nat (hexnum b),
      time_hi_and_version = of_nat (hexnum c), clock_seq = of_nat (hexnum d), node = hex_bytes e\<rparr>)"
    using True fields uuid_shape_iff[of s]
    by (simp add: uuid_shape_def uuid_parse_def uuid_parse_range_def)
  ultimately show ?thesis
    using True bytes len hex_bytes_append[of a 4] hex_bytes_append[of b 2] hex_bytes_append[of c 2]
      hex_bytes_append[of d 2]
    by (simp add: uuid_pack_def)
next
  case False
  then show ?thesis
    using uuid_shape_iff[of s] by (auto simp: uuid_shape_def uuid_parse_def uuid_parse_range_def)
qed

text \<open>
  C33. \<open>uuid_parse\<close> accepts exactly the strings of 36 characters with dashes at positions 8, 13,
  18 and 23 and hexadecimal digits elsewhere, and reads them as the 16 bytes whose digits they
  spell in order: the detour over the integer fields of \<open>struct uuid\<close>, \<open>strtoul\<close> and
  \<open>uuid_pack\<close> neither overflows nor changes the byte order.
\<close>
theorem uuid_parse_correct:
  "uuid_parse s = (if uuid_shape s then Some (hex_bytes (undash s)) else None)"
  by (rule uuid_parse_eq)

theorem uuid_parse_correct_witness:
  "let s = ''0FC63DAF-8483-4772-8E79-3D69D8477DE4''
   in uuid_parse s = Some [0x0F, 0xC6, 0x3D, 0xAF, 0x84, 0x83, 0x47, 0x72, 0x8E, 0x79, 0x3D, 0x69, 0xD8, 0x47, 0x7D, 0xE4]"
proof -
  have "uuid_shape ''0FC63DAF-8483-4772-8E79-3D69D8477DE4'' \<and>
    hex_bytes (undash ''0FC63DAF-8483-4772-8E79-3D69D8477DE4'') =
      [0x0F, 0xC6, 0x3D, 0xAF, 0x84, 0x83, 0x47, 0x72, 0x8E, 0x79, 0x3D, 0x69, 0xD8, 0x47, 0x7D, 0xE4]"
    by code_simp
  then show ?thesis using uuid_parse_correct by simp
qed

lemma nibbles:
  "unat (b :: byte) div 16 < 16" "unat (b AND 15) < 16" "unat b div 16 * 16 + unat (b AND 15) = unat b"
proof -
  have "b AND 15 = take_bit 4 b" by (simp add: take_bit_eq_mask mask_eq_exp_minus_1)
  then have "unat (b AND 15) = take_bit 4 (unat b)" by (simp only: unsigned_take_bit_eq)
  then have "unat (b AND 15) = unat b mod 16" by (simp add: take_bit_eq_mod)
  moreover have "unat b < 256" using unsigned_less[of b] by simp
  ultimately show "unat b div 16 < 16" "unat (b AND 15) < 16" "unat b div 16 * 16 + unat (b AND 15) = unat b"
    by simp_all
qed

lemma byte_of_nibbles: "(of_nat (16 * (unat (b :: byte) div 16) + unat (b AND 15)) :: byte) = b"
  using nibbles(3)[of b] by (simp add: mult.commute del: of_nat_add of_nat_mult)

lemma parse_fmt:
  assumes len: "length uu = 16"
    and fmt: "\<And>n. n < 16 \<Longrightarrow> isxdigit (fmt ! n) \<and> xvalue (fmt ! n) = n"
  shows "uuid_parse (uuid_fmt uu fmt) = Some uu"
proof -
  let ?h = "\<lambda>i. fmt ! (unat (uu ! i) div 16)" and ?l = "\<lambda>i. fmt ! unat (uu ! i AND 15)"
  have d: "isxdigit (?h i)" "isxdigit (?l i)" "xvalue (?h i) = unat (uu ! i) div 16"
    "xvalue (?l i) = unat (uu ! i AND 15)" "?h i \<noteq> CHR ''-''" "?l i \<noteq> CHR ''-''" for i
    using fmt[OF nibbles(1)[of "uu ! i"]] fmt[OF nibbles(2)[of "uu ! i"]] dash_not_xdigit by metis+
  have "uuid_shape (uuid_fmt uu fmt)"
    by (simp add: uuid_shape_def uuid_fmt_def upt_rec all_nat_number uuid_char_ok_def d)
  moreover have "undash (uuid_fmt uu fmt) = concat (map (\<lambda>i. [?h i, ?l i]) [0..<16])"
    by (simp add: undash_def uuid_fmt_def upt_rec d)
  moreover have "hex_bytes (concat (map (\<lambda>i. [?h i, ?l i]) [0..<n])) = map ((!) uu) [0..<n]" for n
  proof (induction n)
    case (Suc n)
    have "length (concat (map (\<lambda>i. [?h i, ?l i]) [0..<n])) = 2 * n" by (induction n) auto
    with Suc show ?case by (simp add: hex_bytes_append d byte_of_nibbles del: of_nat_add of_nat_mult)
  qed simp
  ultimately show ?thesis using len map_nth[of uu] by (simp add: uuid_parse_eq)
qed

lemma digits_of_pair:
  assumes "isxdigit x" "isxdigit y"
  shows "unat (of_nat (16 * xvalue x + xvalue y) :: byte) div 16 = xvalue x"
    "unat ((of_nat (16 * xvalue x + xvalue y) :: byte) AND 15) = xvalue y"
proof -
  let ?b = "of_nat (16 * xvalue x + xvalue y) :: byte"
  have v: "xvalue x < 16" "xvalue y < 16" using assms by (simp_all add: xvalue_less)
  then have u: "unat ?b = 16 * xvalue x + xvalue y"
    by (simp add: unsigned_of_nat take_bit_eq_mod del: of_nat_add of_nat_mult)
  then show "unat ?b div 16 = xvalue x" using v by simp
  then show "unat (?b AND 15) = xvalue y" using nibbles(3)[of ?b] u by linarith
qed

definition print_bytes :: "string \<Rightarrow> byte list \<Rightarrow> string" where
  "print_bytes fmt = concat \<circ> map (\<lambda>b. [fmt ! (unat b div 16), fmt ! unat (b AND 15)])"

lemma uuid_fmt_groups:
  assumes "length a = 4" "length b = 2" "length c = 2" "length d = 2" "length e = 6"
  shows "uuid_fmt (a @ b @ c @ d @ e) fmt = print_bytes fmt a @ ''-'' @ print_bytes fmt b @ ''-''
    @ print_bytes fmt c @ ''-'' @ print_bytes fmt d @ ''-'' @ print_bytes fmt e"
proof -
  have l: "length xs = 2 \<longleftrightarrow> (\<exists>x y. xs = [x, y])" "length xs = 4 \<longleftrightarrow> (\<exists>x y z u. xs = [x, y, z, u])"
    "length xs = 6 \<longleftrightarrow> (\<exists>x y z u v w. xs = [x, y, z, u, v, w])" for xs :: "byte list"
    by (auto simp: length_Suc_conv numeral_eq_Suc)
  show ?thesis using assms unfolding l
    by (elim exE) (simp add: uuid_fmt_def upt_rec print_bytes_def)
qed

lemma print_hex_bytes:
  "even (length xs) \<Longrightarrow> list_all isxdigit xs \<Longrightarrow>
     print_bytes hexdigits_lower (hex_bytes xs) = map lower_digit xs"
  by (induction xs rule: hex_bytes.induct)
    (auto simp: print_bytes_def digits_of_pair lower_digit_def simp del: of_nat_add of_nat_mult)

lemma length_hex_bytes: "length (hex_bytes xs) = length xs div 2"
  by (induction xs rule: hex_bytes.induct) auto

text \<open>
  Printing and parsing are inverse: a UUID printed in lower or upper case parses to its 16
  bytes, and a string that parses is printed again with its letters in lower case.
\<close>
theorem uuid_roundtrip:
  assumes "length uu = 16"
  shows "uuid_parse (uuid_unparse_lower uu) = Some uu \<and> uuid_parse (uuid_unparse_upper uu) = Some uu \<and>
    (uuid_parse s = Some uu \<longrightarrow> uuid_unparse uu = map lower_digit s)"
proof (intro conjI impI)
  show "uuid_parse (uuid_unparse_lower uu) = Some uu" "uuid_parse (uuid_unparse_upper uu) = Some uu"
    unfolding uuid_unparse_lower_def uuid_unparse_upper_def
    using digit_table by (auto intro!: parse_fmt[OF assms])
next
  assume "uuid_parse s = Some uu"
  then have "uuid_shape s" and uu: "uu = hex_bytes (undash s)"
    by (auto simp: uuid_parse_eq split: if_splits)
  then obtain a b c d e where s: "s = a @ ''-'' @ b @ ''-'' @ c @ ''-'' @ d @ ''-'' @ e"
    and dig: "list_all isxdigit (a @ b @ c @ d @ e)"
    and len: "length a = 8" "length b = 4" "length c = 4" "length d = 4" "length e = 12"
    by (metis uuid_shape_groups)
  have "undash s = a @ b @ c @ d @ e"
    unfolding s undash_def using dig by (simp add: undash_digits)
  then have "uu = hex_bytes a @ hex_bytes b @ hex_bytes c @ hex_bytes d @ hex_bytes e"
    using uu len hex_bytes_append[of a 4] hex_bytes_append[of b 2] hex_bytes_append[of c 2]
      hex_bytes_append[of d 2] by simp
  then show "uuid_unparse uu = map lower_digit s"
    using len dig by (simp add: uuid_unparse_def uuid_fmt_groups length_hex_bytes print_hex_bytes s lower_digit_idem)
qed

theorem uuid_roundtrip_witness:
  "let uu = [0x0F, 0xC6, 0x3D, 0xAF, 0x84, 0x83, 0x47, 0x72, 0x8E, 0x79, 0x3D, 0x69, 0xD8, 0x47, 0x7D, 0xE4];
       s = ''0fC63DAF-8483-4772-8E79-3d69D8477DE4''
   in uuid_parse (uuid_unparse_lower uu) = Some uu \<and> uuid_parse (uuid_unparse_upper uu) = Some uu \<and>
      uuid_unparse uu = map lower_digit s"
proof -
  have "uuid_shape ''0fC63DAF-8483-4772-8E79-3d69D8477DE4'' \<and>
    hex_bytes (undash ''0fC63DAF-8483-4772-8E79-3d69D8477DE4'') =
      [0x0F, 0xC6, 0x3D, 0xAF, 0x84, 0x83, 0x47, 0x72, 0x8E, 0x79, 0x3D, 0x69, 0xD8, 0x47, 0x7D, 0xE4]"
    by code_simp
  then have "uuid_parse ''0fC63DAF-8483-4772-8E79-3d69D8477DE4'' =
    Some [0x0F, 0xC6, 0x3D, 0xAF, 0x84, 0x83, 0x47, 0x72, 0x8E, 0x79, 0x3D, 0x69, 0xD8, 0x47, 0x7D, 0xE4]"
    using uuid_parse_eq by (simp only: if_True)
  then show ?thesis
    using uuid_roundtrip[of "[0x0F, 0xC6, 0x3D, 0xAF, 0x84, 0x83, 0x47, 0x72, 0x8E, 0x79, 0x3D, 0x69, 0xD8, 0x47, 0x7D, 0xE4]"
        "''0fC63DAF-8483-4772-8E79-3d69D8477DE4''"] by (simp only: Let_def length_Cons) simp
qed

end
