(* ===== verification/Mkfs_Fat.thy ===== *)
theory Mkfs_Fat
  imports Fs_Probe
begin

text \<open>
  The formatter \<open>apps/mkfs.fat/mkfs.fat.c\<close> and the listing \<open>apps/list_part/ListPart.c\<close>. Both
  look for the handles of partitions with the boot services; the formatter writes a FAT32
  boot sector and two copies of the start of a file allocation table through the block
  I/O protocol of the first handle. An \<open>EFI_STATUS\<close> is \<open>True\<close> when it is no error. A
  \<open>EFI_BLOCK_IO\<close> is the handle with the record of its \<open>Media\<close>.
\<close>

section \<open>The boot sector\<close>

record fat32_boot_sector =
  jmp :: "byte list"
  oem :: "byte list"
  bytes_per_sector :: "16 word"
  sectors_per_cluster :: "8 word"
  reserved_sectors :: "16 word"
  fat_count :: "8 word"
  root_dir_entries :: "16 word"
  total_sectors_16 :: "16 word"
  media_descriptor :: "8 word"
  fat_size_16 :: "16 word"
  mk_sectors_per_track :: "16 word"
  head_count :: "16 word"
  hidden_sectors :: "32 word"
  total_sectors_32 :: "32 word"
  fat_size_32 :: "32 word"
  mk_flags :: "16 word"
  mk_version :: "16 word"
  mk_root_cluster :: "32 word"
  fs_info_sector :: "16 word"
  backup_boot_sector :: "16 word"
  mk_reserved :: "byte list"
  drive_number :: "8 word"
  reserved2 :: "8 word"
  mk_signature :: "8 word"
  volume_id :: "32 word"
  volume_label :: "byte list"
  mk_fs_type :: "byte list"
  mk_boot_code :: "byte list"
  signature2 :: "16 word"

definition boot_sector_bytes :: "fat32_boot_sector \<Rightarrow> byte list" where
  "boot_sector_bytes b = jmp b @ oem b @ le_bytes 2 (bytes_per_sector b) @ le_bytes 1 (sectors_per_cluster b)
     @ le_bytes 2 (reserved_sectors b) @ le_bytes 1 (fat_count b) @ le_bytes 2 (root_dir_entries b)
     @ le_bytes 2 (total_sectors_16 b) @ le_bytes 1 (media_descriptor b) @ le_bytes 2 (fat_size_16 b)
     @ le_bytes 2 (mk_sectors_per_track b) @ le_bytes 2 (head_count b) @ le_bytes 4 (hidden_sectors b)
     @ le_bytes 4 (total_sectors_32 b) @ le_bytes 4 (fat_size_32 b) @ le_bytes 2 (mk_flags b)
     @ le_bytes 2 (mk_version b) @ le_bytes 4 (mk_root_cluster b) @ le_bytes 2 (fs_info_sector b)
     @ le_bytes 2 (backup_boot_sector b) @ mk_reserved b @ le_bytes 1 (drive_number b) @ le_bytes 1 (reserved2 b)
     @ le_bytes 1 (mk_signature b) @ le_bytes 4 (volume_id b) @ volume_label b @ mk_fs_type b @ mk_boot_code b
     @ le_bytes 2 (signature2 b)"

definition zero_boot_sector :: fat32_boot_sector where
  "zero_boot_sector = \<lparr>jmp = replicate 3 0, oem = replicate 8 0, bytes_per_sector = 0, sectors_per_cluster = 0,
     reserved_sectors = 0, fat_count = 0, root_dir_entries = 0, total_sectors_16 = 0, media_descriptor = 0,
     fat_size_16 = 0, mk_sectors_per_track = 0, head_count = 0, hidden_sectors = 0, total_sectors_32 = 0,
     fat_size_32 = 0, mk_flags = 0, mk_version = 0, mk_root_cluster = 0, fs_info_sector = 0, backup_boot_sector = 0,
     mk_reserved = replicate 12 0, drive_number = 0, reserved2 = 0, mk_signature = 0, volume_id = 0,
     volume_label = replicate 11 0, mk_fs_type = replicate 8 0, mk_boot_code = replicate 420 0, signature2 = 0\<rparr>"

text \<open>The bytes of \<open>MSWIN4.1\<close>.\<close>

definition MSWIN41 :: "byte list" where
  "MSWIN41 = [0x4d, 0x53, 0x57, 0x49, 0x4e, 0x34, 0x2e, 0x31]"

definition FAT32_SIGNATURE :: "16 word" where "FAT32_SIGNATURE = 0xAA55"

definition make_boot_sector :: "32 word \<Rightarrow> 32 word \<Rightarrow> fat32_boot_sector" where
  "make_boot_sector FatSize32 TotalSectors32 = zero_boot_sector
     \<lparr>jmp := [0xEB, 0x58, 0x90], oem := MSWIN41, bytes_per_sector := 512, sectors_per_cluster := 8,
      reserved_sectors := 32, fat_count := 2, media_descriptor := 0xF8, fat_size_32 := FatSize32,
      mk_root_cluster := 2, fs_info_sector := 1, backup_boot_sector := 6, signature2 := FAT32_SIGNATURE,
      total_sectors_32 := TotalSectors32\<rparr>"

definition WriteFAT32BootSector :: "'s firmware \<Rightarrow> nat \<Rightarrow> 32 word \<Rightarrow> 32 word \<Rightarrow> 's \<Rightarrow> bool \<times> 's" where
  "WriteFAT32BootSector fw h FatSize32 TotalSectors32 s =
     WriteBlocks fw s h 0 512 (boot_sector_bytes (make_boot_sector FatSize32 TotalSectors32))"

section \<open>The file allocation tables\<close>

text \<open>The size of the buffer in bytes, computed with 32 bits.\<close>

definition fat_buffer_size :: "EFI_BLOCK_IO_MEDIA \<Rightarrow> 32 word \<Rightarrow> 32 word" where
  "fat_buffer_size m FatEntries =
     ((FatEntries * 4) div word_of_int (BlockSize m) + 1) * word_of_int (BlockSize m)"

definition fat_buffer :: "nat \<Rightarrow> byte list" where
  "fat_buffer n = [0x0F, 0xFF, 0xFF, 0xFF, 0x0F, 0xFF, 0xFF, 0xFF] @ drop 8 (replicate n 0)"

definition WriteFATTable :: "'s firmware \<Rightarrow> nat \<Rightarrow> EFI_BLOCK_IO_MEDIA \<Rightarrow> 32 word \<Rightarrow> 32 word \<Rightarrow> 's \<Rightarrow> bool \<times> 's" where
  "WriteFATTable fw h m FatSize32 TotalSectors32 s =
     (let FatStart = 32 * 512 :: 32 word;
          FatEntries = TotalSectors32 div 128;
          size = fat_buffer_size m FatEntries;
          Fat = fat_buffer (unat size)
      in case WriteBlocks fw s h (uint (FatStart div word_of_int (BlockSize m))) (unat size) Fat of
           (False, s) \<Rightarrow> (False, s)
         | (True, s) \<Rightarrow>
             WriteBlocks fw s h (uint ((FatStart + FatSize32 * 512) div word_of_int (BlockSize m))) (unat size) Fat)"

definition FormatPartition :: "'s firmware \<Rightarrow> nat \<Rightarrow> EFI_BLOCK_IO_MEDIA \<Rightarrow> 's \<Rightarrow> bool \<times> 's" where
  "FormatPartition fw h m s =
     (let FatSize32 = 8192; TotalSectors32 = 1000000
      in case WriteFAT32BootSector fw h FatSize32 TotalSectors32 s of
           (False, s) \<Rightarrow> (False, s)
         | (True, s) \<Rightarrow> WriteFATTable fw h m FatSize32 TotalSectors32 s)"

section \<open>The handles of partitions\<close>

text \<open>
  The loop over the nodes of one device path: whether a partition with media was found, and the
  status of the last call of \<open>HandleProtocol\<close>.
\<close>

fun partition_nodes :: "EFI_BLOCK_IO_MEDIA option \<Rightarrow> string list \<Rightarrow> bool \<Rightarrow> bool \<times> bool" where
  "partition_nodes blockIo [] status = (False, status)"
| "partition_nodes blockIo (p # ps) status =
     (case blockIo of
        None \<Rightarrow> partition_nodes blockIo ps False
      | Some m \<Rightarrow>
          if \<not> LogicalPartition m then partition_nodes blockIo ps True
          else if \<not> MediaPresent m then partition_nodes blockIo ps True
          else (True, True))"

text \<open>
  Both passes of the code over the handles make the same calls: the first counts, the second
  collects. Allocation does not fail.
\<close>

fun collect_partitions :: "'s firmware \<Rightarrow> 's \<Rightarrow> nat list \<Rightarrow> bool \<Rightarrow> nat list \<times> bool" where
  "collect_partitions fw s [] status = ([], status)"
| "collect_partitions fw s (h # hs) status =
     (case partition_nodes (HandleProtocol fw s h) (device_path fw s h) status of
        (found, status) \<Rightarrow>
          (case collect_partitions fw s hs status of
             (disks, status) \<Rightarrow> (if found then h # disks else disks, status)))"

definition GetPartitionHandles :: "'s firmware \<Rightarrow> 's \<Rightarrow> nat list \<times> bool" where
  "GetPartitionHandles fw s =
     (case LocateHandleBuffer fw s of
        None \<Rightarrow> ([], False)
      | Some allHandles \<Rightarrow>
          let (_, status) = collect_partitions fw s allHandles True
          in collect_partitions fw s allHandles status)"

text \<open>
  The formatter. With no partition the code reads \<open>disks[0]\<close> behind the end of an empty array: the
  head of the empty list is unspecified.
\<close>

definition mkfs_main :: "'s firmware \<Rightarrow> 's \<Rightarrow> bool \<times> 's" where
  "mkfs_main fw s =
     (case GetPartitionHandles fw s of
        (_, False) \<Rightarrow> (False, s)
      | (disks, True) \<Rightarrow>
          (case HandleProtocol fw s (hd disks) of
             None \<Rightarrow> (False, s)
           | Some m \<Rightarrow> FormatPartition fw (hd disks) m s))"

text \<open>
  The listing: the lines it prints, as the number and text of the path and, for a handle
  with media, the size in bytes (a 64-bit product). \<open>path_text\<close> is the text of the whole path.
\<close>

definition disk_size :: "EFI_BLOCK_IO_MEDIA \<Rightarrow> int" where
  "disk_size m = (LastBlock m + 1) * BlockSize m mod 2 ^ 64"

definition list_part_main :: "'s firmware \<Rightarrow> (nat \<Rightarrow> string) \<Rightarrow> 's \<Rightarrow> bool \<times> (nat \<times> string \<times> int option) list" where
  "list_part_main fw path_text s =
     (case GetPartitionHandles fw s of
        (_, False) \<Rightarrow> (False, [])
      | (disks, True) \<Rightarrow>
          (True, map (\<lambda>(i, h). (i, path_text h,
             case HandleProtocol fw s h of None \<Rightarrow> None
             | Some m \<Rightarrow> if MediaPresent m then Some (disk_size m) else None)) (enumerate 0 disks)))"

section \<open>What is written\<close>

lemma boot_sector_length: "length (boot_sector_bytes (make_boot_sector f t)) = 512"
  by (simp add: boot_sector_bytes_def make_boot_sector_def zero_boot_sector_def MSWIN41_def)

definition fat_sector :: "int \<Rightarrow> byte list" where
  "fat_sector k = (if k = 0 then [0x0F, 0xFF, 0xFF, 0xFF, 0x0F, 0xFF, 0xFF, 0xFF] @ replicate 504 0 else replicate 512 0)"

lemma fat_buffer_sector:
  assumes "0 \<le> k" "k < 62"
  shows "take 512 (drop (nat k * 512) (fat_buffer (62 * 512))) = fat_sector k"
proof (cases "k = 0")
  case True
  then show ?thesis by (simp add: fat_buffer_def fat_sector_def drop_replicate min_def take_Cons')
next
  case False
  obtain i where "k = int i" using assms(1) nonneg_int_cases by blast
  then have i: "k = int i" "0 < i" "i < 62" using False assms(2) by simp_all
  then have "512 \<le> 31744 - i * 512" by simp
  then show ?thesis using i by (simp add: fat_buffer_def fat_sector_def min_def drop_Cons')
qed

lemma write_blocks:
  assumes "block_device fw h n bs blk" "0 \<le> l" "l + int k \<le> n" "length buf = k * bs"
  obtains s' where "WriteBlocks fw s h l (k * bs) buf = (True, s')"
    "\<And>j. blk s' j = (if l \<le> j \<and> j < l + int k then take bs (drop (nat (j - l) * bs) buf) else blk s j)"
proof -
  have "k * bs \<le> length buf" using assms(4) by simp
  then show ?thesis using assms(1-3) that unfolding block_device_def by meson
qed

lemma format_blocks:
  assumes dev: "block_device fw h n 512 blk" and n: "8286 \<le> n" and m: "BlockSize m = 512"
  shows "\<exists>s'. FormatPartition fw h m s = (True, s') \<and>
    (\<forall>j. blk s' j =
      (if j = 0 then boot_sector_bytes (make_boot_sector 8192 1000000)
       else if 32 \<le> j \<and> j < 94 then fat_sector (j - 32)
       else if 8224 \<le> j \<and> j < 8286 then fat_sector (j - 8224)
       else blk s j))"
proof -
  let ?b = "boot_sector_bytes (make_boot_sector 8192 1000000)" and ?f = "fat_buffer (62 * 512)"
  have lf: "length ?f = 62 * 512" by (simp add: fat_buffer_def)
  obtain s1 where s1: "WriteBlocks fw s h 0 (1 * 512) ?b = (True, s1)"
    "\<And>j. blk s1 j = (if 0 \<le> j \<and> j < 0 + int 1 then take 512 (drop (nat (j - 0) * 512) ?b) else blk s j)"
    by (rule write_blocks[OF dev, of 0 1 ?b s]) (use n boot_sector_length in auto)
  obtain s2 where s2: "WriteBlocks fw s1 h 32 (62 * 512) ?f = (True, s2)"
    "\<And>j. blk s2 j = (if 32 \<le> j \<and> j < 32 + int 62 then take 512 (drop (nat (j - 32) * 512) ?f) else blk s1 j)"
    by (rule write_blocks[OF dev, of 32 62 ?f s1]) (use n lf in auto)
  obtain s3 where s3: "WriteBlocks fw s2 h 8224 (62 * 512) ?f = (True, s3)"
    "\<And>j. blk s3 j = (if 8224 \<le> j \<and> j < 8224 + int 62 then take 512 (drop (nat (j - 8224) * 512) ?f) else blk s2 j)"
    by (rule write_blocks[OF dev, of 8224 62 ?f s2]) (use n lf in auto)
  have size: "fat_buffer_size m (1000000 div 128) = 31744" by (simp add: fat_buffer_size_def m)
  have "FormatPartition fw h m s = (True, s3)"
    unfolding FormatPartition_def WriteFAT32BootSector_def WriteFATTable_def Let_def size m
    using s1(1) s2(1) s3(1) by simp
  moreover have "blk s3 j =
      (if j = 0 then ?b else if 32 \<le> j \<and> j < 94 then fat_sector (j - 32)
       else if 8224 \<le> j \<and> j < 8286 then fat_sector (j - 8224) else blk s j)" for j
    using fat_buffer_sector[of "j - 32"] fat_buffer_sector[of "j - 8224"] boot_sector_length[of 8192 1000000]
    by (simp add: s3(2) s2(2) s1(2))
  ultimately show ?thesis by blast
qed

text \<open>
  On a medium of 512-byte sectors the formatter writes exactly the boot sector and 62 sectors at
  the place of each of the two tables: of the 8192 sectors of a table the rest keeps its old
  contents, and so do the sectors that the boot sector names as its backup and the information
  sector, and the root directory.
\<close>
theorem format_writes_exactly:
  assumes dev: "block_device fw h n 512 blk" and n: "8286 \<le> n" and m: "BlockSize m = 512"
  shows "\<exists>s'. FormatPartition fw h m s = (True, s') \<and>
    (\<forall>j. blk s' j =
      (if j = 0 then boot_sector_bytes (make_boot_sector 8192 1000000)
       else if 32 \<le> j \<and> j < 94 then fat_sector (j - 32)
       else if 8224 \<le> j \<and> j < 8286 then fat_sector (j - 8224)
       else blk s j))"
  by (rule format_blocks[OF assms])

text \<open>The entry of a cluster: 32 bits of which the upper four are reserved.\<close>

definition fat_entry :: "nat \<Rightarrow> byte list \<Rightarrow> 32 word" where
  "fat_entry k fat = of_le (field (4 * k) 4 fat) AND 0x0FFFFFFF"

text \<open>
  The entries that are written are not those of a FAT32 file system: entry 0 does not hold the
  media descriptor of the boot sector and entry 1 is no end mark, because the bytes are stored in
  the wrong order, and the root directory's cluster 2 is marked as free.
\<close>
theorem fat_entries_written:
  "fat_entry 0 (fat_sector 0) = 0x0FFFFF0F \<and> fat_entry 1 (fat_sector 0) = 0x0FFFFF0F \<and>
   fat_entry (unat (mk_root_cluster (make_boot_sector f t))) (fat_sector 0) = 0"
  by (simp add: fat_entry_def fat_sector_def field_def of_le_Cons make_boot_sector_def take_Cons' drop_Cons')

section \<open>The formatted medium is recognised\<close>

lemma written_boot_sector:
  "fat_boot_sector_of_bytes (boot_sector_bytes (make_boot_sector f t)) = \<lparr>boot_jump = [0xEB, 0x58, 0x90], system_id = MSWIN41,
     bs_sector_size = 512, bs_cluster_size = 8, reserved = 32, fats = 2, dir_entries = 0, bs_sectors = 0,
     media = 0xF8, fat_length = 0, secs_track = 0, bs_heads = 0, hidden = 0, bs_sector_count = t,
     fat16_serial_number = of_le (field 0x27 4 (boot_sector_bytes (make_boot_sector f t))), fat32_fat_length = f,
     fat32_root_dir_cluster = 2, fat32_info_sector = 1, fat32_backup_sector = 6, fat32_serial_number = 0,
     boot_sign = 0xAA55\<rparr>"
  by (simp add: fat_boot_sector_of_bytes_def boot_sector_bytes_def make_boot_sector_def zero_boot_sector_def
      MSWIN41_def FAT32_SIGNATURE_def field_def of_le_le_bytes take_Cons' drop_Cons')

text \<open>
  C36. What the formatter makes of a partition is found by the FAT32 probe of libparted as a region
  that starts there and has 1000000 sectors, whatever the size of the partition; only a handler
  that cancels at the report of the (unset) CHS geometry makes the probe fail.
\<close>
theorem formatted_partition_is_fat32:
  assumes dev: "uefi_device fw h n 512 blk dev st" and n: "8286 \<le> n" and m: "BlockSize m = 512"
    and fmt: "FormatPartition fw h m (platform st) = (True, s')"
    and geom: "geom = \<lparr>g_dev = dev, g_start = 0, g_length = n, g_end = n - 1\<rparr>"
  shows "fat_probe_fat32 (uefi_dev_ops fw) ask geom (st\<lparr>platform := s'\<rparr>) = Some
    (if ask (chs_exception (fat_boot_sector_of_bytes (blk s' 0)) (dev_of st dev)) = PED_EXCEPTION_CANCEL then None
     else Some \<lparr>g_dev = dev, g_start = 0, g_length = 1000000, g_end = 999999\<rparr>)"
proof -
  let ?ops = "uefi_dev_ops fw" and ?st = "st\<lparr>platform := s'\<rparr>" and ?img = "\<lambda>st. blk (platform st)"
  have bd: "block_device fw h n 512 blk" and len: "dev_length (dev_of st dev) = n" "sector_size (dev_of st dev) = 512"
    using dev by (simp_all add: uefi_device_def)
  have blk0: "blk s' 0 = boot_sector_bytes (make_boot_sector 8192 1000000)"
    using format_blocks[OF bd n m, of "platform st"] fmt by auto
  have w: "working_device ?ops (g_dev geom) ?img ?st" using uefi_device_working[OF dev] geom by simp
  have "ped_geometry_read ?ops geom (uninit_buffer 512) 0 1 ?st = (True, sectors_of ?img ?st 0 1)"
    using geometry_read_working[OF w, of 0 1 "uninit_buffer 512"] geom len n
    by (simp add: in_device_def sector_bytes_def uninit_buffer_def)
  then have read: "fat_boot_sector_read ?ops geom ?st = Some (fat_boot_sector_of_bytes (blk s' 0))"
    using geom len by (simp add: fat_boot_sector_read_def ped_geometry_read_alloc_def blk0 written_boot_sector Let_def)
  let ?bs = "fat_boot_sector_of_bytes (blk s' 0)"
  have fields: "bad_chs ?bs" "fi_sector_count (fat_common ?bs) = 1000000" "logical_sector_size (fat_common ?bs) = 1"
    "fat_table_count (fat_common ?bs) = 2" "cluster_sectors (fat_common ?bs) = 8"
    "fat_boot_sector_probe_type ?bs g = FAT_TYPE_FAT32" for g
    by (simp_all add: blk0 written_boot_sector bad_chs_def fat_common_def fat_boot_sector_probe_type_def)
  have keep: "fi_sector_count (fat_clusters (fat32_numbers b fi)) = fi_sector_count fi"
    "fat_type (fat_clusters (fat32_numbers b fi)) = fat_type fi" for b fi
    by (simp_all add: fat_clusters_def fat32_numbers_def Let_def)
  have dup: "ped_geometry_duplicate geom = Inr geom"
    using n geom by (simp add: ped_geometry_duplicate_def ped_geometry_new_def ped_geometry_init_def ped_geometry_set_def uninit_geometry_def)
  let ?fi = "fat_clusters (fat32_numbers ?bs ((fat_common ?bs)\<lparr>fat_type := FAT_TYPE_FAT32\<rparr>))"
  let ?cancel = "ask (chs_exception ?bs (dev_of st dev)) = PED_EXCEPTION_CANCEL"
  have gd: "g_dev geom = dev" "g_start geom = 0" by (simp_all add: geom)
  have "fat_boot_sector_analyse ask ?bs geom ?st = (if ?cancel then None else Some ?fi)"
    unfolding fat_boot_sector_analyse_def Let_def using fields by (simp add: gd)
  moreover have "ped_geometry_new dev 0 (fi_sector_count ?fi) =
      Inr \<lparr>g_dev = dev, g_start = 0, g_length = 1000000, g_end = 999999\<rparr>"
    unfolding keep by (simp add: fields ped_geometry_new_def ped_geometry_init_def ped_geometry_set_def uninit_geometry_def)
  ultimately have "fat_probe ?ops ask geom ?st =
      (if ?cancel then None else Some (\<lparr>g_dev = dev, g_start = 0, g_length = 1000000, g_end = 999999\<rparr>, FAT_TYPE_FAT32))"
    unfolding fat_probe_def dup read gd by (simp add: keep)
  then show ?thesis unfolding fat_probe_fat32_def by simp
qed

theorem formatted_partition_is_fat32_witness:
  "\<exists>s'. FormatPartition (ram_fw 10000 512) 0
       \<lparr>BlockSize = 512, LastBlock = 9999, ReadOnly = False, LogicalPartition = True, MediaPresent = True\<rparr> (\<lambda>_. []) = (True, s') \<and>
     fat_probe_fat32 (uefi_dev_ops (ram_fw 10000 512)) (\<lambda>_. PED_EXCEPTION_UNHANDLED)
       \<lparr>g_dev = 0, g_start = 0, g_length = 10000, g_end = 9999\<rparr> (ram_state 10000 512 s')
       = Some (Some \<lparr>g_dev = 0, g_start = 0, g_length = 1000000, g_end = 999999\<rparr>)"
proof -
  let ?m = "\<lparr>BlockSize = 512, LastBlock = 9999, ReadOnly = False, LogicalPartition = True, MediaPresent = True\<rparr>"
  have bd: "block_device (ram_fw 10000 512) 0 10000 512 (ram_blk 512)" using ram_device[of 512 10000] by simp
  have m: "BlockSize ?m = 512" by simp
  obtain s' where s': "FormatPartition (ram_fw 10000 512) 0 ?m (platform (ram_state 10000 512 (\<lambda>_. []))) = (True, s')"
    using format_blocks[OF bd _ m] by fastforce
  have "uefi_device (ram_fw 10000 512) 0 10000 512 (ram_blk 512) 0 (ram_state 10000 512 (\<lambda>_. []))"
    using bd by (simp add: uefi_device_def ram_state_def)
  from formatted_partition_is_fat32[OF this _ m s' refl, of "\<lambda>_. PED_EXCEPTION_UNHANDLED"] s'
  show ?thesis by (intro exI[of _ s']) (simp add: ram_state_def)
qed

theorem format_writes_exactly_witness:
  "\<exists>s'. FormatPartition (ram_fw 10000 512) 0
       \<lparr>BlockSize = 512, LastBlock = 9999, ReadOnly = False, LogicalPartition = True, MediaPresent = True\<rparr> (\<lambda>_. []) = (True, s') \<and>
     ram_blk 512 s' 94 = replicate 512 0 \<and> ram_blk 512 s' 8224 = fat_sector 0"
proof -
  have "block_device (ram_fw 10000 512) 0 10000 512 (ram_blk 512)" using ram_device[of 512 10000] by simp
  from format_writes_exactly[OF this, of "\<lparr>BlockSize = 512, LastBlock = 9999, ReadOnly = False, LogicalPartition = True,
      MediaPresent = True\<rparr>" "\<lambda>_. []"] obtain s' where
    s': "FormatPartition (ram_fw 10000 512) 0
       \<lparr>BlockSize = 512, LastBlock = 9999, ReadOnly = False, LogicalPartition = True, MediaPresent = True\<rparr> (\<lambda>_. []) = (True, s')"
    "\<And>j. ram_blk 512 s' j = (if j = 0 then boot_sector_bytes (make_boot_sector 8192 1000000)
       else if 32 \<le> j \<and> j < 94 then fat_sector (j - 32)
       else if 8224 \<le> j \<and> j < 8286 then fat_sector (j - 8224) else ram_blk 512 (\<lambda>_. []) j)"
    by auto
  moreover have "ram_blk 512 (\<lambda>_. []) 94 = replicate 512 0" by (simp add: ram_blk_def)
  ultimately show ?thesis by (intro exI[of _ s']) simp
qed

section \<open>The search for partitions\<close>

lemma partition_nodes_found:
  "fst (partition_nodes blockIo ps status) \<longleftrightarrow>
     ps \<noteq> [] \<and> (\<exists>m. blockIo = Some m \<and> LogicalPartition m \<and> MediaPresent m)"
  by (induction ps arbitrary: status) (auto split: option.split)

text \<open>
  The search returns the handles of the partitions with media, in the order of the firmware, and
  its status is an error only when the handles could not be listed or the last handle with
  a device path has lost the block I/O protocol.
\<close>
theorem partition_handles_are_partitions:
  "fst (GetPartitionHandles fw s) =
     (case LocateHandleBuffer fw s of None \<Rightarrow> []
      | Some hs \<Rightarrow> filter (\<lambda>h. device_path fw s h \<noteq> [] \<and>
          (case HandleProtocol fw s h of None \<Rightarrow> False | Some m \<Rightarrow> LogicalPartition m \<and> MediaPresent m)) hs) \<and>
   (snd (GetPartitionHandles fw s) \<longleftrightarrow>
      (case LocateHandleBuffer fw s of None \<Rightarrow> False
       | Some hs \<Rightarrow> (let used = filter (\<lambda>h. device_path fw s h \<noteq> []) hs
                       in used = [] \<or> HandleProtocol fw s (last used) \<noteq> None)))"
proof -
  have snd: "snd (partition_nodes b ps status) = (if ps = [] then status else b \<noteq> None)" for b ps status
  proof (induction ps arbitrary: status)
    case (Cons p ps)
    show ?case using Cons.IH by (cases b) simp_all
  qed simp
  have "collect_partitions fw s hs status =
      (filter (\<lambda>h. device_path fw s h \<noteq> [] \<and>
          (case HandleProtocol fw s h of None \<Rightarrow> False | Some m \<Rightarrow> LogicalPartition m \<and> MediaPresent m)) hs,
       (let used = filter (\<lambda>h. device_path fw s h \<noteq> []) hs
        in if used = [] then status else HandleProtocol fw s (last used) \<noteq> None))" for hs status
  proof (induction hs arbitrary: status)
    case (Cons h hs)
    define c where "c = partition_nodes (HandleProtocol fw s h) (device_path fw s h) status"
    have c: "fst c \<longleftrightarrow> device_path fw s h \<noteq> [] \<and>
        (case HandleProtocol fw s h of None \<Rightarrow> False | Some m \<Rightarrow> LogicalPartition m \<and> MediaPresent m)"
      "snd c = (if device_path fw s h = [] then status else HandleProtocol fw s h \<noteq> None)"
      unfolding c_def snd partition_nodes_found by (auto split: option.split)
    have step: "collect_partitions fw s (h # hs) status = (case collect_partitions fw s hs (snd c) of
        (disks, status) \<Rightarrow> (if fst c then h # disks else disks, status))"
      by (simp add: c_def[symmetric] case_prod_beta)
    show ?case unfolding step Cons.IH c by (cases "device_path fw s h = []") (simp_all add: Let_def)
  qed simp
  then show ?thesis by (auto simp: GetPartitionHandles_def Let_def split: option.split)
qed

end
