(* ===== verification/Loop_Disk.thy ===== *)
theory Loop_Disk
  imports Loop Filesys
begin

text \<open>
  The label \<open>loop\<close> on a device (\<open>labels/loop.c\<close>): probing, reading and writing its signature. A
  device without the signature is also taken for a loop label when a file system covers it, so
  that both probing and reading go through \<open>ped_file_system_probe\<close>, which need not return.
\<close>

section \<open>Operations\<close>

text \<open>\<open>GNU Parted Loopback 0\<close>, without the terminating zero.\<close>

definition LOOP_SIGNATURE :: "byte list" where
  "LOOP_SIGNATURE = [0x47, 0x4e, 0x55, 0x20, 0x50, 0x61, 0x72, 0x74, 0x65, 0x64, 0x20,
     0x4c, 0x6f, 0x6f, 0x70, 0x62, 0x61, 0x63, 0x6b, 0x20, 0x30]"

text \<open>\<open>strncmp\<close> over the length of the signature, which has no zero byte.\<close>

definition loop_found_sig :: "byte list \<Rightarrow> bool" where
  "loop_found_sig buf \<longleftrightarrow> take (length LOOP_SIGNATURE) buf = LOOP_SIGNATURE"

definition loop_probe ::
    "'s PedDeviceArchOps \<Rightarrow> PedExceptionHandler \<Rightarrow> 's PedFileSystemType list \<Rightarrow> dev_ref \<Rightarrow> 's io_state \<Rightarrow>
     (bool \<times> 's io_state) option" where
  "loop_probe ops ask fs_types dev st =
     (case loop_alloc (dev_tab st) ask dev of
        None \<Rightarrow> Some (False, st)
      | Some disk \<Rightarrow>
     (case ptt_read_sector ops dev 0 st of
        None \<Rightarrow> Some (False, st)
      | Some buf \<Rightarrow>
          if loop_found_sig buf then Some (True, st)
          else case ped_geometry_new dev 0 (dev_length (dev_of st dev)) of
            Inl _ \<Rightarrow> Some (False, st)
          | Inr geom \<Rightarrow>
              (case ped_file_system_probe ops fs_types geom st of
                 None \<Rightarrow> None
               | Some (found, st) \<Rightarrow> Some (found \<noteq> None, st))))"

definition loop_read ::
    "'s PedDeviceArchOps \<Rightarrow> PedExceptionHandler \<Rightarrow> 's PedFileSystemType list \<Rightarrow> LoopDisk \<Rightarrow> 's io_state \<Rightarrow>
     (bool \<times> LoopDisk \<times> 's io_state) option" where
  "loop_read ops ask fs_types disk st =
     (let dev = d_dev disk;
          disk = ped_disk_delete_all loop_disk_ops (dev_tab st) ask disk
      in case ptt_read_sector ops dev 0 st of
           None \<Rightarrow> Some (False, disk, st)
         | Some buf \<Rightarrow>
      (case ped_geometry_new dev 0 (dev_length (dev_of st dev)) of
         Inl _ \<Rightarrow> Some (False, disk, st)
       | Inr geom \<Rightarrow>
      (case ped_file_system_probe ops fs_types geom st of
         None \<Rightarrow> None
       | Some (fs_type, st) \<Rightarrow>
           if fs_type = None \<and> \<not> loop_found_sig buf then Some (False, disk, st)
           else case ped_partition_new loop_disk_ops disk PED_PARTITION_NORMAL (map_option fs_name fs_type)
                       (g_start geom) (g_end geom) of
             Inl _ \<Rightarrow> Some (False, disk, st)
           | Inr p \<Rightarrow>
               let (disk, part) = alloc_node disk p
               in case ped_disk_add_partition loop_disk_ops (dev_tab st) ask part (ped_constraint_any (dev_tab st) dev) disk of
                    (Inl _, disk) \<Rightarrow> Some (False, disk, st)
                  | (Inr _, disk) \<Rightarrow> Some (True, disk, st))))"

text \<open>\<open>strcpy\<close> also copies the terminating zero.\<close>

definition loop_write ::
    "'s PedDeviceArchOps \<Rightarrow> LoopDisk \<Rightarrow> 's io_state \<Rightarrow> bool \<times> 's io_state" where
  "loop_write ops disk st =
     (if (case ped_disk_get_partition disk 1 of None \<Rightarrow> False | Some part \<Rightarrow> p_fs (node disk part) \<noteq> None)
      then (True, st)
      else case ped_device_read ops (d_dev disk) (uninit_buffer (nat (sector_size (dev_of st (d_dev disk))))) 0 1 st of
        (False, _) \<Rightarrow> (False, st)
      | (True, buf) \<Rightarrow>
          ped_device_write ops (d_dev disk) (LOOP_SIGNATURE @ [0] @ drop (length LOOP_SIGNATURE + 1) buf) 0 1 st)"

section \<open>A fresh label\<close>

lemma intersect_sizes:
  assumes "ped_constraint_intersect (Some a) (Some b) = Some c"
  shows "min_size c = max (min_size a) (min_size b)"
  using assms by (auto simp: ped_constraint_intersect_def ped_constraint_new_def ped_constraint_init_def Let_def
      split: option.splits)

lemma any_sizes: "ped_constraint_any devs dev = Some c \<Longrightarrow> min_size c = 1"
  by (auto simp: ped_constraint_any_def ped_constraint_new_def ped_constraint_init_def split: sum.splits)

lemma new_from_max_sizes: "ped_constraint_new_from_max m = Some c \<Longrightarrow> min_size c = 1"
  by (auto simp: ped_constraint_new_from_max_def ped_constraint_new_def ped_constraint_init_def)

text \<open>The alignment of the only partition inside the whole device leaves it where it is.\<close>

lemma whole_device_solved:
  fixes N :: int
  assumes N: "2 \<le> N" "N < 2 ^ 63" "dev_length (devs dev) = N"
    and g: "g = \<lparr>g_dev = dev, g_start = 0, g_length = N, g_end = N - 1\<rparr>"
  obtains c where "ped_constraint_intersect (ped_constraint_new_from_max (geometry_init_local dev 0 LLONG_MAX))
      (ped_constraint_any devs dev) = Some c" "ped_constraint_solve_nearest devs (Some c) g = Some g"
proof -
  let ?m = "\<lparr>g_dev = dev, g_start = 0, g_length = LLONG_MAX, g_end = LLONG_MAX - 1\<rparr>"
  have m: "geometry_init_local dev 0 LLONG_MAX = ?m" "geom_wf ?m"
    by (simp_all add: geometry_init_local_def geom_simps uninit_geometry_def LLONG_MAX_def)
  have gw: "geom_wf g" using N by (simp add: g geom_wf_def)
  have "0 < dev_length (devs dev)" using N by simp
  then obtain a where a: "ped_constraint_any devs dev = Some a" "constraint_wf a" "constraint_dev a = dev"
    "\<And>h. geom_wf h \<Longrightarrow> ped_constraint_is_solution a h \<longleftrightarrow> g_end h < N" and sm: "constraint_small a"
    by (rule constraint_any_usable[where devs = devs and dev = dev]) (use N(3) in auto)
  obtain b where b: "ped_constraint_new_from_max ?m = Some b" "constraint_wf b" "constraint_dev b = dev"
    "\<And>h. geom_wf h \<Longrightarrow> g_dev h = dev \<Longrightarrow> ped_constraint_is_solution b h \<longleftrightarrow> ped_geometry_test_inside ?m h"
    using constraint_new_from_max_spec[OF m(2)] by auto
  note bs = new_from_max_small(3)[OF b(1)]
  have sol: "ped_constraint_is_solution a g" "ped_constraint_is_solution b g"
    using a(4)[OF gw] b(4)[OF gw] N by (simp_all add: g ped_geometry_test_inside_def LLONG_MAX_def)
  have "constraint_dev b = constraint_dev a" using a(3) b(3) by simp
  from constraint_intersect_spec[OF b(2) bs a(2) sm this] sol obtain c where
    c: "ped_constraint_intersect (Some b) (Some a) = Some c" "constraint_wf c" "constraint_dev c = dev"
    "ped_constraint_is_solution c g"
    using b(3) by (auto split: option.splits)
  have "min_size c = 1" using intersect_sizes[OF c(1)] any_sizes[OF a(1)] new_from_max_sizes[OF b(1)] by simp
  then have "ped_constraint_solve_nearest devs (Some c) g = Some g"
    using c N by (intro solve_nearest_fixed[OF c(2,4) gw]) (simp_all add: g)
  then show thesis using that c(1) b(1) a(1) m(1) by simp
qed

definition spanning :: "dev_ref \<Rightarrow> int \<Rightarrow> string option \<Rightarrow> int \<Rightarrow> LoopPart" where
  "spanning dev N fs num = \<lparr>p_geom = \<lparr>g_dev = dev, g_start = 0, g_length = N, g_end = N - 1\<rparr>, p_num = num,
     p_type = PED_PARTITION_NORMAL, p_fs = fs, p_list = [], p_specific = ()\<rparr>"

lemma loop_alloc_Some:
  assumes N: "256 \<le> dev_length (devs dev)" "dev_length (devs dev) < 2 ^ 63"
  shows "loop_alloc devs ask dev = Some \<lparr>d_dev = dev, part_list = [0],
    d_heap = [0 \<mapsto> spanning dev (dev_length (devs dev)) None 1], next_addr = 1, needs_clobber = False,
    update_mode = 1, d_specific = ()\<rparr>"
proof -
  define N where "N = dev_length (devs dev)"
  let ?g = "\<lparr>g_dev = dev, g_start = 0, g_length = N, g_end = N - 1\<rparr>"
  have n: "2 \<le> N" "N < 2 ^ 63" "dev_length (devs dev) = N" "256 \<le> N" using assms by (simp_all add: N_def)
  obtain c where c: "ped_constraint_intersect (ped_constraint_new_from_max (geometry_init_local dev 0 LLONG_MAX))
      (ped_constraint_any devs dev) = Some c" "ped_constraint_solve_nearest devs (Some c) ?g = Some ?g"
    using whole_device_solved[where devs = devs and dev = dev, OF n(1-3) refl] .
  have new: "the (ptr_of (ped_geometry_new dev 0 N)) = ?g"
    using n by (simp add: geom_simps uninit_geometry_def)
  have part: "ped_partition_new loop_disk_ops d PED_PARTITION_NORMAL None 0 (N - 1) =
      Inr (spanning (d_dev d) N None (- 1))" for d
    using loop_partition_new_eq[of 0 "N - 1" PED_PARTITION_NORMAL d] n(1) by (simp add: spanning_def)
  define d where "d = (\<lparr>d_dev = dev, part_list = [], d_heap = [0 \<mapsto> spanning dev N None (- 1)], next_addr = 1,
    needs_clobber = False, update_mode = 2, d_specific = ()\<rparr> :: LoopDisk)"
  have sanity: "partition_check_basic_sanity loop_disk_ops devs (d\<lparr>update_mode := m\<rparr>) 0 = Inr ()" for m
    by (simp add: d_def partition_check_basic_sanity_def ped_disk_get_primary_partition_count_def disk_walk_def
        node_def spanning_def loop_get_max_primary_partition_count_def ped_disk_type_check_feature_def)
  have overlap: "partition_get_overlap_constraint d 0 ?g = ped_constraint_new_from_max (geometry_init_local dev 0 LLONG_MAX)"
    by (simp add: d_def partition_get_overlap_constraint_def node_def spanning_def list_head_def LLONG_MAX_def)
  have gn: "geom_of (upd_node 0 (\<lambda>p. p\<lparr>p_num := 1\<rparr>) d) 0 = ?g" "geom_of d 0 = ?g"
    by (simp_all add: d_def spanning_def node_def upd_node_def)
  have set: "ped_geometry_set ?g 0 N = Inr ?g" using n(1) by (simp add: ped_geometry_set_def)
  have align: "partition_align loop_disk_ops devs 0 (Some c) (upd_node 0 (\<lambda>p. p\<lparr>p_num := 1\<rparr>) d) =
      (Inr (), upd_node 0 (\<lambda>p. p\<lparr>p_geom := ?g\<rparr>) (upd_node 0 (\<lambda>p. p\<lparr>p_num := 1\<rparr>) d))"
  proof -
    have "\<not> needs_clobber (upd_node 0 (\<lambda>p. p\<lparr>p_num := 1\<rparr>) d)" by (simp add: d_def upd_node_def)
    then show ?thesis by (simp add: partition_align_def loop_partition_align_def gn c(2) set)
  qed
  have placed: "upd_node 0 (\<lambda>p. p\<lparr>p_geom := ?g\<rparr>) (upd_node 0 (\<lambda>p. p\<lparr>p_num := 1\<rparr>) d) =
      d\<lparr>d_heap := [0 \<mapsto> spanning dev N None 1]\<rparr>"
    by (simp add: d_def spanning_def node_def upd_node_def)
  have enum: "partition_enumerate loop_disk_ops 0 d = (True, upd_node 0 (\<lambda>p. p\<lparr>p_num := 1\<rparr>) d)"
    by (simp add: partition_enumerate_def loop_partition_enumerate_def)
  have place: "place_active loop_disk_ops devs ask 0 (ped_constraint_any devs dev) d =
      (Inr (), d\<lparr>d_heap := [0 \<mapsto> spanning dev N None 1]\<rparr>)"
    unfolding place_active_def Let_def gn overlap c(1) enum placed[symmetric] using align by simp
  have check: "check_partition loop_disk_ops devs ask (d\<lparr>d_heap := [0 \<mapsto> spanning dev N None 1]\<rparr>) 0 = Inr ()"
    using n(3) by (simp add: d_def check_partition_def ped_disk_extended_partition_def node_def spanning_def
        unless_ignored_def loop_partition_check_def)
  have add: "disk_raw_add (d\<lparr>d_heap := [0 \<mapsto> spanning dev N None 1]\<rparr>) 0 = d\<lparr>d_heap := [0 \<mapsto> spanning dev N None 1], part_list := [0]\<rparr>"
    by (simp add: d_def disk_raw_add_def node_def spanning_def list_for_def set_list_for_def)
  have "ped_disk_add_partition loop_disk_ops devs ask 0 (ped_constraint_any devs dev) (d\<lparr>update_mode := 1\<rparr>) =
    (Inr (), \<lparr>d_dev = dev, part_list = [0], d_heap = [0 \<mapsto> spanning dev N None 1], next_addr = 1,
      needs_clobber = False, update_mode = 1, d_specific = ()\<rparr>)"
  proof -
    have push: "disk_push_update_mode loop_disk_ops (d\<lparr>update_mode := 1\<rparr>) = d"
      by (simp add: d_def disk_push_update_mode_def mode_up_def)
    have act: "ped_partition_is_active (node d 0)" by (simp add: d_def node_def spanning_def ped_partition_is_active_def)
    show ?thesis
      unfolding ped_disk_add_partition_def sanity push add_body_def
      using act place check add by (simp add: disk_pop_update_mode_def mode_down_def) (simp add: d_def)
  qed
  moreover have "alloc_node (ped_disk_alloc dev ()) (spanning dev N None (- 1)) = (d\<lparr>update_mode := 1\<rparr>, 0)"
    by (simp add: d_def alloc_node_def ped_disk_alloc_def)
  ultimately show ?thesis
    unfolding loop_alloc_def Let_def new n(3) using n(4) part[of "ped_disk_alloc dev ()"]
    by (simp add: ped_disk_alloc_def[of dev] N_def[symmetric])
qed

section \<open>What is written is found\<close>

text \<open>
  On a working device of at least 256 sectors that hold the signature, \<open>loop_write\<close> puts the
  signature into sector 0 of a table without a file system, keeps the rest of the sector and all
  other sectors, and the device is then recognised as a loop label without looking for file systems.
\<close>
theorem loop_signature_is_found:
  assumes w: "working_device ops (d_dev d) img st"
    and len: "256 \<le> dev_length (dev_of st (d_dev d))" "dev_length (dev_of st (d_dev d)) < 2 ^ 63"
    and ss: "22 \<le> sector_size (dev_of st (d_dev d))"
    and fs: "\<And>part. ped_disk_get_partition d 1 = Some part \<Longrightarrow> p_fs (node d part) = None"
  shows "\<exists>q. loop_write ops d st = (True, st\<lparr>platform := q\<rparr>) \<and>
    loop_probe ops ask fs_types (d_dev d) (st\<lparr>platform := q\<rparr>) = Some (True, st\<lparr>platform := q\<rparr>) \<and>
    img (st\<lparr>platform := q\<rparr>) =
      (\<lambda>j. if j = 0 then LOOP_SIGNATURE @ [0] @ drop 22 (img st 0) else img st j)"
proof -
  let ?dev = "d_dev d"
  let ?new = "LOOP_SIGNATURE @ [0] @ drop 22 (img st 0)"
  have i: "in_device st ?dev 0 1" using len by (simp add: in_device_def)
  have l: "length (img st 0) = sector_bytes st ?dev 1" "22 \<le> sector_bytes st ?dev 1"
    using working_length[OF w i] ss by (simp_all add: sector_bytes_def)
  have ln: "length ?new = sector_bytes st ?dev 1" using l by (simp add: LOOP_SIGNATURE_def)
  have rd: "ped_device_read ops ?dev (uninit_buffer (nat (sector_size (dev_of st ?dev)))) 0 1 st = (True, img st 0)"
    using device_read_eq[OF w i, of "uninit_buffer (nat (sector_size (dev_of st ?dev)))"]
    by (simp add: sector_bytes_def uninit_buffer_def)
  obtain q where q: "ped_device_write ops ?dev ?new 0 1 st = (True, st\<lparr>platform := q\<rparr>)"
    "img (st\<lparr>platform := q\<rparr>) = written (sector_bytes st ?dev 1) (img st) 0 1 ?new"
    by (rule working_write[OF w i, of ?new]) (use ln in auto)
  have im: "img (st\<lparr>platform := q\<rparr>) = (\<lambda>j. if j = 0 then ?new else img st j)"
    using ln by (auto simp: q(2) written_def slice_def fun_eq_iff)
  have nofs: "\<not> (case ped_disk_get_partition d 1 of None \<Rightarrow> False | Some part \<Rightarrow> p_fs (node d part) \<noteq> None)"
    using fs by (simp split: option.split)
  have n22: "length LOOP_SIGNATURE + 1 = 22" by (simp add: LOOP_SIGNATURE_def)
  have "loop_write ops d st = (True, st\<lparr>platform := q\<rparr>)"
    unfolding loop_write_def if_not_P[OF nofs] rd prod.case bool.case n22 by (rule q(1))
  moreover have "ptt_read_sector ops ?dev 0 (st\<lparr>platform := q\<rparr>) = Some ?new"
    using read_sector_eq[of ops ?dev img "st\<lparr>platform := q\<rparr>" 0] w i by (simp add: im)
  then have "loop_probe ops ask fs_types ?dev (st\<lparr>platform := q\<rparr>) = Some (True, st\<lparr>platform := q\<rparr>)"
    using len by (simp add: loop_probe_def loop_alloc_Some loop_found_sig_def)
  ultimately show ?thesis using im by blast
qed

theorem loop_signature_is_found_witness:
  "\<exists>q. loop_write (uefi_dev_ops (ram_fw 10000 512)) demo_loop (ram_state 10000 512 (\<lambda>_. replicate 512 7)) =
      (True, (ram_state 10000 512 (\<lambda>_. replicate 512 7))\<lparr>platform := q\<rparr>) \<and>
    loop_probe (uefi_dev_ops (ram_fw 10000 512)) demo_ask [] 0 ((ram_state 10000 512 (\<lambda>_. replicate 512 7))\<lparr>platform := q\<rparr>)
      = Some (True, (ram_state 10000 512 (\<lambda>_. replicate 512 7))\<lparr>platform := q\<rparr>)"
proof -
  let ?st = "ram_state 10000 512 (\<lambda>_. replicate 512 7)"
  have d: "d_dev demo_loop = 0" "ped_disk_get_partition demo_loop 1 = Some 0" "p_fs (node demo_loop 0) = None" by code_simp+
  have f: "dev_length (dev_of ?st 0) = 10000" "sector_size (dev_of ?st 0) = 512" by (simp_all add: ram_state_def)
  have "working_device (uefi_dev_ops (ram_fw 10000 512)) (d_dev demo_loop) (\<lambda>st. ram_blk 512 (platform st)) ?st"
    using ram_working[of 512 10000] by (simp add: d)
  from loop_signature_is_found[OF this, of demo_ask "[]"] show ?thesis by (auto simp: d f)
qed

end
