(* ===== verification/Ped_Unit.thy ===== *)
theory Ped_Unit
  imports Complex_Main Disk_IO
begin

text \<open>
  Units of disk locations (\<open>libparted/unit.c\<close>): printing a location and reading one typed by the
  user. The character classes and the conversions of \<open>printf\<close> and \<open>sscanf\<close> that the code uses
  are written out for the C locale. A \<open>double\<close> is the rational it stands for; every operation
  on doubles rounds its exact result by the parameter \<open>rnd\<close>, which \<open>exact_double\<close> says to be
  exact on the integers up to \<open>2 ^ 53\<close>, as IEEE 754 does.
\<close>

section \<open>Characters and numbers of the C library\<close>

definition ascii :: "char \<Rightarrow> nat" where "ascii c = of_char c"

definition isspace :: "char \<Rightarrow> bool" where
  "isspace c \<longleftrightarrow> ascii c = 32 \<or> 9 \<le> ascii c \<and> ascii c \<le> 13"

definition isdigit :: "char \<Rightarrow> bool" where
  "isdigit c \<longleftrightarrow> 48 \<le> ascii c \<and> ascii c \<le> 57"

definition ispunct :: "char \<Rightarrow> bool" where
  "ispunct c \<longleftrightarrow> 33 \<le> ascii c \<and> ascii c \<le> 47 \<or> 58 \<le> ascii c \<and> ascii c \<le> 64 \<or>
     91 \<le> ascii c \<and> ascii c \<le> 96 \<or> 123 \<le> ascii c \<and> ascii c \<le> 126"

definition digit_value :: "char \<Rightarrow> nat" where "digit_value c = ascii c - 48"

definition digit_char :: "nat \<Rightarrow> char" where "digit_char d = char_of (48 + d)"

definition decimal :: "string \<Rightarrow> nat" where
  "decimal = foldl (\<lambda>n c. 10 * n + digit_value c) 0"

fun show_nat :: "nat \<Rightarrow> string" where
  "show_nat n = (if n < 10 then [digit_char n] else show_nat (n div 10) @ [digit_char (n mod 10)])"

declare show_nat.simps [simp del]

text \<open>\<open>%lld\<close>\<close>

definition show_int :: "int \<Rightarrow> string" where
  "show_int i = (if i < 0 then ''-'' @ show_nat (nat (- i)) else show_nat (nat i))"

text \<open>\<open>%d\<close> of \<open>sscanf\<close> on a string without signs; a value that does not fit an \<open>int\<close> is truncated.\<close>

definition scan_int :: "string \<Rightarrow> (int \<times> string) option" where
  "scan_int s = (let s = dropWhile isspace s; ds = takeWhile isdigit s
     in if ds = [] then None else Some (c_int (int (decimal ds)), dropWhile isdigit s))"

text \<open>\<open>%lf\<close> of \<open>sscanf\<close> on a string of digits, commas, points and minus signs: the exact value.\<close>

definition scan_decimal :: "string \<Rightarrow> rat option" where
  "scan_decimal s =
     (let neg = (s \<noteq> [] \<and> hd s = CHR ''-''); s = (if neg then tl s else s);
          ip = takeWhile isdigit s; s = dropWhile isdigit s;
          fp = (if s \<noteq> [] \<and> hd s = CHR ''.'' then takeWhile isdigit (tl s) else [])
      in if ip = [] \<and> fp = [] then None
         else let v = of_nat (decimal ip) + of_nat (decimal fp) / 10 ^ length fp
              in Some (if neg then - v else v))"

text \<open>The double nearest to an exact value; the truncation of the conversion to an integer type.\<close>

type_synonym rounding = "rat \<Rightarrow> rat"

definition exact_double :: "rounding \<Rightarrow> bool" where
  "exact_double rnd \<longleftrightarrow> (\<forall>k :: int. \<bar>k\<bar> \<le> 2 ^ 53 \<longrightarrow> rnd (of_int k) = of_int k)"

definition trunc_rat :: "rat \<Rightarrow> int" where
  "trunc_rat q = (if q < 0 then - \<lfloor>- q\<rfloor> else \<lfloor>q\<rfloor>)"

text \<open>\<open>%.*f\<close>: the value with \<open>p\<close> digits behind the point, a tie rounded to the even digit.\<close>

definition round_even :: "rat \<Rightarrow> int" where
  "round_even q = (let f = \<lfloor>q\<rfloor>; r = q - of_int f
     in if r < 1 / 2 \<or> r = 1 / 2 \<and> even f then f else f + 1)"

definition show_fixed :: "nat \<Rightarrow> rat \<Rightarrow> string" where
  "show_fixed p d =
     (let n = nat (round_even (\<bar>d\<bar> * 10 ^ p)); frac = show_nat (n mod 10 ^ p)
      in (if d < 0 then ''-'' else '''') @ show_nat (n div 10 ^ p) @
         (if p = 0 then '''' else ''.'' @ replicate (p - length frac) (CHR ''0'') @ frac))"

section \<open>Units\<close>

datatype PedUnit = PED_UNIT_SECTOR | PED_UNIT_BYTE | PED_UNIT_KILOBYTE | PED_UNIT_MEGABYTE | PED_UNIT_GIGABYTE
  | PED_UNIT_TERABYTE | PED_UNIT_COMPACT | PED_UNIT_CYLINDER | PED_UNIT_CHS | PED_UNIT_PERCENT
  | PED_UNIT_KIBIBYTE | PED_UNIT_MEBIBYTE | PED_UNIT_GIBIBYTE | PED_UNIT_TEBIBYTE

definition all_units :: "PedUnit list" where
  "all_units = [PED_UNIT_SECTOR, PED_UNIT_BYTE, PED_UNIT_KILOBYTE, PED_UNIT_MEGABYTE, PED_UNIT_GIGABYTE,
     PED_UNIT_TERABYTE, PED_UNIT_COMPACT, PED_UNIT_CYLINDER, PED_UNIT_CHS, PED_UNIT_PERCENT,
     PED_UNIT_KIBIBYTE, PED_UNIT_MEBIBYTE, PED_UNIT_GIBIBYTE, PED_UNIT_TEBIBYTE]"

fun ped_unit_get_name :: "PedUnit \<Rightarrow> string" where
  "ped_unit_get_name PED_UNIT_SECTOR = ''s''"
| "ped_unit_get_name PED_UNIT_BYTE = ''B''"
| "ped_unit_get_name PED_UNIT_KILOBYTE = ''kB''"
| "ped_unit_get_name PED_UNIT_MEGABYTE = ''MB''"
| "ped_unit_get_name PED_UNIT_GIGABYTE = ''GB''"
| "ped_unit_get_name PED_UNIT_TERABYTE = ''TB''"
| "ped_unit_get_name PED_UNIT_COMPACT = ''compact''"
| "ped_unit_get_name PED_UNIT_CYLINDER = ''cyl''"
| "ped_unit_get_name PED_UNIT_CHS = ''chs''"
| "ped_unit_get_name PED_UNIT_PERCENT = ''%''"
| "ped_unit_get_name PED_UNIT_KIBIBYTE = ''kiB''"
| "ped_unit_get_name PED_UNIT_MEBIBYTE = ''MiB''"
| "ped_unit_get_name PED_UNIT_GIBIBYTE = ''GiB''"
| "ped_unit_get_name PED_UNIT_TEBIBYTE = ''TiB''"

definition ped_unit_get_by_name :: "string \<Rightarrow> PedUnit option" where
  "ped_unit_get_by_name name = List.find (\<lambda>u. strcasecmp_eq (ped_unit_get_name u) name) all_units"

text \<open>The size of \<open>COMPACT\<close> is 0, with an exception.\<close>

fun ped_unit_get_size :: "PedDevice \<Rightarrow> PedUnit \<Rightarrow> int" where
  "ped_unit_get_size dev PED_UNIT_SECTOR = sector_size dev"
| "ped_unit_get_size dev PED_UNIT_BYTE = 1"
| "ped_unit_get_size dev PED_UNIT_KILOBYTE = 1000"
| "ped_unit_get_size dev PED_UNIT_MEGABYTE = 1000000"
| "ped_unit_get_size dev PED_UNIT_GIGABYTE = 1000000000"
| "ped_unit_get_size dev PED_UNIT_TERABYTE = 1000000000000"
| "ped_unit_get_size dev PED_UNIT_KIBIBYTE = 1024"
| "ped_unit_get_size dev PED_UNIT_MEBIBYTE = 1048576"
| "ped_unit_get_size dev PED_UNIT_GIBIBYTE = 1073741824"
| "ped_unit_get_size dev PED_UNIT_TEBIBYTE = 1099511627776"
| "ped_unit_get_size dev PED_UNIT_CYLINDER = heads (bios_geom dev) * sectors (bios_geom dev) * sector_size dev"
| "ped_unit_get_size dev PED_UNIT_CHS = sector_size dev"
| "ped_unit_get_size dev PED_UNIT_PERCENT = dev_length dev * sector_size dev sdiv 100"
| "ped_unit_get_size dev PED_UNIT_COMPACT = 0"

section \<open>Printing a location\<close>

definition compact_unit :: "int \<Rightarrow> PedUnit" where
  "compact_unit b =
     (if b \<ge> 10 * 1000000000000 then PED_UNIT_TERABYTE
      else if b \<ge> 10 * 1000000000 then PED_UNIT_GIGABYTE
      else if b \<ge> 10 * 1000000 then PED_UNIT_MEGABYTE
      else if b \<ge> 10 * 1000 then PED_UNIT_KILOBYTE
      else PED_UNIT_BYTE)"

definition ped_unit_format_custom_byte :: "rounding \<Rightarrow> PedDevice \<Rightarrow> PedSector \<Rightarrow> PedUnit \<Rightarrow> string" where
  "ped_unit_format_custom_byte rnd dev b unit =
     (let sector = b sdiv sector_size dev; chs = bios_geom dev
      in if unit = PED_UNIT_CHS
         then show_int (sector sdiv sectors chs sdiv heads chs) @ '','' @
              show_int ((sector sdiv sectors chs) smod heads chs) @ '','' @ show_int (sector smod sectors chs)
         else if unit = PED_UNIT_CYLINDER \<or> unit = PED_UNIT_SECTOR \<or> unit = PED_UNIT_BYTE
         then show_int (b sdiv ped_unit_get_size dev unit) @ ped_unit_get_name unit
         else let unit = (if unit = PED_UNIT_COMPACT then compact_unit b else unit);
                  d = rnd (rnd (rnd (of_int b) / rnd (of_int (ped_unit_get_size dev unit))) * (1 + 1 / 2 ^ 52));
                  w = rnd (d + rnd (if d < 10 then 5 / 1000 else if d < 100 then 5 / 100 else 5 / 10));
                  p = (if w < 10 then 2 else if w < 100 then 1 else 0)
              in show_fixed p d @ ped_unit_get_name unit)"

definition ped_unit_format_custom :: "rounding \<Rightarrow> PedDevice \<Rightarrow> PedSector \<Rightarrow> PedUnit \<Rightarrow> string" where
  "ped_unit_format_custom rnd dev sector unit = ped_unit_format_custom_byte rnd dev (sector * sector_size dev) unit"

text \<open>The two that use the default unit, the state of \<open>unit.c\<close>.\<close>

definition ped_unit_format_byte :: "rounding \<Rightarrow> PedUnit \<Rightarrow> PedDevice \<Rightarrow> PedSector \<Rightarrow> string" where
  "ped_unit_format_byte rnd default_unit dev b = ped_unit_format_custom_byte rnd dev b default_unit"

definition ped_unit_format :: "rounding \<Rightarrow> PedUnit \<Rightarrow> PedDevice \<Rightarrow> PedSector \<Rightarrow> string" where
  "ped_unit_format rnd default_unit dev sector =
     ped_unit_format_custom_byte rnd dev (sector * sector_size dev) default_unit"

section \<open>Reading a location\<close>

text \<open>
  \<open>strip_string\<close>: the inner loop moves the characters behind a space one to the left, but not
  the terminating zero, so that the last character is kept twice; a character moved to the place of
  the space is not looked at again.
\<close>

definition strip_at :: "nat \<Rightarrow> string \<Rightarrow> string" where
  "strip_at i s = (if isspace (s ! i) then take i s @ drop (i + 1) s @ [last s] else s)"

definition strip_string :: "string \<Rightarrow> string" where
  "strip_string s = fold strip_at [0..<length s] s"

definition in_number :: "char \<Rightarrow> bool" where
  "in_number c \<longleftrightarrow> isdigit c \<or> c \<in> set '',.-''"

definition find_suffix :: "string \<Rightarrow> string" where
  "find_suffix = dropWhile in_number"

definition remove_punct :: "string \<Rightarrow> string" where
  "remove_punct = map (\<lambda>c. if ispunct c then CHR '' '' else c)"

definition is_chs :: "string \<Rightarrow> bool" where
  "is_chs s \<longleftrightarrow> length (filter ispunct s) = 2"

text \<open>The results are the status, the sector and, when it is asked for, the range.\<close>

type_synonym location = "bool \<times> PedSector \<times> PedGeometry option"

definition scan_chs :: "string \<Rightarrow> (int \<times> int \<times> int) option" where
  "scan_chs s = (case scan_int s of None \<Rightarrow> None
     | Some (c, s) \<Rightarrow> (case scan_int s of None \<Rightarrow> None
     | Some (h, s) \<Rightarrow> (case scan_int s of None \<Rightarrow> None
     | Some (sec, s) \<Rightarrow> Some (c, h, sec))))"

definition parse_chs :: "string \<Rightarrow> dev_table \<Rightarrow> dev_ref \<Rightarrow> bool \<Rightarrow> location" where
  "parse_chs str devs dev want_range =
     (let g = bios_geom (devs dev); cyl_size = heads g * sectors g
      in case scan_chs (remove_punct (strip_string str)) of
           None \<Rightarrow> (False, 0, None)
         | Some (cyl, hed, sec) \<Rightarrow>
             if hed \<ge> heads g then (False, 0, None)
             else if sec \<ge> sectors g then (False, 0, None)
             else let sector = cyl * cyl_size + hed * sectors g + sec
             in if sector \<ge> dev_length (devs dev) then (False, 0, None)
                else let range = (if want_range then ptr_of (ped_geometry_new dev sector 1) else None)
                in (\<not> want_range \<or> range \<noteq> None, sector, range))"

definition clip :: "PedDevice \<Rightarrow> PedSector \<Rightarrow> PedSector" where
  "clip dev sector =
     (if sector < 0 then 0 else if sector > dev_length dev - 1 then dev_length dev - 1 else sector)"

definition geometry_from_centre_radius :: "dev_table \<Rightarrow> dev_ref \<Rightarrow> PedSector \<Rightarrow> PedSector \<Rightarrow> PedGeometry option" where
  "geometry_from_centre_radius devs dev sector radius =
     (let start = clip (devs dev) (sector - radius); endd = clip (devs dev) (sector + radius)
      in if sector - endd > radius \<or> start - sector > radius then None
         else ptr_of (ped_geometry_new dev start (endd - start + 1)))"

definition parse_unit_suffix :: "PedUnit \<Rightarrow> string \<Rightarrow> PedUnit \<Rightarrow> PedUnit" where
  "parse_unit_suffix default_unit suffix suggested_unit =
     (let fallback = (if suggested_unit = PED_UNIT_COMPACT
            then (if default_unit = PED_UNIT_COMPACT then PED_UNIT_MEGABYTE else default_unit)
            else suggested_unit);
          c = (if suffix = [] then '''' else [tolower (hd suffix)])
      in if length suffix > 1 \<and> tolower (suffix ! 1) = CHR ''i''
         then (if c = ''k'' then PED_UNIT_KIBIBYTE else if c = ''m'' then PED_UNIT_MEBIBYTE
               else if c = ''g'' then PED_UNIT_GIBIBYTE else if c = ''t'' then PED_UNIT_TEBIBYTE else fallback)
         else if c = ''s'' then PED_UNIT_SECTOR else if c = ''b'' then PED_UNIT_BYTE
         else if c = ''k'' then PED_UNIT_KILOBYTE else if c = ''m'' then PED_UNIT_MEGABYTE
         else if c = ''g'' then PED_UNIT_GIGABYTE else if c = ''t'' then PED_UNIT_TERABYTE
         else if c = ''c'' then PED_UNIT_CYLINDER else if c = ''%'' then PED_UNIT_PERCENT else fallback)"

definition unit_radius :: "PedDevice \<Rightarrow> PedUnit \<Rightarrow> PedSector" where
  "unit_radius dev unit =
     (if unit \<in> {PED_UNIT_KIBIBYTE, PED_UNIT_MEBIBYTE, PED_UNIT_GIBIBYTE, PED_UNIT_TEBIBYTE} then 0
      else max 0 (ped_div_round_up (ped_unit_get_size dev unit) (sector_size dev) sdiv 2 - 1))"

definition ped_unit_parse_custom ::
    "rounding \<Rightarrow> PedUnit \<Rightarrow> string \<Rightarrow> dev_table \<Rightarrow> dev_ref \<Rightarrow> PedUnit \<Rightarrow> bool \<Rightarrow> location" where
  "ped_unit_parse_custom rnd default_unit str devs dev unit want_range =
     (if is_chs str then parse_chs str devs dev want_range
      else let copy = strip_string str;
               unit = parse_unit_suffix default_unit (find_suffix copy) unit;
               copy = takeWhile in_number copy
      in case scan_decimal copy of
           None \<Rightarrow> (False, 0, None)
         | Some v \<Rightarrow>
             let num = rnd v
             in if num > 0 \<and> num < 1 then (False, 0, None)
                else let unit_size = ped_unit_get_size (devs dev) unit;
                         sector = trunc_rat (rnd (rnd (num * rnd (of_int unit_size)) / rnd (of_int (sector_size (devs dev)))));
                         sector = (if copy \<noteq> [] \<and> hd copy = CHR ''-'' then sector + dev_length (devs dev) else sector);
                         range = geometry_from_centre_radius devs dev sector (unit_radius (devs dev) unit)
                in if want_range \<and> range = None then (False, 0, None)
                   else (True, clip (devs dev) sector, if want_range then range else None))"

definition ped_unit_parse :: "rounding \<Rightarrow> PedUnit \<Rightarrow> string \<Rightarrow> dev_table \<Rightarrow> dev_ref \<Rightarrow> bool \<Rightarrow> location" where
  "ped_unit_parse rnd default_unit str devs dev want_range =
     ped_unit_parse_custom rnd default_unit str devs dev default_unit want_range"

section \<open>Digits\<close>

lemma ascii_digit: "d < 10 \<Longrightarrow> ascii (digit_char d) = 48 + d"
  by (simp add: ascii_def digit_char_def)

lemma isdigit_digit: "d < 10 \<Longrightarrow> isdigit (digit_char d)" "d < 10 \<Longrightarrow> digit_value (digit_char d) = d"
  by (simp_all add: isdigit_def digit_value_def ascii_digit)

lemma decimal_Nil [simp]: "decimal [] = 0"
  by (simp add: decimal_def)

lemma decimal_append: "decimal (s @ [c]) = 10 * decimal s + digit_value c"
  by (simp add: decimal_def)

lemma show_nat_digits: "list_all isdigit (show_nat n)" "decimal (show_nat n) = n" "show_nat n \<noteq> []"
proof (induction n rule: show_nat.induct)
  case (1 n)
  {
    case 1
    then show ?case using "1.IH"(1) by (subst show_nat.simps) (simp add: isdigit_digit)
  next
    case 2
    then show ?case using "1.IH"(2)
      by (subst show_nat.simps) (simp add: isdigit_digit decimal_append, simp add: decimal_def isdigit_digit)
  next
    case 3
    then show ?case by (subst show_nat.simps) simp
  }
qed

lemma digit_classes: "isdigit c \<Longrightarrow> \<not> isspace c \<and> \<not> ispunct c \<and> in_number c"
  by (auto simp: isdigit_def isspace_def ispunct_def in_number_def)

section \<open>Scanning what was printed\<close>

lemma strip_noop:
  assumes "list_all (\<lambda>c. \<not> isspace c) s"
  shows "strip_string s = s"
proof -
  have "\<forall>i \<in> set is. i < length s \<Longrightarrow> fold strip_at is s = s" for "is"
    using assms by (induction "is") (auto simp: strip_at_def list_all_length)
  then show ?thesis by (simp add: strip_string_def)
qed

lemma span_append [simp]:
  assumes "list_all P ds" "rest = [] \<or> \<not> P (hd rest)"
  shows "takeWhile P (ds @ rest) = ds" "dropWhile P (ds @ rest) = rest"
  using assms by (induction ds) (cases rest; auto)+

lemma scan_int_show:
  assumes "rest = [] \<or> \<not> isdigit (hd rest)" "0 \<le> i" "i < 2 ^ 31"
  shows "scan_int (show_int i @ rest) = Some (i, rest)" "scan_int (CHR '' '' # show_int i @ rest) = Some (i, rest)"
proof -
  let ?ds = "show_nat (nat i)"
  have ds: "list_all isdigit ?ds" "decimal ?ds = nat i" "?ds \<noteq> []" by (simp_all add: show_nat_digits)
  then have "dropWhile isspace (?ds @ rest) = ?ds @ rest"
    using digit_classes by (cases ?ds) auto
  then show "scan_int (show_int i @ rest) = Some (i, rest)" "scan_int (CHR '' '' # show_int i @ rest) = Some (i, rest)"
    using assms ds by (simp_all add: scan_int_def show_int_def Let_def c_int_id isspace_def ascii_def)
qed

lemma show_int_classes:
  assumes "0 \<le> i"
  shows "list_all isdigit (show_int i)" "list_all (\<lambda>c. \<not> isspace c) (show_int i)" "filter ispunct (show_int i) = []"
    "remove_punct (show_int i) = show_int i" "list_all in_number (show_int i)"
proof -
  show d: "list_all isdigit (show_int i)" using assms by (simp add: show_int_def show_nat_digits)
  then show "list_all (\<lambda>c. \<not> isspace c) (show_int i)" "filter ispunct (show_int i) = []" "list_all in_number (show_int i)"
    using digit_classes by (auto simp: list_all_iff filter_empty_conv)
  show "remove_punct (show_int i) = show_int i"
    unfolding remove_punct_def using d digit_classes by (intro map_idI) (auto simp: list_all_iff)
qed

lemma comma: "ispunct (CHR '','')" "\<not> isspace (CHR '','')" "\<not> isdigit (CHR '' '')"
  by (simp_all add: ispunct_def isspace_def isdigit_def ascii_def)

text \<open>
  C39. A location printed as cylinder, head and sector is read back as the same sector, in a range
  of one sector.
\<close>
theorem chs_roundtrip:
  assumes "0 \<le> sector" "sector < dev_length (devs dev)" "0 < sector_size (devs dev)"
    and "0 < heads (bios_geom (devs dev))" "heads (bios_geom (devs dev)) < 2 ^ 31"
    and "0 < sectors (bios_geom (devs dev))" "sectors (bios_geom (devs dev)) < 2 ^ 31"
    and "sector div sectors (bios_geom (devs dev)) div heads (bios_geom (devs dev)) < 2 ^ 31"
  shows "ped_unit_parse_custom rnd default_unit
      (ped_unit_format_custom rnd (devs dev) sector PED_UNIT_CHS) devs dev unit True =
    (True, sector, Some \<lparr>g_dev = dev, g_start = sector, g_length = 1, g_end = sector\<rparr>)"
proof -
  let ?g = "bios_geom (devs dev)"
  let ?h = "heads ?g" and ?s = "sectors ?g"
  define c where "c = sector div ?s div ?h"
  define h where "h = sector div ?s mod ?h"
  define r where "r = sector mod ?s"
  have nn: "0 \<le> c" "0 \<le> h" "h < ?h" "0 \<le> r" "r < ?s" "h < 2 ^ 31" "r < 2 ^ 31" "c < 2 ^ 31"
  proof -
    show "0 \<le> c" "0 \<le> h" "0 \<le> r" "h < ?h" "r < ?s" "c < 2 ^ 31"
      using assms by (simp_all add: c_def h_def r_def pos_imp_zdiv_nonneg_iff)
    then show "h < 2 ^ 31" "r < 2 ^ 31" using assms by simp_all
  qed
  have "sector div ?s = c * ?h + h" by (simp add: c_def h_def)
  then have "sector = (c * ?h + h) * ?s + r" using div_mult_mod_eq[of sector ?s] by (simp add: r_def)
  then have sum: "c * (?h * ?s) + h * ?s + r = sector" by (simp add: algebra_simps)
  let ?t = "show_int c @ '','' @ show_int h @ '','' @ show_int r"
  have fmt: "ped_unit_format_custom rnd (devs dev) sector PED_UNIT_CHS = ?t"
    using assms by (simp add: ped_unit_format_custom_def ped_unit_format_custom_byte_def Let_def c_def h_def r_def
        sdiv_nonneg_eq smod_nonneg_eq pos_imp_zdiv_nonneg_iff)
  have chs: "is_chs ?t" using show_int_classes(3) nn comma by (simp add: is_chs_def)
  have st: "strip_string ?t = ?t" using show_int_classes(2) nn comma by (intro strip_noop) simp
  have rp: "remove_punct ?t = show_int c @ CHR '' '' # show_int h @ CHR '' '' # show_int r"
    using show_int_classes(4) nn comma by (simp add: remove_punct_def)
  have "scan_chs (remove_punct ?t) = Some (c, h, r)"
    unfolding rp scan_chs_def using nn comma
    by (simp add: scan_int_show) (use scan_int_show(2)[of "[]" r] in simp)
  then show ?thesis
    unfolding fmt ped_unit_parse_custom_def if_P[OF chs] parse_chs_def st
    using nn sum assms(2) by (simp add: ped_geometry_new_def ped_geometry_init_def ped_geometry_set_def uninit_geometry_def)
qed

theorem chs_roundtrip_witness:
  "ped_unit_parse_custom id PED_UNIT_COMPACT (ped_unit_format_custom id demo_dev 9999 PED_UNIT_CHS) (\<lambda>_. demo_dev) 0
     PED_UNIT_COMPACT True = (True, 9999, Some \<lparr>g_dev = 0, g_start = 9999, g_length = 1, g_end = 9999\<rparr>)"
  using chs_roundtrip[of 9999 "\<lambda>_. demo_dev" 0] by (simp add: demo_dev_def)

lemma sector_geometry:
  assumes "0 \<le> sector" "sector < dev_length (devs dev)"
  shows "geometry_from_centre_radius devs dev sector 0 = Some \<lparr>g_dev = dev, g_start = sector, g_length = 1, g_end = sector\<rparr>"
  using assms by (simp add: geometry_from_centre_radius_def clip_def ped_geometry_new_def ped_geometry_init_def
      ped_geometry_set_def uninit_geometry_def)

lemma scan_decimal_show:
  assumes "0 \<le> i"
  shows "scan_decimal (show_int i) = Some (of_int i)"
proof -
  let ?ds = "show_nat (nat i)"
  have ds: "list_all isdigit ?ds" "decimal ?ds = nat i" "?ds \<noteq> []" by (simp_all add: show_nat_digits)
  then have m: "\<not> (?ds \<noteq> [] \<and> hd ?ds = CHR ''-'')" by (cases ?ds) (auto simp: isdigit_def ascii_def)
  have t: "takeWhile isdigit ?ds = ?ds" "dropWhile isdigit ?ds = []"
    using span_append[OF ds(1) disjI1[OF refl]] by (simp_all only: append_Nil2)
  have i: "show_int i = ?ds" using assms by (simp add: show_int_def)
  show ?thesis unfolding scan_decimal_def i Let_def if_not_P[OF m] t using assms ds by simp
qed

lemma lower: "tolower (CHR ''s'') = CHR ''s''" "tolower (CHR ''B'') = CHR ''b''"
  by code_simp+

text \<open>
  A location printed in sectors or in bytes is read back as the same sector, in a range of one
  sector, whatever the default unit, as long as its number of bytes is one that a \<open>double\<close> holds.
\<close>
theorem sector_roundtrip:
  assumes rnd: "exact_double rnd" and u: "u = PED_UNIT_SECTOR \<or> u = PED_UNIT_BYTE"
    and s: "0 \<le> sector" "sector < dev_length (devs dev)" "0 < sector_size (devs dev)"
      "sector * sector_size (devs dev) \<le> 2 ^ 53" "sector_size (devs dev) \<le> 2 ^ 53"
  shows "ped_unit_parse_custom rnd default_unit
      (ped_unit_format_custom rnd (devs dev) sector u) devs dev unit True =
    (True, sector, Some \<lparr>g_dev = dev, g_start = sector, g_length = 1, g_end = sector\<rparr>)"
proof -
  let ?ss = "sector_size (devs dev)"
  define k where "k = (if u = PED_UNIT_SECTOR then sector else sector * ?ss)"
  define size where "size = ped_unit_get_size (devs dev) u"
  have prod: "k * size = sector * ?ss" using u by (auto simp: k_def size_def)
  have "sector * 1 \<le> sector * ?ss" using s by (intro mult_left_mono) simp_all
  then have k: "0 \<le> k" "k \<le> 2 ^ 53" using s by (auto simp: k_def)
  have size: "0 \<le> size" "size \<le> 2 ^ 53" using u s by (auto simp: size_def)
  let ?t = "show_int k @ ped_unit_get_name u"
  have fmt: "ped_unit_format_custom rnd (devs dev) sector u = ?t"
    using u s by (auto simp: ped_unit_format_custom_def ped_unit_format_custom_byte_def Let_def k_def sdiv_nonneg_eq)
  have name: "list_all (\<lambda>c. \<not> isspace c \<and> \<not> ispunct c \<and> \<not> in_number c) (ped_unit_get_name u)"
    using u by (auto simp: isspace_def ispunct_def in_number_def isdigit_def ascii_def)
  note cl = show_int_classes[OF k(1)]
  have "filter ispunct ?t = []" using cl(3) name by (auto simp: filter_empty_conv list_all_iff)
  then have chs: "\<not> is_chs ?t" by (simp add: is_chs_def)
  have st: "strip_string ?t = ?t" using cl(2) name by (intro strip_noop) (auto simp: list_all_iff)
  have nm: "ped_unit_get_name u = [] \<or> \<not> in_number (hd (ped_unit_get_name u))"
    using name by (cases "ped_unit_get_name u") simp_all
  have fs: "find_suffix ?t = ped_unit_get_name u" "takeWhile in_number ?t = show_int k"
    using span_append[OF cl(5) nm] unfolding find_suffix_def by blast+
  have pu: "parse_unit_suffix default_unit (ped_unit_get_name u) unit = u"
    using u by (elim disjE) (simp_all add: parse_unit_suffix_def lower)
  have ex: "rnd (of_int i) = of_int i" if "0 \<le> i" "i \<le> 2 ^ 53" for i
    using rnd that by (simp add: exact_double_def)
  have "rnd (rnd (rnd (of_int k) * rnd (of_int size)) / rnd (of_int ?ss)) = of_int sector"
  proof -
    have "rnd (of_int k) * rnd (of_int size) = of_int (sector * ?ss)" using ex k size by (simp flip: prod)
    moreover have "rnd (of_int (sector * ?ss)) = of_int (sector * ?ss)" using ex[of "sector * ?ss"] s by simp
    moreover have "(of_int (sector * ?ss) / of_int ?ss :: rat) = of_int sector" using s(3) by simp
    ultimately show ?thesis using ex[of ?ss] ex[of sector] s k(2) \<open>sector * 1 \<le> sector * ?ss\<close> by simp
  qed
  then have sec: "trunc_rat (rnd (rnd (rnd (of_int k) * rnd (of_int size)) / rnd (of_int ?ss))) = sector"
    using s(1) by (simp add: trunc_rat_def)
  have small: "\<not> (0 < rnd (of_int k) \<and> rnd (of_int k) < 1)" using ex[OF k] by simp
  have minus: "\<not> (show_int k \<noteq> [] \<and> hd (show_int k) = CHR ''-'')"
    using cl(1) by (cases "show_int k") (auto simp: isdigit_def ascii_def)
  have "(?ss + (?ss - 1)) div ?ss = 1" using s(3) by (subst div_add_self1) simp_all
  then have "(2 * ?ss - 1) div ?ss = 1" by (simp add: algebra_simps)
  then have "ped_div_round_up size ?ss = 1"
    using u s by (auto simp: size_def ped_div_round_up_def sdiv_nonneg_eq)
  then have rad: "unit_radius (devs dev) u = 0" using u by (auto simp: unit_radius_def size_def sdiv_nonneg_eq)
  have clip: "clip (devs dev) sector = sector" using s by (simp add: clip_def)
  show ?thesis
    unfolding fmt ped_unit_parse_custom_def if_not_P[OF chs] st fs Let_def pu scan_decimal_show[OF k(1)] option.case
      if_not_P[OF small] if_not_P[OF minus] size_def[symmetric] sec rad
    by (simp add: sector_geometry[where devs = devs and dev = dev, OF s(1,2)] clip)
qed

theorem sector_roundtrip_witness:
  "ped_unit_parse_custom id PED_UNIT_COMPACT (ped_unit_format_custom id demo_dev 9999 PED_UNIT_BYTE) (\<lambda>_. demo_dev) 0
     PED_UNIT_COMPACT True = (True, 9999, Some \<lparr>g_dev = 0, g_start = 9999, g_length = 1, g_end = 9999\<rparr>)"
  using sector_roundtrip[of id PED_UNIT_BYTE 9999 "\<lambda>_. demo_dev"] by (simp add: demo_dev_def exact_double_def)



section \<open>Names and spaces\<close>

text \<open>
  Every unit is found by its name, and only by it: no two names differ in case alone.
\<close>
theorem unit_name_roundtrip: "ped_unit_get_by_name (ped_unit_get_name u) = Some u"
proof -
  have "list_all (\<lambda>u. ped_unit_get_by_name (ped_unit_get_name u) = Some u) all_units" by code_simp
  moreover have "u \<in> set all_units" by (cases u) (simp_all add: all_units_def)
  ultimately show ?thesis by (simp add: list_all_iff)
qed

text \<open>
  Spaces inside a location change its meaning: \<open>strip_string\<close> repeats the last character
  for every space it removes, so that a location typed with spaces behind the commas is refused
  although the same location without spaces is accepted, and another is read as another sector.
\<close>
theorem spaces_repeat_last_character:
  "strip_string ''1, 2, 3'' = ''1,2,333'' \<and>
   parse_chs ''0,1,3'' (\<lambda>_. demo_dev) 0 False = (True, 66, None) \<and>
   parse_chs ''0, 1, 3'' (\<lambda>_. demo_dev) 0 False = (False, 0, None) \<and>
   ped_unit_parse_custom id PED_UNIT_SECTOR ''1 5'' (\<lambda>_. demo_dev) 0 PED_UNIT_SECTOR False = (True, 155, None)"
  by (intro conjI; code_simp)

end
