(* ===== verification/Disk_Attrs.thy ===== *)
theory Disk_Attrs
  imports Filesys Ped_Unit Disk_Label
begin

text \<open>
  The rest of \<open>libparted/disk.c\<close>: the functions that pass a question or a change on to the label
  type (flags, names, identifiers, limits), the names of types and flags, and the two checks of a
  whole table, \<open>ped_disk_check\<close> and \<open>_disk_check_sanity\<close>.
\<close>

section \<open>Names of types and flags\<close>

definition ped_partition_type_get_name :: "nat \<Rightarrow> string" where
  "ped_partition_type_get_name type =
     (if has_bit type PED_PARTITION_METADATA then ''metadata''
      else if has_bit type PED_PARTITION_FREESPACE then ''free''
      else if has_bit type PED_PARTITION_EXTENDED then ''extended''
      else if has_bit type PED_PARTITION_LOGICAL then ''logical''
      else ''primary'')"

definition bug_cancel :: "string \<Rightarrow> ped_arg list \<Rightarrow> PedException" where
  "bug_cancel fmt args = \<lparr>ex_type = PED_EXCEPTION_BUG, ex_options = PED_EXCEPTION_CANCEL,
     ex_format = fmt, ex_args = args\<rparr>"

text \<open>The flags are the enumeration \<open>_PedPartitionFlag\<close>, from 1 to \<open>PED_PARTITION_LAST_FLAG\<close>.\<close>

abbreviation PED_PARTITION_LAST_FLAG :: int where "PED_PARTITION_LAST_FLAG \<equiv> 22"
abbreviation PED_DISK_LAST_FLAG :: int where "PED_DISK_LAST_FLAG \<equiv> 2"

definition ped_partition_flag_get_name :: "int \<Rightarrow> string result" where
  "ped_partition_flag_get_name flag =
     (case map_of
        [(1, ''boot''), (12, ''bios_grub''), (2, ''root''), (3, ''swap''), (4, ''hidden''), (5, ''raid''),
         (6, ''lvm''), (7, ''lba''), (8, ''hp-service''), (9, ''palo''), (10, ''prep''), (11, ''msftres''),
         (16, ''msftdata''), (13, ''atvrecv''), (14, ''diag''), (15, ''legacy_boot''), (17, ''irst''),
         (18, ''esp''), (19, ''chromeos_kernel''), (20, ''bls_boot''), (21, ''linux-home''),
         (22, ''no_automount'')] flag of
        Some name \<Rightarrow> Inr name
      | None \<Rightarrow> Inl (Some (bug_cancel ''Unknown partition flag, %d.'' [AInt flag])))"

definition ped_disk_flag_get_name :: "int \<Rightarrow> string result" where
  "ped_disk_flag_get_name flag =
     (if flag = 1 then Inr ''cylinder_alignment''
      else if flag = 2 then Inr ''pmbr_boot''
      else Inl (Some (bug_cancel ''Unknown disk flag, %d.'' [AInt flag])))"

text \<open>The enumerations are unsigned: adding 1 and taking the remainder stays in their range.\<close>

definition ped_partition_flag_next :: "int \<Rightarrow> int" where
  "ped_partition_flag_next flag = (flag + 1) mod (PED_PARTITION_LAST_FLAG + 1)"

definition ped_disk_flag_next :: "int \<Rightarrow> int" where
  "ped_disk_flag_next flag = (flag + 1) mod (PED_DISK_LAST_FLAG + 1)"

text \<open>How many steps a loop over \<open>n - 1\<close> flags can still make.\<close>

definition flags_left :: "int \<Rightarrow> int \<Rightarrow> nat" where
  "flags_left n flag = (if flag = 0 then 0 else if 0 \<le> flag \<and> flag < n then nat (n - flag) else nat (n + 1))"

lemma flags_left_next [simp]:
  assumes "flag \<noteq> 0"
  shows "flags_left (PED_PARTITION_LAST_FLAG + 1) (ped_partition_flag_next flag) < flags_left (PED_PARTITION_LAST_FLAG + 1) flag"
    and "flags_left (PED_DISK_LAST_FLAG + 1) (ped_disk_flag_next flag) < flags_left (PED_DISK_LAST_FLAG + 1) flag"
proof -
  have "flags_left n ((flag + 1) mod n) < flags_left n flag" if "0 < n" for n
  proof (cases "0 \<le> flag \<and> flag < n")
    case True
    then have "(flag + 1) mod n = (if flag + 1 = n then 0 else flag + 1)" by (auto simp: mod_pos_pos_trivial)
    then show ?thesis using True assms by (auto simp: flags_left_def)
  next
    case False
    have "0 \<le> (flag + 1) mod n" "(flag + 1) mod n < n" using that by simp_all
    then show ?thesis using False assms by (auto simp: flags_left_def)
  qed
  from this[of "PED_PARTITION_LAST_FLAG + 1"] this[of "PED_DISK_LAST_FLAG + 1"]
  show "flags_left (PED_PARTITION_LAST_FLAG + 1) (ped_partition_flag_next flag) < flags_left (PED_PARTITION_LAST_FLAG + 1) flag"
    and "flags_left (PED_DISK_LAST_FLAG + 1) (ped_disk_flag_next flag) < flags_left (PED_DISK_LAST_FLAG + 1) flag"
    by (simp_all add: ped_partition_flag_next_def ped_disk_flag_next_def)
qed

text \<open>
  The loops of \<open>ped_partition_flag_get_by_name\<close> and \<open>ped_disk_flag_get_by_name\<close>, from the flag they
  have reached; the translation of a name in the native language is \<open>tr\<close>.
\<close>

function partition_flag_search :: "(string \<Rightarrow> string) \<Rightarrow> string \<Rightarrow> int \<Rightarrow> int" where
  "partition_flag_search tr name flag =
     (if flag = 0 then 0
      else case ped_partition_flag_get_name flag of
        Inr flag_name \<Rightarrow>
          if strcasecmp_eq name flag_name \<or> strcasecmp_eq name (tr flag_name) then flag
          else partition_flag_search tr name (ped_partition_flag_next flag)
      | Inl _ \<Rightarrow> partition_flag_search tr name (ped_partition_flag_next flag))"
  by pat_completeness auto

termination partition_flag_search
  by (relation "measure (\<lambda>(_, _, flag). flags_left (PED_PARTITION_LAST_FLAG + 1) flag)") (use flags_left_next(1) in auto)

declare partition_flag_search.simps [simp del]

function disk_flag_search :: "(string \<Rightarrow> string) \<Rightarrow> string \<Rightarrow> int \<Rightarrow> int" where
  "disk_flag_search tr name flag =
     (if flag = 0 then 0
      else case ped_disk_flag_get_name flag of
        Inr flag_name \<Rightarrow>
          if strcasecmp_eq name flag_name \<or> strcasecmp_eq name (tr flag_name) then flag
          else disk_flag_search tr name (ped_disk_flag_next flag)
      | Inl _ \<Rightarrow> disk_flag_search tr name (ped_disk_flag_next flag))"
  by pat_completeness auto

termination disk_flag_search
  by (relation "measure (\<lambda>(_, _, flag). flags_left (PED_DISK_LAST_FLAG + 1) flag)") (use flags_left_next(2) in auto)

declare disk_flag_search.simps [simp del]

definition ped_disk_flag_get_by_name :: "(string \<Rightarrow> string) \<Rightarrow> string \<Rightarrow> int" where
  "ped_disk_flag_get_by_name tr name = disk_flag_search tr name (ped_disk_flag_next 0)"

definition ped_partition_flag_get_by_name :: "(string \<Rightarrow> string) \<Rightarrow> string \<Rightarrow> int" where
  "ped_partition_flag_get_by_name tr name = partition_flag_search tr name (ped_partition_flag_next 0)"

section \<open>Questions to the label type\<close>

text \<open>
  The entries of \<open>PedDiskOps\<close> that only these functions use; \<open>None\<close> is a null pointer. The functions
  that change the name or the identifiers of a partition only change its node.
\<close>

record ('x, 'y) PedAttrOps =
  op_disk_set_flag :: "(int \<Rightarrow> bool \<Rightarrow> ('x, 'y) PedDisk \<Rightarrow> bool \<times> ('x, 'y) PedDisk) option"
  op_disk_get_flag :: "(('x, 'y) PedDisk \<Rightarrow> int \<Rightarrow> bool) option"
  op_disk_is_flag_available :: "(('x, 'y) PedDisk \<Rightarrow> int \<Rightarrow> bool) option"
  op_disk_get_uuid :: "(('x, 'y) PedDisk \<Rightarrow> byte list) option"
  op_partition_set_name :: "('x PedPartition \<Rightarrow> string \<Rightarrow> 'x PedPartition) option"
  op_partition_get_name :: "('x PedPartition \<Rightarrow> string \<times> 'x PedPartition) option"
  op_partition_set_type_id :: "('x PedPartition \<Rightarrow> byte \<Rightarrow> 'x PedPartition result) option"
  op_partition_get_type_id :: "('x PedPartition \<Rightarrow> byte) option"
  op_partition_set_type_uuid :: "('x PedPartition \<Rightarrow> byte list \<Rightarrow> 'x PedPartition) option"
  op_partition_get_type_uuid :: "('x PedPartition \<Rightarrow> byte list) option"
  op_partition_get_uuid :: "('x PedPartition \<Rightarrow> byte list) option"
  op_get_partition_alignment :: "(dev_table \<Rightarrow> ('x, 'y) PedDisk \<Rightarrow> PedAlignment option) option"
  op_max_length :: PedSector
  op_max_start_sector :: PedSector

definition ped_disk_get_partition_alignment ::
    "('x, 'y) PedAttrOps \<Rightarrow> dev_table \<Rightarrow> ('x, 'y) PedDisk \<Rightarrow> PedAlignment option" where
  "ped_disk_get_partition_alignment A devs d =
     (case op_get_partition_alignment A of
        None \<Rightarrow> ped_alignment_duplicate ped_alignment_any
      | Some f \<Rightarrow> f devs d)"

definition ped_disk_get_max_primary_partition_count ::
    "('x, 'y, 'z) PedPartOps_scheme \<Rightarrow> ('x, 'y) PedDisk \<Rightarrow> int" where
  "ped_disk_get_max_primary_partition_count T d = op_get_max_primary_partition_count T d"

definition ped_disk_max_partition_length :: "('x, 'y) PedAttrOps \<Rightarrow> PedSector" where
  "ped_disk_max_partition_length A = op_max_length A"

definition ped_disk_max_partition_start_sector :: "('x, 'y) PedAttrOps \<Rightarrow> PedSector" where
  "ped_disk_max_partition_start_sector A = op_max_start_sector A"

text \<open>
  The argument of a message that names a flag; an unknown flag throws an exception of its own
  first, and its name is the null pointer.
\<close>

definition name_arg :: "string result \<Rightarrow> ped_arg" where
  "name_arg r = AStr (case r of Inr name \<Rightarrow> name | Inl _ \<Rightarrow> ''(null)'')"

definition flag_unavailable :: "ped_arg \<Rightarrow> string \<Rightarrow> PedException" where
  "flag_unavailable flag_name type_name =
     error_cancel ''The flag '%s' is not available for %s disk labels.'' [flag_name, AStr type_name]"

definition status :: "bool \<Rightarrow> unit result" where
  "status ok = (if ok then Inr () else Inl None)"

section \<open>Flags of the table\<close>

definition ped_disk_is_flag_available :: "('x, 'y) PedAttrOps \<Rightarrow> ('x, 'y) PedDisk \<Rightarrow> int \<Rightarrow> bool" where
  "ped_disk_is_flag_available A d flag =
     (case op_disk_is_flag_available A of None \<Rightarrow> False | Some f \<Rightarrow> f d flag)"

text \<open>\<open>_disk_pop_update_mode\<close> does not fail.\<close>

definition ped_disk_set_flag ::
    "('x, 'y) PedDiskOps \<Rightarrow> ('x, 'y) PedAttrOps \<Rightarrow> dev_table \<Rightarrow> PedExceptionHandler \<Rightarrow> int \<Rightarrow> bool \<Rightarrow>
     ('x, 'y) PedDisk \<Rightarrow> unit result \<times> ('x, 'y) PedDisk" where
  "ped_disk_set_flag T A devs ask flag state d =
     (let d1 = disk_push_update_mode T d
      in if \<not> ped_disk_is_flag_available A d1 flag
         then (Inl (Some (flag_unavailable (name_arg (ped_disk_flag_get_name flag)) (t_name T))),
               disk_pop_update_mode T devs ask d1)
         else case the (op_disk_set_flag A) flag state d1 of
           (ret, d2) \<Rightarrow> (status ret, disk_pop_update_mode T devs ask d2))"

definition ped_disk_get_flag :: "('x, 'y) PedAttrOps \<Rightarrow> ('x, 'y) PedDisk \<Rightarrow> int \<Rightarrow> bool" where
  "ped_disk_get_flag A d flag = (ped_disk_is_flag_available A d flag \<and> the (op_disk_get_flag A) d flag)"

definition feature_missing :: "string \<Rightarrow> string \<Rightarrow> PedException" where
  "feature_missing fmt type_name = error_cancel fmt [AStr type_name]"

definition assert_feature :: "('x, 'y, 'z) PedPartOps_scheme \<Rightarrow> nat \<Rightarrow> string \<Rightarrow> unit result" where
  "assert_feature T feature fmt =
     (if ped_disk_type_check_feature T feature then Inr () else Inl (Some (feature_missing fmt (t_name T))))"

abbreviation assert_disk_uuid_feature :: "('x, 'y, 'z) PedPartOps_scheme \<Rightarrow> unit result" where
  "assert_disk_uuid_feature T \<equiv>
     assert_feature T PED_DISK_TYPE_DISK_UUID ''%s disk labels do not support disk uuids.''"

definition ped_disk_get_uuid ::
    "('x, 'y) PedDiskOps \<Rightarrow> ('x, 'y) PedAttrOps \<Rightarrow> ('x, 'y) PedDisk \<Rightarrow> byte list result" where
  "ped_disk_get_uuid T A d =
     and_then (assert_disk_uuid_feature T) (Inr (the (op_disk_get_uuid A) d))"

section \<open>Flags, names and identifiers of a partition\<close>

definition ped_partition_set_flag ::
    "('x, 'y) PedDiskOps \<Rightarrow> addr \<Rightarrow> int \<Rightarrow> bool \<Rightarrow> ('x, 'y) PedDisk \<Rightarrow> unit result \<times> ('x, 'y) PedDisk" where
  "ped_partition_set_flag T part flag state d =
     (if \<not> op_partition_is_flag_available T (node d part) flag
      then (Inl (Some (flag_unavailable (name_arg (ped_partition_flag_get_name flag)) (t_name T))), d)
      else case op_partition_set_flag T d part flag state of (ok, d1) \<Rightarrow> (status ok, d1))"

definition ped_partition_get_flag :: "('x, 'y) PedDiskOps \<Rightarrow> ('x, 'y) PedDisk \<Rightarrow> addr \<Rightarrow> int \<Rightarrow> bool" where
  "ped_partition_get_flag T d part flag = op_partition_get_flag T (node d part) flag"

definition ped_partition_is_flag_available ::
    "('x, 'y) PedDiskOps \<Rightarrow> ('x, 'y) PedDisk \<Rightarrow> addr \<Rightarrow> int \<Rightarrow> bool" where
  "ped_partition_is_flag_available T d part flag = op_partition_is_flag_available T (node d part) flag"

definition replace_node ::
    "addr \<Rightarrow> 'x PedPartition result \<Rightarrow> ('x, 'y) PedDisk \<Rightarrow> unit result \<times> ('x, 'y) PedDisk" where
  "replace_node part r d =
     (case r of Inl e \<Rightarrow> (Inl e, d) | Inr p \<Rightarrow> (Inr (), upd_node part (\<lambda>_. p) d))"

definition ped_partition_set_system ::
    "('x, 'y) PedDiskOps \<Rightarrow> addr \<Rightarrow> string option \<Rightarrow> ('x, 'y) PedDisk \<Rightarrow> unit result \<times> ('x, 'y) PedDisk" where
  "ped_partition_set_system T part fs_type d = replace_node part (op_partition_set_system T (node d part) fs_type) d"

abbreviation assert_partition_name_feature :: "('x, 'y, 'z) PedPartOps_scheme \<Rightarrow> unit result" where
  "assert_partition_name_feature T \<equiv>
     assert_feature T PED_DISK_TYPE_PARTITION_NAME ''%s disk labels do not support partition names.''"

abbreviation assert_partition_type_id_feature :: "('x, 'y, 'z) PedPartOps_scheme \<Rightarrow> unit result" where
  "assert_partition_type_id_feature T \<equiv>
     assert_feature T PED_DISK_TYPE_PARTITION_TYPE_ID ''%s disk labels do not support partition type-ids.''"

abbreviation assert_partition_type_uuid_feature :: "('x, 'y, 'z) PedPartOps_scheme \<Rightarrow> unit result" where
  "assert_partition_type_uuid_feature T \<equiv>
     assert_feature T PED_DISK_TYPE_PARTITION_TYPE_UUID ''%s disk labels do not support partition type-uuids.''"

abbreviation assert_partition_uuid_feature :: "('x, 'y, 'z) PedPartOps_scheme \<Rightarrow> unit result" where
  "assert_partition_uuid_feature T \<equiv>
     assert_feature T PED_DISK_TYPE_PARTITION_UUID ''%s disk labels do not support partition uuids.''"

definition ped_partition_set_name ::
    "('x, 'y) PedDiskOps \<Rightarrow> ('x, 'y) PedAttrOps \<Rightarrow> addr \<Rightarrow> string \<Rightarrow> ('x, 'y) PedDisk \<Rightarrow>
     unit result \<times> ('x, 'y) PedDisk" where
  "ped_partition_set_name T A part name d =
     replace_node part
       (and_then (assert_partition_name_feature T) (Inr (the (op_partition_set_name A) (node d part) name))) d"

text \<open>The label may cache the name it has translated: the result has the table, too.\<close>

definition ped_partition_get_name ::
    "('x, 'y) PedDiskOps \<Rightarrow> ('x, 'y) PedAttrOps \<Rightarrow> addr \<Rightarrow> ('x, 'y) PedDisk \<Rightarrow>
     string result \<times> ('x, 'y) PedDisk" where
  "ped_partition_get_name T A part d =
     (case assert_partition_name_feature T of
        Inl e \<Rightarrow> (Inl e, d)
      | Inr _ \<Rightarrow>
          (case the (op_partition_get_name A) (node d part) of (name, p) \<Rightarrow> (Inr name, upd_node part (\<lambda>_. p) d)))"

definition ped_partition_set_type_id ::
    "('x, 'y) PedDiskOps \<Rightarrow> ('x, 'y) PedAttrOps \<Rightarrow> addr \<Rightarrow> byte \<Rightarrow> ('x, 'y) PedDisk \<Rightarrow>
     unit result \<times> ('x, 'y) PedDisk" where
  "ped_partition_set_type_id T A part type_id d =
     replace_node part
       (and_then (assert_partition_type_id_feature T) (the (op_partition_set_type_id A) (node d part) type_id)) d"

definition ped_partition_get_type_id ::
    "('x, 'y) PedDiskOps \<Rightarrow> ('x, 'y) PedAttrOps \<Rightarrow> ('x, 'y) PedDisk \<Rightarrow> addr \<Rightarrow> byte result" where
  "ped_partition_get_type_id T A d part =
     and_then (assert_partition_type_id_feature T) (Inr (the (op_partition_get_type_id A) (node d part)))"

definition ped_partition_set_type_uuid ::
    "('x, 'y) PedDiskOps \<Rightarrow> ('x, 'y) PedAttrOps \<Rightarrow> addr \<Rightarrow> byte list \<Rightarrow> ('x, 'y) PedDisk \<Rightarrow>
     unit result \<times> ('x, 'y) PedDisk" where
  "ped_partition_set_type_uuid T A part uuid d =
     replace_node part
       (and_then (assert_partition_type_uuid_feature T)
          (Inr (the (op_partition_set_type_uuid A) (node d part) uuid))) d"

definition ped_partition_get_type_uuid ::
    "('x, 'y) PedDiskOps \<Rightarrow> ('x, 'y) PedAttrOps \<Rightarrow> ('x, 'y) PedDisk \<Rightarrow> addr \<Rightarrow> byte list result" where
  "ped_partition_get_type_uuid T A d part =
     and_then (assert_partition_type_uuid_feature T) (Inr (the (op_partition_get_type_uuid A) (node d part)))"

definition ped_partition_get_uuid ::
    "('x, 'y) PedDiskOps \<Rightarrow> ('x, 'y) PedAttrOps \<Rightarrow> ('x, 'y) PedDisk \<Rightarrow> addr \<Rightarrow> byte list result" where
  "ped_partition_get_uuid T A d part =
     and_then (assert_partition_uuid_feature T) (Inr (the (op_partition_get_uuid A) (node d part)))"

section \<open>Checks of a whole table\<close>

text \<open>
  \<open>ped_disk_check\<close> looks for the file system of every partition where the partition is; \<open>None\<close> is a
  probe that does not return. A partition names the type of its file system, which is registered.
\<close>

fun disk_check_walk ::
    "'s PedDeviceArchOps \<Rightarrow> PedExceptionHandler \<Rightarrow> rounding \<Rightarrow> PedUnit \<Rightarrow> 's PedFileSystemType list \<Rightarrow>
     ('x, 'y) PedDisk \<Rightarrow> addr list \<Rightarrow> 's io_state \<Rightarrow> (bool \<times> 's io_state) option" where
  "disk_check_walk ops ask rnd unit fs_types d [] st = Some (True, st)"
| "disk_check_walk ops ask rnd unit fs_types d (walk # ws) st =
     (if \<not> ped_partition_is_active (node d walk) \<or> p_fs (node d walk) = None
      then disk_check_walk ops ask rnd unit fs_types d ws st
      else
        let fs_type = the (List.find (\<lambda>t. fs_name t = the (p_fs (node d walk))) fs_types)
        in case ped_file_system_probe_specific ops ask fs_type (geom_of d walk) st of
             None \<Rightarrow> None
           | Some (None, st) \<Rightarrow> disk_check_walk ops ask rnd unit fs_types d ws st
           | Some (Some geom, st) \<Rightarrow>
               let length_error = \<bar>g_length (geom_of d walk) - g_length geom\<bar>;
                   max_length_error = max 4096 (g_length (geom_of d walk) sdiv 100);
                   dev = dev_of st (d_dev d)
               in if ped_geometry_test_inside (geom_of d walk) geom \<and> length_error \<le> max_length_error
                  then disk_check_walk ops ask rnd unit fs_types d ws st
                  else if ask \<lparr>ex_type = PED_EXCEPTION_WARNING, ex_options = PED_EXCEPTION_IGNORE_CANCEL,
                              ex_format = ''Partition %d is %s, but the file system is %s.'',
                              ex_args = [AInt (p_num (node d walk)),
                                AStr (ped_unit_format rnd unit dev (g_length (geom_of d walk))),
                                AStr (ped_unit_format rnd unit dev (g_length geom))]\<rparr> \<noteq> PED_EXCEPTION_IGNORE
                  then Some (False, st)
                  else disk_check_walk ops ask rnd unit fs_types d ws st)"

definition ped_disk_check ::
    "'s PedDeviceArchOps \<Rightarrow> PedExceptionHandler \<Rightarrow> rounding \<Rightarrow> PedUnit \<Rightarrow> 's PedFileSystemType list \<Rightarrow>
     ('x, 'y) PedDisk \<Rightarrow> 's io_state \<Rightarrow> (bool \<times> 's io_state) option" where
  "ped_disk_check ops ask rnd unit fs_types d st =
     disk_check_walk ops ask rnd unit fs_types d (disk_walk d) st"

text \<open>
  The assertions of \<open>_disk_check_sanity\<close> on types; those on \<open>prev\<close> and \<open>next\<close> hold of the
  representation by lists of addresses.
\<close>

definition disk_check_sanity :: "('x, 'y) PedDisk \<Rightarrow> bool" where
  "disk_check_sanity d \<longleftrightarrow>
     (\<forall>walk \<in> set (part_list d). \<not> has_bit (type_of d walk) PED_PARTITION_LOGICAL)
     \<and> (case ped_disk_extended_partition d of
          None \<Rightarrow> True
        | Some ext \<Rightarrow> \<forall>walk \<in> set (p_list (node d ext)). has_bit (type_of d walk) PED_PARTITION_LOGICAL)"

section \<open>The flags have one name each\<close>

definition flag_named :: "string \<Rightarrow> int \<Rightarrow> bool" where
  "flag_named name flag \<longleftrightarrow>
     (case ped_partition_flag_get_name flag of Inr n \<Rightarrow> strcasecmp_eq name n | Inl _ \<Rightarrow> False)"

text \<open>The loop is a search in the range of flags.\<close>

lemma flag_search_is_find:
  assumes "1 \<le> f" "f \<le> PED_PARTITION_LAST_FLAG"
  shows "partition_flag_search (\<lambda>s. s) name f =
    (case List.find (flag_named name) [f..PED_PARTITION_LAST_FLAG] of Some k \<Rightarrow> k | None \<Rightarrow> 0)"
  using assms
proof (induction "nat (PED_PARTITION_LAST_FLAG - f)" arbitrary: f)
  case 0
  then have "f = PED_PARTITION_LAST_FLAG" by simp
  then show ?case
    by (simp add: partition_flag_search.simps flag_named_def ped_partition_flag_next_def split: sum.split)
next
  case (Suc n)
  then have lt: "f < PED_PARTITION_LAST_FLAG" by simp
  have nx: "ped_partition_flag_next f = f + 1" using lt Suc.prems by (simp add: ped_partition_flag_next_def)
  have "partition_flag_search (\<lambda>s. s) name (f + 1) =
      (case List.find (flag_named name) [f + 1..PED_PARTITION_LAST_FLAG] of Some k \<Rightarrow> k | None \<Rightarrow> 0)"
    by (rule Suc.hyps(1)) (use Suc in simp_all)
  then show ?case
    using lt Suc.prems by (subst partition_flag_search.simps) (simp add: flag_named_def nx upto_rec1 split: sum.split)
qed

lemma find_SomeD: "List.find P xs = Some x \<Longrightarrow> P x \<and> x \<in> set xs"
  by (auto simp: find_Some_iff)

lemma flag_names_distinct:
  "distinct (map (\<lambda>f. map_option (map tolower) (ptr_of (ped_partition_flag_get_name f))) [1..PED_PARTITION_LAST_FLAG])"
  by code_simp

lemma flag_named_unique:
  assumes "flag_named name a" "flag_named name b" "a \<in> {1..PED_PARTITION_LAST_FLAG}" "b \<in> {1..PED_PARTITION_LAST_FLAG}"
  shows "a = b"
proof -
  have eq: "map_option (map tolower) (ptr_of (ped_partition_flag_get_name f)) = Some (map tolower name)"
    if "flag_named name f" for f
    using that by (auto simp: flag_named_def strcasecmp_eq_def simp del: map_eq_conv split: sum.splits)
  show ?thesis
    by (rule inj_onD[OF conjunct2[OF flag_names_distinct[unfolded distinct_map]]])
      (use assms(3,4) in \<open>simp_all only: eq[OF assms(1)] eq[OF assms(2)] set_upto\<close>)
qed

lemma flag_named_range: "flag_named name f \<Longrightarrow> f \<in> {1..PED_PARTITION_LAST_FLAG}"
  by (auto simp: flag_named_def ped_partition_flag_get_name_def split: if_splits)

text \<open>
  The name of every partition flag, in upper or lower case, is read back as this flag, and a
  string that is not the name of a flag gives 0. (The messages are not translated.)
\<close>
theorem flag_name_is_read_back:
  "ped_partition_flag_get_by_name (\<lambda>s. s) name = flag \<longleftrightarrow>
     (case ped_partition_flag_get_name flag of
        Inr n \<Rightarrow> strcasecmp_eq name n
      | Inl _ \<Rightarrow> flag = 0 \<and> (\<forall>f n. ped_partition_flag_get_name f = Inr n \<longrightarrow> \<not> strcasecmp_eq name n))"
proof -
  have search: "ped_partition_flag_get_by_name (\<lambda>s. s) name =
      (case List.find (flag_named name) [1..PED_PARTITION_LAST_FLAG] of Some k \<Rightarrow> k | None \<Rightarrow> 0)"
    unfolding ped_partition_flag_get_by_name_def
    using flag_search_is_find[of 1 name] by (simp only: ped_partition_flag_next_def) simp
  have named: "(\<forall>f. \<not> flag_named name f) \<longleftrightarrow>
      (\<forall>f n. ped_partition_flag_get_name f = Inr n \<longrightarrow> \<not> strcasecmp_eq name n)"
    by (auto simp: flag_named_def split: sum.splits)
  have "ped_partition_flag_get_by_name (\<lambda>s. s) name = flag \<longleftrightarrow>
      flag_named name flag \<or> flag = 0 \<and> (\<forall>f. \<not> flag_named name f)"
  proof (cases "List.find (flag_named name) [1..PED_PARTITION_LAST_FLAG]")
    case None
    then have "\<not> flag_named name f" for f
      using flag_named_range[of name f] None unfolding find_None_iff set_upto by blast
    then show ?thesis unfolding search None by auto
  next
    case (Some k)
    then have k: "flag_named name k" "k \<in> {1..PED_PARTITION_LAST_FLAG}"
      using find_SomeD[OF Some] by (simp_all only: set_upto)
    then show ?thesis
      unfolding search Some using flag_named_unique[OF _ k(1) flag_named_range k(2), of flag] by auto
  qed
  moreover have "ped_partition_flag_get_name 0 \<noteq> Inr n" for n by (simp add: ped_partition_flag_get_name_def)
  ultimately show ?thesis unfolding named[symmetric]
    by (cases "ped_partition_flag_get_name flag") (auto simp: flag_named_def[of _ flag])
qed

section \<open>The checks\<close>

text \<open>Every table that satisfies the invariant passes the debugging check.\<close>

lemma table_ok_sanity: "table_ok devs d \<Longrightarrow> disk_check_sanity d"
  using table_okD(1)[of devs d] linkedD(3)[of d _ False] linkedD(3)[of d _ True]
  by (auto simp: disk_check_sanity_def lists_def split: option.splits)

text \<open>What \<open>ped_disk_check\<close> accepts of a partition and the file system found in it.\<close>

definition fits_partition :: "PedGeometry \<Rightarrow> PedGeometry option \<Rightarrow> bool" where
  "fits_partition part found \<longleftrightarrow>
     (case found of
        None \<Rightarrow> True
      | Some g \<Rightarrow> ped_geometry_test_inside part g \<and> \<bar>g_length part - g_length g\<bar> \<le> max 4096 (g_length part sdiv 100))"

lemma disk_check_walk_sound:
  assumes "disk_check_walk ops ask rnd unit fs_types d ws st = Some (True, st')" "strict ask"
    and "a \<in> set ws" "ped_partition_is_active (node d a)" "p_fs (node d a) = Some name"
  shows "\<exists>s found s'. ped_file_system_probe_specific ops ask (the (List.find (\<lambda>t. fs_name t = name) fs_types)) (geom_of d a) s
      = Some (found, s') \<and> fits_partition (geom_of d a) found"
  using assms(1,3)
proof (induction ws arbitrary: st)
  case (Cons w ws)
  show ?case
  proof (cases "a = w")
    case True
    let ?probe = "ped_file_system_probe_specific ops ask (the (List.find (\<lambda>t. fs_name t = name) fs_types)) (geom_of d w) st"
    have "disk_check_walk ops ask rnd unit fs_types d (w # ws) st = Some (True, st')" by (rule Cons.prems(1))
    then obtain found s' where p: "?probe = Some (found, s')"
      using True assms(4,5) by (cases ?probe) (auto simp: Let_def)
    have "fits_partition (geom_of d w) found"
    proof (cases found)
      case (Some g)
      show ?thesis
        using Cons.prems(1) True assms(2,4,5) p Some
        by (cases "ped_geometry_test_inside (geom_of d w) g \<and>
             \<bar>g_length (geom_of d w) - g_length g\<bar> \<le> max 4096 (g_length (geom_of d w) sdiv 100)")
          (auto simp: Let_def fits_partition_def strict_def split: if_splits)
    qed (simp add: fits_partition_def)
    then show ?thesis using p True by blast
  next
    case False
    then have a: "a \<in> set ws" using Cons.prems(2) by simp
    obtain s where "disk_check_walk ops ask rnd unit fs_types d ws s = Some (True, st')"
      using Cons.prems(1) by (auto simp: Let_def split: option.splits prod.splits if_splits)
    then show ?thesis using Cons.IH a by blast
  qed
qed simp

section \<open>Flags of the table keep the partitions\<close>

lemma specific_keeps [simp]:
  "lists (d\<lparr>d_specific := y\<rparr>) = lists d" "core (d\<lparr>d_specific := y\<rparr>) = core d" "node (d\<lparr>d_specific := y\<rparr>) = node d"
  "actives (d\<lparr>d_specific := y\<rparr>) = actives d" "linked (d\<lparr>d_specific := y\<rparr>) = linked d"
  "before (d\<lparr>d_specific := y\<rparr>) = before d"
proof -
  show n: "node (d\<lparr>d_specific := y\<rparr>) = node d" by (simp add: node_def fun_eq_iff)
  show l: "lists (d\<lparr>d_specific := y\<rparr>) = lists d"
    by (simp add: lists_def ped_disk_extended_partition_def n fun_eq_iff split: option.split)
  show "core (d\<lparr>d_specific := y\<rparr>) = core d" by (simp add: core_def fun_eq_iff)
  show "actives (d\<lparr>d_specific := y\<rparr>) = actives d" by (simp add: actives_def n l fun_eq_iff)
  show "linked (d\<lparr>d_specific := y\<rparr>) = linked d" by (simp add: linked_def n l)
  show "before (d\<lparr>d_specific := y\<rparr>) = before d" by (simp add: before_def n fun_eq_iff)
qed

lemma table_ok_specific [simp]: "table_ok devs (d\<lparr>d_specific := y\<rparr>) = table_ok devs d"
  by (simp add: table_ok_def logicals_inside_def geoms_ok_def ped_disk_extended_partition_def)

text \<open>
  What a label type promises of the flags of its tables: they are kept in what the label keeps of
  the table, without touching the partitions, and a flag that is available is read back.
\<close>

locale table_flags = disk_label T disk_inv allowed
  for T :: "('x, 'y) PedDiskOps" and disk_inv and allowed +
  fixes A :: "('x, 'y) PedAttrOps"
  assumes set_specific: "ped_disk_is_flag_available A d flag \<Longrightarrow> the (op_disk_set_flag A) flag state d = (ret, d') \<Longrightarrow>
      ret \<and> (\<exists>y. d' = d\<lparr>d_specific := y\<rparr>) \<and> ped_disk_get_flag A d' flag = state"
    and set_inv: "ped_disk_is_flag_available A d flag \<Longrightarrow> the (op_disk_set_flag A) flag state d = (ret, d') \<Longrightarrow>
      disk_inv devs d \<Longrightarrow> disk_inv devs d'"
    and set_allowed: "ped_disk_is_flag_available A d flag \<Longrightarrow> the (op_disk_set_flag A) flag state d = (ret, d') \<Longrightarrow>
      allowed devs d ty g \<Longrightarrow> allowed devs d' ty g"
    and get_specific: "d_specific d' = d_specific d \<Longrightarrow> ped_disk_get_flag A d' flag = ped_disk_get_flag A d flag"
    and available_specific: "d_specific d' = d_specific d \<Longrightarrow>
      ped_disk_is_flag_available A d' flag = ped_disk_is_flag_available A d flag"

context table_flags begin

lemma set_flag_spec:
  assumes ok: "disk_ok disk_inv allowed devs d" and s: "strict ask"
    and set: "ped_disk_set_flag T A devs ask flag state d = (r, d')"
  shows "disk_ok disk_inv allowed devs d'" "actives d' = actives d"
    "\<And>k a. a \<in> set (actives d k) \<Longrightarrow> core d' a = core d a"
    "if ped_disk_is_flag_available A d flag then r = Inr () \<and> ped_disk_get_flag A d' flag = state
     else r = Inl (Some (flag_unavailable (name_arg (ped_disk_flag_get_name flag)) (t_name T))) \<and> same_disk d d'"
proof -
  let ?d1 = "disk_push_update_mode T d"
  have lok: "label_ok disk_inv allowed devs d" and m: "update_mode d = 0" using ok by (simp_all add: disk_ok_def)
  note p = push_label_ok[OF lok m]
  have av: "ped_disk_is_flag_available A ?d1 flag = ped_disk_is_flag_available A d flag"
    by (rule available_specific) (use p(5) in \<open>simp add: same_disk_def\<close>)
  obtain ret y where y: "if ped_disk_is_flag_available A d flag
      then the (op_disk_set_flag A) flag state ?d1 = (ret, ?d1\<lparr>d_specific := y\<rparr>) \<and> ret
        \<and> ped_disk_get_flag A (?d1\<lparr>d_specific := y\<rparr>) flag = state
      else y = d_specific ?d1"
    using set_specific[of ?d1 flag state] av by (cases "the (op_disk_set_flag A) flag state ?d1") (metis (full_types))
  define d2 where "d2 = ?d1\<lparr>d_specific := y\<rparr>"
  have lok2: "label_ok disk_inv allowed devs d2"
  proof (cases "ped_disk_is_flag_available A d flag")
    case True
    with y av have "the (op_disk_set_flag A) flag state ?d1 = (ret, d2)" "ped_disk_is_flag_available A ?d1 flag"
      by (simp_all add: d2_def)
    with set_inv[OF this(2,1)] set_allowed[OF this(2,1)] p(1) show ?thesis by (auto simp: label_ok_def d2_def)
  next
    case False
    then have "d2 = ?d1" using y by (simp add: d2_def)
    then show ?thesis using p(1) by simp
  qed
  have m2: "update_mode d2 = 1" "lists d2 = actives d2" using p(2-4) by (simp_all add: d2_def)
  note q = pop_label_ok[OF lok2 m2 s]
  have d': "d' = disk_pop_update_mode T devs ask d2" and r: "r = (if ped_disk_is_flag_available A d flag then Inr ()
      else Inl (Some (flag_unavailable (name_arg (ped_disk_flag_get_name flag)) (t_name T))))"
    using set y av by (auto simp: ped_disk_set_flag_def Let_def d2_def status_def split: if_splits)
  show "disk_ok disk_inv allowed devs d'" using q by (simp add: disk_ok_def d')
  show "actives d' = actives d" using q(3) p(3) by (simp add: d' d2_def)
  show "core d' a = core d a" if "a \<in> set (actives d k)" for k a
  proof -
    have a: "a \<in> set (lists d k)" "is_active (type_of d a)" using that by (simp_all add: actives_def)
    have "a < next_addr d" using linked_fresh[OF table_okD(1)[OF label_okD(1)[OF lok]] a(1)] .
    then have "core d' a = core d2 a" using q(6)[of a] p(7) by (simp add: d' d2_def)
    then show ?thesis using p(6)[of a] a(2) by (simp add: d2_def)
  qed
  have sd: "d_specific d' = d_specific d2" "same_disk d2 d'" using q(5) by (simp_all add: d' same_disk_def)
  show "if ped_disk_is_flag_available A d flag then r = Inr () \<and> ped_disk_get_flag A d' flag = state
     else r = Inl (Some (flag_unavailable (name_arg (ped_disk_flag_get_name flag)) (t_name T))) \<and> same_disk d d'"
    using r y get_specific[OF sd(1), of flag] sd p(5) by (auto simp: d2_def same_disk_def split: if_splits)
qed

end

end
