(* ===== verification/Dos_Table.thy ===== *)
theory Dos_Table
  imports Dos Gpt_Table
begin

text \<open>
  The theorems about msdos partition tables: what follows from the label contract, where a logical
  partition is put, and how partitions are numbered.
\<close>

abbreviation msdos_ok :: "dev_table \<Rightarrow> DosDisk \<Rightarrow> bool" where
  "msdos_ok \<equiv> disk_ok msdos_inv msdos_allowed"

section \<open>Fresh tables\<close>

lemma msdos_clobber [simp]:
  "msdos_inv devs (d\<lparr>needs_clobber := b\<rparr>) = msdos_inv devs d"
  "msdos_allowed devs (d\<lparr>needs_clobber := b\<rparr>) ty g = msdos_allowed devs d ty g"
  by (simp_all add: msdos_inv_def msdos_allowed_def)

lemma msdos_fresh_ok:
  assumes b: "chs_geometry (bios_geom (devs dev))" "2 \<le> dev_length (devs dev)" and s: "strict ask"
  shows "\<exists>d. ped_disk_new_fresh (msdos_disk_ops f) devs ask msdos_alloc dev = Some d \<and> msdos_ok devs d
    \<and> (\<forall>k. actives d k = []) \<and> needs_clobber d \<and> d_dev d = dev"
proof -
  have "bare devs dev (the (msdos_alloc dev))" "msdos_inv devs (the (msdos_alloc dev))"
    using b by (simp_all add: msdos_alloc_def bare_def ped_disk_alloc_def msdos_inv_def)
  from msdos.fresh_disk_ok[where alloc = msdos_alloc, OF _ this s, of f] show ?thesis
    by (auto simp: msdos_alloc_def)
qed

section \<open>Room for the extended boot records\<close>

text \<open>The scan leaves behind the siblings it has passed, with room for one record.\<close>

lemma log_meta_scan_room:
  assumes "log_meta_scan d part st n m xs = (m', ys)" "part \<notin> set xs" "in_order d xs" "geoms_ok d xs"
  shows "\<exists>us. xs = us @ ys \<and> (\<forall>w \<in> set us. is_active (type_of d w) \<longrightarrow> g_end (geom_of d w) + 1 + n \<le> m')
    \<and> (m' = m \<or> (\<exists>w \<in> set us. m' = g_end (geom_of d w) + 1 + n))"
  using assms
proof (induction xs arbitrary: m)
  case (Cons x xs)
  show ?case
  proof (cases "g_start (geom_of d x) - ebr_gap (node d x) < st - n \<or> g_start (geom_of d x) - ebr_gap (node d x) \<le> m")
    case False
    then have "m' = m \<and> x # xs = [] @ ys" using Cons.prems(1) by auto
    then show ?thesis by (intro exI[of _ "[]"]) simp
  next
    case True
    let ?m = "if is_active (type_of d x) then g_end (geom_of d x) + 1 + n else m"
    have "log_meta_scan d part st n ?m xs = (m', ys)"
      using Cons.prems(1,2) True by (auto simp: ped_partition_is_active_def is_active_def)
    moreover have "geoms_ok d xs" using Cons.prems(4) by (simp add: geoms_ok_def)
    ultimately obtain us where us: "xs = us @ ys" "\<And>w. w \<in> set us \<Longrightarrow> is_active (type_of d w) \<Longrightarrow> g_end (geom_of d w) + 1 + n \<le> m'"
      "m' = ?m \<or> (\<exists>w \<in> set us. m' = g_end (geom_of d w) + 1 + n)"
      using Cons.IH[of ?m] Cons.prems(2,3) by auto
    have "g_end (geom_of d x) < g_end (geom_of d w)" if "w \<in> set us" for w
    proof -
      have "before d x w" "w \<in> set (x # xs)" using Cons.prems(3) that us(1) by auto
      then show ?thesis using find_before[OF Cons.prems(3,4), of w] by (simp add: before_def)
    qed
    then show ?thesis
      using us by (intro exI[of _ "x # us"]) (fastforce split: if_splits)
  qed
qed simp

lemma log_meta_room:
  assumes ok: "table_ok devs d" and new: "unlisted d part" and x: "ped_disk_extended_partition d = Some ext"
    and m: "log_meta_overlap_constraint d part geom = Some m" and sol: "ped_constraint_is_solution m g"
    and g: "geom_wf g" "g_dev g = d_dev d"
  shows "g_start (geom_of d ext) + 1 + ebr_gap (node d part) \<le> g_start g" "g_end g \<le> g_end (geom_of d ext)"
    "w \<in> set (actives d True) \<Longrightarrow>
       g_end (geom_of d w) + 1 + ebr_gap (node d part) \<le> g_start g \<or> g_end g + 1 + ebr_gap (node d w) \<le> g_start (geom_of d w)"
proof -
  let ?n = "ebr_gap (node d part)" and ?xs = "lists d True"
  have gap: "0 \<le> ebr_gap p \<and> ebr_gap p \<le> 1" for p by (simp add: ebr_gap_def)
  have pl: "p_list (node d ext) = ?xs" using x by (simp add: lists_def)
  have nin: "part \<notin> set ?xs" using new by (simp add: unlisted_def)
  obtain s rest where sc: "log_meta_scan d part (g_start geom) ?n (g_start (geom_of d ext) + 1 + ?n) ?xs = (s, rest)"
    by fastforce
  define e where "e = log_meta_end d part ext rest"
  have r: "s < e" "ped_constraint_new_from_max (geometry_init_local (d_dev d) s (e - s + 1)) = Some m"
    using log_meta_region[of d part geom s rest m, unfolded x option.sel pl, OF sc m, folded e_def] by blast+
  note o = table_okD(2,3)[OF ok, of True]
  obtain us where us: "?xs = us @ rest"
      "\<And>w. w \<in> set us \<Longrightarrow> is_active (type_of d w) \<Longrightarrow> g_end (geom_of d w) + 1 + ?n \<le> s"
      "s = g_start (geom_of d ext) + 1 + ?n \<or> (\<exists>w \<in> set us. s = g_end (geom_of d w) + 1 + ?n)"
    using log_meta_scan_room[OF sc nin o] by blast
  have ins: "g_start (geom_of d ext) \<le> g_start (geom_of d w) \<and> g_end (geom_of d w) \<le> g_end (geom_of d ext)
      \<and> g_start (geom_of d w) \<le> g_end (geom_of d w)" if "w \<in> set ?xs" for w
    using table_okD(4)[OF ok] x that find_before[OF o that]
    by (auto simp: logicals_inside_def ped_geometry_test_inside_def split: if_splits)
  have s0: "g_start (geom_of d ext) + 1 + ?n \<le> s"
  proof -
    have "g_start (geom_of d ext) \<le> g_end (geom_of d w)" if "w \<in> set us" for w
      using ins[of w] that us(1) by simp
    then show ?thesis using us(3) by auto
  qed
  have e0: "0 \<le> g_start (geom_of d ext)"
    using table_okD(3)[OF ok, of False] ext_Some_mem[OF x] by (simp add: geoms_ok_def geom_wf_def)
  let ?r = "\<lparr>g_dev = d_dev d, g_start = s, g_length = e - s + 1, g_end = e\<rparr>"
  have wf: "geom_wf ?r" using r(1) s0 e0 gap[of "node d part"] by (simp add: geom_wf_def)
  have eq: "geometry_init_local (d_dev d) s (e - s + 1) = ?r"
    using wf by (simp add: geom_wf_def)
  obtain c where "ped_constraint_new_from_max ?r = Some c"
      "\<And>g. geom_wf g \<Longrightarrow> g_dev g = d_dev d \<Longrightarrow> ped_constraint_is_solution c g \<longleftrightarrow> ped_geometry_test_inside ?r g"
    using constraint_new_from_max_spec[OF wf] by auto
  then have "ped_geometry_test_inside ?r g" using r(2) eq sol g by simp
  then have gr: "s \<le> g_start g" "g_end g \<le> e" using g(2) by (simp_all add: ped_geometry_test_inside_def split: if_splits)
  show "g_start (geom_of d ext) + 1 + ?n \<le> g_start g" using gr s0 by simp
  let ?P = "\<lambda>w. w = part \<or> \<not> ped_partition_is_active (node d w)"
  define ts where "ts = takeWhile ?P rest"
  define zs where "zs = dropWhile ?P rest"
  have tz: "rest = ts @ zs" by (simp add: ts_def zs_def)
  have ts: "\<not> is_active (type_of d w)" if "w \<in> set ts" for w
  proof -
    have "w = part \<or> \<not> ped_partition_is_active (node d w)" "w \<in> set rest" using that by (auto simp: ts_def dest: set_takeWhileD)
    then show ?thesis using nin us(1) by (auto simp: ped_partition_is_active_def is_active_def)
  qed
  have e: "e = (case zs of [] \<Rightarrow> g_end (geom_of d ext) | z # _ \<Rightarrow> g_start (geom_of d z) - 1 - ebr_gap (node d z))"
    by (simp add: e_def log_meta_end_def zs_def)
  have zin: "z \<in> set ?xs" if "z \<in> set zs" for z using that us(1) tz by simp
  have "e \<le> g_end (geom_of d ext)"
  proof (cases zs)
    case (Cons z zs')
    then show ?thesis using e ins[OF zin, of z] gap[of "node d z"] by simp
  qed (simp add: e)
  then show "g_end g \<le> g_end (geom_of d ext)" using gr by simp
  show "g_end (geom_of d w) + 1 + ?n \<le> g_start g \<or> g_end g + 1 + ebr_gap (node d w) \<le> g_start (geom_of d w)"
    if w: "w \<in> set (actives d True)"
  proof -
    have wa: "is_active (type_of d w)" "w \<in> set us \<or> w \<in> set zs"
      using w us(1) tz ts by (auto simp: actives_def)
    from wa(2) show ?thesis
    proof
      assume "w \<in> set us"
      then show ?thesis using us(2)[of w] wa(1) gr by simp
    next
      assume wz: "w \<in> set zs"
      then obtain z zs' where z: "zs = z # zs'" by (cases zs) auto
      have "g_start (geom_of d w) = g_start (geom_of d z) \<and> w = z \<or> g_start (geom_of d z) + 1 \<le> g_start (geom_of d w)"
      proof (cases "w = z")
        case False
        then have "before d z w" using o(1) wz z us(1) tz by (auto simp: sorted_wrt_append)
        then show ?thesis using ins[OF zin, of z] z by (simp add: before_def)
      qed simp
      then show ?thesis using e z gr gap[of "node d w"] gap[of "node d z"] by auto
    qed
  qed
qed

text \<open>What an aligned logical partition fulfils beside the caller's constraint.\<close>

lemma logical_align_meta:
  assumes al: "msdos_partition_align fsec devs d part (Some c) = Inr g" and inv: "msdos_inv devs d"
    and n: "neighbours_ok d part" and ty: "type_of d part = PED_PARTITION_LOGICAL"
    and c: "usable d c" and dev: "g_dev (geom_of d part) = d_dev d"
    and ldm: "dos_system (dos_data (node d part)) \<noteq> PARTITION_LDM"
  shows "\<exists>m. log_meta_overlap_constraint d part (geom_of d part) = Some m \<and> ped_constraint_is_solution m g
    \<and> geom_wf g \<and> g_dev g = d_dev d"
proof -
  let ?b = "partition_probe_bios_geometry devs fsec d part" and ?m = "log_meta_overlap_constraint d part (geom_of d part)"
  have b: "chs_geometry ?b" using probed_bios_ok inv by (simp add: msdos_inv_def)
  have r: "align_logical devs d part ?b (Some c) = Some g \<or> align_logical_no_geom devs d part (Some c) = Some g"
    using al ldm ty by (auto simp: msdos_partition_align_def Let_def align_cylinders_def align_no_geom_def split: option.splits if_splits)
  have "?m \<noteq> None"
    using r by (auto simp: align_logical_def align_logical_no_geom_def Let_def try_constraint_def set_solution_def
        ped_constraint_intersect_def split: option.splits)
  then obtain m where m: "?m = Some m" by blast
  note mu = log_meta_usable[OF extended_ok[OF n ty] m]
  have "solution_for d m (align_logical_no_geom devs d part (Some c))"
    unfolding align_logical_no_geom_def m
  proof (rule set_solution_sound)
    show "solution_for d m (try_constraint devs (node d part) (Some c) (Some m))"
      using try_internal[OF c mu(1)] try_sound[OF c _ , of "node d part" "Some m" devs] mu dev by (auto simp: solution_for_def)
  qed (use dev in simp)
  then show ?thesis
    using r m align_logical_sound[OF b c n ty dev, of devs] by (auto simp: solution_for_def)
qed

section \<open>Concrete tables\<close>

definition msdos_demo_fsec :: first_sector where
  "msdos_demo_fsec g = None"

definition msdos_demo_dev :: PedDevice where
  "msdos_demo_dev = demo_dev\<lparr>bios_geom := \<lparr>cylinders = 10, heads = 16, sectors = 63\<rparr>\<rparr>"

abbreviation msdos_demo_devs :: dev_table where
  "msdos_demo_devs \<equiv> \<lambda>_. msdos_demo_dev"

definition msdos_demo_fresh :: DosDisk where
  "msdos_demo_fresh = (the (ped_disk_new_fresh (msdos_disk_ops msdos_demo_fsec) msdos_demo_devs demo_ask msdos_alloc 0))
     \<lparr>needs_clobber := False\<rparr>"

definition msdos_demo_any :: PedConstraint where
  "msdos_demo_any = the (ped_constraint_any msdos_demo_devs 0)"

definition msdos_demo_part :: DosPart where
  "msdos_demo_part = the (ptr_of (ped_partition_new (msdos_disk_ops msdos_demo_fsec) msdos_demo_fresh
     PED_PARTITION_NORMAL None 2048 4095))"

definition msdos_demo_new :: "DosDisk \<times> addr" where
  "msdos_demo_new = alloc_node msdos_demo_fresh msdos_demo_part"

definition msdos_demo_add :: "unit result \<times> DosDisk" where
  "msdos_demo_add = ped_disk_add_partition (msdos_disk_ops msdos_demo_fsec) msdos_demo_devs demo_ask (snd msdos_demo_new)
     (Some msdos_demo_any) (fst msdos_demo_new)"

lemma msdos_demo_dev_fields:
  "chs_geometry (bios_geom msdos_demo_dev)" "dev_length msdos_demo_dev = 10000"
  by (simp_all add: msdos_demo_dev_def demo_dev_def chs_geometry_def)

lemma msdos_demo_fresh_ok:
  "msdos_ok msdos_demo_devs msdos_demo_fresh" "actives msdos_demo_fresh k = []" "\<not> needs_clobber msdos_demo_fresh"
  "d_dev msdos_demo_fresh = 0"
proof -
  obtain d where d: "ped_disk_new_fresh (msdos_disk_ops msdos_demo_fsec) msdos_demo_devs demo_ask msdos_alloc 0 = Some d"
    "msdos_ok msdos_demo_devs d" "\<forall>k. actives d k = []" "d_dev d = 0"
    using msdos_fresh_ok[of msdos_demo_devs 0 demo_ask msdos_demo_fsec] msdos_demo_dev_fields demo_ask_strict by auto
  then show "msdos_ok msdos_demo_devs msdos_demo_fresh" "actives msdos_demo_fresh k = []" "\<not> needs_clobber msdos_demo_fresh"
    "d_dev msdos_demo_fresh = 0"
    by (simp_all add: msdos_demo_fresh_def disk_ok_clobber actives_clobber)
qed

lemma msdos_demo_any_usable: "d_dev d = 0 \<Longrightarrow> usable d msdos_demo_any"
proof -
  assume d: "d_dev d = 0"
  have "0 < dev_length (msdos_demo_devs 0)" by (simp add: msdos_demo_dev_fields)
  then obtain c where "ped_constraint_any msdos_demo_devs 0 = Some c" "constraint_wf c" "constraint_small c"
    "constraint_dev c = 0"
    by (rule constraint_any_usable)
  then show ?thesis using d by (simp add: usable_def msdos_demo_any_def)
qed

lemma msdos_demo_new_ok:
  "msdos_ok msdos_demo_devs (fst msdos_demo_new)" "unlisted (fst msdos_demo_new) (snd msdos_demo_new)"
  "plain_type (type_of (fst msdos_demo_new) (snd msdos_demo_new))"
  "g_dev (geom_of (fst msdos_demo_new) (snd msdos_demo_new)) = d_dev (fst msdos_demo_new)"
  "\<not> needs_clobber (fst msdos_demo_new)" "usable (fst msdos_demo_new) msdos_demo_any"
proof -
  have "ptr_of (ped_partition_new (msdos_disk_ops msdos_demo_fsec) msdos_demo_fresh PED_PARTITION_NORMAL None 2048 4095) \<noteq> None"
    by (simp add: ped_partition_new_def msdos_partition_new_def ped_partition_alloc_def geom_simps)
  then have new: "ped_partition_new (msdos_disk_ops msdos_demo_fsec) msdos_demo_fresh PED_PARTITION_NORMAL None 2048 4095
      = Inr msdos_demo_part"
    by (cases "ped_partition_new (msdos_disk_ops msdos_demo_fsec) msdos_demo_fresh PED_PARTITION_NORMAL None 2048 4095")
      (simp_all add: msdos_demo_part_def)
  have p: "p_type msdos_demo_part = PED_PARTITION_NORMAL" "g_dev (p_geom msdos_demo_part) = d_dev msdos_demo_fresh"
    using arg_cong[OF new, of "\<lambda>r. p_type (the (ptr_of r))"] arg_cong[OF new, of "\<lambda>r. g_dev (p_geom (the (ptr_of r)))"]
    by (simp_all add: ped_partition_new_def msdos_partition_new_def ped_partition_alloc_def geom_simps split: if_splits)
  have al: "alloc_node msdos_demo_fresh msdos_demo_part = (fst msdos_demo_new, snd msdos_demo_new)"
    by (simp add: msdos_demo_new_def)
  note a = msdos.alloc_node_disk_ok[OF msdos_demo_fresh_ok(1) al msdos_new_span[OF new]]
  have s: "d_dev (fst msdos_demo_new) = 0" "\<not> needs_clobber (fst msdos_demo_new)"
    using a msdos_demo_fresh_ok(3,4) by (simp_all add: same_disk_def)
  show "msdos_ok msdos_demo_devs (fst msdos_demo_new)" "unlisted (fst msdos_demo_new) (snd msdos_demo_new)" using a by simp_all
  show "plain_type (type_of (fst msdos_demo_new) (snd msdos_demo_new))"
    "g_dev (geom_of (fst msdos_demo_new) (snd msdos_demo_new)) = d_dev (fst msdos_demo_new)"
    using a p by (simp_all add: same_disk_def plain_type_def)
  show "\<not> needs_clobber (fst msdos_demo_new)" "usable (fst msdos_demo_new) msdos_demo_any"
    using s msdos_demo_any_usable by simp_all
qed

lemma msdos_demo_add_ok: "fst msdos_demo_add = Inr ()"
  by code_simp

text \<open>A table with an extended partition that holds partition 5, and a new logical partition.\<close>

definition msdos_demo_logical :: DosDisk where
  "msdos_demo_logical = \<lparr>d_dev = 0, part_list = [0],
     d_heap = [0 \<mapsto> \<lparr>p_geom = \<lparr>g_dev = 0, g_start = 2016, g_length = 7056, g_end = 9071\<rparr>, p_num = 1,
                     p_type = PED_PARTITION_EXTENDED, p_fs = None, p_list = [1],
                     p_specific = Some \<lparr>dos_system = PARTITION_EXT_LBA, dos_boot = False, dos_orig = None\<rparr>\<rparr>,
               1 \<mapsto> \<lparr>p_geom = \<lparr>g_dev = 0, g_start = 2079, g_length = 1953, g_end = 4031\<rparr>, p_num = 5,
                     p_type = PED_PARTITION_LOGICAL, p_fs = None, p_list = [],
                     p_specific = Some \<lparr>dos_system = PARTITION_LINUX, dos_boot = False, dos_orig = None\<rparr>\<rparr>,
               2 \<mapsto> \<lparr>p_geom = \<lparr>g_dev = 0, g_start = 4000, g_length = 2001, g_end = 6000\<rparr>, p_num = - 1,
                     p_type = PED_PARTITION_LOGICAL, p_fs = None, p_list = [],
                     p_specific = Some \<lparr>dos_system = PARTITION_LINUX, dos_boot = False, dos_orig = None\<rparr>\<rparr>],
     next_addr = 3, needs_clobber = False, update_mode = 1, d_specific = \<lparr>cylinder_alignment = True\<rparr>\<rparr>"

lemma msdos_demo_logical_nodes:
  "ped_disk_extended_partition msdos_demo_logical = Some 0" "part_list msdos_demo_logical = [0]"
  "lists msdos_demo_logical True = [1]" "d_dev msdos_demo_logical = 0" "next_addr msdos_demo_logical = 3"
  "geom_of msdos_demo_logical 0 = \<lparr>g_dev = 0, g_start = 2016, g_length = 7056, g_end = 9071\<rparr>"
  "geom_of msdos_demo_logical 1 = \<lparr>g_dev = 0, g_start = 2079, g_length = 1953, g_end = 4031\<rparr>"
  "geom_of msdos_demo_logical 2 = \<lparr>g_dev = 0, g_start = 4000, g_length = 2001, g_end = 6000\<rparr>"
  "type_of msdos_demo_logical 0 = PED_PARTITION_EXTENDED" "type_of msdos_demo_logical 1 = PED_PARTITION_LOGICAL"
  "type_of msdos_demo_logical 2 = PED_PARTITION_LOGICAL"
  "d_heap msdos_demo_logical a \<noteq> None \<longleftrightarrow> a < 3"
proof -
  show e: "ped_disk_extended_partition msdos_demo_logical = Some 0"
    by (simp add: ped_disk_extended_partition_def msdos_demo_logical_def node_def)
  show "lists msdos_demo_logical True = [1]" by (simp add: lists_def e) (simp add: msdos_demo_logical_def node_def)
  show "d_heap msdos_demo_logical a \<noteq> None \<longleftrightarrow> a < 3"
    by (auto simp: msdos_demo_logical_def)
qed (simp_all add: msdos_demo_logical_def node_def)

lemma msdos_demo_logical_ok:
  "table_ok msdos_demo_devs msdos_demo_logical" "unlisted msdos_demo_logical 2" "msdos_inv msdos_demo_devs msdos_demo_logical"
  "actives msdos_demo_logical True = [1]"
proof -
  note n = msdos_demo_logical_nodes
  have l: "linked msdos_demo_logical"
    unfolding linked_def
  proof (intro conjI allI)
    show "distinct (lists msdos_demo_logical k)" for k using n by (cases k) simp_all
    show "\<forall>a \<in> set (lists msdos_demo_logical k). d_heap msdos_demo_logical a \<noteq> None \<and> is_logical (type_of msdos_demo_logical a) = k" for k
      using n by (cases k) (simp_all add: has_bit_def)
  qed (use n in auto)
  have "in_order msdos_demo_logical (lists msdos_demo_logical k) \<and> geoms_ok msdos_demo_logical (lists msdos_demo_logical k)" for k
    using n by (cases k) (simp_all add: geoms_ok_def geom_wf_def)
  moreover have "logicals_inside msdos_demo_logical"
    using n by (simp add: logicals_inside_def ped_geometry_test_inside_def)
  ultimately show "table_ok msdos_demo_devs msdos_demo_logical"
    using l n msdos_demo_dev_fields by (simp add: table_ok_def)
  show "unlisted msdos_demo_logical 2" using n by (simp add: unlisted_def span_ok_def)
  show "msdos_inv msdos_demo_devs msdos_demo_logical" using msdos_demo_dev_fields by (simp add: msdos_inv_def)
  show "actives msdos_demo_logical True = [1]" using n by (simp add: actives_def is_active_def has_bit_def)
qed

text \<open>The same table outside update mode, with its metadata and free space.\<close>

definition msdos_demo_filled :: DosDisk where
  "msdos_demo_filled = disk_pop_update_mode (msdos_disk_ops msdos_demo_fsec) msdos_demo_devs demo_ask msdos_demo_logical"

section \<open>Properties\<close>



text \<open>
  C9. Deleting partitions of an msdos table (outside update mode, with a handler that never ignores
  an error). Deleting the extended partition deletes every logical one with it, and deleting any
  other partition deletes this one only; \<open>ped_disk_delete_all\<close> leaves no partition, and releases
  them all. The table stays well formed, and the partitions that stay do not change.
\<close>
theorem msdos_delete:
  assumes "msdos_ok devs d" "strict ask"
  shows "(\<forall>k. \<forall>part \<in> set (actives d k).
      let d' = ped_disk_delete_partition (msdos_disk_ops fsec) devs ask part d
      in msdos_ok devs d' \<and> actives d' False = remove1 part (actives d False) \<and>
        actives d' True = (if type_of d part = PED_PARTITION_EXTENDED then [] else remove1 part (actives d True)) \<and>
        (\<forall>j. \<forall>a \<in> set (actives d' j). core d' a = core d a)) \<and>
    (let d' = ped_disk_delete_all (msdos_disk_ops fsec) devs ask d
     in msdos_ok devs d' \<and> (\<forall>k. actives d' k = []) \<and> (\<forall>k. \<forall>a \<in> set (actives d k). d_heap d' a = None))"
  unfolding Let_def using msdos.delete_any_spec[OF assms(1) _ assms(2)] msdos.delete_all_spec[OF assms] by simp

lemma msdos_demo_filled_ok:
  "msdos_ok msdos_demo_devs msdos_demo_filled" "actives msdos_demo_filled False = [0]" "actives msdos_demo_filled True = [1]"
  "type_of msdos_demo_filled 0 = PED_PARTITION_EXTENDED"
proof -
  note n = msdos_demo_logical_nodes
  have act: "lists msdos_demo_logical = actives msdos_demo_logical"
  proof
    show "lists msdos_demo_logical k = actives msdos_demo_logical k" for k
      using n by (cases k) (simp_all add: actives_def is_active_def has_bit_def)
  qed
  have m: "update_mode msdos_demo_logical = 1" by (simp add: msdos_demo_logical_def)
  have "msdos_allowed msdos_demo_devs msdos_demo_logical (type_of msdos_demo_logical a) (geom_of msdos_demo_logical a)"
    if "a \<in> set (actives msdos_demo_logical k)" for a k
    using that n act[symmetric] by (cases k) (auto simp: msdos_allowed_def plain_type_def simp del: One_nat_def)
  then have "label_ok msdos_inv msdos_allowed msdos_demo_devs msdos_demo_logical"
    using msdos_demo_logical_ok(1,3) by (simp add: label_ok_def)
  note p = msdos.pop_label_ok[OF this m act demo_ask_strict, where f = msdos_demo_fsec, folded msdos_demo_filled_def]
  show "msdos_ok msdos_demo_devs msdos_demo_filled" using p(1,2,4) by (simp add: disk_ok_def)
  show "actives msdos_demo_filled False = [0]" "actives msdos_demo_filled True = [1]"
    using p(3) act[symmetric] n by simp_all
  show "type_of msdos_demo_filled 0 = PED_PARTITION_EXTENDED" using core_eqD(2)[OF p(6)[of 0]] n by simp
qed

theorem msdos_delete_witness:
  "actives (ped_disk_delete_partition (msdos_disk_ops msdos_demo_fsec) msdos_demo_devs demo_ask 0 msdos_demo_filled) True = []"
proof -
  have "0 \<in> set (actives msdos_demo_filled False)" by (simp add: msdos_demo_filled_ok(2))
  from conjunct1[OF msdos_delete[OF msdos_demo_filled_ok(1) demo_ask_strict, of msdos_demo_fsec], rule_format, OF this]
  show ?thesis using msdos_demo_filled_ok(4) by (simp add: Let_def)
qed

text \<open>
  C10. Alignment of a new logical partition (that is not managed by the Windows Dynamic Disk). Its
  place is inside the extended partition behind the sector that holds the first table; and between
  it and every other logical partition there is a free sector for the boot record of the later
  one, unless the later one is partition 5, whose record is the first sector of the extended
  partition.
\<close>
theorem logical_leaves_room:
  assumes "table_ok devs d" "unlisted d part" "type_of d part = PED_PARTITION_LOGICAL"
    and "ped_disk_extended_partition d = Some ext" "msdos_inv devs d" "usable d c"
    and "g_dev (geom_of d part) = d_dev d" "dos_system (dos_data (node d part)) \<noteq> PARTITION_LDM"
    and "msdos_partition_align fsec devs d part (Some c) = Inr g"
  shows "g_start (geom_of d ext) + 1 + ebr_gap (node d part) \<le> g_start g \<and> g_end g \<le> g_end (geom_of d ext) \<and>
    (\<forall>w \<in> set (actives d True).
       g_end (geom_of d w) + 1 + ebr_gap (node d part) \<le> g_start g \<or>
       g_end g + 1 + ebr_gap (node d w) \<le> g_start (geom_of d w))"
proof -
  have "neighbours_ok d part"
    using table_okD[OF assms(1)] assms(3,4) by (simp add: neighbours_ok_def has_list_def geoms_ok_filter)
  then obtain m where "log_meta_overlap_constraint d part (geom_of d part) = Some m" "ped_constraint_is_solution m g"
    "geom_wf g" "g_dev g = d_dev d"
    using logical_align_meta[OF assms(9,5) _ assms(3,6-8)] by blast
  note r = log_meta_room[OF assms(1,2,4) this]
  show ?thesis using r by blast
qed

theorem logical_leaves_room_witness:
  "\<exists>g. msdos_partition_align msdos_demo_fsec msdos_demo_devs msdos_demo_logical 2 (Some msdos_demo_any) = Inr g \<and>
    2016 + 2 \<le> g_start g \<and> g_end g \<le> 9071 \<and> (4031 + 2 \<le> g_start g \<or> g_end g + 1 \<le> 2079)"
proof -
  let ?r = "msdos_partition_align msdos_demo_fsec msdos_demo_devs msdos_demo_logical 2 (Some msdos_demo_any)"
  have "ptr_of ?r \<noteq> None" by code_simp
  then obtain g where g: "?r = Inr g" by (cases ?r) auto
  note n = msdos_demo_logical_nodes
  have "d_dev msdos_demo_logical = 0" by (rule n(4))
  have gap: "ebr_gap (node msdos_demo_logical 2) = 1" "ebr_gap (node msdos_demo_logical 1) = 0"
    "dos_system (dos_data (node msdos_demo_logical 2)) \<noteq> PARTITION_LDM" by code_simp+
  have "g_dev (geom_of msdos_demo_logical 2) = d_dev msdos_demo_logical" using n by simp
  from logical_leaves_room[OF msdos_demo_logical_ok(1,2) n(11,1) msdos_demo_logical_ok(3) msdos_demo_any_usable[OF n(4)] this gap(3) g]
  show ?thesis using g n gap msdos_demo_logical_ok(4) by simp
qed

text \<open>
  Numbering. A primary partition that has one of the numbers 1 to 4 keeps it; any other
  partition gets the smallest number that no partition has, 1 to 4 for a primary partition and
  5 to 64 for a logical one, and numbering fails exactly when there is none.
\<close>
theorem msdos_numbering:
  "case msdos_partition_enumerate d part of (ok, n) \<Rightarrow>
     let d1 = upd_node part (\<lambda>p. p\<lparr>p_num := - 1\<rparr>) d;
         (lo, hi) = (if is_logical (type_of d part) then (5, 64) else (1, 4))
     in if p_num (node d part) \<noteq> - 1 \<and> p_num (node d part) \<le> 4 then ok \<and> n = p_num (node d part)
        else if ok then lo \<le> n \<and> n \<le> hi \<and> ped_disk_get_partition d1 n = None
            \<and> (\<forall>j \<in> {lo ..< n}. ped_disk_get_partition d1 j \<noteq> None)
        else n = - 1 \<and> (\<forall>j \<in> {lo .. hi}. ped_disk_get_partition d1 j \<noteq> None)"
proof -
  have f: "case find P [lo .. hi] of None \<Rightarrow> \<forall>j \<in> {lo .. hi}. \<not> P j
      | Some n \<Rightarrow> lo \<le> n \<and> n \<le> hi \<and> P n \<and> (\<forall>j \<in> {lo ..< n}. \<not> P j)" for P and lo hi :: int
  proof (cases "find P [lo .. hi]")
    case (Some n)
    then obtain i where i: "i < length [lo .. hi]" "P n" "n = [lo .. hi] ! i" "\<And>j. j < i \<Longrightarrow> \<not> P ([lo .. hi] ! j)"
      by (auto simp: find_Some_iff)
    then have n: "n = lo + int i" "int i \<le> hi - lo" by (simp_all add: nth_upto)
    have "\<not> P j" if "lo \<le> j" "j < n" for j
      using i(4)[of "nat (j - lo)"] that n by (simp add: nth_upto)
    then show ?thesis using Some i n by simp
  next
    case None
    then have "\<forall>j \<in> {lo .. hi}. \<not> P j" by (simp add: find_None_iff)
    then show ?thesis using None by simp
  qed
  let ?keep = "p_num (node d part) \<noteq> - 1 \<and> p_num (node d part) \<le> 4"
  define d1 where "d1 = upd_node part (\<lambda>p. p\<lparr>p_num := - 1\<rparr>) d"
  define lo hi :: int where b: "lo = (if is_logical (type_of d part) then 5 else 1)" "hi = (if is_logical (type_of d part) then 64 else 4)"
  have p: "[1, 2, 3, 4] = [1 .. 4 :: int]" by (simp add: upto_rec1)
  have ty: "type_of d1 part = type_of d part"
    by (cases "d_heap d part") (simp_all add: d1_def upd_node_def node_def)
  define r where "r = find (\<lambda>i. ped_disk_get_partition d1 i = None) [lo .. hi]"
  have e: "msdos_partition_enumerate d part =
      (if ?keep then (True, p_num (node d part)) else case r of None \<Rightarrow> (False, - 1) | Some i \<Rightarrow> (i \<noteq> - 1, i))"
  proof -
    have "(if is_logical (type_of d part) then next_logical d1 else next_primary d1) = (case r of Some i \<Rightarrow> i | None \<Rightarrow> - 1)"
      unfolding next_primary_def next_logical_def p MAX_TOTAL_PART_def r_def b
      by (cases "is_logical (type_of d part)") (simp_all only: if_True if_False)
    then show ?thesis
      unfolding msdos_partition_enumerate_def d1_def[symmetric] Let_def ty by (simp split: option.split)
  qed
  have lh: "(if is_logical (type_of d part) then (5, 64) else (1, 4)) = (lo, hi)" "0 < lo" by (simp_all add: b)
  note fr = f[where P = "\<lambda>i. ped_disk_get_partition d1 i = None" and lo = lo and hi = hi, folded r_def]
  show ?thesis
  proof (cases ?keep)
    case True
    then show ?thesis by (simp add: e)
  next
    case False
    then show ?thesis
      unfolding e if_not_P[OF False] lh(1) d1_def[symmetric] using fr lh(2) by (cases r) (simp_all add: Let_def)
  qed
qed

end
