(* ===== verification/Label_Attrs.thy ===== *)
theory Label_Attrs
  imports Disk_Attrs Gpt_Table Dos_Table Loop
begin

text \<open>
  The flags, names and identifiers of GPT, msdos and loop tables as \<open>disk.c\<close> offers them: the
  entries of the three operation tables that \<open>Disk_Attrs\<close> uses, the interpretations of its contract
  on flags, and the contract on names and identifiers with its interpretations.
\<close>

section \<open>The operation tables\<close>

text \<open>The table of every label type has limits: the assertion of the code holds.\<close>

definition limit_of :: "PedSector option \<Rightarrow> PedSector" where
  "limit_of r = (case r of Some x \<Rightarrow> x | None \<Rightarrow> 0)"

definition no_attr_ops :: "string \<Rightarrow> ('x, 'y) PedAttrOps" where
  "no_attr_ops name = \<lparr>op_disk_set_flag = None, op_disk_get_flag = None, op_disk_is_flag_available = None,
     op_disk_get_uuid = None, op_partition_set_name = None, op_partition_get_name = None,
     op_partition_set_type_id = None, op_partition_get_type_id = None,
     op_partition_set_type_uuid = None, op_partition_get_type_uuid = None, op_partition_get_uuid = None,
     op_get_partition_alignment = None,
     op_max_length = limit_of (ptt_partition_max_length name),
     op_max_start_sector = limit_of (ptt_partition_max_start_sector name)\<rparr>"

definition gpt_attr_ops :: "(GPTPartitionData option, GPTDiskData) PedAttrOps" where
  "gpt_attr_ops = (no_attr_ops ''gpt'')
     \<lparr>op_disk_set_flag := Some (\<lambda>flag state. gpt_disk_set_flag flag (if state then 1 else 0)),
      op_disk_get_flag := Some (\<lambda>d flag. gpt_disk_get_flag d flag \<noteq> 0),
      op_disk_is_flag_available := Some gpt_disk_is_flag_available,
      op_disk_get_uuid := Some gpt_disk_get_uuid,
      op_partition_set_name := Some gpt_partition_set_name,
      op_partition_get_name := Some gpt_partition_get_name,
      op_partition_set_type_uuid := Some gpt_partition_set_type_uuid,
      op_partition_get_type_uuid := Some gpt_partition_get_type_uuid,
      op_partition_get_uuid := Some gpt_partition_get_uuid\<rparr>"

definition msdos_attr_ops :: "(DosPartitionData option, DosDiskData) PedAttrOps" where
  "msdos_attr_ops = (no_attr_ops ''msdos'')
     \<lparr>op_disk_set_flag := Some msdos_disk_set_flag,
      op_disk_get_flag := Some msdos_disk_get_flag,
      op_disk_is_flag_available := Some msdos_disk_is_flag_available,
      op_partition_set_type_id := Some msdos_partition_set_type_id,
      op_partition_get_type_id := Some msdos_partition_get_type_id\<rparr>"

definition loop_attr_ops :: "(unit, unit) PedAttrOps" where
  "loop_attr_ops = no_attr_ops ''loop''"

section \<open>Flags of tables\<close>

lemma attr_flags_simps [simp]:
  "ped_disk_is_flag_available gpt_attr_ops d flag \<longleftrightarrow> flag = 2"
  "ped_disk_is_flag_available msdos_attr_ops e flag \<longleftrightarrow> flag = 1"
  "\<not> ped_disk_is_flag_available loop_attr_ops l flag"
  by (simp_all add: ped_disk_is_flag_available_def gpt_attr_ops_def msdos_attr_ops_def loop_attr_ops_def no_attr_ops_def
      gpt_disk_is_flag_available_def msdos_disk_is_flag_available_def)

interpretation gpt_flags: table_flags "gpt_disk_ops u" gpt_inv gpt_allowed gpt_attr_ops for u
  by unfold_locales
    (auto simp: gpt_attr_ops_def no_attr_ops_def gpt_disk_set_flag_def gpt_disk_get_flag_def ped_disk_get_flag_def
      ped_disk_is_flag_available_def gpt_disk_is_flag_available_def gpt_inv_def gpt_allowed_def gptlength_def
      pteslength_def Let_def)

interpretation msdos_flags: table_flags "msdos_disk_ops f" msdos_inv msdos_allowed msdos_attr_ops for f
  by unfold_locales
    (auto simp: msdos_attr_ops_def no_attr_ops_def msdos_disk_set_flag_def msdos_disk_get_flag_def ped_disk_get_flag_def
      ped_disk_is_flag_available_def msdos_disk_is_flag_available_def msdos_inv_def msdos_allowed_def)

interpretation loop_flags: table_flags loop_disk_ops "\<lambda>_ _. True" "\<lambda>_ _ _ _. True" loop_attr_ops
  by unfold_locales
    (auto simp: loop_attr_ops_def no_attr_ops_def ped_disk_get_flag_def ped_disk_is_flag_available_def)

section \<open>Names and identifiers of partitions\<close>

text \<open>
  A label type whose features promise names or identifiers has the functions for them, and what is
  set is read back from a partition with data of the label.
\<close>

locale partition_attrs =
  fixes T :: "('x, 'y) PedDiskOps" and A :: "('x, 'y) PedAttrOps" and has_data :: "'x PedPartition \<Rightarrow> bool"
    and shown :: "string \<Rightarrow> string"
  assumes name: "ped_disk_type_check_feature T PED_DISK_TYPE_PARTITION_NAME \<Longrightarrow> has_data p \<Longrightarrow>
      fst (the (op_partition_get_name A) (the (op_partition_set_name A) p n)) = shown n"
    and type_id: "ped_disk_type_check_feature T PED_DISK_TYPE_PARTITION_TYPE_ID \<Longrightarrow> has_data p \<Longrightarrow>
      \<exists>q. the (op_partition_set_type_id A) p i = Inr q \<and> the (op_partition_get_type_id A) q = i"
    and type_uuid: "ped_disk_type_check_feature T PED_DISK_TYPE_PARTITION_TYPE_UUID \<Longrightarrow> has_data p \<Longrightarrow>
      length u = 16 \<Longrightarrow> the (op_partition_get_type_uuid A) (the (op_partition_set_type_uuid A) p u) = u"

lemmas node_upd_simp [simp] = node_upd

context partition_attrs begin

text \<open>A feature that the label does not have is refused and the table stays as it is.\<close>

lemma set_name_spec:
  assumes "has_data (node d part)"
  shows "if ped_disk_type_check_feature T PED_DISK_TYPE_PARTITION_NAME
    then \<exists>d'. ped_partition_set_name T A part n d = (Inr (), d') \<and> fst (ped_partition_get_name T A part d') = Inr (shown n)
    else ped_partition_set_name T A part n d =
      (Inl (Some (feature_missing ''%s disk labels do not support partition names.'' (t_name T))), d)"
  using name[OF _ assms, of n]
  by (cases "the (op_partition_get_name A) (the (op_partition_set_name A) (node d part) n)")
    (auto simp: ped_partition_set_name_def ped_partition_get_name_def assert_feature_def replace_node_def)

lemma set_type_id_spec:
  assumes "has_data (node d part)"
  shows "if ped_disk_type_check_feature T PED_DISK_TYPE_PARTITION_TYPE_ID
    then \<exists>d'. ped_partition_set_type_id T A part i d = (Inr (), d') \<and> ped_partition_get_type_id T A d' part = Inr i
    else ped_partition_set_type_id T A part i d =
      (Inl (Some (feature_missing ''%s disk labels do not support partition type-ids.'' (t_name T))), d)"
  using type_id[OF _ assms, of i]
  by (auto simp: ped_partition_set_type_id_def ped_partition_get_type_id_def assert_feature_def replace_node_def)

lemma set_type_uuid_spec:
  assumes "has_data (node d part)" "length u = 16"
  shows "if ped_disk_type_check_feature T PED_DISK_TYPE_PARTITION_TYPE_UUID
    then \<exists>d'. ped_partition_set_type_uuid T A part u d = (Inr (), d') \<and> ped_partition_get_type_uuid T A d' part = Inr u
    else ped_partition_set_type_uuid T A part u d =
      (Inl (Some (feature_missing ''%s disk labels do not support partition type-uuids.'' (t_name T))), d)"
  using type_uuid[OF _ assms]
  by (auto simp: ped_partition_set_type_uuid_def ped_partition_get_type_uuid_def assert_feature_def replace_node_def)

end

lemma label_features [simp]:
  "ped_disk_type_check_feature (gpt_disk_ops u) PED_DISK_TYPE_PARTITION_NAME"
  "ped_disk_type_check_feature (gpt_disk_ops u) PED_DISK_TYPE_PARTITION_TYPE_UUID"
  "\<not> ped_disk_type_check_feature (gpt_disk_ops u) PED_DISK_TYPE_PARTITION_TYPE_ID"
  "\<not> ped_disk_type_check_feature (msdos_disk_ops f) PED_DISK_TYPE_PARTITION_NAME"
  "\<not> ped_disk_type_check_feature (msdos_disk_ops f) PED_DISK_TYPE_PARTITION_TYPE_UUID"
  "ped_disk_type_check_feature (msdos_disk_ops f) PED_DISK_TYPE_PARTITION_TYPE_ID"
  "\<not> ped_disk_type_check_feature loop_disk_ops k"
  by (simp_all add: ped_disk_type_check_feature_def has_bit_def)

interpretation gpt_attrs: partition_attrs "gpt_disk_ops u" gpt_attr_ops "\<lambda>p. p_specific p \<noteq> None" "\<lambda>n. n" for u
  by unfold_locales
    (auto simp: gpt_attr_ops_def no_attr_ops_def gpt_partition_set_name_def gpt_partition_get_name_def
      gpt_partition_set_type_uuid_def gpt_partition_get_type_uuid_def guid_bytes_of_bytes)

interpretation msdos_attrs: partition_attrs "msdos_disk_ops f" msdos_attr_ops "\<lambda>p. p_specific p \<noteq> None" "\<lambda>n. n" for f
  by unfold_locales
    (auto simp: msdos_attr_ops_def no_attr_ops_def msdos_partition_set_type_id_def msdos_partition_get_type_id_def
      upd_dos_def dos_data_def)

interpretation loop_attrs: partition_attrs loop_disk_ops loop_attr_ops "\<lambda>_. True" "\<lambda>n. n"
  by unfold_locales simp_all

section \<open>Properties\<close>

definition demo_attrs :: "'x \<Rightarrow> 'y \<Rightarrow> ('x, 'y) PedDisk" where
  "demo_attrs x y = \<lparr>d_dev = 0, part_list = [0],
     d_heap = [0 \<mapsto> \<lparr>p_geom = \<lparr>g_dev = 0, g_start = 2048, g_length = 100, g_end = 2147\<rparr>, p_num = 1,
       p_type = PED_PARTITION_NORMAL, p_fs = None, p_list = [], p_specific = x\<rparr>],
     next_addr = 1, needs_clobber = False, update_mode = 0, d_specific = y\<rparr>"



text \<open>
  Setting a flag of a GPT table leaves the partitions and the well-formedness of the table as they
  are; the flag \<open>PED_DISK_GPT_PMBR_BOOT\<close> is read back, any other one is refused with an exception and
  the table keeps what it had.
\<close>
theorem gpt_table_flag:
  assumes "gpt_ok devs d" "strict ask"
    and "ped_disk_set_flag (gpt_disk_ops f) gpt_attr_ops devs ask flag state d = (r, d')"
  shows "gpt_ok devs d' \<and> actives d' = actives d \<and> (\<forall>k. \<forall>a \<in> set (actives d k). core d' a = core d a) \<and>
    (if flag = 2 then r = Inr () \<and> ped_disk_get_flag gpt_attr_ops d' flag = state
     else isl r \<and> d_specific d' = d_specific d)"
  using gpt_flags.set_flag_spec[OF assms] by (auto simp: same_disk_def)

theorem gpt_table_flag_witness:
  "\<exists>r d'. ped_disk_set_flag (gpt_disk_ops (\<lambda>_. PARTITION_LVM_GUID)) gpt_attr_ops demo_devs demo_ask 2 True demo_one = (r, d') \<and>
    gpt_ok demo_devs d' \<and> r = Inr () \<and> ped_disk_get_flag gpt_attr_ops d' 2"
proof -
  obtain r d' where set: "ped_disk_set_flag (gpt_disk_ops (\<lambda>_. PARTITION_LVM_GUID)) gpt_attr_ops demo_devs demo_ask 2 True demo_one
      = (r, d')" by fastforce
  from gpt_table_flag[OF demo_one_ok(1) demo_ask_strict set] set show ?thesis by simp
qed

text \<open>
  The limits of GPT and loop tables are the largest 64-bit number, which a \<open>PedSector\<close> cannot hold:
  \<open>ped_disk_max_partition_length\<close> and \<open>ped_disk_max_partition_start_sector\<close> return -1 for them.
\<close>

lemma unlimited_labels_return_minus_one:
  "ped_disk_max_partition_length gpt_attr_ops = - 1 \<and> ped_disk_max_partition_start_sector gpt_attr_ops = - 1 \<and>
   ped_disk_max_partition_length loop_attr_ops = - 1 \<and>
   ped_disk_max_partition_length msdos_attr_ops = 2 ^ 32 - 1"
  by code_simp

end
