(* ===== verification/Raw_Struct.thy ===== *)
theory Raw_Struct
  imports Gpt_Guid
begin

text \<open>
  Packed structures of the labels as memory: the members one after another, arrays of equal
  elements, and the 16-bit words of a region of memory.
\<close>

section \<open>Members and arrays\<close>

fun chunks :: "nat list \<Rightarrow> 'a list \<Rightarrow> 'a list list" where
  "chunks [] xs = []"
| "chunks (n # ns) xs = take n xs # chunks ns (drop n xs)"

text \<open>An array of \<open>k\<close> elements of \<open>n\<close> bytes.\<close>

definition raw_array :: "(byte list \<Rightarrow> 'a) \<Rightarrow> nat \<Rightarrow> nat \<Rightarrow> byte list \<Rightarrow> 'a list" where
  "raw_array f n k bs = map f (chunks (replicate k n) bs)"

text \<open>\<open>memcpy\<close> over the start of a buffer.\<close>

definition overwrite :: "byte list \<Rightarrow> byte list \<Rightarrow> byte list" where
  "overwrite new old = new @ drop (length new) old"

lemma chunks_concat: "map length xs = ns \<Longrightarrow> chunks ns (concat xs @ rest) = xs"
  by (induction xs arbitrary: ns) auto

lemma chunks_props:
  "sum_list ns \<le> length bs \<Longrightarrow> map length (chunks ns bs) = ns \<and> concat (chunks ns bs) = take (sum_list ns) bs"
proof (induction ns arbitrary: bs)
  case (Cons n ns)
  have "sum_list ns \<le> length (drop n bs)" using Cons.prems by simp
  from Cons.IH[OF this] show ?case using Cons.prems by (simp add: take_add)
qed simp

lemma raw_array_concat:
  assumes "\<And>x. x \<in> set xs \<Longrightarrow> length (g x) = n \<and> f (g x) = x"
  shows "raw_array f n (length xs) (concat (map g xs)) = xs"
proof -
  have "map length (map g xs) = replicate (length xs) n"
    using assms by (simp add: list_eq_iff_nth_eq)
  from chunks_concat[OF this, of "[]"] have "chunks (replicate (length xs) n) (concat (map g xs)) = map g xs" by simp
  then show ?thesis using assms by (simp add: raw_array_def map_idI)
qed

lemma length_raw_array [simp]: "length (raw_array f n k bs) = k"
proof -
  have "length (chunks ns bs) = length ns" for ns and bs :: "byte list" by (induction ns bs rule: chunks.induct) simp_all
  then show ?thesis by (simp add: raw_array_def)
qed

lemma length_concat_const: "(\<And>x. x \<in> set xs \<Longrightarrow> length (g x) = n) \<Longrightarrow> length (concat (map g xs)) = length xs * n"
  by (induction xs) auto

section \<open>Words\<close>

abbreviation words16 :: "byte list \<Rightarrow> 16 word list" where
  "words16 \<equiv> chars16_of_bytes"

lemma words16_append: "even (length xs) \<Longrightarrow> words16 (xs @ ys) = words16 xs @ words16 ys"
  by (induction xs rule: chars16_of_bytes.induct) auto

lemma length_words16: "length (words16 xs) = length xs div 2"
  by (induction xs rule: chars16_of_bytes.induct) auto

section \<open>Loops that store into an array\<close>

lemma fold_list_update:
  "n \<le> length xs \<Longrightarrow> fold (\<lambda>i xs. xs[i := f i (xs ! i)]) [0..<n] xs = map (\<lambda>i. f i (xs ! i)) [0..<n] @ drop n xs"
proof (induction n)
  case (Suc n)
  then have "fold (\<lambda>i xs. xs[i := f i (xs ! i)]) [0..<n] xs = map (\<lambda>i. f i (xs ! i)) [0..<n] @ drop n xs" by simp
  moreover have "drop n xs = xs ! n # drop (Suc n) xs" using Suc.prems by (simp add: Cons_nth_drop_Suc)
  ultimately show ?case by (simp add: list_update_append nth_append)
qed simp

end
