(* ===== verification/Sun.thy ===== *)
theory Sun
  imports Label_Align Ped_Unit Disk_Meta Pt_Limit Gpt_Guid Raw_Struct
begin

text \<open>
  The label type \<open>sun\<close> (\<open>libparted/labels/sun.c\<close>), its operations on the table object: partitions
  start on cylinders, the rest of the device behind the last whole cylinder is metadata, and the
  third number is kept for the partition that spans the disk. The raw label is in memory as the code
  has it: its numbers are big-endian, and \<open>PED_CPU_TO_BE*\<close> swaps them.

  \<open>ask\<close> is the answer of the exception handler that numbering asks; \<open>PED_ASSERT\<close> has no counterpart.
\<close>

section \<open>The raw label\<close>

abbreviation SUN_DISK_MAGIC :: "16 word" where "SUN_DISK_MAGIC \<equiv> 0xDABE"
abbreviation SUN_DISK_MAXPARTITIONS :: nat where "SUN_DISK_MAXPARTITIONS \<equiv> 8"
abbreviation SUN_VTOC_VERSION :: "32 word" where "SUN_VTOC_VERSION \<equiv> 1"
abbreviation SUN_VTOC_SANITY :: "32 word" where "SUN_VTOC_SANITY \<equiv> 0x600DDEEE"
abbreviation WHOLE_DISK_ID :: byte where "WHOLE_DISK_ID \<equiv> 0x05"
abbreviation WHOLE_DISK_PART :: nat where "WHOLE_DISK_PART \<equiv> 2"

record SunRawPartition =
  start_cylinder :: "32 word"
  num_sectors :: "32 word"

record SunPartitionInfo =
  info_spare1 :: byte
  info_id :: byte
  info_spare2 :: byte
  info_flags :: byte

record SunRawLabel =
  sun_info :: "byte list"
  sun_version :: "32 word"
  sun_volume :: "byte list"
  sun_nparts :: "16 word"
  sun_infos :: "SunPartitionInfo list"
  sun_padding :: "16 word"
  sun_bootinfo :: "32 word list"
  sun_sanity :: "32 word"
  sun_reserved :: "32 word list"
  sun_timestamp :: "32 word list"
  write_reinstruct :: "32 word"
  read_reinstruct :: "32 word"
  sun_spare1 :: "byte list"
  rspeed :: "16 word"
  pcylcount :: "16 word"
  sparecyl :: "16 word"
  sun_spare2 :: "byte list"
  ilfact :: "16 word"
  ncyl :: "16 word"
  nacyl :: "16 word"
  ntrks :: "16 word"
  nsect :: "16 word"
  sun_spare3 :: "byte list"
  sun_partitions :: "SunRawPartition list"
  sun_magic :: "16 word"
  csum :: "16 word"

record SunPartitionData =
  sun_type :: byte
  sun_boot :: bool
  sun_root :: bool
  sun_lvm :: bool
  sun_raid :: bool

record SunDiskData =
  sun_length :: PedSector
  raw_label :: SunRawLabel

type_synonym SunDisk = "(SunPartitionData option, SunDiskData) PedDisk"
type_synonym SunPart = "SunPartitionData option PedPartition"

text \<open>The memory of the members, in their order: the host is little-endian.\<close>

definition raw_partition_bytes :: "SunRawPartition \<Rightarrow> byte list" where
  "raw_partition_bytes p = le_bytes 4 (start_cylinder p) @ le_bytes 4 (num_sectors p)"

definition info_bytes :: "SunPartitionInfo \<Rightarrow> byte list" where
  "info_bytes i = [info_spare1 i, info_id i, info_spare2 i, info_flags i]"

definition sun_members :: "SunRawLabel \<Rightarrow> byte list list" where
  "sun_members l = [sun_info l, le_bytes 4 (sun_version l), sun_volume l, le_bytes 2 (sun_nparts l),
     concat (map info_bytes (sun_infos l)), le_bytes 2 (sun_padding l), concat (map (le_bytes 4) (sun_bootinfo l)),
     le_bytes 4 (sun_sanity l), concat (map (le_bytes 4) (sun_reserved l)), concat (map (le_bytes 4) (sun_timestamp l)),
     le_bytes 4 (write_reinstruct l), le_bytes 4 (read_reinstruct l), sun_spare1 l, le_bytes 2 (rspeed l),
     le_bytes 2 (pcylcount l), le_bytes 2 (sparecyl l), sun_spare2 l, le_bytes 2 (ilfact l), le_bytes 2 (ncyl l),
     le_bytes 2 (nacyl l), le_bytes 2 (ntrks l), le_bytes 2 (nsect l), sun_spare3 l,
     concat (map raw_partition_bytes (sun_partitions l)), le_bytes 2 (sun_magic l), le_bytes 2 (csum l)]"

definition sun_sizes :: "nat list" where
  "sun_sizes = [128, 4, 8, 2, 32, 2, 12, 4, 40, 32, 4, 4, 148, 2, 2, 2, 4, 2, 2, 2, 2, 2, 4, 64, 2, 2]"

definition sun_label_bytes :: "SunRawLabel \<Rightarrow> byte list" where
  "sun_label_bytes l = concat (sun_members l)"

definition raw_partition_of_bytes :: "byte list \<Rightarrow> SunRawPartition" where
  "raw_partition_of_bytes bs = \<lparr>start_cylinder = of_le (take 4 bs), num_sectors = of_le (drop 4 bs)\<rparr>"

definition info_of_bytes :: "byte list \<Rightarrow> SunPartitionInfo" where
  "info_of_bytes bs = \<lparr>info_spare1 = bs ! 0, info_id = bs ! 1, info_spare2 = bs ! 2, info_flags = bs ! 3\<rparr>"

definition sun_label_of_bytes :: "byte list \<Rightarrow> SunRawLabel" where
  "sun_label_of_bytes bs =
     (let m = (\<lambda>i. chunks sun_sizes bs ! i) in
      \<lparr>sun_info = m 0, sun_version = of_le (m 1), sun_volume = m 2, sun_nparts = of_le (m 3),
       sun_infos = raw_array info_of_bytes 4 8 (m 4), sun_padding = of_le (m 5),
       sun_bootinfo = raw_array of_le 4 3 (m 6), sun_sanity = of_le (m 7), sun_reserved = raw_array of_le 4 10 (m 8),
       sun_timestamp = raw_array of_le 4 8 (m 9), write_reinstruct = of_le (m 10), read_reinstruct = of_le (m 11),
       sun_spare1 = m 12, rspeed = of_le (m 13), pcylcount = of_le (m 14), sparecyl = of_le (m 15), sun_spare2 = m 16,
       ilfact = of_le (m 17), ncyl = of_le (m 18), nacyl = of_le (m 19), ntrks = of_le (m 20), nsect = of_le (m 21),
       sun_spare3 = m 22, sun_partitions = raw_array raw_partition_of_bytes 8 8 (m 23), sun_magic = of_le (m 24),
       csum = of_le (m 25)\<rparr>)"

definition PED_CPU_TO_BE16 :: "int \<Rightarrow> 16 word" where
  "PED_CPU_TO_BE16 x = PED_SWAP16 (word_of_int x)"

definition PED_CPU_TO_BE32 :: "int \<Rightarrow> 32 word" where
  "PED_CPU_TO_BE32 x = PED_SWAP32 (word_of_int x)"

definition PED_BE16_TO_CPU :: "16 word \<Rightarrow> int" where
  "PED_BE16_TO_CPU x = uint (PED_SWAP16 x)"

definition PED_BE32_TO_CPU :: "32 word \<Rightarrow> int" where
  "PED_BE32_TO_CPU x = uint (PED_SWAP32 x)"

section \<open>Checksum\<close>

text \<open>A label is 256 words of 16 bits; the checksum is the last one.\<close>

definition sun_compute_checksum :: "SunRawLabel \<Rightarrow> SunRawLabel" where
  "sun_compute_checksum label =
     label\<lparr>csum := foldl (XOR) 0 (take 255 (words16 (sun_label_bytes label)))\<rparr>"

definition sun_verify_checksum :: "SunRawLabel \<Rightarrow> bool" where
  "sun_verify_checksum label \<longleftrightarrow> foldl (XOR) 0 (rev (words16 (sun_label_bytes label))) = 0"

section \<open>Tables and partitions\<close>

definition zero_label :: SunRawLabel where
  "zero_label = sun_label_of_bytes (replicate 512 0)"

definition chars :: "string \<Rightarrow> byte list" where
  "chars s = map byte_of_char s"

text \<open>\<open>snprintf\<close> into 127 characters, with the terminating zero.\<close>

definition sun_description :: "SunRawLabel \<Rightarrow> byte list" where
  "sun_description l =
     chars (take 126 (''GNU Parted Custom cyl '' @ show_int (PED_BE16_TO_CPU (ncyl l))
       @ '' alt '' @ show_int (PED_BE16_TO_CPU (nacyl l)) @ '' hd '' @ show_int (PED_BE16_TO_CPU (ntrks l))
       @ '' sec '' @ show_int (PED_BE16_TO_CPU (nsect l)))) @ [0]"

definition whole_disk :: "PedSector \<Rightarrow> SunRawLabel \<Rightarrow> SunRawLabel" where
  "whole_disk len l = l
     \<lparr>sun_infos := (sun_infos l)[WHOLE_DISK_PART := (sun_infos l ! WHOLE_DISK_PART)\<lparr>info_id := WHOLE_DISK_ID\<rparr>],
      sun_partitions := (sun_partitions l)[WHOLE_DISK_PART := \<lparr>start_cylinder = 0, num_sectors = PED_CPU_TO_BE32 len\<rparr>]\<rparr>"

definition sun_alloc :: "dev_table \<Rightarrow> dev_ref \<Rightarrow> SunDisk option" where
  "sun_alloc devs dev =
     (let bios = bios_geom (devs dev); len = dev_length (devs dev);
          cyl_size = cylinder_size bios;
          sun_len = ped_round_down_to len cyl_size;
          label = zero_label
            \<lparr>sun_magic := PED_CPU_TO_BE16 0xDABE, nacyl := 0, pcylcount := PED_CPU_TO_BE16 (cylinders bios),
             rspeed := PED_CPU_TO_BE16 5400, ilfact := PED_CPU_TO_BE16 1, sparecyl := 0,
             ntrks := PED_CPU_TO_BE16 (heads bios), nsect := PED_CPU_TO_BE16 (sectors bios),
             ncyl := PED_CPU_TO_BE16 (len sdiv cyl_size),
             sun_sanity := PED_SWAP32 SUN_VTOC_SANITY, sun_version := PED_SWAP32 SUN_VTOC_VERSION,
             sun_nparts := PED_CPU_TO_BE16 (int SUN_DISK_MAXPARTITIONS)\<rparr>;
          label = whole_disk sun_len label;
          label = label\<lparr>sun_info := overwrite (sun_description label) (sun_info label)\<rparr>
      in Some (ped_disk_alloc dev \<lparr>sun_length = sun_len, raw_label = sun_compute_checksum label\<rparr>))"

definition sun_partition_new ::
    "SunDisk \<Rightarrow> nat \<Rightarrow> string option \<Rightarrow> PedSector \<Rightarrow> PedSector \<Rightarrow> SunPart result" where
  "sun_partition_new d part_type fs_type start endd =
     (case ped_partition_alloc d part_type fs_type start endd None of
        Inl e \<Rightarrow> Inl e
      | Inr part \<Rightarrow>
          if ped_partition_is_active part
          then Inr (part\<lparr>p_specific := Some \<lparr>sun_type = 0, sun_boot = False, sun_root = False, sun_lvm = False,
                 sun_raid = False\<rparr>\<rparr>)
          else Inr part)"

definition upd_sun :: "(SunPartitionData \<Rightarrow> SunPartitionData) \<Rightarrow> SunPart \<Rightarrow> SunPart" where
  "upd_sun f part = part\<lparr>p_specific := map_option f (p_specific part)\<rparr>"

definition sun_data :: "SunPart \<Rightarrow> SunPartitionData" where
  "sun_data part = the (p_specific part)"

section \<open>Types and flags\<close>

definition sun_type_for :: "SunPartitionData \<Rightarrow> string option \<Rightarrow> byte" where
  "sun_type_for data fs_type =
     (if sun_boot data then 0x1
      else if sun_root data then 0x2
      else if sun_lvm data then 0x8e
      else if sun_raid data then 0xfd
      else case fs_type of
        None \<Rightarrow> 0x83
      | Some name \<Rightarrow> if is_linux_swap name then 0x82 else if name = ''ufs'' then 0x6 else 0x83)"

definition sun_partition_set_system :: "SunPart \<Rightarrow> string option \<Rightarrow> SunPart result" where
  "sun_partition_set_system part fs_type =
     Inr (upd_sun (\<lambda>x. x\<lparr>sun_type := sun_type_for x fs_type\<rparr>) (part\<lparr>p_fs := fs_type\<rparr>))"

text \<open>Setting one of the four flags clears the others.\<close>

definition sun_flags :: "bool \<Rightarrow> bool \<Rightarrow> bool \<Rightarrow> bool \<Rightarrow> SunPartitionData \<Rightarrow> SunPartitionData" where
  "sun_flags boot rt lvm raid x = x\<lparr>sun_boot := boot, sun_root := rt, sun_lvm := lvm, sun_raid := raid\<rparr>"

definition sun_set_flag :: "SunPartitionData \<Rightarrow> int \<Rightarrow> bool \<Rightarrow> SunPartitionData option" where
  "sun_set_flag x flag state =
     (if flag = PED_PARTITION_BOOT then
        Some (if state then sun_flags True False False False x else x\<lparr>sun_boot := False\<rparr>)
      else if flag = PED_PARTITION_ROOT then
        Some (if state then sun_flags False True False False x else x\<lparr>sun_root := False\<rparr>)
      else if flag = PED_PARTITION_LVM then
        Some (if state then sun_flags False False True False x else x\<lparr>sun_lvm := False\<rparr>)
      else if flag = PED_PARTITION_RAID then
        Some (if state then sun_flags False False False True x else x\<lparr>sun_raid := False\<rparr>)
      else None)"

definition sun_partition_set_flag :: "SunDisk \<Rightarrow> addr \<Rightarrow> int \<Rightarrow> bool \<Rightarrow> bool \<times> SunDisk" where
  "sun_partition_set_flag d part flag state =
     (case sun_set_flag (sun_data (node d part)) flag state of
        None \<Rightarrow> (False, d)
      | Some x \<Rightarrow>
          (case sun_partition_set_system ((node d part)\<lparr>p_specific := Some x\<rparr>) (p_fs (node d part)) of
             Inl _ \<Rightarrow> (False, d)
           | Inr p \<Rightarrow> (True, upd_node part (\<lambda>_. p) d)))"

definition sun_partition_get_flag :: "SunPart \<Rightarrow> int \<Rightarrow> bool" where
  "sun_partition_get_flag part flag =
     (let x = sun_data part in
      if flag = PED_PARTITION_BOOT then sun_boot x
      else if flag = PED_PARTITION_ROOT then sun_root x
      else if flag = PED_PARTITION_LVM then sun_lvm x
      else if flag = PED_PARTITION_RAID then sun_raid x
      else False)"

definition sun_partition_is_flag_available :: "SunPart \<Rightarrow> int \<Rightarrow> bool" where
  "sun_partition_is_flag_available part flag \<longleftrightarrow>
     flag \<in> {PED_PARTITION_BOOT, PED_PARTITION_ROOT, PED_PARTITION_LVM, PED_PARTITION_RAID}"

section \<open>Alignment\<close>

definition sun_get_max_supported_partition_count :: "SunDisk \<Rightarrow> int" where
  "sun_get_max_supported_partition_count d = int SUN_DISK_MAXPARTITIONS"

definition sun_get_max_primary_partition_count :: "SunDisk \<Rightarrow> int" where
  "sun_get_max_primary_partition_count d = int SUN_DISK_MAXPARTITIONS"

definition sun_get_partition_alignment :: "dev_table \<Rightarrow> SunDisk \<Rightarrow> PedAlignment option" where
  "sun_get_partition_alignment devs d = ped_alignment_new 0 (cylinder_size (hw_geom (devs (d_dev d))))"

definition sun_max_geom :: "SunDisk \<Rightarrow> PedGeometry result" where
  "sun_max_geom d = ped_geometry_init uninit_geometry (d_dev d) 0 (sun_length (d_specific d))"

definition get_strict_constraint :: "dev_table \<Rightarrow> SunDisk \<Rightarrow> PedConstraint option" where
  "get_strict_constraint devs d =
     (let block = cylinder_size (bios_geom (devs (d_dev d)))
      in constraint_of (ped_alignment_init undefined 0 block) (ped_alignment_init undefined (- 1) block)
           (sun_max_geom d) (sun_max_geom d) (dev_length (devs (d_dev d))))"

definition get_lax_constraint :: "dev_table \<Rightarrow> SunDisk \<Rightarrow> PedConstraint option" where
  "get_lax_constraint devs d =
     (let block = cylinder_size (bios_geom (devs (d_dev d)))
      in constraint_of (ped_alignment_init undefined 0 block) ped_alignment_any
           (sun_max_geom d) (sun_max_geom d) (dev_length (devs (d_dev d))))"

definition sun_partition_align ::
    "dev_table \<Rightarrow> SunDisk \<Rightarrow> addr \<Rightarrow> PedConstraint option \<Rightarrow> PedGeometry result" where
  "sun_partition_align devs d part con =
     (case ped_partition_attempt_align devs (node d part) con (get_strict_constraint devs d) of
        Some g \<Rightarrow> Inr g
      | None \<Rightarrow>
     (case ped_partition_attempt_align devs (node d part) con (get_lax_constraint devs d) of
        Some g \<Rightarrow> Inr g
      | None \<Rightarrow> Inl (Some (error_cancel ''Unable to satisfy all constraints on the partition.'' []))))"

section \<open>Numbering and metadata\<close>

definition whole_disk_warning :: PedException where
  "whole_disk_warning = \<lparr>ex_type = PED_EXCEPTION_WARNING, ex_options = PED_EXCEPTION_IGNORE_CANCEL,
     ex_format = ''The Whole Disk partition is the only available one left.  Generally, it is not a good idea to overwrite this partition with a real one.  Solaris may not be able to boot without it, and SILO (the sparc boot loader) appreciates it as well.'',
     ex_args = []\<rparr>"

text \<open>The numbers are tried in their order, that of the whole disk last and only when the user agrees.\<close>

definition sun_partition_enumerate :: "PedExceptionHandler \<Rightarrow> SunDisk \<Rightarrow> addr \<Rightarrow> bool \<times> int" where
  "sun_partition_enumerate ask d part =
     (if p_num (node d part) \<noteq> - 1 then (True, p_num (node d part))
      else
        let whole = int WHOLE_DISK_PART + 1
        in case find (\<lambda>i. i \<noteq> whole \<and> ped_disk_get_partition d i = None) [1 .. int SUN_DISK_MAXPARTITIONS] of
             Some i \<Rightarrow> (True, i)
           | None \<Rightarrow>
               if ped_disk_get_partition d whole = None \<and> ask whole_disk_warning = PED_EXCEPTION_IGNORE
               then (True, whole)
               else (False, p_num (node d part)))"

definition sun_partition_check :: "SunPart \<Rightarrow> unit result" where
  "sun_partition_check part = ptt_partition_max_start_len ''sun'' (p_geom part)"

text \<open>The table without the operations that call back; \<open>ped_partition_new\<close> uses two of its entries.\<close>

definition sun_base_ops :: "PedExceptionHandler \<Rightarrow> (SunPartitionData option, SunDiskData) PedPartOps" where
  "sun_base_ops ask = \<lparr>t_name = ''sun'', t_features = 0,
     op_partition_new = sun_partition_new,
     op_partition_duplicate = (\<lambda>_ _. Inl None),
     op_partition_set_system = sun_partition_set_system,
     op_partition_align = sun_partition_align,
     op_partition_enumerate = sun_partition_enumerate ask,
     op_partition_check = sun_partition_check,
     op_get_max_primary_partition_count = sun_get_max_primary_partition_count,
     op_partition_is_flag_available = sun_partition_is_flag_available,
     op_partition_set_flag = sun_partition_set_flag,
     op_partition_get_flag = sun_partition_get_flag\<rparr>"

definition sun_partition_duplicate :: "PedExceptionHandler \<Rightarrow> SunDisk \<Rightarrow> SunPart \<Rightarrow> SunPart result" where
  "sun_partition_duplicate ask d part =
     (case ped_partition_new (sun_base_ops ask) d (p_type part) (p_fs part) (g_start (p_geom part)) (g_end (p_geom part)) of
        Inl e \<Rightarrow> Inl e
      | Inr new_part \<Rightarrow>
          let old = sun_data part
          in Inr (upd_sun (\<lambda>x. x\<lparr>sun_type := sun_type old, sun_boot := sun_boot old, sun_root := sun_root old,
                 sun_lvm := sun_lvm old, sun_raid := sun_raid old\<rparr>) (new_part\<lparr>p_num := p_num part\<rparr>)))"

definition sun_part_ops :: "PedExceptionHandler \<Rightarrow> (SunPartitionData option, SunDiskData) PedPartOps" where
  "sun_part_ops ask = (sun_base_ops ask)\<lparr>op_partition_duplicate := sun_partition_duplicate ask\<rparr>"

text \<open>The sectors behind the last whole cylinder; there need not be any.\<close>

definition sun_alloc_metadata ::
    "dev_table \<Rightarrow> PedExceptionHandler \<Rightarrow> SunDisk \<Rightarrow> bool \<times> SunDisk" where
  "sun_alloc_metadata devs ask d =
     (let len = dev_length (devs (d_dev d)); sun_len = sun_length (d_specific d)
      in if len \<le> 0 \<or> sun_len \<le> 0 \<or> len = sun_len then (False, d)
         else case ped_partition_new (sun_part_ops ask) d PED_PARTITION_METADATA None sun_len (len - 1) of
           Inl _ \<Rightarrow> (False, d)
         | Inr p \<Rightarrow>
             (case alloc_node d p of (d1, new_part) \<Rightarrow>
                link_metadata (sun_part_ops ask) devs ask (ped_constraint_any devs (d_dev d)) d1 new_part))"

definition sun_disk_ops :: "PedExceptionHandler \<Rightarrow> (SunPartitionData option, SunDiskData) PedDiskOps" where
  "sun_disk_ops handler =
     (let T = sun_part_ops handler in
      \<lparr>t_name = t_name T, t_features = t_features T,
       op_partition_new = op_partition_new T,
       op_partition_duplicate = op_partition_duplicate T,
       op_partition_set_system = op_partition_set_system T,
       op_partition_align = op_partition_align T,
       op_partition_enumerate = op_partition_enumerate T,
       op_partition_check = op_partition_check T,
       op_get_max_primary_partition_count = op_get_max_primary_partition_count T,
       op_partition_is_flag_available = op_partition_is_flag_available T,
       op_partition_set_flag = op_partition_set_flag T,
       op_partition_get_flag = op_partition_get_flag T,
       op_alloc_metadata = sun_alloc_metadata\<rparr>)"

definition sun_duplicate :: "dev_table \<Rightarrow> PedExceptionHandler \<Rightarrow> SunDisk \<Rightarrow> SunDisk option" where
  "sun_duplicate devs ask d =
     (case ped_disk_new_fresh (sun_disk_ops ask) devs ask (sun_alloc devs) (d_dev d) of
        None \<Rightarrow> None
      | Some new_disk \<Rightarrow> Some (new_disk\<lparr>d_specific := d_specific d\<rparr>))"

section \<open>The operations table\<close>

lemma sun_part_ops_simps [simp]:
  "t_features (sun_part_ops a) = 0" "op_partition_new (sun_part_ops a) = sun_partition_new"
  "op_partition_set_system (sun_part_ops a) = sun_partition_set_system"
  by (simp_all add: sun_part_ops_def sun_base_ops_def)

lemma sun_disk_ops_simps [simp]:
  "t_features (sun_disk_ops a) = 0" "op_partition_new (sun_disk_ops a) = sun_partition_new"
  "op_partition_align (sun_disk_ops a) = sun_partition_align"
  "op_partition_set_system (sun_disk_ops a) = sun_partition_set_system"
  "op_alloc_metadata (sun_disk_ops a) = sun_alloc_metadata"
  "op_partition_enumerate (sun_disk_ops a) = sun_partition_enumerate a"
  "op_partition_check (sun_disk_ops a) = sun_partition_check"
  "op_partition_set_flag (sun_disk_ops a) = sun_partition_set_flag"
  "op_partition_get_flag (sun_disk_ops a) = sun_partition_get_flag"
  "op_partition_is_flag_available (sun_disk_ops a) = sun_partition_is_flag_available"
  "op_get_max_primary_partition_count (sun_disk_ops a) = sun_get_max_primary_partition_count"
  by (simp_all add: sun_disk_ops_def sun_part_ops_def sun_base_ops_def Let_def)

lemma sun_placeholder:
  assumes "s \<le> e" "ty \<noteq> PED_PARTITION_EXTENDED" "ty \<noteq> PED_PARTITION_LOGICAL" "\<not> is_active ty"
    "t_features T = 0" "op_partition_new T = sun_partition_new"
  shows "ped_partition_new T d ty None s e =
     Inr \<lparr>p_geom = \<lparr>g_dev = d_dev d, g_start = s, g_length = e - s + 1, g_end = e\<rparr>, p_num = - 1,
       p_type = ty, p_fs = None, p_list = [], p_specific = None\<rparr>"
  using assms by (simp add: ped_partition_new_def ped_disk_type_check_feature_def sun_partition_new_def
      ped_partition_alloc_def geom_simps uninit_geometry_def ped_partition_is_active_def is_active_def)

lemma sun_new_span: "ped_partition_new (sun_disk_ops a) d ty fs s e = Inr p \<Longrightarrow> span_ok (p_geom p)"
  by (auto simp: ped_partition_new_def sun_partition_new_def ped_partition_alloc_def sun_partition_set_system_def upd_sun_def
      dest!: geometry_init_span split: if_splits sum.splits option.splits)

section \<open>The label contract\<close>

text \<open>
  The label keeps the number of sectors in whole cylinders; its partitions start on a cylinder and
  end before the metadata.
\<close>

definition sun_inv :: "dev_table \<Rightarrow> SunDisk \<Rightarrow> bool" where
  "sun_inv devs d \<longleftrightarrow>
     (let block = cylinder_size (bios_geom (devs (d_dev d))) in
      0 < block \<and> block < 2 ^ 31 \<and> sun_length (d_specific d) \<le> dev_length (devs (d_dev d)))"

definition sun_allowed :: "dev_table \<Rightarrow> SunDisk \<Rightarrow> nat \<Rightarrow> PedGeometry \<Rightarrow> bool" where
  "sun_allowed devs d ty g \<longleftrightarrow>
     cylinder_size (bios_geom (devs (d_dev d))) dvd g_start g \<and> g_end g < sun_length (d_specific d)"

lemma alignment_any_init: "ped_alignment_any = ped_alignment_init undefined 0 1"
  by (simp add: ped_alignment_any_def ped_alignment_init_def abs_mod_def)

lemma sun_constraint:
  assumes inv: "sun_inv devs d"
    and i: "get_strict_constraint devs d = Some i \<or> get_lax_constraint devs d = Some i"
  shows "usable d i" "ped_constraint_is_solution i x \<Longrightarrow> sun_allowed devs d ty x"
proof -
  let ?b = "cylinder_size (bios_geom (devs (d_dev d)))"
  obtain o2 g2 where g2: "0 \<le> g2" "g2 < 2 ^ 31"
    and c: "constraint_of (ped_alignment_init undefined 0 ?b) (ped_alignment_init undefined o2 g2)
      (ped_geometry_init uninit_geometry (d_dev d) 0 (sun_length (d_specific d)))
      (ped_geometry_init uninit_geometry (d_dev d) 0 (sun_length (d_specific d))) (dev_length (devs (d_dev d))) = Some i"
  proof -
    from i show thesis
    proof
      assume "get_strict_constraint devs d = Some i"
      then show thesis
        using inv by (intro that[of ?b "- 1"]) (simp_all add: get_strict_constraint_def sun_max_geom_def sun_inv_def Let_def)
    next
      assume "get_lax_constraint devs d = Some i"
      then show thesis
        by (intro that[of 1 0]) (simp_all add: get_lax_constraint_def sun_max_geom_def Let_def alignment_any_init)
    qed
  qed
  have b: "0 < ?b" "?b < 2 ^ 31" using inv by (simp_all add: sun_inv_def Let_def)
  note u = constraint_of_usable[OF c _ b(2) g2 order.refl order.refl]
  show "usable d i" using u(1) b by simp
  show "sun_allowed devs d ty x" if "ped_constraint_is_solution i x"
    using u(3)[OF _ that] u(4)[OF _ that] b by (simp add: sun_allowed_def)
qed

lemma sun_align_sound:
  assumes al: "sun_partition_align devs d part (Some c) = Inr g" and inv: "sun_inv devs d" and c: "usable d c"
    and dev: "g_dev (geom_of d part) = d_dev d"
  shows "ped_constraint_is_solution c g \<and> geom_wf g \<and> g_dev g = d_dev d \<and> sun_allowed devs d ty g"
proof -
  obtain internal where a: "ped_partition_attempt_align devs (node d part) (Some c) internal = Some g"
    and i: "internal \<in> {get_strict_constraint devs d, get_lax_constraint devs d}"
    using al by (auto simp: sun_partition_align_def split: option.splits)
  obtain b where "internal = Some b" "ped_constraint_is_solution c g" "ped_constraint_is_solution b g"
    "geom_wf g" "g_dev g = d_dev d"
    by (rule attempt_align_sound[OF a c _ dev]) (use sun_constraint(1)[OF inv] i in auto)
  then show ?thesis using sun_constraint(2)[OF inv, of b g ty] i by auto
qed

lemma sun_metadata_contract:
  assumes ok: "table_ok devs d" and act: "lists d = actives d" and inv: "sun_inv devs d" and s: "strict ask"
    and allow: "\<forall>k. \<forall>a \<in> set (lists d k). sun_allowed devs d (type_of d a) (geom_of d a)"
  shows "meta_run devs d (snd (sun_alloc_metadata devs ask d))"
proof -
  let ?N = "dev_length (devs (d_dev d))" and ?L = "sun_length (d_specific d)"
  note start = meta_run_start[OF ok act]
  show ?thesis
  proof (cases "?N \<le> 0 \<or> ?L \<le> 0 \<or> ?N = ?L")
    case True
    then show ?thesis using start by (auto simp: sun_alloc_metadata_def Let_def)
  next
    case False
    then have L: "0 < ?L" "?L \<le> ?N - 1" using inv by (auto simp: sun_inv_def Let_def)
    let ?p = "\<lparr>p_geom = \<lparr>g_dev = d_dev d, g_start = ?L, g_length = ?N - 1 - ?L + 1, g_end = ?N - 1\<rparr>, p_num = - 1,
       p_type = PED_PARTITION_METADATA, p_fs = None, p_list = [], p_specific = (None :: SunPartitionData option)\<rparr>"
    have new: "ped_partition_new (sun_part_ops ask) d PED_PARTITION_METADATA None ?L (?N - 1) = Inr ?p"
      by (rule sun_placeholder[OF L(2)]) (simp_all add: is_active_def has_bit_def)
    obtain d1 a where al: "alloc_node d ?p = (d1, a)" by fastforce
    have res: "snd (sun_alloc_metadata devs ask d) =
        snd (link_metadata (sun_part_ops ask) devs ask (ped_constraint_any devs (d_dev d)) d1 a)"
      using False al new by (simp add: sun_alloc_metadata_def Let_def)
    have "g_end (geom_of d x) < ?L" if "x \<in> set (part_list d)" for x
      using allow[rule_format, of x False] that by (simp add: sun_allowed_def)
    then have "meta_step devs d False (part_list d) [] ?L (?N - 1)
        (snd (link_metadata (sun_part_ops ask) devs ask (ped_constraint_any devs (d_dev d)) d1 a))"
      using L by (intro metadata_step[OF ok _ s _ _ _ _ _ _ _ al]) (simp_all add: meta_type_cases)
    then show ?thesis unfolding res by (rule meta_run_step[OF start]) simp
  qed
qed

interpretation sun: disk_label "sun_disk_ops a" sun_inv sun_allowed for a
proof (unfold_locales)
  fix s e :: PedSector and ty and d :: SunDisk
  assume "s \<le> e" "ty = PED_PARTITION_FREESPACE \<or> ty = PED_PARTITION_FREESPACE + PED_PARTITION_LOGICAL"
  then show "\<exists>p. ped_partition_new (sun_disk_ops a) d ty None s e = Inr p \<and>
        p_geom p = \<lparr>g_dev = d_dev d, g_start = s, g_length = e - s + 1, g_end = e\<rparr> \<and>
        p_type p = ty \<and> p_list p = []"
    using sun_placeholder[of s e ty "sun_disk_ops a" d] by (auto simp: is_active_def has_bit_def)
next
  show "same_disk d d' \<Longrightarrow> sun_inv devs d \<Longrightarrow> sun_inv devs d'" for devs and d d' :: SunDisk
    by (simp add: sun_inv_def same_disk_def)
  show "same_disk d d' \<Longrightarrow> sun_allowed devs d ty g \<Longrightarrow> sun_allowed devs d' ty g" for devs and d d' :: SunDisk and ty g
    by (simp add: sun_allowed_def same_disk_def)
next
  fix devs part con g c and d :: SunDisk
  assume "op_partition_align (sun_disk_ops a) devs d part con = Inr g" "sun_inv devs d"
    "neighbours_ok d part" "plain_type (type_of d part)" "span_ok (geom_of d part)" "con = Some c"
    "constraint_wf c" "constraint_small c" "constraint_dev c = d_dev d" "g_dev (geom_of d part) = d_dev d"
  then show "ped_constraint_is_solution c g \<and> geom_wf g \<and> g_dev g = d_dev d \<and> sun_allowed devs d (type_of d part) g"
    using sun_align_sound[of devs d part c g] by (simp add: usable_def)
next
  fix devs ask r and d d' :: SunDisk
  assume b: "table_ok devs d" "update_mode d = 1" "lists d = actives d" "sun_inv devs d"
    "\<forall>k. \<forall>a \<in> set (lists d k). sun_allowed devs d (type_of d a) (geom_of d a)" "strict ask"
    and "op_alloc_metadata (sun_disk_ops a) devs ask d = (r, d')"
  then have "d' = snd (sun_alloc_metadata devs ask d)" by simp
  then show "table_ok devs d' \<and> actives d' = actives d \<and> nonfree d' = lists d' \<and>
      (\<forall>a < next_addr d. core d' a = core d a) \<and> same_disk d d' \<and> update_mode d' = update_mode d
      \<and> next_addr d \<le> next_addr d'"
    using sun_metadata_contract[OF b(1,3,4,6,5)] by (simp add: meta_run_def del: lists_False)
qed

end
