(* ===== verification/Sun_Table.thy ===== *)
theory Sun_Table
  imports Sun Gpt_Table Disk_Attrs
begin

text \<open>
  The theorems about Sun partition tables: what follows from the label contract, flags and types,
  numbering, and the checksum of the label.
\<close>

abbreviation sun_ok :: "dev_table \<Rightarrow> SunDisk \<Rightarrow> bool" where
  "sun_ok \<equiv> disk_ok sun_inv sun_allowed"

section \<open>Fresh tables\<close>

lemma sun_clobber [simp]:
  "sun_inv devs (d\<lparr>needs_clobber := b\<rparr>) = sun_inv devs d"
  "sun_allowed devs (d\<lparr>needs_clobber := b\<rparr>) ty g = sun_allowed devs d ty g"
  by (simp_all add: sun_inv_def sun_allowed_def)

lemma round_down_le: "0 \<le> n \<Longrightarrow> 0 < b \<Longrightarrow> ped_round_down_to n b \<le> n"
  using abs_mod_bounds(1)[of b n] by (simp add: ped_round_down_to_def)

lemma sun_fresh_ok:
  assumes b: "0 < cylinder_size (bios_geom (devs dev))" "cylinder_size (bios_geom (devs dev)) < 2 ^ 31"
    and n: "0 < dev_length (devs dev)" and s: "strict ask"
  shows "\<exists>d. ped_disk_new_fresh (sun_disk_ops a) devs ask (sun_alloc devs) dev = Some d \<and> sun_ok devs d
    \<and> (\<forall>k. actives d k = []) \<and> needs_clobber d \<and> d_dev d = dev
    \<and> sun_length (d_specific d) = ped_round_down_to (dev_length (devs dev)) (cylinder_size (bios_geom (devs dev)))"
proof -
  obtain d0 where d0: "sun_alloc devs dev = Some d0" "bare devs dev d0" "d_dev d0 = dev"
    "sun_length (d_specific d0) = ped_round_down_to (dev_length (devs dev)) (cylinder_size (bios_geom (devs dev)))"
    using n by (simp add: sun_alloc_def Let_def bare_def ped_disk_alloc_def)
  have "sun_inv devs d0" using d0(3,4) b n round_down_le[of "dev_length (devs dev)"] by (simp add: sun_inv_def)
  from sun.fresh_disk_ok[where alloc = "sun_alloc devs", OF d0(1,2) this s, of a] show ?thesis
    using d0(4) by auto
qed

section \<open>A concrete table\<close>

text \<open>9 cylinders of 1008 sectors and 928 sectors behind them.\<close>

definition sun_demo_dev :: PedDevice where
  "sun_demo_dev = demo_dev\<lparr>bios_geom := \<lparr>cylinders = 9, heads = 16, sectors = 63\<rparr>\<rparr>"

abbreviation sun_demo_devs :: dev_table where
  "sun_demo_devs \<equiv> \<lambda>_. sun_demo_dev"

text \<open>The table does not depend on the raw label \<open>l\<close>.\<close>

definition sun_demo_alloc :: "SunRawLabel \<Rightarrow> dev_ref \<Rightarrow> SunDisk option" where
  "sun_demo_alloc l dev = Some (ped_disk_alloc dev \<lparr>sun_length = 9072, raw_label = l\<rparr>)"

definition sun_demo_fresh :: "SunRawLabel \<Rightarrow> SunDisk" where
  "sun_demo_fresh l = (the (ped_disk_new_fresh (sun_disk_ops demo_ask) sun_demo_devs demo_ask (sun_demo_alloc l) 0))
     \<lparr>needs_clobber := False\<rparr>"

definition sun_demo_any :: PedConstraint where
  "sun_demo_any = the (ped_constraint_any sun_demo_devs 0)"

definition sun_demo_part :: "SunRawLabel \<Rightarrow> SunPart" where
  "sun_demo_part l = the (ptr_of (ped_partition_new (sun_disk_ops demo_ask) (sun_demo_fresh l) PED_PARTITION_NORMAL None 1100 4000))"

definition sun_demo_new :: "SunRawLabel \<Rightarrow> SunDisk \<times> addr" where
  "sun_demo_new l = alloc_node (sun_demo_fresh l) (sun_demo_part l)"

definition sun_demo_add :: "SunRawLabel \<Rightarrow> unit result \<times> SunDisk" where
  "sun_demo_add l = ped_disk_add_partition (sun_disk_ops demo_ask) sun_demo_devs demo_ask (snd (sun_demo_new l))
     (Some sun_demo_any) (fst (sun_demo_new l))"

lemma sun_demo_dev_fields:
  "cylinder_size (bios_geom sun_demo_dev) = 1008" "dev_length sun_demo_dev = 10000"
  by (simp_all add: sun_demo_dev_def demo_dev_def cylinder_size_def)

lemma sun_demo_fresh_ok:
  "sun_ok sun_demo_devs (sun_demo_fresh l)" "\<not> needs_clobber (sun_demo_fresh l)" "d_dev (sun_demo_fresh l) = 0"
proof -
  have "bare sun_demo_devs 0 (the (sun_demo_alloc l 0))" "sun_inv sun_demo_devs (the (sun_demo_alloc l 0))"
    by (simp_all add: sun_demo_alloc_def bare_def ped_disk_alloc_def sun_inv_def sun_demo_dev_fields Let_def)
  from sun.fresh_disk_ok[where alloc = "sun_demo_alloc l", OF _ this demo_ask_strict, of demo_ask]
  show "sun_ok sun_demo_devs (sun_demo_fresh l)" "\<not> needs_clobber (sun_demo_fresh l)" "d_dev (sun_demo_fresh l) = 0"
    by (auto simp: sun_demo_fresh_def disk_ok_clobber sun_demo_alloc_def)
qed

lemma sun_demo_any_usable: "d_dev d = 0 \<Longrightarrow> usable d sun_demo_any"
proof -
  assume d: "d_dev d = 0"
  have "0 < dev_length (sun_demo_devs 0)" by (simp add: sun_demo_dev_fields)
  then obtain c where "ped_constraint_any sun_demo_devs 0 = Some c" "constraint_wf c" "constraint_small c"
    "constraint_dev c = 0"
    by (rule constraint_any_usable)
  then show ?thesis using d by (simp add: usable_def sun_demo_any_def)
qed

lemma sun_demo_new_ok:
  "sun_ok sun_demo_devs (fst (sun_demo_new l))" "unlisted (fst (sun_demo_new l)) (snd (sun_demo_new l))"
  "type_of (fst (sun_demo_new l)) (snd (sun_demo_new l)) = PED_PARTITION_NORMAL"
  "g_dev (geom_of (fst (sun_demo_new l)) (snd (sun_demo_new l))) = d_dev (fst (sun_demo_new l))"
  "\<not> needs_clobber (fst (sun_demo_new l))" "usable (fst (sun_demo_new l)) sun_demo_any"
proof -
  obtain p where new: "ped_partition_new (sun_disk_ops demo_ask) (sun_demo_fresh l) PED_PARTITION_NORMAL None 1100 4000 = Inr p"
    "p_type p = PED_PARTITION_NORMAL" "g_dev (p_geom p) = d_dev (sun_demo_fresh l)"
    by (auto simp: ped_partition_new_def sun_partition_new_def ped_partition_alloc_def geom_simps
        ped_partition_is_active_def has_bit_def sun_partition_set_system_def upd_sun_def)
  have p: "sun_demo_part l = p" by (simp add: sun_demo_part_def new)
  have al: "alloc_node (sun_demo_fresh l) p = (fst (sun_demo_new l), snd (sun_demo_new l))" by (simp add: sun_demo_new_def p)
  note a = sun.alloc_node_disk_ok[OF sun_demo_fresh_ok(1) al sun_new_span[OF new(1)]]
  have s: "d_dev (fst (sun_demo_new l)) = 0" "\<not> needs_clobber (fst (sun_demo_new l))"
    using a sun_demo_fresh_ok by (simp_all add: same_disk_def)
  show "sun_ok sun_demo_devs (fst (sun_demo_new l))" "unlisted (fst (sun_demo_new l)) (snd (sun_demo_new l))" using a by simp_all
  show "type_of (fst (sun_demo_new l)) (snd (sun_demo_new l)) = PED_PARTITION_NORMAL"
    "g_dev (geom_of (fst (sun_demo_new l)) (snd (sun_demo_new l))) = d_dev (fst (sun_demo_new l))"
    using a new by (simp_all add: same_disk_def)
  show "\<not> needs_clobber (fst (sun_demo_new l))" "usable (fst (sun_demo_new l)) sun_demo_any"
    using s sun_demo_any_usable by simp_all
qed

lemma sun_demo_add_ok: "fst (sun_demo_add l) = Inr ()"
  by code_simp

definition sun_flag_demo :: "SunRawLabel \<Rightarrow> SunDisk" where
  "sun_flag_demo l = \<lparr>d_dev = 0, part_list = [0],
     d_heap = [0 \<mapsto> \<lparr>p_geom = \<lparr>g_dev = 0, g_start = 1008, g_length = 3000, g_end = 4007\<rparr>, p_num = 1,
                     p_type = PED_PARTITION_NORMAL, p_fs = None, p_list = [],
                     p_specific = Some \<lparr>sun_type = 1, sun_boot = True, sun_root = False, sun_lvm = False, sun_raid = False\<rparr>\<rparr>],
     next_addr = 1, needs_clobber = False, update_mode = 0, d_specific = \<lparr>sun_length = 9072, raw_label = l\<rparr>\<rparr>"

section \<open>Properties\<close>



text \<open>At most one flag is set, and the type is the one that belongs to it.\<close>

definition sun_one_flag :: "SunPart \<Rightarrow> bool" where
  "sun_one_flag p \<longleftrightarrow> (let x = sun_data p in
     length (filter (\<lambda>b. b) [sun_boot x, sun_root x, sun_lvm x, sun_raid x]) \<le> 1)"

definition sun_data_ok :: "SunPart \<Rightarrow> bool" where
  "sun_data_ok p \<longleftrightarrow> sun_one_flag p \<and> sun_type (sun_data p) = sun_type_for (sun_data p) (p_fs p)"

lemma sun_type_stored: "sun_type_for x fs \<noteq> 0 \<and> sun_type_for x fs \<noteq> WHOLE_DISK_ID"
  by (auto simp: sun_type_for_def split: option.split)

text \<open>A new partition without a file system has the type 0, which marks an unused entry.\<close>

lemma sun_new_data:
  assumes "ped_partition_new (sun_disk_ops a) d PED_PARTITION_NORMAL fs s e = Inr p"
  shows "p_specific p \<noteq> None" "sun_one_flag p" "if fs = None then sun_type (sun_data p) = 0 else sun_data_ok p"
proof -
  let ?x = "\<lparr>sun_type = 0, sun_boot = False, sun_root = False, sun_lvm = False, sun_raid = False\<rparr>"
  have "p_specific p = Some (if fs = None then ?x else ?x\<lparr>sun_type := sun_type_for ?x fs\<rparr>) \<and> p_fs p = fs"
    using assms
    by (auto simp: ped_partition_new_def sun_partition_new_def ped_partition_alloc_def sun_partition_set_system_def upd_sun_def
        ped_partition_is_active_def has_bit_def split: if_splits sum.splits)
  then show "p_specific p \<noteq> None" "sun_one_flag p" "if fs = None then sun_type (sun_data p) = 0 else sun_data_ok p"
    by (auto simp: sun_data_ok_def sun_one_flag_def sun_data_def sun_type_for_def split: option.split)
qed

lemma sun_set_flag_cases:
  "flag = PED_PARTITION_BOOT \<or> flag = PED_PARTITION_ROOT \<or> flag = PED_PARTITION_LVM \<or> flag = PED_PARTITION_RAID \<Longrightarrow>
    \<exists>y. sun_set_flag x flag state = Some y"
  by (auto simp: sun_set_flag_def)

text \<open>
  Flags of a Sun partition, set with \<open>ped_partition_set_flag\<close>. A flag that the label does not
  have is refused and the table stays as it is. Otherwise the flag is read back; setting it clears
  the other three, so that at most one flag is ever set; the type in the partition is the one that
  belongs to this flag, and never one of the two types (0 and 5) that \<open>sun_read\<close> would skip.
\<close>
theorem sun_flag_decides_type:
  assumes "p_specific (node d part) \<noteq> None" "sun_one_flag (node d part)"
    and "ped_partition_set_flag (sun_disk_ops a) part flag state d = (r, d')"
  shows "if flag \<in> {PED_PARTITION_BOOT, PED_PARTITION_ROOT, PED_PARTITION_LVM, PED_PARTITION_RAID}
    then r = Inr () \<and> sun_data_ok (node d' part) \<and>
      sun_type (sun_data (node d' part)) \<notin> {0, WHOLE_DISK_ID} \<and>
      (\<forall>f \<in> {PED_PARTITION_BOOT, PED_PARTITION_ROOT, PED_PARTITION_LVM, PED_PARTITION_RAID}.
         ped_partition_get_flag (sun_disk_ops a) d' part f \<longleftrightarrow>
           (if f = flag then state else \<not> state \<and> ped_partition_get_flag (sun_disk_ops a) d part f))
    else isl r \<and> d' = d"
proof -
  obtain x where x: "p_specific (node d part) = Some x" using assms(1) by blast
  show ?thesis
  proof (cases "flag \<in> {PED_PARTITION_BOOT, PED_PARTITION_ROOT, PED_PARTITION_LVM, PED_PARTITION_RAID}")
    case False
    then show ?thesis
      using assms(3) by (auto simp: ped_partition_set_flag_def sun_partition_is_flag_available_def)
  next
    case True
    then obtain y where y: "sun_set_flag x flag state = Some y" using sun_set_flag_cases by blast
    let ?z = "y\<lparr>sun_type := sun_type_for y (p_fs (node d part))\<rparr>"
    have d': "r = Inr ()" "node d' part = (node d part)\<lparr>p_specific := Some ?z\<rparr>"
      using assms(3) True y x
      by (auto simp: ped_partition_set_flag_def sun_partition_is_flag_available_def sun_partition_set_flag_def
          sun_partition_set_system_def upd_sun_def sun_data_def status_def node_def upd_node_def)
    have t: "sun_type_for ?z fs = sun_type_for y fs" for fs by (simp add: sun_type_for_def)
    have one: "length (filter (\<lambda>b. b) [sun_boot x, sun_root x, sun_lvm x, sun_raid x]) \<le> 1"
      using assms(2) x by (simp add: sun_one_flag_def sun_data_def Let_def)
    have "sun_one_flag (node d' part)"
      using one y True unfolding d' sun_one_flag_def sun_data_def Let_def
      by (auto simp: sun_set_flag_def sun_flags_def split: if_splits)
    then have "sun_data_ok (node d' part)" by (simp add: sun_data_ok_def d' sun_data_def t)
    moreover have "ped_partition_get_flag (sun_disk_ops a) d' part f \<longleftrightarrow>
           (if f = flag then state else \<not> state \<and> ped_partition_get_flag (sun_disk_ops a) d part f)"
      if "f \<in> {PED_PARTITION_BOOT, PED_PARTITION_ROOT, PED_PARTITION_LVM, PED_PARTITION_RAID}" for f
      using that True y x
      by (cases state) (auto simp: ped_partition_get_flag_def d' sun_partition_get_flag_def sun_data_def sun_set_flag_def
          sun_flags_def split: if_splits)
    moreover have "sun_type (sun_data (node d' part)) \<notin> {0, WHOLE_DISK_ID}"
      using sun_type_stored[of y "p_fs (node d part)"] by (simp add: d' sun_data_def)
    ultimately show ?thesis using True d'(1) by simp
  qed
qed

theorem sun_flag_decides_type_witness:
  "sun_data_ok (node (snd (ped_partition_set_flag (sun_disk_ops demo_ask) 0 PED_PARTITION_LVM True (sun_flag_demo zero_label))) 0)"
proof -
  have "p_specific (node (sun_flag_demo zero_label) 0) \<noteq> None" "sun_one_flag (node (sun_flag_demo zero_label) 0)"
    by (simp_all add: sun_flag_demo_def node_def sun_one_flag_def sun_data_def)
  from sun_flag_decides_type[OF this, of demo_ask PED_PARTITION_LVM True] show ?thesis
    by (cases "ped_partition_set_flag (sun_disk_ops demo_ask) 0 PED_PARTITION_LVM True (sun_flag_demo zero_label)") simp
qed

text \<open>
  The number a new partition gets: a free one from 1 to 8, and 3 only when no other is free and the
  user accepts to overwrite the partition that spans the disk.
\<close>

lemma sun_numbering:
  assumes "sun_partition_enumerate ask d part = (True, n)" "p_num (node d part) = - 1"
  shows "1 \<le> n \<and> n \<le> 8 \<and> ped_disk_get_partition d n = None \<and>
    (n = 3 \<longrightarrow> ask whole_disk_warning = PED_EXCEPTION_IGNORE \<and>
       (\<forall>i. 1 \<le> i \<and> i \<le> 8 \<and> i \<noteq> 3 \<longrightarrow> ped_disk_get_partition d i \<noteq> None))"
proof (cases "find (\<lambda>i. i \<noteq> 3 \<and> ped_disk_get_partition d i = None) [1 .. 8]")
  case None
  then have n: "n = 3" "ped_disk_get_partition d 3 = None" "ask whole_disk_warning = PED_EXCEPTION_IGNORE"
    using assms by (auto simp: sun_partition_enumerate_def Let_def split: if_splits)
  have "\<forall>i \<in> {1..8}. i = 3 \<or> ped_disk_get_partition d i \<noteq> None"
    using None unfolding find_None_iff set_upto by (auto simp del: One_nat_def)
  then show ?thesis using n by auto
next
  case (Some i)
  then have "n = i" using assms by (simp add: sun_partition_enumerate_def Let_def)
  then show ?thesis using find_SomeD[OF Some] unfolding set_upto by auto
qed

end
