(* ===== verification/Sun_Attrs.thy ===== *)
theory Sun_Attrs
  imports Label_Attrs Sun_Table
begin

text \<open>
  The entries of \<open>sun_disk_ops\<close> (\<open>labels/sun.c\<close>) that the wrappers of \<open>disk.c\<close> use: Sun tables have no
  flags, names or identifiers, but a grain for partitions of their own.
\<close>

definition sun_attr_ops :: "(SunPartitionData option, SunDiskData) PedAttrOps" where
  "sun_attr_ops = (no_attr_ops ''sun'')\<lparr>op_get_partition_alignment := Some sun_get_partition_alignment\<rparr>"

lemma sun_flag_unavailable [simp]: "\<not> ped_disk_is_flag_available sun_attr_ops d flag"
  by (simp add: ped_disk_is_flag_available_def sun_attr_ops_def no_attr_ops_def)

lemma sun_features [simp]: "\<not> ped_disk_type_check_feature (sun_disk_ops a) k"
  by (simp add: ped_disk_type_check_feature_def has_bit_def)

interpretation sun_flags: table_flags "sun_disk_ops a" sun_inv sun_allowed sun_attr_ops for a
  by unfold_locales (simp_all add: ped_disk_get_flag_def)

interpretation sun_attrs: partition_attrs "sun_disk_ops a" sun_attr_ops "\<lambda>p. p_specific p \<noteq> None" "\<lambda>n. n" for a
  by unfold_locales simp_all

text \<open>
  The grain that \<open>ped_disk_get_partition_alignment\<close> returns is a cylinder of the hardware geometry,
  while partitions are placed on cylinders of the BIOS geometry: the two need not agree.
\<close>

lemma sun_grain:
  assumes "0 < cylinder_size (hw_geom (devs (d_dev d)))" "cylinder_size (hw_geom (devs (d_dev d))) < 2 ^ 31"
  obtains g where "ped_disk_get_partition_alignment sun_attr_ops devs d = Some g"
    "grain_size g = cylinder_size (hw_geom (devs (d_dev d)))"
  using assms by (auto simp: ped_disk_get_partition_alignment_def sun_attr_ops_def sun_get_partition_alignment_def
      ped_alignment_new_def ped_alignment_init_def)

end
