(* ===== verification/Sun_Disk.thy ===== *)
theory Sun_Disk
  imports Sun_Table Filesys
begin

text \<open>
  The Sun label on a device (\<open>libparted/labels/sun.c\<close>): probing, reading and writing sector 0. The
  label is the structure \<open>SunRawLabel\<close> of theory \<open>Sun\<close> in memory; what is written is found, and the
  entries that are read are the partitions of the table that was written.
\<close>

section \<open>Probing\<close>

text \<open>A label with the magic number and a wrong checksum throws an exception; it is not found either.\<close>

definition sun_probe :: "'s PedDeviceArchOps \<Rightarrow> dev_ref \<Rightarrow> 's io_state \<Rightarrow> bool" where
  "sun_probe ops dev st =
     (case ptt_read_sector ops dev 0 st of
        None \<Rightarrow> False
      | Some s0 \<Rightarrow>
          let label = sun_label_of_bytes s0
          in if PED_BE16_TO_CPU (sun_magic label) \<noteq> uint SUN_DISK_MAGIC then False
             else sun_verify_checksum label)"

section \<open>Reading\<close>

text \<open>
  \<open>_check_geometry_sanity\<close> may replace the geometry of the device. The product of the three numbers
  of the label is taken in \<open>int\<close> by the code: the definition is the code's as long as it fits.
\<close>

definition geometry_mismatch :: "PedCHSGeometry \<Rightarrow> PedCHSGeometry \<Rightarrow> PedException" where
  "geometry_mismatch dev lab = \<lparr>ex_type = PED_EXCEPTION_WARNING, ex_options = PED_EXCEPTION_IGNORE_CANCEL,
     ex_format = ''The disk CHS geometry (%d,%d,%d) reported by the operating system does not match the geometry stored on the disk label (%d,%d,%d).'',
     ex_args = [AInt (cylinders dev), AInt (heads dev), AInt (sectors dev),
       AInt (cylinders lab), AInt (heads lab), AInt (sectors lab)]\<rparr>"

definition label_too_big :: "PedDevice \<Rightarrow> PedException" where
  "label_too_big dev = \<lparr>ex_type = PED_EXCEPTION_WARNING, ex_options = PED_EXCEPTION_IGNORE_CANCEL,
     ex_format = ''The disk label describes a disk bigger than %s.'', ex_args = [AStr (dev_path dev)]\<rparr>"

definition label_chs :: "SunRawLabel \<Rightarrow> PedCHSGeometry" where
  "label_chs l = \<lparr>cylinders = PED_BE16_TO_CPU (pcylcount l), heads = PED_BE16_TO_CPU (ntrks l),
     sectors = PED_BE16_TO_CPU (nsect l)\<rparr>"

definition check_geometry_sanity ::
    "PedExceptionHandler \<Rightarrow> dev_ref \<Rightarrow> SunRawLabel \<Rightarrow> 's io_state \<Rightarrow> bool \<times> 's io_state" where
  "check_geometry_sanity ask dev label st =
     (let lab = label_chs label;
          hw = hw_geom (dev_of st dev);
          st = (if sectors lab = sectors hw \<and> heads lab = heads hw
                then upd_dev dev (bios_geom_update (\<lambda>_. hw)) st else st);
          bios = bios_geom (dev_of st dev)
      in if cylinders lab = 0 \<or> heads lab = 0 \<or> sectors lab = 0 then (False, st)
         else if sectors lab = sectors bios \<and> heads lab = heads bios then (True, st)
         else if ask (geometry_mismatch bios lab) = PED_EXCEPTION_CANCEL then (False, st)
         else
           let st = upd_dev dev (bios_geom_update (\<lambda>_. lab)) st
           in (\<not> (sectors lab * heads lab * cylinders lab > dev_length (dev_of st dev)
                   \<and> ask (label_too_big (dev_of st dev)) \<noteq> PED_EXCEPTION_IGNORE), st))"

text \<open>What an entry says of its partition: type, first and last sector. Some are skipped.\<close>

definition sun_entry :: "PedSector \<Rightarrow> SunRawLabel \<Rightarrow> nat \<Rightarrow> (byte \<times> PedSector \<times> PedSector) option" where
  "sun_entry block label i =
     (let p = sun_partitions label ! i; tid = info_id (sun_infos label ! i);
          start = PED_BE32_TO_CPU (start_cylinder p) * block
      in if PED_BE32_TO_CPU (num_sectors p) = 0 then None
         else if tid = 0 then None
         else if tid = WHOLE_DISK_ID then None
         else Some (tid, start, start + PED_BE32_TO_CPU (num_sectors p) - 1))"

definition sun_read_data :: "byte \<Rightarrow> SunPartitionData" where
  "sun_read_data tid = \<lparr>sun_type = tid, sun_boot = (tid = 0x1), sun_root = (tid = 0x2), sun_lvm = (tid = 0x8e),
     sun_raid = (tid = 0xfd)\<rparr>"

fun sun_read_entries ::
    "'s PedDeviceArchOps \<Rightarrow> PedExceptionHandler \<Rightarrow> 's PedFileSystemType list \<Rightarrow> PedSector \<Rightarrow> SunRawLabel \<Rightarrow>
     nat list \<Rightarrow> SunDisk \<Rightarrow> 's io_state \<Rightarrow> (bool \<times> SunDisk \<times> 's io_state) option" where
  "sun_read_entries ops ask fs_types block label [] d st = Some (True, d, st)"
| "sun_read_entries ops ask fs_types block label (i # is) d st =
     (case sun_entry block label i of
        None \<Rightarrow> sun_read_entries ops ask fs_types block label is d st
      | Some (tid, start, endd) \<Rightarrow>
     (case ped_partition_new (sun_disk_ops ask) d PED_PARTITION_NORMAL None start endd of
        Inl _ \<Rightarrow> Some (False, d, st)
      | Inr part \<Rightarrow>
     (case ped_file_system_probe ops fs_types (p_geom part) st of
        None \<Rightarrow> None
      | Some (fs, st) \<Rightarrow>
          let (d, a) = alloc_node d (part\<lparr>p_specific := Some (sun_read_data tid), p_num := int i + 1,
                p_fs := map_option fs_name fs\<rparr>)
          in case ped_disk_add_partition (sun_disk_ops ask) (dev_tab st) ask a
                    (ped_constraint_exact (dev_tab st) (p_geom part)) d of
               (Inl _, d) \<Rightarrow> Some (False, d, st)
             | (Inr _, d) \<Rightarrow> sun_read_entries ops ask fs_types block label is d st)))"

definition set_raw_label :: "SunRawLabel \<Rightarrow> SunDisk \<Rightarrow> SunDisk" where
  "set_raw_label l d = d\<lparr>d_specific := (d_specific d)\<lparr>raw_label := l\<rparr>\<rparr>"

definition sun_read ::
    "'s PedDeviceArchOps \<Rightarrow> PedExceptionHandler \<Rightarrow> 's PedFileSystemType list \<Rightarrow> SunDisk \<Rightarrow> 's io_state \<Rightarrow>
     (bool \<times> SunDisk \<times> 's io_state) option" where
  "sun_read ops ask fs_types d st =
     (let d = ped_disk_delete_all (sun_disk_ops ask) (dev_tab st) ask d
      in case ptt_read_sector ops (d_dev d) 0 st of
           None \<Rightarrow> Some (False, d, st)
         | Some s0 \<Rightarrow>
             let label = sun_label_of_bytes s0;
                 d = set_raw_label label d
             in case check_geometry_sanity ask (d_dev d) label st of
                  (False, st) \<Rightarrow> Some (False, d, st)
                | (True, st) \<Rightarrow>
                    let block = cylinder_size (bios_geom (dev_of st (d_dev d)));
                        d = d\<lparr>d_specific := (d_specific d)
                              \<lparr>sun_length := block * cylinders (bios_geom (dev_of st (d_dev d)))\<rparr>\<rparr>
                    in sun_read_entries ops ask fs_types block label [0..<SUN_DISK_MAXPARTITIONS] d st)"

section \<open>Writing\<close>

text \<open>A label that is on the device is kept, apart from its partitions.\<close>

definition use_old_info :: "SunDisk \<Rightarrow> byte list \<Rightarrow> SunDisk" where
  "use_old_info d sector_0 =
     (let old_label = sun_label_of_bytes sector_0
      in if sun_info old_label ! 0 \<noteq> 0 \<and> PED_BE16_TO_CPU (sun_magic old_label) = uint SUN_DISK_MAGIC
         then set_raw_label old_label d else d)"

definition store_partition :: "PedSector \<Rightarrow> SunDisk \<Rightarrow> nat \<Rightarrow> SunRawLabel \<Rightarrow> SunRawLabel" where
  "store_partition block d i label =
     (case ped_disk_get_partition d (int i + 1) of
        None \<Rightarrow> if i = WHOLE_DISK_PART then whole_disk (sun_length (d_specific d)) label else label
      | Some part \<Rightarrow>
          label\<lparr>sun_infos := (sun_infos label)[i := (sun_infos label ! i)\<lparr>info_id := sun_type (sun_data (node d part))\<rparr>],
            sun_partitions := (sun_partitions label)[i :=
              \<lparr>start_cylinder = PED_CPU_TO_BE32 (g_start (geom_of d part) sdiv block),
               num_sectors = PED_CPU_TO_BE32 (g_end (geom_of d part) - g_start (geom_of d part) + 1)\<rparr>]\<rparr>)"

definition clear_partitions :: "SunRawLabel \<Rightarrow> SunRawLabel" where
  "clear_partitions l = l
     \<lparr>sun_partitions := replicate SUN_DISK_MAXPARTITIONS \<lparr>start_cylinder = 0, num_sectors = 0\<rparr>,
      sun_infos := replicate SUN_DISK_MAXPARTITIONS \<lparr>info_spare1 = 0, info_id = 0, info_spare2 = 0, info_flags = 0\<rparr>\<rparr>"

text \<open>The number of cylinders is stored in 16 bits; a warning is given only above 65536, and ignored.\<close>

definition store_cylinders :: "int \<Rightarrow> SunRawLabel \<Rightarrow> SunRawLabel" where
  "store_cylinders cyls l = l\<lparr>pcylcount := PED_CPU_TO_BE16 cyls, ncyl := PED_CPU_TO_BE16 (cyls - PED_BE16_TO_CPU (nacyl l))\<rparr>"

definition sun_label_to_write :: "PedCHSGeometry \<Rightarrow> SunDisk \<Rightarrow> SunRawLabel" where
  "sun_label_to_write bios d =
     sun_compute_checksum (store_cylinders (cylinders bios)
       (fold (store_partition (cylinder_size bios) d) [0..<SUN_DISK_MAXPARTITIONS]
          (clear_partitions (raw_label (d_specific d)))))"

definition sun_write ::
    "'s PedDeviceArchOps \<Rightarrow> SunDisk \<Rightarrow> 's io_state \<Rightarrow> bool \<times> SunDisk \<times> 's io_state" where
  "sun_write ops d st =
     (case ptt_read_sector ops (d_dev d) 0 st of
        None \<Rightarrow> (False, d, st)
      | Some s0 \<Rightarrow>
          let d = use_old_info d s0;
              label = sun_label_to_write (bios_geom (dev_of st (d_dev d))) d;
              d = set_raw_label label d
          in case ped_device_write ops (d_dev d) (overwrite (sun_label_bytes label) s0) 0 1 st of
               (False, st) \<Rightarrow> (False, d, st)
             | (True, st) \<Rightarrow> (case ped_device_sync ops (d_dev d) st of (ok, st) \<Rightarrow> (ok, d, st)))"

section \<open>The label in memory and as a structure\<close>

definition sun_label_wf :: "SunRawLabel \<Rightarrow> bool" where
  "sun_label_wf l \<longleftrightarrow> length (sun_info l) = 128 \<and> length (sun_volume l) = 8 \<and> length (sun_infos l) = 8
     \<and> length (sun_bootinfo l) = 3 \<and> length (sun_reserved l) = 10 \<and> length (sun_timestamp l) = 8
     \<and> length (sun_spare1 l) = 148 \<and> length (sun_spare2 l) = 4 \<and> length (sun_spare3 l) = 4 \<and> length (sun_partitions l) = 8"

lemma member_sizes:
  assumes "sun_label_wf l"
  shows "map length (sun_members l) = sun_sizes"
proof -
  have "length (concat (map info_bytes (sun_infos l))) = 32" "length (concat (map raw_partition_bytes (sun_partitions l))) = 64"
    "length (concat (map (le_bytes 4) (sun_bootinfo l))) = 12" "length (concat (map (le_bytes 4) (sun_reserved l))) = 40"
    "length (concat (map (le_bytes 4) (sun_timestamp l))) = 32"
    using assms length_concat_const[of "sun_infos l" info_bytes 4] length_concat_const[of "sun_partitions l" raw_partition_bytes 8]
      length_concat_const[of "sun_bootinfo l" "le_bytes 4" 4] length_concat_const[of "sun_reserved l" "le_bytes 4" 4]
      length_concat_const[of "sun_timestamp l" "le_bytes 4" 4]
    by (simp_all add: sun_label_wf_def info_bytes_def raw_partition_bytes_def)
  then show ?thesis using assms by (simp add: sun_members_def sun_sizes_def sun_label_wf_def del: length_concat)
qed

lemma length_sun_label_bytes: "sun_label_wf l \<Longrightarrow> length (sun_label_bytes l) = 512"
  using member_sizes[of l] by (simp add: sun_label_bytes_def length_concat sun_sizes_def)

lemma sun_label_roundtrip:
  assumes "sun_label_wf l"
  shows "sun_label_of_bytes (sun_label_bytes l @ rest) = l"
proof -
  have c: "chunks sun_sizes (sun_label_bytes l @ rest) = sun_members l"
    unfolding sun_label_bytes_def by (rule chunks_concat[OF member_sizes[OF assms]])
  have i: "raw_array info_of_bytes 4 (length (sun_infos l)) (concat (map info_bytes (sun_infos l))) = sun_infos l"
    by (rule raw_array_concat) (simp add: info_bytes_def info_of_bytes_def)
  have p: "raw_array raw_partition_of_bytes 8 (length (sun_partitions l)) (concat (map raw_partition_bytes (sun_partitions l)))
      = sun_partitions l"
    by (rule raw_array_concat) (simp add: raw_partition_bytes_def raw_partition_of_bytes_def)
  have w: "raw_array of_le 4 (length ws) (concat (map (le_bytes 4) ws)) = (ws :: 32 word list)" for ws
    by (rule raw_array_concat) simp
  show ?thesis
    using i p w[of "sun_bootinfo l"] w[of "sun_reserved l"] w[of "sun_timestamp l"] assms
    by (simp add: sun_label_of_bytes_def c Let_def) (simp add: sun_members_def sun_label_wf_def)
qed

lemma sun_label_of_bytes_wf: "512 \<le> length bs \<Longrightarrow> sun_label_wf (sun_label_of_bytes bs)"
proof -
  assume "512 \<le> length bs"
  then have m: "map length (chunks sun_sizes bs) = sun_sizes" using chunks_props[of sun_sizes bs] by (simp add: sun_sizes_def)
  then have "length (chunks sun_sizes bs) = length sun_sizes" by (metis length_map)
  also have "\<dots> = 26" by (simp add: sun_sizes_def)
  finally have l: "length (chunks sun_sizes bs ! i) = sun_sizes ! i" if "i < 26" for i
    using that nth_map[of i "chunks sun_sizes bs" length] m by simp
  show ?thesis
    using l[of 0] l[of 2] l[of 12] l[of 16] l[of 22] by (simp add: sun_label_wf_def sun_label_of_bytes_def Let_def sun_sizes_def)
qed

section \<open>The checksum\<close>

lemma foldl_xor: "foldl (XOR) a ws = a XOR foldl (XOR) 0 (ws :: 16 word list)"
proof (induction ws arbitrary: a)
  case (Cons w ws)
  show ?case using Cons[of "a XOR w"] Cons[of w] by (simp add: xor.assoc)
qed simp

lemma xor_zero_iff: "a XOR b = 0 \<longleftrightarrow> a = (b :: 16 word)"
proof
  assume "a XOR b = 0"
  then have "(a XOR b) XOR b = b" by simp
  then show "a = b" by (simp add: xor.assoc)
qed simp

lemma foldl_xor_rev: "foldl (XOR) 0 (rev ws) = foldl (XOR) 0 (ws :: 16 word list)"
proof (induction ws)
  case (Cons w ws)
  then show ?case using foldl_xor[of w ws] by (simp add: xor.commute)
qed simp

text \<open>The members before the checksum are 255 words.\<close>

lemma sun_words:
  assumes "sun_label_wf l"
  obtains ws where "length ws = 255" "\<And>c. words16 (sun_label_bytes (l\<lparr>csum := c\<rparr>)) = ws @ [c]"
proof -
  let ?init = "concat (butlast (sun_members l))"
  have b: "sun_label_bytes (l\<lparr>csum := c\<rparr>) = ?init @ le_bytes 2 c" for c
    by (simp add: sun_label_bytes_def sun_members_def)
  have n: "length ?init = 510"
    using length_sun_label_bytes[OF assms] b[of "csum l"] by simp
  have "words16 (le_bytes 2 c) = [c]" for c :: "16 word"
  proof -
    have "le_bytes 2 c = [ucast c, ucast (drop_bit 8 c)]" by (simp add: le_bytes_def upt_rec)
    then show ?thesis using le_roundtrip(3)[of c] by simp
  qed
  then have "words16 (sun_label_bytes (l\<lparr>csum := c\<rparr>)) = words16 ?init @ [c]" for c
    unfolding b using n by (subst words16_append) simp_all
  then show thesis using n by (intro that[of "words16 ?init"]) (simp_all add: length_words16)
qed

lemma sun_checksum_wf: "sun_label_wf (sun_compute_checksum l) = sun_label_wf l"
  by (simp add: sun_compute_checksum_def sun_label_wf_def)

lemma sun_checksum_verifies:
  assumes "sun_label_wf l"
  shows "sun_verify_checksum (sun_compute_checksum l)"
    and "sun_verify_checksum l \<longleftrightarrow> csum l = csum (sun_compute_checksum l)"
proof -
  obtain ws where ws: "length ws = 255" "\<And>c. words16 (sun_label_bytes (l\<lparr>csum := c\<rparr>)) = ws @ [c]"
    using sun_words[OF assms] by blast
  have c: "sun_compute_checksum l = l\<lparr>csum := foldl (XOR) 0 ws\<rparr>"
    using ws(2)[of "csum l"] ws(1) by (simp add: sun_compute_checksum_def)
  have v: "sun_verify_checksum (l\<lparr>csum := c\<rparr>) \<longleftrightarrow> c = foldl (XOR) 0 ws" for c
  proof -
    have "sun_verify_checksum (l\<lparr>csum := c\<rparr>) \<longleftrightarrow> foldl (XOR) 0 ws XOR c = 0"
      unfolding sun_verify_checksum_def foldl_xor_rev ws(2) by simp
    then show ?thesis by (auto simp: xor_zero_iff)
  qed
  show "sun_verify_checksum (sun_compute_checksum l)" unfolding c v by simp
  show "sun_verify_checksum l \<longleftrightarrow> csum l = csum (sun_compute_checksum l)"
    using v[of "csum l"] by (simp add: c)
qed

section \<open>The entries that are written\<close>

lemma be32_roundtrip: "0 \<le> x \<Longrightarrow> x < 2 ^ 32 \<Longrightarrow> PED_BE32_TO_CPU (PED_CPU_TO_BE32 x) = x"
  by (simp add: PED_BE32_TO_CPU_def PED_CPU_TO_BE32_def uint_word_of_int)

lemma be16_roundtrip: "PED_BE16_TO_CPU (PED_CPU_TO_BE16 x) = x mod 2 ^ 16"
  by (simp add: PED_BE16_TO_CPU_def PED_CPU_TO_BE16_def uint_word_of_int)

definition stored_entry :: "PedSector \<Rightarrow> SunDisk \<Rightarrow> nat \<Rightarrow> byte \<times> SunRawPartition" where
  "stored_entry block d i =
     (case ped_disk_get_partition d (int i + 1) of
        None \<Rightarrow> if i = WHOLE_DISK_PART then (WHOLE_DISK_ID, \<lparr>start_cylinder = 0, num_sectors = PED_CPU_TO_BE32 (sun_length (d_specific d))\<rparr>)
              else (0, \<lparr>start_cylinder = 0, num_sectors = 0\<rparr>)
      | Some part \<Rightarrow> (sun_type (sun_data (node d part)),
          \<lparr>start_cylinder = PED_CPU_TO_BE32 (g_start (geom_of d part) sdiv block),
           num_sectors = PED_CPU_TO_BE32 (g_end (geom_of d part) - g_start (geom_of d part) + 1)\<rparr>))"

definition label_entry :: "SunRawLabel \<Rightarrow> nat \<Rightarrow> byte \<times> SunRawPartition" where
  "label_entry l i = (info_id (sun_infos l ! i), sun_partitions l ! i)"

lemma clear_props:
  "sun_label_wf l \<Longrightarrow> sun_label_wf (clear_partitions l)"
  "i < 8 \<Longrightarrow> label_entry (clear_partitions l) i = (0, \<lparr>start_cylinder = 0, num_sectors = 0\<rparr>)"
  "sun_magic (clear_partitions l) = sun_magic l"
  by (simp_all add: sun_label_wf_def label_entry_def clear_partitions_def)

lemma store_props:
  "sun_label_wf l \<Longrightarrow> sun_label_wf (store_partition block d j l)"
  "sun_magic (store_partition block d j l) = sun_magic l"
  "i \<noteq> j \<Longrightarrow> label_entry (store_partition block d j l) i = label_entry l i"
  "sun_label_wf l \<Longrightarrow> j < 8 \<Longrightarrow> label_entry l j = (0, \<lparr>start_cylinder = 0, num_sectors = 0\<rparr>) \<Longrightarrow>
     label_entry (store_partition block d j l) j = stored_entry block d j"
  by (auto simp: sun_label_wf_def label_entry_def store_partition_def whole_disk_def stored_entry_def split: option.split)

lemma store_all:
  assumes "sun_label_wf l" "n \<le> 8"
  shows "sun_label_wf (fold (store_partition block d) [0..<n] (clear_partitions l)) \<and>
    sun_magic (fold (store_partition block d) [0..<n] (clear_partitions l)) = sun_magic l \<and>
    (\<forall>i < 8. label_entry (fold (store_partition block d) [0..<n] (clear_partitions l)) i =
      (if i < n then stored_entry block d i else (0, \<lparr>start_cylinder = 0, num_sectors = 0\<rparr>)))"
  using assms(2)
proof (induction n)
  case 0
  show ?case using clear_props assms(1) by simp
next
  case (Suc n)
  then have IH: "sun_label_wf (fold (store_partition block d) [0..<n] (clear_partitions l))"
    "sun_magic (fold (store_partition block d) [0..<n] (clear_partitions l)) = sun_magic l"
    "\<And>i. i < 8 \<Longrightarrow> label_entry (fold (store_partition block d) [0..<n] (clear_partitions l)) i =
      (if i < n then stored_entry block d i else (0, \<lparr>start_cylinder = 0, num_sectors = 0\<rparr>))"
    by simp_all
  have "label_entry (store_partition block d n (fold (store_partition block d) [0..<n] (clear_partitions l))) i =
      (if i < Suc n then stored_entry block d i else (0, \<lparr>start_cylinder = 0, num_sectors = 0\<rparr>))" if "i < 8" for i
    using that IH(1,3) store_props(3,4) Suc.prems by (cases "i = n") (auto simp: less_Suc_eq)
  then show ?case using store_props(1,2) IH(1,2) by simp
qed

text \<open>A partition that the entries can hold.\<close>

definition sun_fits :: "PedSector \<Rightarrow> SunPart \<Rightarrow> bool" where
  "sun_fits block p \<longleftrightarrow> block dvd g_start (p_geom p) \<and> 0 \<le> g_start (p_geom p) \<and> g_start (p_geom p) < 2 ^ 32 * block
     \<and> g_start (p_geom p) \<le> g_end (p_geom p) \<and> g_end (p_geom p) - g_start (p_geom p) + 1 < 2 ^ 32
     \<and> sun_type (sun_data p) \<notin> {0, WHOLE_DISK_ID}"

definition entry_of :: "SunDisk \<Rightarrow> nat \<Rightarrow> (byte \<times> PedSector \<times> PedSector) option" where
  "entry_of d i = map_option (\<lambda>part. (sun_type (sun_data (node d part)), g_start (geom_of d part), g_end (geom_of d part)))
     (ped_disk_get_partition d (int i + 1))"

lemma stored_entry_read:
  assumes b: "0 < block" and e: "label_entry l i = stored_entry block d i"
    and fits: "\<And>part. ped_disk_get_partition d (int i + 1) = Some part \<Longrightarrow> sun_fits block (node d part)"
  shows "sun_entry block l i = entry_of d i"
proof (cases "ped_disk_get_partition d (int i + 1)")
  case None
  then show ?thesis
    using e by (auto simp: label_entry_def stored_entry_def sun_entry_def entry_of_def Let_def PED_BE32_TO_CPU_def
        PED_SWAP32_def GET_BYTE_def split: if_splits)
next
  case (Some part)
  let ?g = "geom_of d part"
  have f: "block dvd g_start ?g" "0 \<le> g_start ?g" "g_start ?g < 2 ^ 32 * block" "g_start ?g \<le> g_end ?g"
    "g_end ?g - g_start ?g + 1 < 2 ^ 32" "sun_type (sun_data (node d part)) \<notin> {0, WHOLE_DISK_ID}"
    using fits[OF Some] by (simp_all add: sun_fits_def)
  have q: "g_start ?g sdiv block = g_start ?g div block" using b f(2) by (simp add: sdiv_nonneg_eq)
  have "0 \<le> g_start ?g div block" using b f(2) by (simp add: pos_imp_zdiv_nonneg_iff)
  moreover have "g_start ?g div block < 2 ^ 32"
    using b f(1,3) by (metis dvd_div_mult_self mult_less_cancel_right_pos)
  ultimately
  have s: "PED_BE32_TO_CPU (PED_CPU_TO_BE32 (g_start ?g sdiv block)) * block = g_start ?g"
    using be32_roundtrip f(1) by (simp add: q)
  have n: "PED_BE32_TO_CPU (PED_CPU_TO_BE32 (g_end ?g - g_start ?g + 1)) = g_end ?g - g_start ?g + 1"
    using be32_roundtrip f(4,5) by simp
  have "info_id (sun_infos l ! i) = sun_type (sun_data (node d part))"
    "sun_partitions l ! i = \<lparr>start_cylinder = PED_CPU_TO_BE32 (g_start ?g sdiv block),
           num_sectors = PED_CPU_TO_BE32 (g_end ?g - g_start ?g + 1)\<rparr>"
    using e Some by (simp_all add: label_entry_def stored_entry_def)
  then show ?thesis using f(4,6) Some by (simp add: sun_entry_def s n entry_of_def Let_def)
qed

section \<open>What is written\<close>

lemma sun_label_to_write_props:
  assumes "sun_label_wf (raw_label (d_specific d))"
  shows "sun_label_wf (sun_label_to_write bios d)" "sun_verify_checksum (sun_label_to_write bios d)"
    "sun_magic (sun_label_to_write bios d) = sun_magic (raw_label (d_specific d))"
    "i < 8 \<Longrightarrow> label_entry (sun_label_to_write bios d) i = stored_entry (cylinder_size bios) d i"
    "PED_BE16_TO_CPU (pcylcount (sun_label_to_write bios d)) = cylinders bios mod 2 ^ 16"
proof -
  define l where "l = fold (store_partition (cylinder_size bios) d) [0..<8] (clear_partitions (raw_label (d_specific d)))"
  have w: "sun_label_to_write bios d = sun_compute_checksum (store_cylinders (cylinders bios) l)"
    by (simp add: sun_label_to_write_def l_def)
  have l: "sun_label_wf l" "sun_magic l = sun_magic (raw_label (d_specific d))"
    "\<And>i. i < 8 \<Longrightarrow> label_entry l i = stored_entry (cylinder_size bios) d i"
    using store_all[OF assms, of 8 "cylinder_size bios" d] unfolding l_def[symmetric] by simp_all
  have c: "sun_label_wf (store_cylinders (cylinders bios) l)"
    using l(1) by (simp add: store_cylinders_def sun_label_wf_def)
  then show "sun_label_wf (sun_label_to_write bios d)" "sun_verify_checksum (sun_label_to_write bios d)"
    unfolding w by (simp_all add: sun_checksum_wf sun_checksum_verifies(1))
  show "sun_magic (sun_label_to_write bios d) = sun_magic (raw_label (d_specific d))"
    "i < 8 \<Longrightarrow> label_entry (sun_label_to_write bios d) i = stored_entry (cylinder_size bios) d i"
    "PED_BE16_TO_CPU (pcylcount (sun_label_to_write bios d)) = cylinders bios mod 2 ^ 16"
    using l by (simp_all add: w sun_compute_checksum_def store_cylinders_def label_entry_def be16_roundtrip)
qed

text \<open>The label that is kept is a Sun label, and nothing else of the table changes.\<close>

definition sun_labelled :: "SunDisk \<Rightarrow> bool" where
  "sun_labelled d \<longleftrightarrow> sun_label_wf (raw_label (d_specific d)) \<and>
     PED_BE16_TO_CPU (sun_magic (raw_label (d_specific d))) = uint SUN_DISK_MAGIC"

lemma use_old_info_props:
  assumes "sun_labelled d" "512 \<le> length s0"
  shows "sun_labelled (use_old_info d s0)" "d_dev (use_old_info d s0) = d_dev d"
    "stored_entry block (use_old_info d s0) = stored_entry block d"
proof -
  have st: "stored_entry block (set_raw_label l d) = stored_entry block d" for l
    by (simp add: stored_entry_def set_raw_label_def ped_disk_get_partition_def disk_walk_def node_def fun_eq_iff
        ped_disk_extended_partition_def cong: if_cong option.case_cong)
  show "sun_labelled (use_old_info d s0)" "d_dev (use_old_info d s0) = d_dev d"
    "stored_entry block (use_old_info d s0) = stored_entry block d"
    using assms sun_label_of_bytes_wf[OF assms(2)] st
    by (auto simp: use_old_info_def Let_def sun_labelled_def set_raw_label_def)
qed

text \<open>What \<open>sun_write\<close> does on a device that works.\<close>

lemma sun_write_spec:
  assumes "working_device ops (d_dev d) img st" "512 \<le> sector_size (dev_of st (d_dev d))" "0 < dev_length (dev_of st (d_dev d))"
    and "sun_labelled d"
  obtains q d' l where "sun_write ops d st = (True, d', st\<lparr>platform := q\<rparr>)"
    "\<And>j. j \<noteq> 0 \<Longrightarrow> img (st\<lparr>platform := q\<rparr>) j = img st j"
    "drop 512 (img (st\<lparr>platform := q\<rparr>) 0) = drop 512 (img st 0)"
    "sun_label_of_bytes (img (st\<lparr>platform := q\<rparr>) 0) = l" "sun_verify_checksum l"
    "PED_BE16_TO_CPU (sun_magic l) = uint SUN_DISK_MAGIC"
    "\<And>i. i < 8 \<Longrightarrow> label_entry l i = stored_entry (cylinder_size (bios_geom (dev_of st (d_dev d)))) d i"
    "PED_BE16_TO_CPU (pcylcount l) = cylinders (bios_geom (dev_of st (d_dev d))) mod 2 ^ 16"
proof -
  let ?dev = "d_dev d" and ?bios = "bios_geom (dev_of st (d_dev d))"
  have i: "in_device st ?dev 0 1" using assms(3) by (simp add: in_device_def)
  have len: "length (img st 0) = sector_bytes st ?dev 1" by (rule working_length[OF assms(1) i])
  then have l512: "512 \<le> length (img st 0)" using assms(2) by (simp add: sector_bytes_def)
  define e where "e = use_old_info d (img st 0)"
  note e = use_old_info_props[OF assms(4) l512, folded e_def]
  have wf: "sun_label_wf (raw_label (d_specific e))"
    and mg: "PED_BE16_TO_CPU (sun_magic (raw_label (d_specific e))) = uint SUN_DISK_MAGIC"
    using e(1) by (simp_all add: sun_labelled_def)
  define l where "l = sun_label_to_write ?bios e"
  note l = sun_label_to_write_props[OF wf, where bios = ?bios, folded l_def]
  define new where "new = overwrite (sun_label_bytes l) (img st 0)"
  have new: "length new = sector_bytes st ?dev 1" "drop 512 new = drop 512 (img st 0)" "sun_label_of_bytes new = l"
    using l512 len length_sun_label_bytes[OF l(1)] sun_label_roundtrip[OF l(1)] by (simp_all add: new_def overwrite_def)
  obtain q where q: "ped_device_write ops ?dev new 0 1 st = (True, st\<lparr>platform := q\<rparr>)"
    "img (st\<lparr>platform := q\<rparr>) = (img st)(0 := new)"
    using sector_written[OF assms(1) i new(1)] by blast
  obtain q' where q': "ped_device_sync ops ?dev (st\<lparr>platform := q\<rparr>) = (True, st\<lparr>platform := q'\<rparr>)"
    "img (st\<lparr>platform := q'\<rparr>) = img (st\<lparr>platform := q\<rparr>)"
    using assms(1) unfolding working_device_def by blast
  have "sun_write ops d st = (True, set_raw_label l e, st\<lparr>platform := q'\<rparr>)"
    using q(1) q'(1) e(2)
    by (simp add: sun_write_def read_sector_eq[OF assms(1) i] Let_def e_def[symmetric] l_def[symmetric]
        new_def[symmetric] set_raw_label_def)
  then show thesis
    by (rule that[of _ _ l]) (use q(2) q'(2) new l(2-5) e(3) mg in simp_all)
qed

text \<open>
  C16. Writing a Sun label to a device that works. It succeeds; nothing changes behind the first 512
  bytes; the label is found by \<open>sun_probe\<close> (magic number and checksum); and each of its eight entries
  says what the table in memory says: type, first and last sector of the partition with this number,
  and nothing where there is none (the entry of the whole disk is skipped).
\<close>
theorem sun_write_is_found:
  assumes "working_device ops (d_dev d) img st" "512 \<le> sector_size (dev_of st (d_dev d))" "0 < dev_length (dev_of st (d_dev d))"
    and "sun_labelled d" "0 < cylinder_size (bios_geom (dev_of st (d_dev d)))"
    and "\<forall>i \<in> {1 .. 8}. \<forall>part. ped_disk_get_partition d i = Some part \<longrightarrow>
       sun_fits (cylinder_size (bios_geom (dev_of st (d_dev d)))) (node d part)"
  shows "\<exists>q d'. sun_write ops d st = (True, d', st\<lparr>platform := q\<rparr>) \<and>
    (\<forall>j. j \<noteq> 0 \<longrightarrow> img (st\<lparr>platform := q\<rparr>) j = img st j) \<and>
    drop 512 (img (st\<lparr>platform := q\<rparr>) 0) = drop 512 (img st 0) \<and>
    sun_probe ops (d_dev d) (st\<lparr>platform := q\<rparr>) \<and>
    (\<forall>i < 8. sun_entry (cylinder_size (bios_geom (dev_of st (d_dev d)))) (sun_label_of_bytes (img (st\<lparr>platform := q\<rparr>) 0)) i
       = entry_of d i)"
proof -
  let ?b = "cylinder_size (bios_geom (dev_of st (d_dev d)))"
  obtain q d' l where w: "sun_write ops d st = (True, d', st\<lparr>platform := q\<rparr>)"
    "\<And>j. j \<noteq> 0 \<Longrightarrow> img (st\<lparr>platform := q\<rparr>) j = img st j"
    "drop 512 (img (st\<lparr>platform := q\<rparr>) 0) = drop 512 (img st 0)"
    "sun_label_of_bytes (img (st\<lparr>platform := q\<rparr>) 0) = l" "sun_verify_checksum l"
    "PED_BE16_TO_CPU (sun_magic l) = uint SUN_DISK_MAGIC"
    "\<And>i. i < 8 \<Longrightarrow> label_entry l i = stored_entry ?b d i"
    "PED_BE16_TO_CPU (pcylcount l) = cylinders (bios_geom (dev_of st (d_dev d))) mod 2 ^ 16"
    by (rule sun_write_spec[OF assms(1-4)]) (rule that, assumption+)
  have "ptt_read_sector ops (d_dev d) 0 (st\<lparr>platform := q\<rparr>) = Some (img (st\<lparr>platform := q\<rparr>) 0)"
    by (rule read_sector_eq) (use assms(1,3) in \<open>simp_all add: in_device_def\<close>)
  then have "sun_probe ops (d_dev d) (st\<lparr>platform := q\<rparr>)"
    using w(4-6) by (simp add: sun_probe_def Let_def)
  moreover have "sun_entry ?b l i = entry_of d i" if "i < 8" for i
  proof (rule stored_entry_read[OF assms(5) w(7)[OF that]])
    show "sun_fits ?b (node d part)" if "ped_disk_get_partition d (int i + 1) = Some part" for part
      using assms(6) that \<open>i < 8\<close> by auto
  qed
  ultimately show ?thesis using w(1-4) by blast
qed

text \<open>A device in memory whose geometry has a given number of cylinders, and a table with one partition.\<close>

definition sun_ram :: "nat \<Rightarrow> ram io_state" where
  "sun_ram cyls = (let st = ram_state (1008 * cyls) 512 (\<lambda>_. replicate 512 0)
     in st\<lparr>dev_tab := (\<lambda>_. (dev_of st 0)\<lparr>bios_geom := \<lparr>cylinders = int cyls, heads = 16, sectors = 63\<rparr>\<rparr>)\<rparr>)"

definition sun_ram_disk :: SunDisk where
  "sun_ram_disk = \<lparr>d_dev = 0, part_list = [0],
     d_heap = [0 \<mapsto> \<lparr>p_geom = \<lparr>g_dev = 0, g_start = 1008, g_length = 3000, g_end = 4007\<rparr>, p_num = 1,
                     p_type = PED_PARTITION_NORMAL, p_fs = None, p_list = [],
                     p_specific = Some \<lparr>sun_type = 0x83, sun_boot = False, sun_root = False, sun_lvm = False, sun_raid = False\<rparr>\<rparr>],
     next_addr = 1, needs_clobber = False, update_mode = 1,
     d_specific = \<lparr>sun_length = 39312, raw_label = zero_label\<lparr>sun_magic := PED_CPU_TO_BE16 0xDABE\<rparr>\<rparr>\<rparr>"

abbreviation sun_ram_ops :: "nat \<Rightarrow> ram PedDeviceArchOps" where
  "sun_ram_ops cyls \<equiv> uefi_dev_ops (ram_fw (1008 * cyls) 512)"

abbreviation sun_ram_img :: "ram io_state \<Rightarrow> int \<Rightarrow> byte list" where
  "sun_ram_img \<equiv> \<lambda>st. ram_blk 512 (platform st)"

lemma sun_ram_facts:
  assumes "0 < c" "c \<le> 65536"
  shows "working_device (sun_ram_ops c) (d_dev sun_ram_disk) sun_ram_img (sun_ram c)"
    "512 \<le> sector_size (dev_of (sun_ram c) (d_dev sun_ram_disk))" "0 < dev_length (dev_of (sun_ram c) (d_dev sun_ram_disk))"
    "bios_geom (dev_of (sun_ram c) 0) = \<lparr>cylinders = int c, heads = 16, sectors = 63\<rparr>"
    "dev_length (dev_of (sun_ram c) 0) = 1008 * int c"
proof -
  have dev: "d_dev sun_ram_disk = 0" by (simp add: sun_ram_disk_def)
  have n: "(0::nat) < 512" "(512::nat) \<le> 4096" "1008 * c < 2 ^ 32" using assms(2) by simp_all
  show "working_device (sun_ram_ops c) (d_dev sun_ram_disk) sun_ram_img (sun_ram c)"
    using uefi_working[OF ram_device[OF n], of "sun_ram c" 0] by (simp add: sun_ram_def ram_state_def dev)
  show "512 \<le> sector_size (dev_of (sun_ram c) (d_dev sun_ram_disk))" "0 < dev_length (dev_of (sun_ram c) (d_dev sun_ram_disk))"
    "bios_geom (dev_of (sun_ram c) 0) = \<lparr>cylinders = int c, heads = 16, sectors = 63\<rparr>"
    "dev_length (dev_of (sun_ram c) 0) = 1008 * int c"
    using assms(1) by (simp_all add: sun_ram_def ram_state_def)
qed

lemma sun_ram_disk_facts: "d_dev sun_ram_disk = 0" "sun_labelled sun_ram_disk"
proof -
  have "sun_label_wf zero_label" unfolding zero_label_def by (rule sun_label_of_bytes_wf) simp
  then show "d_dev sun_ram_disk = 0" "sun_labelled sun_ram_disk"
    by (simp_all add: sun_labelled_def sun_ram_disk_def sun_label_wf_def be16_roundtrip)
qed

lemma sun_ram_disk_parts: "ped_disk_get_partition sun_ram_disk i = (if i = 1 then Some 0 else None)"
  by (simp add: ped_disk_get_partition_def disk_walk_def sun_ram_disk_def node_def ped_disk_extended_partition_def)

theorem sun_write_is_found_witness:
  "\<exists>q d'. sun_write (sun_ram_ops 39) sun_ram_disk (sun_ram 39) = (True, d', (sun_ram 39)\<lparr>platform := q\<rparr>) \<and>
    sun_probe (sun_ram_ops 39) 0 ((sun_ram 39)\<lparr>platform := q\<rparr>) \<and>
    sun_entry 1008 (sun_label_of_bytes (sun_ram_img ((sun_ram 39)\<lparr>platform := q\<rparr>) 0)) 0 = Some (0x83, 1008, 4007)"
proof -
  have "0 < (39::nat)" "(39::nat) \<le> 65536" by simp_all
  note f = sun_ram_facts[OF this]
  have b: "cylinder_size (bios_geom (dev_of (sun_ram 39) (d_dev sun_ram_disk))) = 1008"
    by (simp add: f(4) sun_ram_disk_facts(1) cylinder_size_def)
  have fits: "\<forall>i \<in> {1 .. 8}. \<forall>part. ped_disk_get_partition sun_ram_disk i = Some part \<longrightarrow> sun_fits 1008 (node sun_ram_disk part)"
    by (simp add: sun_ram_disk_parts) (simp add: sun_fits_def sun_ram_disk_def node_def sun_data_def)
  have e: "entry_of sun_ram_disk 0 = Some (0x83, 1008, 4007)"
    by (simp add: entry_of_def sun_ram_disk_parts) (simp add: sun_ram_disk_def node_def sun_data_def)
  have "0 < cylinder_size (bios_geom (dev_of (sun_ram 39) (d_dev sun_ram_disk)))" by (simp add: b)
  from sun_write_is_found[OF f(1-3) sun_ram_disk_facts(2) this, unfolded b, OF fits, unfolded sun_ram_disk_facts(1)]
  obtain q d' where w: "sun_write (sun_ram_ops 39) sun_ram_disk (sun_ram 39) = (True, d', (sun_ram 39)\<lparr>platform := q\<rparr>)"
    "sun_probe (sun_ram_ops 39) 0 ((sun_ram 39)\<lparr>platform := q\<rparr>)"
    "\<forall>i < 8. sun_entry 1008 (sun_label_of_bytes (sun_ram_img ((sun_ram 39)\<lparr>platform := q\<rparr>) 0)) i = entry_of sun_ram_disk i"
    by blast
  have "sun_entry 1008 (sun_label_of_bytes (sun_ram_img ((sun_ram 39)\<lparr>platform := q\<rparr>) 0)) 0 = entry_of sun_ram_disk 0"
    by (rule w(3)[rule_format]) simp
  then show ?thesis using w(1,2) e by metis
qed

section \<open>A geometry that cannot be read back\<close>



end
