(* ===== verification/Bsd.thy ===== *)
theory Bsd
  imports Label_Align Disk_Meta Pt_Limit Raw_Struct
begin

text \<open>
  The label type \<open>bsd\<close> (\<open>libparted/labels/bsd.c\<close>), its raw label and its operations on the table
  object: eight partitions anywhere behind sector 0, which holds the label. The host is
  little-endian, so that \<open>PED_CPU_TO_LE*\<close> and \<open>PED_LE*_TO_CPU\<close> are the identity.
\<close>

section \<open>The raw label\<close>

abbreviation BSD_DISKMAGIC :: "32 word" where "BSD_DISKMAGIC \<equiv> 0x82564557"
abbreviation BSD_MAXPARTITIONS :: nat where "BSD_MAXPARTITIONS \<equiv> 8"
abbreviation BSD_DTYPE_SCSI :: "16 word" where "BSD_DTYPE_SCSI \<equiv> 4"
abbreviation BSD_BBSIZE :: "32 word" where "BSD_BBSIZE \<equiv> 8192"
abbreviation BSD_SBSIZE :: "32 word" where "BSD_SBSIZE \<equiv> 8192"
abbreviation D_PARTITIONS_WORDS :: nat where "D_PARTITIONS_WORDS \<equiv> 59"

record BSDRawPartition =
  p_size :: "32 word"
  p_offset :: "32 word"
  p_fsize :: "32 word"
  p_fstype :: byte
  p_frag :: byte
  p_cpg :: "16 word"

record BSDRawLabel =
  d_magic :: "32 word"
  d_type :: "16 word"
  d_subtype :: "16 word"
  d_typename :: "byte list"
  d_packname :: "byte list"
  d_secsize :: "32 word"
  d_nsectors :: "32 word"
  d_ntracks :: "32 word"
  d_ncylinders :: "32 word"
  d_secpercyl :: "32 word"
  d_secperunit :: "32 word"
  d_sparespertrack :: "16 word"
  d_sparespercyl :: "16 word"
  d_acylinders :: "32 word"
  d_rpm :: "16 word"
  d_interleave :: "16 word"
  d_trackskew :: "16 word"
  d_cylskew :: "16 word"
  d_headswitch :: "32 word"
  d_trkseek :: "32 word"
  d_flags :: "32 word"
  d_drivedata :: "32 word list"
  d_spare :: "32 word list"
  d_magic2 :: "32 word"
  d_checksum :: "16 word"
  d_npartitions :: "16 word"
  d_bbsize :: "32 word"
  d_sbsize :: "32 word"
  d_partitions :: "BSDRawPartition list"

record BSDDiskData =
  bsd_boot_code :: "byte list"
  bsd_label :: BSDRawLabel
  bsd_unused :: "byte list"

record BSDPartitionData =
  bsd_type :: byte
  bsd_boot :: bool
  bsd_raid :: bool
  bsd_lvm :: bool

type_synonym BSDDisk = "(BSDPartitionData option, BSDDiskData) PedDisk"
type_synonym BSDPart = "BSDPartitionData option PedPartition"

definition bsd_part_bytes :: "BSDRawPartition \<Rightarrow> byte list" where
  "bsd_part_bytes p = le_bytes 4 (p_size p) @ le_bytes 4 (p_offset p) @ le_bytes 4 (p_fsize p)
     @ [p_fstype p, p_frag p] @ le_bytes 2 (p_cpg p)"

definition bsd_part_of_bytes :: "byte list \<Rightarrow> BSDRawPartition" where
  "bsd_part_of_bytes bs = \<lparr>p_size = of_le (field 0 4 bs), p_offset = of_le (field 4 4 bs), p_fsize = of_le (field 8 4 bs),
     p_fstype = bs ! 12, p_frag = bs ! 13, p_cpg = of_le (field 14 2 bs)\<rparr>"

definition bsd_members :: "BSDRawLabel \<Rightarrow> byte list list" where
  "bsd_members l = [le_bytes 4 (d_magic l), le_bytes 2 (d_type l), le_bytes 2 (d_subtype l), d_typename l, d_packname l,
     le_bytes 4 (d_secsize l), le_bytes 4 (d_nsectors l), le_bytes 4 (d_ntracks l), le_bytes 4 (d_ncylinders l),
     le_bytes 4 (d_secpercyl l), le_bytes 4 (d_secperunit l), le_bytes 2 (d_sparespertrack l),
     le_bytes 2 (d_sparespercyl l), le_bytes 4 (d_acylinders l), le_bytes 2 (d_rpm l), le_bytes 2 (d_interleave l),
     le_bytes 2 (d_trackskew l), le_bytes 2 (d_cylskew l), le_bytes 4 (d_headswitch l), le_bytes 4 (d_trkseek l),
     le_bytes 4 (d_flags l), concat (map (le_bytes 4) (d_drivedata l)), concat (map (le_bytes 4) (d_spare l)),
     le_bytes 4 (d_magic2 l), le_bytes 2 (d_checksum l), le_bytes 2 (d_npartitions l), le_bytes 4 (d_bbsize l),
     le_bytes 4 (d_sbsize l), concat (map bsd_part_bytes (d_partitions l))]"

definition bsd_sizes :: "nat list" where
  "bsd_sizes = [4, 2, 2, 16, 16, 4, 4, 4, 4, 4, 4, 2, 2, 4, 2, 2, 2, 2, 4, 4, 4, 20, 20, 4, 2, 2, 4, 4, 128]"

definition bsd_label_bytes :: "BSDRawLabel \<Rightarrow> byte list" where
  "bsd_label_bytes l = concat (bsd_members l)"

definition bsd_label_of_bytes :: "byte list \<Rightarrow> BSDRawLabel" where
  "bsd_label_of_bytes bs =
     (let m = (\<lambda>i. chunks bsd_sizes bs ! i) in
      \<lparr>d_magic = of_le (m 0), d_type = of_le (m 1), d_subtype = of_le (m 2), d_typename = m 3, d_packname = m 4,
       d_secsize = of_le (m 5), d_nsectors = of_le (m 6), d_ntracks = of_le (m 7), d_ncylinders = of_le (m 8),
       d_secpercyl = of_le (m 9), d_secperunit = of_le (m 10), d_sparespertrack = of_le (m 11),
       d_sparespercyl = of_le (m 12), d_acylinders = of_le (m 13), d_rpm = of_le (m 14), d_interleave = of_le (m 15),
       d_trackskew = of_le (m 16), d_cylskew = of_le (m 17), d_headswitch = of_le (m 18), d_trkseek = of_le (m 19),
       d_flags = of_le (m 20), d_drivedata = raw_array of_le 4 5 (m 21), d_spare = raw_array of_le 4 5 (m 22),
       d_magic2 = of_le (m 23), d_checksum = of_le (m 24), d_npartitions = of_le (m 25), d_bbsize = of_le (m 26),
       d_sbsize = of_le (m 27), d_partitions = raw_array bsd_part_of_bytes 16 8 (m 28)\<rparr>)"

definition bsd_data_bytes :: "BSDDiskData \<Rightarrow> byte list" where
  "bsd_data_bytes x = bsd_boot_code x @ bsd_label_bytes (bsd_label x) @ bsd_unused x"

definition bsd_data_of_bytes :: "byte list \<Rightarrow> BSDDiskData" where
  "bsd_data_of_bytes bs = \<lparr>bsd_boot_code = field 0 64 bs, bsd_label = bsd_label_of_bytes (drop 64 bs),
     bsd_unused = field 340 172 bs\<rparr>"

section \<open>Checksums\<close>

text \<open>
  \<open>xbsd_dkcksum\<close> sets the checksum of the label to 0 first; its callers then store the result there.
  The number of words depends on the number of partitions of the label.
\<close>

definition xbsd_dkcksum :: "BSDRawLabel \<Rightarrow> 16 word" where
  "xbsd_dkcksum lp = foldl (XOR) 0
     (take (D_PARTITIONS_WORDS + unat (d_npartitions lp)) (words16 (bsd_label_bytes (lp\<lparr>d_checksum := 0\<rparr>))))"

text \<open>The last of the 64 words is the last one of \<open>unused\<close>.\<close>

definition alpha_bootblock_checksum :: "BSDDiskData \<Rightarrow> BSDDiskData" where
  "alpha_bootblock_checksum boot = boot\<lparr>bsd_unused :=
     take 164 (bsd_unused boot) @ le_bytes 8 (foldl (+) 0 (raw_array of_le 8 63 (bsd_data_bytes boot)) :: 64 word)\<rparr>"

section \<open>Tables and partitions\<close>

definition zero_bsd :: BSDDiskData where
  "zero_bsd = bsd_data_of_bytes (replicate 512 0)"

definition bsd_alloc :: "dev_table \<Rightarrow> dev_ref \<Rightarrow> BSDDisk option" where
  "bsd_alloc devs dev =
     (let g = bios_geom (devs dev);
          label = (bsd_label zero_bsd)
            \<lparr>d_magic := BSD_DISKMAGIC, d_type := BSD_DTYPE_SCSI, d_flags := 0,
             d_secsize := word_of_int (sector_size (devs dev)), d_nsectors := word_of_int (sectors g),
             d_ntracks := word_of_int (heads g), d_ncylinders := word_of_int (cylinders g),
             d_secpercyl := word_of_int (sectors g * heads g),
             d_secperunit := word_of_int (sectors g * heads g * cylinders g),
             d_rpm := 3600, d_interleave := 1, d_trackskew := 0, d_cylskew := 0, d_headswitch := 0, d_trkseek := 0,
             d_magic2 := BSD_DISKMAGIC, d_bbsize := BSD_BBSIZE, d_sbsize := BSD_SBSIZE, d_npartitions := 0\<rparr>
      in Some (ped_disk_alloc dev (zero_bsd\<lparr>bsd_label := label\<lparr>d_checksum := xbsd_dkcksum label\<rparr>\<rparr>)))"

definition bsd_partition_new ::
    "BSDDisk \<Rightarrow> nat \<Rightarrow> string option \<Rightarrow> PedSector \<Rightarrow> PedSector \<Rightarrow> BSDPart result" where
  "bsd_partition_new d part_type fs_type start endd =
     (case ped_partition_alloc d part_type fs_type start endd None of
        Inl e \<Rightarrow> Inl e
      | Inr part \<Rightarrow>
          if ped_partition_is_active part
          then Inr (part\<lparr>p_specific := Some \<lparr>bsd_type = 0, bsd_boot = False, bsd_raid = False, bsd_lvm = False\<rparr>\<rparr>)
          else Inr part)"

definition upd_bsd :: "(BSDPartitionData \<Rightarrow> BSDPartitionData) \<Rightarrow> BSDPart \<Rightarrow> BSDPart" where
  "upd_bsd f part = part\<lparr>p_specific := map_option f (p_specific part)\<rparr>"

definition bsd_data :: "BSDPart \<Rightarrow> BSDPartitionData" where
  "bsd_data part = the (p_specific part)"

definition bsd_partition_set_system :: "BSDPart \<Rightarrow> string option \<Rightarrow> BSDPart result" where
  "bsd_partition_set_system part fs_type =
     Inr (upd_bsd (\<lambda>x. x\<lparr>bsd_type :=
            (case fs_type of None \<Rightarrow> 0x8 | Some name \<Rightarrow> if is_linux_swap name then 0x1 else 0x8)\<rparr>)
         (part\<lparr>p_fs := fs_type\<rparr>))"

definition bsd_set_flag :: "BSDPartitionData \<Rightarrow> int \<Rightarrow> bool \<Rightarrow> BSDPartitionData option" where
  "bsd_set_flag x flag state =
     (if flag = PED_PARTITION_BOOT then Some (x\<lparr>bsd_boot := state\<rparr>)
      else if flag = PED_PARTITION_RAID then
        Some ((if state then x\<lparr>bsd_lvm := False\<rparr> else x)\<lparr>bsd_raid := state\<rparr>)
      else if flag = PED_PARTITION_LVM then
        Some ((if state then x\<lparr>bsd_raid := False\<rparr> else x)\<lparr>bsd_lvm := state\<rparr>)
      else None)"

definition bsd_partition_set_flag :: "BSDDisk \<Rightarrow> addr \<Rightarrow> int \<Rightarrow> bool \<Rightarrow> bool \<times> BSDDisk" where
  "bsd_partition_set_flag d part flag state =
     (case bsd_set_flag (bsd_data (node d part)) flag state of
        None \<Rightarrow> (False, d)
      | Some x \<Rightarrow> (True, upd_node part (\<lambda>p. p\<lparr>p_specific := Some x\<rparr>) d))"

definition bsd_partition_get_flag :: "BSDPart \<Rightarrow> int \<Rightarrow> bool" where
  "bsd_partition_get_flag part flag =
     (let x = bsd_data part in
      if flag = PED_PARTITION_BOOT then bsd_boot x
      else if flag = PED_PARTITION_RAID then bsd_raid x
      else if flag = PED_PARTITION_LVM then bsd_lvm x
      else False)"

definition bsd_partition_is_flag_available :: "BSDPart \<Rightarrow> int \<Rightarrow> bool" where
  "bsd_partition_is_flag_available part flag \<longleftrightarrow>
     flag \<in> {PED_PARTITION_BOOT, PED_PARTITION_RAID, PED_PARTITION_LVM}"

definition bsd_get_max_primary_partition_count :: "BSDDisk \<Rightarrow> int" where
  "bsd_get_max_primary_partition_count d = int BSD_MAXPARTITIONS"

definition bsd_get_max_supported_partition_count :: "BSDDisk \<Rightarrow> int" where
  "bsd_get_max_supported_partition_count d = int BSD_MAXPARTITIONS"

text \<open>\<open>ped_geometry_init\<close> may fail here; the code goes on with the indeterminate region.\<close>

definition bsd_get_constraint :: "dev_table \<Rightarrow> dev_ref \<Rightarrow> PedConstraint option" where
  "bsd_get_constraint devs dev = ped_constraint_new_from_max (geometry_init_local dev 1 (dev_length (devs dev) - 1))"

definition bsd_partition_align ::
    "dev_table \<Rightarrow> BSDDisk \<Rightarrow> addr \<Rightarrow> PedConstraint option \<Rightarrow> PedGeometry result" where
  "bsd_partition_align devs d part con =
     (case ped_partition_attempt_align devs (node d part) con (bsd_get_constraint devs (d_dev d)) of
        Some g \<Rightarrow> Inr g
      | None \<Rightarrow> Inl (Some (error_cancel ''Unable to satisfy all constraints on the partition.'' [])))"

definition bsd_partition_enumerate :: "BSDDisk \<Rightarrow> addr \<Rightarrow> bool \<times> int" where
  "bsd_partition_enumerate d part =
     (if p_num (node d part) \<noteq> - 1 then (True, p_num (node d part))
      else case find (\<lambda>i. ped_disk_get_partition d i = None) [1 .. int BSD_MAXPARTITIONS] of
        Some i \<Rightarrow> (True, i)
      | None \<Rightarrow> (False, p_num (node d part)))"

definition bsd_partition_check :: "BSDPart \<Rightarrow> unit result" where
  "bsd_partition_check part = ptt_partition_max_start_len ''bsd'' (p_geom part)"

definition bsd_base_ops :: "(BSDPartitionData option, BSDDiskData) PedPartOps" where
  "bsd_base_ops = \<lparr>t_name = ''bsd'', t_features = 0,
     op_partition_new = bsd_partition_new,
     op_partition_duplicate = (\<lambda>_ _. Inl None),
     op_partition_set_system = bsd_partition_set_system,
     op_partition_align = bsd_partition_align,
     op_partition_enumerate = bsd_partition_enumerate,
     op_partition_check = bsd_partition_check,
     op_get_max_primary_partition_count = bsd_get_max_primary_partition_count,
     op_partition_is_flag_available = bsd_partition_is_flag_available,
     op_partition_set_flag = bsd_partition_set_flag,
     op_partition_get_flag = bsd_partition_get_flag\<rparr>"

definition bsd_partition_duplicate :: "BSDDisk \<Rightarrow> BSDPart \<Rightarrow> BSDPart result" where
  "bsd_partition_duplicate d part =
     (case ped_partition_new bsd_base_ops d (p_type part) (p_fs part) (g_start (p_geom part)) (g_end (p_geom part)) of
        Inl e \<Rightarrow> Inl e
      | Inr new_part \<Rightarrow>
          let old = bsd_data part
          in Inr (upd_bsd (\<lambda>x. x\<lparr>bsd_type := bsd_type old, bsd_boot := bsd_boot old, bsd_raid := bsd_raid old,
                 bsd_lvm := bsd_lvm old\<rparr>) (new_part\<lparr>p_num := p_num part\<rparr>)))"

definition bsd_part_ops :: "(BSDPartitionData option, BSDDiskData) PedPartOps" where
  "bsd_part_ops = bsd_base_ops\<lparr>op_partition_duplicate := bsd_partition_duplicate\<rparr>"

text \<open>Sector 0 holds the label.\<close>

definition bsd_alloc_metadata :: "dev_table \<Rightarrow> PedExceptionHandler \<Rightarrow> BSDDisk \<Rightarrow> bool \<times> BSDDisk" where
  "bsd_alloc_metadata devs ask d =
     (case ped_partition_new bsd_part_ops d PED_PARTITION_METADATA None 0 0 of
        Inl _ \<Rightarrow> (False, d)
      | Inr p \<Rightarrow>
          (case alloc_node d p of (d1, new_part) \<Rightarrow>
             link_metadata bsd_part_ops devs ask (ped_constraint_any devs (d_dev d)) d1 new_part))"

definition bsd_disk_ops :: "(BSDPartitionData option, BSDDiskData) PedDiskOps" where
  "bsd_disk_ops =
     (let T = bsd_part_ops in
      \<lparr>t_name = t_name T, t_features = t_features T,
       op_partition_new = op_partition_new T,
       op_partition_duplicate = op_partition_duplicate T,
       op_partition_set_system = op_partition_set_system T,
       op_partition_align = op_partition_align T,
       op_partition_enumerate = op_partition_enumerate T,
       op_partition_check = op_partition_check T,
       op_get_max_primary_partition_count = op_get_max_primary_partition_count T,
       op_partition_is_flag_available = op_partition_is_flag_available T,
       op_partition_set_flag = op_partition_set_flag T,
       op_partition_get_flag = op_partition_get_flag T,
       op_alloc_metadata = bsd_alloc_metadata\<rparr>)"

definition bsd_duplicate :: "dev_table \<Rightarrow> PedExceptionHandler \<Rightarrow> BSDDisk \<Rightarrow> BSDDisk option" where
  "bsd_duplicate devs ask d =
     (case ped_disk_new_fresh bsd_disk_ops devs ask (bsd_alloc devs) (d_dev d) of
        None \<Rightarrow> None
      | Some new_disk \<Rightarrow> Some (new_disk\<lparr>d_specific := d_specific d\<rparr>))"

section \<open>The label contract\<close>

lemma bsd_part_ops_simps [simp]:
  "t_features bsd_part_ops = 0" "op_partition_new bsd_part_ops = bsd_partition_new"
  "op_partition_set_system bsd_part_ops = bsd_partition_set_system"
  by (simp_all add: bsd_part_ops_def bsd_base_ops_def)

lemma bsd_disk_ops_simps [simp]:
  "t_features bsd_disk_ops = 0" "op_partition_new bsd_disk_ops = bsd_partition_new"
  "op_partition_align bsd_disk_ops = bsd_partition_align"
  "op_partition_set_system bsd_disk_ops = bsd_partition_set_system"
  "op_alloc_metadata bsd_disk_ops = bsd_alloc_metadata"
  "op_partition_enumerate bsd_disk_ops = bsd_partition_enumerate"
  "op_partition_check bsd_disk_ops = bsd_partition_check"
  "op_partition_set_flag bsd_disk_ops = bsd_partition_set_flag"
  "op_partition_get_flag bsd_disk_ops = bsd_partition_get_flag"
  "op_partition_is_flag_available bsd_disk_ops = bsd_partition_is_flag_available"
  by (simp_all add: bsd_disk_ops_def bsd_part_ops_def bsd_base_ops_def Let_def)

lemma bsd_placeholder:
  assumes "s \<le> e" "ty \<noteq> PED_PARTITION_EXTENDED" "ty \<noteq> PED_PARTITION_LOGICAL" "\<not> is_active ty"
    "t_features T = 0" "op_partition_new T = bsd_partition_new"
  shows "ped_partition_new T d ty None s e =
     Inr \<lparr>p_geom = \<lparr>g_dev = d_dev d, g_start = s, g_length = e - s + 1, g_end = e\<rparr>, p_num = - 1,
       p_type = ty, p_fs = None, p_list = [], p_specific = None\<rparr>"
  using assms by (simp add: ped_partition_new_def ped_disk_type_check_feature_def bsd_partition_new_def
      ped_partition_alloc_def geom_simps uninit_geometry_def ped_partition_is_active_def is_active_def)

lemma bsd_new_span: "ped_partition_new bsd_disk_ops d ty fs s e = Inr p \<Longrightarrow> span_ok (p_geom p)"
  by (auto simp: ped_partition_new_def bsd_partition_new_def ped_partition_alloc_def bsd_partition_set_system_def upd_bsd_def
      dest!: geometry_init_span split: if_splits sum.splits option.splits)

text \<open>The device has a sector behind the label; partitions lie behind the label and on the device.\<close>

definition bsd_inv :: "dev_table \<Rightarrow> BSDDisk \<Rightarrow> bool" where
  "bsd_inv devs d \<longleftrightarrow> 2 \<le> dev_length (devs (d_dev d))"

definition bsd_allowed :: "dev_table \<Rightarrow> BSDDisk \<Rightarrow> nat \<Rightarrow> PedGeometry \<Rightarrow> bool" where
  "bsd_allowed devs d ty g \<longleftrightarrow> 1 \<le> g_start g \<and> g_end g < dev_length (devs (d_dev d))"

lemma bsd_align_sound:
  assumes al: "bsd_partition_align devs d part (Some c) = Inr g" and inv: "bsd_inv devs d" and c: "usable d c"
    and dev: "g_dev (geom_of d part) = d_dev d"
  shows "ped_constraint_is_solution c g \<and> geom_wf g \<and> g_dev g = d_dev d \<and> bsd_allowed devs d ty g"
proof -
  let ?N = "dev_length (devs (d_dev d))"
  let ?m = "\<lparr>g_dev = d_dev d, g_start = 1, g_length = ?N - 1, g_end = ?N - 1\<rparr>"
  have m: "geometry_init_local (d_dev d) 1 (?N - 1) = ?m" "geom_wf ?m"
    using inv by (simp_all add: bsd_inv_def geom_wf_def)
  obtain b where b: "bsd_get_constraint devs (d_dev d) = Some b" "constraint_wf b" "constraint_dev b = d_dev d"
    "\<And>h. geom_wf h \<Longrightarrow> g_dev h = d_dev d \<Longrightarrow> ped_constraint_is_solution b h \<longleftrightarrow> ped_geometry_test_inside ?m h"
    using constraint_new_from_max_spec[OF m(2)] m(1) by (auto simp: bsd_get_constraint_def)
  have ub: "usable d b"
    using b(2,3) new_from_max_small(3)[of ?m b] b(1) m(1) by (simp add: usable_def bsd_get_constraint_def)
  have a: "ped_partition_attempt_align devs (node d part) (Some c) (Some b) = Some g"
    using al b(1) by (auto simp: bsd_partition_align_def split: option.splits)
  obtain i where i: "Some b = Some i" "ped_constraint_is_solution c g" "ped_constraint_is_solution i g"
    "geom_wf g" "g_dev g = d_dev d"
    by (rule attempt_align_sound[OF a c _ dev]) (use ub in auto)
  then have "ped_geometry_test_inside ?m g" using b(4) by simp
  then show ?thesis using i by (auto simp: bsd_allowed_def ped_geometry_test_inside_def split: if_splits)
qed

lemma bsd_metadata_contract:
  assumes ok: "table_ok devs d" and act: "lists d = actives d" and s: "strict ask"
    and allow: "\<forall>k. \<forall>a \<in> set (lists d k). bsd_allowed devs d (type_of d a) (geom_of d a)"
  shows "meta_run devs d (snd (bsd_alloc_metadata devs ask d))"
proof -
  let ?p = "\<lparr>p_geom = \<lparr>g_dev = d_dev d, g_start = 0, g_length = 0 - 0 + 1, g_end = 0\<rparr>, p_num = - 1,
     p_type = PED_PARTITION_METADATA, p_fs = None, p_list = [], p_specific = (None :: BSDPartitionData option)\<rparr>"
  have new: "ped_partition_new bsd_part_ops d PED_PARTITION_METADATA None 0 0 = Inr ?p"
    by (rule bsd_placeholder) (simp_all add: is_active_def has_bit_def)
  obtain d1 a where al: "alloc_node d ?p = (d1, a)" by fastforce
  have res: "snd (bsd_alloc_metadata devs ask d) =
      snd (link_metadata bsd_part_ops devs ask (ped_constraint_any devs (d_dev d)) d1 a)"
    using al new by (simp add: bsd_alloc_metadata_def)
  have "0 < g_start (geom_of d x)" if "x \<in> set (part_list d)" for x
    using allow[rule_format, of x False] that by (simp add: bsd_allowed_def)
  then have "meta_step devs d False [] (part_list d) 0 0
      (snd (link_metadata bsd_part_ops devs ask (ped_constraint_any devs (d_dev d)) d1 a))"
    by (intro metadata_step[OF ok _ s _ _ _ _ _ _ _ al]) (simp_all add: meta_type_cases)
  then show ?thesis unfolding res by (rule meta_run_step[OF meta_run_start[OF ok act]]) simp
qed

interpretation bsd: disk_label bsd_disk_ops bsd_inv bsd_allowed
proof (unfold_locales)
  fix s e :: PedSector and ty and d :: BSDDisk
  assume "s \<le> e" "ty = PED_PARTITION_FREESPACE \<or> ty = PED_PARTITION_FREESPACE + PED_PARTITION_LOGICAL"
  then show "\<exists>p. ped_partition_new bsd_disk_ops d ty None s e = Inr p \<and>
        p_geom p = \<lparr>g_dev = d_dev d, g_start = s, g_length = e - s + 1, g_end = e\<rparr> \<and>
        p_type p = ty \<and> p_list p = []"
    using bsd_placeholder[of s e ty bsd_disk_ops d] by (auto simp: is_active_def has_bit_def)
next
  show "same_disk d d' \<Longrightarrow> bsd_inv devs d \<Longrightarrow> bsd_inv devs d'" for devs and d d' :: BSDDisk
    by (simp add: bsd_inv_def same_disk_def)
  show "same_disk d d' \<Longrightarrow> bsd_allowed devs d ty g \<Longrightarrow> bsd_allowed devs d' ty g" for devs and d d' :: BSDDisk and ty g
    by (simp add: bsd_allowed_def same_disk_def)
next
  fix devs part con g c and d :: BSDDisk
  assume "op_partition_align bsd_disk_ops devs d part con = Inr g" "bsd_inv devs d"
    "neighbours_ok d part" "plain_type (type_of d part)" "span_ok (geom_of d part)" "con = Some c"
    "constraint_wf c" "constraint_small c" "constraint_dev c = d_dev d" "g_dev (geom_of d part) = d_dev d"
  then show "ped_constraint_is_solution c g \<and> geom_wf g \<and> g_dev g = d_dev d \<and> bsd_allowed devs d (type_of d part) g"
    using bsd_align_sound[of devs d part c g] by (simp add: usable_def)
next
  fix devs ask r and d d' :: BSDDisk
  assume b: "table_ok devs d" "update_mode d = 1" "lists d = actives d" "bsd_inv devs d"
    "\<forall>k. \<forall>a \<in> set (lists d k). bsd_allowed devs d (type_of d a) (geom_of d a)" "strict ask"
    and "op_alloc_metadata bsd_disk_ops devs ask d = (r, d')"
  then have "d' = snd (bsd_alloc_metadata devs ask d)" by simp
  then show "table_ok devs d' \<and> actives d' = actives d \<and> nonfree d' = lists d' \<and>
      (\<forall>a < next_addr d. core d' a = core d a) \<and> same_disk d d' \<and> update_mode d' = update_mode d
      \<and> next_addr d \<le> next_addr d'"
    using bsd_metadata_contract[OF b(1,3,6,5)] by (simp add: meta_run_def del: lists_False)
qed

end
