(* ===== verification/Bsd_Attrs.thy ===== *)
theory Bsd_Attrs
  imports Label_Attrs Bsd
begin

text \<open>
  The entries of \<open>bsd_disk_ops\<close> (\<open>labels/bsd.c\<close>) that the wrappers of \<open>disk.c\<close> use: BSD tables
  have no flags, names or identifiers. The flags of a partition live in memory only: raid and lvm
  exclude each other, and no flag is part of what \<open>bsd_write\<close> stores.
\<close>

definition bsd_attr_ops :: "(BSDPartitionData option, BSDDiskData) PedAttrOps" where
  "bsd_attr_ops = no_attr_ops ''bsd''"

lemma bsd_flag_unavailable [simp]: "\<not> ped_disk_is_flag_available bsd_attr_ops d flag"
  by (simp add: ped_disk_is_flag_available_def bsd_attr_ops_def no_attr_ops_def)

lemma bsd_features [simp]: "\<not> ped_disk_type_check_feature bsd_disk_ops k"
  by (simp add: ped_disk_type_check_feature_def has_bit_def)

interpretation bsd_flags: table_flags bsd_disk_ops bsd_inv bsd_allowed bsd_attr_ops
  by unfold_locales (simp_all add: ped_disk_get_flag_def)

interpretation bsd_attrs: partition_attrs bsd_disk_ops bsd_attr_ops "\<lambda>p. p_specific p \<noteq> None" "\<lambda>n. n"
  by unfold_locales simp_all

lemma bsd_set_flag_cases:
  "bsd_partition_is_flag_available p flag = (bsd_set_flag x flag state \<noteq> None)"
  "bsd_set_flag x flag state = Some y \<Longrightarrow> bsd_partition_get_flag (p\<lparr>p_specific := Some y\<rparr>) flag = state"
  "bsd_set_flag x flag state = Some y \<Longrightarrow> \<not> (bsd_raid x \<and> bsd_lvm x) \<Longrightarrow> \<not> (bsd_raid y \<and> bsd_lvm y)"
  "bsd_set_flag x flag state = Some y \<Longrightarrow> bsd_type y = bsd_type x"
  by (auto simp: bsd_partition_is_flag_available_def bsd_set_flag_def bsd_partition_get_flag_def bsd_data_def Let_def
      split: if_splits)

text \<open>What is stored of a table does not depend on the flags of its partitions.\<close>

lemma bsd_flags_keep_geometry:
  assumes "bsd_partition_set_flag d a flag state = (ok, d')"
  shows "geom_of d' b = geom_of d b \<and> p_num (node d' b) = p_num (node d b) \<and> part_list d' = part_list d
    \<and> (p_specific (node d b) \<noteq> None \<longrightarrow> bsd_type (bsd_data (node d' b)) = bsd_type (bsd_data (node d b)))"
  using assms bsd_set_flag_cases(4)
  by (auto simp: bsd_partition_set_flag_def upd_node_def node_def bsd_data_def split: option.splits)

end
