(* ===== verification/Bsd_Disk.thy ===== *)
theory Bsd_Disk
  imports Bsd Filesys
begin

text \<open>
  The BSD label on a device (\<open>libparted/labels/bsd.c\<close>): probing, reading and writing sector 0. What
  is written is found, and its entries are the partitions of the table, but for the end of a
  partition, which is computed with 32 bits when it is read; and the checksum of the label covers no
  entry.
\<close>

abbreviation bsd_ok :: "dev_table \<Rightarrow> BSDDisk \<Rightarrow> bool" where
  "bsd_ok \<equiv> disk_ok bsd_inv bsd_allowed"

section \<open>Probing and reading\<close>

definition bsd_probe :: "'s PedDeviceArchOps \<Rightarrow> dev_ref \<Rightarrow> 's io_state \<Rightarrow> bool" where
  "bsd_probe ops dev st =
     (if sector_size (dev_of st dev) < 512 then False
      else case ptt_read_sector ops dev 0 st of
        None \<Rightarrow> False
      | Some s0 \<Rightarrow> d_magic (bsd_label (bsd_data_of_bytes s0)) = BSD_DISKMAGIC)"

text \<open>
  What an entry says of its partition: type, first and last sector. The sum is one of 32-bit
  numbers, and only its value is a \<open>PedSector\<close>.
\<close>

definition bsd_entry :: "BSDRawLabel \<Rightarrow> nat \<Rightarrow> (byte \<times> PedSector \<times> PedSector) option" where
  "bsd_entry label i =
     (let p = d_partitions label ! i
      in if p_size p = 0 \<or> p_fstype p = 0 then None
         else Some (p_fstype p, uint (p_offset p), uint (p_offset p + p_size p - 1)))"

fun bsd_read_entries ::
    "'s PedDeviceArchOps \<Rightarrow> PedExceptionHandler \<Rightarrow> 's PedFileSystemType list \<Rightarrow> BSDRawLabel \<Rightarrow>
     nat list \<Rightarrow> BSDDisk \<Rightarrow> 's io_state \<Rightarrow> (bool \<times> BSDDisk \<times> 's io_state) option" where
  "bsd_read_entries ops ask fs_types label [] d st = Some (True, d, st)"
| "bsd_read_entries ops ask fs_types label (i # is) d st =
     (case bsd_entry label i of
        None \<Rightarrow> bsd_read_entries ops ask fs_types label is d st
      | Some (fstype, start, endd) \<Rightarrow>
     (case ped_partition_new bsd_disk_ops d PED_PARTITION_NORMAL None start endd of
        Inl _ \<Rightarrow> Some (False, d, st)
      | Inr part \<Rightarrow>
     (case ped_file_system_probe ops fs_types (p_geom part) st of
        None \<Rightarrow> None
      | Some (fs, st) \<Rightarrow>
          let (d, a) = alloc_node d ((upd_bsd (\<lambda>x. x\<lparr>bsd_type := fstype\<rparr>) part)
                \<lparr>p_num := int i + 1, p_fs := map_option fs_name fs\<rparr>)
          in case ped_disk_add_partition bsd_disk_ops (dev_tab st) ask a
                    (ped_constraint_exact (dev_tab st) (p_geom part)) d of
               (Inl _, d) \<Rightarrow> Some (False, d, st)
             | (Inr _, d) \<Rightarrow> bsd_read_entries ops ask fs_types label is d st)))"

definition bsd_read ::
    "'s PedDeviceArchOps \<Rightarrow> PedExceptionHandler \<Rightarrow> 's PedFileSystemType list \<Rightarrow> BSDDisk \<Rightarrow> 's io_state \<Rightarrow>
     (bool \<times> BSDDisk \<times> 's io_state) option" where
  "bsd_read ops ask fs_types d st =
     (let d = ped_disk_delete_all bsd_disk_ops (dev_tab st) ask d
      in case ptt_read_sector ops (d_dev d) 0 st of
           None \<Rightarrow> Some (False, d, st)
         | Some s0 \<Rightarrow>
             let d = d\<lparr>d_specific := bsd_data_of_bytes s0\<rparr>
             in bsd_read_entries ops ask fs_types (bsd_label (d_specific d)) [0..<BSD_MAXPARTITIONS] d st)"

section \<open>Writing\<close>

text \<open>A label on the device that has boot code replaces the label in memory.\<close>

definition probe_and_add_boot_code :: "'s PedDeviceArchOps \<Rightarrow> BSDDisk \<Rightarrow> 's io_state \<Rightarrow> BSDDisk" where
  "probe_and_add_boot_code ops d st =
     (case ptt_read_sector ops (d_dev d) 0 st of
        None \<Rightarrow> d
      | Some s0 \<Rightarrow>
          let old_data = bsd_data_of_bytes s0
          in if bsd_boot_code old_data ! 0 \<noteq> 0 \<and> d_magic (bsd_label old_data) = BSD_DISKMAGIC
             then d\<lparr>d_specific := old_data\<rparr> else d)"

definition bsd_store :: "BSDDisk \<Rightarrow> nat \<Rightarrow> BSDRawPartition \<Rightarrow> BSDRawPartition" where
  "bsd_store d i raw =
     (case ped_disk_get_partition d (int i + 1) of
        None \<Rightarrow> raw
      | Some part \<Rightarrow> raw\<lparr>p_fstype := bsd_type (bsd_data (node d part)),
          p_offset := word_of_int (g_start (geom_of d part)), p_size := word_of_int (g_length (geom_of d part))\<rparr>)"

definition bsd_max_part :: "BSDDisk \<Rightarrow> nat" where
  "bsd_max_part d =
     fold (\<lambda>i max_part. if ped_disk_get_partition d (int i) = None then max_part else i) [1..<BSD_MAXPARTITIONS + 1] 0"

definition bsd_zero_parts :: "BSDRawPartition list" where
  "bsd_zero_parts = replicate BSD_MAXPARTITIONS
     \<lparr>p_size = 0, p_offset = 0, p_fsize = 0, p_fstype = 0, p_frag = 0, p_cpg = 0\<rparr>"

definition bsd_label_to_write :: "BSDDisk \<Rightarrow> BSDRawLabel" where
  "bsd_label_to_write d =
     (let label = (bsd_label (d_specific d))
            \<lparr>d_partitions := fold (\<lambda>i ps. ps[i := bsd_store d i (ps ! i)]) [0..<BSD_MAXPARTITIONS] bsd_zero_parts\<rparr>;
          label = label\<lparr>d_npartitions := word_of_int (int (bsd_max_part d) + 1)\<rparr>
      in label\<lparr>d_checksum := xbsd_dkcksum label\<rparr>)"

definition bsd_write ::
    "'s PedDeviceArchOps \<Rightarrow> BSDDisk \<Rightarrow> 's io_state \<Rightarrow> bool \<times> BSDDisk \<times> 's io_state" where
  "bsd_write ops d st =
     (let d = (if bsd_boot_code (d_specific d) ! 0 = 0 then probe_and_add_boot_code ops d st else d);
          d = d\<lparr>d_specific := alpha_bootblock_checksum ((d_specific d)\<lparr>bsd_label := bsd_label_to_write d\<rparr>)\<rparr>
      in case ptt_write_sector ops (d_dev d) (bsd_data_bytes (d_specific d)) st of
           (False, st) \<Rightarrow> (False, d, st)
         | (True, st) \<Rightarrow> (case ped_device_sync ops (d_dev d) st of (ok, st) \<Rightarrow> (ok, d, st)))"

section \<open>The label in memory and as a structure\<close>

definition bsd_label_wf :: "BSDRawLabel \<Rightarrow> bool" where
  "bsd_label_wf l \<longleftrightarrow> length (d_typename l) = 16 \<and> length (d_packname l) = 16 \<and> length (d_drivedata l) = 5
     \<and> length (d_spare l) = 5 \<and> length (d_partitions l) = 8"

definition bsd_data_wf :: "BSDDiskData \<Rightarrow> bool" where
  "bsd_data_wf x \<longleftrightarrow> length (bsd_boot_code x) = 64 \<and> bsd_label_wf (bsd_label x) \<and> length (bsd_unused x) = 172"

lemma length_bsd_part_bytes [simp]: "length (bsd_part_bytes p) = 16"
  by (simp add: bsd_part_bytes_def)

lemma bsd_part_roundtrip: "bsd_part_of_bytes (bsd_part_bytes p) = p"
  by (simp add: bsd_part_of_bytes_def bsd_part_bytes_def field_def nth_append)

lemma bsd_member_sizes: "bsd_label_wf l \<Longrightarrow> map length (bsd_members l) = bsd_sizes"
  using length_concat_const[of "d_partitions l" bsd_part_bytes 16] length_concat_const[of "d_drivedata l" "le_bytes 4" 4]
    length_concat_const[of "d_spare l" "le_bytes 4" 4]
  by (simp add: bsd_members_def bsd_sizes_def bsd_label_wf_def del: length_concat)

lemma length_bsd_label_bytes: "bsd_label_wf l \<Longrightarrow> length (bsd_label_bytes l) = 276"
  using bsd_member_sizes[of l] by (simp add: bsd_label_bytes_def length_concat bsd_sizes_def)

lemma bsd_label_roundtrip:
  assumes "bsd_label_wf l"
  shows "bsd_label_of_bytes (bsd_label_bytes l @ rest) = l"
proof -
  have c: "chunks bsd_sizes (bsd_label_bytes l @ rest) = bsd_members l"
    unfolding bsd_label_bytes_def by (rule chunks_concat[OF bsd_member_sizes[OF assms]])
  have p: "raw_array bsd_part_of_bytes 16 (length (d_partitions l)) (concat (map bsd_part_bytes (d_partitions l)))
      = d_partitions l"
    by (rule raw_array_concat) (simp add: bsd_part_roundtrip)
  have w: "raw_array of_le 4 (length ws) (concat (map (le_bytes 4) ws)) = (ws :: 32 word list)" for ws
    by (rule raw_array_concat) simp
  show ?thesis
    using p w[of "d_drivedata l"] w[of "d_spare l"] assms
    by (simp add: bsd_label_of_bytes_def c Let_def) (simp add: bsd_members_def bsd_label_wf_def)
qed

lemma bsd_label_of_bytes_wf: "276 \<le> length bs \<Longrightarrow> bsd_label_wf (bsd_label_of_bytes bs)"
proof -
  assume "276 \<le> length bs"
  then have m: "map length (chunks bsd_sizes bs) = bsd_sizes" using chunks_props[of bsd_sizes bs] by (simp add: bsd_sizes_def)
  then have "length (chunks bsd_sizes bs) = length bsd_sizes" by (metis length_map)
  also have "\<dots> = 29" by (simp add: bsd_sizes_def)
  finally have l: "length (chunks bsd_sizes bs ! i) = bsd_sizes ! i" if "i < 29" for i
    using that nth_map[of i "chunks bsd_sizes bs" length] m by simp
  show ?thesis
    using l[of 3] l[of 4] by (simp add: bsd_label_wf_def bsd_label_of_bytes_def Let_def bsd_sizes_def)
qed

lemma bsd_data_props:
  "bsd_data_wf x \<Longrightarrow> length (bsd_data_bytes x) = 512"
  "bsd_data_wf x \<Longrightarrow> bsd_data_of_bytes (bsd_data_bytes x @ rest) = x"
  "512 \<le> length bs \<Longrightarrow> bsd_data_wf (bsd_data_of_bytes bs)"
  using bsd_label_of_bytes_wf[of "drop 64 bs"]
  by (simp_all add: bsd_data_wf_def bsd_data_bytes_def bsd_data_of_bytes_def length_bsd_label_bytes bsd_label_roundtrip field_def)

section \<open>The checksums\<close>

text \<open>
  The words that the checksum covers end before the number of partitions and the entries: whatever
  these hold, the checksum is the same.
\<close>

lemma bsd_checksum_ignores_partitions:
  assumes "bsd_label_wf l" "length ps = 8" "unat (d_npartitions l) \<le> 9"
  shows "xbsd_dkcksum (l\<lparr>d_partitions := ps\<rparr>) = xbsd_dkcksum l"
proof -
  let ?head = "concat (take 25 (bsd_members (l\<lparr>d_checksum := 0\<rparr>)))"
  have wf: "bsd_label_wf (l\<lparr>d_checksum := 0\<rparr>)" using assms(1) by (simp add: bsd_label_wf_def)
  have "length ?head = sum_list (map length (take 25 (bsd_members (l\<lparr>d_checksum := 0\<rparr>))))" by (simp add: length_concat)
  also have "\<dots> = sum_list (take 25 bsd_sizes)" by (simp add: take_map[symmetric] bsd_member_sizes[OF wf])
  finally have h: "length ?head = 138" by (simp add: bsd_sizes_def)
  have t: "take 25 (bsd_members (l\<lparr>d_partitions := ps, d_checksum := 0\<rparr>)) = take 25 (bsd_members (l\<lparr>d_checksum := 0\<rparr>))"
    by (simp add: bsd_members_def)
  have split: "bsd_label_bytes m = concat (take 25 (bsd_members m)) @ concat (drop 25 (bsd_members m))" for m
    unfolding bsd_label_bytes_def concat_append[symmetric] append_take_drop_id by (rule refl)
  have n: "59 + unat (d_npartitions l) \<le> 69" using assms(3) by simp
  have "take (59 + unat (d_npartitions l)) (words16 (bsd_label_bytes m)) = take (59 + unat (d_npartitions l)) (words16 ?head)"
    if "take 25 (bsd_members m) = take 25 (bsd_members (l\<lparr>d_checksum := 0\<rparr>))" for m
    unfolding split[of m] that using n h by (subst words16_append) (simp_all add: length_words16)
  from this[OF t] this[OF refl] show ?thesis by (simp add: xbsd_dkcksum_def)
qed

lemma alpha_props:
  assumes "bsd_data_wf x"
  shows "bsd_data_wf (alpha_bootblock_checksum x)" "bsd_label (alpha_bootblock_checksum x) = bsd_label x"
    "bsd_boot_code (alpha_bootblock_checksum x) = bsd_boot_code x"
    "of_le (drop 504 (bsd_data_bytes (alpha_bootblock_checksum x)))
       = (foldl (+) 0 (raw_array of_le 8 63 (bsd_data_bytes (alpha_bootblock_checksum x))) :: 64 word)"
proof -
  define y where "y = alpha_bootblock_checksum x"
  have y: "y = x\<lparr>bsd_unused := take 164 (bsd_unused x) @ le_bytes 8 (foldl (+) 0 (raw_array of_le 8 63 (bsd_data_bytes x)) :: 64 word)\<rparr>"
    by (simp add: y_def alpha_bootblock_checksum_def)
  have wf: "bsd_data_wf y" using assms by (simp add: y bsd_data_wf_def)
  then show "bsd_data_wf (alpha_bootblock_checksum x)" "bsd_label (alpha_bootblock_checksum x) = bsd_label x"
    "bsd_boot_code (alpha_bootblock_checksum x) = bsd_boot_code x"
    unfolding y_def[symmetric] by (simp_all add: y)
  have len: "length (bsd_label_bytes (bsd_label x)) = 276" "length (bsd_boot_code x) = 64" "length (bsd_unused x) = 172"
    using assms by (simp_all add: bsd_data_wf_def length_bsd_label_bytes)
  have "chunks (replicate k 8) bs = chunks (replicate k 8) bs'" if "take (8 * k) bs = take (8 * k) bs'"
    for k and bs bs' :: "byte list"
    using that
  proof (induction k arbitrary: bs bs')
    case (Suc k)
    have "take 8 bs = take 8 bs'" "take (8 * k) (drop 8 bs) = take (8 * k) (drop 8 bs')"
      using arg_cong[OF Suc.prems, of "take 8"] arg_cong[OF Suc.prems, of "drop 8"] by (simp_all add: min_def drop_take)
    then show ?case using Suc.IH[of "drop 8 bs" "drop 8 bs'"] by simp
  qed simp
  from this[of 63 "bsd_data_bytes y" "bsd_data_bytes x"]
  have "raw_array of_le 8 63 (bsd_data_bytes y) = (raw_array of_le 8 63 (bsd_data_bytes x) :: 64 word list)"
    using len by (simp add: raw_array_def y bsd_data_bytes_def min_def)
  moreover have "drop 504 (bsd_data_bytes y) = le_bytes 8 (foldl (+) 0 (raw_array of_le 8 63 (bsd_data_bytes x)) :: 64 word)"
    using len by (simp add: y bsd_data_bytes_def)
  ultimately show "of_le (drop 504 (bsd_data_bytes (alpha_bootblock_checksum x)))
       = (foldl (+) 0 (raw_array of_le 8 63 (bsd_data_bytes (alpha_bootblock_checksum x))) :: 64 word)"
    unfolding y_def[symmetric] by simp
qed

section \<open>What is written\<close>

definition bsd_labelled :: "BSDDisk \<Rightarrow> bool" where
  "bsd_labelled d \<longleftrightarrow> bsd_data_wf (d_specific d) \<and> d_magic (bsd_label (d_specific d)) = BSD_DISKMAGIC"

lemma bsd_boot_code_props:
  assumes "bsd_labelled d" "512 \<le> length s0" "ptt_read_sector ops (d_dev d) 0 st = Some s0"
  shows "bsd_labelled (probe_and_add_boot_code ops d st)" "d_dev (probe_and_add_boot_code ops d st) = d_dev d"
    "bsd_store (probe_and_add_boot_code ops d st) = bsd_store d"
proof -
  have "bsd_store (d\<lparr>d_specific := x\<rparr>) = bsd_store d" for x
    by (simp add: bsd_store_def ped_disk_get_partition_def disk_walk_def node_def fun_eq_iff
        ped_disk_extended_partition_def cong: if_cong option.case_cong)
  then show "bsd_labelled (probe_and_add_boot_code ops d st)" "d_dev (probe_and_add_boot_code ops d st) = d_dev d"
    "bsd_store (probe_and_add_boot_code ops d st) = bsd_store d"
    using assms(1,3) bsd_data_props(3)[OF assms(2)] by (simp_all add: probe_and_add_boot_code_def bsd_labelled_def Let_def)
qed

lemma bsd_label_to_write_props:
  assumes "bsd_label_wf (bsd_label (d_specific d))"
  shows "bsd_label_wf (bsd_label_to_write d)" "d_magic (bsd_label_to_write d) = d_magic (bsd_label (d_specific d))"
    "i < 8 \<Longrightarrow> d_partitions (bsd_label_to_write d) ! i = bsd_store d i (bsd_zero_parts ! 0)"
proof -
  have l: "length bsd_zero_parts = 8" by (simp add: bsd_zero_parts_def)
  have p: "d_partitions (bsd_label_to_write d) = map (\<lambda>i. bsd_store d i (bsd_zero_parts ! i)) [0..<8]"
    using fold_list_update[of 8 bsd_zero_parts "bsd_store d"] l by (simp add: bsd_label_to_write_def Let_def)
  then show "bsd_label_wf (bsd_label_to_write d)"
    using assms by (simp add: bsd_label_wf_def) (simp add: bsd_label_to_write_def Let_def)
  show "d_magic (bsd_label_to_write d) = d_magic (bsd_label (d_specific d))"
    by (simp add: bsd_label_to_write_def Let_def)
  show "i < 8 \<Longrightarrow> d_partitions (bsd_label_to_write d) ! i = bsd_store d i (bsd_zero_parts ! 0)"
    unfolding p by (simp add: bsd_zero_parts_def del: upt_conv_Cons)
qed

text \<open>A partition whose start and length the entries can hold.\<close>

definition bsd_fits :: "BSDPart \<Rightarrow> bool" where
  "bsd_fits p \<longleftrightarrow> 0 \<le> g_start (p_geom p) \<and> g_start (p_geom p) < 2 ^ 32 \<and> 1 \<le> g_length (p_geom p) \<and> g_length (p_geom p) < 2 ^ 32
     \<and> g_end (p_geom p) = g_start (p_geom p) + g_length (p_geom p) - 1 \<and> bsd_type (bsd_data p) \<noteq> 0"

text \<open>What reading makes of a partition: its end is one of 32 bits.\<close>

definition bsd_read_as :: "BSDDisk \<Rightarrow> nat \<Rightarrow> (byte \<times> PedSector \<times> PedSector) option" where
  "bsd_read_as d i = map_option (\<lambda>part. (bsd_type (bsd_data (node d part)), g_start (geom_of d part), g_end (geom_of d part) mod 2 ^ 32))
     (ped_disk_get_partition d (int i + 1))"

lemma bsd_entry_stored:
  assumes "d_partitions l ! i = bsd_store d i (bsd_zero_parts ! 0)"
    and "\<And>part. ped_disk_get_partition d (int i + 1) = Some part \<Longrightarrow> bsd_fits (node d part)"
  shows "bsd_entry l i = bsd_read_as d i"
proof (cases "ped_disk_get_partition d (int i + 1)")
  case None
  then show ?thesis using assms(1) by (simp add: bsd_entry_def bsd_store_def bsd_read_as_def bsd_zero_parts_def Let_def)
next
  case (Some part)
  let ?g = "geom_of d part"
  have f: "0 \<le> g_start ?g" "g_start ?g < 2 ^ 32" "1 \<le> g_length ?g" "g_length ?g < 2 ^ 32"
    "g_end ?g = g_start ?g + g_length ?g - 1" "bsd_type (bsd_data (node d part)) \<noteq> 0"
    using assms(2)[OF Some] by (simp_all add: bsd_fits_def)
  have e: "d_partitions l ! i = \<lparr>p_size = word_of_int (g_length ?g), p_offset = word_of_int (g_start ?g), p_fsize = 0,
      p_fstype = bsd_type (bsd_data (node d part)), p_frag = 0, p_cpg = 0\<rparr>"
    using assms(1) Some by (simp add: bsd_store_def bsd_zero_parts_def)
  have s: "uint (word_of_int (g_start ?g) :: 32 word) = g_start ?g" "uint (word_of_int (g_length ?g) :: 32 word) = g_length ?g"
    using f(1-4) by (simp_all add: uint_word_of_int)
  then have n: "word_of_int (g_length ?g) \<noteq> (0 :: 32 word)" using f(3) by (auto dest: arg_cong[where f = uint])
  have "uint (word_of_int (g_start ?g) + word_of_int (g_length ?g) - 1 :: 32 word) = g_end ?g mod 2 ^ 32"
    by (simp add: f(5) uint_word_of_int uint_word_ariths mod_simps)
  then show ?thesis using n f(6) s(1) Some by (simp add: bsd_entry_def e bsd_read_as_def Let_def)
qed

lemma bsd_write_spec:
  assumes "working_device ops (d_dev d) img st" "512 \<le> sector_size (dev_of st (d_dev d))" "0 < dev_length (dev_of st (d_dev d))"
    and "bsd_labelled d"
  obtains q d' x where "bsd_write ops d st = (True, d', st\<lparr>platform := q\<rparr>)"
    "img (st\<lparr>platform := q\<rparr>) = (img st)(0 := bsd_data_bytes x @ replicate (length (img st 0) - 512) 0)"
    "bsd_data_wf x" "d_magic (bsd_label x) = BSD_DISKMAGIC"
    "of_le (drop 504 (bsd_data_bytes x)) = (foldl (+) 0 (raw_array of_le 8 63 (bsd_data_bytes x)) :: 64 word)"
    "\<And>i. i < 8 \<Longrightarrow> d_partitions (bsd_label x) ! i = bsd_store d i (bsd_zero_parts ! 0)"
    "ptt_read_sector ops (d_dev d) 0 (st\<lparr>platform := q\<rparr>) = Some (img (st\<lparr>platform := q\<rparr>) 0)"
proof -
  let ?dev = "d_dev d"
  have i: "in_device st ?dev 0 1" using assms(3) by (simp add: in_device_def)
  have len: "length (img st 0) = sector_bytes st ?dev 1" by (rule working_length[OF assms(1) i])
  then have l512: "512 \<le> length (img st 0)" using assms(2) by (simp add: sector_bytes_def)
  define e where "e = (if bsd_boot_code (d_specific d) ! 0 = 0 then probe_and_add_boot_code ops d st else d)"
  have e: "bsd_labelled e" "d_dev e = ?dev" "bsd_store e = bsd_store d"
    using bsd_boot_code_props[OF assms(4) l512 read_sector_eq[OF assms(1) i]] assms(4) by (simp_all add: e_def)
  have wf: "bsd_data_wf (d_specific e)" and mg: "d_magic (bsd_label (d_specific e)) = BSD_DISKMAGIC"
    using e(1) by (simp_all add: bsd_labelled_def)
  then have lwf: "bsd_label_wf (bsd_label (d_specific e))" by (simp add: bsd_data_wf_def)
  note l = bsd_label_to_write_props[OF lwf]
  define y where "y = (d_specific e)\<lparr>bsd_label := bsd_label_to_write e\<rparr>"
  have "bsd_data_wf y" using wf l(1) by (simp add: y_def bsd_data_wf_def)
  note a = alpha_props[OF this]
  define x where "x = alpha_bootblock_checksum y"
  define new where "new = bsd_data_bytes x @ replicate (length (img st 0) - 512) 0"
  have n: "nat (sector_size (dev_of st ?dev)) - length (bsd_data_bytes x) = length (img st 0) - 512"
    using bsd_data_props(1) a(1) len by (simp add: x_def sector_bytes_def)
  have new: "length new = sector_bytes st ?dev 1"
    using l512 len bsd_data_props(1)[of x] a(1) by (simp add: new_def x_def)
  obtain q where q: "ped_device_write ops ?dev new 0 1 st = (True, st\<lparr>platform := q\<rparr>)"
    "img (st\<lparr>platform := q\<rparr>) = (img st)(0 := new)"
    using sector_written[OF assms(1) i new] by blast
  obtain q' where q': "ped_device_sync ops ?dev (st\<lparr>platform := q\<rparr>) = (True, st\<lparr>platform := q'\<rparr>)"
    "img (st\<lparr>platform := q'\<rparr>) = img (st\<lparr>platform := q\<rparr>)"
    using assms(1) unfolding working_device_def by blast
  have "bsd_write ops d st = (True, e\<lparr>d_specific := x\<rparr>, st\<lparr>platform := q'\<rparr>)"
    using q(1) q'(1) e(2)
    by (simp add: bsd_write_def Let_def e_def[symmetric] y_def[symmetric] x_def[symmetric] ptt_write_sector_def n
        new_def[symmetric])
  moreover have "img (st\<lparr>platform := q'\<rparr>) = (img st)(0 := bsd_data_bytes x @ replicate (length (img st 0) - 512) 0)"
    using q(2) q'(2) by (simp add: new_def)
  moreover have "ptt_read_sector ops ?dev 0 (st\<lparr>platform := q'\<rparr>) = Some (img (st\<lparr>platform := q'\<rparr>) 0)"
    by (rule read_sector_eq) (use assms(1) i in simp_all)
  ultimately show thesis
    using a mg l(2,3) e(3) by (intro that[of _ q' x]) (simp_all add: x_def y_def)
qed

text \<open>
  C18. Writing a BSD label to a device that works. It succeeds; no other sector changes, and what is
  behind the first 512 bytes of sector 0 becomes zero; the label is found by \<open>bsd_probe\<close>; the last
  64-bit word of the 512 bytes is the sum of the others; and each of the eight entries says what the
  table in memory says: type, first sector and last sector (the last one modulo \<open>2 ^ 32\<close>), and
  nothing where there is no partition.
\<close>
theorem bsd_write_is_found:
  assumes "working_device ops (d_dev d) img st" "512 \<le> sector_size (dev_of st (d_dev d))" "0 < dev_length (dev_of st (d_dev d))"
    and "bsd_labelled d"
    and "\<forall>i \<in> {1 .. 8}. \<forall>part. ped_disk_get_partition d i = Some part \<longrightarrow> bsd_fits (node d part)"
  shows "\<exists>q d'. bsd_write ops d st = (True, d', st\<lparr>platform := q\<rparr>) \<and>
    (let new = img (st\<lparr>platform := q\<rparr>) in
      (\<forall>j. j \<noteq> 0 \<longrightarrow> new j = img st j) \<and> drop 512 (new 0) = replicate (length (img st 0) - 512) 0 \<and>
      bsd_probe ops (d_dev d) (st\<lparr>platform := q\<rparr>) \<and>
      of_le (drop 504 (take 512 (new 0))) = (foldl (+) 0 (raw_array of_le 8 63 (take 512 (new 0))) :: 64 word) \<and>
      (\<forall>i < 8. bsd_entry (bsd_label (bsd_data_of_bytes (new 0))) i = bsd_read_as d i))"
proof -
  obtain q d' x where w: "bsd_write ops d st = (True, d', st\<lparr>platform := q\<rparr>)"
    "img (st\<lparr>platform := q\<rparr>) = (img st)(0 := bsd_data_bytes x @ replicate (length (img st 0) - 512) 0)"
    "bsd_data_wf x" "d_magic (bsd_label x) = BSD_DISKMAGIC"
    "of_le (drop 504 (bsd_data_bytes x)) = (foldl (+) 0 (raw_array of_le 8 63 (bsd_data_bytes x)) :: 64 word)"
    "\<And>i. i < 8 \<Longrightarrow> d_partitions (bsd_label x) ! i = bsd_store d i (bsd_zero_parts ! 0)"
    "ptt_read_sector ops (d_dev d) 0 (st\<lparr>platform := q\<rparr>) = Some (img (st\<lparr>platform := q\<rparr>) 0)"
    by (rule bsd_write_spec[OF assms(1-4)]) (rule that, assumption+)
  have x: "bsd_data_of_bytes (img (st\<lparr>platform := q\<rparr>) 0) = x" "length (bsd_data_bytes x) = 512"
    by (simp_all add: w(2) bsd_data_props(1)[OF w(3)] bsd_data_props(2)[OF w(3)])
  then have "bsd_probe ops (d_dev d) (st\<lparr>platform := q\<rparr>)"
    using w(4,7) assms(2) by (simp add: bsd_probe_def)
  moreover have "bsd_entry (bsd_label x) i = bsd_read_as d i" if "i < 8" for i
    by (rule bsd_entry_stored[OF w(6)[OF that]]) (use assms(5)[rule_format, of "int i + 1"] that in auto)
  moreover have "take 512 (img (st\<lparr>platform := q\<rparr>) 0) = bsd_data_bytes x"
    "drop 512 (img (st\<lparr>platform := q\<rparr>) 0) = replicate (length (img st 0) - 512) 0"
    "\<And>j. j \<noteq> 0 \<Longrightarrow> img (st\<lparr>platform := q\<rparr>) j = img st j"
    using x(2) by (simp_all add: w(2))
  ultimately show ?thesis using w(1,5) by (intro exI[of _ q] exI[of _ d']) (simp add: Let_def x(1))
qed

text \<open>A table with one partition, and a device in memory for it.\<close>

definition bsd_demo :: "PedSector \<Rightarrow> PedSector \<Rightarrow> BSDDisk" where
  "bsd_demo start len = \<lparr>d_dev = 0, part_list = [0],
     d_heap = [0 \<mapsto> \<lparr>p_geom = \<lparr>g_dev = 0, g_start = start, g_length = len, g_end = start + len - 1\<rparr>, p_num = 1,
                     p_type = PED_PARTITION_NORMAL, p_fs = None, p_list = [],
                     p_specific = Some \<lparr>bsd_type = 8, bsd_boot = False, bsd_raid = False, bsd_lvm = False\<rparr>\<rparr>],
     next_addr = 1, needs_clobber = False, update_mode = 1,
     d_specific = zero_bsd\<lparr>bsd_label := (bsd_label zero_bsd)\<lparr>d_magic := BSD_DISKMAGIC\<rparr>\<rparr>\<rparr>"

definition bsd_ram :: "ram io_state" where
  "bsd_ram = ram_state 10000 512 (\<lambda>_. replicate 512 0)"

abbreviation bsd_ram_ops :: "ram PedDeviceArchOps" where
  "bsd_ram_ops \<equiv> uefi_dev_ops (ram_fw 10000 512)"

lemma bsd_demo_facts:
  "d_dev (bsd_demo s l) = 0" "bsd_labelled (bsd_demo s l)"
  "ped_disk_get_partition (bsd_demo s l) i = (if i = 1 then Some 0 else None)"
  "node (bsd_demo s l) 0 = \<lparr>p_geom = \<lparr>g_dev = 0, g_start = s, g_length = l, g_end = s + l - 1\<rparr>, p_num = 1,
     p_type = PED_PARTITION_NORMAL, p_fs = None, p_list = [],
     p_specific = Some \<lparr>bsd_type = 8, bsd_boot = False, bsd_raid = False, bsd_lvm = False\<rparr>\<rparr>"
proof -
  have "bsd_data_wf zero_bsd" unfolding zero_bsd_def by (rule bsd_data_props(3)) simp
  then show "d_dev (bsd_demo s l) = 0" "bsd_labelled (bsd_demo s l)"
    by (simp_all add: bsd_demo_def bsd_labelled_def bsd_data_wf_def bsd_label_wf_def)
  show "ped_disk_get_partition (bsd_demo s l) i = (if i = 1 then Some 0 else None)"
    by (simp add: ped_disk_get_partition_def disk_walk_def bsd_demo_def node_def ped_disk_extended_partition_def)
qed (simp add: bsd_demo_def node_def)

lemma bsd_ram_facts:
  "working_device bsd_ram_ops (d_dev (bsd_demo s l)) (\<lambda>st. ram_blk 512 (platform st)) bsd_ram"
  "512 \<le> sector_size (dev_of bsd_ram (d_dev (bsd_demo s l)))" "0 < dev_length (dev_of bsd_ram (d_dev (bsd_demo s l)))"
  "dev_length (dev_of bsd_ram 0) = 10000"
proof -
  show "working_device bsd_ram_ops (d_dev (bsd_demo s l)) (\<lambda>st. ram_blk 512 (platform st)) bsd_ram"
    unfolding bsd_ram_def bsd_demo_facts(1) by (rule ram_working) simp_all
qed (simp_all add: bsd_ram_def ram_state_def)

theorem bsd_write_is_found_witness:
  "\<exists>q d'. bsd_write bsd_ram_ops (bsd_demo 16 5000) bsd_ram = (True, d', bsd_ram\<lparr>platform := q\<rparr>) \<and>
    bsd_probe bsd_ram_ops 0 (bsd_ram\<lparr>platform := q\<rparr>) \<and>
    bsd_entry (bsd_label (bsd_data_of_bytes (ram_blk 512 q 0))) 0 = Some (8, 16, 5015)"
proof -
  have "\<forall>i \<in> {1 .. 8}. \<forall>part. ped_disk_get_partition (bsd_demo 16 5000) i = Some part \<longrightarrow> bsd_fits (node (bsd_demo 16 5000) part)"
    by (simp add: bsd_demo_facts(3)) (simp add: bsd_demo_facts(4) bsd_fits_def bsd_data_def)
  from bsd_write_is_found[OF bsd_ram_facts(1-3) bsd_demo_facts(2) this, unfolded bsd_demo_facts(1)]
  obtain q d' where w: "bsd_write bsd_ram_ops (bsd_demo 16 5000) bsd_ram = (True, d', bsd_ram\<lparr>platform := q\<rparr>)"
    "bsd_probe bsd_ram_ops 0 (bsd_ram\<lparr>platform := q\<rparr>)"
    "\<forall>i < 8. bsd_entry (bsd_label (bsd_data_of_bytes (ram_blk 512 q 0))) i = bsd_read_as (bsd_demo 16 5000) i"
    unfolding Let_def by auto
  have "bsd_entry (bsd_label (bsd_data_of_bytes (ram_blk 512 q 0))) 0 = bsd_read_as (bsd_demo 16 5000) 0"
    by (rule w(3)[rule_format]) simp
  also have "\<dots> = Some (8, 16, 5015)" by (simp add: bsd_read_as_def bsd_demo_facts(3,4) bsd_data_def)
  finally show ?thesis using w(1,2) by blast
qed

section \<open>Fresh tables\<close>

lemma bsd_clobber [simp]:
  "bsd_inv devs (d\<lparr>needs_clobber := b\<rparr>) = bsd_inv devs d"
  "bsd_allowed devs (d\<lparr>needs_clobber := b\<rparr>) ty g = bsd_allowed devs d ty g"
  by (simp_all add: bsd_inv_def bsd_allowed_def)

lemma bsd_fresh_ok:
  assumes "2 \<le> dev_length (devs dev)" "strict ask"
  shows "\<exists>d. ped_disk_new_fresh bsd_disk_ops devs ask (bsd_alloc devs) dev = Some d \<and> bsd_ok devs d
    \<and> (\<forall>k. actives d k = []) \<and> needs_clobber d \<and> d_dev d = dev"
proof -
  obtain d0 where d0: "bsd_alloc devs dev = Some d0" "bare devs dev d0" "d_dev d0 = dev"
    using assms(1) by (simp add: bsd_alloc_def Let_def bare_def ped_disk_alloc_def)
  have "bsd_inv devs d0" using d0(3) assms(1) by (simp add: bsd_inv_def)
  from bsd.fresh_disk_ok[where alloc = "bsd_alloc devs", OF d0(1,2) this assms(2)] show ?thesis by auto
qed

section \<open>A partition that cannot be read back\<close>

lemma bsd_limits: "pt_limit_lookup ''bsd'' (length ''bsd'') = Some (lim ''bsd'' UINT32_MAX UINT32_MAX)"
  by code_simp

text \<open>
  C19. A partition of a BSD table that ends behind sector \<open>2 ^ 32 - 1\<close>, although its start and its
  length are in the limits of the label, so that \<open>bsd_partition_check\<close> accepts it. The table is
  written without an error and found by \<open>bsd_probe\<close>, but when the partition has number 1, \<open>bsd_read\<close>
  fails: the last sector that it computes lies before the first one.
\<close>
theorem bsd_end_wraps:
  assumes "working_device ops (d_dev d) img st" "512 \<le> sector_size (dev_of st (d_dev d))" "0 < dev_length (dev_of st (d_dev d))"
    and "bsd_labelled d" "ped_disk_get_partition d 1 = Some part" "bsd_fits (node d part)" "2 ^ 32 \<le> g_end (geom_of d part)"
    and "bsd_ok (dev_tab st) e" "d_dev e = d_dev d" "strict ask"
  shows "bsd_partition_check (node d part) = Inr () \<and>
    (\<exists>q d' r. bsd_write ops d st = (True, d', st\<lparr>platform := q\<rparr>) \<and> bsd_probe ops (d_dev d) (st\<lparr>platform := q\<rparr>) \<and>
       bsd_read ops ask fs_types e (st\<lparr>platform := q\<rparr>) = Some (False, r))"
proof -
  let ?g = "geom_of d part"
  obtain q d' x where w: "bsd_write ops d st = (True, d', st\<lparr>platform := q\<rparr>)"
    "img (st\<lparr>platform := q\<rparr>) = (img st)(0 := bsd_data_bytes x @ replicate (length (img st 0) - 512) 0)"
    "bsd_data_wf x" "d_magic (bsd_label x) = BSD_DISKMAGIC"
    "\<And>i. i < 8 \<Longrightarrow> d_partitions (bsd_label x) ! i = bsd_store d i (bsd_zero_parts ! 0)"
    "ptt_read_sector ops (d_dev d) 0 (st\<lparr>platform := q\<rparr>) = Some (img (st\<lparr>platform := q\<rparr>) 0)"
    by (rule bsd_write_spec[OF assms(1-4)]) (rule that, assumption+)
  have x: "bsd_data_of_bytes (img (st\<lparr>platform := q\<rparr>) 0) = x"
    by (simp add: w(2) bsd_data_props(1)[OF w(3)] bsd_data_props(2)[OF w(3)])
  have p: "bsd_probe ops (d_dev d) (st\<lparr>platform := q\<rparr>)"
    using w(4,6) x assms(2) by (simp add: bsd_probe_def)
  have f: "g_start ?g < 2 ^ 32" "g_length ?g < 2 ^ 32" "g_end ?g = g_start ?g + g_length ?g - 1"
    using assms(6) by (simp_all add: bsd_fits_def)
  have "g_end ?g mod 2 ^ 32 = (g_end ?g - 2 ^ 32) mod 2 ^ 32" by (metis minus_mod_self2)
  also have "\<dots> = g_end ?g - 2 ^ 32" using f assms(7) by (intro mod_pos_pos_trivial) linarith+
  finally have short: "g_end ?g mod 2 ^ 32 < g_start ?g" using f by linarith
  have "bsd_entry (bsd_label x) 0 = bsd_read_as d 0"
    using bsd_entry_stored[OF w(5)[of 0]] assms(5,6) by simp
  then have ent: "bsd_entry (bsd_label x) 0 = Some (bsd_type (bsd_data (node d part)), g_start ?g, g_end ?g mod 2 ^ 32)"
    using assms(5) by (simp add: bsd_read_as_def)
  have new: "\<exists>err. ped_partition_new bsd_disk_ops h PED_PARTITION_NORMAL None (g_start ?g) (g_end ?g mod 2 ^ 32) = Inl err" for h
    using short by (simp add: ped_partition_new_def ped_disk_type_check_feature_def bsd_partition_new_def ped_partition_alloc_def
        geom_simps uninit_geometry_def)
  have dev: "d_dev (ped_disk_delete_all bsd_disk_ops (dev_tab st) ask e) = d_dev d"
    using bsd.delete_all_spec(2)[OF assms(8,10)] assms(9) by (simp add: same_disk_def)
  have up: "[0..<BSD_MAXPARTITIONS] = 0 # [1..<BSD_MAXPARTITIONS]" by (simp add: upt_rec)
  have "\<exists>r. bsd_read ops ask fs_types e (st\<lparr>platform := q\<rparr>) = Some (False, r)"
  proof -
    obtain err where "ped_partition_new bsd_disk_ops (ped_disk_delete_all bsd_disk_ops (dev_tab st) ask e\<lparr>d_specific := x\<rparr>)
        PED_PARTITION_NORMAL None (g_start ?g) (g_end ?g mod 2 ^ 32) = Inl err" using new by blast
    then show ?thesis unfolding bsd_read_def up using w(6) dev ent by (simp add: Let_def x)
  qed
  moreover have "bsd_partition_check (node d part) = Inr ()"
    unfolding bsd_partition_check_def ptt_partition_max_start_len_def bsd_limits
    using assms(6) by (simp add: lim_def to_uint64_id bsd_fits_def)
  ultimately show ?thesis using w(1) p by blast
qed

theorem bsd_end_wraps_witness:
  "bsd_partition_check (node (bsd_demo (2 ^ 32 - 10) 20) 0) = Inr () \<and>
    (\<exists>q d' r e. bsd_write bsd_ram_ops (bsd_demo (2 ^ 32 - 10) 20) bsd_ram = (True, d', bsd_ram\<lparr>platform := q\<rparr>) \<and>
       bsd_read bsd_ram_ops (\<lambda>_. PED_EXCEPTION_CANCEL) [] e (bsd_ram\<lparr>platform := q\<rparr>) = Some (False, r))"
proof -
  let ?d = "bsd_demo (2 ^ 32 - 10) 20"
  have s: "strict (\<lambda>_. PED_EXCEPTION_CANCEL)" by (simp add: strict_def)
  obtain e where e: "bsd_ok (dev_tab bsd_ram) e" "d_dev e = d_dev ?d"
    using bsd_fresh_ok[of "dev_tab bsd_ram" 0, OF _ s] bsd_ram_facts(4) bsd_demo_facts(1) by auto
  have p: "ped_disk_get_partition ?d 1 = Some 0" by (simp add: bsd_demo_facts(3))
  have f: "bsd_fits (node ?d 0)" "2 ^ 32 \<le> g_end (geom_of ?d 0)"
    by (simp_all add: bsd_demo_facts(4) bsd_fits_def bsd_data_def)
  from bsd_end_wraps[OF bsd_ram_facts(1-3) bsd_demo_facts(2) p f e s, of "[]"] show ?thesis by blast
qed

end
