(* ===== verification/Pc98.thy ===== *)
theory Pc98
  imports Label_Align Disk_Meta Pt_Limit Raw_Struct
begin

text \<open>
  The label type \<open>pc98\<close> (\<open>libparted/labels/pc98.c\<close>), its raw table and its operations on the table
  object: up to 16 partitions of whole cylinders of the hardware geometry, behind the first one,
  which holds the table. The host is little-endian, so that \<open>PED_CPU_TO_LE16\<close> and
  \<open>PED_LE16_TO_CPU\<close> are the identity.
\<close>

unbundle bit_operations_syntax

section \<open>The raw table\<close>

abbreviation MAX_PART_COUNT :: nat where "MAX_PART_COUNT \<equiv> 16"
abbreviation PC9800_EXTFMT_MAGIC :: "16 word" where "PC9800_EXTFMT_MAGIC \<equiv> 0xAA55"

record PC98RawPartition =
  pc_mid :: byte
  pc_sid :: byte
  pc_dum1 :: byte
  pc_dum2 :: byte
  pc_ipl_sect :: byte
  pc_ipl_head :: byte
  pc_ipl_cyl :: "16 word"
  pc_sector :: byte
  pc_head :: byte
  pc_cyl :: "16 word"
  pc_end_sector :: byte
  pc_end_head :: byte
  pc_end_cyl :: "16 word"
  pc_raw_name :: "byte list"

record PC98RawTable =
  pc_boot_code :: "byte list"
  pc_magic :: "16 word"
  pc_partitions :: "PC98RawPartition list"

definition pc98_part_bytes :: "PC98RawPartition \<Rightarrow> byte list" where
  "pc98_part_bytes p = [pc_mid p, pc_sid p, pc_dum1 p, pc_dum2 p, pc_ipl_sect p, pc_ipl_head p]
     @ le_bytes 2 (pc_ipl_cyl p) @ [pc_sector p, pc_head p] @ le_bytes 2 (pc_cyl p)
     @ [pc_end_sector p, pc_end_head p] @ le_bytes 2 (pc_end_cyl p) @ pc_raw_name p"

definition pc98_part_of_bytes :: "byte list \<Rightarrow> PC98RawPartition" where
  "pc98_part_of_bytes bs = \<lparr>pc_mid = bs ! 0, pc_sid = bs ! 1, pc_dum1 = bs ! 2, pc_dum2 = bs ! 3,
     pc_ipl_sect = bs ! 4, pc_ipl_head = bs ! 5, pc_ipl_cyl = of_le (field 6 2 bs), pc_sector = bs ! 8, pc_head = bs ! 9,
     pc_cyl = of_le (field 10 2 bs), pc_end_sector = bs ! 12, pc_end_head = bs ! 13, pc_end_cyl = of_le (field 14 2 bs),
     pc_raw_name = field 16 16 bs\<rparr>"

definition pc98_table_bytes :: "PC98RawTable \<Rightarrow> byte list" where
  "pc98_table_bytes t = pc_boot_code t @ le_bytes 2 (pc_magic t) @ concat (map pc98_part_bytes (pc_partitions t))"

definition pc98_table_of_bytes :: "byte list \<Rightarrow> PC98RawTable" where
  "pc98_table_of_bytes bs = \<lparr>pc_boot_code = field 0 510 bs, pc_magic = of_le (field 510 2 bs),
     pc_partitions = raw_array pc98_part_of_bytes 32 MAX_PART_COUNT (field 512 512 bs)\<rparr>"

text \<open>
  \<open>name\<close> is the string in the array of 17 characters, without its terminating zero. A fresh
  partition has an indeterminate \<open>system\<close>.
\<close>

record PC98PartitionData =
  pc_ipl_sector :: PedSector
  pc_system :: "32 word"
  pc_boot :: bool
  pc_hidden :: bool
  pc_name :: string

type_synonym PC98Disk = "(PC98PartitionData option, unit) PedDisk"
type_synonym PC98Part = "PC98PartitionData option PedPartition"

definition PC98_BOOT_CODE :: "byte list" where
  "PC98_BOOT_CODE = [0xcb, 0x00, 0x00, 0x00, 0x49, 0x50, 0x4c, 0x31]"

definition pc98_check_magic :: "PC98RawTable \<Rightarrow> bool" where
  "pc98_check_magic t \<longleftrightarrow> pc_magic t = PC9800_EXTFMT_MAGIC"

definition pc98_check_ipl_signature :: "PC98RawTable \<Rightarrow> bool" where
  "pc98_check_ipl_signature t \<longleftrightarrow>
     (let code = drop 4 (pc_boot_code t)
      in take 4 code = map byte_of_char ''IPL1'' \<or> take 8 code = map byte_of_char ''Linux 98''
         \<or> take 8 code = map byte_of_char ''GRUB/98 '')"

section \<open>Addresses\<close>

text \<open>The sum of \<open>chs_to_sector\<close> is one of \<open>int\<close>s.\<close>

definition pc98_chs_to_sector :: "PedDevice \<Rightarrow> int \<Rightarrow> int \<Rightarrow> int \<Rightarrow> PedSector" where
  "pc98_chs_to_sector dev c h s = c_int ((c * heads (hw_geom dev) + h) * sectors (hw_geom dev) + s)"

definition pc98_sector_to_chs :: "PedDevice \<Rightarrow> PedSector \<Rightarrow> int \<times> int \<times> int" where
  "pc98_sector_to_chs dev sector =
     (let cyl_size = heads (hw_geom dev) * sectors (hw_geom dev)
      in (c_int (sector sdiv cyl_size), c_int (sector smod cyl_size sdiv sectors (hw_geom dev)),
          c_int (sector smod cyl_size smod sectors (hw_geom dev))))"

definition pc98_legacy_start :: "PedDevice \<Rightarrow> PC98RawPartition \<Rightarrow> PedSector" where
  "pc98_legacy_start dev raw_part =
     pc98_chs_to_sector dev (uint (pc_cyl raw_part)) (uint (pc_head raw_part)) (uint (pc_sector raw_part))"

definition pc98_legacy_end :: "PedDevice \<Rightarrow> PC98RawPartition \<Rightarrow> PedSector" where
  "pc98_legacy_end dev raw_part =
     (if pc_end_head raw_part = 0 \<and> pc_end_sector raw_part = 0
      then pc98_chs_to_sector dev (uint (pc_end_cyl raw_part)) (heads (hw_geom dev) - 1) (sectors (hw_geom dev) - 1)
      else pc98_chs_to_sector dev (uint (pc_end_cyl raw_part)) (uint (pc_end_head raw_part)) (uint (pc_end_sector raw_part)))"

definition pc98_is_unused :: "PC98RawPartition \<Rightarrow> bool" where
  "pc98_is_unused r \<longleftrightarrow> \<not> (pc_mid r \<noteq> 0 \<or> pc_sid r \<noteq> 0 \<or> pc_ipl_sect r \<noteq> 0 \<or> pc_ipl_head r \<noteq> 0 \<or> pc_ipl_cyl r \<noteq> 0
     \<or> pc_sector r \<noteq> 0 \<or> pc_head r \<noteq> 0 \<or> pc_cyl r \<noteq> 0 \<or> pc_end_sector r \<noteq> 0 \<or> pc_end_head r \<noteq> 0 \<or> pc_end_cyl r \<noteq> 0)"

section \<open>Partitions\<close>

definition pc98_alloc :: "dev_ref \<Rightarrow> PC98Disk option" where
  "pc98_alloc dev = Some (ped_disk_alloc dev ())"

definition pc98_partition_new ::
    "PC98Disk \<Rightarrow> nat \<Rightarrow> string option \<Rightarrow> PedSector \<Rightarrow> PedSector \<Rightarrow> PC98Part result" where
  "pc98_partition_new d part_type fs_type start endd =
     (case ped_partition_alloc d part_type fs_type start endd None of
        Inl e \<Rightarrow> Inl e
      | Inr part \<Rightarrow>
          if ped_partition_is_active part
          then Inr (part\<lparr>p_specific := Some \<lparr>pc_ipl_sector = 0, pc_system = undefined, pc_boot = False, pc_hidden = False,
                  pc_name = []\<rparr>\<rparr>)
          else Inr part)"

definition upd_pc98 :: "(PC98PartitionData \<Rightarrow> PC98PartitionData) \<Rightarrow> PC98Part \<Rightarrow> PC98Part" where
  "upd_pc98 f part = part\<lparr>p_specific := map_option f (p_specific part)\<rparr>"

definition pc98_data :: "PC98Part \<Rightarrow> PC98PartitionData" where
  "pc98_data part = the (p_specific part)"

text \<open>The type for a file system on a partition of so many sectors, and whether it forces the boot flag.\<close>

definition pc98_system_for :: "string option \<Rightarrow> PedSector \<Rightarrow> 32 word \<times> bool" where
  "pc98_system_for fs_type len =
     (case fs_type of
        None \<Rightarrow> (0x2062, False)
      | Some name \<Rightarrow>
          if name = ''fat16'' then (if len * 512 \<ge> 32 * 1024 * 1024 then 0x2021 else 0x2011, False)
          else if name = ''fat32'' then (0x2061, False)
          else if name = ''ntfs'' then (0x2031, False)
          else if take 3 name = ''ufs'' then (0x2044, False)
          else (0xa062, True))"

definition pc98_with_system :: "string option \<Rightarrow> PedSector \<Rightarrow> PC98PartitionData \<Rightarrow> PC98PartitionData" where
  "pc98_with_system fs_type len x =
     (case pc98_system_for fs_type len of
        (sys, forced) \<Rightarrow>
          let boot = (pc_boot x \<or> forced);
              sys = (if boot then sys OR 0x8000 else sys);
              sys = (if \<not> pc_hidden x then sys OR 0x0080 else sys)
          in x\<lparr>pc_boot := boot, pc_system := sys\<rparr>)"

definition pc98_partition_set_system :: "PC98Part \<Rightarrow> string option \<Rightarrow> PC98Part result" where
  "pc98_partition_set_system part fs_type =
     Inr (upd_pc98 (pc98_with_system fs_type (g_length (p_geom part))) (part\<lparr>p_fs := fs_type\<rparr>))"

definition pc98_partition_set_flag :: "PC98Disk \<Rightarrow> addr \<Rightarrow> int \<Rightarrow> bool \<Rightarrow> bool \<times> PC98Disk" where
  "pc98_partition_set_flag d part flag state =
     (let set = (\<lambda>f. case pc98_partition_set_system (upd_pc98 f (node d part)) (p_fs (node d part)) of
            Inl _ \<Rightarrow> (False, d) | Inr p \<Rightarrow> (True, upd_node part (\<lambda>_. p) d))
      in if flag = PED_PARTITION_HIDDEN then set (\<lambda>x. x\<lparr>pc_hidden := state\<rparr>)
         else if flag = PED_PARTITION_BOOT then set (\<lambda>x. x\<lparr>pc_boot := state\<rparr>)
         else (False, d))"

definition pc98_partition_get_flag :: "PC98Part \<Rightarrow> int \<Rightarrow> bool" where
  "pc98_partition_get_flag part flag =
     (if flag = PED_PARTITION_HIDDEN then pc_hidden (pc98_data part)
      else if flag = PED_PARTITION_BOOT then pc_boot (pc98_data part)
      else False)"

definition pc98_partition_is_flag_available :: "PC98Part \<Rightarrow> int \<Rightarrow> bool" where
  "pc98_partition_is_flag_available part flag \<longleftrightarrow> flag = PED_PARTITION_HIDDEN \<or> flag = PED_PARTITION_BOOT"

text \<open>
  The loop that removes spaces ends in front of the array at the latest: the byte there is the
  highest one of the \<open>int\<close> \<open>hidden\<close>, which is 0 or 1.
\<close>

definition pc98_trim :: "string \<Rightarrow> string" where
  "pc98_trim name = rev (dropWhile (\<lambda>c. c = CHR '' '') (rev (takeWhile (\<lambda>c. c \<noteq> CHR 0x00) (take 16 name))))"

definition pc98_partition_set_name :: "PC98Part \<Rightarrow> string \<Rightarrow> PC98Part" where
  "pc98_partition_set_name part name = upd_pc98 (\<lambda>x. x\<lparr>pc_name := pc98_trim name\<rparr>) part"

definition pc98_partition_get_name :: "PC98Part \<Rightarrow> string" where
  "pc98_partition_get_name part = pc_name (pc98_data part)"

section \<open>Alignment, numbering and metadata\<close>

abbreviation pc98_cyl :: "dev_table \<Rightarrow> PC98Disk \<Rightarrow> PedSector" where
  "pc98_cyl devs d \<equiv> cylinder_size (hw_geom (devs (d_dev d)))"

definition pc98_get_partition_alignment :: "dev_table \<Rightarrow> PC98Disk \<Rightarrow> PedAlignment option" where
  "pc98_get_partition_alignment devs d = ped_alignment_new 0 (pc98_cyl devs d)"

definition pc98_primary_constraint :: "dev_table \<Rightarrow> PC98Disk \<Rightarrow> PedConstraint option" where
  "pc98_primary_constraint devs d =
     (let cyl = pc98_cyl devs d; len = dev_length (devs (d_dev d));
          max_geom = ped_geometry_init uninit_geometry (d_dev d) cyl (len - cyl)
      in constraint_of (ped_alignment_init undefined 0 cyl) (ped_alignment_init undefined (- 1) cyl) max_geom max_geom len)"

definition pc98_partition_align ::
    "dev_table \<Rightarrow> PC98Disk \<Rightarrow> addr \<Rightarrow> PedConstraint option \<Rightarrow> PedGeometry result" where
  "pc98_partition_align devs d part con =
     (case ped_partition_attempt_align devs (node d part) con (pc98_primary_constraint devs d) of
        Some g \<Rightarrow> Inr g
      | None \<Rightarrow> Inl (Some (error_cancel ''Unable to satisfy all constraints on the partition.'' [])))"

definition pc98_next_primary :: "PC98Disk \<Rightarrow> int" where
  "pc98_next_primary d =
     (case find (\<lambda>i. ped_disk_get_partition d i = None) [1 .. int MAX_PART_COUNT] of Some i \<Rightarrow> i | None \<Rightarrow> 0)"

definition pc98_partition_enumerate :: "PC98Disk \<Rightarrow> addr \<Rightarrow> bool \<times> int" where
  "pc98_partition_enumerate d part =
     (if p_num (node d part) \<noteq> - 1 then (True, p_num (node d part)) else (pc98_next_primary d \<noteq> 0, pc98_next_primary d))"

definition pc98_partition_check :: "PC98Part \<Rightarrow> unit result" where
  "pc98_partition_check part = ptt_partition_max_start_len ''pc98'' (p_geom part)"

definition pc98_get_max_primary_partition_count :: "PC98Disk \<Rightarrow> int" where
  "pc98_get_max_primary_partition_count d = int MAX_PART_COUNT"

definition pc98_get_max_supported_partition_count :: "PC98Disk \<Rightarrow> int" where
  "pc98_get_max_supported_partition_count d = int MAX_PART_COUNT"

definition pc98_base_ops :: "(PC98PartitionData option, unit) PedPartOps" where
  "pc98_base_ops = \<lparr>t_name = ''pc98'', t_features = PED_DISK_TYPE_PARTITION_NAME,
     op_partition_new = pc98_partition_new,
     op_partition_duplicate = (\<lambda>_ _. Inl None),
     op_partition_set_system = pc98_partition_set_system,
     op_partition_align = pc98_partition_align,
     op_partition_enumerate = pc98_partition_enumerate,
     op_partition_check = pc98_partition_check,
     op_get_max_primary_partition_count = pc98_get_max_primary_partition_count,
     op_partition_is_flag_available = pc98_partition_is_flag_available,
     op_partition_set_flag = pc98_partition_set_flag,
     op_partition_get_flag = pc98_partition_get_flag\<rparr>"

definition pc98_partition_duplicate :: "PC98Disk \<Rightarrow> PC98Part \<Rightarrow> PC98Part result" where
  "pc98_partition_duplicate d part =
     (case ped_partition_new pc98_base_ops d (p_type part) (p_fs part) (g_start (p_geom part)) (g_end (p_geom part)) of
        Inl e \<Rightarrow> Inl e
      | Inr new_part \<Rightarrow> Inr (upd_pc98 (\<lambda>_. pc98_data part) (new_part\<lparr>p_num := p_num part\<rparr>)))"

definition pc98_part_ops :: "(PC98PartitionData option, unit) PedPartOps" where
  "pc98_part_ops = pc98_base_ops\<lparr>op_partition_duplicate := pc98_partition_duplicate\<rparr>"

definition pc98_alloc_metadata :: "dev_table \<Rightarrow> PedExceptionHandler \<Rightarrow> PC98Disk \<Rightarrow> bool \<times> PC98Disk" where
  "pc98_alloc_metadata devs ask d =
     (case ped_partition_new pc98_part_ops d PED_PARTITION_METADATA None 0 (pc98_cyl devs d - 1) of
        Inl _ \<Rightarrow> (False, d)
      | Inr p \<Rightarrow>
          (case alloc_node d p of (d1, new_part) \<Rightarrow>
             link_metadata pc98_part_ops devs ask (ped_constraint_any devs (d_dev d)) d1 new_part))"

definition pc98_disk_ops :: "(PC98PartitionData option, unit) PedDiskOps" where
  "pc98_disk_ops =
     (let T = pc98_part_ops in
      \<lparr>t_name = t_name T, t_features = t_features T,
       op_partition_new = op_partition_new T,
       op_partition_duplicate = op_partition_duplicate T,
       op_partition_set_system = op_partition_set_system T,
       op_partition_align = op_partition_align T,
       op_partition_enumerate = op_partition_enumerate T,
       op_partition_check = op_partition_check T,
       op_get_max_primary_partition_count = op_get_max_primary_partition_count T,
       op_partition_is_flag_available = op_partition_is_flag_available T,
       op_partition_set_flag = op_partition_set_flag T,
       op_partition_get_flag = op_partition_get_flag T,
       op_alloc_metadata = pc98_alloc_metadata\<rparr>)"

definition pc98_duplicate :: "dev_table \<Rightarrow> PedExceptionHandler \<Rightarrow> PC98Disk \<Rightarrow> PC98Disk option" where
  "pc98_duplicate devs ask d = ped_disk_new_fresh pc98_disk_ops devs ask pc98_alloc (d_dev d)"

section \<open>The label contract\<close>

lemma pc98_part_ops_simps [simp]:
  "t_features pc98_part_ops = 2" "op_partition_new pc98_part_ops = pc98_partition_new"
  "op_partition_set_system pc98_part_ops = pc98_partition_set_system"
  by (simp_all add: pc98_part_ops_def pc98_base_ops_def)

lemma pc98_disk_ops_simps [simp]:
  "t_features pc98_disk_ops = 2" "op_partition_new pc98_disk_ops = pc98_partition_new"
  "op_partition_align pc98_disk_ops = pc98_partition_align"
  "op_partition_set_system pc98_disk_ops = pc98_partition_set_system"
  "op_alloc_metadata pc98_disk_ops = pc98_alloc_metadata"
  "op_partition_enumerate pc98_disk_ops = pc98_partition_enumerate"
  "op_partition_check pc98_disk_ops = pc98_partition_check"
  "op_partition_set_flag pc98_disk_ops = pc98_partition_set_flag"
  "op_partition_get_flag pc98_disk_ops = pc98_partition_get_flag"
  "op_partition_is_flag_available pc98_disk_ops = pc98_partition_is_flag_available"
  by (simp_all add: pc98_disk_ops_def pc98_part_ops_def pc98_base_ops_def Let_def)

lemma pc98_placeholder:
  assumes "s \<le> e" "ty \<noteq> PED_PARTITION_EXTENDED" "ty \<noteq> PED_PARTITION_LOGICAL" "\<not> is_active ty"
    "t_features T = 2" "op_partition_new T = pc98_partition_new"
  shows "ped_partition_new T d ty None s e =
     Inr \<lparr>p_geom = \<lparr>g_dev = d_dev d, g_start = s, g_length = e - s + 1, g_end = e\<rparr>, p_num = - 1,
       p_type = ty, p_fs = None, p_list = [], p_specific = None\<rparr>"
  using assms by (simp add: ped_partition_new_def ped_disk_type_check_feature_def pc98_partition_new_def
      ped_partition_alloc_def geom_simps uninit_geometry_def ped_partition_is_active_def is_active_def has_bit_def)

lemma pc98_new_span: "ped_partition_new pc98_disk_ops d ty fs s e = Inr p \<Longrightarrow> span_ok (p_geom p)"
  by (auto simp: ped_partition_new_def pc98_partition_new_def ped_partition_alloc_def pc98_partition_set_system_def upd_pc98_def
      dest!: geometry_init_span split: if_splits sum.splits option.splits)

text \<open>Partitions are whole cylinders behind the first one, on the device.\<close>

definition pc98_inv :: "dev_table \<Rightarrow> PC98Disk \<Rightarrow> bool" where
  "pc98_inv devs d \<longleftrightarrow> 0 < pc98_cyl devs d \<and> pc98_cyl devs d < 2 ^ 31"

definition pc98_allowed :: "dev_table \<Rightarrow> PC98Disk \<Rightarrow> nat \<Rightarrow> PedGeometry \<Rightarrow> bool" where
  "pc98_allowed devs d ty g \<longleftrightarrow> pc98_cyl devs d \<le> g_start g \<and> pc98_cyl devs d dvd g_start g
     \<and> pc98_cyl devs d dvd g_end g + 1 \<and> g_end g < dev_length (devs (d_dev d))"

lemma pc98_align_sound:
  assumes al: "pc98_partition_align devs d part (Some c) = Inr g" and inv: "pc98_inv devs d" and c: "usable d c"
    and dev: "g_dev (geom_of d part) = d_dev d"
  shows "ped_constraint_is_solution c g \<and> geom_wf g \<and> g_dev g = d_dev d \<and> pc98_allowed devs d ty g"
proof -
  let ?b = "pc98_cyl devs d"
  have b: "0 \<le> ?b" "?b < 2 ^ 31" "?b \<noteq> 0" using inv by (simp_all add: pc98_inv_def)
  have a: "ped_partition_attempt_align devs (node d part) (Some c) (pc98_primary_constraint devs d) = Some g"
    using al by (auto simp: pc98_partition_align_def split: option.splits)
  have u: "usable d i"
    "ped_constraint_is_solution i x \<Longrightarrow> pc98_allowed devs d ty x" if "pc98_primary_constraint devs d = Some i" for i x
  proof -
    note r = constraint_of_usable[OF that[unfolded pc98_primary_constraint_def Let_def] b(1,2,1,2,1,1)]
    show "usable d i" by (rule r(1))
    show "ped_constraint_is_solution i x \<Longrightarrow> pc98_allowed devs d ty x"
      using r(2-5)[of x] b(3) by (simp add: pc98_allowed_def)
  qed
  obtain i where "pc98_primary_constraint devs d = Some i" "ped_constraint_is_solution c g" "ped_constraint_is_solution i g"
    "geom_wf g" "g_dev g = d_dev d"
    by (rule attempt_align_sound[OF a c _ dev]) (use u(1) in auto)
  then show ?thesis using u(2) by simp
qed

lemma pc98_metadata_contract:
  assumes ok: "table_ok devs d" and act: "lists d = actives d" and inv: "pc98_inv devs d" and s: "strict ask"
    and allow: "\<forall>k. \<forall>a \<in> set (lists d k). pc98_allowed devs d (type_of d a) (geom_of d a)"
  shows "meta_run devs d (snd (pc98_alloc_metadata devs ask d))"
proof -
  let ?b = "pc98_cyl devs d"
  let ?p = "\<lparr>p_geom = \<lparr>g_dev = d_dev d, g_start = 0, g_length = ?b - 1 - 0 + 1, g_end = ?b - 1\<rparr>, p_num = - 1,
     p_type = PED_PARTITION_METADATA, p_fs = None, p_list = [], p_specific = (None :: PC98PartitionData option)\<rparr>"
  have b: "0 \<le> ?b - 1" using inv by (simp add: pc98_inv_def)
  have new: "ped_partition_new pc98_part_ops d PED_PARTITION_METADATA None 0 (?b - 1) = Inr ?p"
    by (rule pc98_placeholder[OF b]) (simp_all add: is_active_def has_bit_def)
  obtain d1 a where al: "alloc_node d ?p = (d1, a)" by fastforce
  have res: "snd (pc98_alloc_metadata devs ask d) =
      snd (link_metadata pc98_part_ops devs ask (ped_constraint_any devs (d_dev d)) d1 a)"
    using al new by (simp add: pc98_alloc_metadata_def)
  have "?b - 1 < g_start (geom_of d x)" if "x \<in> set (part_list d)" for x
    using allow[rule_format, of x False] that by (simp add: pc98_allowed_def)
  then have "meta_step devs d False [] (part_list d) 0 (?b - 1)
      (snd (link_metadata pc98_part_ops devs ask (ped_constraint_any devs (d_dev d)) d1 a))"
    using b by (intro metadata_step[OF ok _ s _ _ _ _ _ _ _ al]) (simp_all add: meta_type_cases)
  then show ?thesis unfolding res by (rule meta_run_step[OF meta_run_start[OF ok act]]) simp
qed

interpretation pc98: disk_label pc98_disk_ops pc98_inv pc98_allowed
proof (unfold_locales)
  fix s e :: PedSector and ty and d :: PC98Disk
  assume "s \<le> e" "ty = PED_PARTITION_FREESPACE \<or> ty = PED_PARTITION_FREESPACE + PED_PARTITION_LOGICAL"
  then show "\<exists>p. ped_partition_new pc98_disk_ops d ty None s e = Inr p \<and>
        p_geom p = \<lparr>g_dev = d_dev d, g_start = s, g_length = e - s + 1, g_end = e\<rparr> \<and>
        p_type p = ty \<and> p_list p = []"
    using pc98_placeholder[of s e ty pc98_disk_ops d] by (auto simp: is_active_def has_bit_def)
next
  show "same_disk d d' \<Longrightarrow> pc98_inv devs d \<Longrightarrow> pc98_inv devs d'" for devs and d d' :: PC98Disk
    by (simp add: pc98_inv_def same_disk_def)
  show "same_disk d d' \<Longrightarrow> pc98_allowed devs d ty g \<Longrightarrow> pc98_allowed devs d' ty g" for devs and d d' :: PC98Disk and ty g
    by (simp add: pc98_allowed_def same_disk_def)
next
  fix devs part con g c and d :: PC98Disk
  assume "op_partition_align pc98_disk_ops devs d part con = Inr g" "pc98_inv devs d"
    "neighbours_ok d part" "plain_type (type_of d part)" "span_ok (geom_of d part)" "con = Some c"
    "constraint_wf c" "constraint_small c" "constraint_dev c = d_dev d" "g_dev (geom_of d part) = d_dev d"
  then show "ped_constraint_is_solution c g \<and> geom_wf g \<and> g_dev g = d_dev d \<and> pc98_allowed devs d (type_of d part) g"
    using pc98_align_sound[of devs d part c g] by (simp add: usable_def)
next
  fix devs ask r and d d' :: PC98Disk
  assume b: "table_ok devs d" "update_mode d = 1" "lists d = actives d" "pc98_inv devs d"
    "\<forall>k. \<forall>a \<in> set (lists d k). pc98_allowed devs d (type_of d a) (geom_of d a)" "strict ask"
    and "op_alloc_metadata pc98_disk_ops devs ask d = (r, d')"
  then have "d' = snd (pc98_alloc_metadata devs ask d)" by simp
  then show "table_ok devs d' \<and> actives d' = actives d \<and> nonfree d' = lists d' \<and>
      (\<forall>a < next_addr d. core d' a = core d a) \<and> same_disk d d' \<and> update_mode d' = update_mode d
      \<and> next_addr d \<le> next_addr d'"
    using pc98_metadata_contract[OF b(1,3,4,6,5)] by (simp add: meta_run_def del: lists_False)
qed

lemma pc98_clobber [simp]:
  "pc98_inv devs (d\<lparr>needs_clobber := b\<rparr>) = pc98_inv devs d"
  "pc98_allowed devs (d\<lparr>needs_clobber := b\<rparr>) ty g = pc98_allowed devs d ty g"
  by (simp_all add: pc98_inv_def pc98_allowed_def)

end
