(* ===== verification/Pc98_Attrs.thy ===== *)
theory Pc98_Attrs
  imports Label_Attrs Pc98
begin

text \<open>
  The entries of \<open>pc98_disk_ops\<close> (\<open>labels/pc98.c\<close>) that the wrappers of \<open>disk.c\<close> use: names, which are
  cut to 16 characters and lose the spaces at their end, a grain of one cylinder, and the two flags.
\<close>

definition pc98_attr_ops :: "(PC98PartitionData option, unit) PedAttrOps" where
  "pc98_attr_ops = (no_attr_ops ''pc98'')
     \<lparr>op_partition_set_name := Some pc98_partition_set_name,
      op_partition_get_name := Some (\<lambda>part. (pc98_partition_get_name part, part)),
      op_get_partition_alignment := Some pc98_get_partition_alignment\<rparr>"

lemma pc98_flag_unavailable [simp]: "\<not> ped_disk_is_flag_available pc98_attr_ops d flag"
  by (simp add: ped_disk_is_flag_available_def pc98_attr_ops_def no_attr_ops_def)

lemma pc98_features [simp]: "ped_disk_type_check_feature pc98_disk_ops k = has_bit 2 k"
  by (simp add: ped_disk_type_check_feature_def)

interpretation pc98_flags: table_flags pc98_disk_ops pc98_inv pc98_allowed pc98_attr_ops
  by unfold_locales (simp_all add: ped_disk_get_flag_def)

interpretation pc98_attrs: partition_attrs pc98_disk_ops pc98_attr_ops "\<lambda>p. p_specific p \<noteq> None" pc98_trim
  by unfold_locales
    (auto simp: pc98_attr_ops_def no_attr_ops_def pc98_partition_set_name_def pc98_partition_get_name_def upd_pc98_def
      pc98_data_def has_bit_def)

text \<open>
  Setting a flag: \<open>hidden\<close> is read back; \<open>boot\<close> too, but for the file systems whose type forces it,
  where clearing it reports success and has no effect. Type and flags of the data agree afterwards.
\<close>

lemma pc98_set_flag_spec:
  assumes "p_specific (node d a) = Some x" "pc98_partition_is_flag_available (node d a) flag"
  shows "\<exists>d'. pc98_partition_set_flag d a flag state = (True, d') \<and>
    pc98_partition_get_flag (node d' a) flag =
      (state \<or> flag = PED_PARTITION_BOOT \<and> snd (pc98_system_for (p_fs (node d a)) (g_length (geom_of d a))))"
  using assms
  by (auto simp: pc98_partition_set_flag_def pc98_partition_set_system_def pc98_partition_is_flag_available_def upd_pc98_def
      pc98_with_system_def pc98_partition_get_flag_def pc98_data_def upd_node_def node_def Let_def split: prod.split)

lemma pc98_boot_cannot_be_cleared:
  "snd (pc98_system_for (Some ''ext2'') len)" "\<not> snd (pc98_system_for (Some ''fat32'') len)"
  by (simp_all add: pc98_system_for_def)

end
