(* ===== verification/Pc98_Disk.thy ===== *)
theory Pc98_Disk
  imports Pc98 Filesys
begin

text \<open>
  The PC-98 table on a device (\<open>libparted/labels/pc98.c\<close>): probing, reading and writing sectors 0
  and 1. What is written is found, and its entries say what the partitions in memory say, with
  cylinders modulo 65536; a partition that does not end on a cylinder boundary is refused before
  anything is written.
\<close>

unbundle bit_operations_syntax

section \<open>Probing and reading\<close>

definition pc98_probe :: "'s PedDeviceArchOps \<Rightarrow> dev_ref \<Rightarrow> 's io_state \<Rightarrow> bool" where
  "pc98_probe ops dev st =
     (if sector_size (dev_of st dev) \<noteq> 512 then False
      else case ped_device_read ops dev (uninit_buffer 1024) 0 2 st of
        (False, _) \<Rightarrow> False
      | (True, buf) \<Rightarrow>
          let part_table = pc98_table_of_bytes buf
          in pc98_check_magic part_table \<and> pc98_check_ipl_signature part_table)"

abbreviation bit7 :: "byte \<Rightarrow> bool" where "bit7 n \<equiv> n AND 0x80 \<noteq> 0"

definition set_bit7 :: "byte \<Rightarrow> bool \<Rightarrow> byte" where
  "set_bit7 n val = (if val then n OR 0x80 else n AND NOT 0x80)"

text \<open>
  The data that the members of an entry give to the partition, which starts at \<open>start\<close>. The name is
  set by \<open>ped_partition_set_name\<close>, whose checks always succeed here.
\<close>

definition pc98_read_data :: "PedDevice \<Rightarrow> PedSector \<Rightarrow> PC98RawPartition \<Rightarrow> PC98PartitionData \<Rightarrow> PC98PartitionData" where
  "pc98_read_data dev start raw x =
     (let ipl = pc98_chs_to_sector dev (uint (pc_ipl_cyl raw)) (uint (pc_ipl_head raw)) (uint (pc_ipl_sect raw))
      in x\<lparr>pc_system := push_bit 8 (ucast (pc_mid raw)) OR ucast (pc_sid raw), pc_boot := bit7 (pc_mid raw),
           pc_hidden := \<not> bit7 (pc_sid raw), pc_name := pc98_trim (map char_of_byte (pc_raw_name raw)),
           pc_ipl_sector := (if ipl = start then 0 else ipl)\<rparr>)"

fun pc98_read_entries ::
    "'s PedDeviceArchOps \<Rightarrow> PedExceptionHandler \<Rightarrow> 's PedFileSystemType list \<Rightarrow> PC98RawTable \<Rightarrow>
     nat list \<Rightarrow> PC98Disk \<Rightarrow> 's io_state \<Rightarrow> (bool \<times> PC98Disk \<times> 's io_state) option" where
  "pc98_read_entries ops ask fs_types table [] d st = Some (True, d, st)"
| "pc98_read_entries ops ask fs_types table (i # is) d st =
     (let raw = pc_partitions table ! i; dev = dev_of st (d_dev d);
          part_start = pc98_legacy_start dev raw; part_end = pc98_legacy_end dev raw
      in if pc98_is_unused raw then pc98_read_entries ops ask fs_types table is d st
      else case ped_partition_new pc98_disk_ops d PED_PARTITION_NORMAL None part_start part_end of
        Inl _ \<Rightarrow> Some (False, d, st)
      | Inr part \<Rightarrow>
          let (d, a) = alloc_node d ((upd_pc98 (pc98_read_data dev (g_start (p_geom part)) raw) part)\<lparr>p_num := int i + 1\<rparr>)
          in case ped_disk_add_partition pc98_disk_ops (dev_tab st) ask a
                    (ped_constraint_any (dev_tab st) (d_dev d)) d of
               (Inl _, d) \<Rightarrow> Some (False, d, st)
             | (Inr _, d) \<Rightarrow>
                 if g_start (geom_of d a) \<noteq> part_start \<or> g_end (geom_of d a) \<noteq> part_end then Some (False, d, st)
                 else case ped_file_system_probe ops fs_types (geom_of d a) st of
                   None \<Rightarrow> None
                 | Some (fs, st) \<Rightarrow>
                     pc98_read_entries ops ask fs_types table is (upd_node a (\<lambda>p. p\<lparr>p_fs := map_option fs_name fs\<rparr>) d) st)"

text \<open>
  Whatever the user answers to the exception about the table counts as an error; only when it is
  not handled does the code go on.
\<close>

definition pc98_read_table ::
    "'s PedDeviceArchOps \<Rightarrow> PedExceptionHandler \<Rightarrow> 's PedFileSystemType list \<Rightarrow> PC98Disk \<Rightarrow> 's io_state \<Rightarrow>
     (bool \<times> PC98Disk \<times> 's io_state) option" where
  "pc98_read_table ops ask fs_types d st =
     (let failed = (\<lambda>d st. Some (False, ped_disk_delete_all pc98_disk_ops (dev_tab st) ask d, st))
      in case ped_device_read ops (d_dev d) (uninit_buffer 1024) 0 2 st of
           (False, _) \<Rightarrow> failed d st
         | (True, buf) \<Rightarrow>
             let table = pc98_table_of_bytes buf
             in if \<not> pc98_check_magic table \<and>
                   ask (error_ignore_cancel ''Invalid partition table on %s.'' [AStr (dev_path (dev_of st (d_dev d)))])
                     \<noteq> PED_EXCEPTION_UNHANDLED
                then failed d st
                else case pc98_read_entries ops ask fs_types table [0..<MAX_PART_COUNT] d st of
                  None \<Rightarrow> None
                | Some (ok, d, st) \<Rightarrow> if ok then Some (True, d, st) else failed d st)"

definition pc98_read ::
    "'s PedDeviceArchOps \<Rightarrow> PedExceptionHandler \<Rightarrow> 's PedFileSystemType list \<Rightarrow> PC98Disk \<Rightarrow> 's io_state \<Rightarrow>
     (bool \<times> PC98Disk \<times> 's io_state) option" where
  "pc98_read ops ask fs_types d st =
     pc98_read_table ops ask fs_types (ped_disk_delete_all pc98_disk_ops (dev_tab st) ask d) st"

section \<open>Writing\<close>

text \<open>The name that is stored: the name of the file system when the partition has none.\<close>

definition pc98_shown_name :: "PC98Part \<Rightarrow> string" where
  "pc98_shown_name part =
     (let name = pc98_partition_get_name part
      in case p_fs part of None \<Rightarrow> name | Some fs \<Rightarrow> if name = [] then fs else name)"

definition pc98_fill_raw_part :: "PedDevice \<Rightarrow> PC98Part \<Rightarrow> PC98RawPartition \<Rightarrow> PC98RawPartition option" where
  "pc98_fill_raw_part dev part raw =
     (let x = pc98_data part;
          (c, h, s) = pc98_sector_to_chs dev (g_start (p_geom part));
          raw = raw\<lparr>pc_mid := set_bit7 (ucast (drop_bit 8 (pc_system x) AND 0xFF)) (pc_boot x),
                    pc_sid := set_bit7 (ucast (pc_system x AND 0xFF)) (\<not> pc_hidden x),
                    pc_raw_name := overwrite (map byte_of_char (pc98_shown_name part)) (replicate 16 0x20),
                    pc_cyl := word_of_int c, pc_head := word_of_int h, pc_sector := word_of_int s\<rparr>;
          raw = (if pc_ipl_sector x \<noteq> 0
                 then case pc98_sector_to_chs dev (pc_ipl_sector x) of
                   (c, h, s) \<Rightarrow> raw\<lparr>pc_ipl_cyl := word_of_int c, pc_ipl_head := word_of_int h, pc_ipl_sect := word_of_int s\<rparr>
                 else raw\<lparr>pc_ipl_cyl := pc_cyl raw, pc_ipl_head := pc_head raw, pc_ipl_sect := pc_sector raw\<rparr>);
          (c, h, s) = pc98_sector_to_chs dev (g_end (p_geom part))
      in if h \<noteq> heads (hw_geom dev) - 1 \<or> s \<noteq> sectors (hw_geom dev) - 1 then None
         else Some (raw\<lparr>pc_end_cyl := word_of_int c, pc_end_head := 0, pc_end_sector := 0\<rparr>))"

fun pc98_fill_table :: "PedDevice \<Rightarrow> PC98Disk \<Rightarrow> nat list \<Rightarrow> PC98RawPartition list \<Rightarrow> PC98RawPartition list option" where
  "pc98_fill_table dev d [] raws = Some raws"
| "pc98_fill_table dev d (i # is) raws =
     (case ped_disk_get_partition d (int i + 1) of
        None \<Rightarrow> pc98_fill_table dev d is raws
      | Some part \<Rightarrow>
          (case pc98_fill_raw_part dev (node d part) (raws ! i) of
             None \<Rightarrow> None
           | Some raw \<Rightarrow> pc98_fill_table dev d is (raws[i := raw])))"

definition pc98_zero_part :: PC98RawPartition where
  "pc98_zero_part = pc98_part_of_bytes (replicate 32 0)"

definition pc98_with_boot_code :: "PC98RawTable \<Rightarrow> PC98RawTable" where
  "pc98_with_boot_code table =
     (if pc98_check_ipl_signature table then table
      else table\<lparr>pc_boot_code := overwrite PC98_BOOT_CODE (replicate 510 0)\<rparr>)"

definition pc98_write :: "'s PedDeviceArchOps \<Rightarrow> PC98Disk \<Rightarrow> 's io_state \<Rightarrow> bool \<times> 's io_state" where
  "pc98_write ops d st =
     (case ptt_read_sectors ops (d_dev d) 0 2 st of
        None \<Rightarrow> (False, st)
      | Some s0 \<Rightarrow>
          let table = (pc98_with_boot_code (pc98_table_of_bytes s0))\<lparr>pc_magic := PC9800_EXTFMT_MAGIC\<rparr>
          in case pc98_fill_table (dev_of st (d_dev d)) d [0..<MAX_PART_COUNT] (replicate MAX_PART_COUNT pc98_zero_part) of
               None \<Rightarrow> (False, st)
             | Some raws \<Rightarrow>
                 (case ped_device_write ops (d_dev d) (overwrite (pc98_table_bytes (table\<lparr>pc_partitions := raws\<rparr>)) s0) 0 2 st of
                    (False, st) \<Rightarrow> (False, st)
                  | (True, st) \<Rightarrow> ped_device_sync ops (d_dev d) st))"

section \<open>The table as bytes\<close>

definition pc98_table_wf :: "PC98RawTable \<Rightarrow> bool" where
  "pc98_table_wf t \<longleftrightarrow> length (pc_boot_code t) = 510 \<and> length (pc_partitions t) = 16
     \<and> (\<forall>p \<in> set (pc_partitions t). length (pc_raw_name p) = 16)"

lemma length_pc98_part_bytes: "length (pc_raw_name p) = 16 \<Longrightarrow> length (pc98_part_bytes p) = 32"
  by (simp add: pc98_part_bytes_def)

lemma pc98_part_roundtrip: "length (pc_raw_name p) = 16 \<Longrightarrow> pc98_part_of_bytes (pc98_part_bytes p) = p"
  by (simp add: pc98_part_of_bytes_def pc98_part_bytes_def field_def nth_append nth_Cons')

lemma pc98_table_roundtrip:
  assumes "pc98_table_wf t"
  shows "length (pc98_table_bytes t) = 1024" "pc98_table_of_bytes (pc98_table_bytes t @ rest) = t"
proof -
  let ?ps = "pc_partitions t"
  have l: "length (concat (map pc98_part_bytes ?ps)) = 512"
    using assms length_concat_const[of ?ps pc98_part_bytes 32] by (simp add: pc98_table_wf_def length_pc98_part_bytes)
  then show "length (pc98_table_bytes t) = 1024" using assms by (simp add: pc98_table_bytes_def pc98_table_wf_def)
  have "raw_array pc98_part_of_bytes 32 (length ?ps) (concat (map pc98_part_bytes ?ps)) = ?ps"
    using assms by (intro raw_array_concat) (simp add: pc98_table_wf_def length_pc98_part_bytes pc98_part_roundtrip)
  then show "pc98_table_of_bytes (pc98_table_bytes t @ rest) = t"
    using assms l by (simp add: pc98_table_of_bytes_def pc98_table_bytes_def pc98_table_wf_def field_def)
qed

section \<open>Addresses of an entry\<close>

text \<open>
  Geometries whose heads and sectors fit into a byte, and whose 65536 cylinders into 31 bits. What
  an address of an entry means is the sector modulo 65536 cylinders.
\<close>

definition pc98_chs_ok :: "PedDevice \<Rightarrow> bool" where
  "pc98_chs_ok dev \<longleftrightarrow> 0 < heads (hw_geom dev) \<and> heads (hw_geom dev) \<le> 256 \<and> 0 < sectors (hw_geom dev)
     \<and> sectors (hw_geom dev) \<le> 256 \<and> cylinder_size (hw_geom dev) \<le> 2 ^ 15"

definition pc98_span :: "PedDevice \<Rightarrow> int" where
  "pc98_span dev = cylinder_size (hw_geom dev) * 65536"

lemma word16_c_int: "(word_of_int (c_int y) :: 16 word) = word_of_int y"
  by (rule bit_word_eqI) (simp add: c_int_def bit_simps)

lemma pc98_sector_to_chs_eq:
  assumes "pc98_chs_ok dev" "0 \<le> x"
  shows "pc98_sector_to_chs dev x = (c_int (x div cylinder_size (hw_geom dev)),
    x mod cylinder_size (hw_geom dev) div sectors (hw_geom dev), x mod sectors (hw_geom dev))"
    "x mod cylinder_size (hw_geom dev) div sectors (hw_geom dev) < heads (hw_geom dev)"
proof -
  let ?H = "heads (hw_geom dev)" and ?S = "sectors (hw_geom dev)" and ?b = "cylinder_size (hw_geom dev)"
  have b: "?b = ?H * ?S" "0 < ?H" "?H \<le> 256" "0 < ?S" "?S \<le> 256" using assms(1) by (simp_all add: pc98_chs_ok_def cylinder_size_def)
  have p: "0 < ?b" using b by simp
  have m: "0 \<le> x mod ?b" "x mod ?b < ?H * ?S" using p b(1) by simp_all
  have "x mod ?b div ?S * ?S \<le> x mod ?b"
    using b(4) pos_mod_sign[of ?S "x mod ?b"] div_mult_mod_eq[of "x mod ?b" ?S] by linarith
  then have "x mod ?b div ?S * ?S < ?H * ?S" using m(2) by linarith
  then have h: "0 \<le> x mod ?b div ?S" "x mod ?b div ?S < ?H"
    using m b(4) by (simp_all add: pos_imp_zdiv_nonneg_iff)
  then show "x mod ?b div ?S < ?H" by simp
  have s: "0 \<le> x mod ?S" "x mod ?S < ?S" using b(4) by simp_all
  have r: "x mod ?b mod ?S = x mod ?S" by (simp add: b(1) mod_mod_cancel)
  have c: "heads (hw_geom dev) * sectors (hw_geom dev) = ?b" using b(1) by simp
  have d: "x sdiv ?b = x div ?b" "x smod ?b = x mod ?b" "x mod ?b sdiv ?S = x mod ?b div ?S" "x mod ?b smod ?S = x mod ?S"
    using assms(2) p m(1) b(4) r by (simp_all add: sdiv_nonneg_eq smod_nonneg_eq)
  have i: "c_int (x mod ?b div ?S) = x mod ?b div ?S" "c_int (x mod ?S) = x mod ?S"
    using h s b(3,5) by (simp_all add: c_int_id)
  show "pc98_sector_to_chs dev x = (c_int (x div ?b), x mod ?b div ?S, x mod ?S)"
    unfolding pc98_sector_to_chs_def Let_def c d i ..
qed

lemma pc98_chs_roundtrip:
  assumes ok: "pc98_chs_ok dev" and x: "0 \<le> x" and chs: "pc98_sector_to_chs dev x = (c, h, s)"
  shows "pc98_chs_to_sector dev (uint (word_of_int c :: 16 word)) h s = x mod pc98_span dev"
    "uint (word_of_int h :: byte) = h" "uint (word_of_int s :: byte) = s"
proof -
  let ?H = "heads (hw_geom dev)" and ?S = "sectors (hw_geom dev)" and ?b = "cylinder_size (hw_geom dev)"
  have b: "?b = ?H * ?S" "0 < ?H" "?H \<le> 256" "0 < ?S" "?S \<le> 256" "?b \<le> 2 ^ 15"
    using ok by (simp_all add: pc98_chs_ok_def cylinder_size_def)
  have p: "0 < ?b" using b(1,2,4) by simp
  have e: "c = c_int (x div ?b)" "h = x mod ?b div ?S" "s = x mod ?S" "h < ?H"
    using pc98_sector_to_chs_eq[OF ok x] chs by simp_all
  have h0: "0 \<le> h" using e(2) p b(4) by (simp add: pos_imp_zdiv_nonneg_iff)
  have s0: "0 \<le> s" "s < ?S" using e(3) b(4) by simp_all
  show "uint (word_of_int h :: byte) = h" "uint (word_of_int s :: byte) = s"
    using h0 e(4) s0 b(3,5) by (simp_all add: uint_word_of_int)
  have c: "uint (word_of_int c :: 16 word) = x div ?b mod 65536" by (simp add: e(1) word16_c_int uint_word_of_int)
  have "x mod ?b = h * ?S + s"
    using div_mult_mod_eq[of "x mod ?b" ?S] by (simp add: e(2,3) b(1) mod_mod_cancel)
  moreover have "x mod pc98_span dev = ?b * (x div ?b mod 65536) + x mod ?b"
    using p by (simp add: pc98_span_def zmod_zmult2_eq)
  ultimately have "x mod pc98_span dev = (x div ?b mod 65536 * ?H + h) * ?S + s"
    by (simp add: b(1) algebra_simps)
  moreover have "x mod pc98_span dev < 2 ^ 31" "0 \<le> x mod pc98_span dev"
  proof -
    have "0 < pc98_span dev" "pc98_span dev \<le> 2 ^ 31" using p b(6) by (simp_all add: pc98_span_def)
    then show "x mod pc98_span dev < 2 ^ 31" "0 \<le> x mod pc98_span dev"
      by (auto intro: order.strict_trans2[OF pos_mod_bound])
  qed
  ultimately show "pc98_chs_to_sector dev (uint (word_of_int c :: 16 word)) h s = x mod pc98_span dev"
    by (simp add: pc98_chs_to_sector_def c c_int_id)
qed

text \<open>The check of the end of a partition.\<close>

lemma pc98_end_on_boundary:
  assumes ok: "pc98_chs_ok dev" and x: "0 \<le> x" and chs: "pc98_sector_to_chs dev x = (c, h, s)"
  shows "h = heads (hw_geom dev) - 1 \<and> s = sectors (hw_geom dev) - 1 \<longleftrightarrow> cylinder_size (hw_geom dev) dvd x + 1"
proof -
  let ?H = "heads (hw_geom dev)" and ?S = "sectors (hw_geom dev)" and ?b = "cylinder_size (hw_geom dev)"
  have b: "?b = ?H * ?S" "0 < ?H" "0 < ?S" using ok by (simp_all add: pc98_chs_ok_def cylinder_size_def)
  have p: "0 < ?b" using b by simp
  have e: "h = x mod ?b div ?S" "s = x mod ?S" "h < ?H" using pc98_sector_to_chs_eq[OF ok x] chs by simp_all
  have m: "x mod ?b = h * ?S + s" using div_mult_mod_eq[of "x mod ?b" ?S] by (simp add: e(1,2) b(1) mod_mod_cancel)
  have s: "s < ?S" using e(2) b(3) by simp
  have "?b dvd x + 1 \<longleftrightarrow> x mod ?b = ?b - 1"
  proof
    assume "?b dvd x + 1"
    then have "(x + 1 - 1) mod ?b = (0 - 1) mod ?b" by (metis dvd_imp_mod_0 mod_diff_left_eq)
    then show "x mod ?b = ?b - 1" using p by (simp add: zmod_minus1)
  next
    assume "x mod ?b = ?b - 1"
    then have "(x + 1) mod ?b = 0" by (metis add.commute add_diff_cancel_right' diff_add_cancel mod_add_left_eq mod_self)
    then show "?b dvd x + 1" by (simp add: dvd_eq_mod_eq_0)
  qed
  moreover have "h * ?S + s = ?b - 1 \<longleftrightarrow> h = ?H - 1 \<and> s = ?S - 1"
  proof
    assume q: "h * ?S + s = ?b - 1"
    have "h = ?H - 1"
    proof (rule ccontr)
      assume "h \<noteq> ?H - 1"
      then have "h + 1 \<le> ?H - 1" using e(3) by simp
      then have "(h + 1) * ?S \<le> (?H - 1) * ?S" using b(3) by (intro mult_right_mono) simp_all
      then show False using q s b(1,3) by (simp add: algebra_simps)
    qed
    moreover from this have "(?H - 1) * ?S + s = ?H * ?S - 1" using q b(1) by simp
    ultimately show "h = ?H - 1 \<and> s = ?S - 1" by (simp add: left_diff_distrib)
  next
    assume "h = ?H - 1 \<and> s = ?S - 1"
    then show "h * ?S + s = ?b - 1" by (simp add: b(1) left_diff_distrib)
  qed
  ultimately show ?thesis using m by simp
qed

section \<open>Members of an entry\<close>

lemma bit7_iff: "bit7 n \<longleftrightarrow> bit n 7"
  using and_exp_eq_0_iff_not_bit[of n 7] by simp

lemma bit7_set [simp]: "bit7 (set_bit7 n v) = v"
  unfolding bit7_iff by (simp add: set_bit7_def bit_simps)

definition pc98_stored_system :: "PC98PartitionData \<Rightarrow> 32 word" where
  "pc98_stored_system x = (pc_system x AND 0x7F7F) OR (if pc_boot x then 0x8000 else 0) OR (if pc_hidden x then 0 else 0x80)"

lemma bit_set_bit7: "bit (set_bit7 b v) k \<longleftrightarrow> (if k = 7 then v else bit b k)"
proof -
  have m: "bit (0x80 :: byte) k \<longleftrightarrow> k = 7"
    using bit_exp_iff[where ?'a = "8 word", of 7 k] by (auto simp: possible_bit_word)
  show ?thesis
  proof (cases v)
    case False
    have "bit (b AND NOT 0x80) k \<longleftrightarrow> bit b k \<and> k \<noteq> 7"
      unfolding bit_and_iff bit_not_iff m possible_bit_word using bit_imp_le_length[of b k] by blast
    then show ?thesis using False by (simp add: set_bit7_def)
  next
    case True
    show ?thesis unfolding set_bit7_def if_P[OF True] bit_or_iff m using True by auto
  qed
qed

lemma bit_pc98_stored_system:
  assumes "n < 32"
  shows "bit (pc98_stored_system x) n \<longleftrightarrow>
    (if n = 7 then \<not> pc_hidden x else if n = 15 then pc_boot x else n < 15 \<and> bit (pc_system x) n)"
proof -
  have "list_all (\<lambda>n. bit (0x7F7F :: 32 word) n = (n < 15 \<and> n \<noteq> 7)) [0..<32]"
    "list_all (\<lambda>n. bit (0x8000 :: 32 word) n = (n = 15)) [0..<32]"
    "list_all (\<lambda>n. bit (0x80 :: 32 word) n = (n = 7)) [0..<32]"
    by code_simp+
  then have m: "bit (0x7F7F :: 32 word) n = (n < 15 \<and> n \<noteq> 7)" "bit (0x8000 :: 32 word) n = (n = 15)"
    "bit (0x80 :: 32 word) n = (n = 7)" using assms unfolding list_all_iff by auto
  have i: "bit (if P then u else v) n = (if P then bit u n else bit v n)" for P and u v :: "32 word" by simp
  show ?thesis unfolding pc98_stored_system_def bit_or_iff bit_and_iff i m bit_0_eq bot_apply by auto
qed

lemma pc98_system_roundtrip:
  "push_bit 8 (ucast (set_bit7 (ucast (drop_bit 8 (pc_system x) AND 0xFF)) (pc_boot x)))
     OR ucast (set_bit7 (ucast (pc_system x AND 0xFF)) (\<not> pc_hidden x)) = pc98_stored_system x" (is "?l = _")
proof (rule bit_word_eqI)
  fix n assume "n < LENGTH(32)"
  then have n: "n < 32" by simp
  have ff: "(0xFF :: 32 word) = mask 8" by (simp add: mask_eq_exp_minus_1)
  show "bit ?l n = bit (pc98_stored_system x) n"
    unfolding bit_pc98_stored_system[OF n] ff using n
    by (auto simp: bit_or_iff bit_push_bit_iff bit_ucast_iff bit_set_bit7 bit_and_iff bit_mask_iff bit_drop_bit_eq
        possible_bit_word)
qed

lemma pc98_trim_fixed:
  assumes "pc98_trim n = n"
  shows "length n \<le> 16" "pc98_trim (n @ replicate (16 - length n) (CHR '' '')) = n"
proof -
  let ?P = "\<lambda>c. c = CHR '' ''" and ?t = "takeWhile (\<lambda>c. c \<noteq> CHR 0x00) (take 16 n)"
  have r: "rev (dropWhile ?P (rev ?t)) = n" using assms by (simp add: pc98_trim_def)
  have "length n \<le> length ?t" using length_dropWhile_le[of ?P "rev ?t"] arg_cong[OF r, of length] by simp
  moreover have "length ?t \<le> length (take 16 n)" by (rule length_takeWhile_le)
  moreover have "length (take 16 n) \<le> 16" "length (take 16 n) \<le> length n" by simp_all
  ultimately have l: "length n \<le> 16" "length ?t = length n" by linarith+
  then show "length n \<le> 16" by simp
  have t: "?t = n" using takeWhile_eq_take[of "\<lambda>c. c \<noteq> CHR 0x00" "take 16 n"] l by simp
  have nn: "\<forall>c \<in> set n. c \<noteq> CHR 0x00" using set_takeWhileD[of _ "\<lambda>c. c \<noteq> CHR 0x00" "take 16 n"] unfolding t by blast
  have d: "dropWhile ?P (rev n) = rev n" using r unfolding t by (metis rev_rev_ident)
  let ?m = "n @ replicate (16 - length n) (CHR '' '')"
  have "takeWhile (\<lambda>c. c \<noteq> CHR 0x00) (take 16 ?m) = ?m" using l(1) nn by (simp add: takeWhile_eq_all_conv)
  moreover have "dropWhile ?P (replicate k (CHR '' '') @ ys) = dropWhile ?P ys" for k ys by (induction k) auto
  ultimately show "pc98_trim ?m = n" by (simp add: pc98_trim_def d)
qed

lemma char_of_byte_of_char: "char_of_byte (byte_of_char c) = c"
proof -
  have "(of_char c :: nat) < 256" by simp
  then have "unat (of_nat (of_char c) :: byte) = of_char c" by (simp add: unat_of_nat take_bit_eq_mod)
  then show ?thesis by (simp add: char_of_byte_def byte_of_char_def)
qed

lemma pc98_name_roundtrip:
  assumes "pc98_trim n = n"
  shows "length (overwrite (map byte_of_char n) (replicate 16 0x20)) = 16"
    "pc98_trim (map char_of_byte (overwrite (map byte_of_char n) (replicate 16 0x20))) = n"
proof -
  have s: "char_of_byte 0x20 = CHR '' ''" by (simp add: char_of_byte_def) code_simp
  show "length (overwrite (map byte_of_char n) (replicate 16 0x20)) = 16"
    using pc98_trim_fixed(1)[OF assms] by (simp add: overwrite_def)
  have "map char_of_byte (overwrite (map byte_of_char n) (replicate 16 0x20)) = n @ replicate (16 - length n) (CHR '' '')"
    by (simp add: overwrite_def s map_idI char_of_byte_of_char)
  then show "pc98_trim (map char_of_byte (overwrite (map byte_of_char n) (replicate 16 0x20))) = n"
    using pc98_trim_fixed(2)[OF assms] by simp
qed

section \<open>What an entry says of its partition\<close>

text \<open>Partitions that can be stored, and what reading their entries makes of them.\<close>

definition pc98_fits :: "PedDevice \<Rightarrow> PC98Part \<Rightarrow> bool" where
  "pc98_fits dev part \<longleftrightarrow>
     (let x = pc98_data part in
      0 \<le> g_start (p_geom part) \<and> 0 \<le> g_end (p_geom part) \<and> cylinder_size (hw_geom dev) dvd g_end (p_geom part) + 1
      \<and> 0 \<le> pc_ipl_sector x \<and> pc98_stored_system x \<noteq> 0 \<and> pc98_trim (pc98_shown_name part) = pc98_shown_name part)"

definition pc98_read_as :: "PedDevice \<Rightarrow> PC98Part \<Rightarrow> PC98PartitionData" where
  "pc98_read_as dev part =
     (let x = pc98_data part; start = g_start (p_geom part) mod pc98_span dev; ipl = pc_ipl_sector x mod pc98_span dev
      in \<lparr>pc_ipl_sector = (if pc_ipl_sector x = 0 \<or> ipl = start then 0 else ipl), pc_system = pc98_stored_system x,
          pc_boot = pc_boot x, pc_hidden = pc_hidden x, pc_name = pc98_shown_name part\<rparr>)"

lemma pc98_entry:
  assumes ok: "pc98_chs_ok dev" and fits: "pc98_fits dev part"
  obtains e where "pc98_fill_raw_part dev part raw = Some e" "length (pc_raw_name e) = 16" "\<not> pc98_is_unused e"
    "pc98_legacy_start dev e = g_start (p_geom part) mod pc98_span dev"
    "pc98_legacy_end dev e = g_end (p_geom part) mod pc98_span dev"
    "\<And>x. pc98_read_data dev (pc98_legacy_start dev e) e x = pc98_read_as dev part"
proof -
  let ?x = "pc98_data part" and ?s = "g_start (p_geom part)" and ?e = "g_end (p_geom part)"
  let ?i = "if pc_ipl_sector ?x = 0 then ?s else pc_ipl_sector ?x"
  have f: "0 \<le> ?s" "0 \<le> ?e" "cylinder_size (hw_geom dev) dvd ?e + 1" "0 \<le> ?i" "pc98_stored_system ?x \<noteq> 0"
    "pc98_trim (pc98_shown_name part) = pc98_shown_name part"
    using fits by (simp_all add: pc98_fits_def Let_def)
  obtain c h s where chs: "pc98_sector_to_chs dev ?s = (c, h, s)" by (metis prod_cases3)
  obtain c1 h1 s1 where chs1: "pc98_sector_to_chs dev ?e = (c1, h1, s1)" by (metis prod_cases3)
  obtain c2 h2 s2 where chs2: "pc98_sector_to_chs dev ?i = (c2, h2, s2)" by (metis prod_cases3)
  note r = pc98_chs_roundtrip[OF ok f(1) chs] and r1 = pc98_chs_roundtrip[OF ok f(2) chs1]
    and r2 = pc98_chs_roundtrip[OF ok f(4) chs2]
  have b: "h1 = heads (hw_geom dev) - 1" "s1 = sectors (hw_geom dev) - 1"
    using pc98_end_on_boundary[OF ok f(2) chs1] f(3) by simp_all
  define e where "e = raw\<lparr>pc_mid := set_bit7 (ucast (drop_bit 8 (pc_system ?x) AND 0xFF)) (pc_boot ?x),
      pc_sid := set_bit7 (ucast (pc_system ?x AND 0xFF)) (\<not> pc_hidden ?x),
      pc_raw_name := overwrite (map byte_of_char (pc98_shown_name part)) (replicate 16 0x20),
      pc_cyl := word_of_int c, pc_head := word_of_int h, pc_sector := word_of_int s,
      pc_ipl_cyl := word_of_int c2, pc_ipl_head := word_of_int h2, pc_ipl_sect := word_of_int s2,
      pc_end_cyl := word_of_int c1, pc_end_head := 0, pc_end_sector := 0\<rparr>"
  have "pc98_fill_raw_part dev part raw = Some e"
    using chs chs1 chs2 b by (auto simp: pc98_fill_raw_part_def Let_def e_def split: if_splits)
  moreover have st: "pc98_legacy_start dev e = ?s mod pc98_span dev" using r by (simp add: pc98_legacy_start_def e_def)
  moreover have "pc98_legacy_end dev e = ?e mod pc98_span dev" using r1 b by (simp add: pc98_legacy_end_def e_def)
  moreover have "length (pc_raw_name e) = 16" using pc98_name_roundtrip(1)[OF f(6)] by (simp add: e_def)
  moreover have sys: "push_bit 8 (ucast (pc_mid e)) OR ucast (pc_sid e) = pc98_stored_system ?x"
    using pc98_system_roundtrip[of ?x] by (simp add: e_def)
  have "pc_mid e \<noteq> 0 \<or> pc_sid e \<noteq> 0" using sys f(5) by auto
  then have "\<not> pc98_is_unused e" by (auto simp: pc98_is_unused_def)
  moreover have "pc98_read_data dev (pc98_legacy_start dev e) e x = pc98_read_as dev part" for x
  proof -
    have "pc98_chs_to_sector dev (uint (pc_ipl_cyl e)) (uint (pc_ipl_head e)) (uint (pc_ipl_sect e)) = ?i mod pc98_span dev"
      using r2 by (simp add: e_def)
    moreover have "bit7 (pc_mid e) = pc_boot ?x" "bit7 (pc_sid e) = (\<not> pc_hidden ?x)" by (simp_all add: e_def)
    moreover have "pc98_trim (map char_of_byte (pc_raw_name e)) = pc98_shown_name part"
      using pc98_name_roundtrip(2)[OF f(6)] by (simp add: e_def)
    ultimately show ?thesis by (simp add: pc98_read_data_def pc98_read_as_def Let_def st sys)
  qed
  ultimately show thesis using that by blast
qed

lemma pc98_unaligned:
  assumes "pc98_chs_ok dev" "0 \<le> g_end (p_geom part)" "\<not> cylinder_size (hw_geom dev) dvd g_end (p_geom part) + 1"
  shows "pc98_fill_raw_part dev part raw = None"
proof -
  obtain c h s where chs: "pc98_sector_to_chs dev (g_end (p_geom part)) = (c, h, s)" by (metis prod_cases3)
  show ?thesis using pc98_end_on_boundary[OF assms(1,2) chs] assms(3) chs
    by (auto simp: pc98_fill_raw_part_def Let_def split: prod.split)
qed

lemma pc98_zero_part_props:
  "length (pc_raw_name pc98_zero_part) = 16" "pc98_is_unused pc98_zero_part"
  by code_simp+

section \<open>The loop over the numbers\<close>

lemma pc98_fill_table_None:
  assumes "i \<in> set is" "ped_disk_get_partition d (int i + 1) = Some part"
    and "\<And>raw. pc98_fill_raw_part dev (node d part) raw = None"
  shows "pc98_fill_table dev d is raws = None"
  using assms(1) by (induction "is" arbitrary: raws) (auto simp: assms(2,3) split: option.split)

lemma pc98_fill_table_Some:
  assumes "distinct is" "\<forall>i \<in> set is. i < length raws"
    and "\<forall>i \<in> set is. \<forall>part. ped_disk_get_partition d (int i + 1) = Some part \<longrightarrow>
      (\<exists>e. pc98_fill_raw_part dev (node d part) (raws ! i) = Some e)"
  shows "\<exists>raws'. pc98_fill_table dev d is raws = Some raws' \<and> length raws' = length raws \<and>
    (\<forall>j < length raws. raws' ! j =
      (case ped_disk_get_partition d (int j + 1) of
         None \<Rightarrow> raws ! j
       | Some part \<Rightarrow> if j \<in> set is then the (pc98_fill_raw_part dev (node d part) (raws ! j)) else raws ! j))"
  using assms
proof (induction "is" arbitrary: raws)
  case Nil
  then show ?case by (auto split: option.split)
next
  case (Cons i "is")
  show ?case
  proof (cases "ped_disk_get_partition d (int i + 1)")
    case None
    then show ?thesis using Cons.IH[of raws] Cons.prems by (auto split: option.splits)
  next
    case (Some part)
    then obtain e where e: "pc98_fill_raw_part dev (node d part) (raws ! i) = Some e" using Cons.prems(3) by auto
    let ?r = "raws[i := e]"
    have o: "?r ! j = raws ! j" if "j \<in> set is" for j
      using that Cons.prems(1) by (metis distinct.simps(2) nth_list_update_neq)
    have "\<forall>j \<in> set is. \<forall>part. ped_disk_get_partition d (int j + 1) = Some part \<longrightarrow>
        (\<exists>e. pc98_fill_raw_part dev (node d part) (?r ! j) = Some e)"
      using Cons.prems(3) o by simp
    then obtain raws' where r: "pc98_fill_table dev d is ?r = Some raws'" "length raws' = length raws"
      "\<forall>j < length raws. raws' ! j = (case ped_disk_get_partition d (int j + 1) of None \<Rightarrow> ?r ! j
         | Some part \<Rightarrow> if j \<in> set is then the (pc98_fill_raw_part dev (node d part) (?r ! j)) else ?r ! j)"
      using Cons.IH[of ?r] Cons.prems(1,2) by auto
    have "raws' ! j = (case ped_disk_get_partition d (int j + 1) of None \<Rightarrow> raws ! j
         | Some part \<Rightarrow> if j \<in> set (i # is) then the (pc98_fill_raw_part dev (node d part) (raws ! j)) else raws ! j)"
      if "j < length raws" for j
      using r(3)[rule_format, OF that] o Some e Cons.prems(1) that
      by (cases "j = i") (auto split: option.split)
    then show ?thesis using r(1,2) Some e by simp
  qed
qed

section \<open>Properties\<close>

lemma pc98_boot_code_kept:
  assumes "length (pc_boot_code t) = 510"
  shows "length (pc_boot_code (pc98_with_boot_code t)) = 510" "pc98_check_ipl_signature (pc98_with_boot_code t)"
    "pc98_check_ipl_signature t \<Longrightarrow> pc98_with_boot_code t = t"
proof -
  have "take 4 (drop 4 (overwrite PC98_BOOT_CODE (replicate 510 0))) = map byte_of_char ''IPL1''"
    by (simp add: overwrite_def PC98_BOOT_CODE_def byte_of_char_def)
  then show "pc98_check_ipl_signature (pc98_with_boot_code t)"
    by (auto simp: pc98_with_boot_code_def pc98_check_ipl_signature_def Let_def)
  show "length (pc_boot_code (pc98_with_boot_code t)) = 510"
    using assms by (simp add: pc98_with_boot_code_def overwrite_def PC98_BOOT_CODE_def)
qed (simp add: pc98_with_boot_code_def)

lemma pc98_signature_code: "pc98_check_ipl_signature (t\<lparr>pc_magic := m, pc_partitions := ps\<rparr>) = pc98_check_ipl_signature t"
  by (simp add: pc98_check_ipl_signature_def)

text \<open>
  C20. Writing a PC-98 table to a device that works. It succeeds and changes sectors 0 and 1 only; the
  table is found by \<open>pc98_probe\<close>, and boot code that was there is kept. Each of the sixteen entries is
  unused when the table in memory has no partition of that number; otherwise what is read back are
  the first and the last sector, modulo 65536 cylinders, and the data of the partition: its type
  with the two flags in it, its name (or that of its file system) and the place of its loader.
\<close>
theorem pc98_write_is_found:
  assumes "working_device ops (d_dev d) img st" "sector_size (dev_of st (d_dev d)) = 512" "2 \<le> dev_length (dev_of st (d_dev d))"
    and "pc98_chs_ok (dev_of st (d_dev d))"
    and "\<forall>i \<in> {1 .. 16}. \<forall>part. ped_disk_get_partition d i = Some part \<longrightarrow> pc98_fits (dev_of st (d_dev d)) (node d part)"
  shows "\<exists>q. pc98_write ops d st = (True, st\<lparr>platform := q\<rparr>) \<and>
    (let dev = dev_of st (d_dev d); new = img (st\<lparr>platform := q\<rparr>); old_table = pc98_table_of_bytes (img st 0 @ img st 1);
         table = pc98_table_of_bytes (new 0 @ new 1) in
      (\<forall>j. j \<noteq> 0 \<and> j \<noteq> 1 \<longrightarrow> new j = img st j) \<and> pc98_probe ops (d_dev d) (st\<lparr>platform := q\<rparr>) \<and>
      (pc98_check_ipl_signature old_table \<longrightarrow> pc_boot_code table = pc_boot_code old_table) \<and>
      (\<forall>i < 16. let e = pc_partitions table ! i in
         case ped_disk_get_partition d (int i + 1) of
           None \<Rightarrow> pc98_is_unused e
         | Some part \<Rightarrow> \<not> pc98_is_unused e
             \<and> pc98_legacy_start dev e = g_start (geom_of d part) mod pc98_span dev
             \<and> pc98_legacy_end dev e = g_end (geom_of d part) mod pc98_span dev
             \<and> (\<forall>x. pc98_read_data dev (pc98_legacy_start dev e) e x = pc98_read_as dev (node d part))))"
proof -
  let ?dev = "d_dev d" and ?D = "dev_of st (d_dev d)"
  have i: "in_device st ?dev 0 2" "in_device st ?dev 0 1" "in_device st ?dev 1 1"
    using assms(3) by (simp_all add: in_device_def)
  have two: "[0..1 :: int] = [0, 1]" "[0..0 + 2 - 1 :: int] = [0, 1]" by (simp_all add: upto_rec1)
  have len: "length (img st 0) = 512" "length (img st 1) = 512"
    using working_length[OF assms(1) i(2)] working_length[OF assms(1) i(3)] assms(2) by (simp_all add: sector_bytes_def)
  define s0 where "s0 = img st 0 @ img st 1"
  have s0: "ptt_read_sectors ops ?dev 0 2 st = Some s0" "length s0 = 1024"
    using read_sectors_eq[OF assms(1) i(1)] len by (simp_all add: s0_def two)
  define old where "old = pc98_table_of_bytes s0"
  have old: "length (pc_boot_code old) = 510" using s0(2) by (simp add: old_def pc98_table_of_bytes_def field_def)
  note bc = pc98_boot_code_kept[OF old]
  let ?raws = "replicate 16 pc98_zero_part"
  note z = pc98_zero_part_props
  have fill: "\<exists>e. pc98_fill_raw_part ?D (node d part) raw = Some e"
    if "j < 16" "ped_disk_get_partition d (int j + 1) = Some part" for j part raw
    using pc98_entry[OF assms(4), of "node d part" raw] assms(5) that by fastforce
  have inside: "\<forall>j \<in> set [0..<16]. j < length ?raws" by simp
  have "\<forall>j \<in> set [0..<16]. \<forall>part. ped_disk_get_partition d (int j + 1) = Some part \<longrightarrow>
      (\<exists>e. pc98_fill_raw_part ?D (node d part) (?raws ! j) = Some e)" using fill by simp
  from pc98_fill_table_Some[OF distinct_upt inside this] obtain raws where r: "pc98_fill_table ?D d [0..<16] ?raws = Some raws"
    "length raws = length ?raws" "\<forall>j < length ?raws. raws ! j =
      (case ped_disk_get_partition d (int j + 1) of None \<Rightarrow> ?raws ! j
       | Some part \<Rightarrow> if j \<in> set [0..<16] then the (pc98_fill_raw_part ?D (node d part) (?raws ! j)) else ?raws ! j)"
    by (elim exE conjE) (rule that)
  have raws: "pc98_fill_table ?D d [0..<16] ?raws = Some raws" "length raws = 16"
    "\<And>j. j < 16 \<Longrightarrow> raws ! j = (case ped_disk_get_partition d (int j + 1) of None \<Rightarrow> pc98_zero_part
       | Some part \<Rightarrow> the (pc98_fill_raw_part ?D (node d part) pc98_zero_part))"
    using r by (simp_all split: option.split)
  define t where "t = (pc98_with_boot_code old)\<lparr>pc_magic := PC9800_EXTFMT_MAGIC, pc_partitions := raws\<rparr>"
  have entry: "length (pc_raw_name (raws ! j)) = 16 \<and> (case ped_disk_get_partition d (int j + 1) of
           None \<Rightarrow> pc98_is_unused (raws ! j)
         | Some part \<Rightarrow> \<not> pc98_is_unused (raws ! j)
             \<and> pc98_legacy_start ?D (raws ! j) = g_start (geom_of d part) mod pc98_span ?D
             \<and> pc98_legacy_end ?D (raws ! j) = g_end (geom_of d part) mod pc98_span ?D
             \<and> (\<forall>x. pc98_read_data ?D (pc98_legacy_start ?D (raws ! j)) (raws ! j) x = pc98_read_as ?D (node d part)))"
    if "j < 16" for j
  proof (cases "ped_disk_get_partition d (int j + 1)")
    case None
    then show ?thesis using raws(3)[OF that] z by simp
  next
    case (Some part)
    then have "pc98_fits ?D (node d part)" using assms(5) that by auto
    then obtain e where e: "pc98_fill_raw_part ?D (node d part) pc98_zero_part = Some e" "length (pc_raw_name e) = 16"
      "\<not> pc98_is_unused e" "pc98_legacy_start ?D e = g_start (geom_of d part) mod pc98_span ?D"
      "pc98_legacy_end ?D e = g_end (geom_of d part) mod pc98_span ?D"
      "\<And>x. pc98_read_data ?D (pc98_legacy_start ?D e) e x = pc98_read_as ?D (node d part)"
      by (rule pc98_entry[OF assms(4)]) (rule that, assumption+)
    have "raws ! j = e" using raws(3)[OF \<open>j < 16\<close>] Some e(1) by simp
    then show ?thesis using e(2-6) Some by simp
  qed
  have wf: "pc98_table_wf t"
    using bc(1) raws(2) entry unfolding pc98_table_wf_def all_set_conv_all_nth by (simp add: t_def)
  note rt = pc98_table_roundtrip[OF wf]
  have ow: "overwrite (pc98_table_bytes t) s0 = pc98_table_bytes t" using rt(1) s0(2) by (simp add: overwrite_def)
  have sb: "sector_bytes st ?dev 1 = 512" "sector_bytes st ?dev 2 = 1024" using assms(2) by (simp_all add: sector_bytes_def)
  obtain q where q: "ped_device_write ops ?dev (pc98_table_bytes t) 0 2 st = (True, st\<lparr>platform := q\<rparr>)"
    "img (st\<lparr>platform := q\<rparr>) = written 512 (img st) 0 2 (pc98_table_bytes t)"
    using working_write[OF assms(1) i(1), of "pc98_table_bytes t"] rt(1) sb by auto
  obtain q' where q': "ped_device_sync ops ?dev (st\<lparr>platform := q\<rparr>) = (True, st\<lparr>platform := q'\<rparr>)"
    "img (st\<lparr>platform := q'\<rparr>) = img (st\<lparr>platform := q\<rparr>)"
    using assms(1) unfolding working_device_def by blast
  let ?new = "img (st\<lparr>platform := q'\<rparr>)"
  have new: "?new 0 @ ?new 1 = pc98_table_bytes t" "\<And>j. j \<noteq> 0 \<Longrightarrow> j \<noteq> 1 \<Longrightarrow> ?new j = img st j"
  proof -
    show "?new 0 @ ?new 1 = pc98_table_bytes t"
      using sectors_written[of "pc98_table_bytes t" 2 512 "img st" 0] rt(1) unfolding q'(2) q(2) two by simp
    show "?new j = img st j" if "j \<noteq> 0" "j \<noteq> 1" for j
    proof -
      have "\<not> (0 \<le> j \<and> j < 0 + 2)" using that by linarith
      then show ?thesis unfolding q'(2) q(2) written_def by auto
    qed
  qed
  have tab: "pc98_table_of_bytes (?new 0 @ ?new 1) = t" using rt(2)[of "[]"] by (simp add: new(1))
  have w: "pc98_write ops d st = (True, st\<lparr>platform := q'\<rparr>)"
    using s0(1) raws(1) q(1) q'(1) ow by (simp add: pc98_write_def Let_def old_def[symmetric] t_def[symmetric])
  have "working_device ops ?dev img (st\<lparr>platform := q'\<rparr>)" using assms(1) by simp
  then have "ped_device_read ops ?dev (uninit_buffer 1024) 0 2 (st\<lparr>platform := q'\<rparr>) = (True, ?new 0 @ ?new 1)"
    using device_read_eq[of ops ?dev img "st\<lparr>platform := q'\<rparr>" 0 2 "uninit_buffer 1024"] i(1) sb(2)
    by (simp add: in_device_def sector_bytes_def uninit_buffer_def two)
  then have "pc98_probe ops ?dev (st\<lparr>platform := q'\<rparr>)"
    using assms(2) bc(2) tab by (simp add: pc98_probe_def pc98_check_magic_def t_def pc98_signature_code Let_def)
  moreover have "pc98_check_ipl_signature old \<Longrightarrow> pc_boot_code t = pc_boot_code old" using bc(3) by (simp add: t_def)
  moreover have parts: "pc_partitions t = raws" by (simp add: t_def)
  moreover note entry[THEN conjunct2]
  ultimately show ?thesis
    unfolding Let_def old_def[symmetric, unfolded s0_def] using w new(2)
    by (intro exI[of _ q'], unfold tab parts) blast
qed

text \<open>A table with one partition, and a device in memory for it.\<close>

definition pc98_demo :: "PedSector \<Rightarrow> PedSector \<Rightarrow> PC98Disk" where
  "pc98_demo start endd = \<lparr>d_dev = 0, part_list = [0],
     d_heap = [0 \<mapsto> \<lparr>p_geom = \<lparr>g_dev = 0, g_start = start, g_length = endd - start + 1, g_end = endd\<rparr>, p_num = 1,
                     p_type = PED_PARTITION_NORMAL, p_fs = Some ''fat16'', p_list = [],
                     p_specific = Some \<lparr>pc_ipl_sector = 0, pc_system = 0x20A1, pc_boot = False, pc_hidden = False,
                        pc_name = ''DATA''\<rparr>\<rparr>],
     next_addr = 1, needs_clobber = False, update_mode = 0, d_specific = ()\<rparr>"

definition pc98_ram :: "ram io_state" where
  "pc98_ram = ram_state 40000 512 (\<lambda>_. replicate 512 0)"

abbreviation pc98_ram_ops :: "ram PedDeviceArchOps" where
  "pc98_ram_ops \<equiv> uefi_dev_ops (ram_fw 40000 512)"

lemma pc98_demo_facts:
  "d_dev (pc98_demo s e) = 0"
  "ped_disk_get_partition (pc98_demo s e) i = (if i = 1 then Some 0 else None)"
  "node (pc98_demo s e) 0 = \<lparr>p_geom = \<lparr>g_dev = 0, g_start = s, g_length = e - s + 1, g_end = e\<rparr>, p_num = 1,
     p_type = PED_PARTITION_NORMAL, p_fs = Some ''fat16'', p_list = [],
     p_specific = Some \<lparr>pc_ipl_sector = 0, pc_system = 0x20A1, pc_boot = False, pc_hidden = False, pc_name = ''DATA''\<rparr>\<rparr>"
proof -
  show "ped_disk_get_partition (pc98_demo s e) i = (if i = 1 then Some 0 else None)"
    by (simp add: ped_disk_get_partition_def disk_walk_def pc98_demo_def node_def ped_disk_extended_partition_def)
qed (simp_all add: pc98_demo_def node_def)

lemma pc98_ram_facts:
  "working_device pc98_ram_ops 0 (\<lambda>st. ram_blk 512 (platform st)) pc98_ram"
  "sector_size (dev_of pc98_ram 0) = 512" "dev_length (dev_of pc98_ram 0) = 40000"
  "hw_geom (dev_of pc98_ram 0) = \<lparr>cylinders = 0, heads = 255, sectors = 63\<rparr>"
proof -
  show "working_device pc98_ram_ops 0 (\<lambda>st. ram_blk 512 (platform st)) pc98_ram"
    unfolding pc98_ram_def by (rule ram_working) simp_all
qed (simp_all add: pc98_ram_def ram_state_def)

lemma pc98_ram_chs: "pc98_chs_ok (dev_of pc98_ram 0)" "pc98_span (dev_of pc98_ram 0) = 1052835840"
  "cylinder_size (hw_geom (dev_of pc98_ram 0)) = 16065"
  by (simp_all add: pc98_chs_ok_def pc98_span_def pc98_ram_facts(4) cylinder_size_def)

lemma pc98_demo_stored: "pc98_stored_system \<lparr>pc_ipl_sector = 0, pc_system = 0x20A1, pc_boot = False, pc_hidden = False,
    pc_name = ''DATA''\<rparr> = 0x20A1" "pc98_trim ''DATA'' = ''DATA''"
  by code_simp+

theorem pc98_write_is_found_witness:
  "\<exists>q. pc98_write pc98_ram_ops (pc98_demo 16065 32129) pc98_ram = (True, pc98_ram\<lparr>platform := q\<rparr>) \<and>
    pc98_probe pc98_ram_ops 0 (pc98_ram\<lparr>platform := q\<rparr>) \<and>
    (let e = pc_partitions (pc98_table_of_bytes (ram_blk 512 q 0 @ ram_blk 512 q 1)) ! 0; dev = dev_of pc98_ram 0 in
      pc98_legacy_start dev e = 16065 \<and> pc98_legacy_end dev e = 32129 \<and>
      (\<forall>x. pc_name (pc98_read_data dev 16065 e x) = ''DATA''))"
proof -
  let ?d = "pc98_demo 16065 32129"
  have fits: "\<forall>i \<in> {1 .. 16}. \<forall>part. ped_disk_get_partition ?d i = Some part \<longrightarrow> pc98_fits (dev_of pc98_ram (d_dev ?d)) (node ?d part)"
    unfolding pc98_demo_facts(1,2)
    by (simp add: pc98_demo_facts(3) pc98_fits_def pc98_data_def pc98_ram_chs(3) pc98_demo_stored(1) pc98_shown_name_def
        pc98_partition_get_name_def pc98_demo_stored(2) Let_def)
  have two: "2 \<le> dev_length (dev_of pc98_ram 0)" by (simp add: pc98_ram_facts(3))
  let ?e = "\<lambda>q i. pc_partitions (pc98_table_of_bytes (ram_blk 512 q 0 @ ram_blk 512 q 1)) ! i"
  let ?D = "dev_of pc98_ram 0"
  have pl: "platform (pc98_ram\<lparr>platform := q\<rparr>) = q" for q by simp
  obtain q where w: "pc98_write pc98_ram_ops ?d pc98_ram = (True, pc98_ram\<lparr>platform := q\<rparr>)"
    "pc98_probe pc98_ram_ops 0 (pc98_ram\<lparr>platform := q\<rparr>)"
    and e: "\<forall>i < 16. case ped_disk_get_partition ?d (int i + 1) of None \<Rightarrow> pc98_is_unused (?e q i)
      | Some part \<Rightarrow> \<not> pc98_is_unused (?e q i)
          \<and> pc98_legacy_start ?D (?e q i) = g_start (geom_of ?d part) mod pc98_span ?D
          \<and> pc98_legacy_end ?D (?e q i) = g_end (geom_of ?d part) mod pc98_span ?D
          \<and> (\<forall>x. pc98_read_data ?D (pc98_legacy_start ?D (?e q i)) (?e q i) x = pc98_read_as ?D (node ?d part))"
    using pc98_write_is_found[of pc98_ram_ops ?d "\<lambda>st. ram_blk 512 (platform st)" pc98_ram, unfolded pc98_demo_facts(1),
        OF pc98_ram_facts(1,2) two pc98_ram_chs(1) fits[unfolded pc98_demo_facts(1)]]
    unfolding Let_def pl by (elim exE conjE) (rule that)
  have "pc98_legacy_start ?D (?e q 0) = 16065" "pc98_legacy_end ?D (?e q 0) = 32129"
    "\<forall>x. pc98_read_data ?D 16065 (?e q 0) x = pc98_read_as ?D (node ?d 0)"
    using e[rule_format, of 0] by (auto simp: pc98_demo_facts(2,3) pc98_ram_chs(2))
  then show ?thesis
    using w by (intro exI[of _ q]) (simp add: Let_def pc98_read_as_def pc98_demo_facts(3) pc98_data_def pc98_shown_name_def
        pc98_partition_get_name_def)
qed

text \<open>
  A partition that does not end in the last sector of a cylinder: nothing is written at all.
\<close>

lemma pc98_unaligned_is_refused:
  assumes "pc98_chs_ok (dev_of st (d_dev d))" "ped_disk_get_partition d i = Some part" "1 \<le> i" "i \<le> 16"
    and "0 \<le> g_end (geom_of d part)" "\<not> cylinder_size (hw_geom (dev_of st (d_dev d))) dvd g_end (geom_of d part) + 1"
  shows "pc98_write ops d st = (False, st)"
proof -
  have "nat (i - 1) \<in> set [0..<16]" "ped_disk_get_partition d (int (nat (i - 1)) + 1) = Some part"
    using assms(2-4) by auto
  from pc98_fill_table_None[OF this pc98_unaligned[OF assms(1,5,6)]]
  show ?thesis by (simp add: pc98_write_def Let_def split: option.split)
qed

lemma pc98_fresh_ok:
  assumes "0 < cylinder_size (hw_geom (devs dev))" "cylinder_size (hw_geom (devs dev)) < 2 ^ 31" "0 < dev_length (devs dev)"
    and "strict ask"
  shows "\<exists>d. ped_disk_new_fresh pc98_disk_ops devs ask pc98_alloc dev = Some d \<and> disk_ok pc98_inv pc98_allowed devs d
    \<and> (\<forall>k. actives d k = []) \<and> needs_clobber d \<and> d_dev d = dev"
proof -
  obtain d0 where d0: "pc98_alloc dev = Some d0" "bare devs dev d0" "d_dev d0 = dev"
    using assms(3) by (simp add: pc98_alloc_def bare_def ped_disk_alloc_def)
  have "pc98_inv devs d0" using d0(3) assms(1,2) by (simp add: pc98_inv_def)
  from pc98.fresh_disk_ok[where alloc = pc98_alloc, OF d0(1,2) this assms(4)] show ?thesis by auto
qed

end
